(* ===== verification/Prelude.thy ===== *)
theory Prelude
  imports Complex_Main "HOL-Library.Sublist" "HOL-Library.Product_Lexorder"
begin

text \<open>
  Shared vocabulary of the development.

  Times are epoch milliseconds (\<open>millis\<close>); an ISO column of the database holds the same
  instant as text (\<open>toISOString\<close> and \<open>Date.parse\<close> are inverse on it), so it is modelled
  by its instant, with \<open>None\<close> for NULL or for text that does not parse (the code's NaN).
  JavaScript strings are lists of characters, one per UTF-16 code unit; the three
  non-ASCII punctuation marks the program writes sit at their Windows-1252 places, so that
  string lengths agree with the code's.
  The collections below gather the facts most component proofs share.
\<close>

named_theorems row_simps "how the fields of a stored row change under a table operation"
named_theorems frame_simps "what an operation leaves alone"

type_synonym millis = int

definition ellipsis :: char where "ellipsis = CHR 0x85"
definition em_dash :: char where "em_dash = CHR 0x97"
definition bullet :: char where "bullet = CHR 0x95"

section \<open>JavaScript conventions\<close>

text \<open>\<open>if (s)\<close> on a string that may be null or undefined: absent and empty are both false.\<close>

definition truthy :: "string option \<Rightarrow> bool" where
  "truthy s = (case s of None \<Rightarrow> False | Some t \<Rightarrow> t \<noteq> [])"

lemma truthy_simps [simp]:
  "truthy None = False"
  "truthy (Some t) = (t \<noteq> [])"
  by (simp_all add: truthy_def)

lemma truthyD: "truthy s \<Longrightarrow> \<exists>t. s = Some t \<and> t \<noteq> []"
  by (cases s) auto

text \<open>\<open>a ?? b\<close>.\<close>

definition coalesce :: "'a option \<Rightarrow> 'a \<Rightarrow> 'a" where
  "coalesce a b = (case a of None \<Rightarrow> b | Some x \<Rightarrow> x)"

lemma coalesce_simps [simp]:
  "coalesce None b = b"
  "coalesce (Some a) b = a"
  by (simp_all add: coalesce_def)

text \<open>Decimal text of a count, as a template literal prints it.\<close>

fun show_nat :: "nat \<Rightarrow> string" where
  "show_nat n = (if n < 10 then [char_of (48 + n)] else show_nat (n div 10) @ [char_of (48 + n mod 10)])"

declare show_nat.simps [simp del]

lemma show_nat_nonempty [simp]: "show_nat n \<noteq> []"
  by (subst show_nat.simps) simp

definition show_int :: "int \<Rightarrow> string" where
  "show_int i = (if i < 0 then ''-'' @ show_nat (nat (- i)) else show_nat (nat i))"

lemma show_nat_pos_length: "length (show_nat n) \<ge> 1"
  using show_nat_nonempty[of n] by (cases "show_nat n") auto

lemma show_nat_length: "n < 10 ^ k \<Longrightarrow> 0 < k \<Longrightarrow> length (show_nat n) \<le> k"
proof (induction n arbitrary: k rule: show_nat.induct)
  case (1 n)
  show ?case
  proof (cases "n < 10")
    case True
    with 1 show ?thesis by (simp add: show_nat.simps[of n])
  next
    case False
    with "1.prems" obtain j where k: "k = Suc j" and j: "0 < j"
      by (cases k; cases "k - 1") auto
    have "n div 10 < 10 ^ j"
      using "1.prems" k by (simp add: less_mult_imp_div_less mult.commute)
    with False "1.IH" j have "length (show_nat (n div 10)) \<le> j" by simp
    with False k show ?thesis by (simp add: show_nat.simps[of n])
  qed
qed

section \<open>Lists\<close>

text \<open>\<open>Array.prototype.find\<close> and a stable \<open>sort\<close> by a key are \<open>find\<close> and \<open>sort_key\<close>.\<close>

lemma find_SomeD: "find P xs = Some x \<Longrightarrow> x \<in> set xs \<and> P x"
  by (induction xs) (auto split: if_splits)

lemma find_None_iff_all: "find P xs = None \<longleftrightarrow> (\<forall>x \<in> set xs. \<not> P x)"
  by (induction xs) auto

lemma find_distinct_key:
  assumes "distinct (map f xs)" "x \<in> set xs"
  shows "find (\<lambda>y. f y = f x) xs = Some x"
  using assms by (induction xs) (auto simp: rev_image_eqI)

lemma find_map_same:
  assumes "\<And>x. P (f x) = P x"
  shows "find P (map f xs) = map_option f (find P xs)"
  using assms by (induction xs) auto

lemma find_append: "find P (xs @ ys) = (case find P xs of None \<Rightarrow> find P ys | Some x \<Rightarrow> Some x)"
  by (induction xs) auto

lemma find_filter: "find P (filter Q xs) = find (\<lambda>x. Q x \<and> P x) xs"
  by (induction xs) auto

lemma distinct_map_filterI: "distinct (map f xs) \<Longrightarrow> distinct (map f (filter P xs))"
  by (induction xs) auto

text \<open>A \<open>map\<close> whose undefined results are dropped.\<close>

lemma in_map_filter: "y \<in> set (List.map_filter g xs) \<longleftrightarrow> (\<exists>x \<in> set xs. g x = Some y)"
  by (induction xs) (auto split: option.splits)

lemma map_of_map_filter:
  assumes "\<And>x y. g x = Some y \<Longrightarrow> f y = h x"
  shows "map f (List.map_filter g xs) = map h (filter (\<lambda>x. g x \<noteq> None) xs)"
  using assms by (induction xs) (auto split: option.splits)

text \<open>\<open>s.slice(0, n)\<close> with the cut marked, as the code clips text for display.\<close>

definition join_with :: "string \<Rightarrow> string list \<Rightarrow> string" where
  "join_with sep xs = (case xs of [] \<Rightarrow> [] | y # ys \<Rightarrow> y @ concat (map (\<lambda>z. sep @ z) ys))"

lemma join_with_simps [simp]:
  "join_with sep [] = []"
  "join_with sep [x] = x"
  "join_with sep (x # y # zs) = x @ sep @ join_with sep (y # zs)"
  by (simp_all add: join_with_def)

lemma join_with_snoc: "xs \<noteq> [] \<Longrightarrow> join_with sep (xs @ [x]) = join_with sep xs @ sep @ x"
  by (induction xs rule: induct_list012) auto

definition starts_with :: "string \<Rightarrow> string \<Rightarrow> bool" where
  "starts_with s p = prefix p s"

lemma starts_with_code [code]: "starts_with s p = (take (length p) s = p)"
  by (auto simp: starts_with_def prefix_def take_is_prefix) (metis append_take_drop_id)

lemma starts_with_append [simp]: "starts_with (p @ s) p"
  by (simp add: starts_with_def)

section \<open>White space\<close>

text \<open>The characters \<open>\s\<close> matches, among the first 256 code units.\<close>

definition js_space :: "char \<Rightarrow> bool" where
  "js_space c = (let n = of_char c :: nat in (9 \<le> n \<and> n \<le> 13) \<or> n = 32 \<or> n = 160)"

text \<open>
  \<open>trim P\<close> drops the ends satisfying \<open>P\<close>; \<open>squash P r\<close> replaces each maximal run of characters
  satisfying \<open>P\<close> by one \<open>r\<close> (a \<open>replace\<close> with \<open>/[...]+/g\<close>).
\<close>

definition trim :: "(char \<Rightarrow> bool) \<Rightarrow> string \<Rightarrow> string" where
  "trim P s = rev (dropWhile P (rev (dropWhile P s)))"

definition js_trim :: "string \<Rightarrow> string" where
  "js_trim s = trim js_space s"

fun squash_from :: "(char \<Rightarrow> bool) \<Rightarrow> char \<Rightarrow> bool \<Rightarrow> string \<Rightarrow> string" where
  "squash_from P r in_run [] = []"
| "squash_from P r in_run (c # cs) =
     (if P c then (if in_run then squash_from P r True cs else r # squash_from P r True cs)
      else c # squash_from P r False cs)"

definition squash :: "(char \<Rightarrow> bool) \<Rightarrow> char \<Rightarrow> string \<Rightarrow> string" where
  "squash P r s = squash_from P r False s"

definition collapse_space :: "string \<Rightarrow> string" where
  "collapse_space s = squash js_space (CHR 0x20) s"

lemma length_squash: "length (squash P r s) \<le> length s"
proof -
  have "length (squash_from P r b s) \<le> length s" for b
    by (induction P r b s rule: squash_from.induct) auto
  then show ?thesis by (simp add: squash_def)
qed

lemma length_collapse_space: "length (collapse_space s) \<le> length s"
  by (simp add: collapse_space_def length_squash)

fun no_double :: "char \<Rightarrow> string \<Rightarrow> bool" where
  "no_double r (a # b # s) = (\<not> (a = r \<and> b = r) \<and> no_double r (b # s))"
| "no_double r s = True"

text \<open>A tidy string: every character of the class \<open>P\<close> is the one replacement \<open>r\<close>, never doubled.\<close>

definition tidy :: "(char \<Rightarrow> bool) \<Rightarrow> char \<Rightarrow> string \<Rightarrow> bool" where
  "tidy P r s = ((\<forall>c \<in> set s. P c \<longrightarrow> c = r) \<and> no_double r s)"

lemma no_double_append: "no_double r (xs @ ys) \<Longrightarrow> no_double r xs \<and> no_double r ys"
proof (induction xs)
  case Nil
  then show ?case by simp
next
  case (Cons a xs)
  then show ?case by (cases xs; cases ys) auto
qed

lemma no_double_snoc: "no_double r (xs @ [a, b]) = (no_double r (xs @ [a]) \<and> \<not> (a = r \<and> b = r))"
proof (induction xs)
  case Nil
  then show ?case by simp
next
  case (Cons x xs)
  then show ?case by (cases xs) auto
qed

lemma no_double_rev: "no_double r (rev xs) = no_double r xs"
  by (induction xs rule: no_double.induct[of _ r]) (auto simp: no_double_snoc)

lemma tidy_rev [simp]: "tidy P r (rev s) = tidy P r s"
  by (simp add: tidy_def no_double_rev)

lemma tidy_dropWhile: "tidy P r s \<Longrightarrow> tidy P r (dropWhile Q s)"
proof -
  assume "tidy P r s"
  then have "tidy P r (takeWhile Q s @ dropWhile Q s)" by simp
  then show ?thesis
    unfolding tidy_def by (metis no_double_append set_append UnI2)
qed

lemma tidy_trim: "tidy P r s \<Longrightarrow> tidy P r (trim Q s)"
  by (simp add: trim_def tidy_dropWhile)

lemma tidy_squash: "P r \<Longrightarrow> tidy P r (squash P r s)"
proof -
  assume r: "P r"
  have "no_double r (squash_from P r b s) \<and> (\<forall>c \<in> set (squash_from P r b s). P c \<longrightarrow> c = r)
        \<and> (b \<longrightarrow> squash_from P r b s = [] \<or> hd (squash_from P r b s) \<noteq> r)" for b
  proof (induction s arbitrary: b)
    case Nil
    then show ?case by simp
  next
    case (Cons c cs)
    have cons: "no_double r (x # xs) \<longleftrightarrow> no_double r xs \<and> (xs = [] \<or> \<not> (x = r \<and> hd xs = r))" for x xs
      by (cases xs) auto
    show ?case using Cons[of True] Cons[of False] r by (auto simp: cons)
  qed
  then show ?thesis by (auto simp: tidy_def squash_def)
qed

lemma squash_id: "tidy P r s \<Longrightarrow> P r \<Longrightarrow> squash P r s = s"
proof -
  assume t: "tidy P r s" and r: "P r"
  have "squash_from P r b s = s" if "tidy P r s" "b \<longrightarrow> s = [] \<or> hd s \<noteq> r" for b
    using that
  proof (induction s arbitrary: b)
    case Nil
    then show ?case by simp
  next
    case (Cons c cs)
    then have "tidy P r cs" "P c \<longrightarrow> c = r \<and> (cs = [] \<or> hd cs \<noteq> r)"
      by (cases cs; auto simp: tidy_def)+
    with Cons show ?case using r by auto
  qed
  with t show ?thesis by (simp add: squash_def)
qed

lemma trim_ends:
  assumes "trim P s \<noteq> []"
  shows "\<not> P (hd (trim P s))" "\<not> P (last (trim P s))"
proof -
  let ?m = "dropWhile P s"
  from assms have ne: "dropWhile P (rev ?m) \<noteq> []" by (simp add: trim_def)
  then show "\<not> P (last (trim P s))" by (simp add: trim_def last_rev hd_dropWhile)
  obtain k where m: "?m = trim P s @ k"
    unfolding trim_def by (metis rev_append rev_rev_ident takeWhile_dropWhile_id)
  with assms have "hd (trim P s) = hd ?m" by simp
  moreover from m assms have "?m \<noteq> []" by auto
  ultimately show "\<not> P (hd (trim P s))" by (simp add: hd_dropWhile)
qed

lemma trim_id: "s = [] \<or> (\<not> P (hd s) \<and> \<not> P (last s)) \<Longrightarrow> trim P s = s"
proof (cases "s = []")
  case False
  assume "s = [] \<or> (\<not> P (hd s) \<and> \<not> P (last s))"
  with False have "dropWhile P s = s" "dropWhile P (rev s) = rev s"
    by (cases s; simp) (metis False \<open>s = [] \<or> (\<not> P (hd s) \<and> \<not> P (last s))\<close> dropWhile.simps(2) hd_rev list.collapse rev_is_Nil_conv)
  then show ?thesis by (simp add: trim_def)
qed (simp add: trim_def)

lemma set_trim: "set (trim P s) \<subseteq> set s"
proof -
  have "set (dropWhile P xs) \<subseteq> set xs" for xs by (auto dest: set_dropWhileD)
  then show ?thesis unfolding trim_def by (metis set_rev subset_trans)
qed

lemma length_trim: "length (trim P s) \<le> length s"
  unfolding trim_def by (metis length_dropWhile_le length_rev le_trans)

lemma set_squash: "set (squash P r s) \<subseteq> insert r (set s)"
proof -
  have "set (squash_from P r b s) \<subseteq> insert r (set s)" for b
    by (induction P r b s rule: squash_from.induct) auto
  then show ?thesis by (simp add: squash_def)
qed

section \<open>Letters and digits\<close>

definition code :: "char \<Rightarrow> nat" where
  "code c = of_char c"

definition is_digit :: "char \<Rightarrow> bool" where
  "is_digit c = (48 \<le> code c \<and> code c \<le> 57)"

definition is_lower :: "char \<Rightarrow> bool" where
  "is_lower c = (97 \<le> code c \<and> code c \<le> 122)"

definition is_upper :: "char \<Rightarrow> bool" where
  "is_upper c = (65 \<le> code c \<and> code c \<le> 90)"

definition is_alnum :: "char \<Rightarrow> bool" where
  "is_alnum c = (is_digit c \<or> is_lower c)"

text \<open>\<open>toLowerCase\<close> and \<open>toUpperCase\<close>, on ASCII.\<close>

definition lower :: "char \<Rightarrow> char" where
  "lower c = (if is_upper c then char_of (code c + 32) else c)"

definition upper :: "char \<Rightarrow> char" where
  "upper c = (if is_lower c then char_of (code c - 32) else c)"

lemma code_char_of: "n < 256 \<Longrightarrow> code (char_of n) = n"
  by (simp add: code_def)

lemma lower_lower [simp]: "lower (lower c) = lower c"
  by (auto simp: lower_def is_upper_def code_char_of)

lemma lower_not_upper: "\<not> is_upper (lower c)"
  by (auto simp: lower_def is_upper_def code_char_of)

lemma lower_alnum: "is_alnum c \<Longrightarrow> lower c = c"
  by (auto simp: lower_def is_upper_def is_alnum_def is_lower_def is_digit_def)

end
