(* ===== verification/Tables.thy ===== *)
theory Tables
  imports Prelude
begin

text \<open>
  Database tables as lists of rows in insertion order, with the statement shapes the program
  uses: lookup by primary key, \<open>INSERT ... ON CONFLICT DO NOTHING\<close>, \<open>INSERT ... ON CONFLICT
  DO UPDATE\<close>, \<open>UPDATE ... WHERE\<close>, \<open>DELETE ... WHERE\<close>. A primary key is a function of the row;
  \<open>keyed key t\<close> is the uniqueness the schema declares, which every statement keeps.
  The locale \<open>keyed_store\<close> is the contract the components rely on.
\<close>

definition keyed :: "('r \<Rightarrow> 'k) \<Rightarrow> 'r list \<Rightarrow> bool" where
  "keyed key t = distinct (map key t)"

definition tbl_get :: "('r \<Rightarrow> 'k) \<Rightarrow> 'k \<Rightarrow> 'r list \<Rightarrow> 'r option" where
  "tbl_get key k t = find (\<lambda>r. key r = k) t"

text \<open>\<open>INSERT ... ON CONFLICT(key) DO NOTHING\<close>.\<close>

definition tbl_insert_new :: "('r \<Rightarrow> 'k) \<Rightarrow> 'r \<Rightarrow> 'r list \<Rightarrow> 'r list" where
  "tbl_insert_new key r t = (if tbl_get key (key r) t = None then t @ [r] else t)"

text \<open>\<open>UPDATE ... SET f WHERE p\<close>.\<close>

definition tbl_update :: "('r \<Rightarrow> bool) \<Rightarrow> ('r \<Rightarrow> 'r) \<Rightarrow> 'r list \<Rightarrow> 'r list" where
  "tbl_update p f t = map (\<lambda>r. if p r then f r else r) t"

text \<open>\<open>INSERT ... ON CONFLICT(key) DO UPDATE SET\<close> every other column.\<close>

definition tbl_upsert :: "('r \<Rightarrow> 'k) \<Rightarrow> 'r \<Rightarrow> 'r list \<Rightarrow> 'r list" where
  "tbl_upsert key r t = (if tbl_get key (key r) t = None then t @ [r]
                         else tbl_update (\<lambda>x. key x = key r) (\<lambda>_. r) t)"

definition tbl_delete :: "('r \<Rightarrow> bool) \<Rightarrow> 'r list \<Rightarrow> 'r list" where
  "tbl_delete p t = filter (\<lambda>r. \<not> p r) t"

section \<open>Lookup laws\<close>

lemma tbl_get_None: "tbl_get key k t = None \<longleftrightarrow> k \<notin> key ` set t"
  by (auto simp: tbl_get_def find_None_iff_all)

lemma tbl_get_SomeD: "tbl_get key k t = Some r \<Longrightarrow> r \<in> set t \<and> key r = k"
  by (auto simp: tbl_get_def dest: find_SomeD)

lemma tbl_get_mem: "keyed key t \<Longrightarrow> r \<in> set t \<Longrightarrow> tbl_get key (key r) t = Some r"
  by (simp add: tbl_get_def keyed_def find_distinct_key)

lemma tbl_get_iff: "keyed key t \<Longrightarrow> tbl_get key k t = Some r \<longleftrightarrow> r \<in> set t \<and> key r = k"
  by (metis tbl_get_SomeD tbl_get_mem)

lemma tbl_get_insert_new [row_simps]:
  "tbl_get key k (tbl_insert_new key r t) =
     (case tbl_get key k t of Some x \<Rightarrow> Some x | None \<Rightarrow> if key r = k then Some r else None)"
  by (cases "tbl_get key k t")
     (auto simp: tbl_insert_new_def tbl_get_def find_append split: option.splits)

lemma tbl_get_update [row_simps]:
  assumes "\<And>r. key (f r) = key r"
  shows "tbl_get key k (tbl_update p f t) =
     map_option (\<lambda>r. if p r then f r else r) (tbl_get key k t)"
  unfolding tbl_get_def tbl_update_def using assms by (intro find_map_same) auto

lemma tbl_get_upsert [row_simps]:
  "tbl_get key k (tbl_upsert key r t) = (if key r = k then Some r else tbl_get key k t)"
proof (cases "tbl_get key (key r) t")
  case None
  then show ?thesis
    by (cases "tbl_get key k t") (auto simp: tbl_upsert_def tbl_get_def find_append)
next
  case (Some x)
  have "tbl_get key k (tbl_update (\<lambda>x. key x = key r) (\<lambda>_. r) t)
        = (if key r = k then map_option (\<lambda>_. r) (tbl_get key k t) else tbl_get key k t)"
    by (induction t) (auto simp: tbl_get_def tbl_update_def)
  with Some show ?thesis by (auto simp: tbl_upsert_def)
qed

lemma tbl_get_delete_key [row_simps]:
  "tbl_get key k (tbl_delete (\<lambda>r. key r = k') t) = (if k = k' then None else tbl_get key k t)"
  by (induction t) (auto simp: tbl_get_def tbl_delete_def)

lemma tbl_get_delete_other:
  assumes "keyed key t"
  shows "tbl_get key k (tbl_delete p t) =
     (case tbl_get key k t of None \<Rightarrow> None | Some r \<Rightarrow> if p r then None else Some r)"
  using assms
proof (induction t)
  case Nil
  then show ?case by (simp add: tbl_get_def tbl_delete_def)
next
  case (Cons a t)
  then have IH: "tbl_get key k (tbl_delete p t) =
     (case tbl_get key k t of None \<Rightarrow> None | Some r \<Rightarrow> if p r then None else Some r)"
    and fresh: "key a \<notin> key ` set t" by (auto simp: keyed_def)
  show ?case
  proof (cases "key a = k")
    case True
    with fresh have "tbl_get key k t = None" by (simp add: tbl_get_None)
    with IH True show ?thesis by (simp add: tbl_get_def tbl_delete_def)
  next
    case False
    with IH show ?thesis by (simp add: tbl_get_def tbl_delete_def)
  qed
qed

section \<open>Uniqueness is kept by every statement\<close>

lemma keyed_Nil [simp]: "keyed key []"
  by (simp add: keyed_def)

lemma keyed_insert_new [intro]: "keyed key t \<Longrightarrow> keyed key (tbl_insert_new key r t)"
  by (auto simp: tbl_insert_new_def keyed_def tbl_get_None)

lemma map_key_update:
  "(\<And>r. key (f r) = key r) \<Longrightarrow> map key (tbl_update p f t) = map key t"
  by (simp add: tbl_update_def)

lemma keyed_update [intro]: "(\<And>r. key (f r) = key r) \<Longrightarrow> keyed key t \<Longrightarrow> keyed key (tbl_update p f t)"
  by (simp add: keyed_def map_key_update)

lemma keyed_upsert [intro]: "keyed key t \<Longrightarrow> keyed key (tbl_upsert key r t)"
proof -
  assume k: "keyed key t"
  have "map key (tbl_update (\<lambda>x. key x = key r) (\<lambda>_. r) t) = map key t"
    by (simp add: tbl_update_def)
  with k show ?thesis by (auto simp: tbl_upsert_def keyed_def tbl_get_None)
qed

lemma keyed_delete [intro]: "keyed key t \<Longrightarrow> keyed key (tbl_delete p t)"
  by (simp add: keyed_def tbl_delete_def distinct_map_filterI)

lemma set_delete [simp]: "set (tbl_delete p t) = {r \<in> set t. \<not> p r}"
  by (auto simp: tbl_delete_def)

lemma set_update: "set (tbl_update p f t) = (\<lambda>r. if p r then f r else r) ` set t"
  by (simp add: tbl_update_def)

lemma tbl_update_none: "(\<And>r. r \<in> set t \<Longrightarrow> \<not> p r) \<Longrightarrow> tbl_update p f t = t"
  unfolding tbl_update_def by (induction t) auto

section \<open>The contract of a keyed store\<close>

text \<open>
  What a client of a table may rely on: after \<open>put r\<close> the row of that key is \<open>r\<close> and every
  other key reads as before, and uniqueness survives. The client lemmas below are proved from
  this alone.
\<close>

locale keyed_store =
  fixes get :: "'k \<Rightarrow> 't \<Rightarrow> 'r option"
    and put :: "'r \<Rightarrow> 't \<Rightarrow> 't"
    and key :: "'r \<Rightarrow> 'k"
    and wf :: "'t \<Rightarrow> bool"
  assumes get_put: "get k (put r t) = (if key r = k then Some r else get k t)"
    and wf_put: "wf t \<Longrightarrow> wf (put r t)"
begin

lemma get_put_same: "get (key r) (put r t) = Some r"
  by (simp add: get_put)

lemma get_put_other: "key r \<noteq> k \<Longrightarrow> get k (put r t) = get k t"
  by (simp add: get_put)

text \<open>A run of writes: the last write to a key wins, an unwritten key is untouched.\<close>

lemma get_puts:
  "get k (fold put rs t) =
     (case find (\<lambda>r. key r = k) (rev rs) of Some r \<Rightarrow> Some r | None \<Rightarrow> get k t)"
proof (induction rs arbitrary: t)
  case Nil
  then show ?case by simp
next
  case (Cons r rs)
  then show ?case by (auto simp: find_append get_put split: option.splits)
qed

lemma puts_frame: "k \<notin> key ` set rs \<Longrightarrow> get k (fold put rs t) = get k t"
  by (induction rs arbitrary: t) (auto simp: get_put)

lemma wf_puts: "wf t \<Longrightarrow> wf (fold put rs t)"
  by (induction rs arbitrary: t) (auto simp: wf_put)

end

end
