(* ===== verification/TaskStore.thy ===== *)
theory TaskStore
  imports Tables
begin

text \<open>
  \<open>src/app/src/modules/task-health/store.ts\<close>: the central tables of scheduled-task failure
  handling. \<open>task_runs\<close> holds one row per occurrence (primary key \<open>row_id\<close>), \<open>task_incidents\<close>
  one row per series (primary key \<open>series_id\<close>). Every exported statement is one definition.
  The wall clock a statement reads (\<open>new Date()\<close>) is the argument \<open>now\<close>.
\<close>

datatype run_outcome = OutOk | OutFailed | OutSkipped

record task_run_row =
  tr_row_id :: string
  tr_series_id :: string
  tr_agent_group_id :: string
  tr_session_id :: string
  tr_start_failures :: nat
  tr_tries_seen :: nat
  tr_waiting_since :: "millis option"
  tr_waiting_seen_at :: "millis option"
  tr_next_retry_at :: "millis option"
  tr_last_error :: "string option"
  tr_declared_reason :: "string option"
  tr_outcome :: "run_outcome option"
  tr_signature :: "string option"
  tr_reason :: "string option"
  tr_finished_at :: "millis option"
  tr_updated_at :: millis

datatype incident_state = IOpen | IClosed

record task_incident_row =
  ti_series_id :: string
  ti_agent_group_id :: string
  ti_state :: incident_state
  ti_signature :: string
  ti_reason :: "string option"
  ti_failures :: nat
  ti_opened_at :: millis
  ti_last_failure_at :: millis
  ti_last_alert_at :: "millis option"
  ti_closed_at :: "millis option"

record run_key =
  rk_row_id :: string
  rk_series_id :: string
  rk_agent_group_id :: string
  rk_session_id :: string

section \<open>Run records\<close>

definition get_run :: "string \<Rightarrow> task_run_row list \<Rightarrow> task_run_row option" where
  "get_run row_id t = tbl_get tr_row_id row_id t"

definition runs_for_session :: "string \<Rightarrow> task_run_row list \<Rightarrow> task_run_row list" where
  "runs_for_session sid t = filter (\<lambda>r. tr_session_id r = sid) t"

text \<open>The row an insert of a bare key creates: the schema's defaults.\<close>

definition fresh_run :: "run_key \<Rightarrow> millis \<Rightarrow> task_run_row" where
  "fresh_run k now =
     \<lparr> tr_row_id = rk_row_id k, tr_series_id = rk_series_id k,
       tr_agent_group_id = rk_agent_group_id k, tr_session_id = rk_session_id k,
       tr_start_failures = 0, tr_tries_seen = 0, tr_waiting_since = None,
       tr_waiting_seen_at = None, tr_next_retry_at = None, tr_last_error = None,
       tr_declared_reason = None, tr_outcome = None, tr_signature = None, tr_reason = None,
       tr_finished_at = None, tr_updated_at = now \<rparr>"

text \<open>
  \<open>Partial<Omit<TaskRunRow, keyof RunKey>>\<close>: a list of column writes. With no column the
  code issues no UPDATE, so \<open>updated_at\<close> stays.
\<close>

datatype run_field =
    SetStartFailures nat
  | SetTriesSeen nat
  | SetWaitingSince "millis option"
  | SetWaitingSeenAt "millis option"
  | SetNextRetryAt "millis option"
  | SetLastError "string option"
  | SetDeclaredReason "string option"
  | SetOutcome "run_outcome option"
  | SetSignature "string option"
  | SetReason "string option"
  | SetFinishedAt "millis option"

fun set_field :: "run_field \<Rightarrow> task_run_row \<Rightarrow> task_run_row" where
  "set_field (SetStartFailures n) r = r\<lparr>tr_start_failures := n\<rparr>"
| "set_field (SetTriesSeen n) r = r\<lparr>tr_tries_seen := n\<rparr>"
| "set_field (SetWaitingSince v) r = r\<lparr>tr_waiting_since := v\<rparr>"
| "set_field (SetWaitingSeenAt v) r = r\<lparr>tr_waiting_seen_at := v\<rparr>"
| "set_field (SetNextRetryAt v) r = r\<lparr>tr_next_retry_at := v\<rparr>"
| "set_field (SetLastError v) r = r\<lparr>tr_last_error := v\<rparr>"
| "set_field (SetDeclaredReason v) r = r\<lparr>tr_declared_reason := v\<rparr>"
| "set_field (SetOutcome v) r = r\<lparr>tr_outcome := v\<rparr>"
| "set_field (SetSignature v) r = r\<lparr>tr_signature := v\<rparr>"
| "set_field (SetReason v) r = r\<lparr>tr_reason := v\<rparr>"
| "set_field (SetFinishedAt v) r = r\<lparr>tr_finished_at := v\<rparr>"

definition set_fields :: "run_field list \<Rightarrow> millis \<Rightarrow> task_run_row \<Rightarrow> task_run_row" where
  "set_fields fs now r = (fold set_field fs r)\<lparr>tr_updated_at := now\<rparr>"

definition upsert_run ::
  "millis \<Rightarrow> run_key \<Rightarrow> run_field list \<Rightarrow> task_run_row list \<Rightarrow> task_run_row list" where
  "upsert_run now k fs t =
     (let t1 = tbl_insert_new tr_row_id (fresh_run k now) t
      in if fs = [] then t1
         else tbl_update (\<lambda>r. tr_row_id r = rk_row_id k) (set_fields fs now) t1)"

text \<open>\<open>ORDER BY finished_at DESC LIMIT n\<close> with NULLs last, as SQLite orders them.\<close>

definition recent_runs :: "string \<Rightarrow> nat \<Rightarrow> task_run_row list \<Rightarrow> task_run_row list" where
  "recent_runs series n t =
     (let rs = filter (\<lambda>r. tr_series_id r = series \<and> tr_outcome r \<noteq> None) t
      in take n (sort_key (\<lambda>r. - the (tr_finished_at r)) (filter (\<lambda>r. tr_finished_at r \<noteq> None) rs)
                 @ filter (\<lambda>r. tr_finished_at r = None) rs))"

definition pending_retry :: "string \<Rightarrow> task_run_row list \<Rightarrow> task_run_row option" where
  "pending_retry series t =
     (case sort_key (\<lambda>r. - the (tr_next_retry_at r))
        (filter (\<lambda>r. tr_series_id r = series \<and> tr_outcome r = None \<and> tr_next_retry_at r \<noteq> None) t)
      of [] \<Rightarrow> None | r # _ \<Rightarrow> Some r)"

section \<open>Incidents\<close>

definition get_incident :: "string \<Rightarrow> task_incident_row list \<Rightarrow> task_incident_row option" where
  "get_incident series t = tbl_get ti_series_id series t"

definition save_incident :: "task_incident_row \<Rightarrow> task_incident_row list \<Rightarrow> task_incident_row list" where
  "save_incident r t = tbl_upsert ti_series_id r t"

definition forget_series ::
  "string \<Rightarrow> task_run_row list \<times> task_incident_row list \<Rightarrow> task_run_row list \<times> task_incident_row list" where
  "forget_series series st =
     (tbl_delete (\<lambda>r. tr_series_id r = series) (fst st),
      tbl_delete (\<lambda>r. ti_series_id r = series) (snd st))"

definition close_incident :: "string \<Rightarrow> millis \<Rightarrow> task_incident_row list \<Rightarrow> task_incident_row list" where
  "close_incident series ts t =
     tbl_update (\<lambda>r. ti_series_id r = series \<and> ti_state r = IOpen)
       (\<lambda>r. r\<lparr>ti_state := IClosed, ti_closed_at := Some ts\<rparr>) t"

text \<open>\<open>NULL < before\<close> is not true, so a finished row without a time is never pruned by the first delete.\<close>

definition prune_finished_runs :: "millis \<Rightarrow> task_run_row list \<Rightarrow> task_run_row list" where
  "prune_finished_runs before t =
     tbl_delete (\<lambda>r. tr_outcome r = None \<and> tr_updated_at r < before)
       (tbl_delete (\<lambda>r. tr_outcome r \<noteq> None \<and>
                         (case tr_finished_at r of None \<Rightarrow> False | Some f \<Rightarrow> f < before)) t)"

section \<open>What the statements do to a row\<close>

lemma set_field_key [simp]:
  "tr_row_id (set_field f r) = tr_row_id r"
  "tr_series_id (set_field f r) = tr_series_id r"
  "tr_agent_group_id (set_field f r) = tr_agent_group_id r"
  "tr_session_id (set_field f r) = tr_session_id r"
  by (cases f; simp)+

lemma fold_set_field_key [simp]:
  "tr_row_id (fold set_field fs r) = tr_row_id r"
  "tr_series_id (fold set_field fs r) = tr_series_id r"
  "tr_agent_group_id (fold set_field fs r) = tr_agent_group_id r"
  "tr_session_id (fold set_field fs r) = tr_session_id r"
  by (induction fs arbitrary: r; simp)+

lemma set_fields_key [simp]:
  "tr_row_id (set_fields fs now r) = tr_row_id r"
  "tr_series_id (set_fields fs now r) = tr_series_id r"
  "tr_agent_group_id (set_fields fs now r) = tr_agent_group_id r"
  "tr_session_id (set_fields fs now r) = tr_session_id r"
  by (simp_all add: set_fields_def)

lemma fresh_run_simps [simp]:
  "tr_row_id (fresh_run k now) = rk_row_id k"
  "tr_session_id (fresh_run k now) = rk_session_id k"
  "tr_series_id (fresh_run k now) = rk_series_id k"
  "tr_outcome (fresh_run k now) = None"
  "tr_start_failures (fresh_run k now) = 0"
  "tr_tries_seen (fresh_run k now) = 0"
  "tr_waiting_since (fresh_run k now) = None"
  "tr_waiting_seen_at (fresh_run k now) = None"
  "tr_next_retry_at (fresh_run k now) = None"
  by (simp_all add: fresh_run_def)

lemma keyed_upsert_run [intro]: "keyed tr_row_id t \<Longrightarrow> keyed tr_row_id (upsert_run now k fs t)"
  by (auto simp: upsert_run_def Let_def)

lemma get_run_upsert [row_simps]:
  "get_run i (upsert_run now k fs t) =
     (if i = rk_row_id k
      then (let r = coalesce (get_run i t) (fresh_run k now)
            in Some (if fs = [] then r else set_fields fs now r))
      else get_run i t)"
proof -
  have ins: "get_run i (tbl_insert_new tr_row_id (fresh_run k now) t) =
     (if i = rk_row_id k then Some (coalesce (get_run i t) (fresh_run k now)) else get_run i t)" for i
    by (cases "tbl_get tr_row_id i t") (auto simp: get_run_def tbl_get_insert_new)
  have upd: "get_run i (tbl_update (\<lambda>r. tr_row_id r = rk_row_id k) (set_fields fs now) u) =
     (if i = rk_row_id k then map_option (set_fields fs now) (get_run i u) else get_run i u)" for i u
    by (cases "tbl_get tr_row_id i u") (auto simp: get_run_def tbl_get_update dest: tbl_get_SomeD)
  show ?thesis by (cases "i = rk_row_id k"; cases "fs = []"; simp add: upsert_run_def Let_def ins upd)
qed

lemma get_incident_save [row_simps]:
  "get_incident k (save_incident r t) = (if ti_series_id r = k then Some r else get_incident k t)"
  by (simp add: get_incident_def save_incident_def tbl_get_upsert)

text \<open>The incident table is a keyed store; the client lemmas of the contract apply to it.\<close>

interpretation incidents: keyed_store get_incident save_incident ti_series_id "keyed ti_series_id"
proof unfold_locales
  fix k r t
  show "get_incident k (save_incident r t) = (if ti_series_id r = k then Some r else get_incident k t)"
    by (rule get_incident_save)
  show "keyed ti_series_id t \<Longrightarrow> keyed ti_series_id (save_incident r t)"
    unfolding save_incident_def by (rule keyed_upsert)
qed

end
