(* ===== verification/TaskIncidents.thy ===== *)
theory TaskIncidents
  imports TaskStore
begin

text \<open>
  \<open>src/app/src/modules/task-health/incidents.ts\<close> and \<open>notify.ts\<close>: consecutive failed runs of a
  task with one failure signature are one incident. \<open>record_verdict\<close> folds one run's verdict
  into the series' incident and says which alert, if any, to send.
  The text-to-number conversion (\<open>Number\<close>) and the directory lookups behind the alert's
  destination (sessions, messaging groups, the approver chain) are parameters.
\<close>

definition DEFAULT_REMINDER_HOURS :: rat where "DEFAULT_REMINDER_HOURS = 24"

text \<open>\<open>to_number s\<close> is the finite value of \<open>Number(s)\<close>, or \<open>None\<close> for NaN and the infinities.\<close>

definition reminder_hours :: "(string \<Rightarrow> rat option) \<Rightarrow> string option \<Rightarrow> rat" where
  "reminder_hours to_number value =
     (case value of None \<Rightarrow> DEFAULT_REMINDER_HOURS
      | Some s \<Rightarrow> if s = [] then DEFAULT_REMINDER_HOURS
                  else case to_number s of None \<Rightarrow> DEFAULT_REMINDER_HOURS
                       | Some n \<Rightarrow> if n \<le> 0 then DEFAULT_REMINDER_HOURS else n)"

datatype alert_kind = Opened | Reminder | Recovered

record alert =
  al_kind :: alert_kind
  al_series_id :: string
  al_signature :: string
  al_reason :: "string option"
  al_failures :: nat
  al_opened_at :: millis

definition alert_text :: "alert \<Rightarrow> (millis \<Rightarrow> string) \<Rightarrow> string" where
  "alert_text a format_time =
     (let task = ''Scheduled task '' @ al_series_id a;
          why = (if truthy (al_reason a) then '': '' @ the (al_reason a) else ''.'')
      in case al_kind a of
           Opened \<Rightarrow> task @ '' failed'' @ why
         | Reminder \<Rightarrow> task @ '' is still failing '' @ [em_dash] @ '' '' @ show_nat (al_failures a)
             @ '' failed runs since '' @ format_time (al_opened_at a) @ why
         | Recovered \<Rightarrow> task @ '' is working again after '' @ show_nat (al_failures a) @ '' failed ''
             @ (if al_failures a = 1 then ''run'' else ''runs'') @ ''.'')"

datatype run_verdict = VOk | VFailed string "string option"

text \<open>The open incident of a series, if there is one.\<close>

definition open_incident :: "string \<Rightarrow> task_incident_row list \<Rightarrow> task_incident_row option" where
  "open_incident series t =
     (case get_incident series t of None \<Rightarrow> None
      | Some c \<Rightarrow> if ti_state c = IOpen then Some c else None)"

definition open_new ::
  "string \<Rightarrow> string \<Rightarrow> string \<Rightarrow> string option \<Rightarrow> millis \<Rightarrow> task_incident_row list
     \<Rightarrow> task_incident_row list \<times> alert option" where
  "open_new series agent sig reason now t =
     (save_incident
        \<lparr>ti_series_id = series, ti_agent_group_id = agent, ti_state = IOpen, ti_signature = sig,
         ti_reason = reason, ti_failures = 1, ti_opened_at = now, ti_last_failure_at = now,
         ti_last_alert_at = Some now, ti_closed_at = None\<rparr> t,
      Some \<lparr>al_kind = Opened, al_series_id = series, al_signature = sig, al_reason = reason,
            al_failures = 1, al_opened_at = now\<rparr>)"

definition record_verdict ::
  "rat \<Rightarrow> string \<Rightarrow> string \<Rightarrow> run_verdict \<Rightarrow> millis \<Rightarrow> task_incident_row list
     \<Rightarrow> task_incident_row list \<times> alert option" where
  "record_verdict hours series agent verdict now t =
     (case verdict of
        VOk \<Rightarrow>
          (case open_incident series t of
             None \<Rightarrow> (t, None)
           | Some i \<Rightarrow>
               (save_incident (i\<lparr>ti_state := IClosed, ti_closed_at := Some now\<rparr>) t,
                Some \<lparr>al_kind = Recovered, al_series_id = series, al_signature = ti_signature i,
                      al_reason = ti_reason i, al_failures = ti_failures i,
                      al_opened_at = ti_opened_at i\<rparr>))
      | VFailed sig reason \<Rightarrow>
          (case open_incident series t of
             Some i \<Rightarrow>
               if ti_signature i = sig then
                 (let failures = ti_failures i + 1;
                      due = (case ti_last_alert_at i of None \<Rightarrow> True
                             | Some la \<Rightarrow> rat_of_int (now - la) \<ge> hours * 3600000);
                      next_row = i\<lparr>ti_failures := failures, ti_reason := reason,
                               ti_last_failure_at := now,
                               ti_last_alert_at := (if due then Some now else ti_last_alert_at i)\<rparr>
                  in (save_incident next_row t,
                      if due then
                        Some \<lparr>al_kind = Reminder, al_series_id = series, al_signature = ti_signature i,
                              al_reason = reason, al_failures = failures,
                              al_opened_at = ti_opened_at i\<rparr>
                      else None))
               else open_new series agent sig reason now t
           | None \<Rightarrow> open_new series agent sig reason now t))"

section \<open>Where an alert goes (notify.ts)\<close>

record origin_session =
  os_agent_group_id :: string
  os_messaging_group_id :: "string option"
  os_thread_id :: "string option"

record messaging_group =
  mg_channel_type :: string
  mg_platform_id :: string
  mg_instance :: "string option"

record alert_target =
  at_channel_type :: string
  at_platform_id :: string
  at_thread_id :: "string option"
  at_instance :: "string option"

definition target_of :: "messaging_group \<Rightarrow> string option \<Rightarrow> alert_target" where
  "target_of mg thread = \<lparr>at_channel_type = mg_channel_type mg, at_platform_id = mg_platform_id mg,
                          at_thread_id = thread, at_instance = mg_instance mg\<rparr>"

definition resolve_alert_target ::
  "(string \<Rightarrow> origin_session option) \<Rightarrow> (string \<Rightarrow> messaging_group option)
     \<Rightarrow> (string \<Rightarrow> messaging_group option) \<Rightarrow> string \<Rightarrow> string option \<Rightarrow> alert_target option" where
  "resolve_alert_target get_session get_mg approver_mg agent origin =
     (let from_origin =
            (if truthy origin then
               (case get_session (the origin) of None \<Rightarrow> None
                | Some s \<Rightarrow>
                    if os_agent_group_id s = agent \<and> truthy (os_messaging_group_id s) then
                      (case get_mg (the (os_messaging_group_id s)) of None \<Rightarrow> None
                       | Some mg \<Rightarrow> if mg_platform_id mg \<noteq> [] then Some (target_of mg (os_thread_id s)) else None)
                    else None)
             else None)
      in case from_origin of Some tg \<Rightarrow> Some tg
         | None \<Rightarrow> map_option (\<lambda>mg. target_of mg None) (approver_mg agent))"

text \<open>\<open>sendAlert\<close>: true exactly when there is an adapter and a target and delivery did not throw.\<close>

definition send_alert ::
  "bool \<Rightarrow> (alert_target \<Rightarrow> string \<Rightarrow> bool) \<Rightarrow> (string \<Rightarrow> millis \<Rightarrow> string)
     \<Rightarrow> (string \<Rightarrow> string option \<Rightarrow> alert_target option)
     \<Rightarrow> alert \<Rightarrow> string \<Rightarrow> string option \<Rightarrow> bool" where
  "send_alert has_adapter deliver local_time resolve a agent origin =
     (case resolve agent origin of None \<Rightarrow> False
      | Some tg \<Rightarrow> has_adapter \<and> deliver tg (alert_text a (local_time agent)))"

section \<open>A series' runs, one verdict after another\<close>

type_synonym timed_verdict = "run_verdict \<times> millis"

fun record_all ::
  "rat \<Rightarrow> string \<Rightarrow> string \<Rightarrow> timed_verdict list \<Rightarrow> task_incident_row list
     \<Rightarrow> task_incident_row list \<times> (millis \<times> alert) list" where
  "record_all h series agent [] t = (t, [])"
| "record_all h series agent ((v, now) # vs) t =
     (let (t', a) = record_verdict h series agent v now t;
          (t'', as) = record_all h series agent vs t'
      in (t'', (case a of None \<Rightarrow> as | Some x \<Rightarrow> (now, x) # as)))"

text \<open>The shape every alert stream must have: nothing before an opening, no second recovery.\<close>

fun alerts_ok :: "bool \<Rightarrow> (millis \<times> alert) list \<Rightarrow> bool" where
  "alerts_ok is_open [] = True"
| "alerts_ok is_open ((_, a) # as) =
     (case al_kind a of
        Opened \<Rightarrow> alerts_ok True as
      | Reminder \<Rightarrow> is_open \<and> alerts_ok True as
      | Recovered \<Rightarrow> is_open \<and> alerts_ok False as)"

text \<open>Every reminder comes at least the interval after the alert before it.\<close>

fun reminders_spaced :: "rat \<Rightarrow> millis option \<Rightarrow> (millis \<times> alert) list \<Rightarrow> bool" where
  "reminders_spaced h prev [] = True"
| "reminders_spaced h prev ((now, a) # as) =
     ((al_kind a = Reminder \<longrightarrow> (case prev of None \<Rightarrow> True | Some l \<Rightarrow> rat_of_int (now - l) \<ge> h * 3600000))
      \<and> reminders_spaced h (Some now) as)"

section \<open>One verdict\<close>

lemma open_incident_save [row_simps]:
  "open_incident k (save_incident r t) =
     (if ti_series_id r = k then (if ti_state r = IOpen then Some r else None) else open_incident k t)"
  by (simp add: open_incident_def get_incident_save)

lemma open_incidentD:
  "open_incident k t = Some i \<Longrightarrow> get_incident k t = Some i \<and> ti_state i = IOpen \<and> ti_series_id i = k"
  by (auto simp: open_incident_def get_incident_def dest: tbl_get_SomeD split: option.splits if_splits)

text \<open>A verdict writes at most one row, and it is the series' own.\<close>

lemma record_verdict_puts:
  "\<exists>rs. fst (record_verdict h series agent v now t) = fold save_incident rs t \<and> ti_series_id ` set rs \<subseteq> {series}"
proof (cases "fst (record_verdict h series agent v now t) = t")
  case True
  then show ?thesis by (intro exI[of _ "[]"]) simp
next
  case False
  then have "\<exists>r. fst (record_verdict h series agent v now t) = save_incident r t \<and> ti_series_id r = series"
    by (auto simp: record_verdict_def open_new_def Let_def split: run_verdict.splits option.splits if_splits
          dest!: open_incidentD)
  then obtain r where "fst (record_verdict h series agent v now t) = save_incident r t" "ti_series_id r = series"
    by blast
  then show ?thesis by (intro exI[of _ "[r]"]) simp
qed

lemma record_verdict_open:
  "open_incident series (fst (record_verdict h series agent v now t)) \<noteq> None \<longleftrightarrow> v \<noteq> VOk"
  by (auto simp: record_verdict_def open_new_def Let_def open_incident_save
           split: run_verdict.splits option.splits dest: open_incidentD)

lemma record_verdict_alert_kind:
  "snd (record_verdict h series agent v now t) = Some a \<Longrightarrow>
     (case al_kind a of
        Opened \<Rightarrow> v \<noteq> VOk
      | Reminder \<Rightarrow> v \<noteq> VOk \<and> open_incident series t \<noteq> None
      | Recovered \<Rightarrow> v = VOk \<and> open_incident series t \<noteq> None)"
  by (auto simp: record_verdict_def open_new_def Let_def
           split: run_verdict.splits option.splits if_splits)

lemma record_verdict_silent_keeps_open:
  "snd (record_verdict h series agent v now t) = None \<Longrightarrow>
     (open_incident series (fst (record_verdict h series agent v now t)) \<noteq> None)
       = (open_incident series t \<noteq> None)"
  by (auto simp: record_verdict_def open_new_def Let_def open_incident_save
           split: run_verdict.splits option.splits if_splits dest: open_incidentD)

definition last_alert :: "string \<Rightarrow> task_incident_row list \<Rightarrow> millis option" where
  "last_alert series t = (case open_incident series t of None \<Rightarrow> None | Some i \<Rightarrow> ti_last_alert_at i)"

text \<open>After an alert that leaves the incident open, the row remembers that alert's time.\<close>

lemma record_verdict_last_alert:
  assumes "v \<noteq> VOk"
  shows "last_alert series (fst (record_verdict h series agent v now t)) =
     (case snd (record_verdict h series agent v now t) of None \<Rightarrow> last_alert series t | Some _ \<Rightarrow> Some now)"
  using assms
  by (auto simp: record_verdict_def open_new_def Let_def last_alert_def open_incident_save
           split: run_verdict.splits option.splits if_splits dest: open_incidentD)

lemma record_verdict_reminder_due:
  assumes "snd (record_verdict h series agent v now t) = Some a" "al_kind a = Reminder"
  shows "case last_alert series t of None \<Rightarrow> True | Some l \<Rightarrow> rat_of_int (now - l) \<ge> h * 3600000"
  using assms
  by (auto simp: record_verdict_def open_new_def Let_def last_alert_def
           split: run_verdict.splits option.splits if_splits)

section \<open>A stream of verdicts\<close>

lemma record_all_puts:
  "\<exists>rs. fst (record_all h series agent vs t) = fold save_incident rs t \<and> ti_series_id ` set rs \<subseteq> {series}"
proof (induction vs arbitrary: t)
  case Nil
  then show ?case by (intro exI[of _ "[]"]) simp
next
  case (Cons p vs)
  obtain v now where p: "p = (v, now)" by force
  obtain rs where rs: "fst (record_verdict h series agent v now t) = fold save_incident rs t"
      "ti_series_id ` set rs \<subseteq> {series}"
    using record_verdict_puts by blast
  obtain ss where ss: "fst (record_all h series agent vs (fold save_incident rs t)) = fold save_incident ss (fold save_incident rs t)"
      "ti_series_id ` set ss \<subseteq> {series}"
    using Cons.IH by blast
  show ?case
    using rs ss by (intro exI[of _ "rs @ ss"]) (auto simp: p split_beta Let_def)
qed

lemma record_all_append:
  "record_all h series agent (vs @ ws) t =
     (let (t', as) = record_all h series agent vs t; (t'', bs) = record_all h series agent ws t'
      in (t'', as @ bs))"
  by (induction vs arbitrary: t) (auto simp: split_beta Let_def split: option.splits)

lemma record_verdict_alerts_ok:
  assumes "\<And>b. b = (open_incident series (fst (record_verdict h series agent v now t)) \<noteq> None) \<Longrightarrow> alerts_ok b as"
  shows "alerts_ok (open_incident series t \<noteq> None)
     (case snd (record_verdict h series agent v now t) of None \<Rightarrow> as | Some a \<Rightarrow> (now, a) # as)"
proof (cases "snd (record_verdict h series agent v now t)")
  case None
  then show ?thesis using assms[OF refl] record_verdict_silent_keeps_open[OF None] by simp
next
  case (Some a)
  have "open_incident series (fst (record_verdict h series agent v now t)) \<noteq> None \<longleftrightarrow> v \<noteq> VOk"
    by (rule record_verdict_open)
  then show ?thesis
    using Some assms[OF refl] record_verdict_alert_kind[OF Some] by (auto split: alert_kind.splits)
qed

lemma record_all_alerts_ok:
  "alerts_ok (open_incident series t \<noteq> None) (snd (record_all h series agent vs t))"
proof (induction vs arbitrary: t)
  case Nil
  then show ?case by simp
next
  case (Cons p vs)
  obtain v now where p: "p = (v, now)" by force
  have "alerts_ok (open_incident series t \<noteq> None)
     (case snd (record_verdict h series agent v now t) of
        None \<Rightarrow> snd (record_all h series agent vs (fst (record_verdict h series agent v now t)))
      | Some a \<Rightarrow> (now, a) # snd (record_all h series agent vs (fst (record_verdict h series agent v now t))))"
    by (rule record_verdict_alerts_ok) (simp only: Cons.IH)
  then show ?case by (simp add: p split_beta Let_def)
qed

lemma record_all_spaced:
  "(open_incident series t \<noteq> None \<longrightarrow> prev = last_alert series t) \<Longrightarrow>
   reminders_spaced h prev (snd (record_all h series agent vs t))"
proof (induction vs arbitrary: t prev)
  case Nil
  then show ?case by simp
next
  case (Cons p vs)
  obtain v now where p: "p = (v, now)" by force
  let ?r = "record_verdict h series agent v now t"
  show ?case
  proof (cases "snd ?r")
    case None
    have "open_incident series (fst ?r) \<noteq> None \<longrightarrow> prev = last_alert series (fst ?r)"
      using Cons.prems None record_verdict_silent_keeps_open[OF None]
        record_verdict_last_alert[where series=series and h=h and agent=agent and v=v and now=now and t=t] record_verdict_open[where series=series and h=h and agent=agent and v=v and now=now and t=t]
      by auto
    from Cons.IH[OF this] show ?thesis using None by (simp add: p split_beta Let_def)
  next
    case (Some a)
    have nxt: "open_incident series (fst ?r) \<noteq> None \<longrightarrow> Some now = last_alert series (fst ?r)"
      using Some record_verdict_last_alert[where series=series and h=h and agent=agent and v=v and now=now and t=t]
        record_verdict_open[where series=series and h=h and agent=agent and v=v and now=now and t=t] by auto
    have "al_kind a = Reminder \<longrightarrow> (case prev of None \<Rightarrow> True | Some l \<Rightarrow> h * 3600000 \<le> rat_of_int (now - l))"
      using Cons.prems record_verdict_reminder_due[OF Some] record_verdict_alert_kind[OF Some] by auto
    with Cons.IH[OF nxt] Some show ?thesis by (simp add: p split_beta Let_def)
  qed
qed

text \<open>A run of failures of one kind: one incident, counted, dated by its first and last failure.\<close>

lemma record_all_same_signature:
  assumes "open_incident series t = Some i" "ti_signature i = sig"
    "\<forall>(v, _) \<in> set vs. \<exists>r. v = VFailed sig r"
  shows "\<exists>j. open_incident series (fst (record_all h series agent vs t)) = Some j \<and>
     ti_signature j = sig \<and> ti_failures j = ti_failures i + length vs \<and>
     ti_opened_at j = ti_opened_at i \<and>
     ti_last_failure_at j = (if vs = [] then ti_last_failure_at i else snd (last vs))"
  using assms
proof (induction vs arbitrary: t i)
  case Nil
  then show ?case by simp
next
  case (Cons p vs)
  obtain now r where p: "p = (VFailed sig r, now)" using Cons.prems(3) by (cases p) auto
  let ?t = "fst (record_verdict h series agent (VFailed sig r) now t)"
  obtain i' where i': "open_incident series ?t = Some i'" "ti_signature i' = sig"
      "ti_failures i' = ti_failures i + 1" "ti_opened_at i' = ti_opened_at i" "ti_last_failure_at i' = now"
    using Cons.prems(1,2) open_incidentD[OF Cons.prems(1)]
    by (auto simp: record_verdict_def Let_def open_incident_save)
  from Cons.IH[OF i'(1,2)] Cons.prems(3) i' show ?case
    by (auto simp: p split_beta Let_def)
qed

lemma record_all_quiet:
  assumes "open_incident series t = Some i" "ti_signature i = sig" "ti_last_alert_at i = Some la"
    "\<forall>(v, now) \<in> set vs. (\<exists>r. v = VFailed sig r) \<and> rat_of_int (now - la) < h * 3600000"
  shows "snd (record_all h series agent vs t) = []"
  using assms
proof (induction vs arbitrary: t i)
  case Nil
  then show ?case by simp
next
  case (Cons p vs)
  obtain now r where p: "p = (VFailed sig r, now)" and lt: "rat_of_int (now - la) < h * 3600000"
    using Cons.prems(4) by (cases p) auto
  let ?r = "record_verdict h series agent (VFailed sig r) now t"
  have none: "snd ?r = None"
    using Cons.prems(1-3) lt by (auto simp: record_verdict_def Let_def)
  obtain i' where "open_incident series (fst ?r) = Some i'" "ti_signature i' = sig"
      "ti_last_alert_at i' = Some la"
    using Cons.prems(1-3) lt open_incidentD[OF Cons.prems(1)]
    by (auto simp: record_verdict_def Let_def open_incident_save)
  from Cons.IH[OF this] Cons.prems(4) none show ?case
    by (auto simp: p split_beta Let_def)
qed

section \<open>Properties\<close>

text \<open>
  The alerts of a series form incidents: a reminder or a recovery only ever follows an
  opening that was not yet recovered, and a recovery is sent once. Every reminder comes at least
  the reminder interval after the alert before it.
\<close>

theorem alert_stream_shape:
  "alerts_ok (open_incident series t \<noteq> None) (snd (record_all h series agent vs t)) \<and>
   reminders_spaced h (last_alert series t) (snd (record_all h series agent vs t))"
  by (intro conjI record_all_alerts_ok record_all_spaced) simp

text \<open>
  One alert per incident: from no open incident, a run of failures that share a signature
  and all fall inside the reminder interval of the first sends exactly one alert, the opening,
  and leaves one open incident that counts every failure and is dated by the first and the last.
\<close>

theorem one_alert_per_failure_streak:
  assumes "open_incident series t = None"
    "\<forall>(v, now) \<in> set vs. (\<exists>r. v = VFailed sig r) \<and> rat_of_int (now - t0) < h * 3600000"
  shows "\<exists>a i. snd (record_all h series agent ((VFailed sig r0, t0) # vs) t) = [(t0, a)] \<and> al_kind a = Opened \<and>
     open_incident series (fst (record_all h series agent ((VFailed sig r0, t0) # vs) t)) = Some i \<and>
     ti_signature i = sig \<and> ti_failures i = Suc (length vs) \<and> ti_opened_at i = t0 \<and>
     ti_last_failure_at i = snd (last ((VFailed sig r0, t0) # vs))"
proof -
  let ?r = "record_verdict h series agent (VFailed sig r0) t0 t"
  obtain i where i: "open_incident series (fst ?r) = Some i" "ti_signature i = sig" "ti_failures i = 1"
      "ti_opened_at i = t0" "ti_last_failure_at i = t0" "ti_last_alert_at i = Some t0"
    using assms(1) by (auto simp: record_verdict_def open_new_def open_incident_save)
  have a: "\<exists>a. snd ?r = Some a \<and> al_kind a = Opened"
    using assms(1) by (auto simp: record_verdict_def open_new_def)
  have quiet: "snd (record_all h series agent vs (fst ?r)) = []"
    by (rule record_all_quiet[OF i(1,2,6) assms(2)])
  have "\<forall>(v, _) \<in> set vs. \<exists>r. v = VFailed sig r" using assms(2) by auto
  from record_all_same_signature[OF i(1,2) this] a quiet i show ?thesis
    by (auto simp: split_beta Let_def)
qed

theorem one_alert_per_failure_streak_witness:
  "\<exists>a i. snd (record_all 24 ''s'' ''g'' ((VFailed ''script'' None, 1000) # [(VFailed ''script'' None, 5000)]) []) = [(1000, a)]
     \<and> al_kind a = Opened
     \<and> open_incident ''s'' (fst (record_all 24 ''s'' ''g'' ((VFailed ''script'' None, 1000) # [(VFailed ''script'' None, 5000)]) [])) = Some i
     \<and> ti_signature i = ''script'' \<and> ti_failures i = Suc (length [(VFailed ''script'' None, 5000 :: int)]) \<and> ti_opened_at i = 1000
     \<and> ti_last_failure_at i = snd (last ((VFailed ''script'' None, 1000 :: int) # [(VFailed ''script'' None, 5000)]))"
  by (rule one_alert_per_failure_streak) (simp_all add: open_incident_def get_incident_def tbl_get_def)

text \<open>
  The verdicts of one series never touch another's incident, and the incident table keeps
  one row per series.
\<close>

theorem other_series_untouched:
  assumes "k \<noteq> series" "keyed ti_series_id t"
  shows "get_incident k (fst (record_all h series agent vs t)) = get_incident k t \<and>
     keyed ti_series_id (fst (record_all h series agent vs t))"
proof -
  obtain rs where rs: "fst (record_all h series agent vs t) = fold save_incident rs t"
      "ti_series_id ` set rs \<subseteq> {series}"
    using record_all_puts by blast
  then have "k \<notin> ti_series_id ` set rs" using assms(1) by blast
  then show ?thesis
    unfolding rs(1) using incidents.puts_frame[of k rs t] incidents.wf_puts[OF assms(2), of rs] by simp
qed

theorem other_series_untouched_witness:
  "get_incident ''a'' (fst (record_all 24 ''b'' ''g'' [(VFailed ''script'' None, 0)] [])) = get_incident ''a'' []
   \<and> keyed ti_series_id (fst (record_all 24 ''b'' ''g'' [(VFailed ''script'' None, 0)] []))"
  by (rule other_series_untouched) simp_all

end
