(* ===== verification/TaskPolicy.thy ===== *)
theory TaskPolicy
  imports TaskIncidents
begin

text \<open>
  \<open>src/app/src/modules/task-health/policy.ts\<close>: the task-run failure policy, run for a task
  session at the top of a reconcile pass. A pass reads the session's inbound rows, the
  container's acknowledgements and marks, and the tracked run records; it fails, retries or
  leaves each pending occurrence, classifies the finished ones, and folds the verdicts into
  incidents. \<open>run_policy\<close> is one pass as a function of its inputs. A thrown database error
  (caught and logged by \<open>applyTaskRunPolicy\<close>) is not modelled; the wall clock the run records
  are stamped with is one reading, \<open>pe_wall\<close>.
\<close>

definition START_RETRY_DELAYS_MIN :: "nat list" where "START_RETRY_DELAYS_MIN = [5, 15, 30]"
definition START_GRACE_MS :: millis where "START_GRACE_MS = 3 * 60000"
definition OBSERVATION_GAP_MS :: millis where "OBSERVATION_GAP_MS = 5 * 60000"
definition REASON_MAX :: nat where "REASON_MAX = 300"

definition REASON_notStarted :: string where
  "REASON_notStarted = ''the agent container could not start''"
definition REASON_diedBeforeQuery :: string where
  "REASON_diedBeforeQuery = ''the agent container exited before the run started''"
definition REASON_interrupted :: string where
  "REASON_interrupted = ''the run stopped before it finished (the agent container exited)''"
definition REASON_script :: string where
  "REASON_script = ''the pre-task script failed (error, timeout, or no JSON verdict)''"
definition REASON_stalled :: string where
  "REASON_stalled = ''the run kept stalling and was abandoned''"
definition REASON_modelError :: string where
  "REASON_modelError = ''the run ended with an error''"

text \<open>A row of \<open>messages_in\<close>; \<open>it_process_after\<close> is the stamp as \<open>parseStamp\<close> reads it (NaN is \<open>None\<close>).\<close>

record inbound_task_row =
  it_id :: string
  it_kind :: string
  it_series_id :: "string option"
  it_status :: string
  it_process_after :: "millis option"
  it_tries :: nat
  it_content :: string
  it_seq :: int

record mark =
  mk_reached_at :: "string option"
  mk_outcome :: "string option"
  mk_reason :: "string option"

definition clip :: "string option \<Rightarrow> string option" where
  "clip s = (if \<not> truthy s then None
             else let one = js_trim (collapse_space (the s))
                  in if one \<noteq> [] then Some (take REASON_MAX one) else None)"

text \<open>
  \<open>readOutbound\<close>: no database file gives no acks and unknown marks; a database without the
  mark table (an agent-runner too old to write it) gives unknown marks.
\<close>

record outbound_db =
  ob_processing_ack :: "(string \<times> string) list option"
  ob_task_run_marks :: "(string \<times> mark) list option"

definition read_outbound ::
  "outbound_db option \<Rightarrow> (string \<rightharpoonup> string) \<times> (string \<rightharpoonup> mark) option" where
  "read_outbound db =
     (case db of None \<Rightarrow> (Map.empty, None)
      | Some d \<Rightarrow>
          ((case ob_processing_ack d of None \<Rightarrow> Map.empty | Some rs \<Rightarrow> map_of (rev rs)),
           map_option (\<lambda>rs. map_of (rev rs)) (ob_task_run_marks d)))"

datatype finished_verdict = FVerdict run_verdict | FSkipped

definition verdict_for_finished ::
  "inbound_task_row \<Rightarrow> task_run_row \<Rightarrow> string option \<Rightarrow> mark option \<Rightarrow> bool \<Rightarrow> finished_verdict" where
  "verdict_for_finished row run ack mark marks_known =
     (if it_status row = ''failed'' then
        (if ack = Some ''script-skip:error'' then FVerdict (VFailed ''script'' (Some REASON_script))
         else FVerdict (VFailed ''stalled'' (Some REASON_stalled)))
      else if truthy (tr_declared_reason run) then
        FVerdict (VFailed ''agent-declared'' (tr_declared_reason run))
      else if (case mark of None \<Rightarrow> False | Some m \<Rightarrow> mk_outcome m = Some ''error'') then
        FVerdict (VFailed ''model-error'' (Some (coalesce (clip (mk_reason (the mark))) REASON_modelError)))
      else if (case mark of None \<Rightarrow> False | Some m \<Rightarrow> truthy (mk_reached_at m)) \<or> \<not> marks_known then
        FVerdict VOk
      else FSkipped)"

definition effective_status :: "string \<Rightarrow> string option \<Rightarrow> string" where
  "effective_status status ack =
     (if status \<noteq> ''pending'' \<or> \<not> truthy ack \<or> ack = Some ''processing'' then status
      else if ack = Some ''script-skip:error'' then ''failed'' else ''completed'')"

section \<open>The environment of a pass\<close>

record policy_env =
  pe_session_id :: string
  pe_agent_group_id :: string
  pe_now :: millis
  pe_wall :: millis
  pe_running :: bool
  pe_acks :: "string \<rightharpoonup> string"
  pe_marks :: "(string \<rightharpoonup> mark) option"
  pe_hours :: rat
  pe_origin_of :: "string \<Rightarrow> string option"
  pe_notify :: "alert \<Rightarrow> string \<Rightarrow> string option \<Rightarrow> bool"

definition env_mark :: "policy_env \<Rightarrow> string \<Rightarrow> mark option" where
  "env_mark e i = (case pe_marks e of None \<Rightarrow> None | Some m \<Rightarrow> m i)"

definition reached :: "policy_env \<Rightarrow> string \<Rightarrow> bool" where
  "reached e i = (case env_mark e i of None \<Rightarrow> False | Some m \<Rightarrow> truthy (mk_reached_at m))"

definition key_of :: "policy_env \<Rightarrow> inbound_task_row \<Rightarrow> run_key" where
  "key_of e row = \<lparr>rk_row_id = it_id row, rk_series_id = coalesce (it_series_id row) (it_id row),
                   rk_agent_group_id = pe_agent_group_id e, rk_session_id = pe_session_id e\<rparr>"

record pass_state =
  ps_inbound :: "inbound_task_row list"
  ps_runs :: "task_run_row list"
  ps_decided :: "string list"
  ps_verdicts :: "(inbound_task_row \<times> run_verdict) list"
  ps_log :: "(string \<times> string) list"

text \<open>The two prepared updates of the inbound database; both only touch a row still pending.\<close>

definition set_pending :: "millis \<Rightarrow> string \<Rightarrow> inbound_task_row list \<Rightarrow> inbound_task_row list" where
  "set_pending next_at i t =
     tbl_update (\<lambda>r. it_id r = i \<and> it_status r = ''pending'')
       (\<lambda>r. r\<lparr>it_process_after := Some next_at, it_tries := it_tries r + 1\<rparr>) t"

definition set_failed :: "string \<Rightarrow> inbound_task_row list \<Rightarrow> inbound_task_row list" where
  "set_failed i t =
     tbl_update (\<lambda>r. it_id r = i \<and> it_status r = ''pending'') (\<lambda>r. r\<lparr>it_status := ''failed''\<rparr>) t"

section \<open>One pending row\<close>

text \<open>What the loop body decides for a pending row, in the code's order of tests.\<close>

datatype row_action =
    RLeave
  | RClearWaiting
  | RInterrupted
  | RStartWaiting
  | RKeepWaiting
  | RStartFailed string

definition clear_or_leave :: "task_run_row \<Rightarrow> row_action" where
  "clear_or_leave run = (if tr_waiting_since run \<noteq> None then RClearWaiting else RLeave)"

definition died_before_query :: "policy_env \<Rightarrow> inbound_task_row \<Rightarrow> task_run_row \<Rightarrow> bool \<Rightarrow> bool" where
  "died_before_query e row run scheduled_later =
     (\<not> pe_running e \<and> pe_marks e \<noteq> None \<and>
      ((pe_acks e (it_id row) = Some ''processing'' \<and> \<not> scheduled_later)
       \<or> it_tries row > tr_tries_seen run))"

definition decide_row :: "policy_env \<Rightarrow> inbound_task_row \<Rightarrow> task_run_row \<Rightarrow> row_action" where
  "decide_row e row run =
     (let ack = pe_acks e (it_id row); now = pe_now e
      in if truthy ack \<and> ack \<noteq> Some ''processing'' then RLeave
         else if ack = Some ''processing'' \<and> pe_running e then clear_or_leave run
         else if reached e (it_id row) then RInterrupted
         else
           (let scheduled_later = (case it_process_after row of None \<Rightarrow> False | Some d \<Rightarrow> d > now)
            in if died_before_query e row run scheduled_later then RStartFailed REASON_diedBeforeQuery
               else if scheduled_later then RLeave
               else if \<not> pe_running e \<and> \<not> truthy ack \<and> it_process_after row \<noteq> None then
                 (if tr_waiting_since run = None \<or>
                     (case tr_waiting_seen_at run of None \<Rightarrow> True
                      | Some seen \<Rightarrow> now - seen > OBSERVATION_GAP_MS) then RStartWaiting
                  else if now - the (tr_waiting_since run) < START_GRACE_MS then RKeepWaiting
                  else RStartFailed REASON_notStarted)
               else clear_or_leave run))"

definition gave_up_reason :: "string \<Rightarrow> string" where
  "gave_up_reason why =
     why @ ''; gave up after '' @ show_nat (length START_RETRY_DELAYS_MIN) @ '' retries''"

definition retry_delay :: "nat \<Rightarrow> millis" where
  "retry_delay attempt = int (START_RETRY_DELAYS_MIN ! (attempt - 1)) * 60000"

definition settle_start_failure ::
  "policy_env \<Rightarrow> inbound_task_row \<Rightarrow> task_run_row \<Rightarrow> string \<Rightarrow> pass_state \<Rightarrow> pass_state" where
  "settle_start_failure e row run why st =
     (let attempt = tr_start_failures run + 1; key = key_of e row
      in if attempt \<le> length START_RETRY_DELAYS_MIN then
           (let next_at = pe_now e + retry_delay attempt
            in st\<lparr>ps_inbound := set_pending next_at (it_id row) (ps_inbound st),
                  ps_runs := upsert_run (pe_wall e) key
                    [SetStartFailures attempt, SetTriesSeen (it_tries row + 1),
                     SetNextRetryAt (Some next_at), SetLastError (Some why),
                     SetWaitingSince None, SetWaitingSeenAt None] (ps_runs st),
                  ps_log := ps_log st @ [(rk_series_id key,
                    ''run did not start ('' @ why @ ''); retry '' @ show_nat attempt @ '' of ''
                    @ show_nat (length START_RETRY_DELAYS_MIN) @ '' in ''
                    @ show_nat (START_RETRY_DELAYS_MIN ! (attempt - 1)) @ '' min'')]\<rparr>)
         else
           st\<lparr>ps_inbound := set_failed (it_id row) (ps_inbound st),
              ps_decided := ps_decided st @ [it_id row],
              ps_runs := upsert_run (pe_wall e) key
                [SetStartFailures attempt, SetLastError (Some why), SetNextRetryAt None,
                 SetOutcome (Some OutFailed), SetSignature (Some ''not-started''),
                 SetReason (Some (gave_up_reason why)), SetFinishedAt (Some (pe_now e))] (ps_runs st),
              ps_verdicts := ps_verdicts st @ [(row, VFailed ''not-started'' (Some (gave_up_reason why)))],
              ps_log := ps_log st @ [(rk_series_id key, ''run failed: '' @ gave_up_reason why)]\<rparr>)"

definition apply_row :: "policy_env \<Rightarrow> inbound_task_row \<Rightarrow> task_run_row \<Rightarrow> row_action \<Rightarrow> pass_state \<Rightarrow> pass_state" where
  "apply_row e row run act st =
     (let key = key_of e row; now = pe_now e
      in case act of
        RLeave \<Rightarrow> st
      | RClearWaiting \<Rightarrow>
          st\<lparr>ps_runs := upsert_run (pe_wall e) key [SetWaitingSince None, SetWaitingSeenAt None] (ps_runs st)\<rparr>
      | RStartWaiting \<Rightarrow>
          st\<lparr>ps_runs := upsert_run (pe_wall e) key [SetWaitingSince (Some now), SetWaitingSeenAt (Some now)] (ps_runs st)\<rparr>
      | RKeepWaiting \<Rightarrow>
          st\<lparr>ps_runs := upsert_run (pe_wall e) key [SetWaitingSeenAt (Some now)] (ps_runs st)\<rparr>
      | RInterrupted \<Rightarrow>
          st\<lparr>ps_inbound := set_failed (it_id row) (ps_inbound st),
             ps_decided := ps_decided st @ [it_id row],
             ps_runs := upsert_run (pe_wall e) key
               [SetOutcome (Some OutFailed), SetSignature (Some ''interrupted''),
                SetReason (Some REASON_interrupted), SetFinishedAt (Some now), SetNextRetryAt None] (ps_runs st),
             ps_verdicts := ps_verdicts st @ [(row, VFailed ''interrupted'' (Some REASON_interrupted))],
             ps_log := ps_log st @ [(rk_series_id key,
               ''run failed: '' @ REASON_interrupted @ ''; not retried, since it had already started'')]\<rparr>
      | RStartFailed why \<Rightarrow> settle_start_failure e row run why st)"

text \<open>The loop body: the tracked record (inserted on first sight), the decision, its effects.\<close>

definition policy_row :: "policy_env \<Rightarrow> task_run_row list \<Rightarrow> inbound_task_row \<Rightarrow> pass_state \<Rightarrow> pass_state" where
  "policy_row e snapshot row st =
     (case get_run (it_id row) snapshot of
        Some run \<Rightarrow> apply_row e row run (decide_row e row run) st
      | None \<Rightarrow>
          (let st1 = st\<lparr>ps_runs := upsert_run (pe_wall e) (key_of e row) [] (ps_runs st)\<rparr>;
               run = coalesce (get_run (it_id row) (ps_runs st1)) (fresh_run (key_of e row) (pe_wall e))
           in apply_row e row run (decide_row e row run) st1))"

definition pending_rows :: "inbound_task_row list \<Rightarrow> inbound_task_row list" where
  "pending_rows t = sort_key it_seq (filter (\<lambda>r. it_kind r = ''task'' \<and> it_status r = ''pending'') t)"

definition settle_pending :: "policy_env \<Rightarrow> inbound_task_row list \<Rightarrow> task_run_row list \<Rightarrow> pass_state" where
  "settle_pending e inb runs =
     fold (policy_row e (runs_for_session (pe_session_id e) runs)) (pending_rows inb)
       \<lparr>ps_inbound = inb, ps_runs = runs, ps_decided = [], ps_verdicts = [], ps_log = []\<rparr>"

section \<open>Finished runs\<close>

text \<open>An open run with its inbound row, the row's status being the one core is about to give it.\<close>

definition attach_row :: "policy_env \<Rightarrow> inbound_task_row list \<Rightarrow> task_run_row \<Rightarrow> (task_run_row \<times> inbound_task_row) option" where
  "attach_row e inb r =
     map_option (\<lambda>row. (r, row\<lparr>it_status := effective_status (it_status row) (pe_acks e (it_id row))\<rparr>))
       (find (\<lambda>row. it_id row = tr_row_id r \<and> it_kind row = ''task'') inb)"

definition finished_runs :: "policy_env \<Rightarrow> pass_state \<Rightarrow> (task_run_row \<times> inbound_task_row) list" where
  "finished_runs e st =
     sort_key (\<lambda>x. it_seq (snd x))
       (filter (\<lambda>x. it_status (snd x) = ''completed'' \<or> it_status (snd x) = ''failed'')
         (List.map_filter (attach_row e (ps_inbound st))
           (filter (\<lambda>r. tr_outcome r = None \<and> tr_row_id r \<notin> set (ps_decided st))
             (runs_for_session (pe_session_id e) (ps_runs st)))))"

definition classify_run :: "policy_env \<Rightarrow> task_run_row \<times> inbound_task_row \<Rightarrow> pass_state \<Rightarrow> pass_state" where
  "classify_run e x st =
     (let run = fst x; row = snd x;
          v = verdict_for_finished row run (pe_acks e (it_id row)) (env_mark e (it_id row)) (pe_marks e \<noteq> None);
          fields = (case v of
              FVerdict VOk \<Rightarrow> [SetOutcome (Some OutOk), SetSignature None, SetReason None]
            | FVerdict (VFailed sig reason) \<Rightarrow> [SetOutcome (Some OutFailed), SetSignature (Some sig), SetReason reason]
            | FSkipped \<Rightarrow> [SetOutcome (Some OutSkipped), SetSignature None, SetReason None])
      in st\<lparr>ps_runs := upsert_run (pe_wall e) (key_of e row)
              (fields @ [SetFinishedAt (Some (pe_now e)), SetNextRetryAt None]) (ps_runs st),
            ps_verdicts := ps_verdicts st @ (case v of FVerdict w \<Rightarrow> [(row, w)] | FSkipped \<Rightarrow> [])\<rparr>)"

definition settle_finished :: "policy_env \<Rightarrow> pass_state \<Rightarrow> pass_state" where
  "settle_finished e st = fold (classify_run e) (finished_runs e st) st"

section \<open>Verdicts into incidents\<close>

record policy_result =
  pr_inbound :: "inbound_task_row list"
  pr_runs :: "task_run_row list"
  pr_incidents :: "task_incident_row list"
  pr_log :: "(string \<times> string) list"
  pr_alerts :: "alert list"

definition alert_label :: "alert_kind \<Rightarrow> string" where
  "alert_label k = (case k of Opened \<Rightarrow> ''failure alert'' | Reminder \<Rightarrow> ''still-failing reminder''
                    | Recovered \<Rightarrow> ''recovery notice'')"

definition deliver_verdict ::
  "policy_env \<Rightarrow> inbound_task_row \<times> run_verdict \<Rightarrow> policy_result \<Rightarrow> policy_result" where
  "deliver_verdict e x res =
     (let row = fst x; series = coalesce (it_series_id row) (it_id row);
          (inc, a) = record_verdict (pe_hours e) series (pe_agent_group_id e) (snd x) (pe_now e) (pr_incidents res)
      in case a of None \<Rightarrow> res\<lparr>pr_incidents := inc\<rparr>
         | Some al \<Rightarrow>
             (let sent = pe_notify e al (pe_agent_group_id e) (pe_origin_of e (it_content row))
              in res\<lparr>pr_incidents := inc, pr_alerts := pr_alerts res @ [al],
                     pr_log := pr_log res @ [(series, alert_label (al_kind al)
                       @ (if sent then '' sent to the task owner'' else '' could not be delivered''))]\<rparr>))"

definition run_policy ::
  "policy_env \<Rightarrow> inbound_task_row list \<Rightarrow> task_run_row list \<Rightarrow> task_incident_row list \<Rightarrow> policy_result" where
  "run_policy e inb runs incs =
     (let st = settle_finished e (settle_pending e inb runs)
      in fold (deliver_verdict e) (sort_key (\<lambda>x. it_seq (fst x)) (ps_verdicts st))
           \<lparr>pr_inbound = ps_inbound st, pr_runs = ps_runs st, pr_incidents = incs,
            pr_log = ps_log st, pr_alerts = []\<rparr>)"

text \<open>The guard around a pass: only task sessions with an inbound database are looked at.\<close>

definition apply_task_run_policy ::
  "bool \<Rightarrow> bool \<Rightarrow> policy_env \<Rightarrow> inbound_task_row list \<Rightarrow> task_run_row list \<Rightarrow> task_incident_row list
     \<Rightarrow> policy_result" where
  "apply_task_run_policy is_task has_inbound e inb runs incs =
     (if \<not> is_task \<or> \<not> has_inbound
      then \<lparr>pr_inbound = inb, pr_runs = runs, pr_incidents = incs, pr_log = [], pr_alerts = []\<rparr>
      else run_policy e inb runs incs)"

end
