(* ===== verification/TaskPolicyFacts.thy ===== *)
theory TaskPolicyFacts
  imports TaskPolicy
begin

text \<open>
  What a pass of the task-run policy guarantees. First each row's step is reduced to its effect
  on that row's record and inbound entry; rows do not interfere, so a pass is read off row by
  row. Then the properties: a run that reached the model is never run again, at most three start
  retries on the fixed ladder, a settled run stays settled.
\<close>

section \<open>Inbound rows\<close>

definition get_row :: "string \<Rightarrow> inbound_task_row list \<Rightarrow> inbound_task_row option" where
  "get_row i t = tbl_get it_id i t"

lemma get_row_set_failed [row_simps]:
  "get_row i (set_failed j t) =
     map_option (\<lambda>r. if i = j \<and> it_status r = ''pending'' then r\<lparr>it_status := ''failed''\<rparr> else r) (get_row i t)"
  by (cases "tbl_get it_id i t")
     (auto simp: get_row_def set_failed_def tbl_get_update dest: tbl_get_SomeD)

lemma get_row_set_pending [row_simps]:
  "get_row i (set_pending at' j t) =
     map_option (\<lambda>r. if i = j \<and> it_status r = ''pending''
       then r\<lparr>it_process_after := Some at', it_tries := it_tries r + 1\<rparr> else r) (get_row i t)"
  by (cases "tbl_get it_id i t")
     (auto simp: get_row_def set_pending_def tbl_get_update dest: tbl_get_SomeD)

lemma keyed_set_failed [intro]: "keyed it_id t \<Longrightarrow> keyed it_id (set_failed j t)"
  unfolding set_failed_def by (rule keyed_update) auto

lemma keyed_set_pending [intro]: "keyed it_id t \<Longrightarrow> keyed it_id (set_pending at' j t)"
  unfolding set_pending_def by (rule keyed_update) auto

section \<open>The effect of one row's step\<close>

text \<open>The column writes of an action on the tracked record.\<close>

definition action_fields :: "policy_env \<Rightarrow> inbound_task_row \<Rightarrow> task_run_row \<Rightarrow> row_action \<Rightarrow> run_field list" where
  "action_fields e row run act =
     (let now = pe_now e; attempt = tr_start_failures run + 1
      in case act of
        RLeave \<Rightarrow> []
      | RClearWaiting \<Rightarrow> [SetWaitingSince None, SetWaitingSeenAt None]
      | RStartWaiting \<Rightarrow> [SetWaitingSince (Some now), SetWaitingSeenAt (Some now)]
      | RKeepWaiting \<Rightarrow> [SetWaitingSeenAt (Some now)]
      | RInterrupted \<Rightarrow>
          [SetOutcome (Some OutFailed), SetSignature (Some ''interrupted''),
           SetReason (Some REASON_interrupted), SetFinishedAt (Some now), SetNextRetryAt None]
      | RStartFailed why \<Rightarrow>
          (if attempt \<le> 3 then
             [SetStartFailures attempt, SetTriesSeen (it_tries row + 1),
              SetNextRetryAt (Some (now + retry_delay attempt)), SetLastError (Some why),
              SetWaitingSince None, SetWaitingSeenAt None]
           else
             [SetStartFailures attempt, SetLastError (Some why), SetNextRetryAt None,
              SetOutcome (Some OutFailed), SetSignature (Some ''not-started''),
              SetReason (Some (gave_up_reason why)), SetFinishedAt (Some now)]))"

text \<open>What an action does to the inbound row it is about.\<close>

definition action_inbound :: "policy_env \<Rightarrow> task_run_row \<Rightarrow> row_action \<Rightarrow> inbound_task_row \<Rightarrow> inbound_task_row" where
  "action_inbound e run act r =
     (if it_status r \<noteq> ''pending'' then r
      else case act of
        RInterrupted \<Rightarrow> r\<lparr>it_status := ''failed''\<rparr>
      | RStartFailed why \<Rightarrow>
          (if tr_start_failures run + 1 \<le> 3
           then r\<lparr>it_process_after := Some (pe_now e + retry_delay (tr_start_failures run + 1)), it_tries := it_tries r + 1\<rparr>
           else r\<lparr>it_status := ''failed''\<rparr>)
      | _ \<Rightarrow> r)"

definition action_verdict :: "task_run_row \<Rightarrow> row_action \<Rightarrow> run_verdict option" where
  "action_verdict run act =
     (case act of
        RInterrupted \<Rightarrow> Some (VFailed ''interrupted'' (Some REASON_interrupted))
      | RStartFailed why \<Rightarrow> (if tr_start_failures run + 1 \<le> 3 then None
                           else Some (VFailed ''not-started'' (Some (gave_up_reason why))))
      | _ \<Rightarrow> None)"

lemma three_retries [simp]: "length START_RETRY_DELAYS_MIN = 3"
  by (simp add: START_RETRY_DELAYS_MIN_def)

lemma apply_row_runs:
  "ps_runs (apply_row e row run act st) =
     (if act = RLeave then ps_runs st
      else upsert_run (pe_wall e) (key_of e row) (action_fields e row run act) (ps_runs st))"
  by (cases act) (auto simp: apply_row_def settle_start_failure_def action_fields_def Let_def)

lemma apply_row_get_row:
  "get_row i (ps_inbound (apply_row e row run act st)) =
     (if i = it_id row then map_option (action_inbound e run act) (get_row i (ps_inbound st))
      else get_row i (ps_inbound st))"
  by (cases act; cases "get_row i (ps_inbound st)")
     (auto simp: apply_row_def settle_start_failure_def action_inbound_def Let_def
        get_row_set_failed get_row_set_pending)

lemma apply_row_verdicts:
  "ps_verdicts (apply_row e row run act st) =
     ps_verdicts st @ (case action_verdict run act of None \<Rightarrow> [] | Some v \<Rightarrow> [(row, v)])"
  "ps_decided (apply_row e row run act st) =
     ps_decided st @ (case action_verdict run act of None \<Rightarrow> [] | Some v \<Rightarrow> [it_id row])"
  by (cases act; auto simp: apply_row_def settle_start_failure_def action_verdict_def Let_def)+

lemma apply_row_keyed:
  "keyed it_id (ps_inbound st) \<Longrightarrow> keyed it_id (ps_inbound (apply_row e row run act st))"
  by (cases act) (auto simp: apply_row_def settle_start_failure_def Let_def)

lemma key_of_row_id [simp]: "rk_row_id (key_of e row) = it_id row"
  by (simp add: key_of_def)

text \<open>The record a step works on: the tracked one, or a fresh one on first sight.\<close>

definition tracked :: "policy_env \<Rightarrow> inbound_task_row \<Rightarrow> task_run_row list \<Rightarrow> task_run_row" where
  "tracked e row t = coalesce (get_run (it_id row) t) (fresh_run (key_of e row) (pe_wall e))"

definition row_decision :: "policy_env \<Rightarrow> inbound_task_row \<Rightarrow> task_run_row list \<Rightarrow> row_action" where
  "row_decision e row t = decide_row e row (tracked e row t)"

lemma get_run_snapshot:
  assumes "keyed tr_row_id t" "get_run i (runs_for_session s t) = Some r"
  shows "get_run i t = Some r"
  using assms by (auto simp: get_run_def tbl_get_iff runs_for_session_def dest!: tbl_get_SomeD)

lemma policy_row_get_run:
  assumes "keyed tr_row_id runs0" "get_run (it_id row) (ps_runs st) = get_run (it_id row) runs0"
  shows "get_run i (ps_runs (policy_row e (runs_for_session s runs0) row st)) =
     (if i = it_id row
      then (let act = row_decision e row runs0; r = tracked e row runs0
            in Some (if act = RLeave then r else set_fields (action_fields e row r act) (pe_wall e) r))
      else get_run i (ps_runs st))"
proof (cases "get_run (it_id row) (runs_for_session s runs0)")
  case None
  have nonempty: "act \<noteq> RLeave \<Longrightarrow> action_fields e row r act \<noteq> []" for act r
    by (cases act) (auto simp: action_fields_def Let_def)
  show ?thesis
    using None assms(2)
    by (auto simp: policy_row_def apply_row_runs get_run_upsert row_decision_def tracked_def Let_def nonempty)
next
  case (Some r)
  have nonempty: "act \<noteq> RLeave \<Longrightarrow> action_fields e row r act \<noteq> []" for act r
    by (cases act) (auto simp: action_fields_def Let_def)
  have "get_run (it_id row) runs0 = Some r"
    using get_run_snapshot[OF assms(1) Some] .
  then show ?thesis
    using Some assms(2)
    by (auto simp: policy_row_def apply_row_runs get_run_upsert row_decision_def tracked_def Let_def nonempty)
qed

lemma policy_row_others:
  fixes e :: policy_env
  assumes "keyed tr_row_id runs0" "get_run (it_id row) (ps_runs st) = get_run (it_id row) runs0"
  defines "act \<equiv> row_decision e row runs0" and "r \<equiv> tracked e row runs0"
  shows "get_row i (ps_inbound (policy_row e (runs_for_session s runs0) row st)) =
     (if i = it_id row then map_option (action_inbound e r act) (get_row i (ps_inbound st))
      else get_row i (ps_inbound st))"
    and "ps_verdicts (policy_row e (runs_for_session s runs0) row st) =
     ps_verdicts st @ (case action_verdict r act of None \<Rightarrow> [] | Some v \<Rightarrow> [(row, v)])"
    and "ps_decided (policy_row e (runs_for_session s runs0) row st) =
     ps_decided st @ (case action_verdict r act of None \<Rightarrow> [] | Some v \<Rightarrow> [it_id row])"
proof -
  let ?st1 = "st\<lparr>ps_runs := upsert_run (pe_wall e) (key_of e row) [] (ps_runs st)\<rparr>"
  have "\<exists>st'. policy_row e (runs_for_session s runs0) row st = apply_row e row r act st' \<and>
          ps_inbound st' = ps_inbound st \<and> ps_verdicts st' = ps_verdicts st \<and> ps_decided st' = ps_decided st"
  proof (cases "get_run (it_id row) (runs_for_session s runs0)")
    case None
    then show ?thesis
      using assms(2)
      by (intro exI[of _ ?st1])
         (simp add: policy_row_def act_def r_def row_decision_def tracked_def Let_def get_run_upsert)
  next
    case (Some x)
    from get_run_snapshot[OF assms(1) Some] Some show ?thesis
      by (intro exI[of _ st]) (simp add: policy_row_def act_def r_def row_decision_def tracked_def)
  qed
  then obtain st' where st': "policy_row e (runs_for_session s runs0) row st = apply_row e row r act st'"
      "ps_inbound st' = ps_inbound st" "ps_verdicts st' = ps_verdicts st" "ps_decided st' = ps_decided st"
    by blast
  show "get_row i (ps_inbound (policy_row e (runs_for_session s runs0) row st)) =
     (if i = it_id row then map_option (action_inbound e r act) (get_row i (ps_inbound st))
      else get_row i (ps_inbound st))"
    by (simp add: st' apply_row_get_row)
  show "ps_verdicts (policy_row e (runs_for_session s runs0) row st) =
     ps_verdicts st @ (case action_verdict r act of None \<Rightarrow> [] | Some v \<Rightarrow> [(row, v)])"
    "ps_decided (policy_row e (runs_for_session s runs0) row st) =
     ps_decided st @ (case action_verdict r act of None \<Rightarrow> [] | Some v \<Rightarrow> [it_id row])"
    by (simp_all add: st' apply_row_verdicts)
qed

section \<open>The pending rows together\<close>

definition row_result :: "policy_env \<Rightarrow> inbound_task_row \<Rightarrow> task_run_row list \<Rightarrow> task_run_row" where
  "row_result e row t =
     (let act = row_decision e row t; r = tracked e row t
      in if act = RLeave then r else set_fields (action_fields e row r act) (pe_wall e) r)"

definition row_verdict :: "policy_env \<Rightarrow> inbound_task_row \<Rightarrow> task_run_row list \<Rightarrow> run_verdict option" where
  "row_verdict e row t = action_verdict (tracked e row t) (row_decision e row t)"

definition verdict_list :: "policy_env \<Rightarrow> task_run_row list \<Rightarrow> inbound_task_row list \<Rightarrow> (inbound_task_row \<times> run_verdict) list" where
  "verdict_list e t rows = concat (map (\<lambda>row. case row_verdict e row t of None \<Rightarrow> [] | Some v \<Rightarrow> [(row, v)]) rows)"

lemma settle_fold:
  fixes e :: policy_env and s :: string
  assumes "keyed tr_row_id runs0" "distinct (map it_id rows)"
    "\<And>row. row \<in> set rows \<Longrightarrow> get_run (it_id row) (ps_runs st) = get_run (it_id row) runs0"
  defines "fin \<equiv> fold (policy_row e (runs_for_session s runs0)) rows st"
  shows "get_run i (ps_runs fin) =
      (case find (\<lambda>r. it_id r = i) rows of None \<Rightarrow> get_run i (ps_runs st) | Some row \<Rightarrow> Some (row_result e row runs0))"
    and "get_row i (ps_inbound fin) =
      (case find (\<lambda>r. it_id r = i) rows of None \<Rightarrow> get_row i (ps_inbound st)
       | Some row \<Rightarrow> map_option (action_inbound e (tracked e row runs0) (row_decision e row runs0)) (get_row i (ps_inbound st)))"
    and "ps_verdicts fin = ps_verdicts st @ verdict_list e runs0 rows"
    and "ps_decided fin = ps_decided st @ map (\<lambda>x. it_id (fst x)) (verdict_list e runs0 rows)"
  unfolding fin_def using assms(2,3)
proof (induction rows arbitrary: st)
  case Nil
  {
    case 1
    then show ?case by simp
  next
    case 2
    then show ?case by simp
  next
    case 3
    then show ?case by (simp add: verdict_list_def)
  next
    case 4
    then show ?case by (simp add: verdict_list_def)
  }
next
  case (Cons row rows)
  let ?step = "policy_row e (runs_for_session s runs0) row"
  have rest: "get_run (it_id r) (ps_runs (?step st)) = get_run (it_id r) runs0"
    if "distinct (map it_id (row # rows))" "r \<in> set rows"
      "\<And>r. r \<in> set (row # rows) \<Longrightarrow> get_run (it_id r) (ps_runs st) = get_run (it_id r) runs0" for r and st :: pass_state
  proof -
    from that(1,2) have "it_id r \<noteq> it_id row" by (force simp: image_iff)
    with that show ?thesis using policy_row_get_run[OF assms(1) that(3)[of row], where e = e and s = s and i = "it_id r"] by simp
  qed
  {
    case 1
    have here1: "get_run (it_id row) (ps_runs st) = get_run (it_id row) runs0"
      using 1(2) by simp
    have rest1: "\<And>r. r \<in> set rows \<Longrightarrow> get_run (it_id r) (ps_runs (?step st)) = get_run (it_id r) runs0"
      by (rule rest[OF 1(1)]) (assumption, erule 1(2))
    have gone: "find (\<lambda>r. it_id r = it_id row) rows = None"
      using 1 by (auto simp: find_None_iff_all intro: rev_image_eqI)
    show ?case
      using Cons.IH(1)[of "?step st"] rest1 1(1) policy_row_get_run[OF assms(1) here1, of i] gone
      by (auto simp: row_result_def Let_def split: option.splits)
  next
    case 2
    have here2: "get_run (it_id row) (ps_runs st) = get_run (it_id row) runs0"
      using 2(2) by simp
    have rest2: "\<And>r. r \<in> set rows \<Longrightarrow> get_run (it_id r) (ps_runs (?step st)) = get_run (it_id r) runs0"
      by (rule rest[OF 2(1)]) (assumption, erule 2(2))
    have gone: "find (\<lambda>r. it_id r = it_id row) rows = None"
      using 2 by (auto simp: find_None_iff_all intro: rev_image_eqI)
    show ?case
      using Cons.IH(2)[of "?step st"] rest2 2(1) policy_row_others(1)[OF assms(1) here2, of i] gone
      by (auto split: option.splits)
  next
    case 3
    have here3: "get_run (it_id row) (ps_runs st) = get_run (it_id row) runs0"
      using 3(2) by simp
    have rest3: "\<And>r. r \<in> set rows \<Longrightarrow> get_run (it_id r) (ps_runs (?step st)) = get_run (it_id r) runs0"
      by (rule rest[OF 3(1)]) (assumption, erule 3(2))
    show ?case
      using Cons.IH(3)[of "?step st"] rest3 3(1) policy_row_others(2)[OF assms(1) here3]
      by (auto simp: verdict_list_def row_verdict_def split: option.splits)
  next
    case 4
    have here4: "get_run (it_id row) (ps_runs st) = get_run (it_id row) runs0"
      using 4(2) by simp
    have rest4: "\<And>r. r \<in> set rows \<Longrightarrow> get_run (it_id r) (ps_runs (?step st)) = get_run (it_id r) runs0"
      by (rule rest[OF 4(1)]) (assumption, erule 4(2))
    show ?case
      using Cons.IH(4)[of "?step st"] rest4 4(1) policy_row_others(3)[OF assms(1) here4]
      by (auto simp: verdict_list_def row_verdict_def split: option.splits)
  }
qed

text \<open>A row is up for a decision when it is a pending task occurrence.\<close>

definition up_for_decision :: "inbound_task_row \<Rightarrow> bool" where
  "up_for_decision r = (it_kind r = ''task'' \<and> it_status r = ''pending'')"

lemma set_pending_rows: "set (pending_rows inb) = {r \<in> set inb. up_for_decision r}"
  by (auto simp: pending_rows_def up_for_decision_def)

lemma distinct_pending_rows: "keyed it_id inb \<Longrightarrow> distinct (map it_id (pending_rows inb))"
  using distinct_map_filterI[of it_id inb]
  by (simp add: keyed_def pending_rows_def distinct_map)

lemma find_by_id:
  "distinct (map it_id rows) \<Longrightarrow> find (\<lambda>r. it_id r = i) rows = Some r \<longleftrightarrow> r \<in> set rows \<and> it_id r = i"
  using find_distinct_key[of it_id rows r] by (auto dest: find_SomeD)

lemma find_pending_rows:
  assumes "keyed it_id inb"
  shows "find (\<lambda>r. it_id r = i) (pending_rows inb) =
     (case get_row i inb of None \<Rightarrow> None | Some r \<Rightarrow> if up_for_decision r then Some r else None)"
proof (cases "find (\<lambda>r. it_id r = i) (pending_rows inb)")
  case None
  then have "\<And>r. r \<in> set inb \<Longrightarrow> it_id r = i \<Longrightarrow> \<not> up_for_decision r"
    by (auto simp: find_None_iff_all set_pending_rows)
  then show ?thesis
    using None by (auto simp: get_row_def split: option.splits dest: tbl_get_SomeD)
next
  case (Some r)
  then have "r \<in> set inb" "it_id r = i" "up_for_decision r"
    using find_by_id[OF distinct_pending_rows[OF assms]] by (auto simp: set_pending_rows)
  then show ?thesis
    using Some tbl_get_iff[OF assms, of i r] by (simp add: get_row_def)
qed

lemma settle_pending_facts:
  assumes "keyed it_id inb" "keyed tr_row_id runs"
  shows "get_run i (ps_runs (settle_pending e inb runs)) =
      (case get_row i inb of None \<Rightarrow> get_run i runs
       | Some r \<Rightarrow> if up_for_decision r then Some (row_result e r runs) else get_run i runs)"
    and "get_row i (ps_inbound (settle_pending e inb runs)) =
      map_option (\<lambda>r. if up_for_decision r then action_inbound e (tracked e r runs) (row_decision e r runs) r else r)
        (get_row i inb)"
    and "ps_verdicts (settle_pending e inb runs) = verdict_list e runs (pending_rows inb)"
    and "ps_decided (settle_pending e inb runs) = map (\<lambda>x. it_id (fst x)) (verdict_list e runs (pending_rows inb))"
proof -
  let ?st = "\<lparr>ps_inbound = inb, ps_runs = runs, ps_decided = [], ps_verdicts = [], ps_log = []\<rparr>"
  note F = settle_fold[OF assms(2) distinct_pending_rows[OF assms(1)], where st = ?st and e = e and s = "pe_session_id e", simplified]
  show "get_run i (ps_runs (settle_pending e inb runs)) =
      (case get_row i inb of None \<Rightarrow> get_run i runs
       | Some r \<Rightarrow> if up_for_decision r then Some (row_result e r runs) else get_run i runs)"
    using F(1)[of i] by (auto simp: settle_pending_def find_pending_rows[OF assms(1)] split: option.splits)
  show "get_row i (ps_inbound (settle_pending e inb runs)) =
      map_option (\<lambda>r. if up_for_decision r then action_inbound e (tracked e r runs) (row_decision e r runs) r else r)
        (get_row i inb)"
    using F(2)[of i] by (auto simp: settle_pending_def find_pending_rows[OF assms(1)] split: option.splits)
  show "ps_verdicts (settle_pending e inb runs) = verdict_list e runs (pending_rows inb)"
    "ps_decided (settle_pending e inb runs) = map (\<lambda>x. it_id (fst x)) (verdict_list e runs (pending_rows inb))"
    using F(3,4) by (simp_all add: settle_pending_def)
qed

section \<open>Finished runs\<close>

definition classify_fields :: "policy_env \<Rightarrow> task_run_row \<times> inbound_task_row \<Rightarrow> run_field list" where
  "classify_fields e x =
     (case verdict_for_finished (snd x) (fst x) (pe_acks e (it_id (snd x))) (env_mark e (it_id (snd x))) (pe_marks e \<noteq> None) of
        FVerdict VOk \<Rightarrow> [SetOutcome (Some OutOk), SetSignature None, SetReason None]
      | FVerdict (VFailed sig reason) \<Rightarrow> [SetOutcome (Some OutFailed), SetSignature (Some sig), SetReason reason]
      | FSkipped \<Rightarrow> [SetOutcome (Some OutSkipped), SetSignature None, SetReason None])
     @ [SetFinishedAt (Some (pe_now e)), SetNextRetryAt None]"

lemma classify_run_get_run:
  "get_run i (ps_runs (classify_run e x st)) =
     (if i = it_id (snd x)
      then Some (set_fields (classify_fields e x) (pe_wall e)
             (coalesce (get_run i (ps_runs st)) (fresh_run (key_of e (snd x)) (pe_wall e))))
      else get_run i (ps_runs st))"
  by (auto simp: classify_run_def classify_fields_def Let_def get_run_upsert)

lemma classify_run_inbound [simp]: "ps_inbound (classify_run e x st) = ps_inbound st"
  by (simp add: classify_run_def Let_def)

lemma fold_classify_inbound [simp]: "ps_inbound (fold (classify_run e) xs st) = ps_inbound st"
  by (induction xs arbitrary: st) auto

lemma fold_classify_get_run:
  assumes "distinct (map (\<lambda>x. it_id (snd x)) xs)"
  shows "get_run i (ps_runs (fold (classify_run e) xs st)) =
     (case find (\<lambda>x. it_id (snd x) = i) xs of None \<Rightarrow> get_run i (ps_runs st)
      | Some x \<Rightarrow> Some (set_fields (classify_fields e x) (pe_wall e)
             (coalesce (get_run i (ps_runs st)) (fresh_run (key_of e (snd x)) (pe_wall e)))))"
  using assms
proof (induction xs arbitrary: st)
  case Nil
  then show ?case by simp
next
  case (Cons x xs)
  have "find (\<lambda>y. it_id (snd y) = it_id (snd x)) xs = None"
    using Cons.prems by (auto simp: find_None_iff_all intro: rev_image_eqI)
  then show ?case
    using Cons by (auto simp: classify_run_get_run split: option.splits)
qed

lemma attach_rowD: "attach_row e inb r = Some x \<Longrightarrow> fst x = r \<and> it_id (snd x) = tr_row_id r"
  by (auto simp: attach_row_def dest!: find_SomeD)

lemma finished_runs_memD:
  assumes "x \<in> set (finished_runs e st)"
  shows "fst x \<in> set (ps_runs st) \<and> tr_outcome (fst x) = None \<and> tr_row_id (fst x) \<notin> set (ps_decided st)
         \<and> it_id (snd x) = tr_row_id (fst x)"
  using assms
  by (auto simp: finished_runs_def in_map_filter runs_for_session_def dest!: attach_rowD)

lemma distinct_finished_runs:
  assumes "keyed tr_row_id (ps_runs st)"
  shows "distinct (map (\<lambda>x. it_id (snd x)) (finished_runs e st))"
proof -
  let ?g = "attach_row e (ps_inbound st)"
  let ?rs = "filter (\<lambda>r. tr_outcome r = None \<and> tr_row_id r \<notin> set (ps_decided st))
             (runs_for_session (pe_session_id e) (ps_runs st))"
  have "map (\<lambda>x. it_id (snd x)) (List.map_filter ?g ?rs) = map tr_row_id (filter (\<lambda>r. ?g r \<noteq> None) ?rs)"
    by (rule map_of_map_filter) (simp add: attach_rowD)
  moreover have "distinct (map tr_row_id (filter (\<lambda>r. ?g r \<noteq> None) ?rs))"
    using assms unfolding runs_for_session_def keyed_def by (intro distinct_map_filterI)
  ultimately have "distinct (map (\<lambda>x. it_id (snd x)) (List.map_filter ?g ?rs))" by simp
  from distinct_map_filterI[OF this, of "\<lambda>x. it_status (snd x) = ''completed'' \<or> it_status (snd x) = ''failed''"]
  show ?thesis by (simp add: finished_runs_def distinct_map)
qed

lemma policy_row_keyed:
  "keyed tr_row_id (ps_runs st) \<Longrightarrow> keyed tr_row_id (ps_runs (policy_row e snap row st))"
  by (auto simp: policy_row_def apply_row_runs Let_def split: option.splits)

lemma settle_pending_keyed:
  assumes "keyed tr_row_id runs"
  shows "keyed tr_row_id (ps_runs (settle_pending e inb runs))"
proof -
  have "keyed tr_row_id (ps_runs st) \<Longrightarrow> keyed tr_row_id (ps_runs (fold (policy_row e snap) rows st))" for snap rows st
    by (induction rows arbitrary: st) (auto simp: policy_row_keyed)
  then show ?thesis using assms by (simp add: settle_pending_def)
qed

section \<open>A whole pass\<close>

lemma deliver_verdict_tables [simp]:
  "pr_inbound (deliver_verdict e x res) = pr_inbound res"
  "pr_runs (deliver_verdict e x res) = pr_runs res"
  by (auto simp: deliver_verdict_def Let_def split_beta split: option.splits)

lemma fold_deliver_tables [simp]:
  "pr_inbound (fold (deliver_verdict e) xs res) = pr_inbound res"
  "pr_runs (fold (deliver_verdict e) xs res) = pr_runs res"
  by (induction xs arbitrary: res) auto

lemma run_policy_inbound:
  assumes "keyed it_id inb" "keyed tr_row_id runs"
  shows "get_row i (pr_inbound (run_policy e inb runs incs)) =
      map_option (\<lambda>r. if up_for_decision r then action_inbound e (tracked e r runs) (row_decision e r runs) r else r)
        (get_row i inb)"
  by (simp add: run_policy_def Let_def settle_finished_def settle_pending_facts[OF assms])

lemma run_policy_get_run:
  fixes e :: policy_env and i :: string
  assumes "keyed it_id inb" "keyed tr_row_id runs"
  defines "mid \<equiv> (case get_row i inb of None \<Rightarrow> get_run i runs
       | Some r \<Rightarrow> if up_for_decision r then Some (row_result e r runs) else get_run i runs)"
  shows "get_run i (pr_runs (run_policy e inb runs incs)) = mid \<or>
     (\<exists>r0 x. mid = Some r0 \<and> tr_outcome r0 = None \<and>
        get_run i (pr_runs (run_policy e inb runs incs)) = Some (set_fields (classify_fields e x) (pe_wall e) r0))"
proof -
  let ?st = "settle_pending e inb runs"
  have k: "keyed tr_row_id (ps_runs ?st)" using assms(2) by (rule settle_pending_keyed)
  have mid: "get_run i (ps_runs ?st) = mid"
    unfolding mid_def by (rule settle_pending_facts(1)[OF assms(1,2)])
  show ?thesis
  proof (cases "find (\<lambda>x. it_id (snd x) = i) (finished_runs e ?st)")
    case None
    then show ?thesis
      by (simp add: run_policy_def Let_def settle_finished_def fold_classify_get_run[OF distinct_finished_runs[OF k]] mid)
  next
    case (Some x)
    from find_SomeD[OF Some] finished_runs_memD
    have x: "fst x \<in> set (ps_runs ?st)" "tr_outcome (fst x) = None" "tr_row_id (fst x) = i"
      by fastforce+
    then have "get_run i (ps_runs ?st) = Some (fst x)"
      using tbl_get_iff[OF k, of i "fst x"] by (simp add: get_run_def)
    with mid have "mid = Some (fst x)" by simp
    with Some x show ?thesis
      by (intro disjI2 exI[of _ "fst x"] exI[of _ x])
         (simp add: run_policy_def Let_def settle_finished_def
            fold_classify_get_run[OF distinct_finished_runs[OF k]] mid)
  qed
qed

lemma classify_fields_keep [simp]:
  "tr_start_failures (set_fields (classify_fields e x) w r) = tr_start_failures r"
  "tr_tries_seen (set_fields (classify_fields e x) w r) = tr_tries_seen r"
  by (auto simp: set_fields_def classify_fields_def split: finished_verdict.splits run_verdict.splits)

lemma keyed_classify_run: "keyed tr_row_id (ps_runs st) \<Longrightarrow> keyed tr_row_id (ps_runs (classify_run e x st))"
  by (simp add: classify_run_def Let_def keyed_upsert_run)

lemma keyed_classify: "keyed tr_row_id (ps_runs st) \<Longrightarrow> keyed tr_row_id (ps_runs (fold (classify_run e) xs st))"
  by (induction xs arbitrary: st) (auto simp: keyed_classify_run)

lemma run_policy_keyed: "keyed tr_row_id runs \<Longrightarrow> keyed tr_row_id (pr_runs (run_policy e inb runs incs))"
  by (simp add: run_policy_def Let_def settle_finished_def keyed_classify settle_pending_keyed)

section \<open>Runs that reached the model\<close>

lemma set_fields_simps [simp]:
  "tr_start_failures (set_fields (action_fields e row r act) w r') =
     (case act of RStartFailed _ \<Rightarrow> tr_start_failures r + 1 | _ \<Rightarrow> tr_start_failures r')"
  by (cases act) (auto simp: set_fields_def action_fields_def Let_def)

lemma row_result_start_failures:
  "tr_start_failures (row_result e row t) =
     (case row_decision e row t of RStartFailed _ \<Rightarrow> tr_start_failures (tracked e row t) + 1
      | _ \<Rightarrow> tr_start_failures (tracked e row t))"
  by (auto simp: row_result_def Let_def split: row_action.splits)

lemma decide_reached:
  "reached e (it_id row) \<Longrightarrow> decide_row e row run \<in> {RLeave, RClearWaiting, RInterrupted}"
  by (auto simp: decide_row_def Let_def clear_or_leave_def)

lemma decide_interrupted:
  assumes "reached e (it_id row)" "\<not> truthy (pe_acks e (it_id row)) \<or> pe_acks e (it_id row) = Some ''processing''"
    "\<not> (pe_acks e (it_id row) = Some ''processing'' \<and> pe_running e)"
  shows "decide_row e row run = RInterrupted"
proof -
  have "\<not> (truthy (pe_acks e (it_id row)) \<and> pe_acks e (it_id row) \<noteq> Some ''processing'')"
    using assms(2) by blast
  then show ?thesis
    by (simp only: decide_row_def Let_def assms(1,3) if_True if_False)
qed

lemma run_policy_outcome_kept:
  assumes "keyed it_id inb" "keyed tr_row_id runs" "get_run i runs = Some r" "tr_outcome r = Some oc"
    "\<And>row. get_row i inb = Some row \<Longrightarrow> up_for_decision row \<Longrightarrow>
        truthy (pe_acks e i) \<and> pe_acks e i \<noteq> Some ''processing''"
  shows "get_run i (pr_runs (run_policy e inb runs incs)) = Some r"
proof -
  let ?mid = "(case get_row i inb of None \<Rightarrow> get_run i runs
       | Some r \<Rightarrow> if up_for_decision r then Some (row_result e r runs) else get_run i runs)"
  have "?mid = Some r"
  proof (cases "get_row i inb")
    case None
    then show ?thesis using assms(3) by simp
  next
    case (Some row)
    have id: "it_id row = i" using Some by (auto simp: get_row_def dest: tbl_get_SomeD)
    have "row_result e row runs = r" if "up_for_decision row"
    proof -
      have "row_decision e row runs = RLeave"
        using assms(5)[OF Some that] by (simp add: row_decision_def decide_row_def id)
      then show ?thesis using assms(3) by (simp add: row_result_def tracked_def id)
    qed
    with Some assms(3) show ?thesis by auto
  qed
  then show ?thesis
    using run_policy_get_run[OF assms(1,2), of i e incs] assms(4)
    by (elim disjE exE conjE) (simp_all only: option.inject, simp_all)
qed

text \<open>
  C16: A task occurrence that reached the model is never run again by the policy: a pass leaves
  its due time and its try count alone; and when nothing is running it and it has no final
  acknowledgement, the pass fails it as interrupted, both on the inbound row and on its record.
\<close>

theorem reached_run_never_rerun:
  fixes incs :: "task_incident_row list"
  assumes "keyed it_id inb" "keyed tr_row_id runs" "get_row i inb = Some r" "reached e i"
  defines "res \<equiv> run_policy e inb runs incs"
  shows "\<exists>r'. get_row i (pr_inbound res) = Some r' \<and> it_process_after r' = it_process_after r
           \<and> it_tries r' = it_tries r
           \<and> (up_for_decision r \<and> (\<not> truthy (pe_acks e i) \<or> pe_acks e i = Some ''processing'')
                \<and> \<not> (pe_acks e i = Some ''processing'' \<and> pe_running e) \<longrightarrow>
              it_status r' = ''failed'' \<and>
              (\<exists>run. get_run i (pr_runs res) = Some run \<and> tr_outcome run = Some OutFailed
                 \<and> tr_signature run = Some ''interrupted'' \<and> tr_next_retry_at run = None))"
proof -
  have id: "it_id r = i" using assms(3) by (auto simp: get_row_def dest: tbl_get_SomeD)
  let ?act = "row_decision e r runs"
  have act: "?act \<in> {RLeave, RClearWaiting, RInterrupted}"
    unfolding row_decision_def by (rule decide_reached) (simp add: id assms(4))
  have row: "get_row i (pr_inbound res) =
      Some (if up_for_decision r then action_inbound e (tracked e r runs) ?act r else r)"
    using run_policy_inbound[OF assms(1,2), of i e incs] assms(3) by (simp add: res_def)
  have kept: "it_process_after (action_inbound e (tracked e r runs) ?act r) = it_process_after r \<and>
      it_tries (action_inbound e (tracked e r runs) ?act r) = it_tries r"
    using act by (auto simp: action_inbound_def)
  have failed: "it_status (action_inbound e (tracked e r runs) ?act r) = ''failed'' \<and>
      (\<exists>run. get_run i (pr_runs res) = Some run \<and> tr_outcome run = Some OutFailed
                 \<and> tr_signature run = Some ''interrupted'' \<and> tr_next_retry_at run = None)"
    if up: "up_for_decision r" and a: "\<not> truthy (pe_acks e i) \<or> pe_acks e i = Some ''processing''"
      "\<not> (pe_acks e i = Some ''processing'' \<and> pe_running e)"
  proof -
    have int: "?act = RInterrupted"
      unfolding row_decision_def
      by (rule decide_interrupted) (simp_all only: id assms(4) a not_False_eq_True)
    let ?run = "row_result e r runs"
    have run: "tr_outcome ?run = Some OutFailed" "tr_signature ?run = Some ''interrupted''" "tr_next_retry_at ?run = None"
      by (simp_all add: row_result_def int action_fields_def set_fields_def Let_def)
    have "(case get_row i inb of None \<Rightarrow> get_run i runs
       | Some r \<Rightarrow> if up_for_decision r then Some (row_result e r runs) else get_run i runs) = Some ?run"
      using assms(3) up by simp
    then have "get_run i (pr_runs res) = Some ?run"
      using run_policy_get_run[OF assms(1,2), of i e incs] run(1) unfolding res_def
      by (elim disjE exE conjE) (simp_all only: option.inject, simp_all)
    with run int up show ?thesis by (auto simp: action_inbound_def up_for_decision_def)
  qed
  let ?r' = "if up_for_decision r then action_inbound e (tracked e r runs) ?act r else r"
  show ?thesis
  proof (intro exI[of _ ?r'] conjI impI)
    show "get_row i (pr_inbound res) = Some ?r'" by (rule row)
    show "it_process_after ?r' = it_process_after r" "it_tries ?r' = it_tries r"
      using kept by simp_all
  next
    assume a: "up_for_decision r \<and> (\<not> truthy (pe_acks e i) \<or> pe_acks e i = Some ''processing'')
                \<and> \<not> (pe_acks e i = Some ''processing'' \<and> pe_running e)"
    note f = failed[OF a[THEN conjunct1] a[THEN conjunct2, THEN conjunct1] a[THEN conjunct2, THEN conjunct2]]
    show "it_status ?r' = ''failed''" using f a by (simp only: if_True)
    show "\<exists>run. get_run i (pr_runs res) = Some run \<and> tr_outcome run = Some OutFailed
                 \<and> tr_signature run = Some ''interrupted'' \<and> tr_next_retry_at run = None"
      using f by (rule conjunct2)
  qed
qed

section \<open>The retry ladder\<close>

definition start_failures_of :: "string \<Rightarrow> task_run_row list \<Rightarrow> nat" where
  "start_failures_of i t = (case get_run i t of None \<Rightarrow> 0 | Some r \<Rightarrow> tr_start_failures r)"

lemma tracked_start_failures: "it_id row = i \<Longrightarrow> tr_start_failures (tracked e row t) = start_failures_of i t"
  by (auto simp: tracked_def start_failures_of_def split: option.splits)

lemma run_policy_start_failures:
  assumes "keyed it_id inb" "keyed tr_row_id runs"
  shows "start_failures_of i (pr_runs (run_policy e inb runs incs)) =
     (case get_row i inb of None \<Rightarrow> start_failures_of i runs
      | Some r \<Rightarrow> start_failures_of i runs +
          (if up_for_decision r \<and> (\<exists>w. row_decision e r runs = RStartFailed w) then 1 else 0))"
proof -
  let ?mid = "(case get_row i inb of None \<Rightarrow> get_run i runs
       | Some r \<Rightarrow> if up_for_decision r then Some (row_result e r runs) else get_run i runs)"
  have "start_failures_of i (pr_runs (run_policy e inb runs incs)) =
      (case ?mid of None \<Rightarrow> 0 | Some r \<Rightarrow> tr_start_failures r)"
    using run_policy_get_run[OF assms, of i e incs]
    by (elim disjE exE conjE) (simp_all add: start_failures_of_def)
  then show ?thesis
    by (auto simp: row_result_start_failures start_failures_of_def get_row_def
          tracked_def split: option.splits row_action.splits dest!: tbl_get_SomeD)
qed

lemma retry_ladder_core:
  assumes "keyed it_id inb" "keyed tr_row_id runs" "get_row i inb = Some r"
    "get_row i (pr_inbound (run_policy e inb runs incs)) = Some r'" "it_tries r' \<noteq> it_tries r"
  defines "k \<equiv> start_failures_of i runs"
  shows "k < 3 \<and> it_tries r' = it_tries r + 1 \<and> it_status r' = ''pending'' \<and>
     it_process_after r' = Some (pe_now e + [5, 15, 30] ! k * 60000) \<and>
     start_failures_of i (pr_runs (run_policy e inb runs incs)) = k + 1"
proof -
  have id: "it_id r = i" using assms(3) by (auto simp: get_row_def dest: tbl_get_SomeD)
  have r': "r' = (if up_for_decision r then action_inbound e (tracked e r runs) (row_decision e r runs) r else r)"
    using run_policy_inbound[OF assms(1,2), of i e incs] assms(3,4) by simp
  with assms(5) obtain w where up: "up_for_decision r" and w: "row_decision e r runs = RStartFailed w"
    and k3: "k + 1 \<le> 3"
    by (auto simp: action_inbound_def tracked_start_failures[OF id] k_def split: if_splits row_action.splits)
  have delay: "retry_delay (k + 1) = [5, 15, 30] ! k * 60000"
  proof -
    from k3 have "k = 0 \<or> k = 1 \<or> k = 2" by arith
    then show ?thesis by (elim disjE) (simp_all add: retry_delay_def START_RETRY_DELAYS_MIN_def)
  qed
  have "r' = r\<lparr>it_process_after := Some (pe_now e + retry_delay (k + 1)), it_tries := it_tries r + 1\<rparr>"
    using r' up w k3 by (auto simp: action_inbound_def tracked_start_failures[OF id] k_def up_for_decision_def)
  with up w k3 delay run_policy_start_failures[OF assms(1,2), of i e incs] assms(3)
  show ?thesis by (simp add: up_for_decision_def k_def)
qed

text \<open>
  A pass that puts an occurrence off does so on the ladder: only a pending occurrence with
  fewer than three start failures, to 5, 15 or 30 minutes from now by how many there were
  before, counting one more try on the row and one more failure on the record; it stays pending.
\<close>

theorem retry_ladder:
  assumes "keyed it_id inb" "keyed tr_row_id runs" "get_row i inb = Some r"
    "get_row i (pr_inbound (run_policy e inb runs incs)) = Some r'" "it_tries r' \<noteq> it_tries r"
  defines "k \<equiv> start_failures_of i runs"
  shows "k < 3 \<and> it_tries r' = it_tries r + 1 \<and> it_status r' = ''pending'' \<and>
     it_process_after r' = Some (pe_now e + [5, 15, 30] ! k * 60000) \<and>
     start_failures_of i (pr_runs (run_policy e inb runs incs)) = k + 1"
  unfolding k_def by (rule retry_ladder_core[OF assms(1-5)])

section \<open>Many passes\<close>

text \<open>
  Between passes the rest of the system may do anything to the inbound database and the
  container's acknowledgements; only the run records and incidents carry over.
\<close>

type_synonym pass = "policy_env \<times> inbound_task_row list"

definition rescheduled_in :: "string \<Rightarrow> pass \<Rightarrow> task_run_row list \<Rightarrow> task_incident_row list \<Rightarrow> bool" where
  "rescheduled_in i p runs incs =
     (map_option it_tries (get_row i (snd p)) \<noteq>
      map_option it_tries (get_row i (pr_inbound (run_policy (fst p) (snd p) runs incs))))"

fun reschedules :: "string \<Rightarrow> pass list \<Rightarrow> task_run_row list \<Rightarrow> task_incident_row list \<Rightarrow> nat" where
  "reschedules i [] runs incs = 0"
| "reschedules i (p # ps) runs incs =
     (let res = run_policy (fst p) (snd p) runs incs
      in (if rescheduled_in i p runs incs then 1 else 0) + reschedules i ps (pr_runs res) (pr_incidents res))"

lemma rescheduled_counts:
  assumes "keyed it_id (snd p)" "keyed tr_row_id runs" "rescheduled_in i p runs incs"
  shows "start_failures_of i runs < 3 \<and>
     start_failures_of i (pr_runs (run_policy (fst p) (snd p) runs incs)) = start_failures_of i runs + 1"
proof -
  obtain r where r: "get_row i (snd p) = Some r"
    using assms(3) run_policy_inbound[OF assms(1,2), of i "fst p" incs]
    by (cases "get_row i (snd p)") (auto simp: rescheduled_in_def)
  then obtain r' where r': "get_row i (pr_inbound (run_policy (fst p) (snd p) runs incs)) = Some r'"
    "it_tries r' \<noteq> it_tries r"
    using assms(3) run_policy_inbound[OF assms(1,2), of i "fst p" incs] by (auto simp: rescheduled_in_def)
  from retry_ladder_core[OF assms(1,2) r r'] show ?thesis by simp
qed

text \<open>
  Over any sequence of passes, whatever happens between them, one occurrence is put off at
  most three times in all, and at most three minus the start failures already recorded.
\<close>

theorem at_most_three_retries:
  assumes "keyed tr_row_id runs" "\<forall>p \<in> set ps. keyed it_id (snd p)"
  shows "reschedules i ps runs incs \<le> 3 - start_failures_of i runs"
  using assms
proof (induction ps arbitrary: runs incs)
  case Nil
  then show ?case by simp
next
  case (Cons p ps)
  let ?res = "run_policy (fst p) (snd p) runs incs"
  have IH: "reschedules i ps (pr_runs ?res) (pr_incidents ?res) \<le> 3 - start_failures_of i (pr_runs ?res)"
    using Cons.IH[of "pr_runs ?res"] Cons.prems run_policy_keyed by auto
  have mono: "start_failures_of i runs \<le> start_failures_of i (pr_runs ?res)"
    using run_policy_start_failures[of "snd p" runs i "fst p" incs] Cons.prems by (auto split: option.splits)
  show ?case
  proof (cases "rescheduled_in i p runs incs")
    case True
    then show ?thesis using rescheduled_counts[of p runs i incs] Cons.prems IH by (auto simp: Let_def)
  next
    case False
    then show ?thesis using IH mono by (simp add: Let_def)
  qed
qed

text \<open>
  A settled run stays settled: a record with an outcome is not written by a pass, unless
  its inbound row is pending again without a final acknowledgement.
\<close>

theorem settled_run_final:
  assumes "keyed it_id inb" "keyed tr_row_id runs" "get_run i runs = Some r" "tr_outcome r = Some oc"
    "\<forall>row. get_row i inb = Some row \<and> up_for_decision row \<longrightarrow>
        truthy (pe_acks e i) \<and> pe_acks e i \<noteq> Some ''processing''"
  shows "get_run i (pr_runs (run_policy e inb runs incs)) = Some r"
  by (rule run_policy_outcome_kept[OF assms(1-4)]) (use assms(5) in blast)

section \<open>Witnesses\<close>

definition ex_row :: inbound_task_row where
  "ex_row = \<lparr>it_id = ''r'', it_kind = ''task'', it_series_id = Some ''s'', it_status = ''pending'',
     it_process_after = Some 0, it_tries = 1, it_content = [], it_seq = 1\<rparr>"

definition ex_env :: policy_env where
  "ex_env = \<lparr>pe_session_id = ''sess'', pe_agent_group_id = ''g'', pe_now = 1000, pe_wall = 1000,
     pe_running = False, pe_acks = [''r'' \<mapsto> ''processing''], pe_marks = Some Map.empty, pe_hours = 24,
     pe_origin_of = (\<lambda>_. None), pe_notify = (\<lambda>_ _ _. True)\<rparr>"

definition ex_reached :: policy_env where
  "ex_reached = ex_env\<lparr>pe_marks := Some [''r'' \<mapsto> \<lparr>mk_reached_at = Some ''t'', mk_outcome = None, mk_reason = None\<rparr>]\<rparr>"

lemma ex_tables: "keyed it_id [ex_row]" "keyed tr_row_id []" "get_row ''r'' [ex_row] = Some ex_row"
  by (simp_all add: keyed_def get_row_def tbl_get_def ex_row_def)

theorem reached_run_never_rerun_witness:
  "\<exists>r'. get_row ''r'' (pr_inbound (run_policy ex_reached [ex_row] [] [])) = Some r' \<and> it_tries r' = it_tries ex_row"
proof -
  have "reached ex_reached ''r''"
    by (simp add: reached_def env_mark_def ex_reached_def ex_env_def)
  from reached_run_never_rerun[OF ex_tables this, of "[]"] show ?thesis by blast
qed

lemma ex_decision: "row_decision ex_env ex_row [] = RStartFailed REASON_diedBeforeQuery"
  by (simp add: row_decision_def decide_row_def died_before_query_def reached_def env_mark_def
      tracked_def get_run_def tbl_get_def Let_def ex_env_def ex_row_def)

lemma ex_pass:
  "get_row ''r'' (pr_inbound (run_policy ex_env [ex_row] [] [])) =
     Some (ex_row\<lparr>it_process_after := Some 301000, it_tries := 2\<rparr>)"
  by (simp add: run_policy_inbound[OF ex_tables(1,2)] ex_tables(3) ex_decision action_inbound_def
      tracked_def get_run_def tbl_get_def retry_delay_def START_RETRY_DELAYS_MIN_def)
     (simp add: up_for_decision_def ex_row_def ex_env_def)

theorem retry_ladder_witness:
  "start_failures_of ''r'' [] < 3 \<and>
   it_process_after (ex_row\<lparr>it_process_after := Some 301000, it_tries := 2\<rparr>) =
     Some (pe_now ex_env + [5, 15, 30] ! start_failures_of ''r'' [] * 60000)"
  using retry_ladder[OF ex_tables ex_pass] by (simp add: ex_row_def)

theorem at_most_three_retries_witness:
  "reschedules ''r'' [(ex_env, [ex_row]), (ex_env, [ex_row])] [] [] \<le> 3 - start_failures_of ''r'' []"
  by (rule at_most_three_retries) (simp_all add: ex_tables)

definition ex_settled :: task_run_row where
  "ex_settled = (fresh_run (key_of ex_env ex_row) 0)\<lparr>tr_outcome := Some OutOk\<rparr>"

theorem settled_run_final_witness:
  "get_run ''r'' (pr_runs (run_policy ex_env [] [ex_settled] [])) = Some ex_settled"
  by (rule settled_run_final[where oc = OutOk])
     (simp_all add: keyed_def get_run_def get_row_def tbl_get_def ex_settled_def fresh_run_def key_of_def ex_row_def)

end
