(* ===== verification/ChatDb.thy ===== *)
theory ChatDb
  imports Tables "HOL-Library.Char_ord" "HOL-Library.List_Lexorder"
begin

text \<open>
  The central chat database (\<open>channels/webchat/db.ts\<close> and its migrations): one record per table
  row, one list per table, in insertion order. A table the code asks \<open>hasTable\<close> about is present
  when its name satisfies \<open>c_has\<close>; an absent table has no rows. Ids made by \<open>randomUUID()\<close> and
  times read from \<open>Date.now()\<close> are arguments of the operations.

  The messaging-group functions of the host (\<open>db/messaging-groups.js\<close>) are not part of this
  repository: they are the parameter \<open>mg_api\<close>, with their documented behaviour in \<open>mg_api_ok\<close>.
\<close>

section \<open>Rows\<close>

record mg_row =
  mg_id :: string
  mg_channel :: string
  mg_platform :: string
  mg_name :: "string option"
  mg_created :: "millis option"

record agent_group =
  ag_id :: string
  ag_name :: string
  ag_folder :: string

record wiring =
  w_id :: string
  w_mg :: string
  w_agent :: string
  w_mode :: string
  w_pattern :: string
  w_scope :: string
  w_ignored :: string
  w_session :: string

record session_row =
  ss_id :: string
  ss_agent :: string
  ss_mg :: string
  ss_thread :: "string option"
  ss_last_active :: "millis option"
  ss_container :: string

record dest_row =
  d_owner :: string
  d_name :: string
  d_kind :: string
  d_target :: string

record prime_row =
  pr_room :: string
  pr_agent :: string
  pr_at :: millis

datatype message_kind = KText | KFile | KA2a | KApproval | KApprovalResolved | KDivider | KSkillDraft

datatype sync_origin = Pulled | Pushed

record file_meta =
  fm_url :: string
  fm_name :: string
  fm_mime :: string
  fm_size :: int

record message =
  m_id :: string
  m_room :: string
  m_thread :: string
  m_sender :: string
  m_sender_type :: string
  m_content :: string
  m_kind :: message_kind
  m_file :: "file_meta option"
  m_at :: millis
  m_origin :: "sync_origin option"
  m_sender_id :: "string option"
  m_resets :: "millis option"
  m_served :: "string option"

datatype thread_kind = TMain | TAgent | TTopic

record thread_row =
  th_room :: string
  th_id :: string
  th_title :: string
  th_kind :: thread_kind
  th_created :: millis
  th_updated :: millis

record thread_read =
  tr_user :: string
  tr_room :: string
  tr_thread :: string
  tr_at :: millis

record sync_row =
  sy_room :: string
  sy_thread :: string
  sy_pulled :: millis
  sy_pushed :: millis

record room_read =
  rd_user :: string
  rd_room :: string
  rd_at :: millis

record pin_row =
  pin_user :: string
  pin_room :: string
  pin_at :: millis
  pin_pos :: int

record hide_row =
  hd_user :: string
  hd_room :: string
  hd_at :: millis

record archive_row =
  ar_room :: string
  ar_at :: millis
  ar_by :: "string option"

record handle_row =
  hn_user :: string
  hn_handle :: string
  hn_at :: millis

record index_row =
  ix_approval :: string
  ix_platform :: string
  ix_at :: millis

record limit_retry =
  lr_id :: string
  lr_room :: string
  lr_thread :: string
  lr_notice :: string
  lr_user :: string
  lr_sender :: string
  lr_sender_type :: string
  lr_content :: string
  lr_retry_at :: millis
  lr_created :: millis

record trace_row =
  tc_room :: string
  tc_thread :: string

record activity_row =
  ac_id :: nat
  ac_room :: string
  ac_agent :: "string option"
  ac_kind :: string
  ac_text :: "string option"
  ac_detail :: "string option"
  ac_at :: millis

record chat_db =
  c_groups :: "mg_row list"
  c_agents :: "agent_group list"
  c_wirings :: "wiring list"
  c_sessions :: "session_row list"
  c_dests :: "dest_row list"
  c_primes :: "prime_row list"
  c_messages :: "message list"
  c_threads :: "thread_row list"
  c_thread_reads :: "thread_read list"
  c_sync :: "sync_row list"
  c_reads :: "room_read list"
  c_pins :: "pin_row list"
  c_hides :: "hide_row list"
  c_archives :: "archive_row list"
  c_handles :: "handle_row list"
  c_index :: "index_row list"
  c_retries :: "limit_retry list"
  c_traces :: "trace_row list"
  c_activity :: "activity_row list"
  c_has :: "string \<Rightarrow> bool"

definition empty_db :: chat_db where
  "empty_db = \<lparr>c_groups = [], c_agents = [], c_wirings = [], c_sessions = [], c_dests = [],
     c_primes = [], c_messages = [], c_threads = [], c_thread_reads = [], c_sync = [], c_reads = [],
     c_pins = [], c_hides = [], c_archives = [], c_handles = [], c_index = [], c_retries = [],
     c_traces = [], c_activity = [], c_has = (\<lambda>_. True)\<rparr>"

definition th_key :: "thread_row \<Rightarrow> string \<times> string" where
  "th_key t = (th_room t, th_id t)"

definition tr_key :: "thread_read \<Rightarrow> string \<times> string \<times> string" where
  "tr_key t = (tr_user t, tr_room t, tr_thread t)"

definition sy_key :: "sync_row \<Rightarrow> string \<times> string" where
  "sy_key t = (sy_room t, sy_thread t)"

definition rd_key :: "room_read \<Rightarrow> string \<times> string" where
  "rd_key r = (rd_user r, rd_room r)"

definition pin_key :: "pin_row \<Rightarrow> string \<times> string" where
  "pin_key r = (pin_user r, pin_room r)"

definition hd_key :: "hide_row \<Rightarrow> string \<times> string" where
  "hd_key r = (hd_user r, hd_room r)"

definition lr_key :: "limit_retry \<Rightarrow> string \<times> string" where
  "lr_key r = (lr_room r, lr_thread r)"

section \<open>The host's messaging groups\<close>

record mg_api =
  api_lookup :: "string \<Rightarrow> string \<Rightarrow> chat_db \<Rightarrow> mg_row option"
  api_create :: "mg_row \<Rightarrow> chat_db \<Rightarrow> chat_db"
  api_delete :: "string \<Rightarrow> chat_db \<Rightarrow> chat_db"

definition mg_api_ok :: "mg_api \<Rightarrow> bool" where
  "mg_api_ok api =
     ((\<forall>ch pid db. api_lookup api ch pid db
         = find (\<lambda>g. mg_channel g = ch \<and> mg_platform g = pid) (c_groups db))
      \<and> (\<forall>g db. api_create api g db = db\<lparr>c_groups := c_groups db @ [g]\<rparr>)
      \<and> (\<forall>i db. api_delete api i db
         = db\<lparr>c_groups := tbl_delete (\<lambda>g. mg_id g = i) (c_groups db)\<rparr>))"

text \<open>A host that behaves as documented, for concrete runs.\<close>

definition host_mg_api :: mg_api where
  "host_mg_api = \<lparr>
     api_lookup = (\<lambda>ch pid db. find (\<lambda>g. mg_channel g = ch \<and> mg_platform g = pid) (c_groups db)),
     api_create = (\<lambda>g db. db\<lparr>c_groups := c_groups db @ [g]\<rparr>),
     api_delete = (\<lambda>i db. db\<lparr>c_groups := tbl_delete (\<lambda>g. mg_id g = i) (c_groups db)\<rparr>)\<rparr>"

lemma host_mg_api_ok [simp]: "mg_api_ok host_mg_api"
  by (simp add: mg_api_ok_def host_mg_api_def)

lemma mg_api_lookup:
  "mg_api_ok api \<Longrightarrow> api_lookup api ch pid db
     = find (\<lambda>g. mg_channel g = ch \<and> mg_platform g = pid) (c_groups db)"
  by (simp add: mg_api_ok_def)

lemma mg_api_create: "mg_api_ok api \<Longrightarrow> api_create api g db = db\<lparr>c_groups := c_groups db @ [g]\<rparr>"
  by (simp add: mg_api_ok_def)

lemma mg_api_delete:
  "mg_api_ok api \<Longrightarrow> api_delete api i db
     = db\<lparr>c_groups := tbl_delete (\<lambda>g. mg_id g = i) (c_groups db)\<rparr>"
  by (simp add: mg_api_ok_def)

lemmas mg_api_laws = mg_api_lookup mg_api_create mg_api_delete

text \<open>What the schema's primary keys and unique indexes guarantee.\<close>

definition db_ok :: "chat_db \<Rightarrow> bool" where
  "db_ok db = (keyed mg_id (c_groups db)
     \<and> keyed (\<lambda>g. (mg_channel g, mg_platform g)) (c_groups db)
     \<and> keyed ag_id (c_agents db)
     \<and> keyed w_id (c_wirings db) \<and> keyed (\<lambda>w. (w_mg w, w_agent w)) (c_wirings db)
     \<and> keyed (\<lambda>d. (d_owner d, d_name d)) (c_dests db)
     \<and> keyed pr_room (c_primes db) \<and> keyed m_id (c_messages db) \<and> keyed th_key (c_threads db)
     \<and> keyed tr_key (c_thread_reads db) \<and> keyed sy_key (c_sync db) \<and> keyed rd_key (c_reads db)
     \<and> keyed pin_key (c_pins db) \<and> keyed hd_key (c_hides db) \<and> keyed ar_room (c_archives db)
     \<and> keyed hn_user (c_handles db) \<and> keyed hn_handle (c_handles db)
     \<and> keyed (\<lambda>i. (ix_approval i, ix_platform i)) (c_index db)
     \<and> keyed lr_id (c_retries db) \<and> keyed lr_key (c_retries db))"

lemma db_ok_empty [simp]: "db_ok empty_db"
  by (simp add: db_ok_def empty_db_def)

end
