(* ===== verification/TextRules.thy ===== *)
theory TextRules
  imports Prelude
begin

text \<open>
  The rules user-supplied names go through: room names and thread titles (\<open>sanitizeRoomName\<close>,
  \<open>sanitizeThreadTitle\<close> in \<open>channels/webchat/db.ts\<close>), handles (\<open>slugifyHandle\<close>), folder names
  (\<open>nameToFolder\<close>, \<open>ciFolderToken\<close> in \<open>server/agent-wiring.ts\<close>) and the user part of a
  credential agent's identifier (\<open>userSlug\<close> in \<open>modules/user-credentials/identity.ts\<close>). Each
  result is in a normal form on which the rule is the identity.
\<close>

section \<open>Display names\<close>

definition control_char :: "char \<Rightarrow> bool" where
  "control_char c = (code c \<le> 31 \<or> code c = 127)"

text \<open>The argument is \<open>None\<close> when the value sent is not a string.\<close>

definition sanitize_name :: "string option \<Rightarrow> string option" where
  "sanitize_name raw = (case raw of
     None \<Rightarrow> None
   | Some s \<Rightarrow> (let name = js_trim (collapse_space (filter (\<lambda>c. \<not> control_char c) s)) in
       if name = [] \<or> 80 < length name then None else Some name))"

definition sanitize_room_name :: "string option \<Rightarrow> string option" where
  "sanitize_room_name = sanitize_name"

definition sanitize_thread_title :: "string option \<Rightarrow> string option" where
  "sanitize_thread_title = sanitize_name"

text \<open>A name as it is stored: printable, single-spaced, not padded, 1 to 80 long.\<close>

definition clean_name :: "string \<Rightarrow> bool" where
  "clean_name s = (s \<noteq> [] \<and> length s \<le> 80 \<and> (\<forall>c \<in> set s. \<not> control_char c)
     \<and> tidy js_space (CHR 0x20) s \<and> \<not> js_space (hd s) \<and> \<not> js_space (last s))"

lemma space_js_space [simp]: "js_space (CHR 0x20)"
  by (simp add: js_space_def)

lemma space_printable [simp]: "\<not> control_char (CHR 0x20)"
  by (simp add: control_char_def code_def)

lemma sanitize_name_clean: "sanitize_name raw = Some n \<Longrightarrow> clean_name n"
proof -
  assume s: "sanitize_name raw = Some n"
  then obtain t where t: "raw = Some t" by (cases raw) (simp_all add: sanitize_name_def)
  let ?f = "filter (\<lambda>c. \<not> control_char c) t"
  have n: "n = trim js_space (squash js_space (CHR 0x20) ?f)" "n \<noteq> []" "length n \<le> 80"
    using s unfolding t sanitize_name_def js_trim_def collapse_space_def Let_def option.case
    by (simp_all split: if_split_asm)
  have "set n \<subseteq> insert (CHR 0x20) (set ?f)"
    using n(1) set_trim set_squash by (metis subset_trans)
  then have "\<forall>c \<in> set n. \<not> control_char c" by auto
  moreover have "tidy js_space (CHR 0x20) n"
    unfolding n(1) by (intro tidy_trim tidy_squash space_js_space)
  moreover have "\<not> js_space (hd n)" "\<not> js_space (last n)"
    using trim_ends[OF n(2)[unfolded n(1)]] unfolding n(1)[symmetric] by blast+
  ultimately show ?thesis using n(2,3) unfolding clean_name_def by blast
qed

lemma sanitize_name_fixed: "clean_name n \<Longrightarrow> sanitize_name (Some n) = Some n"
proof -
  assume c: "clean_name n"
  then have "filter (\<lambda>c. \<not> control_char c) n = n" by (simp add: clean_name_def filter_id_conv)
  with c show ?thesis
    by (simp add: sanitize_name_def clean_name_def js_trim_def collapse_space_def squash_id trim_id)
qed

section \<open>Slugs\<close>

definition dash :: char where "dash = CHR 0x2D"

text \<open>Lower-cased, each run outside \<open>[a-z0-9]\<close> one dash, no dash at the ends.\<close>

definition name_to_folder :: "string \<Rightarrow> string" where
  "name_to_folder s = trim (\<lambda>c. c = dash) (squash (\<lambda>c. \<not> is_alnum c) dash (map lower s))"

definition slugify_handle :: "string \<Rightarrow> string" where
  "slugify_handle s = (let slug = take 32 (name_to_folder s) in if slug = [] then ''user'' else slug)"

definition user_slug :: "string \<Rightarrow> string" where
  "user_slug u = (let base = rev (dropWhile (\<lambda>c. c = dash) (rev (take 24 (name_to_folder u)))) in
     if base = [] then ''user'' else base)"

definition slug_char :: "char \<Rightarrow> bool" where
  "slug_char c = (is_alnum c \<or> c = dash)"

definition slug :: "string \<Rightarrow> bool" where
  "slug s = ((\<forall>c \<in> set s. slug_char c) \<and> no_double dash s
     \<and> (s \<noteq> [] \<longrightarrow> hd s \<noteq> dash \<and> last s \<noteq> dash))"

lemma dash_not_alnum [simp]: "\<not> is_alnum dash"
  by (simp add: dash_def is_alnum_def is_digit_def is_lower_def code_def)

lemma slug_tidy: "slug s \<longleftrightarrow> tidy (\<lambda>c. \<not> is_alnum c) dash s \<and> (s \<noteq> [] \<longrightarrow> hd s \<noteq> dash \<and> last s \<noteq> dash)"
  by (auto simp: slug_def tidy_def slug_char_def)

lemma slug_name_to_folder: "slug (name_to_folder s)"
  using trim_ends[of "\<lambda>c. c = dash" "squash (\<lambda>c. \<not> is_alnum c) dash (map lower s)"]
  by (auto simp: slug_tidy name_to_folder_def tidy_trim tidy_squash)

lemma lower_slug_char: "slug_char c \<Longrightarrow> lower c = c"
  by (auto simp: slug_char_def lower_alnum) (simp add: dash_def lower_def is_upper_def code_def)

lemma name_to_folder_slug: "slug s \<Longrightarrow> name_to_folder s = s"
proof -
  assume s: "slug s"
  then have "map lower s = s" by (auto simp: slug_def lower_slug_char intro: map_idI)
  with s show ?thesis by (auto simp: name_to_folder_def slug_tidy squash_id trim_id)
qed

lemma slug_chars_take: "(\<forall>c \<in> set s. slug_char c) \<Longrightarrow> (\<forall>c \<in> set (take n s). slug_char c)"
  by (meson in_set_takeD)

lemma user_word [simp]: "slug ''user''"
  by (simp add: slug_def slug_char_def is_alnum_def is_lower_def is_digit_def code_def dash_def)

text \<open>
  A default handle: at most 32 characters of \<open>[a-z0-9-]\<close>, not empty, so that it also passes the
  shape test of \<open>setWebchatUserHandle\<close>.
\<close>

definition handle_shape :: "string \<Rightarrow> bool" where
  "handle_shape s = (1 \<le> length s \<and> length s \<le> 32 \<and> (\<forall>c \<in> set s. slug_char c))"

lemma slugify_handle_shape: "handle_shape (slugify_handle s)"
proof -
  have "\<forall>c \<in> set (take 32 (name_to_folder s)). slug_char c"
    using slug_name_to_folder[of s] by (intro slug_chars_take) (simp add: slug_def)
  then have "take 32 (name_to_folder s) \<noteq> [] \<Longrightarrow> handle_shape (take 32 (name_to_folder s))"
    by (simp add: handle_shape_def Suc_le_eq)
  moreover have "handle_shape ''user''"
    using user_word unfolding slug_def handle_shape_def by simp
  ultimately show ?thesis by (simp add: slugify_handle_def Let_def)
qed

lemma user_slug_slug: "slug (user_slug u) \<and> user_slug u \<noteq> [] \<and> length (user_slug u) \<le> 24"
proof -
  let ?t = "take 24 (name_to_folder u)"
  let ?b = "rev (dropWhile (\<lambda>c. c = dash) (rev ?t))"
  have sl: "slug (name_to_folder u)" by (rule slug_name_to_folder)
  have pre: "prefix ?b ?t"
    by (metis rev_append rev_rev_ident takeWhile_dropWhile_id prefixI)
  then have len: "length ?b \<le> 24" using prefix_length_le by fastforce
  have "slug ?b"
  proof -
    obtain k where k: "name_to_folder u = ?b @ k"
      using pre take_is_prefix[of 24 "name_to_folder u"] by (meson prefix_order.order_trans prefixE)
    have "?b \<noteq> [] \<longrightarrow> last ?b \<noteq> dash"
      using hd_dropWhile[of "\<lambda>c. c = dash" "rev ?t"] by (auto simp: last_rev)
    moreover have "?b \<noteq> [] \<longrightarrow> hd ?b \<noteq> dash"
      using sl unfolding slug_def by (metis append_is_Nil_conv hd_append2 k)
    moreover have "no_double dash ?b" using sl unfolding slug_def by (metis k no_double_append)
    moreover have "\<forall>c \<in> set ?b. slug_char c" using sl unfolding slug_def by (metis UnI1 k set_append)
    ultimately show ?thesis by (simp add: slug_def)
  qed
  with len show ?thesis unfolding user_slug_def Let_def by auto
qed

section \<open>Case-insensitive folder tokens\<close>

text \<open>Each letter becomes the class of its two cases, for a pattern compiled without flags.\<close>

definition is_letter :: "char \<Rightarrow> bool" where
  "is_letter c = (is_lower c \<or> is_upper c)"

definition ci_folder_token :: "string \<Rightarrow> string" where
  "ci_folder_token folder = concat (map (\<lambda>c.
     if is_letter c then ''['' @ [lower c, upper c] @ '']'' else [c]) folder)"

end
