(* ===== verification/RoomStore.thy ===== *)
theory RoomStore
  imports ChatDb TextRules
begin

text \<open>
  Rooms, approval inboxes, the wiring of agents to rooms and the prime agent
  (\<open>channels/webchat/db.ts\<close>). A room is a messaging group of channel \<open>webchat\<close>; its id is the
  group's platform id.
\<close>

definition webchat :: string where "webchat = ''webchat''"

record webchat_room =
  r_id :: string
  r_name :: string
  r_created :: millis

text \<open>\<open>Date.parse(created_at) || Date.now()\<close>: zero and NaN both fall through to now.\<close>

definition parsed_or_now :: "millis option \<Rightarrow> millis \<Rightarrow> millis" where
  "parsed_or_now t now = (case t of None \<Rightarrow> now | Some i \<Rightarrow> if i = 0 then now else i)"

definition row_to_room :: "millis \<Rightarrow> mg_row \<Rightarrow> webchat_room" where
  "row_to_room now g = \<lparr>r_id = mg_platform g, r_name = coalesce (mg_name g) (mg_platform g),
     r_created = parsed_or_now (mg_created g) now\<rparr>"

text \<open>\<open>uuid1\<close> and \<open>uuid2\<close> are the fresh ids for the room and for its group row.\<close>

definition create_webchat_room ::
  "mg_api \<Rightarrow> string \<Rightarrow> string option \<Rightarrow> string \<Rightarrow> string \<Rightarrow> millis \<Rightarrow> chat_db \<Rightarrow> webchat_room \<times> chat_db"
where
  "create_webchat_room api name rid uuid1 uuid2 now db =
     (let platform = coalesce rid uuid1 in
      case api_lookup api webchat platform db of
        Some g \<Rightarrow> (\<lparr>r_id = mg_platform g, r_name = coalesce (mg_name g) platform,
                    r_created = parsed_or_now (mg_created g) now\<rparr>, db)
      | None \<Rightarrow> (\<lparr>r_id = platform, r_name = name, r_created = now\<rparr>,
                 api_create api \<lparr>mg_id = uuid2, mg_channel = webchat, mg_platform = platform,
                   mg_name = Some name, mg_created = Some now\<rparr> db))"

definition get_webchat_room :: "mg_api \<Rightarrow> string \<Rightarrow> millis \<Rightarrow> chat_db \<Rightarrow> webchat_room option" where
  "get_webchat_room api rid now db = map_option (row_to_room now) (api_lookup api webchat rid db)"

definition update_webchat_room_name :: "string \<Rightarrow> string \<Rightarrow> chat_db \<Rightarrow> chat_db" where
  "update_webchat_room_name rid name db =
     db\<lparr>c_groups := tbl_update (\<lambda>g. mg_channel g = webchat \<and> mg_platform g = rid)
                     (\<lambda>g. g\<lparr>mg_name := Some name\<rparr>) (c_groups db)\<rparr>"

section \<open>Approval inboxes\<close>

definition APPROVAL_INBOX_PREFIX :: string where
  "APPROVAL_INBOX_PREFIX = ''approvals:''"

definition is_approval_inbox :: "string \<Rightarrow> bool" where
  "is_approval_inbox pid = starts_with pid APPROVAL_INBOX_PREFIX"

definition approval_inbox_for_user :: "string \<Rightarrow> string option" where
  "approval_inbox_for_user uid =
     (if \<not> starts_with uid ''webchat:'' then None
      else Some (APPROVAL_INBOX_PREFIX @ drop (length ''webchat:'') uid))"

definition user_for_approval_inbox :: "string \<Rightarrow> string option" where
  "user_for_approval_inbox pid =
     (if \<not> starts_with pid APPROVAL_INBOX_PREFIX then None
      else Some (''webchat:'' @ drop (length APPROVAL_INBOX_PREFIX) pid))"

definition record_webchat_approval :: "string \<Rightarrow> string \<Rightarrow> millis \<Rightarrow> chat_db \<Rightarrow> chat_db" where
  "record_webchat_approval aid pid now db =
     db\<lparr>c_index := tbl_insert_new (\<lambda>i. (ix_approval i, ix_platform i))
                    \<lparr>ix_approval = aid, ix_platform = pid, ix_at = now\<rparr> (c_index db)\<rparr>"

definition is_webchat_approval_indexed_for :: "string \<Rightarrow> string \<Rightarrow> chat_db \<Rightarrow> bool" where
  "is_webchat_approval_indexed_for aid pid db =
     list_ex (\<lambda>i. ix_approval i = aid \<and> ix_platform i = pid) (c_index db)"

definition get_webchat_approval_inboxes :: "string \<Rightarrow> chat_db \<Rightarrow> string list" where
  "get_webchat_approval_inboxes aid db =
     map ix_platform (sort_key ix_at (filter (\<lambda>i. ix_approval i = aid) (c_index db)))"

definition delete_webchat_approval_index :: "string \<Rightarrow> chat_db \<Rightarrow> chat_db" where
  "delete_webchat_approval_index aid db =
     db\<lparr>c_index := tbl_delete (\<lambda>i. ix_approval i = aid) (c_index db)\<rparr>"

text \<open>SQL's \<open>LIKE 'approvals:%'\<close> ignores the case of ASCII letters.\<close>

definition like_approvals :: "string \<Rightarrow> bool" where
  "like_approvals pid = starts_with (map lower pid) APPROVAL_INBOX_PREFIX"

definition get_all_webchat_rooms :: "millis \<Rightarrow> chat_db \<Rightarrow> webchat_room list" where
  "get_all_webchat_rooms now db = map (row_to_room now)
     (sort_key (\<lambda>g. coalesce (mg_created g) 0)
       (filter (\<lambda>g. mg_channel g = webchat \<and> \<not> like_approvals (mg_platform g)) (c_groups db)))"

section \<open>Wirings\<close>

definition agents_of_group :: "string \<Rightarrow> chat_db \<Rightarrow> agent_group list" where
  "agents_of_group gid db = sort_key ag_name
     (List.map_filter (\<lambda>w. if w_mg w = gid then tbl_get ag_id (w_agent w) (c_agents db) else None)
       (c_wirings db))"

definition get_agents_for_webchat_room :: "mg_api \<Rightarrow> string \<Rightarrow> chat_db \<Rightarrow> agent_group list" where
  "get_agents_for_webchat_room api rid db = (case api_lookup api webchat rid db of
     None \<Rightarrow> [] | Some g \<Rightarrow> agents_of_group (mg_id g) db)"

definition count_agents_for_webchat_room :: "mg_api \<Rightarrow> string \<Rightarrow> chat_db \<Rightarrow> nat" where
  "count_agents_for_webchat_room api rid db = (case api_lookup api webchat rid db of
     None \<Rightarrow> 0 | Some g \<Rightarrow> length (filter (\<lambda>w. w_mg w = mg_id g) (c_wirings db)))"

definition unwire_agent_from_webchat_room ::
  "mg_api \<Rightarrow> string \<Rightarrow> string \<Rightarrow> chat_db \<Rightarrow> bool \<times> chat_db" where
  "unwire_agent_from_webchat_room api rid agent db = (case api_lookup api webchat rid db of
     None \<Rightarrow> (False, db)
   | Some g \<Rightarrow> (let gone = (\<lambda>w. w_mg w = mg_id g \<and> w_agent w = agent) in
       (list_ex gone (c_wirings db),
        db\<lparr>c_wirings := tbl_delete gone (c_wirings db),
           c_dests := (if c_has db ''agent_destinations''
                       then tbl_delete (\<lambda>d. d_owner d = agent \<and> d_kind d = ''channel''
                              \<and> d_target d = mg_id g) (c_dests db)
                       else c_dests db)\<rparr>)))"

text \<open>
  The agent a reply is credited to: the only wired one, else the one of the most recently active
  session whose container runs, else the first by name.
\<close>

definition active_session :: "session_row \<Rightarrow> bool" where
  "active_session s = (ss_last_active s \<noteq> None \<and> ss_container s \<in> {''running'', ''idle''})"

definition find_active_agent :: "mg_api \<Rightarrow> string \<Rightarrow> chat_db \<Rightarrow> agent_group option" where
  "find_active_agent api rid db = (case get_agents_for_webchat_room api rid db of
     [] \<Rightarrow> None
   | [a] \<Rightarrow> Some a
   | a # _ \<Rightarrow> (case api_lookup api webchat rid db of
       None \<Rightarrow> Some a
     | Some g \<Rightarrow> (case sort_key (\<lambda>(s, _). - coalesce (ss_last_active s) 0)
           (List.map_filter (\<lambda>s. if ss_mg s = mg_id g \<and> active_session s
                              then map_option (\<lambda>x. (s, x)) (tbl_get ag_id (ss_agent s) (c_agents db))
                              else None) (c_sessions db)) of
           [] \<Rightarrow> Some a
         | (_, x) # _ \<Rightarrow> Some x)))"

section \<open>The prime agent\<close>

definition get_prime_agent :: "string \<Rightarrow> chat_db \<Rightarrow> string option" where
  "get_prime_agent rid db = map_option pr_agent (tbl_get pr_room rid (c_primes db))"

definition set_prime_agent :: "string \<Rightarrow> string \<Rightarrow> millis \<Rightarrow> chat_db \<Rightarrow> chat_db" where
  "set_prime_agent rid agent now db =
     db\<lparr>c_primes := tbl_upsert pr_room \<lparr>pr_room = rid, pr_agent = agent, pr_at = now\<rparr> (c_primes db)\<rparr>"

definition clear_prime_agent :: "string \<Rightarrow> chat_db \<Rightarrow> chat_db" where
  "clear_prime_agent rid db = db\<lparr>c_primes := tbl_delete (\<lambda>p. pr_room p = rid) (c_primes db)\<rparr>"

record agent_room =
  arm_id :: string
  arm_name :: string
  arm_prime :: bool
  arm_count :: nat

definition wired_groups :: "string \<Rightarrow> chat_db \<Rightarrow> mg_row list" where
  "wired_groups agent db = sort_key (\<lambda>g. case mg_name g of None \<Rightarrow> [] | Some n \<Rightarrow> [n])
     (filter (\<lambda>g. mg_channel g = webchat)
       (List.map_filter (\<lambda>w. if w_agent w = agent then tbl_get mg_id (w_mg w) (c_groups db) else None)
         (c_wirings db)))"

definition get_webchat_rooms_for_agent :: "mg_api \<Rightarrow> string \<Rightarrow> chat_db \<Rightarrow> agent_room list" where
  "get_webchat_rooms_for_agent api agent db =
     map (\<lambda>g. \<lparr>arm_id = mg_platform g, arm_name = coalesce (mg_name g) (mg_platform g),
               arm_prime = (get_prime_agent (mg_platform g) db = Some agent),
               arm_count = count_agents_for_webchat_room api (mg_platform g) db\<rparr>)
       (filter (\<lambda>g. \<not> is_approval_inbox (mg_platform g)) (wired_groups agent db))"

definition get_shared_webchat_rooms :: "string \<Rightarrow> string \<Rightarrow> chat_db \<Rightarrow> (string \<times> string) list" where
  "get_shared_webchat_rooms a b db =
     map (\<lambda>g. (mg_platform g, coalesce (mg_name g) (mg_platform g)))
       (filter (\<lambda>g. \<not> is_approval_inbox (mg_platform g))
         (sort_key (\<lambda>g. case mg_name g of None \<Rightarrow> [] | Some n \<Rightarrow> [n])
           (filter (\<lambda>g. mg_channel g = webchat
               \<and> list_ex (\<lambda>w. w_mg w = mg_id g \<and> w_agent w = a) (c_wirings db)
               \<and> list_ex (\<lambda>w. w_mg w = mg_id g \<and> w_agent w = b) (c_wirings db)) (c_groups db))))"

section \<open>Deleting a room\<close>

definition clear_room_tables :: "string \<Rightarrow> string \<Rightarrow> chat_db \<Rightarrow> chat_db" where
  "clear_room_tables rid gid db = db\<lparr>
     c_messages := tbl_delete (\<lambda>m. m_room m = rid) (c_messages db),
     c_wirings := tbl_delete (\<lambda>w. w_mg w = gid) (c_wirings db),
     c_primes := tbl_delete (\<lambda>p. pr_room p = rid) (c_primes db),
     c_hides := tbl_delete (\<lambda>h. hd_room h = rid) (c_hides db),
     c_archives := tbl_delete (\<lambda>a. ar_room a = rid) (c_archives db),
     c_reads := tbl_delete (\<lambda>r. rd_room r = rid) (c_reads db),
     c_pins := tbl_delete (\<lambda>p. pin_room p = rid) (c_pins db)\<rparr>"

definition clear_room_threads :: "string \<Rightarrow> chat_db \<Rightarrow> chat_db" where
  "clear_room_threads rid db =
     (let db1 = (if c_has db ''webchat_threads''
                 then db\<lparr>c_thread_reads := tbl_delete (\<lambda>t. tr_room t = rid) (c_thread_reads db),
                         c_threads := tbl_delete (\<lambda>t. th_room t = rid) (c_threads db)\<rparr>
                 else db);
          db2 = (if c_has db1 ''webchat_thread_sync''
                 then db1\<lparr>c_sync := tbl_delete (\<lambda>s. sy_room s = rid) (c_sync db1)\<rparr> else db1)
      in if c_has db2 ''webchat_turn_traces''
         then db2\<lparr>c_traces := tbl_delete (\<lambda>t. tc_room t = rid) (c_traces db2)\<rparr> else db2)"

definition clear_group_links :: "string \<Rightarrow> chat_db \<Rightarrow> chat_db" where
  "clear_group_links gid db =
     (let db1 = (if c_has db ''agent_destinations''
                 then db\<lparr>c_dests := tbl_delete (\<lambda>d. d_kind d = ''channel'' \<and> d_target d = gid) (c_dests db)\<rparr>
                 else db)
      in db1\<lparr>c_sessions := tbl_delete (\<lambda>s. ss_mg s = gid) (c_sessions db1)\<rparr>)"

definition delete_webchat_room :: "mg_api \<Rightarrow> string \<Rightarrow> chat_db \<Rightarrow> chat_db" where
  "delete_webchat_room api rid db = (case api_lookup api webchat rid db of
     None \<Rightarrow> db
   | Some g \<Rightarrow> api_delete api (mg_id g)
       (clear_group_links (mg_id g) (clear_room_threads rid (clear_room_tables rid (mg_id g) db))))"

end
