(* ===== verification/RoomFacts.thy ===== *)
theory RoomFacts
  imports RoomStore
begin

text \<open>
  Facts about rooms: names, approval inboxes, creation, listing and the deletion cascade.
\<close>

section \<open>Fields after a room is deleted\<close>

definition absent_tables_empty :: "chat_db \<Rightarrow> bool" where
  "absent_tables_empty db =
     ((\<not> c_has db ''webchat_threads'' \<longrightarrow> c_threads db = [] \<and> c_thread_reads db = [])
      \<and> (\<not> c_has db ''webchat_thread_sync'' \<longrightarrow> c_sync db = [])
      \<and> (\<not> c_has db ''webchat_turn_traces'' \<longrightarrow> c_traces db = [])
      \<and> (\<not> c_has db ''agent_destinations'' \<longrightarrow> c_dests db = []))"

lemma delete_room_fields:
  assumes ok: "mg_api_ok api" and g: "api_lookup api webchat rid db = Some g"
  shows "c_messages (delete_webchat_room api rid db) = tbl_delete (\<lambda>m. m_room m = rid) (c_messages db)"
    and "c_wirings (delete_webchat_room api rid db) = tbl_delete (\<lambda>w. w_mg w = mg_id g) (c_wirings db)"
    and "c_primes (delete_webchat_room api rid db) = tbl_delete (\<lambda>p. pr_room p = rid) (c_primes db)"
    and "c_hides (delete_webchat_room api rid db) = tbl_delete (\<lambda>h. hd_room h = rid) (c_hides db)"
    and "c_archives (delete_webchat_room api rid db) = tbl_delete (\<lambda>a. ar_room a = rid) (c_archives db)"
    and "c_reads (delete_webchat_room api rid db) = tbl_delete (\<lambda>r. rd_room r = rid) (c_reads db)"
    and "c_pins (delete_webchat_room api rid db) = tbl_delete (\<lambda>p. pin_room p = rid) (c_pins db)"
    and "c_sessions (delete_webchat_room api rid db) = tbl_delete (\<lambda>s. ss_mg s = mg_id g) (c_sessions db)"
    and "c_groups (delete_webchat_room api rid db) = tbl_delete (\<lambda>x. mg_id x = mg_id g) (c_groups db)"
    and "c_agents (delete_webchat_room api rid db) = c_agents db"
    and "c_retries (delete_webchat_room api rid db) = c_retries db"
  using assms
  by (simp_all add: delete_webchat_room_def clear_group_links_def clear_room_threads_def
        clear_room_tables_def Let_def mg_api_delete)

lemma clear_room_threads_fields [simp]:
  "c_threads (clear_room_threads rid db) = (if c_has db ''webchat_threads''
     then tbl_delete (\<lambda>t. th_room t = rid) (c_threads db) else c_threads db)"
  "c_thread_reads (clear_room_threads rid db) = (if c_has db ''webchat_threads''
     then tbl_delete (\<lambda>t. tr_room t = rid) (c_thread_reads db) else c_thread_reads db)"
  "c_sync (clear_room_threads rid db) = (if c_has db ''webchat_thread_sync''
     then tbl_delete (\<lambda>s. sy_room s = rid) (c_sync db) else c_sync db)"
  "c_traces (clear_room_threads rid db) = (if c_has db ''webchat_turn_traces''
     then tbl_delete (\<lambda>t. tc_room t = rid) (c_traces db) else c_traces db)"
  "c_dests (clear_room_threads rid db) = c_dests db"
  "c_has (clear_room_threads rid db) = c_has db"
  by (simp_all add: clear_room_threads_def Let_def)

lemma clear_group_links_fields [simp]:
  "c_dests (clear_group_links gid db) = (if c_has db ''agent_destinations''
     then tbl_delete (\<lambda>d. d_kind d = ''channel'' \<and> d_target d = gid) (c_dests db) else c_dests db)"
  "c_threads (clear_group_links gid db) = c_threads db"
  "c_thread_reads (clear_group_links gid db) = c_thread_reads db"
  "c_sync (clear_group_links gid db) = c_sync db"
  "c_traces (clear_group_links gid db) = c_traces db"
  by (simp_all add: clear_group_links_def Let_def)

lemma clear_room_tables_fields [simp]:
  "c_threads (clear_room_tables rid gid db) = c_threads db"
  "c_thread_reads (clear_room_tables rid gid db) = c_thread_reads db"
  "c_sync (clear_room_tables rid gid db) = c_sync db"
  "c_traces (clear_room_tables rid gid db) = c_traces db"
  "c_dests (clear_room_tables rid gid db) = c_dests db"
  "c_has (clear_room_tables rid gid db) = c_has db"
  by (simp_all add: clear_room_tables_def)

lemma delete_absent: "(\<not> h \<longrightarrow> t = []) \<Longrightarrow> (if h then tbl_delete p t else t) = tbl_delete p t"
  by (auto simp: tbl_delete_def)

lemma delete_room_guarded_fields:
  assumes ok: "mg_api_ok api" and g: "api_lookup api webchat rid db = Some g"
    and t: "absent_tables_empty db"
  shows "c_threads (delete_webchat_room api rid db) = tbl_delete (\<lambda>t. th_room t = rid) (c_threads db)"
    and "c_thread_reads (delete_webchat_room api rid db) = tbl_delete (\<lambda>t. tr_room t = rid) (c_thread_reads db)"
    and "c_sync (delete_webchat_room api rid db) = tbl_delete (\<lambda>s. sy_room s = rid) (c_sync db)"
    and "c_traces (delete_webchat_room api rid db) = tbl_delete (\<lambda>t. tc_room t = rid) (c_traces db)"
    and "c_dests (delete_webchat_room api rid db)
           = tbl_delete (\<lambda>d. d_kind d = ''channel'' \<and> d_target d = mg_id g) (c_dests db)"
proof -
  have e: "delete_webchat_room api rid db = db1\<lparr>c_groups := tbl_delete (\<lambda>x. mg_id x = mg_id g) (c_groups db1)\<rparr>"
    if "db1 = clear_group_links (mg_id g) (clear_room_threads rid (clear_room_tables rid (mg_id g) db))" for db1
    unfolding that by (simp only: delete_webchat_room_def g option.case mg_api_delete[OF ok])
  note e = e[OF refl]
  show "c_threads (delete_webchat_room api rid db) = tbl_delete (\<lambda>t. th_room t = rid) (c_threads db)"
    "c_thread_reads (delete_webchat_room api rid db) = tbl_delete (\<lambda>t. tr_room t = rid) (c_thread_reads db)"
    "c_sync (delete_webchat_room api rid db) = tbl_delete (\<lambda>s. sy_room s = rid) (c_sync db)"
    "c_traces (delete_webchat_room api rid db) = tbl_delete (\<lambda>t. tc_room t = rid) (c_traces db)"
    "c_dests (delete_webchat_room api rid db)
           = tbl_delete (\<lambda>d. d_kind d = ''channel'' \<and> d_target d = mg_id g) (c_dests db)"
    using t unfolding e absent_tables_empty_def by (simp_all add: delete_absent)
qed

lemma lookup_group:
  assumes "mg_api_ok api" "api_lookup api ch pid db = Some g"
  shows "g \<in> set (c_groups db)" "mg_channel g = ch" "mg_platform g = pid"
  using assms by (auto simp: mg_api_lookup dest: find_SomeD)

lemma find_delete_other:
  "(\<And>r. r \<in> set t \<Longrightarrow> P r \<Longrightarrow> \<not> d r) \<Longrightarrow> find P (tbl_delete d t) = find P t"
  unfolding tbl_delete_def by (induction t) auto

lemma find_delete_all:
  "(\<And>r. r \<in> set t \<Longrightarrow> P r \<Longrightarrow> d r) \<Longrightarrow> find P (tbl_delete d t) = None"
  by (auto simp: find_None_iff_all)

lemma lookup_after_delete:
  assumes ok: "mg_api_ok api" and k: "db_ok db" and g: "api_lookup api webchat rid db = Some g"
  shows "api_lookup api webchat other (delete_webchat_room api rid db)
         = (if other = rid then None else api_lookup api webchat other db)"
proof -
  note fields = delete_room_fields(9)[OF ok g]
  have gs: "g \<in> set (c_groups db)" "mg_channel g = webchat" "mg_platform g = rid"
    using lookup_group[OF ok g] by auto
  have same_id: "x = g" if "x \<in> set (c_groups db)" "mg_id x = mg_id g" for x
    using that gs k unfolding db_ok_def keyed_def by (meson distinct_map inj_onD)
  have same_pl: "x = g" if "x \<in> set (c_groups db)" "mg_channel x = webchat" "mg_platform x = rid" for x
  proof -
    have "keyed (\<lambda>g. (mg_channel g, mg_platform g)) (c_groups db)" using k by (simp add: db_ok_def)
    then have "inj_on (\<lambda>g. (mg_channel g, mg_platform g)) (set (c_groups db))"
      by (simp add: keyed_def distinct_map)
    then show ?thesis by (rule inj_onD) (use that gs in auto)
  qed
  show ?thesis
  proof (cases "other = rid")
    case True
    then show ?thesis unfolding mg_api_lookup[OF ok] fields
      using same_pl by (auto intro!: find_delete_all)
  next
    case False
    then show ?thesis unfolding mg_api_lookup[OF ok] fields
      using same_id gs(3) by (auto intro!: find_delete_other)
  qed
qed

lemma agents_of_group_delete:
  "h \<noteq> mg_id g \<Longrightarrow> c_agents db' = c_agents db
   \<Longrightarrow> c_wirings db' = tbl_delete (\<lambda>w. w_mg w = mg_id g) (c_wirings db)
   \<Longrightarrow> agents_of_group h db' = agents_of_group h db"
proof -
  assume h: "h \<noteq> mg_id g" and a: "c_agents db' = c_agents db"
    and w: "c_wirings db' = tbl_delete (\<lambda>w. w_mg w = mg_id g) (c_wirings db)"
  have "List.map_filter (\<lambda>w. if w_mg w = h then q w else None) (tbl_delete (\<lambda>w. w_mg w = mg_id g) ws)
      = List.map_filter (\<lambda>w. if w_mg w = h then q w else None) ws" for ws and q :: "wiring \<Rightarrow> agent_group option"
    unfolding tbl_delete_def using h by (induction ws) (auto split: option.splits)
  then show ?thesis unfolding agents_of_group_def a w by simp
qed

lemma get_agents_cong:
  assumes "mg_api_ok api" "c_groups a = c_groups b" "c_wirings a = c_wirings b" "c_agents a = c_agents b"
  shows "get_agents_for_webchat_room api room a = get_agents_for_webchat_room api room b"
  unfolding get_agents_for_webchat_room_def mg_api_lookup[OF assms(1)] agents_of_group_def assms(2-4) ..

section \<open>Properties\<close>

text \<open>
  Deleting a room leaves no trace of it in the tables the cascade covers: the room is not found,
  no agent is wired to it, no message, thread, read marker, pin, hide, archive flag, sync mark,
  prime or session of it is left, and no channel destination points at its group. Every other
  room is found as before, with the same agents, prime and messages.
\<close>

theorem delete_room_cascade:
  assumes ok: "mg_api_ok api" and k: "db_ok db" and t: "absent_tables_empty db"
    and g: "api_lookup api webchat rid db = Some g"
  shows "let db' = delete_webchat_room api rid db in
     get_webchat_room api rid now db' = None
     \<and> get_agents_for_webchat_room api rid db' = [] \<and> get_prime_agent rid db' = None
     \<and> rid \<notin> m_room ` set (c_messages db') \<union> th_room ` set (c_threads db')
         \<union> tr_room ` set (c_thread_reads db') \<union> sy_room ` set (c_sync db') \<union> tc_room ` set (c_traces db')
         \<union> rd_room ` set (c_reads db') \<union> pin_room ` set (c_pins db') \<union> hd_room ` set (c_hides db')
         \<union> ar_room ` set (c_archives db')
     \<and> mg_id g \<notin> ss_mg ` set (c_sessions db') \<union> w_mg ` set (c_wirings db')
     \<and> (''channel'', mg_id g) \<notin> (\<lambda>d. (d_kind d, d_target d)) ` set (c_dests db')
     \<and> (\<forall>other. other \<noteq> rid \<longrightarrow>
           get_webchat_room api other now db' = get_webchat_room api other now db
         \<and> get_agents_for_webchat_room api other db' = get_agents_for_webchat_room api other db
         \<and> get_prime_agent other db' = get_prime_agent other db
         \<and> filter (\<lambda>m. m_room m = other) (c_messages db') = filter (\<lambda>m. m_room m = other) (c_messages db))"
proof -
  let ?db = "delete_webchat_room api rid db"
  note f = delete_room_fields[OF ok g] delete_room_guarded_fields[OF ok g t]
  note look = lookup_after_delete[OF ok k g]
  have gone: "rid \<notin> m_room ` set (c_messages ?db) \<union> th_room ` set (c_threads ?db)
         \<union> tr_room ` set (c_thread_reads ?db) \<union> sy_room ` set (c_sync ?db) \<union> tc_room ` set (c_traces ?db)
         \<union> rd_room ` set (c_reads ?db) \<union> pin_room ` set (c_pins ?db) \<union> hd_room ` set (c_hides ?db)
         \<union> ar_room ` set (c_archives ?db)"
    and links: "mg_id g \<notin> ss_mg ` set (c_sessions ?db) \<union> w_mg ` set (c_wirings ?db)"
      "(''channel'', mg_id g) \<notin> (\<lambda>d. (d_kind d, d_target d)) ` set (c_dests ?db)"
    by (auto simp: f)
  have none: "get_webchat_room api rid now ?db = None" "get_agents_for_webchat_room api rid ?db = []"
      "get_prime_agent rid ?db = None"
    by (simp_all add: get_webchat_room_def get_agents_for_webchat_room_def get_prime_agent_def look f
          tbl_get_delete_key)
  have "get_agents_for_webchat_room api other ?db = get_agents_for_webchat_room api other db"
    if o: "other \<noteq> rid" for other
  proof (cases "api_lookup api webchat other db")
    case None
    with o show ?thesis by (simp add: get_agents_for_webchat_room_def look)
  next
    case (Some h)
    have "h \<noteq> g" using lookup_group[OF ok Some] lookup_group[OF ok g] o by auto
    then have "mg_id h \<noteq> mg_id g"
      using k lookup_group(1)[OF ok Some] lookup_group(1)[OF ok g]
      unfolding db_ok_def keyed_def by (meson distinct_map inj_onD)
    from agents_of_group_delete[OF this f(10) f(2)] show ?thesis
      using o Some by (simp add: get_agents_for_webchat_room_def look)
  qed
  moreover have "filter (\<lambda>m. m_room m = other) (c_messages ?db) = filter (\<lambda>m. m_room m = other) (c_messages db)"
    if "other \<noteq> rid" for other
    using that by (auto simp: f tbl_delete_def intro: filter_cong)
  ultimately show ?thesis unfolding Let_def
    using gone links none
    by (simp add: get_webchat_room_def get_prime_agent_def look f tbl_get_delete_key)
qed

text \<open>A small installation used by the concrete instances: two rooms, two agents, some traffic.\<close>

definition example_message :: "string \<Rightarrow> string \<Rightarrow> string \<Rightarrow> millis \<Rightarrow> message" where
  "example_message i room sender t = \<lparr>m_id = i, m_room = room, m_thread = ''main'', m_sender = sender,
     m_sender_type = ''user'', m_content = ''hi'', m_kind = KText, m_file = None, m_at = t,
     m_origin = None, m_sender_id = Some sender, m_resets = None, m_served = None\<rparr>"

definition example_wiring :: "string \<Rightarrow> string \<Rightarrow> string \<Rightarrow> wiring" where
  "example_wiring i g a = \<lparr>w_id = i, w_mg = g, w_agent = a, w_mode = ''pattern'', w_pattern = ''.'',
     w_scope = ''all'', w_ignored = ''drop'', w_session = ''shared''\<rparr>"

definition example_group :: "string \<Rightarrow> string \<Rightarrow> mg_row" where
  "example_group i room = \<lparr>mg_id = i, mg_channel = webchat, mg_platform = room, mg_name = Some room,
     mg_created = Some 1\<rparr>"

definition example_db :: chat_db where
  "example_db = empty_db\<lparr>
     c_groups := [example_group ''g1'' ''r'', example_group ''g2'' ''s''],
     c_agents := [\<lparr>ag_id = ''a1'', ag_name = ''Ann'', ag_folder = ''ann''\<rparr>,
                  \<lparr>ag_id = ''a2'', ag_name = ''Bob'', ag_folder = ''bob''\<rparr>],
     c_wirings := [example_wiring ''w1'' ''g1'' ''a1'', example_wiring ''w2'' ''g1'' ''a2'',
                   example_wiring ''w3'' ''g2'' ''a1''],
     c_messages := [example_message ''m1'' ''r'' ''u'' 10, example_message ''m2'' ''s'' ''v'' 11,
                    example_message ''m3'' ''r'' ''v'' 12]\<rparr>"

lemma example_db_ok [simp]: "db_ok example_db" "absent_tables_empty example_db"
  by (simp_all add: db_ok_def absent_tables_empty_def example_db_def empty_db_def keyed_def
        example_group_def example_wiring_def example_message_def)

lemma example_lookup [simp]:
  "api_lookup host_mg_api webchat ''r'' example_db = Some (example_group ''g1'' ''r'')"
  by (simp add: host_mg_api_def example_db_def example_group_def)

theorem delete_room_cascade_witness:
  "get_webchat_room host_mg_api ''r'' 5 (delete_webchat_room host_mg_api ''r'' example_db) = None
   \<and> get_webchat_room host_mg_api ''s'' 5 (delete_webchat_room host_mg_api ''r'' example_db)
      = get_webchat_room host_mg_api ''s'' 5 example_db"
proof -
  note c = delete_room_cascade[OF host_mg_api_ok example_db_ok example_lookup, of 5, unfolded Let_def]
  have ne: "''s'' \<noteq> ''r''" by simp
  show ?thesis
    by (intro conjI c[THEN conjunct1] c[THEN conjunct2, THEN conjunct2, THEN conjunct2, THEN conjunct2,
          THEN conjunct2, THEN conjunct2, THEN spec, THEN mp, OF ne, THEN conjunct1])
qed

text \<open>
  Approval inboxes and webchat users correspond one to one, and the room list shows no inbox.
\<close>

theorem inbox_user_bijection:
  "(approval_inbox_for_user uid = Some pid) = (user_for_approval_inbox pid = Some uid)
   \<and> filter is_approval_inbox (map r_id (get_all_webchat_rooms now db)) = []"
proof
  show "(approval_inbox_for_user uid = Some pid) = (user_for_approval_inbox pid = Some uid)"
    by (auto simp: approval_inbox_for_user_def user_for_approval_inbox_def starts_with_def
          APPROVAL_INBOX_PREFIX_def prefix_def)
  have low: "map lower APPROVAL_INBOX_PREFIX = APPROVAL_INBOX_PREFIX"
    by (simp add: APPROVAL_INBOX_PREFIX_def lower_def is_upper_def code_def)
  have "like_approvals p" if p: "is_approval_inbox p" for p
  proof -
    obtain k where "p = APPROVAL_INBOX_PREFIX @ k"
      using p by (auto simp: is_approval_inbox_def starts_with_def prefix_def)
    then have "map lower p = APPROVAL_INBOX_PREFIX @ map lower k" by (simp add: low)
    then show ?thesis by (simp add: like_approvals_def)
  qed
  then show "filter is_approval_inbox (map r_id (get_all_webchat_rooms now db)) = []"
    by (auto simp: get_all_webchat_rooms_def row_to_room_def filter_empty_conv)
qed

text \<open>
  Creating a room that exists changes nothing and returns the room already there, whatever name
  is asked for: the setup script and the agent bootstrap can both run.
\<close>

theorem create_room_idempotent:
  assumes ok: "mg_api_ok api"
    and first: "create_webchat_room api name (Some rid) ua ub t db = (room, db1)"
  shows "r_id room = rid \<and> get_webchat_room api rid t db1 = Some room
     \<and> create_webchat_room api name' (Some rid) uc ud t db1 = (room, db1)"
proof (cases "api_lookup api webchat rid db")
  case None
  let ?g = "\<lparr>mg_id = ub, mg_channel = webchat, mg_platform = rid, mg_name = Some name, mg_created = Some t\<rparr>"
  have r: "room = \<lparr>r_id = rid, r_name = name, r_created = t\<rparr>" "db1 = api_create api ?g db"
    using first None by (auto simp: create_webchat_room_def)
  then have l: "api_lookup api webchat rid db1 = Some ?g"
    using None ok by (simp add: mg_api_laws find_append)
  have p: "parsed_or_now (Some t) t = t" by (simp add: parsed_or_now_def)
  show ?thesis
    unfolding create_webchat_room_def get_webchat_room_def
    by (simp add: l r(1) row_to_room_def p)
next
  case (Some g)
  then have r: "db1 = db" "room = row_to_room t g"
    using first lookup_group(3)[OF ok Some] by (auto simp: create_webchat_room_def row_to_room_def)
  with Some lookup_group(3)[OF ok Some] show ?thesis
    by (simp add: create_webchat_room_def get_webchat_room_def row_to_room_def)
qed

theorem create_room_idempotent_witness:
  "snd (create_webchat_room host_mg_api ''B'' (Some ''r'') ''u3'' ''u4'' 5
     (snd (create_webchat_room host_mg_api ''A'' (Some ''r'') ''u1'' ''u2'' 5 empty_db)))
   = snd (create_webchat_room host_mg_api ''A'' (Some ''r'') ''u1'' ''u2'' 5 empty_db)"
proof -
  let ?c = "create_webchat_room host_mg_api ''A'' (Some ''r'') ''u1'' ''u2'' 5 empty_db"
  have "?c = (fst ?c, snd ?c)" by simp
  from create_room_idempotent[OF host_mg_api_ok this, where name' = "''B''" and uc = "''u3''" and ud = "''u4''"]
  show ?thesis by (metis snd_conv)
qed

text \<open>
  A name the sanitizer accepts is printable, single-spaced, unpadded and at most 80 long, and
  is accepted again unchanged; so a stored name survives an edit that does not change it.
\<close>

theorem sanitized_name_is_clean:
  "(case sanitize_room_name raw of
      None \<Rightarrow> True
    | Some n \<Rightarrow> clean_name n \<and> sanitize_room_name (Some n) = Some n)
   \<and> (sanitize_room_name (Some s) = Some s) = clean_name s"
  using sanitize_name_clean sanitize_name_fixed
  by (auto simp: sanitize_room_name_def split: option.split)

text \<open>
  After an approval is delivered to a list of inboxes, exactly those (and the ones indexed before)
  may answer it; delivering again to an inbox changes nothing; resolving it leaves no inbox of
  it and every inbox of the others.
\<close>

theorem approval_index_fanout:
  "(let db' = fold (\<lambda>p. record_webchat_approval aid p t) pids db in
     (\<forall>p. is_webchat_approval_indexed_for aid p db'
          = (p \<in> set pids \<or> is_webchat_approval_indexed_for aid p db))
     \<and> fold (\<lambda>p. record_webchat_approval aid p t') pids db' = db')
   \<and> get_webchat_approval_inboxes aid (delete_webchat_approval_index aid db) = []
   \<and> (get_webchat_approval_inboxes other (delete_webchat_approval_index aid db)
       = (if other = aid then [] else get_webchat_approval_inboxes other db))"
proof -
  let ?k = "\<lambda>i. (ix_approval i, ix_platform i)"
  have idx: "is_webchat_approval_indexed_for a p d = (tbl_get ?k (a, p) (c_index d) \<noteq> None)" for a p d
    by (auto simp: is_webchat_approval_indexed_for_def list_ex_iff tbl_get_None)
  have one: "is_webchat_approval_indexed_for aid p (record_webchat_approval aid q u d)
       = (p = q \<or> is_webchat_approval_indexed_for aid p d)" for p q u d
    by (auto simp: idx record_webchat_approval_def tbl_get_insert_new split: option.splits)
  have many: "is_webchat_approval_indexed_for aid p (fold (\<lambda>p. record_webchat_approval aid p t) pids db)
       = (p \<in> set pids \<or> is_webchat_approval_indexed_for aid p db)" for p
    by (induction pids arbitrary: db) (auto simp: one)
  have again: "record_webchat_approval aid q u d = d"
    if "is_webchat_approval_indexed_for aid q d" for q u d
    using that by (simp add: idx record_webchat_approval_def tbl_insert_new_def)
  have "fold (\<lambda>p. record_webchat_approval aid p t') qs d = d"
    if "\<forall>q \<in> set qs. is_webchat_approval_indexed_for aid q d" for qs d
    using that by (induction qs) (auto simp: again)
  moreover have "filter (\<lambda>i. ix_approval i = other) (tbl_delete (\<lambda>i. ix_approval i = aid) xs)
      = (if other = aid then [] else filter (\<lambda>i. ix_approval i = other) xs)" for xs :: "index_row list"
    unfolding tbl_delete_def by (induction xs) auto
  ultimately show ?thesis
    by (simp add: many get_webchat_approval_inboxes_def delete_webchat_approval_index_def)
qed

end
