(* ===== verification/MentionRegex.thy ===== *)
theory MentionRegex
  imports TextRules
begin

text \<open>
  The part of JavaScript's regular expressions the engage patterns use (compiled without flags):
  \<open>render\<close> is a pattern's text, \<open>ends r s i\<close> the positions a match of \<open>r\<close> started at \<open>i\<close> can end at,
  \<open>matches\<close> is \<open>new RegExp(text).test(s)\<close>. The engage patterns of \<open>server/agent-wiring.ts\<close> are then
  characterised by where a message mentions a folder.
\<close>

datatype re = REmpty | RChar char | RCase char char | RAny | RAnyStar | RSeq re re | RAlt "re list"
  | RWordB | RNotWordB | RNotAhead re | RStart

definition line_end :: "char \<Rightarrow> bool" where
  "line_end c = (c = CHR 0x0A \<or> c = CHR 0x0D)"

definition word_char :: "char \<Rightarrow> bool" where
  "word_char c = (is_alnum c \<or> is_upper c \<or> c = CHR ''_'')"

definition word_at :: "string \<Rightarrow> nat \<Rightarrow> bool" where
  "word_at s i = (i < length s \<and> word_char (s ! i))"

definition boundary :: "string \<Rightarrow> nat \<Rightarrow> bool" where
  "boundary s i = ((0 < i \<and> word_at s (i - 1)) \<noteq> word_at s i)"

fun render :: "re \<Rightarrow> string" where
  "render REmpty = []"
| "render (RChar c) = [c]"
| "render (RCase a b) = ''['' @ [a, b] @ '']''"
| "render RAny = ''.''"
| "render RAnyStar = ''.*''"
| "render (RSeq a b) = render a @ render b"
| "render (RAlt rs) = ''('' @ join_with ''|'' (map render rs) @ '')''"
| "render RWordB = [CHR 0x5C] @ ''b''"
| "render RNotWordB = [CHR 0x5C] @ ''B''"
| "render (RNotAhead r) = ''(?!'' @ render r @ '')''"
| "render RStart = ''^''"

fun ends :: "re \<Rightarrow> string \<Rightarrow> nat \<Rightarrow> nat list" where
  "ends REmpty s i = [i]"
| "ends (RChar c) s i = (if i < length s \<and> s ! i = c then [Suc i] else [])"
| "ends (RCase a b) s i = (if i < length s \<and> (s ! i = a \<or> s ! i = b) then [Suc i] else [])"
| "ends RAny s i = (if i < length s \<and> \<not> line_end (s ! i) then [Suc i] else [])"
| "ends RAnyStar s i = rev [i..<Suc (i + length (takeWhile (\<lambda>c. \<not> line_end c) (drop i s)))]"
| "ends (RSeq a b) s i = concat (map (ends b s) (ends a s i))"
| "ends (RAlt rs) s i = concat (map (\<lambda>r. ends r s i) rs)"
| "ends RWordB s i = (if boundary s i then [i] else [])"
| "ends RNotWordB s i = (if boundary s i then [] else [i])"
| "ends (RNotAhead r) s i = (if ends r s i = [] then [i] else [])"
| "ends RStart s i = (if i = 0 then [i] else [])"

definition matches :: "re \<Rightarrow> string \<Rightarrow> bool" where
  "matches r s = list_ex (\<lambda>i. ends r s i \<noteq> []) [0..<Suc (length s)]"

section \<open>Mentions\<close>

definition at_sign :: char where "at_sign = CHR ''@''"

text \<open>A mention of \<open>folder\<close> at \<open>i\<close>: an at sign not preceded by a word character, the folder in any
  case, then a word boundary.\<close>

definition ci_at :: "string \<Rightarrow> string \<Rightarrow> nat \<Rightarrow> bool" where
  "ci_at folder s i = (i + length folder \<le> length s \<and> map lower (take (length folder) (drop i s)) = map lower folder)"

definition mention_at :: "string \<Rightarrow> string \<Rightarrow> nat \<Rightarrow> bool" where
  "mention_at folder s i = (i < length s \<and> s ! i = at_sign \<and> \<not> boundary s i
     \<and> ci_at folder s (Suc i) \<and> boundary s (Suc i + length folder))"

fun ci_token :: "string \<Rightarrow> re" where
  "ci_token [] = REmpty"
| "ci_token (c # cs) = RSeq (if is_letter c then RCase (lower c) (upper c) else RChar c) (ci_token cs)"

definition mention_re :: "re \<Rightarrow> re" where
  "mention_re tok = RSeq RNotWordB (RSeq (RChar at_sign) (RSeq tok RWordB))"

definition prime_re :: "string list \<Rightarrow> re" where
  "prime_re others = RSeq RStart (RNotAhead (RSeq RAnyStar (mention_re (RAlt (map ci_token others)))))"

lemma render_ci_token: "render (ci_token f) = ci_folder_token f"
  by (induction f) (auto simp: ci_folder_token_def)

lemma lower_eq_letter: "is_letter c \<Longrightarrow> (lower d = lower c) = (d = lower c \<or> d = upper c)"
proof -
  assume c: "is_letter c"
  have up: "code x = code y \<Longrightarrow> x = y" for x y by (simp add: code_def)
  have l: "code (lower x) = (if is_upper x then code x + 32 else code x)" for x
    by (auto simp: lower_def code_char_of is_upper_def)
  have u: "code (upper x) = (if is_lower x then code x - 32 else code x)" for x
    by (auto simp: upper_def code_char_of is_lower_def)
  show ?thesis
  proof
    assume "lower d = lower c"
    then have "code (lower d) = code (lower c)" by simp
    then have "code d = code (lower c) \<or> code d = code (upper c)"
      using c unfolding l u by (auto simp: is_letter_def is_lower_def is_upper_def split: if_splits)
    then show "d = lower c \<or> d = upper c" using up by blast
  next
    assume "d = lower c \<or> d = upper c"
    then have "code (lower d) = code (lower c)"
      using c by (auto simp: l u is_letter_def is_lower_def is_upper_def)
    then show "lower d = lower c" by (rule up)
  qed
qed

lemma lower_eq_other: "\<not> is_letter c \<Longrightarrow> slug_char c \<Longrightarrow> (lower d = lower c) = (d = c)"
proof -
  assume c: "\<not> is_letter c" "slug_char c"
  have up: "code x = code y \<Longrightarrow> x = y" for x y by (simp add: code_def)
  have l: "code (lower x) = (if is_upper x then code x + 32 else code x)" for x
    by (auto simp: lower_def code_char_of is_upper_def)
  have "code c = code dash \<or> (48 \<le> code c \<and> code c \<le> 57)"
    using c by (auto simp: is_letter_def slug_char_def is_alnum_def is_digit_def)
  then have k: "code c < 65" by (auto simp: dash_def code_def)
  show ?thesis
  proof
    assume "lower d = lower c"
    then have "code (lower d) = code (lower c)" by simp
    then have "code d = code c" using k unfolding l by (auto simp: is_upper_def split: if_splits)
    then show "d = c" by (rule up)
  qed simp
qed

lemma ends_ci_token:
  "(\<forall>c \<in> set f. slug_char c) \<Longrightarrow> ends (ci_token f) s i = (if ci_at f s i then [i + length f] else [])
   \<or> length s < i"
proof (induction f arbitrary: i)
  case Nil
  then show ?case by (auto simp: ci_at_def)
next
  case (Cons c cs)
  let ?r = "if is_letter c then RCase (lower c) (upper c) else RChar c"
  have c: "slug_char c" using Cons.prems by simp
  have hd: "ends ?r s i = (if i < length s \<and> lower (s ! i) = lower c then [Suc i] else [])"
    using lower_eq_letter[of c "s ! i"] lower_eq_other[OF _ c, of "s ! i"] by auto
  have step: "ci_at (c # cs) s i = (i < length s \<and> lower (s ! i) = lower c \<and> ci_at cs s (Suc i))"
  proof (cases "i < length s")
    case True
    then have "drop i s = s ! i # drop (Suc i) s" by (simp add: Cons_nth_drop_Suc)
    with True show ?thesis by (auto simp: ci_at_def)
  qed (auto simp: ci_at_def)
  show ?case
  proof (cases "i < length s \<and> lower (s ! i) = lower c")
    case True
    then have "\<not> length s < Suc i" by simp
    with Cons.IH[of "Suc i"] Cons.prems
    have "ends (ci_token cs) s (Suc i) = (if ci_at cs s (Suc i) then [Suc i + length cs] else [])" by auto
    with True show ?thesis unfolding ci_token.simps ends.simps hd step by simp
  qed (auto simp: hd step simp del: ends.simps(2,3))
qed

lemma ends_mention:
  assumes "\<And>s i. i \<le> length s \<Longrightarrow> set (ends tok s i) = {j. \<exists>f \<in> F. ci_at f s i \<and> j = i + length f}"
  shows "i \<le> length s \<Longrightarrow> ends (mention_re tok) s i \<noteq> [] \<longleftrightarrow> (\<exists>f \<in> F. mention_at f s i)"
proof -
  assume i: "i \<le> length s"
  show ?thesis
  proof (cases "i < length s \<and> s ! i = at_sign \<and> \<not> boundary s i")
    case True
    then have "ends (mention_re tok) s i = concat (map (ends RWordB s) (ends tok s (Suc i)))"
      by (simp add: mention_re_def)
    moreover have "set (ends tok s (Suc i)) = {j. \<exists>f \<in> F. ci_at f s (Suc i) \<and> j = Suc i + length f}"
      using True by (intro assms) simp
    ultimately have "ends (mention_re tok) s i \<noteq> []
        \<longleftrightarrow> (\<exists>f \<in> F. ci_at f s (Suc i) \<and> boundary s (Suc i + length f))"
      by (auto split: if_splits)
    with True show ?thesis by (auto simp: mention_at_def)
  next
    case False
    then have "ends (mention_re tok) s i = []"
      by (cases "boundary s i") (simp_all add: mention_re_def del: de_Morgan_conj)
    moreover from False have "\<not> mention_at f s i" for f by (simp only: mention_at_def) blast
    ultimately show ?thesis by blast
  qed
qed

lemma set_ends_token:
  "(\<forall>c \<in> set f. slug_char c) \<Longrightarrow> i \<le> length s
   \<Longrightarrow> set (ends (ci_token f) s i) = {j. \<exists>g \<in> {f}. ci_at g s i \<and> j = i + length g}"
  using ends_ci_token[of f s i] by auto

lemma ends_mention_token:
  assumes "\<forall>c \<in> set f. slug_char c" "i \<le> length s"
  shows "ends (mention_re (ci_token f)) s i \<noteq> [] \<longleftrightarrow> mention_at f s i"
proof -
  have "ends (mention_re (ci_token f)) s i \<noteq> [] \<longleftrightarrow> (\<exists>g \<in> {f}. mention_at g s i)"
    by (rule ends_mention) (use set_ends_token[OF assms(1)] assms(2) in blast)+
  then show ?thesis by (simp only: bex_simps simp_thms)
qed

lemma matches_iff: "matches r s = (\<exists>i \<le> length s. ends r s i \<noteq> [])"
  by (auto simp: matches_def list_ex_iff less_Suc_eq_le simp del: ends.simps upt_Suc)

lemma mention_in_range: "mention_at f s i \<Longrightarrow> i \<le> length s"
  by (simp add: mention_at_def)

lemma matches_mention:
  assumes "\<forall>c \<in> set f. slug_char c"
  shows "matches (mention_re (ci_token f)) s = (\<exists>i. mention_at f s i)"
  unfolding matches_iff using ends_mention_token[OF assms] mention_in_range by blast

lemma set_ends_alt:
  "(\<forall>f \<in> set fs. \<forall>c \<in> set f. slug_char c) \<Longrightarrow> i \<le> length s
   \<Longrightarrow> set (ends (RAlt (map ci_token fs)) s i) = {j. \<exists>f \<in> set fs. ci_at f s i \<and> j = i + length f}"
  using set_ends_token[of _ i s] by fastforce

definition first_line :: "string \<Rightarrow> string" where
  "first_line s = takeWhile (\<lambda>c. \<not> line_end c) s"

lemma matches_prime:
  assumes f: "\<forall>f \<in> set fs. \<forall>c \<in> set f. slug_char c"
  shows "matches (prime_re fs) s = (\<not> (\<exists>f \<in> set fs. \<exists>i \<le> length (first_line s). mention_at f s i))"
proof -
  let ?m = "mention_re (RAlt (map ci_token fs))"
  have e: "i \<le> length s \<Longrightarrow> ends ?m s i \<noteq> [] \<longleftrightarrow> (\<exists>f \<in> set fs. mention_at f s i)" for i
    using ends_mention[of "RAlt (map ci_token fs)" "set fs", OF set_ends_alt[OF f]] by blast
  have star: "ends (RSeq RAnyStar ?m) s 0 = [] \<longleftrightarrow> (\<forall>i \<le> length (first_line s). ends ?m s i = [])"
    by (auto simp: first_line_def less_Suc_eq_le)
  have le: "i \<le> length (first_line s) \<Longrightarrow> i \<le> length s" for i
    using length_takeWhile_le[of "\<lambda>c. \<not> line_end c" s] by (simp add: first_line_def)
  have "matches (prime_re fs) s \<longleftrightarrow> ends (prime_re fs) s 0 \<noteq> []"
    unfolding matches_def list_ex_iff prime_re_def by force
  also have "\<dots> \<longleftrightarrow> ends (RSeq RAnyStar ?m) s 0 = []"
    unfolding prime_re_def by (simp del: ends.simps(5) add: ends.simps(10))
  also have "\<dots> \<longleftrightarrow> (\<forall>i \<le> length (first_line s). \<not> (\<exists>f \<in> set fs. mention_at f s i))"
    unfolding star using e le by blast
  finally show ?thesis by blast
qed

end
