(* ===== verification/AgentWiring.thy ===== *)
theory AgentWiring
  imports RoomFacts MentionRegex
begin

text \<open>
  Wiring an agent to a room (\<open>channels/webchat/server/agent-wiring.ts\<close>): the wiring row, the
  destinations that make the room and the co-resident agents addressable, and the engage
  pattern of every wiring of the room. The host's wiring and destination functions
  (\<open>createMessagingGroupAgent\<close>, \<open>getDestinationByTarget\<close>, \<open>getDestinationByName\<close>,
  \<open>createDestination\<close>, \<open>normalizeName\<close>) are the parameter \<open>wire_api\<close>.
\<close>

record wire_api =
  wa_create :: "wiring \<Rightarrow> chat_db \<Rightarrow> chat_db"
  wa_dest_by_target :: "string \<Rightarrow> string \<Rightarrow> string \<Rightarrow> chat_db \<Rightarrow> dest_row option"
  wa_dest_by_name :: "string \<Rightarrow> string \<Rightarrow> chat_db \<Rightarrow> dest_row option"
  wa_dest_create :: "dest_row \<Rightarrow> chat_db \<Rightarrow> chat_db"
  wa_norm :: "string \<Rightarrow> string"

definition wire_api_ok :: "wire_api \<Rightarrow> bool" where
  "wire_api_ok w =
     ((\<forall>r db. wa_create w r db = db\<lparr>c_wirings := c_wirings db @ [r]\<rparr>)
      \<and> (\<forall>a k t db. wa_dest_by_target w a k t db
           = find (\<lambda>d. d_owner d = a \<and> d_kind d = k \<and> d_target d = t) (c_dests db))
      \<and> (\<forall>a n db. wa_dest_by_name w a n db = find (\<lambda>d. d_owner d = a \<and> d_name d = n) (c_dests db))
      \<and> (\<forall>d db. wa_dest_create w d db = db\<lparr>c_dests := c_dests db @ [d]\<rparr>))"

definition host_wire_api :: wire_api where
  "host_wire_api = \<lparr>wa_create = (\<lambda>r db. db\<lparr>c_wirings := c_wirings db @ [r]\<rparr>),
     wa_dest_by_target = (\<lambda>a k t db. find (\<lambda>d. d_owner d = a \<and> d_kind d = k \<and> d_target d = t) (c_dests db)),
     wa_dest_by_name = (\<lambda>a n db. find (\<lambda>d. d_owner d = a \<and> d_name d = n) (c_dests db)),
     wa_dest_create = (\<lambda>d db. db\<lparr>c_dests := c_dests db @ [d]\<rparr>),
     wa_norm = name_to_folder\<rparr>"

lemma host_wire_api_ok [simp]: "wire_api_ok host_wire_api"
  by (simp add: wire_api_ok_def host_wire_api_def)

lemma wire_api_laws:
  assumes "wire_api_ok w"
  shows "wa_create w r db = db\<lparr>c_wirings := c_wirings db @ [r]\<rparr>"
    and "wa_dest_by_target w a k t db
           = find (\<lambda>d. d_owner d = a \<and> d_kind d = k \<and> d_target d = t) (c_dests db)"
    and "wa_dest_by_name w a n db = find (\<lambda>d. d_owner d = a \<and> d_name d = n) (c_dests db)"
    and "wa_dest_create w d db = db\<lparr>c_dests := c_dests db @ [d]\<rparr>"
  using assms by (simp_all add: wire_api_ok_def)

section \<open>Engage patterns\<close>

definition mention_pattern_text :: "string \<Rightarrow> string" where
  "mention_pattern_text folder = [CHR 0x5C] @ ''B@'' @ ci_folder_token folder @ [CHR 0x5C] @ ''b''"

definition prime_pattern_text :: "string list \<Rightarrow> string" where
  "prime_pattern_text others =
     (if 0 < length others
      then ''^(?!.*'' @ [CHR 0x5C] @ ''B@('' @ join_with ''|'' (map ci_folder_token others)
           @ '')'' @ [CHR 0x5C] @ ''b)''
      else ''.'')"

text \<open>The wirings of a group, each with its agent's folder.\<close>

definition joined_wirings :: "string \<Rightarrow> chat_db \<Rightarrow> (wiring \<times> string) list" where
  "joined_wirings gid db = List.map_filter (\<lambda>w. if w_mg w = gid
       then map_option (\<lambda>a. (w, ag_folder a)) (tbl_get ag_id (w_agent w) (c_agents db)) else None)
     (c_wirings db)"

definition set_pattern :: "string \<Rightarrow> string \<Rightarrow> wiring list \<Rightarrow> wiring list" where
  "set_pattern wid pat = tbl_update (\<lambda>w. w_id w = wid) (\<lambda>w. w\<lparr>w_pattern := pat\<rparr>)"

definition valid_prime :: "string \<Rightarrow> (wiring \<times> string) list \<Rightarrow> chat_db \<Rightarrow> string option" where
  "valid_prime rid ws db = (case get_prime_agent rid db of None \<Rightarrow> None
     | Some p \<Rightarrow> if p \<noteq> [] \<and> list_ex (\<lambda>(w, _). w_agent w = p) ws then Some p else None)"

definition pattern_for :: "string option \<Rightarrow> (wiring \<times> string) list \<Rightarrow> wiring \<times> string \<Rightarrow> string" where
  "pattern_for prime ws = (\<lambda>(w, folder). case prime of
     None \<Rightarrow> mention_pattern_text folder
   | Some p \<Rightarrow> (if w_agent w = p
       then prime_pattern_text (map snd (filter (\<lambda>(x, _). w_agent x \<noteq> p) ws))
       else mention_pattern_text folder))"

definition recompute_engage_patterns :: "mg_api \<Rightarrow> string \<Rightarrow> chat_db \<Rightarrow> chat_db" where
  "recompute_engage_patterns api rid db = (case api_lookup api webchat rid db of
     None \<Rightarrow> db
   | Some g \<Rightarrow>
      (let ws = joined_wirings (mg_id g) db; prime = valid_prime rid ws db
       in db\<lparr>c_wirings := fold (\<lambda>wf. set_pattern (w_id (fst wf)) (pattern_for prime ws wf)) ws (c_wirings db)\<rparr>))"

section \<open>Destinations\<close>

definition ensure_a2a_destination :: "wire_api \<Rightarrow> string \<Rightarrow> string \<Rightarrow> string \<Rightarrow> chat_db \<Rightarrow> chat_db" where
  "ensure_a2a_destination w owner target folder db =
     (if wa_dest_by_target w owner ''agent'' target db \<noteq> None then db
      else (let base = wa_norm w folder in
        case find (\<lambda>n. wa_dest_by_name w owner n db = None) [base, base @ ''-agent''] of
          Some n \<Rightarrow> wa_dest_create w \<lparr>d_owner = owner, d_name = n, d_kind = ''agent'', d_target = target\<rparr> db
        | None \<Rightarrow> db))"

definition link_peer :: "wire_api \<Rightarrow> string \<Rightarrow> string option \<Rightarrow> agent_group \<Rightarrow> chat_db \<Rightarrow> chat_db" where
  "link_peer w agent folder peer db =
     (let db1 = ensure_a2a_destination w agent (ag_id peer) (ag_folder peer) db in
      case folder of None \<Rightarrow> db1 | Some f \<Rightarrow> ensure_a2a_destination w (ag_id peer) agent f db1)"

definition link_destinations ::
  "wire_api \<Rightarrow> string \<Rightarrow> mg_row \<Rightarrow> string \<Rightarrow> chat_db \<Rightarrow> chat_db \<times> string list" where
  "link_destinations w platform g agent db =
     (if \<not> c_has db ''agent_destinations'' then (db, [])
      else
        (let db1 = (if wa_dest_by_target w agent ''channel'' (mg_id g) db = None
                    then wa_dest_create w \<lparr>d_owner = agent, d_name = wa_norm w platform,
                           d_kind = ''channel'', d_target = mg_id g\<rparr> db
                    else db);
             peers = List.map_filter (\<lambda>x. if w_mg x = mg_id g \<and> w_agent x \<noteq> agent
                       then tbl_get ag_id (w_agent x) (c_agents db1) else None) (c_wirings db1);
             folder = map_option ag_folder (tbl_get ag_id agent (c_agents db1))
         in (fold (link_peer w agent folder) peers db1, remdups (agent # map ag_id peers))))"

text \<open>
  \<open>Inl\<close> is the provisioning error; otherwise the state and the agents whose destinations are projected
  into their running sessions.
\<close>

definition wire_agent_to_webchat_room ::
  "mg_api \<Rightarrow> wire_api \<Rightarrow> string \<Rightarrow> string \<Rightarrow> string \<Rightarrow> string \<Rightarrow> string \<Rightarrow> string \<Rightarrow> millis \<Rightarrow> chat_db
   \<Rightarrow> string + chat_db \<times> string list" where
  "wire_agent_to_webchat_room api w name platform agent ua ub uc now db =
     (let db1 = snd (create_webchat_room api name (Some platform) ua ub now db) in
      case api_lookup api webchat platform db1 of
        None \<Rightarrow> Inl (''Webchat room provisioning failed: '' @ platform)
      | Some g \<Rightarrow>
         if list_ex (\<lambda>x. w_mg x = mg_id g \<and> w_agent x = agent) (c_wirings db1) then Inr (db1, [])
         else
           (let db2 = wa_create w \<lparr>w_id = uc, w_mg = mg_id g, w_agent = agent, w_mode = ''pattern'',
                  w_pattern = ''.'', w_scope = ''all'', w_ignored = ''drop'', w_session = ''shared''\<rparr> db1;
                (db3, touched) = link_destinations w platform g agent db2
            in Inr (recompute_engage_patterns api platform db3, touched)))"

section \<open>What recomputing does\<close>

lemma set_pattern_simps:
  "map w_id (set_pattern i p ws) = map w_id ws"
  "map (\<lambda>w. (w_mg w, w_agent w)) (set_pattern i p ws) = map (\<lambda>w. (w_mg w, w_agent w)) ws"
  by (induction ws) (auto simp: set_pattern_def tbl_update_def)

lemma fold_set_pattern:
  assumes "distinct (map (\<lambda>x. w_id (fst x)) ps)"
  shows "fold (\<lambda>x. set_pattern (w_id (fst x)) (h x)) ps ws
    = map (\<lambda>w. case find (\<lambda>x. w_id (fst x) = w_id w) ps of None \<Rightarrow> w | Some x \<Rightarrow> w\<lparr>w_pattern := h x\<rparr>) ws"
  using assms
proof (induction ps arbitrary: ws)
  case Nil
  then show ?case by simp
next
  case (Cons p ps)
  have fresh: "find (\<lambda>x. w_id (fst x) = w_id (fst p)) ps = None"
    unfolding find_None_iff_all using Cons.prems by (auto simp: image_iff)
  have step: "fold (\<lambda>x. set_pattern (w_id (fst x)) (h x)) ps (set_pattern (w_id (fst p)) (h p) ws)
    = map (\<lambda>w. case find (\<lambda>x. w_id (fst x) = w_id w) ps of None \<Rightarrow> w | Some x \<Rightarrow> w\<lparr>w_pattern := h x\<rparr>)
        (set_pattern (w_id (fst p)) (h p) ws)"
    using Cons by simp
  show ?case unfolding fold_simps step
    by (simp add: set_pattern_def tbl_update_def) (use fresh in auto)
qed

lemma joined_wirings_ids:
  assumes "keyed w_id (c_wirings db)"
  shows "distinct (map (\<lambda>x. w_id (fst x)) (joined_wirings gid db))"
proof -
  let ?g = "\<lambda>w :: wiring. if w_mg w = gid
       then map_option (\<lambda>a. (w, ag_folder a)) (tbl_get ag_id (w_agent w) (c_agents db)) else None"
  have "map (\<lambda>x. w_id (fst x)) (List.map_filter ?g ws) = map w_id (filter (\<lambda>w. ?g w \<noteq> None) ws)" for ws
    by (rule map_of_map_filter) (auto split: if_splits)
  then show ?thesis using assms unfolding joined_wirings_def keyed_def
    by (simp only: distinct_map_filterI)
qed

lemma joined_wirings_mem:
  "(w, f) \<in> set (joined_wirings gid db) \<longleftrightarrow> w \<in> set (c_wirings db) \<and> w_mg w = gid
     \<and> (\<exists>a. tbl_get ag_id (w_agent w) (c_agents db) = Some a \<and> f = ag_folder a)"
  by (auto simp: joined_wirings_def in_map_filter split: if_splits)

lemma recompute_member:
  assumes k: "keyed w_id (c_wirings db)" and g: "api_lookup api webchat rid db = Some g"
    and w: "(w, f) \<in> set (joined_wirings (mg_id g) db)"
  shows "w\<lparr>w_pattern := pattern_for (valid_prime rid (joined_wirings (mg_id g) db) db)
            (joined_wirings (mg_id g) db) (w, f)\<rparr> \<in> set (c_wirings (recompute_engage_patterns api rid db))"
proof -
  let ?ws = "joined_wirings (mg_id g) db"
  have "find (\<lambda>x. w_id (fst x) = w_id w) ?ws = Some (w, f)"
    using find_distinct_key[OF joined_wirings_ids[OF k] w] by simp
  moreover have "w \<in> set (c_wirings db)" using w by (simp add: joined_wirings_mem)
  ultimately show ?thesis
    by (force simp: recompute_engage_patterns_def g Let_def fold_set_pattern[OF joined_wirings_ids[OF k]])
qed

lemma recompute_frame:
  assumes k: "keyed w_id (c_wirings db)" and g: "api_lookup api webchat rid db = Some g"
    and w: "w \<in> set (c_wirings db)" "w_mg w \<noteq> mg_id g"
  shows "w \<in> set (c_wirings (recompute_engage_patterns api rid db))"
proof -
  let ?ws = "joined_wirings (mg_id g) db"
  have "find (\<lambda>x. w_id (fst x) = w_id w) ?ws = None"
  proof -
    have "w_id (fst x) \<noteq> w_id w" if x: "x \<in> set ?ws" for x
    proof
      assume e: "w_id (fst x) = w_id w"
      have m: "fst x \<in> set (c_wirings db)" "w_mg (fst x) = mg_id g"
        using x joined_wirings_mem[of "fst x" "snd x"] by auto
      with e w k have "fst x = w" unfolding keyed_def by (meson distinct_map inj_onD)
      with m w show False by simp
    qed
    then show ?thesis by (simp add: find_None_iff_all)
  qed
  with w show ?thesis
    by (force simp: recompute_engage_patterns_def g Let_def fold_set_pattern[OF joined_wirings_ids[OF k]])
qed

end
