(* ===== verification/WiringFacts.thy ===== *)
theory WiringFacts
  imports AgentWiring
begin

text \<open>
  What the wiring code guarantees: what each stored engage pattern matches, that a room with a prime
  always has an agent to answer, and that wiring an agent twice is wiring it once.
\<close>

section \<open>The stored patterns are the regular expressions studied in MentionRegex\<close>

lemma mention_text_render: "mention_pattern_text f = render (mention_re (ci_token f))"
  by (simp add: mention_pattern_text_def mention_re_def render_ci_token at_sign_def)

lemma prime_text_render:
  "fs \<noteq> [] \<Longrightarrow> prime_pattern_text fs = render (prime_re fs)"
  by (simp add: prime_pattern_text_def prime_re_def mention_re_def render_ci_token at_sign_def comp_def)

lemma prime_text_alone: "prime_pattern_text [] = render RAny"
  by (simp add: prime_pattern_text_def)

lemma matches_any: "matches RAny s = (\<exists>c \<in> set s. \<not> line_end c)"
  by (auto simp: matches_iff in_set_conv_nth less_imp_le Bex_def split: if_splits)

definition folders_of_others :: "string \<Rightarrow> (wiring \<times> string) list \<Rightarrow> string list" where
  "folders_of_others p ws = map snd (filter (\<lambda>(x, _). w_agent x \<noteq> p) ws)"

text \<open>Which messages the agent wired as \<open>(w, f)\<close> is meant to answer.\<close>

definition should_engage :: "string option \<Rightarrow> (wiring \<times> string) list \<Rightarrow> wiring \<times> string \<Rightarrow> string \<Rightarrow> bool" where
  "should_engage prime ws wx msg = (
     if prime = Some (w_agent (fst wx))
     then (let others = folders_of_others (w_agent (fst wx)) ws in
           if others = [] then list_ex (\<lambda>c. \<not> line_end c) msg
           else \<not> list_ex (\<lambda>f. list_ex (mention_at f msg) [0..<Suc (length (first_line msg))]) others)
     else list_ex (mention_at (snd wx) msg) [0..<length msg])"

definition slug_folders :: "(wiring \<times> string) list \<Rightarrow> bool" where
  "slug_folders ws = list_all (\<lambda>(_, f). list_all slug_char f) ws"

lemma pattern_for_meaning:
  assumes sl: "slug_folders ws" and w: "(w, f) \<in> set ws"
  shows "\<exists>r. pattern_for prime ws (w, f) = render r
    \<and> (\<forall>msg. matches r msg = should_engage prime ws (w, f) msg)"
proof -
  have slf: "\<forall>c \<in> set g. slug_char c" if "(x, g) \<in> set ws" for x g
    using sl that by (auto simp: slug_folders_def list_all_iff)
  have others: "\<forall>g \<in> set (folders_of_others p ws). \<forall>c \<in> set g. slug_char c" for p
    using slf by (auto simp: folders_of_others_def)
  have mention: "matches (mention_re (ci_token f)) msg = list_ex (mention_at f msg) [0..<length msg]" for msg
    using matches_mention[OF slf[OF w]] by (auto simp: list_ex_iff mention_at_def)
  show ?thesis
  proof (cases "prime = Some (w_agent w)")
    case False
    then have "pattern_for prime ws (w, f) = render (mention_re (ci_token f))"
      by (auto simp: pattern_for_def mention_text_render split: option.split)
    moreover have "should_engage prime ws (w, f) msg = list_ex (mention_at f msg) [0..<length msg]" for msg
      using False by (simp add: should_engage_def)
    ultimately show ?thesis using mention by metis
  next
    case True
    let ?fs = "folders_of_others (w_agent w) ws"
    have pat: "pattern_for prime ws (w, f) = prime_pattern_text ?fs"
      using True by (simp add: pattern_for_def folders_of_others_def)
    show ?thesis
    proof (cases "?fs = []")
      case fs: True
      have "matches RAny msg = should_engage prime ws (w, f) msg" for msg
        using True fs by (simp add: should_engage_def matches_any list_ex_iff)
      with pat fs show ?thesis by (metis prime_text_alone)
    next
      case fs: False
      have "matches (prime_re ?fs) msg = should_engage prime ws (w, f) msg" for msg
        using True fs unfolding matches_prime[OF others] should_engage_def
        by (auto simp: list_ex_iff less_Suc_eq_le simp del: upt_Suc)
      with pat fs show ?thesis by (metis prime_text_render)
    qed
  qed
qed

text \<open>
  After the patterns of a room are recomputed, each wired agent's stored pattern is the text of a
  regular expression that matches exactly the messages that agent should answer: a non-prime
  agent those that mention its folder; the prime, alone, any message with a visible character, and
  with others those whose first line mentions none of them. Wirings of other rooms keep theirs.
\<close>

theorem engage_pattern_meaning:
  assumes k: "keyed w_id (c_wirings db)" and g: "api_lookup api webchat rid db = Some g"
    and sl: "slug_folders (joined_wirings (mg_id g) db)"
    and w: "(w, f) \<in> set (joined_wirings (mg_id g) db)"
  shows "(\<exists>w' \<in> set (c_wirings (recompute_engage_patterns api rid db)).
      w_id w' = w_id w \<and> w_agent w' = w_agent w
      \<and> (\<exists>r. w_pattern w' = render r \<and> (\<forall>msg. matches r msg =
            should_engage (valid_prime rid (joined_wirings (mg_id g) db) db) (joined_wirings (mg_id g) db) (w, f) msg)))
    \<and> (\<forall>v \<in> set (c_wirings db). w_mg v \<noteq> mg_id g \<longrightarrow> v \<in> set (c_wirings (recompute_engage_patterns api rid db)))"
proof -
  let ?ws = "joined_wirings (mg_id g) db"
  let ?p = "valid_prime rid ?ws db"
  let ?w = "w\<lparr>w_pattern := pattern_for ?p ?ws (w, f)\<rparr>"
  have "?w \<in> set (c_wirings (recompute_engage_patterns api rid db))" by (rule recompute_member[OF k g w])
  moreover obtain r where "pattern_for ?p ?ws (w, f) = render r"
      "\<forall>msg. matches r msg = should_engage ?p ?ws (w, f) msg"
    using pattern_for_meaning[OF sl w] by blast
  moreover have "w_id ?w = w_id w" "w_agent ?w = w_agent w" "w_pattern ?w = pattern_for ?p ?ws (w, f)" by simp_all
  ultimately show ?thesis using recompute_frame[OF k g] by metis
qed

theorem engage_pattern_meaning_witness:
  "\<exists>w' \<in> set (c_wirings (recompute_engage_patterns host_mg_api ''r'' example_db)). \<exists>r. w_pattern w' = render r"
proof -
  have k: "keyed w_id (c_wirings example_db)" using example_db_ok(1) by (simp add: db_ok_def)
  have sl: "slug_folders (joined_wirings (mg_id (example_group ''g1'' ''r'')) example_db)" by code_simp
  have w: "(example_wiring ''w1'' ''g1'' ''a1'', ''ann'') \<in> set (joined_wirings (mg_id (example_group ''g1'' ''r'')) example_db)"
    by code_simp
  from engage_pattern_meaning[OF k example_lookup sl w, THEN conjunct1] show ?thesis by blast
qed


definition primed_db :: chat_db where
  "primed_db = set_prime_agent ''r'' ''a1'' 3 example_db"


text \<open>
  The lookahead stops at the end of the first line, and a word boundary falls before a hyphen. So a
  mention on a later line leaves the prime engaged too, and a mention of \<open>alice-helper\<close> is one
  of \<open>alice\<close>.
\<close>

lemma second_line_mention_engages_both:
  "matches (prime_re [''bob'']) (''hi'' @ [CHR 0x0A] @ ''@bob'')
   \<and> matches (mention_re (ci_token ''bob'')) (''hi'' @ [CHR 0x0A] @ ''@bob'')"
  by code_simp

lemma hyphenated_mention_engages_prefix:
  "matches (mention_re (ci_token ''alice-helper'')) ''@alice-helper hi''
   \<and> matches (mention_re (ci_token ''alice'')) ''@alice-helper hi''
   \<and> \<not> matches (prime_re [''alice'']) ''@alice-helper hi''"
  by code_simp

section \<open>Wiring twice\<close>

definition same_but_dests :: "chat_db \<Rightarrow> chat_db \<Rightarrow> bool" where
  "same_but_dests a b = (b = a\<lparr>c_dests := c_dests b\<rparr>)"

lemma same_but_dests_trans: "same_but_dests a b \<Longrightarrow> same_but_dests b c \<Longrightarrow> same_but_dests a c"
  unfolding same_but_dests_def by (metis chat_db.surjective chat_db.update_convs(5))

lemma ensure_a2a_frame: "wire_api_ok w \<Longrightarrow> same_but_dests db (ensure_a2a_destination w a b f db)"
  by (auto simp: ensure_a2a_destination_def Let_def wire_api_laws same_but_dests_def split: option.split)

lemma link_peer_frame: "wire_api_ok w \<Longrightarrow> same_but_dests db (link_peer w a f peer db)"
  by (auto simp: link_peer_def Let_def split: option.split
      intro: ensure_a2a_frame same_but_dests_trans)

lemma link_peers_frame: "wire_api_ok w \<Longrightarrow> same_but_dests db (fold (link_peer w a f) peers db)"
proof (induction peers arbitrary: db)
  case Nil
  then show ?case by (simp add: same_but_dests_def)
next
  case (Cons p ps)
  then show ?case using link_peer_frame same_but_dests_trans by fastforce
qed

lemma link_destinations_frame:
  assumes "wire_api_ok w"
  shows "same_but_dests db (fst (link_destinations w pl g a db))"
proof -
  have "same_but_dests db (if wa_dest_by_target w a ''channel'' (mg_id g) db = None
      then wa_dest_create w d db else db)" for d
    using assms by (simp add: wire_api_laws same_but_dests_def)
  moreover have "same_but_dests db db" by (simp add: same_but_dests_def)
  ultimately show ?thesis
    unfolding link_destinations_def Let_def using link_peers_frame[OF assms] same_but_dests_trans
    by (smt (verit) fst_conv)
qed

lemma same_but_dests_fields:
  "same_but_dests a b \<Longrightarrow> c_groups b = c_groups a \<and> c_wirings b = c_wirings a \<and> c_agents b = c_agents a"
  unfolding same_but_dests_def by (metis chat_db.select_convs(1-3) chat_db.surjective chat_db.update_convs(5))

lemma recompute_keeps_pairs:
  "map (\<lambda>w. (w_mg w, w_agent w)) (c_wirings (recompute_engage_patterns api rid db))
     = map (\<lambda>w. (w_mg w, w_agent w)) (c_wirings db)
   \<and> c_groups (recompute_engage_patterns api rid db) = c_groups db"
proof -
  have "map (\<lambda>w. (w_mg w, w_agent w)) (fold (\<lambda>wx. set_pattern (w_id (fst wx)) (h wx)) ps ws)
      = map (\<lambda>w. (w_mg w, w_agent w)) ws"
    for h and ps :: "(wiring \<times> string) list" and ws
    by (induction ps arbitrary: ws) (simp_all add: set_pattern_simps)
  then show ?thesis by (simp add: recompute_engage_patterns_def Let_def split: option.split)
qed

lemma wired_by_pairs:
  "list_ex (\<lambda>x. w_mg x = g \<and> w_agent x = a) ws = ((g, a) \<in> set (map (\<lambda>w. (w_mg w, w_agent w)) ws))"
  by (auto simp: list_ex_iff)

lemma wiring_exists_noop:
  assumes "api_lookup api webchat pl db = Some g"
    and "(mg_id g, a) \<in> set (map (\<lambda>w. (w_mg w, w_agent w)) (c_wirings db))"
  shows "wire_agent_to_webchat_room api w name pl a ua ub uc now db = Inr (db, [])"
proof -
  have "snd (create_webchat_room api name (Some pl) ua ub now db) = db"
    using assms(1) by (simp add: create_webchat_room_def)
  then show ?thesis
    using assms by (simp add: wire_agent_to_webchat_room_def wired_by_pairs)
qed

text \<open>
  Wiring an agent to a room provisions the room when it is missing, never fails, leaves the agent
  wired to it, and a second wiring of the same agent changes nothing and projects nothing.
\<close>

theorem wiring_idempotent:
  assumes ok: "mg_api_ok api" "wire_api_ok w"
  shows "\<exists>db' touched g. wire_agent_to_webchat_room api w name pl a ua ub uc now db = Inr (db', touched)
     \<and> api_lookup api webchat pl db' = Some g
     \<and> list_ex (\<lambda>x. w_mg x = mg_id g \<and> w_agent x = a) (c_wirings db')
     \<and> wire_agent_to_webchat_room api w name' pl a ud ue uf later db' = Inr (db', [])"
proof -
  let ?db1 = "snd (create_webchat_room api name (Some pl) ua ub now db)"
  obtain g where g: "api_lookup api webchat pl ?db1 = Some g"
    by (cases "api_lookup api webchat pl db")
       (auto simp: create_webchat_room_def mg_api_laws[OF ok(1)] find_append)
  have fin: ?thesis
    if r: "wire_agent_to_webchat_room api w name pl a ua ub uc now db = Inr (db', t)"
      and l: "api_lookup api webchat pl db' = Some g"
      and p: "(mg_id g, a) \<in> set (map (\<lambda>w. (w_mg w, w_agent w)) (c_wirings db'))" for db' t
    using r l p wiring_exists_noop[OF l p] unfolding wired_by_pairs[symmetric] by blast
  show ?thesis
  proof (cases "(mg_id g, a) \<in> set (map (\<lambda>w. (w_mg w, w_agent w)) (c_wirings ?db1))")
    case True
    then have "wire_agent_to_webchat_room api w name pl a ua ub uc now db = Inr (?db1, [])"
      by (simp add: wire_agent_to_webchat_room_def g wired_by_pairs)
    from fin[OF this g True] show ?thesis .
  next
    case False
    let ?row = "\<lparr>w_id = uc, w_mg = mg_id g, w_agent = a, w_mode = ''pattern'', w_pattern = ''.'',
       w_scope = ''all'', w_ignored = ''drop'', w_session = ''shared''\<rparr>"
    let ?db2 = "wa_create w ?row ?db1"
    obtain db3 t where l: "link_destinations w pl g a ?db2 = (db3, t)" by fastforce
    have f3: "c_groups db3 = c_groups ?db1" "c_wirings db3 = c_wirings ?db1 @ [?row]"
      using same_but_dests_fields[OF link_destinations_frame[OF ok(2), of ?db2 pl g a]] l
      by (simp_all add: wire_api_laws[OF ok(2)])
    have r: "wire_agent_to_webchat_room api w name pl a ua ub uc now db
        = Inr (recompute_engage_patterns api pl db3, t)"
      using False l by (simp add: wire_agent_to_webchat_room_def g wired_by_pairs Let_def)
    have "api_lookup api webchat pl (recompute_engage_patterns api pl db3) = Some g"
      using g recompute_keeps_pairs[of api pl db3] f3(1) by (simp add: mg_api_lookup[OF ok(1)])
    moreover have "(mg_id g, a) \<in> set (map (\<lambda>w. (w_mg w, w_agent w)) (c_wirings (recompute_engage_patterns api pl db3)))"
      using recompute_keeps_pairs[of api pl db3] by (simp only: f3(2)) simp
    ultimately show ?thesis by (rule fin[OF r])
  qed
qed

theorem wiring_idempotent_witness:
  "\<exists>db' touched. wire_agent_to_webchat_room host_mg_api host_wire_api ''R'' ''r'' ''a2'' ''x'' ''y'' ''z'' 9 example_db
     = Inr (db', touched)"
  using wiring_idempotent[OF host_mg_api_ok host_wire_api_ok] by blast

end
