(* ===== verification/MessageStore.thy ===== *)
theory MessageStore
  imports RoomFacts
begin

text \<open>
  Messages (\<open>channels/webchat/db.ts\<close>): storing, deleting, and the pages the client scrolls through.
  Every page is in the order of \<open>(created_at, id)\<close>. The stored card kinds keep their JSON payload as
  opaque text here.
\<close>

definition message_key :: "message \<Rightarrow> millis \<times> string" where
  "message_key m = (m_at m, m_id m)"

section \<open>Storing\<close>

definition put_message :: "message \<Rightarrow> chat_db \<Rightarrow> chat_db" where
  "put_message m db = db\<lparr>c_messages := c_messages db @ [m]\<rparr>"

text \<open>\<open>INSERT OR REPLACE\<close>: the old row goes, the new one is appended.\<close>

definition replace_message :: "message \<Rightarrow> chat_db \<Rightarrow> chat_db" where
  "replace_message m db = db\<lparr>c_messages := tbl_delete (\<lambda>x. m_id x = m_id m) (c_messages db) @ [m]\<rparr>"

definition store_webchat_message ::
  "string \<Rightarrow> string \<Rightarrow> string \<Rightarrow> string \<Rightarrow> string \<Rightarrow> string option \<Rightarrow> millis option \<Rightarrow> string option
   \<Rightarrow> string \<Rightarrow> millis \<Rightarrow> chat_db \<Rightarrow> message \<times> chat_db" where
  "store_webchat_message room sender stype content th sender_id resets served uuid now db =
     (let m = \<lparr>m_id = uuid, m_room = room, m_thread = th, m_sender = sender, m_sender_type = stype,
                m_content = content, m_kind = KText, m_file = None, m_at = now, m_origin = None,
                m_sender_id = sender_id, m_resets = resets, m_served = served\<rparr>
      in (m, put_message m db))"

definition store_webchat_file_message ::
  "string \<Rightarrow> string \<Rightarrow> string \<Rightarrow> string \<Rightarrow> file_meta \<Rightarrow> string \<Rightarrow> string option \<Rightarrow> string \<Rightarrow> millis
   \<Rightarrow> chat_db \<Rightarrow> message \<times> chat_db" where
  "store_webchat_file_message room sender stype caption fm th sender_id uuid now db =
     (let m = \<lparr>m_id = uuid, m_room = room, m_thread = th, m_sender = sender, m_sender_type = stype,
                m_content = caption, m_kind = KFile, m_file = Some fm, m_at = now, m_origin = None,
                m_sender_id = sender_id, m_resets = None, m_served = None\<rparr>
      in (m, put_message m db))"

text \<open>\<open>payload\<close> is the JSON text of \<open>{to, text}\<close>.\<close>

definition store_webchat_a2a_message ::
  "string \<Rightarrow> string \<Rightarrow> string \<Rightarrow> string \<Rightarrow> string \<Rightarrow> millis \<Rightarrow> chat_db \<Rightarrow> message \<times> chat_db" where
  "store_webchat_a2a_message room from_name payload th uuid now db =
     (let m = \<lparr>m_id = uuid, m_room = room, m_thread = th, m_sender = from_name, m_sender_type = ''a2a'',
                m_content = payload, m_kind = KA2a, m_file = None, m_at = now, m_origin = None,
                m_sender_id = None, m_resets = None, m_served = None\<rparr>
      in (m, put_message m db))"

definition card_id :: "string \<Rightarrow> string" where
  "card_id qid = ''appr-card-'' @ qid"

definition store_webchat_approval_card ::
  "string \<Rightarrow> string \<Rightarrow> string \<Rightarrow> string \<Rightarrow> string \<Rightarrow> millis \<Rightarrow> chat_db \<Rightarrow> message \<times> chat_db" where
  "store_webchat_approval_card room sender qid payload th now db =
     (let m = \<lparr>m_id = card_id qid, m_room = room, m_thread = th, m_sender = sender, m_sender_type = ''agent'',
                m_content = payload, m_kind = KApproval, m_file = None, m_at = now, m_origin = None,
                m_sender_id = None, m_resets = None, m_served = None\<rparr>
      in (m, replace_message m db))"

text \<open>\<open>resolve\<close> adds the resolver to the payload's JSON text (an unreadable payload counts as empty).\<close>

definition mark_room_approval_resolved :: "(string \<Rightarrow> string) \<Rightarrow> string \<Rightarrow> chat_db \<Rightarrow> chat_db" where
  "mark_room_approval_resolved resolve qid db =
     (case tbl_get m_id (card_id qid) (c_messages db) of None \<Rightarrow> db
      | Some row \<Rightarrow> db\<lparr>c_messages := tbl_update (\<lambda>m. m_id m = card_id qid)
          (\<lambda>m. m\<lparr>m_kind := KApprovalResolved, m_content := resolve (m_content row)\<rparr>) (c_messages db)\<rparr>)"

definition draft_card_id :: "string \<Rightarrow> string" where
  "draft_card_id i = ''skill-draft-card-'' @ i"

definition store_webchat_skill_draft_card ::
  "string \<Rightarrow> string \<Rightarrow> string \<Rightarrow> string \<Rightarrow> string \<Rightarrow> millis \<Rightarrow> chat_db \<Rightarrow> message \<times> chat_db" where
  "store_webchat_skill_draft_card room sender did payload th now db =
     (let m = \<lparr>m_id = draft_card_id did, m_room = room, m_thread = th, m_sender = sender,
                m_sender_type = ''agent'', m_content = payload, m_kind = KSkillDraft, m_file = None,
                m_at = now, m_origin = None, m_sender_id = None, m_resets = None, m_served = None\<rparr>
      in (m, replace_message m db))"

definition skill_draft_card_position :: "string \<Rightarrow> chat_db \<Rightarrow> (string \<times> nat) option" where
  "skill_draft_card_position did db = (case tbl_get m_id (draft_card_id did) (c_messages db) of
     None \<Rightarrow> None
   | Some row \<Rightarrow> Some (m_room row, length (filter (\<lambda>m. m_room m = m_room row \<and> m_at row < m_at m
                          \<and> m_id m \<noteq> draft_card_id did) (c_messages db))))"

definition mark_room_skill_draft_resolved ::
  "(string \<Rightarrow> string) \<Rightarrow> string \<Rightarrow> chat_db \<Rightarrow> (string \<times> message) option \<times> chat_db" where
  "mark_room_skill_draft_resolved resolve did db =
     (case tbl_get m_id (draft_card_id did) (c_messages db) of None \<Rightarrow> (None, db)
      | Some row \<Rightarrow> (let row' = row\<lparr>m_content := resolve (m_content row)\<rparr> in
          (Some (m_room row, row'),
           db\<lparr>c_messages := tbl_update (\<lambda>m. m_id m = draft_card_id did)
             (\<lambda>m. m\<lparr>m_content := resolve (m_content row)\<rparr>) (c_messages db)\<rparr>)))"

section \<open>Deleting\<close>

definition may_delete :: "string \<Rightarrow> string \<Rightarrow> string \<Rightarrow> string option \<Rightarrow> message \<Rightarrow> bool" where
  "may_delete mid user room legacy m = (m_id m = mid \<and> m_room m = room
     \<and> (m_sender_id m = Some user
        \<or> (m_sender_id m = None \<and> m_sender_type m = ''user'' \<and> legacy = Some (m_sender m))))"

definition delete_webchat_message ::
  "string \<Rightarrow> string \<Rightarrow> string \<Rightarrow> string option \<Rightarrow> chat_db \<Rightarrow> bool \<times> chat_db" where
  "delete_webchat_message mid user room legacy db =
     (list_ex (may_delete mid user room legacy) (c_messages db),
      db\<lparr>c_messages := tbl_delete (may_delete mid user room legacy) (c_messages db)\<rparr>)"

section \<open>Pages\<close>

text \<open>The messages of a room, or of one of its threads, in page order.\<close>

definition history :: "string \<Rightarrow> string option \<Rightarrow> chat_db \<Rightarrow> message list" where
  "history room th db = sort_key message_key
     (filter (\<lambda>m. m_room m = room \<and> (case th of None \<Rightarrow> True | Some t \<Rightarrow> m_thread m = t)) (c_messages db))"

definition in_scope :: "string \<Rightarrow> string option \<Rightarrow> message \<Rightarrow> bool" where
  "in_scope room th m = (m_room m = room \<and> (case th of None \<Rightarrow> True | Some t \<Rightarrow> m_thread m = t))"

text \<open>\<open>ORDER BY created_at DESC, id DESC LIMIT n\<close>.\<close>

definition newest :: "nat \<Rightarrow> message list \<Rightarrow> message list" where
  "newest n ms = take n (rev (sort_key message_key ms))"

definition get_webchat_messages :: "string \<Rightarrow> nat \<Rightarrow> string option \<Rightarrow> chat_db \<Rightarrow> message list" where
  "get_webchat_messages room limit th db = rev (newest limit (filter (in_scope room th) (c_messages db)))"

definition get_webchat_messages_after_id :: "string \<Rightarrow> string \<Rightarrow> nat \<Rightarrow> string option \<Rightarrow> chat_db \<Rightarrow> message list" where
  "get_webchat_messages_after_id room aid limit th db =
     (case tbl_get m_id aid (c_messages db) of None \<Rightarrow> []
      | Some anchor \<Rightarrow> take limit (sort_key message_key
          (filter (\<lambda>m. in_scope room th m \<and> (m_at anchor, aid) < message_key m) (c_messages db))))"

definition get_webchat_messages_before_id :: "string \<Rightarrow> string \<Rightarrow> nat \<Rightarrow> string option \<Rightarrow> chat_db \<Rightarrow> message list" where
  "get_webchat_messages_before_id room bid limit th db =
     (case tbl_get m_id bid (c_messages db) of None \<Rightarrow> []
      | Some anchor \<Rightarrow> rev (newest limit
          (filter (\<lambda>m. in_scope room th m \<and> message_key m < (m_at anchor, bid)) (c_messages db))))"

text \<open>What a client holds after opening a room and scrolling back \<open>k\<close> times.\<close>

fun scrolled :: "string \<Rightarrow> string option \<Rightarrow> nat \<Rightarrow> nat \<Rightarrow> chat_db \<Rightarrow> nat \<Rightarrow> message list" where
  "scrolled room th n m db 0 = get_webchat_messages room n th db"
| "scrolled room th n m db (Suc k) = (case scrolled room th n m db k of
     [] \<Rightarrow> []
   | x # xs \<Rightarrow> get_webchat_messages_before_id room (m_id x) m th db @ x # xs)"

section \<open>Facts about the page order\<close>

lemma history_eq: "history room th db = sort_key message_key (filter (in_scope room th) (c_messages db))"
  by (simp add: history_def in_scope_def[abs_def])

lemma sorted_history: "sorted (map message_key (history room th db))"
  by (simp add: history_eq)

lemma distinct_history: "keyed m_id (c_messages db) \<Longrightarrow> distinct (map message_key (history room th db))"
proof -
  assume k: "keyed m_id (c_messages db)"
  then have "distinct (c_messages db)" "inj_on m_id (set (c_messages db))"
    by (simp_all add: keyed_def distinct_map)
  moreover have "set (history room th db) \<subseteq> set (c_messages db)" by (auto simp: history_eq)
  ultimately have "distinct (history room th db)" "inj_on m_id (set (history room th db))"
    by (auto simp: history_eq intro: inj_on_subset)
  then show ?thesis by (auto simp: distinct_map inj_on_def message_key_def)
qed

lemma take_rev_drop: "rev (take n (rev xs)) = drop (length xs - n) xs"
  by (simp add: take_rev)

lemma newest_history: "rev (newest n (filter (in_scope room th) (c_messages db)))
   = drop (length (history room th db) - n) (history room th db)"
  by (simp add: newest_def history_eq take_rev_drop)

lemma filter_key_sort: "sort_key f (filter P xs) = filter P (sort_key f xs)"
  by (simp add: filter_sort)

lemma filter_less_sorted:
  assumes "sorted (map f xs)" "distinct (map f xs)" "i < length xs"
  shows "filter (\<lambda>x. f x < f (xs ! i)) xs = take i xs"
proof -
  have lt: "f (xs ! j) < f (xs ! i) \<longleftrightarrow> j < i" if "j < length xs" for j
  proof
    assume a: "f (xs ! j) < f (xs ! i)"
    show "j < i"
    proof (rule ccontr)
      assume "\<not> j < i"
      then have "i \<le> j" by simp
      then have "map f xs ! i \<le> map f xs ! j" using assms(1) that by (intro sorted_nth_mono) auto
      with a that assms(3) show False by simp
    qed
  next
    assume j: "j < i"
    then have "map f xs ! j \<le> map f xs ! i" using assms(1,3) by (intro sorted_nth_mono) auto
    moreover have "map f xs ! j \<noteq> map f xs ! i"
      using nth_eq_iff_index_eq[OF assms(2), of j i] j that assms(3) by simp
    ultimately show "f (xs ! j) < f (xs ! i)" using that assms(3) by simp
  qed
  have "filter (\<lambda>x. f x < f (xs ! i)) (take i xs @ drop i xs) = take i xs @ []"
    unfolding filter_append
  proof (intro arg_cong2[of _ _ _ _ append])
    show "filter (\<lambda>x. f x < f (xs ! i)) (take i xs) = take i xs"
      using lt assms(3) by (auto simp: filter_id_conv in_set_conv_nth)
    show "filter (\<lambda>x. f x < f (xs ! i)) (drop i xs) = []"
      using lt assms(3) by (auto simp: filter_empty_conv in_set_conv_nth)
  qed
  then show ?thesis by simp
qed

lemma filter_greater_sorted:
  assumes "sorted (map f xs)" "distinct (map f xs)" "i < length xs"
  shows "filter (\<lambda>x. f (xs ! i) < f x) xs = drop (Suc i) xs"
proof -
  have gt: "f (xs ! i) < f (xs ! j) \<longleftrightarrow> i < j" if "j < length xs" for j
  proof
    assume a: "f (xs ! i) < f (xs ! j)"
    show "i < j"
    proof (rule ccontr)
      assume "\<not> i < j"
      then have "j \<le> i" by simp
      then have "map f xs ! j \<le> map f xs ! i" using assms(1,3) by (intro sorted_nth_mono) auto
      with a that assms(3) show False by simp
    qed
  next
    assume j: "i < j"
    then have "map f xs ! i \<le> map f xs ! j" using assms(1) that by (intro sorted_nth_mono) auto
    moreover have "map f xs ! i \<noteq> map f xs ! j"
      using nth_eq_iff_index_eq[OF assms(2), of i j] j that assms(3) by simp
    ultimately show "f (xs ! i) < f (xs ! j)" using that assms(3) by simp
  qed
  have "filter (\<lambda>x. f (xs ! i) < f x) (take (Suc i) xs @ drop (Suc i) xs) = [] @ drop (Suc i) xs"
    unfolding filter_append
  proof (intro arg_cong2[of _ _ _ _ append])
    show "filter (\<lambda>x. f (xs ! i) < f x) (take (Suc i) xs) = []"
      using gt assms(3) by (auto simp: filter_empty_conv in_set_conv_nth)
    show "filter (\<lambda>x. f (xs ! i) < f x) (drop (Suc i) xs) = drop (Suc i) xs"
      using gt assms(3) by (auto simp: filter_id_conv in_set_conv_nth)
  qed
  then show ?thesis by simp
qed

lemma history_member: "i < length (history room th db) \<Longrightarrow> history room th db ! i \<in> set (c_messages db)"
proof -
  assume "i < length (history room th db)"
  then have "history room th db ! i \<in> set (history room th db)" by (rule nth_mem)
  then show ?thesis by (simp add: history_eq)
qed

text \<open>A page next to a message of the history is the stretch of the history next to it.\<close>

lemma before_history:
  assumes k: "keyed m_id (c_messages db)" and i: "i < length (history room th db)"
  shows "get_webchat_messages_before_id room (m_id (history room th db ! i)) n th db
     = drop (i - n) (take i (history room th db))"
proof -
  let ?h = "history room th db"
  have g: "tbl_get m_id (m_id (?h ! i)) (c_messages db) = Some (?h ! i)"
    using k history_member[OF i] by (rule tbl_get_mem)
  have key: "(m_at (?h ! i), m_id (?h ! i)) = message_key (?h ! i)" by (simp add: message_key_def)
  have "sort_key message_key (filter (\<lambda>m. in_scope room th m \<and> message_key m < message_key (?h ! i)) (c_messages db))
      = filter (\<lambda>m. message_key m < message_key (?h ! i)) ?h"
    by (simp add: history_eq filter_key_sort conj_commute)
  also have "\<dots> = take i ?h" by (rule filter_less_sorted[OF sorted_history distinct_history[OF k] i])
  finally show ?thesis
    unfolding get_webchat_messages_before_id_def g option.case key newest_def
    using i by (simp add: take_rev_drop)
qed

lemma after_history:
  assumes k: "keyed m_id (c_messages db)" and i: "i < length (history room th db)"
  shows "get_webchat_messages_after_id room (m_id (history room th db ! i)) n th db
     = take n (drop (Suc i) (history room th db))"
proof -
  let ?h = "history room th db"
  have g: "tbl_get m_id (m_id (?h ! i)) (c_messages db) = Some (?h ! i)"
    using k history_member[OF i] by (rule tbl_get_mem)
  have key: "(m_at (?h ! i), m_id (?h ! i)) = message_key (?h ! i)" by (simp add: message_key_def)
  have "sort_key message_key (filter (\<lambda>m. in_scope room th m \<and> message_key (?h ! i) < message_key m) (c_messages db))
      = filter (\<lambda>m. message_key (?h ! i) < message_key m) ?h"
    by (simp add: history_eq filter_key_sort conj_commute)
  also have "\<dots> = drop (Suc i) ?h" by (rule filter_greater_sorted[OF sorted_history distinct_history[OF k] i])
  finally show ?thesis
    unfolding get_webchat_messages_after_id_def g option.case key by simp
qed

lemma drop_take_append: "a \<le> length xs \<Longrightarrow> drop (a - b) (take a xs) @ drop a xs = drop (a - b) xs"
proof -
  assume a: "a \<le> length xs"
  have "drop (a - b) (take a xs @ drop a xs) = drop (a - b) (take a xs) @ drop a xs"
    unfolding drop_append using a by simp
  then show ?thesis by simp
qed

section \<open>Properties\<close>

text \<open>
  C33: scrolling back tiles the history: after opening a room on its newest \<open>n\<close> messages and loading
  \<open>k\<close> earlier pages of \<open>m\<close>, the client holds exactly the newest \<open>n + k m\<close>, none twice and none
  missing, also when several share a millisecond.
\<close>

theorem history_pages_tile:
  assumes k: "keyed m_id (c_messages db)" and n: "0 < n"
  shows "scrolled room th n m db j
     = drop (length (history room th db) - (n + j * m)) (history room th db)"
proof (induction j)
  case 0
  then show ?case by (simp add: get_webchat_messages_def newest_history)
next
  case (Suc j)
  let ?h = "history room th db"
  let ?i = "length ?h - (n + j * m)"
  show ?case
  proof (cases "?h = []")
    case True
    with Suc show ?thesis by simp
  next
    case False
    then have i: "?i < length ?h" using n by (cases "length ?h") auto
    have hd: "drop ?i ?h = ?h ! ?i # drop (Suc ?i) ?h" using i by (simp add: Cons_nth_drop_Suc)
    have "scrolled room th n m db (Suc j)
        = drop (?i - m) (take ?i ?h) @ drop ?i ?h"
      unfolding scrolled.simps Suc.IH unfolding hd list.case before_history[OF k i] ..
    also have "\<dots> = drop (?i - m) ?h" using i by (intro drop_take_append) simp
    finally show ?thesis by (simp add: algebra_simps)
  qed
qed


lemma example_keyed [simp]: "keyed m_id (c_messages example_db)"
  using example_db_ok(1) by (simp add: db_ok_def)

theorem history_pages_tile_witness:
  "scrolled ''r'' None 1 1 example_db 1 = history ''r'' None example_db \<and> length (history ''r'' None example_db) = 2"
proof -
  have "length (history ''r'' None example_db) = 2"
    by (simp add: history_eq in_scope_def example_db_def example_message_def)
  then show ?thesis by (simp add: history_pages_tile del: scrolled.simps)
qed

text \<open>What a reconnecting client holds after asking \<open>j\<close> times for what follows its last message.\<close>

fun caught_up :: "string \<Rightarrow> string option \<Rightarrow> nat \<Rightarrow> chat_db \<Rightarrow> message list \<Rightarrow> nat \<Rightarrow> message list" where
  "caught_up room th n db held 0 = held"
| "caught_up room th n db held (Suc j) =
     (let h = caught_up room th n db held j in
      if h = [] then [] else h @ get_webchat_messages_after_id room (m_id (last h)) n th db)"

text \<open>
  Catching up tiles the history forwards: a client that holds the history up to some message and
  loads \<open>j\<close> pages of \<open>n\<close> after its last one holds the next \<open>j n\<close> messages, none twice, none missing.
\<close>

theorem catch_up_tiles:
  assumes k: "keyed m_id (c_messages db)" and i: "i < length (history room th db)"
  shows "caught_up room th n db (take (Suc i) (history room th db)) j
     = take (Suc i + j * n) (history room th db)"
proof (induction j)
  case 0
  then show ?case by simp
next
  case (Suc j)
  let ?h = "history room th db"
  let ?c = "take (Suc i + j * n) ?h"
  let ?l = "length ?c - 1"
  have ne: "?c \<noteq> []" using i by auto
  then have l: "?l < length ?h" "last ?c = ?h ! ?l" "Suc ?l = min (length ?h) (Suc i + j * n)"
    using i by (auto simp: last_conv_nth min_def)
  have after: "get_webchat_messages_after_id room (m_id (last ?c)) n th db = take n (drop (Suc i + j * n) ?h)"
    unfolding l(2) after_history[OF k l(1)] l(3) by (auto simp: min_def)
  have "caught_up room th n db (take (Suc i) ?h) (Suc j) = ?c @ take n (drop (Suc i + j * n) ?h)"
    using ne Suc after by (simp add: Let_def)
  also have "\<dots> = take (Suc i + j * n + n) ?h" by (rule take_add[symmetric])
  finally show ?case by (simp add: algebra_simps)
qed

theorem catch_up_tiles_witness:
  "caught_up ''r'' None 1 example_db (take 1 (history ''r'' None example_db)) 1 = history ''r'' None example_db"
proof -
  have l: "length (history ''r'' None example_db) = 2"
    by (simp add: history_eq in_scope_def example_db_def example_message_def)
  then show ?thesis using catch_up_tiles[OF example_keyed, of 0 "''r''" None 1 1] by simp
qed



end
