(* ===== verification/ThreadStore.thy ===== *)
theory ThreadStore
  imports MessageStore
begin

text \<open>
  Threads (\<open>channels/webchat/db.ts\<close>), their session keys (there and in
  \<open>modules/user-credentials/identity.ts\<close>), and the pull and push of context between a thread and the
  room's main thread (\<open>syncThreadContext\<close> in \<open>server/routes-rooms.ts\<close>).
\<close>

definition MAIN_THREAD :: string where "MAIN_THREAD = ''main''"

section \<open>Session keys\<close>

definition thread_to_session_key :: "string option \<Rightarrow> string option" where
  "thread_to_session_key th = (if \<not> truthy th \<or> th = Some MAIN_THREAD then None else th)"

text \<open>\<open>s.lastIndexOf('::')\<close>, \<open>None\<close> for -1.\<close>

definition sep_at :: "string \<Rightarrow> nat \<Rightarrow> bool" where
  "sep_at s i = (take 2 (drop i s) = ''::'')"

definition last_sep :: "string \<Rightarrow> nat option" where
  "last_sep s = (case filter (sep_at s) [0..<length s] of [] \<Rightarrow> None | x # xs \<Rightarrow> Some (last (x # xs)))"

text \<open>\<open>known\<close> says whether the id names a thread of the room.\<close>

definition session_key_to_thread :: "(string \<Rightarrow> string \<Rightarrow> bool) \<Rightarrow> string option \<Rightarrow> string option \<Rightarrow> string" where
  "session_key_to_thread known key room =
     (if \<not> truthy key then MAIN_THREAD
      else (let k = the key in
        case last_sep k of
          Some (Suc i) \<Rightarrow> drop (Suc i + 2) k
        | _ \<Rightarrow> (if truthy room \<and> \<not> known (the room) k then MAIN_THREAD else k)))"

definition member_session_key :: "string \<Rightarrow> string option \<Rightarrow> string" where
  "member_session_key u th = u @ ''::'' @ (if truthy th then the th else ''main'')"

definition member_user_from_key :: "string option \<Rightarrow> string option" where
  "member_user_from_key key = (if \<not> truthy key then None
     else case last_sep (the key) of Some (Suc i) \<Rightarrow> Some (take (Suc i) (the key)) | _ \<Rightarrow> None)"

definition member_thread_from_key :: "string option \<Rightarrow> string option" where
  "member_thread_from_key key = (if \<not> truthy key then None
     else case last_sep (the key) of Some (Suc i) \<Rightarrow> Some (drop (Suc i + 2) (the key)) | _ \<Rightarrow> None)"

section \<open>The registry\<close>

definition get_webchat_thread :: "string \<Rightarrow> string \<Rightarrow> chat_db \<Rightarrow> thread_row option" where
  "get_webchat_thread room th db = tbl_get th_key (room, th) (c_threads db)"

definition ensure_thread :: "string \<Rightarrow> string \<Rightarrow> string \<Rightarrow> thread_kind \<Rightarrow> millis \<Rightarrow> chat_db \<Rightarrow> chat_db" where
  "ensure_thread room th title kind now db = db\<lparr>c_threads := tbl_insert_new th_key
     \<lparr>th_room = room, th_id = th, th_title = title, th_kind = kind, th_created = now, th_updated = now\<rparr>
     (c_threads db)\<rparr>"

definition ensure_main_thread :: "string \<Rightarrow> millis \<Rightarrow> chat_db \<Rightarrow> chat_db" where
  "ensure_main_thread room = ensure_thread room MAIN_THREAD ''Main'' TMain"

definition agent_lane :: "string \<Rightarrow> string" where
  "agent_lane folder = ''agent:'' @ folder"

definition ensure_agent_thread :: "string \<Rightarrow> string \<Rightarrow> string \<Rightarrow> millis \<Rightarrow> chat_db \<Rightarrow> chat_db" where
  "ensure_agent_thread room folder name = ensure_thread room (agent_lane folder) name TAgent"

definition create_webchat_thread :: "string \<Rightarrow> string \<Rightarrow> string \<Rightarrow> millis \<Rightarrow> chat_db \<Rightarrow> thread_row \<times> chat_db" where
  "create_webchat_thread room title uuid now db =
     (let t = \<lparr>th_room = room, th_id = uuid, th_title = title, th_kind = TTopic, th_created = now, th_updated = now\<rparr>
      in (t, db\<lparr>c_threads := c_threads db @ [t]\<rparr>))"

definition list_webchat_threads :: "string \<Rightarrow> chat_db \<Rightarrow> thread_row list" where
  "list_webchat_threads room db = sort_key (\<lambda>t. (th_kind t \<noteq> TMain, - th_updated t))
     (filter (\<lambda>t. th_room t = room) (c_threads db))"

text \<open>Absent rooms have no topic thread.\<close>

definition get_topic_thread_counts :: "chat_db \<Rightarrow> string \<Rightarrow> nat option" where
  "get_topic_thread_counts db room = (if \<not> c_has db ''webchat_threads'' then None
     else (let n = length (filter (\<lambda>t. th_kind t = TTopic \<and> th_room t = room) (c_threads db))
           in if n = 0 then None else Some n))"

text \<open>\<open>requested\<close> is \<open>None\<close> when the client sent no string.\<close>

definition resolve_bounded_thread ::
  "mg_api \<Rightarrow> string \<Rightarrow> string option \<Rightarrow> millis \<Rightarrow> chat_db \<Rightarrow> string \<times> chat_db" where
  "resolve_bounded_thread api room requested now db =
     (let want = (if truthy requested then the requested else MAIN_THREAD) in
      if want = MAIN_THREAD then (MAIN_THREAD, db)
      else if starts_with want ''agent:'' then
        (let folder = drop (length ''agent:'') want in
         case find (\<lambda>a. ag_folder a = folder) (get_agents_for_webchat_room api room db) of
           Some a \<Rightarrow> (want, ensure_agent_thread room folder (ag_name a) now db)
         | None \<Rightarrow> (MAIN_THREAD, db))
      else (if get_webchat_thread room want db \<noteq> None then want else MAIN_THREAD, db))"

definition rename_webchat_thread :: "string \<Rightarrow> string \<Rightarrow> string \<Rightarrow> millis \<Rightarrow> chat_db \<Rightarrow> chat_db" where
  "rename_webchat_thread room th title now db = db\<lparr>c_threads := tbl_update
     (\<lambda>t. th_room t = room \<and> th_id t = th) (\<lambda>t. t\<lparr>th_title := title, th_updated := now\<rparr>) (c_threads db)\<rparr>"

definition delete_webchat_thread :: "string \<Rightarrow> string \<Rightarrow> chat_db \<Rightarrow> chat_db" where
  "delete_webchat_thread room th db =
     (if th = MAIN_THREAD then db
      else db\<lparr>
        c_messages := tbl_delete (\<lambda>m. m_room m = room \<and> m_thread m = th) (c_messages db),
        c_thread_reads := tbl_delete (\<lambda>r. tr_room r = room \<and> tr_thread r = th) (c_thread_reads db),
        c_sync := tbl_delete (\<lambda>s. sy_room s = room \<and> sy_thread s = th) (c_sync db),
        c_threads := tbl_delete (\<lambda>t. th_room t = room \<and> th_id t = th) (c_threads db),
        c_traces := (if c_has db ''webchat_turn_traces''
          then tbl_delete (\<lambda>t. tc_room t = room \<and> tc_thread t = th) (c_traces db) else c_traces db),
        c_retries := (if c_has db ''webchat_limit_retries''
          then tbl_delete (\<lambda>r. lr_room r = room \<and> lr_thread r = th) (c_retries db) else c_retries db)\<rparr>)"

section \<open>Context sync\<close>

definition get_sync_mark :: "string \<Rightarrow> string \<Rightarrow> sync_origin \<Rightarrow> chat_db \<Rightarrow> millis" where
  "get_sync_mark room th dir db = (case tbl_get sy_key (room, th) (c_sync db) of None \<Rightarrow> 0
     | Some s \<Rightarrow> (case dir of Pulled \<Rightarrow> sy_pulled s | Pushed \<Rightarrow> sy_pushed s))"

definition set_thread_sync_mark :: "string \<Rightarrow> string \<Rightarrow> sync_origin \<Rightarrow> millis \<Rightarrow> chat_db \<Rightarrow> chat_db" where
  "set_thread_sync_mark room th dir ts db = db\<lparr>c_sync :=
     (case tbl_get sy_key (room, th) (c_sync db) of
        None \<Rightarrow> c_sync db @ [(case dir of
            Pulled \<Rightarrow> \<lparr>sy_room = room, sy_thread = th, sy_pulled = ts, sy_pushed = 0\<rparr>
          | Pushed \<Rightarrow> \<lparr>sy_room = room, sy_thread = th, sy_pulled = 0, sy_pushed = ts\<rparr>)]
      | Some _ \<Rightarrow> tbl_update (\<lambda>s. sy_key s = (room, th)) (\<lambda>s. case dir of
            Pulled \<Rightarrow> s\<lparr>sy_pulled := max (sy_pulled s) ts\<rparr>
          | Pushed \<Rightarrow> s\<lparr>sy_pushed := max (sy_pushed s) ts\<rparr>) (c_sync db))\<rparr>"

definition native_in :: "string \<Rightarrow> string \<Rightarrow> message \<Rightarrow> bool" where
  "native_in room th m = (m_room m = room \<and> m_thread m = th \<and> m_origin m = None \<and> m_kind m \<noteq> KDivider)"

definition get_sync_delta :: "string \<Rightarrow> string \<Rightarrow> millis \<Rightarrow> nat \<Rightarrow> chat_db \<Rightarrow> message list" where
  "get_sync_delta room src since fresh_limit db =
     (if 0 < fresh_limit \<and> since = 0
      then rev (take fresh_limit (rev (sort_key m_at (filter (native_in room src) (c_messages db)))))
      else sort_key m_at (filter (\<lambda>m. native_in room src m \<and> since < m_at m) (c_messages db)))"

definition thread_tail :: "string \<Rightarrow> string \<Rightarrow> chat_db \<Rightarrow> millis" where
  "thread_tail room th db = (case filter (\<lambda>m. m_room m = room \<and> m_thread m = th) (c_messages db) of
     [] \<Rightarrow> 0 | m # ms \<Rightarrow> fold max (map m_at ms) (m_at m))"

definition sync_divider :: "string \<Rightarrow> string \<Rightarrow> sync_origin \<Rightarrow> string \<Rightarrow> string \<Rightarrow> millis \<Rightarrow> message" where
  "sync_divider room dest dir divider uuid base =
     \<lparr>m_id = uuid, m_room = room, m_thread = dest, m_sender = ''system'', m_sender_type = ''system'',
      m_content = divider, m_kind = KDivider, m_file = None, m_at = base, m_origin = Some dir,
      m_sender_id = None, m_resets = None, m_served = None\<rparr>"

definition sync_copy :: "string \<Rightarrow> string \<Rightarrow> sync_origin \<Rightarrow> millis \<Rightarrow> nat \<Rightarrow> string \<Rightarrow> message \<Rightarrow> message" where
  "sync_copy room dest dir base i uuid r =
     \<lparr>m_id = uuid, m_room = room, m_thread = dest, m_sender = m_sender r, m_sender_type = m_sender_type r,
      m_content = m_content r, m_kind = m_kind r, m_file = m_file r, m_at = base + int i + 1,
      m_origin = Some dir, m_sender_id = m_sender_id r, m_resets = None, m_served = None\<rparr>"

text \<open>\<open>uuid\<close> gives the fresh ids in the order they are drawn; the first is the divider's.\<close>

definition synced_batch ::
  "string \<Rightarrow> string \<Rightarrow> message list \<Rightarrow> sync_origin \<Rightarrow> string \<Rightarrow> (nat \<Rightarrow> string) \<Rightarrow> millis \<Rightarrow> message list" where
  "synced_batch room dest rows dir divider uuid base =
     sync_divider room dest dir divider (uuid 0) base
     # map (\<lambda>(i, r). sync_copy room dest dir base i (uuid (Suc i)) r) (zip [0..<length rows] rows)"

definition insert_synced_messages ::
  "string \<Rightarrow> string \<Rightarrow> message list \<Rightarrow> sync_origin \<Rightarrow> string \<Rightarrow> (nat \<Rightarrow> string) \<Rightarrow> millis \<Rightarrow> chat_db
   \<Rightarrow> message list \<times> chat_db" where
  "insert_synced_messages room dest rows dir divider uuid now db =
     (let base = max now (thread_tail room dest db + 1);
          out = synced_batch room dest rows dir divider uuid base
      in (out, db\<lparr>c_messages := c_messages db @ out\<rparr>))"

definition sessions_for_thread_key :: "string \<Rightarrow> string option \<Rightarrow> chat_db \<Rightarrow> session_row list" where
  "sessions_for_thread_key gid key db = filter (\<lambda>s. ss_mg s = gid \<and> ss_thread s = key) (c_sessions db)"

text \<open>
  The result: messages copied, rows broadcast, and for each live session of the destination the copies
  it is seeded with.
\<close>

record sync_result =
  sr_copied :: nat
  sr_broadcast :: "message list"
  sr_seeds :: "(string \<times> string list) list"

definition sync_thread_context ::
  "mg_api \<Rightarrow> string \<Rightarrow> string \<Rightarrow> string \<Rightarrow> string \<Rightarrow> sync_origin \<Rightarrow> string \<Rightarrow> nat \<Rightarrow> (nat \<Rightarrow> string) \<Rightarrow> millis
   \<Rightarrow> chat_db \<Rightarrow> sync_result \<times> chat_db" where
  "sync_thread_context api room src dest mark_th dir divider fresh_limit uuid now db =
     (let since = get_sync_mark room mark_th dir db;
          delta = get_sync_delta room src since (if since = 0 then fresh_limit else 0) db
      in if length delta = 0 then (\<lparr>sr_copied = 0, sr_broadcast = [], sr_seeds = []\<rparr>, db)
         else
           (let (inserted, db1) = insert_synced_messages room dest delta dir divider uuid now db;
                db2 = set_thread_sync_mark room mark_th dir (fold max (map m_at delta) since) db1;
                copies = filter (\<lambda>m. m_kind m \<noteq> KDivider) inserted;
                seeds = (case api_lookup api webchat room db2 of None \<Rightarrow> []
                  | Some g \<Rightarrow> map (\<lambda>s. (ss_id s, map m_id copies))
                      (sessions_for_thread_key (mg_id g) (thread_to_session_key (Some dest)) db2))
            in (\<lparr>sr_copied = length copies, sr_broadcast = inserted, sr_seeds = seeds\<rparr>, db2)))"

definition FRESH_SYNC_LIMIT :: nat where "FRESH_SYNC_LIMIT = 50"

definition pull_thread ::
  "mg_api \<Rightarrow> string \<Rightarrow> string \<Rightarrow> (nat \<Rightarrow> string) \<Rightarrow> millis \<Rightarrow> chat_db \<Rightarrow> sync_result \<times> chat_db" where
  "pull_thread api room th = sync_thread_context api room MAIN_THREAD th th Pulled
     ''Pulled from main chat'' FRESH_SYNC_LIMIT"

definition push_thread ::
  "mg_api \<Rightarrow> string \<Rightarrow> string \<Rightarrow> (nat \<Rightarrow> string) \<Rightarrow> millis \<Rightarrow> chat_db \<Rightarrow> sync_result \<times> chat_db" where
  "push_thread api room th = sync_thread_context api room th MAIN_THREAD th Pushed
     ''Pushed from thread'' FRESH_SYNC_LIMIT"

text \<open>The route's checks, then the sync: \<open>Inl\<close> is the HTTP status of a refusal.\<close>

definition room_thread_sync ::
  "mg_api \<Rightarrow> (chat_db \<Rightarrow> string \<Rightarrow> string \<Rightarrow> bool) \<Rightarrow> string \<Rightarrow> string \<Rightarrow> string \<Rightarrow> bool \<Rightarrow> (nat \<Rightarrow> string) \<Rightarrow> millis
   \<Rightarrow> chat_db \<Rightarrow> nat + sync_result \<times> chat_db" where
  "room_thread_sync api access user room th pull uuid now db =
     (if get_webchat_room api room now db = None then Inl 404
      else if \<not> access db user room then Inl 403
      else if th = MAIN_THREAD then Inl 400
      else if get_webchat_thread room th db = None then Inl 404
      else Inr (if pull then pull_thread api room th uuid now db else push_thread api room th uuid now db))"

end
