(* ===== verification/ThreadFacts.thy ===== *)
theory ThreadFacts
  imports ThreadStore "HOL-Library.Multiset"
begin

text \<open>
  Facts about session keys, the thread registry and the context sync.
\<close>

section \<open>Session keys\<close>

definition no_sep :: "string \<Rightarrow> bool" where
  "no_sep t = list_all (\<lambda>i. \<not> sep_at (CHR 0x3A # t) i) [0..<Suc (length t)]"

lemma last_sep_append:
  assumes "no_sep t"
  shows "last_sep (u @ ''::'' @ t) = Some (length u)"
proof -
  let ?s = "u @ ''::'' @ t"
  let ?is = "filter (sep_at ?s) [0..<length ?s]"
  have here: "sep_at ?s (length u)" by (simp add: sep_at_def)
  have tail: "\<not> sep_at ?s i" if lo: "length u < i" and hi: "i < length ?s" for i
  proof -
    obtain d where d: "i = Suc (length u) + d" using less_imp_Suc_add[OF lo] by auto
    have "drop i ?s = drop d (drop (Suc (length u)) ?s)" by (simp only: d drop_drop add.commute)
    also have "drop (Suc (length u)) ?s = CHR 0x3A # t" by (simp only: drop_append) simp
    finally have "drop i ?s = drop d (CHR 0x3A # t)" .
    moreover have "d < Suc (length t)" using hi unfolding d by simp
    then have "\<not> sep_at (CHR 0x3A # t) d"
      using assms unfolding no_sep_def list_all_iff by (auto simp only: set_upt atLeastLessThan_iff)
    ultimately show ?thesis unfolding sep_at_def by (simp only: not_False_eq_True)
  qed
  have "[0..<length ?s] = [0..<length u] @ [length u] @ [Suc (length u)..<length ?s]"
    using upt_add_eq_append[of 0 "length u" "length ?s - length u"] upt_conv_Cons[of "length u" "length ?s"]
    by simp
  moreover have "filter (sep_at ?s) [Suc (length u)..<length ?s] = []"
    using tail by (auto simp: filter_empty_conv simp del: upt_Suc)
  moreover have "filter (sep_at ?s) [length u] = [length u]" using here by simp
  ultimately have "?is = filter (sep_at ?s) [0..<length u] @ [length u]"
    by (simp only: filter_append append_Nil2)
  then obtain xs where "?is = xs @ [length u]" by blast
  moreover have "(case xs @ [y] of [] \<Rightarrow> None | x # xs \<Rightarrow> Some (last (x # xs))) = Some y" for xs and y :: nat
    by (cases xs) simp_all
  ultimately show ?thesis unfolding last_sep_def by (simp only:)
qed

text \<open>
  A member's session key decodes to the user and the thread it was made from, so a session keeps
  its credential identity and its replies their thread; the channel's own decoder agrees with the
  credential module's, and an absent thread means the room's main one. The thread must be free of
  the separator, which thread ids are.
\<close>

theorem member_key_roundtrip:
  assumes u: "u \<noteq> []" and t: "no_sep (if truthy th then the th else MAIN_THREAD)"
  shows "member_user_from_key (Some (member_session_key u th)) = Some u
     \<and> member_thread_from_key (Some (member_session_key u th)) = Some (if truthy th then the th else MAIN_THREAD)
     \<and> session_key_to_thread known (Some (member_session_key u th)) room
         = (if truthy th then the th else MAIN_THREAD)"
proof -
  let ?t = "if truthy th then the th else MAIN_THREAD"
  have k: "member_session_key u th = u @ ''::'' @ ?t" by (simp add: member_session_key_def MAIN_THREAD_def)
  obtain i where i: "length u = Suc i" using u by (cases u) auto
  have s: "last_sep (member_session_key u th) = Some (Suc i)"
    unfolding k last_sep_append[OF t] i ..
  have t1: "truthy (Some (member_session_key u th))" by (simp add: k)
  have cut: "take (Suc i) (member_session_key u th) = u" "drop (Suc i + 2) (member_session_key u th) = ?t"
    unfolding k by (simp_all add: i[symmetric])
  show ?thesis
    unfolding member_user_from_key_def member_thread_from_key_def session_key_to_thread_def Let_def option.sel s
    using t1 cut by simp
qed

theorem member_key_roundtrip_witness:
  "member_user_from_key (Some (member_session_key ''webchat:ts:a@x'' None)) = Some ''webchat:ts:a@x''"
proof -
  have "no_sep (if truthy None then the None else MAIN_THREAD)" by code_simp
  from member_key_roundtrip[OF _ this, of "''webchat:ts:a@x''"] show ?thesis by simp
qed

section \<open>The registry\<close>

definition thread_keys :: "chat_db \<Rightarrow> (string \<times> string) set" where
  "thread_keys db = th_key ` set (c_threads db)"

lemma thread_keys_ensure: "thread_keys (ensure_thread r t ti k now db) = insert (r, t) (thread_keys db)"
proof -
  have "tbl_get th_key (r, t) (c_threads db) = None \<longleftrightarrow> (r, t) \<notin> thread_keys db"
    by (simp add: tbl_get_None thread_keys_def)
  then show ?thesis
    by (auto simp: ensure_thread_def thread_keys_def tbl_insert_new_def th_key_def)
qed

lemma get_thread_iff: "get_webchat_thread r t db \<noteq> None \<longleftrightarrow> (r, t) \<in> thread_keys db"
  by (simp add: get_webchat_thread_def thread_keys_def tbl_get_None)

lemma resolve_cases:
  assumes "resolve_bounded_thread api room req now db = (t, db')"
  shows "(t = MAIN_THREAD \<and> db' = db) \<or> ((room, t) \<in> thread_keys db \<and> db' = db)
    \<or> (\<exists>a \<in> set (get_agents_for_webchat_room api room db).
         t = agent_lane (ag_folder a) \<and> db' = ensure_agent_thread room (ag_folder a) (ag_name a) now db)"
proof -
  let ?w = "if truthy req then the req else MAIN_THREAD"
  show ?thesis
  proof (cases "?w = MAIN_THREAD")
    case True
    with assms show ?thesis unfolding resolve_bounded_thread_def Let_def by simp
  next
    case notmain: False
    show ?thesis
    proof (cases "starts_with ?w ''agent:''")
      case False
      with notmain assms show ?thesis
        unfolding resolve_bounded_thread_def Let_def using get_thread_iff[of room ?w db]
        by (auto split: if_split_asm)
    next
      case True
      let ?f = "drop (length ''agent:'') ?w"
      let ?o = "find (\<lambda>a. ag_folder a = ?f) (get_agents_for_webchat_room api room db)"
      have lane: "?w = agent_lane ?f"
      proof -
        obtain k where k: "?w = ''agent:'' @ k" using True unfolding starts_with_def by (rule prefixE)
        have f: "?f = k" unfolding k by simp
        show ?thesis unfolding agent_lane_def f by (rule k)
      qed
      have r: "(t, db') = (case ?o of
           Some a \<Rightarrow> (?w, ensure_agent_thread room ?f (ag_name a) now db) | None \<Rightarrow> (MAIN_THREAD, db))"
        using assms notmain True unfolding resolve_bounded_thread_def Let_def by simp
      show ?thesis
      proof (cases ?o)
        case None
        with r show ?thesis by simp
      next
        case (Some a)
        then have a: "a \<in> set (get_agents_for_webchat_room api room db)" "ag_folder a = ?f"
          using find_SomeD[OF Some] by simp_all
        from r Some have "t = ?w" "db' = ensure_agent_thread room ?f (ag_name a) now db" by simp_all
        with a lane show ?thesis by metis
      qed
    qed
  qed
qed

lemma resolve_keeps_wiring:
  "resolve_bounded_thread api room req now db = (t, db') \<Longrightarrow> mg_api_ok api
   \<Longrightarrow> get_agents_for_webchat_room api room db' = get_agents_for_webchat_room api room db"
  by (drule resolve_cases) (auto simp: ensure_agent_thread_def ensure_thread_def intro!: get_agents_cong)

text \<open>The registry after a list of requests, and where each was routed.\<close>

fun route_all :: "mg_api \<Rightarrow> string \<Rightarrow> (string option \<times> millis) list \<Rightarrow> chat_db \<Rightarrow> string list \<times> chat_db" where
  "route_all api room [] db = ([], db)"
| "route_all api room ((req, now) # rest) db =
     (let (t, db1) = resolve_bounded_thread api room req now db;
          (ts, db2) = route_all api room rest db1 in (t # ts, db2))"

definition lanes :: "mg_api \<Rightarrow> string \<Rightarrow> chat_db \<Rightarrow> (string \<times> string) set" where
  "lanes api room db = (\<lambda>a. (room, agent_lane (ag_folder a))) ` set (get_agents_for_webchat_room api room db)"

lemma resolve_keys:
  assumes "resolve_bounded_thread api room req now db = (t, db')"
  shows "thread_keys db' \<subseteq> thread_keys db \<union> lanes api room db \<and> thread_keys db \<subseteq> thread_keys db'
    \<and> (t = MAIN_THREAD \<or> (room, t) \<in> thread_keys db')"
  using resolve_cases[OF assms]
  by (auto simp: lanes_def ensure_agent_thread_def thread_keys_ensure)

lemma route_all_keys:
  assumes "mg_api_ok api" "route_all api room reqs db = (ts, db')"
  shows "thread_keys db' \<subseteq> thread_keys db \<union> lanes api room db \<and> thread_keys db \<subseteq> thread_keys db'
    \<and> (\<forall>t \<in> set ts. t = MAIN_THREAD \<or> (room, t) \<in> thread_keys db')"
  using assms
proof (induction reqs arbitrary: db ts)
  case Nil
  then show ?case by simp
next
  case (Cons r rest)
  obtain req now where r: "r = (req, now)" by fastforce
  obtain t db1 where one: "resolve_bounded_thread api room req now db = (t, db1)" by fastforce
  obtain us where rest: "route_all api room rest db1 = (us, db')" and ts: "ts = t # us"
    using Cons.prems(2) r one by (auto split: prod.splits)
  have l: "lanes api room db1 = lanes api room db"
    using resolve_keeps_wiring[OF one Cons.prems(1)] by (simp add: lanes_def)
  show ?case using resolve_keys[OF one] Cons.IH[OF Cons.prems(1) rest] unfolding l ts by auto
qed

text \<open>
  Whatever thread ids clients send, requests to a room can add at most one lane per wired agent to
  the thread registry, and every request is routed to the main thread or to a registered one; so
  client input cannot spawn sessions without bound.
\<close>

theorem thread_requests_bounded:
  assumes ok: "mg_api_ok api" and r: "route_all api room reqs db = (ts, db')"
  shows "card (thread_keys db' - thread_keys db) \<le> length (get_agents_for_webchat_room api room db)
     \<and> (\<forall>t \<in> set ts. t = MAIN_THREAD \<or> (room, t) \<in> thread_keys db')"
proof -
  have "thread_keys db' - thread_keys db \<subseteq> lanes api room db" using route_all_keys[OF ok r] by blast
  then have "card (thread_keys db' - thread_keys db) \<le> card (lanes api room db)"
    by (intro card_mono) (simp_all add: lanes_def)
  also have "\<dots> \<le> card (set (get_agents_for_webchat_room api room db))"
    unfolding lanes_def by (rule card_image_le) simp
  also have "\<dots> \<le> length (get_agents_for_webchat_room api room db)" by (rule card_length)
  finally show ?thesis using route_all_keys[OF ok r] by blast
qed

theorem thread_requests_bounded_witness:
  "card (thread_keys (snd (route_all host_mg_api ''r'' [(Some ''agent:bob'', 1), (Some ''zzz'', 2)] example_db))
      - thread_keys example_db) \<le> length (get_agents_for_webchat_room host_mg_api ''r'' example_db)"
  using thread_requests_bounded[OF host_mg_api_ok surjective_pairing] by blast

section \<open>Sync\<close>

lemma fold_max_init: "(a :: int) \<le> fold max xs a"
proof (induction xs arbitrary: a)
  case (Cons x xs)
  show ?case using Cons[of "max x a"] by simp
qed simp

lemma fold_max_ge: "(x :: int) \<in> set xs \<Longrightarrow> x \<le> fold max xs a"
proof (induction xs arbitrary: a)
  case (Cons y ys)
  then show ?case using fold_max_init[of "max y a" ys] by auto
qed simp

lemma sort_key_append_sorted:
  assumes "\<And>x y. x \<in> set xs \<Longrightarrow> y \<in> set ys \<Longrightarrow> f x \<le> f y" "sorted (map f ys)"
  shows "sort_key f (xs @ ys) = sort_key f xs @ ys"
proof (rule properties_for_sort_key)
  show "mset (sort_key f xs @ ys) = mset (xs @ ys)" by simp
  show "filter (\<lambda>x. f k = f x) (sort_key f xs @ ys) = filter (\<lambda>x. f k = f x) (xs @ ys)" for k
    by (simp add: eq_commute[of "f k"] sort_key_stable)
  show "sorted (map f (sort_key f xs @ ys))"
    using assms by (auto simp: sorted_append)
qed

lemma batch_members:
  "m \<in> set (synced_batch room dest rows dir d uuid base)
   \<Longrightarrow> m_room m = room \<and> m_thread m = dest \<and> m_origin m = Some dir \<and> base \<le> m_at m"
  by (auto simp: synced_batch_def sync_divider_def sync_copy_def)

lemma batch_sorted: "sorted (map message_key (synced_batch room dest rows dir d uuid base))"
proof -
  let ?b = "synced_batch room dest rows dir d uuid base"
  have times: "map m_at ?b = map (\<lambda>i. base + int i) [0..<Suc (length rows)]"
    by (rule nth_equalityI)
       (auto simp: synced_batch_def sync_divider_def sync_copy_def nth_Cons simp del: upt_Suc split: nat.split)
  have "m_at (?b ! i) < m_at (?b ! j)" if "i < j" "j < length ?b" for i j
  proof -
    have len: "length ?b = Suc (length rows)" by (simp add: synced_batch_def)
    have "m_at (?b ! k) = base + int k" if "k < length ?b" for k
      using that times len by (metis (no_types, lifting) add_0 diff_zero length_upt nth_map nth_upt)
    with that show ?thesis by simp
  qed
  then show ?thesis
    by (auto simp: sorted_iff_nth_mono_less message_key_def less_eq_prod_def)
qed

lemma tail_bound: "m \<in> set (c_messages db) \<Longrightarrow> m_room m = room \<Longrightarrow> m_thread m = th \<Longrightarrow> m_at m \<le> thread_tail room th db"
proof -
  assume m: "m \<in> set (c_messages db)" "m_room m = room" "m_thread m = th"
  let ?f = "filter (\<lambda>m. m_room m = room \<and> m_thread m = th) (c_messages db)"
  have mem: "m \<in> set ?f" using m by simp
  then obtain x xs where f: "?f = x # xs" by (cases ?f) auto
  have "m_at m \<le> fold max (map m_at xs) (m_at x)"
    using mem fold_max_ge[of "m_at m" "map m_at xs" "m_at x"] fold_max_init[of "m_at x" "map m_at xs"]
    unfolding f by auto
  then show ?thesis by (simp add: thread_tail_def f)
qed

text \<open>A sync that carries something, in one step.\<close>

lemma sync_unfold:
  assumes "get_sync_delta room src (get_sync_mark room mk dir db)
     (if get_sync_mark room mk dir db = 0 then cap else 0) db = delta" "delta \<noteq> []"
  shows "\<exists>seeds. sync_thread_context api room src dest mk dir d cap uuid now db =
     (\<lparr>sr_copied = length (filter (\<lambda>m. m_kind m \<noteq> KDivider)
          (synced_batch room dest delta dir d uuid (max now (thread_tail room dest db + 1)))),
       sr_broadcast = synced_batch room dest delta dir d uuid (max now (thread_tail room dest db + 1)),
       sr_seeds = seeds\<rparr>,
      set_thread_sync_mark room mk dir (fold max (map m_at delta) (get_sync_mark room mk dir db))
        (db\<lparr>c_messages := c_messages db @ synced_batch room dest delta dir d uuid (max now (thread_tail room dest db + 1))\<rparr>))"
  using assms by (simp add: sync_thread_context_def Let_def insert_synced_messages_def)

lemma set_mark_messages [simp]: "c_messages (set_thread_sync_mark r t dir ts db) = c_messages db"
  by (simp add: set_thread_sync_mark_def)

lemma set_mark_get:
  "get_sync_mark r t dir (set_thread_sync_mark r t dir ts db)
     = (if tbl_get sy_key (r, t) (c_sync db) = None then ts else max (get_sync_mark r t dir db) ts)"
proof (cases "tbl_get sy_key (r, t) (c_sync db)")
  case None
  then show ?thesis
    by (cases dir) (simp_all add: get_sync_mark_def set_thread_sync_mark_def tbl_get_def find_append sy_key_def)
next
  case (Some s)
  have k: "sy_key (case dir of Pulled \<Rightarrow> x\<lparr>sy_pulled := max (sy_pulled x) ts\<rparr>
      | Pushed \<Rightarrow> x\<lparr>sy_pushed := max (sy_pushed x) ts\<rparr>) = sy_key x" for x
    by (cases dir) (simp_all add: sy_key_def)
  let ?f = "\<lambda>x. case dir of Pulled \<Rightarrow> x\<lparr>sy_pulled := max (sy_pulled x) ts\<rparr>
      | Pushed \<Rightarrow> x\<lparr>sy_pushed := max (sy_pushed x) ts\<rparr>"
  have "tbl_get sy_key (r, t) (tbl_update (\<lambda>s. sy_key s = (r, t)) ?f (c_sync db)) = Some (?f s)"
    by (subst tbl_get_update) (use k Some tbl_get_SomeD[OF Some] in simp_all)
  then show ?thesis using Some
    by (cases dir) (simp_all add: get_sync_mark_def set_thread_sync_mark_def)
qed

lemma batch_not_native [simp]: "filter (native_in r t) (synced_batch room dest rows dir d uuid base) = []"
  using batch_members by (fastforce simp: filter_empty_conv native_in_def)

lemma delta_native:
  "get_sync_delta r t since cap db = (if 0 < cap \<and> since = 0
      then rev (take cap (rev (sort_key m_at (filter (native_in r t) (c_messages db)))))
      else sort_key m_at (filter (\<lambda>m. since < m_at m) (filter (native_in r t) (c_messages db))))"
  by (simp add: get_sync_delta_def conj_commute)

lemma delta_max:
  assumes x: "x \<in> set (filter (native_in r t) (c_messages db))" and s: "since < m_at x \<or> (since = 0 \<and> 0 < cap)"
  shows "m_at x \<le> fold max (map m_at (get_sync_delta r t since cap db)) since"
proof (cases "0 < cap \<and> since = 0")
  case True
  let ?s = "sort_key m_at (filter (native_in r t) (c_messages db))"
  have ne: "?s \<noteq> []" using x by (metis empty_iff empty_set set_sort)
  obtain i where i: "i < length ?s" "x = ?s ! i" using x by (metis in_set_conv_nth set_sort)
  have "map m_at ?s ! i \<le> map m_at ?s ! (length ?s - 1)"
    using i(1) by (intro sorted_nth_mono) (auto intro: sorted_sort_key)
  then have "m_at x \<le> m_at (last ?s)" using i ne by (simp add: last_conv_nth)
  moreover have "m_at (last ?s) \<in> set (map m_at (get_sync_delta r t since cap db))"
  proof -
    have "last (drop (length ?s - cap) ?s) = last ?s" using ne True by (intro last_drop) (cases ?s; simp)
    moreover have "drop (length ?s - cap) ?s \<noteq> []" using ne True by (cases ?s) auto
    ultimately have "last ?s \<in> set (drop (length ?s - cap) ?s)" by (metis last_in_set)
    then show ?thesis using True by (simp add: delta_native take_rev_drop)
  qed
  ultimately show ?thesis using fold_max_ge order_trans by blast
next
  case False
  then have "x \<in> set (get_sync_delta r t since cap db)" using x s by (auto simp: delta_native)
  then show ?thesis by (intro fold_max_ge) simp
qed

lemma sync_result_cases:
  assumes "sync_thread_context api room src dest mk dir d cap uuid now db = (r, db')"
  defines "since \<equiv> get_sync_mark room mk dir db"
  defines "delta \<equiv> get_sync_delta room src since (if since = 0 then cap else 0) db"
  defines "batch \<equiv> synced_batch room dest delta dir d uuid (max now (thread_tail room dest db + 1))"
  obtains (nothing) "delta = []" "r = \<lparr>sr_copied = 0, sr_broadcast = [], sr_seeds = []\<rparr>" "db' = db"
  | (copied) "delta \<noteq> []" "sr_broadcast r = batch"
      "sr_copied r = length (filter (\<lambda>m. m_kind m \<noteq> KDivider) batch)"
      "db' = set_thread_sync_mark room mk dir (fold max (map m_at delta) since)
               (db\<lparr>c_messages := c_messages db @ batch\<rparr>)"
proof (cases "delta = []")
  case True
  then have "sync_thread_context api room src dest mk dir d cap uuid now db
      = (\<lparr>sr_copied = 0, sr_broadcast = [], sr_seeds = []\<rparr>, db)"
    unfolding delta_def since_def by (simp add: sync_thread_context_def Let_def)
  with assms(1) have "r = \<lparr>sr_copied = 0, sr_broadcast = [], sr_seeds = []\<rparr>" "db' = db" by simp_all
  with True show thesis by (rule nothing)
next
  case False
  from sync_unfold[of room src mk dir db cap delta api dest d uuid now, folded since_def] False
  obtain seeds where "sync_thread_context api room src dest mk dir d cap uuid now db =
      (\<lparr>sr_copied = length (filter (\<lambda>m. m_kind m \<noteq> KDivider) batch), sr_broadcast = batch, sr_seeds = seeds\<rparr>,
       set_thread_sync_mark room mk dir (fold max (map m_at delta) since)
        (db\<lparr>c_messages := c_messages db @ batch\<rparr>))"
    unfolding batch_def since_def delta_def by blast
  with assms(1) False show thesis using copied by auto
qed

lemma sync_native:
  assumes "sync_thread_context api room src dest mk dir d cap uuid now db = (r, db')"
  shows "filter (native_in q t) (c_messages db') = filter (native_in q t) (c_messages db)"
  using assms by (cases rule: sync_result_cases) simp_all

text \<open>What a message says, apart from its id, thread, time and provenance.\<close>

definition said :: "message \<Rightarrow> string \<times> string \<times> string \<times> message_kind \<times> file_meta option \<times> string option" where
  "said m = (m_sender m, m_sender_type m, m_content m, m_kind m, m_file m, m_sender_id m)"

lemma batch_copies:
  assumes "\<forall>m \<in> set delta. m_kind m \<noteq> KDivider"
  shows "map said (filter (\<lambda>m. m_kind m \<noteq> KDivider) (synced_batch room dest delta dir d uuid base)) = map said delta"
proof -
  have "map said (filter (\<lambda>m. m_kind m \<noteq> KDivider)
      (map (\<lambda>(i, r). sync_copy room dest dir base i (uuid (Suc i)) r) (zip [k..<k + length rs] rs))) = map said rs"
    if "\<forall>m \<in> set rs. m_kind m \<noteq> KDivider" for rs k
    using that
  proof (induction rs arbitrary: k)
    case Nil
    then show ?case by simp
  next
    case (Cons x xs)
    have "zip [k..<k + length (x # xs)] (x # xs) = (k, x) # zip [Suc k..<Suc k + length xs] xs"
      by (simp add: upt_conv_Cons del: upt_Suc)
    then show ?case using Cons.IH[of "Suc k"] Cons.prems by (simp add: sync_copy_def said_def del: upt_Suc)
  qed
  from this[OF assms, of 0] show ?thesis by (simp add: synced_batch_def sync_divider_def)
qed

lemma delta_kinds: "m \<in> set (get_sync_delta q t since cap db) \<Longrightarrow> native_in q t m"
  by (auto simp: delta_native dest: in_set_takeD split: if_splits)

lemma delta_subset: "m \<in> set (get_sync_delta q t since cap db) \<Longrightarrow> m \<in> set (c_messages db)"
  by (auto simp: delta_native dest: in_set_takeD split: if_splits)

text \<open>
  A sync appends its batch to the destination thread: the history read there afterwards is the
  history before followed by what was broadcast, one divider and then verbatim copies of the
  source's messages in their order; every other thread's history is as it was.
\<close>

theorem sync_lands_in_order:
  assumes s: "sync_thread_context api room src dest mk dir d cap uuid now db = (r, db')"
  shows "history room (Some dest) db' = history room (Some dest) db @ sr_broadcast r
     \<and> map said (filter (\<lambda>m. m_kind m \<noteq> KDivider) (sr_broadcast r))
         = map said (get_sync_delta room src (get_sync_mark room mk dir db)
             (if get_sync_mark room mk dir db = 0 then cap else 0) db)
     \<and> sr_copied r = length (filter (\<lambda>m. m_kind m \<noteq> KDivider) (sr_broadcast r))
     \<and> (other = (room, dest) \<or> history (fst other) (Some (snd other)) db' = history (fst other) (Some (snd other)) db)"
  using s
proof (cases rule: sync_result_cases)
  case nothing
  then show ?thesis by simp
next
  case copied
  let ?delta = "get_sync_delta room src (get_sync_mark room mk dir db)
             (if get_sync_mark room mk dir db = 0 then cap else 0) db"
  let ?b = "synced_batch room dest ?delta dir d uuid (max now (thread_tail room dest db + 1))"
  let ?old = "filter (in_scope room (Some dest)) (c_messages db)"
  have scope: "filter (in_scope room (Some dest)) ?b = ?b"
    using batch_members by (fastforce simp: filter_id_conv in_scope_def)
  have later: "message_key x \<le> message_key y" if "x \<in> set ?old" "y \<in> set ?b" for x y
  proof -
    have "m_at x \<le> thread_tail room dest db" using that(1) by (intro tail_bound) (auto simp: in_scope_def)
    moreover have "thread_tail room dest db + 1 \<le> m_at y" using batch_members[OF that(2)] by simp
    ultimately show ?thesis by (simp add: message_key_def less_eq_prod_def)
  qed
  have "history room (Some dest) db' = sort_key message_key (?old @ ?b)"
    by (simp add: history_eq copied(4) scope)
  also have "\<dots> = sort_key message_key ?old @ ?b" by (rule sort_key_append_sorted[OF later batch_sorted])
  finally have h: "history room (Some dest) db' = history room (Some dest) db @ ?b" by (simp add: history_eq)
  have kinds: "\<forall>m \<in> set ?delta. m_kind m \<noteq> KDivider"
    using delta_kinds by (fastforce simp: native_in_def)
  have "filter (in_scope (fst other) (Some (snd other))) ?b = []" if "other \<noteq> (room, dest)"
  proof -
    have "\<not> in_scope (fst other) (Some (snd other)) m" if "m \<in> set ?b" for m
      using batch_members[OF that] \<open>other \<noteq> (room, dest)\<close> by (cases other) (auto simp: in_scope_def)
    then show ?thesis by (simp add: filter_empty_conv)
  qed
  moreover have "c_messages db' = c_messages db @ ?b" by (simp add: copied(4))
  ultimately have "other = (room, dest) \<or> history (fst other) (Some (snd other)) db' = history (fst other) (Some (snd other)) db"
    unfolding history_eq by (metis append_Nil2 filter_append)
  with h batch_copies[OF kinds] show ?thesis unfolding copied(2,3) by blast
qed

theorem sync_lands_in_order_witness:
  "history ''r'' (Some ''t'') (snd (pull_thread host_mg_api ''r'' ''t'' (\<lambda>i. replicate i CHR ''k'') 20 example_db))
     = history ''r'' (Some ''t'') example_db
       @ sr_broadcast (fst (pull_thread host_mg_api ''r'' ''t'' (\<lambda>i. replicate i CHR ''k'') 20 example_db))"
  unfolding pull_thread_def using sync_lands_in_order[OF surjective_pairing] by blast

text \<open>
  A sync carries each message once: repeated at any later time before new messages arrive in the
  source, it copies nothing, broadcasts nothing and changes nothing. (Message times are positive.)
\<close>

theorem sync_not_repeated:
  assumes s: "sync_thread_context api room src dest mk dir d cap uuid now db = (r, db')"
    and pos: "\<And>m. m \<in> set (c_messages db) \<Longrightarrow> 0 < m_at m"
    and k: "keyed sy_key (c_sync db)"
  shows "sync_thread_context api room src dest mk dir d cap uuid2 later db'
     = (\<lparr>sr_copied = 0, sr_broadcast = [], sr_seeds = []\<rparr>, db')"
  using s
proof (cases rule: sync_result_cases)
  case nothing
  then show ?thesis by (simp add: sync_thread_context_def Let_def)
next
  case copied
  let ?since = "get_sync_mark room mk dir db"
  let ?cap = "if ?since = 0 then cap else 0"
  let ?delta = "get_sync_delta room src ?since ?cap db"
  let ?m = "fold max (map m_at ?delta) ?since"
  have ge: "?since \<le> ?m" by (rule fold_max_init)
  obtain x where x: "x \<in> set ?delta" using copied(1) by (meson list.set_sel(1))
  have "m_at x \<in> set (map m_at ?delta)" using x by (simp only: set_map imageI)
  then have "m_at x \<le> ?m" by (rule fold_max_ge)
  with pos[OF delta_subset[OF x]] have m0: "0 < ?m" by linarith
  have mark: "get_sync_mark room mk dir db' = ?m"
    unfolding copied(4) set_mark_get using ge
    by (auto simp: get_sync_mark_def split: option.splits)
  have "get_sync_delta room src ?m 0 db' = []"
  proof -
    have "m_at y \<le> ?m" if y: "y \<in> set (filter (native_in room src) (c_messages db))" for y
    proof (cases "?since < m_at y \<or> (?since = 0 \<and> 0 < ?cap)")
      case True
      from delta_max[OF y True] show ?thesis .
    next
      case False
      with ge show ?thesis by simp
    qed
    then have "filter (\<lambda>m. ?m < m_at m) (filter (native_in room src) (c_messages db)) = []"
      unfolding filter_empty_conv by (meson not_le)
    then show ?thesis by (simp only: delta_native sync_native[OF s]) simp
  qed
  with mark m0 show ?thesis by (simp add: sync_thread_context_def Let_def)
qed

theorem sync_not_repeated_witness:
  "sr_copied (fst (pull_thread host_mg_api ''r'' ''t'' (\<lambda>i. replicate i CHR ''q'') 30
     (snd (pull_thread host_mg_api ''r'' ''t'' (\<lambda>i. replicate i CHR ''k'') 20 example_db)))) = 0"
proof -
  have pos: "m \<in> set (c_messages example_db) \<Longrightarrow> 0 < m_at m" for m
    by (auto simp: example_db_def example_message_def)
  have k: "keyed sy_key (c_sync example_db)" by (simp add: example_db_def empty_db_def)
  show ?thesis unfolding pull_thread_def
    by (simp add: sync_not_repeated[OF surjective_pairing pos k])
qed

text \<open>
  No echo: what a later pull or push of any thread would carry does not change by a sync, since
  copies are never native messages; so pulling and pushing back and forth multiplies nothing.
\<close>

theorem sync_no_echo:
  assumes "sync_thread_context api room src dest mk dir d cap uuid now db = (r, db')"
  shows "get_sync_delta q t since cap' db' = get_sync_delta q t since cap' db"
  by (simp add: delta_native sync_native[OF assms])

theorem sync_no_echo_witness:
  "get_sync_delta ''r'' ''t'' 0 50 (snd (pull_thread host_mg_api ''r'' ''t'' (\<lambda>i. replicate i CHR ''k'') 20 example_db))
     = get_sync_delta ''r'' ''t'' 0 50 example_db"
  unfolding pull_thread_def by (rule sync_no_echo[OF surjective_pairing])

text \<open>
  The mark is the time of the last message carried and the next sync asks for later ones, so a message
  stored in the same millisecond after a sync is never carried.
\<close>

definition late_twin :: chat_db where
  "late_twin = (let db = snd (pull_thread host_mg_api ''r'' ''t'' (\<lambda>i. replicate i CHR ''k'') 20 example_db)
     in put_message (example_message ''m9'' ''r'' ''u'' 12) db)"

lemma same_millisecond_message_lost:
  "sr_copied (fst (pull_thread host_mg_api ''r'' ''t'' (\<lambda>i. replicate i CHR ''q'') 30 late_twin)) = 0"
  by code_simp

end
