(* ===== verification/UserState.thy ===== *)
theory UserState
  imports MessageStore
begin

text \<open>
  What the chat remembers per user (\<open>channels/webchat/db.ts\<close>): read markers and unread counts, pinned,
  hidden and archived rooms, and mention handles.
\<close>

section \<open>The per-user room tables\<close>

text \<open>
  Hides, read markers and pins share one factory (\<open>userRoomFlagTable\<close>): the row's key is the pair of
  user and room. The locale is its contract; the three tables are its interpretations.
\<close>

definition remove_for_user :: "('r \<Rightarrow> string \<times> string) \<Rightarrow> string \<Rightarrow> string \<Rightarrow> 'r list \<Rightarrow> 'r list" where
  "remove_for_user key u room t = tbl_delete (\<lambda>r. key r = (u, room)) t"

definition room_ids_for_user :: "('r \<Rightarrow> string \<times> string) \<Rightarrow> string \<Rightarrow> 'r list \<Rightarrow> string list" where
  "room_ids_for_user key u t = remdups (map (\<lambda>r. snd (key r)) (filter (\<lambda>r. fst (key r) = u) t))"

definition clear_for_room :: "('r \<Rightarrow> string \<times> string) \<Rightarrow> string \<Rightarrow> 'r list \<Rightarrow> 'r list" where
  "clear_for_room key room t = tbl_delete (\<lambda>r. snd (key r) = room) t"

locale flag_table =
  fixes rooms :: "string \<Rightarrow> 's \<Rightarrow> string set"
    and add :: "string \<Rightarrow> string \<Rightarrow> 's \<Rightarrow> 's"
    and remove :: "string \<Rightarrow> string \<Rightarrow> 's \<Rightarrow> 's"
    and clear :: "string \<Rightarrow> 's \<Rightarrow> 's"
  assumes rooms_add: "rooms v (add u r s) = (if v = u then insert r (rooms v s) else rooms v s)"
    and rooms_remove: "rooms v (remove u r s) = (if v = u then rooms v s - {r} else rooms v s)"
    and rooms_clear: "rooms v (clear r s) = rooms v s - {r}"
begin

lemma add_remove: "rooms v (remove u r (add u r s)) = rooms v (remove u r s)"
  by (auto simp: rooms_add rooms_remove)

lemma clear_all_users: "r \<notin> rooms v (clear r s)"
  by (simp add: rooms_clear)

lemma add_after_clear: "rooms v (add u r (clear r s)) = (if v = u then insert r (rooms v s) else rooms v s - {r})"
  by (auto simp: rooms_add rooms_clear)

end

lemma rooms_keyed: "set (room_ids_for_user key u t) = {room. (u, room) \<in> key ` set t}"
proof (intro set_eqI iffI)
  fix x
  assume "x \<in> set (room_ids_for_user key u t)"
  then obtain r where "r \<in> set t" "fst (key r) = u" "x = snd (key r)" by (auto simp: room_ids_for_user_def)
  then show "x \<in> {room. (u, room) \<in> key ` set t}" by (auto simp: image_iff intro!: bexI[of _ r])
next
  fix x
  assume "x \<in> {room. (u, room) \<in> key ` set t}"
  then obtain r where r: "r \<in> set t" "key r = (u, x)" by auto
  then have "r \<in> set (filter (\<lambda>r. fst (key r) = u) t)" by simp
  with r(2) show "x \<in> set (room_ids_for_user key u t)"
    unfolding room_ids_for_user_def set_remdups set_map by (metis image_eqI snd_conv)
qed

lemma remove_keyed: "key ` set (remove_for_user key u room t) = key ` set t - {(u, room)}"
  by (auto simp: remove_for_user_def)

lemma clear_keyed: "key ` set (clear_for_room key room t) = {k \<in> key ` set t. snd k \<noteq> room}"
  by (auto simp: clear_for_room_def)

section \<open>Hides and archives\<close>

definition hide_room_for_user :: "string \<Rightarrow> string \<Rightarrow> millis \<Rightarrow> chat_db \<Rightarrow> chat_db" where
  "hide_room_for_user u room now db = db\<lparr>c_hides := tbl_insert_new hd_key
     \<lparr>hd_user = u, hd_room = room, hd_at = now\<rparr> (c_hides db)\<rparr>"

definition unhide_room_for_user :: "string \<Rightarrow> string \<Rightarrow> chat_db \<Rightarrow> chat_db" where
  "unhide_room_for_user u room db = db\<lparr>c_hides := remove_for_user hd_key u room (c_hides db)\<rparr>"

definition get_hidden_room_ids :: "string \<Rightarrow> chat_db \<Rightarrow> string list" where
  "get_hidden_room_ids u db = room_ids_for_user hd_key u (c_hides db)"

definition clear_hides_for_room :: "string \<Rightarrow> chat_db \<Rightarrow> chat_db" where
  "clear_hides_for_room room db = db\<lparr>c_hides := clear_for_room hd_key room (c_hides db)\<rparr>"

definition archive_room :: "string \<Rightarrow> string option \<Rightarrow> millis \<Rightarrow> chat_db \<Rightarrow> chat_db" where
  "archive_room room who now db = db\<lparr>c_archives := tbl_insert_new ar_room
     \<lparr>ar_room = room, ar_at = now, ar_by = who\<rparr> (c_archives db)\<rparr>"

definition unarchive_room :: "string \<Rightarrow> chat_db \<Rightarrow> chat_db" where
  "unarchive_room room db = db\<lparr>c_archives := tbl_delete (\<lambda>a. ar_room a = room) (c_archives db)\<rparr>"

definition is_room_archived :: "string \<Rightarrow> chat_db \<Rightarrow> bool" where
  "is_room_archived room db = list_ex (\<lambda>a. ar_room a = room) (c_archives db)"

definition get_archived_room_ids :: "chat_db \<Rightarrow> string list" where
  "get_archived_room_ids db = remdups (map ar_room (c_archives db))"

section \<open>Read markers\<close>

definition mark_room_read :: "string \<Rightarrow> string \<Rightarrow> millis \<Rightarrow> chat_db \<Rightarrow> chat_db" where
  "mark_room_read u room ts db = db\<lparr>c_reads :=
     (if tbl_get rd_key (u, room) (c_reads db) = None
      then c_reads db @ [\<lparr>rd_user = u, rd_room = room, rd_at = ts\<rparr>]
      else tbl_update (\<lambda>r. rd_key r = (u, room)) (\<lambda>r. r\<lparr>rd_at := max (rd_at r) ts\<rparr>) (c_reads db))\<rparr>"

definition room_marker :: "string \<Rightarrow> string \<Rightarrow> chat_db \<Rightarrow> millis option" where
  "room_marker u room db = map_option rd_at (tbl_get rd_key (u, room) (c_reads db))"

definition get_unread_room_count :: "string \<Rightarrow> chat_db \<Rightarrow> string \<Rightarrow> nat option" where
  "get_unread_room_count u db room =
     (let n = length (filter (\<lambda>m. m_room m = room \<and> coalesce (room_marker u room db) 0 < m_at m) (c_messages db))
      in if n = 0 then None else Some n)"

definition clear_reads_for_room :: "string \<Rightarrow> chat_db \<Rightarrow> chat_db" where
  "clear_reads_for_room room db = db\<lparr>c_reads := clear_for_room rd_key room (c_reads db)\<rparr>"

definition mark_thread_read :: "string \<Rightarrow> string \<Rightarrow> string \<Rightarrow> millis \<Rightarrow> chat_db \<Rightarrow> chat_db" where
  "mark_thread_read u room th ts db = db\<lparr>c_thread_reads :=
     (if tbl_get tr_key (u, room, th) (c_thread_reads db) = None
      then c_thread_reads db @ [\<lparr>tr_user = u, tr_room = room, tr_thread = th, tr_at = ts\<rparr>]
      else tbl_update (\<lambda>r. tr_key r = (u, room, th)) (\<lambda>r. r\<lparr>tr_at := max (tr_at r) ts\<rparr>) (c_thread_reads db))\<rparr>"

definition get_thread_read_marker :: "string \<Rightarrow> string \<Rightarrow> string \<Rightarrow> chat_db \<Rightarrow> millis option" where
  "get_thread_read_marker u room th db = map_option tr_at (tbl_get tr_key (u, room, th) (c_thread_reads db))"

definition get_unread_thread_count :: "string \<Rightarrow> string \<Rightarrow> chat_db \<Rightarrow> string \<Rightarrow> nat option" where
  "get_unread_thread_count u room db th =
     (let n = length (filter (\<lambda>m. m_room m = room \<and> m_thread m = th
                \<and> coalesce (get_thread_read_marker u room th db) 0 < m_at m) (c_messages db))
      in if n = 0 then None else Some n)"

definition get_room_last_activity :: "chat_db \<Rightarrow> string \<Rightarrow> millis option" where
  "get_room_last_activity db room = (case filter (\<lambda>m. m_room m = room) (c_messages db) of
     [] \<Rightarrow> None | m # ms \<Rightarrow> Some (fold max (map m_at ms) (m_at m)))"

section \<open>Pins\<close>

definition next_pin_pos :: "string \<Rightarrow> pin_row list \<Rightarrow> int" where
  "next_pin_pos u pins = (case filter (\<lambda>p. pin_user p = u) pins of
     [] \<Rightarrow> 0 | p # ps \<Rightarrow> fold max (map pin_pos ps) (pin_pos p) + 1)"

definition pin_room_for_user :: "string \<Rightarrow> string \<Rightarrow> millis \<Rightarrow> chat_db \<Rightarrow> chat_db" where
  "pin_room_for_user u room ts db = db\<lparr>c_pins := tbl_insert_new pin_key
     \<lparr>pin_user = u, pin_room = room, pin_at = ts, pin_pos = next_pin_pos u (c_pins db)\<rparr> (c_pins db)\<rparr>"

definition unpin_room_for_user :: "string \<Rightarrow> string \<Rightarrow> chat_db \<Rightarrow> chat_db" where
  "unpin_room_for_user u room db = db\<lparr>c_pins := remove_for_user pin_key u room (c_pins db)\<rparr>"

definition get_pinned_room_ids :: "string \<Rightarrow> chat_db \<Rightarrow> string list" where
  "get_pinned_room_ids u db = room_ids_for_user pin_key u (c_pins db)"

definition get_pinned_position :: "string \<Rightarrow> chat_db \<Rightarrow> string \<Rightarrow> int option" where
  "get_pinned_position u db room = map_option pin_pos (tbl_get pin_key (u, room) (c_pins db))"

definition set_pin_pos :: "string \<Rightarrow> int \<times> string \<Rightarrow> pin_row list \<Rightarrow> pin_row list" where
  "set_pin_pos u = (\<lambda>(i, room). tbl_update (\<lambda>p. pin_key p = (u, room)) (\<lambda>p. p\<lparr>pin_pos := i\<rparr>))"

definition set_pinned_order_for_user :: "string \<Rightarrow> string list \<Rightarrow> chat_db \<Rightarrow> chat_db" where
  "set_pinned_order_for_user u ids db = db\<lparr>c_pins :=
     fold (set_pin_pos u) (zip (map int [0..<length ids]) ids) (c_pins db)\<rparr>"

definition clear_pins_for_room :: "string \<Rightarrow> chat_db \<Rightarrow> chat_db" where
  "clear_pins_for_room room db = db\<lparr>c_pins := clear_for_room pin_key room (c_pins db)\<rparr>"

section \<open>Handles\<close>

definition get_user_handle :: "string \<Rightarrow> chat_db \<Rightarrow> string option" where
  "get_user_handle u db = map_option hn_handle (tbl_get hn_user u (c_handles db))"

definition user_id_for_handle :: "string \<Rightarrow> chat_db \<Rightarrow> string option" where
  "user_id_for_handle h db = map_option hn_user (tbl_get hn_handle (map lower h) (c_handles db))"

datatype handle_error = Invalid | Taken

definition put_handle :: "string \<Rightarrow> string \<Rightarrow> millis \<Rightarrow> handle_row list \<Rightarrow> handle_row list" where
  "put_handle u h now t = (if tbl_get hn_user u t = None
     then t @ [\<lparr>hn_user = u, hn_handle = h, hn_at = now\<rparr>]
     else tbl_update (\<lambda>r. hn_user r = u) (\<lambda>r. r\<lparr>hn_handle := h\<rparr>) t)"

definition set_user_handle :: "string \<Rightarrow> string \<Rightarrow> millis \<Rightarrow> chat_db \<Rightarrow> handle_error option \<times> chat_db" where
  "set_user_handle u handle now db =
     (let h = map lower handle; holder = user_id_for_handle h db in
      if \<not> handle_shape h then (Some Invalid, db)
      else if truthy holder \<and> holder \<noteq> Some u then (Some Taken, db)
      else (None, db\<lparr>c_handles := put_handle u h now (c_handles db)\<rparr>))"

definition handle_candidate :: "string \<Rightarrow> nat \<Rightarrow> string" where
  "handle_candidate base n = (if n = 1 then base else base @ ''-'' @ show_nat n)"

text \<open>\<open>INSERT OR IGNORE\<close>: nothing is stored when the user or the handle is already there.\<close>

definition insert_handle :: "string \<Rightarrow> string \<Rightarrow> millis \<Rightarrow> handle_row list \<Rightarrow> handle_row list" where
  "insert_handle u h now t =
     (if list_ex (\<lambda>r. hn_user r = u \<or> hn_handle r = h) t then t
      else t @ [\<lparr>hn_user = u, hn_handle = h, hn_at = now\<rparr>])"

fun ensure_handle_loop :: "string \<Rightarrow> string \<Rightarrow> millis \<Rightarrow> nat list \<Rightarrow> chat_db \<Rightarrow> string option \<times> chat_db" where
  "ensure_handle_loop u base now [] db = (None, db)"
| "ensure_handle_loop u base now (n # ns) db =
     (let candidate = handle_candidate base n in
      if user_id_for_handle candidate db \<noteq> None then ensure_handle_loop u base now ns db
      else (let db1 = db\<lparr>c_handles := insert_handle u candidate now (c_handles db)\<rparr>;
                mine = get_user_handle u db1
            in if truthy mine then (mine, db1) else ensure_handle_loop u base now ns db1))"

text \<open>\<open>None\<close> is the thrown \<open>No free handle\<close>.\<close>

definition ensure_user_handle :: "string \<Rightarrow> string \<Rightarrow> millis \<Rightarrow> chat_db \<Rightarrow> string option \<times> chat_db" where
  "ensure_user_handle u display now db =
     (if truthy (get_user_handle u db) then (get_user_handle u db, db)
      else ensure_handle_loop u (slugify_handle display) now [1..<1001] db)"

definition resolve_handles_to_user_ids :: "string list \<Rightarrow> chat_db \<Rightarrow> string list" where
  "resolve_handles_to_user_ids hs db =
     (let uniq = filter (\<lambda>h. h \<noteq> []) (remdups (map (map lower) hs)) in
      if length uniq = 0 then []
      else map hn_user (filter (\<lambda>r. hn_handle r \<in> set uniq) (c_handles db)))"

section \<open>Mentions\<close>

definition handle_char :: "char \<Rightarrow> bool" where
  "handle_char c = slug_char (lower c)"

definition ci_prefix :: "string \<Rightarrow> string \<Rightarrow> bool" where
  "ci_prefix h s = (length h \<le> length s \<and> map lower (take (length h) s) = map lower h)"

text \<open>\<open>/(?:^|[^a-z0-9_-])@handle(?![a-z0-9-])/i\<close>, with the character before the position tried.\<close>

fun mention_from :: "string \<Rightarrow> char option \<Rightarrow> string \<Rightarrow> bool" where
  "mention_from h prev [] = False"
| "mention_from h prev (c # cs) =
     ((c = CHR ''@'' \<and> (case prev of None \<Rightarrow> True | Some p \<Rightarrow> \<not> handle_char p \<and> p \<noteq> CHR ''_'')
        \<and> ci_prefix h cs
        \<and> (case drop (length h) cs of [] \<Rightarrow> True | d # _ \<Rightarrow> \<not> handle_char d))
      \<or> mention_from h (Some c) cs)"

definition mention_test :: "string \<Rightarrow> string \<Rightarrow> bool" where
  "mention_test h s = mention_from h None s"

text \<open>\<open>content LIKE '%@' || h || '%'\<close>; handles hold no wildcard.\<close>

fun like_mention :: "string \<Rightarrow> string \<Rightarrow> bool" where
  "like_mention h [] = False"
| "like_mention h (c # cs) = ((c = CHR ''@'' \<and> ci_prefix h cs) \<or> like_mention h cs)"

definition get_mentioned_room_ids :: "string \<Rightarrow> string \<Rightarrow> chat_db \<Rightarrow> string list" where
  "get_mentioned_room_ids u handle db =
     (let h = map lower handle in
      if h = [] then []
      else remdups (map m_room (filter (\<lambda>m. mention_test h (m_content m))
        (filter (\<lambda>m. like_mention h (m_content m)
            \<and> coalesce (room_marker u (m_room m) db) 0 < m_at m) (c_messages db)))))"

end
