(* ===== verification/UserFacts.thy ===== *)
theory UserFacts
  imports UserState
begin

text \<open>
  Facts about the per-user state: the three flag tables meet the factory's contract, read markers only
  advance, pins keep the order a user gave them, handles name one user each.
\<close>

section \<open>The flag tables\<close>

lemma keys_insert_new: "key ` set (tbl_insert_new key r t) = insert (key r) (key ` set t)"
  by (auto simp: tbl_insert_new_def tbl_get_None)

lemma keys_update: "(\<And>r. key (f r) = key r) \<Longrightarrow> key ` set (tbl_update p f t) = key ` set t"
proof -
  assume "\<And>r. key (f r) = key r"
  then have "key (if p r then f r else r) = key r" for r by simp
  then show ?thesis by (simp only: set_update image_image)
qed

interpretation hides: flag_table "\<lambda>u db. set (get_hidden_room_ids u db)"
  "\<lambda>u r. hide_room_for_user u r now" unhide_room_for_user clear_hides_for_room for now
proof
  show "set (get_hidden_room_ids v (hide_room_for_user u r now s))
      = (if v = u then insert r (set (get_hidden_room_ids v s)) else set (get_hidden_room_ids v s))" for v u r s
    by (auto simp: get_hidden_room_ids_def rooms_keyed hide_room_for_user_def keys_insert_new)
      (simp_all add: hd_key_def)
  show "set (get_hidden_room_ids v (unhide_room_for_user u r s))
      = (if v = u then set (get_hidden_room_ids v s) - {r} else set (get_hidden_room_ids v s))" for v u r s
    by (auto simp: get_hidden_room_ids_def rooms_keyed unhide_room_for_user_def remove_keyed)
  show "set (get_hidden_room_ids v (clear_hides_for_room r s)) = set (get_hidden_room_ids v s) - {r}" for v r s
    by (auto simp: get_hidden_room_ids_def rooms_keyed clear_hides_for_room_def clear_keyed)
qed

interpretation pins: flag_table "\<lambda>u db. set (get_pinned_room_ids u db)"
  "\<lambda>u r. pin_room_for_user u r now" unpin_room_for_user clear_pins_for_room for now
proof
  show "set (get_pinned_room_ids v (pin_room_for_user u r now s))
      = (if v = u then insert r (set (get_pinned_room_ids v s)) else set (get_pinned_room_ids v s))" for v u r s
    by (auto simp: get_pinned_room_ids_def rooms_keyed pin_room_for_user_def keys_insert_new)
      (simp_all add: pin_key_def)
  show "set (get_pinned_room_ids v (unpin_room_for_user u r s))
      = (if v = u then set (get_pinned_room_ids v s) - {r} else set (get_pinned_room_ids v s))" for v u r s
    by (auto simp: get_pinned_room_ids_def rooms_keyed unpin_room_for_user_def remove_keyed)
  show "set (get_pinned_room_ids v (clear_pins_for_room r s)) = set (get_pinned_room_ids v s) - {r}" for v r s
    by (auto simp: get_pinned_room_ids_def rooms_keyed clear_pins_for_room_def clear_keyed)
qed

lemma read_keys: "rd_key ` set (c_reads (mark_room_read u room ts db)) = insert (u, room) (rd_key ` set (c_reads db))"
proof (cases "tbl_get rd_key (u, room) (c_reads db)")
  case None
  then show ?thesis by (simp add: mark_room_read_def rd_key_def)
next
  case (Some r)
  then have "(u, room) \<in> rd_key ` set (c_reads db)" by (metis image_eqI tbl_get_SomeD)
  moreover have "rd_key (x\<lparr>rd_at := t\<rparr>) = rd_key x" for x t by (simp add: rd_key_def)
  ultimately show ?thesis using Some by (simp add: mark_room_read_def keys_update insert_absorb)
qed

interpretation read_markers: flag_table "\<lambda>u db. set (room_ids_for_user rd_key u (c_reads db))"
  "\<lambda>u r. mark_room_read u r ts" "\<lambda>u r db. db\<lparr>c_reads := remove_for_user rd_key u r (c_reads db)\<rparr>"
  clear_reads_for_room for ts
proof
  show "set (room_ids_for_user rd_key v (c_reads (mark_room_read u r ts s)))
      = (if v = u then insert r (set (room_ids_for_user rd_key v (c_reads s)))
         else set (room_ids_for_user rd_key v (c_reads s)))" for v u r s
    by (auto simp: rooms_keyed read_keys)
  show "set (room_ids_for_user rd_key v (c_reads (s\<lparr>c_reads := remove_for_user rd_key u r (c_reads s)\<rparr>)))
      = (if v = u then set (room_ids_for_user rd_key v (c_reads s)) - {r}
         else set (room_ids_for_user rd_key v (c_reads s)))" for v u r and s :: chat_db
    by (auto simp: rooms_keyed remove_keyed)
  show "set (room_ids_for_user rd_key v (c_reads (clear_reads_for_room r s)))
      = set (room_ids_for_user rd_key v (c_reads s)) - {r}" for v r s
    by (auto simp: rooms_keyed clear_keyed clear_reads_for_room_def)
qed

text \<open>
  Pinning and hiding are per user and reversible: they affect only the user and room named, undoing
  one leaves what was there without it, and clearing a room removes it for every user.
\<close>

theorem room_flags_per_user:
  "set (get_pinned_room_ids v (pin_room_for_user u r t db))
     = (if v = u then insert r (set (get_pinned_room_ids v db)) else set (get_pinned_room_ids v db))
   \<and> set (get_pinned_room_ids v (unpin_room_for_user u r (pin_room_for_user u r t db)))
     = set (get_pinned_room_ids v (unpin_room_for_user u r db))
   \<and> r \<notin> set (get_pinned_room_ids v (clear_pins_for_room r db))
   \<and> set (get_hidden_room_ids v (hide_room_for_user u r t db))
     = (if v = u then insert r (set (get_hidden_room_ids v db)) else set (get_hidden_room_ids v db))
   \<and> set (get_hidden_room_ids v (unhide_room_for_user u r (hide_room_for_user u r t db)))
     = set (get_hidden_room_ids v (unhide_room_for_user u r db))
   \<and> r \<notin> set (get_hidden_room_ids v (clear_hides_for_room r db))"
  by (intro conjI pins.rooms_add pins.add_remove pins.clear_all_users
        hides.rooms_add hides.add_remove hides.clear_all_users)

section \<open>Read markers\<close>

lemma marker_after_read:
  "room_marker v q (mark_room_read u room ts db)
     = (if (v, q) = (u, room) then Some (case room_marker u room db of None \<Rightarrow> ts | Some m \<Rightarrow> max m ts)
        else room_marker v q db)"
proof (cases "tbl_get rd_key (u, room) (c_reads db)")
  case None
  then show ?thesis
    by (auto simp: mark_room_read_def room_marker_def tbl_get_def find_append rd_key_def split: option.split)
next
  case (Some r)
  have k: "rd_key (x\<lparr>rd_at := t\<rparr>) = rd_key x" for x t by (simp add: rd_key_def)
  have "tbl_get rd_key (v, q) (c_reads (mark_room_read u room ts db))
      = map_option (\<lambda>r. if rd_key r = (u, room) then r\<lparr>rd_at := max (rd_at r) ts\<rparr> else r)
          (tbl_get rd_key (v, q) (c_reads db))"
    using Some by (simp add: mark_room_read_def tbl_get_update k)
  with Some show ?thesis
    by (cases "tbl_get rd_key (v, q) (c_reads db)") (auto simp: room_marker_def dest: tbl_get_SomeD)
qed

lemma mark_read_messages [simp]: "c_messages (mark_room_read u r ts db) = c_messages db"
  by (simp add: mark_room_read_def)

lemma length_filter_le_imp: "(\<And>x. P x \<Longrightarrow> Q x) \<Longrightarrow> length (filter P xs) \<le> length (filter Q xs)"
  by (induction xs) auto

definition unread_count :: "string \<Rightarrow> chat_db \<Rightarrow> string \<Rightarrow> nat" where
  "unread_count u db room = coalesce (get_unread_room_count u db room) 0"

lemma unread_count_eq: "unread_count u db room
   = length (filter (\<lambda>m. m_room m = room \<and> coalesce (room_marker u room db) 0 < m_at m) (c_messages db))"
  by (simp add: unread_count_def get_unread_room_count_def Let_def)

text \<open>
  Reading never un-reads: a mark, late or early, cannot raise anyone's unread count, cannot move a
  marker back, marks commute, and a mark at or after a room's last message clears its badge.
\<close>

theorem read_marks_monotone:
  assumes p: "0 \<le> ts"
  shows "unread_count v (mark_room_read u room ts db) q \<le> unread_count v db q
   \<and> room_marker v q (mark_room_read u room ts (mark_room_read u room ts' db))
       = room_marker v q (mark_room_read u room ts' (mark_room_read u room ts db))
   \<and> (\<exists>m. room_marker u room (mark_room_read u room ts db) = Some m \<and> ts \<le> m
        \<and> coalesce (room_marker u room db) 0 \<le> m)
   \<and> ((\<forall>m \<in> set (c_messages db). m_room m = room \<longrightarrow> m_at m \<le> ts)
        \<longrightarrow> get_unread_room_count u (mark_room_read u room ts db) room = None)"
proof (intro conjI)
  show mono: "\<exists>m. room_marker u room (mark_room_read u room ts db) = Some m \<and> ts \<le> m
        \<and> coalesce (room_marker u room db) 0 \<le> m"
    using p by (auto simp: marker_after_read split: option.split)
  show "unread_count v (mark_room_read u room ts db) q \<le> unread_count v db q"
  proof -
    have "coalesce (room_marker v q db) 0 \<le> coalesce (room_marker v q (mark_room_read u room ts db)) 0"
      using p by (auto simp: marker_after_read split: option.split)
    then show ?thesis unfolding unread_count_eq mark_read_messages
      by (intro length_filter_le_imp) auto
  qed
  show "room_marker v q (mark_room_read u room ts (mark_room_read u room ts' db))
       = room_marker v q (mark_room_read u room ts' (mark_room_read u room ts db))"
    by (auto simp: marker_after_read max.commute max.left_commute max.assoc split: option.split)
  show "(\<forall>m \<in> set (c_messages db). m_room m = room \<longrightarrow> m_at m \<le> ts)
        \<longrightarrow> get_unread_room_count u (mark_room_read u room ts db) room = None"
  proof
    assume a: "\<forall>m \<in> set (c_messages db). m_room m = room \<longrightarrow> m_at m \<le> ts"
    from mono obtain k where "room_marker u room (mark_room_read u room ts db) = Some k" "ts \<le> k" by blast
    with a have "filter (\<lambda>m. m_room m = room \<and> coalesce (room_marker u room (mark_room_read u room ts db)) 0 < m_at m)
        (c_messages (mark_room_read u room ts db)) = []"
      by (fastforce simp: filter_empty_conv)
    then show "get_unread_room_count u (mark_room_read u room ts db) room = None"
      by (simp add: get_unread_room_count_def Let_def)
  qed
qed

theorem read_marks_monotone_witness:
  "get_unread_room_count ''u'' (mark_room_read ''u'' ''r'' 12 example_db) ''r'' = None"
proof -
  have "\<forall>m \<in> set (c_messages example_db). m_room m = ''r'' \<longrightarrow> m_at m \<le> 12"
    by (simp add: example_db_def example_message_def)
  with read_marks_monotone[of 12 _ "''u''" "''r''" example_db] show ?thesis by simp
qed

section \<open>Pins\<close>

lemma set_pin_pos_get:
  "tbl_get pin_key k (set_pin_pos u x t)
     = map_option (\<lambda>p. if pin_key p = (u, snd x) then p\<lparr>pin_pos := fst x\<rparr> else p) (tbl_get pin_key k t)"
proof -
  have "pin_key (p\<lparr>pin_pos := i\<rparr>) = pin_key p" for p i by (simp add: pin_key_def)
  then show ?thesis by (cases x) (simp add: set_pin_pos_def tbl_get_update cong: if_cong)
qed

lemma fold_pin_pos_other:
  "k \<notin> (\<lambda>x. (u, snd x)) ` set xs \<Longrightarrow> tbl_get pin_key k (fold (set_pin_pos u) xs t) = tbl_get pin_key k t"
proof (induction xs arbitrary: t)
  case Nil
  then show ?case by simp
next
  case (Cons x xs)
  then have "tbl_get pin_key k (fold (set_pin_pos u) xs (set_pin_pos u x t)) = tbl_get pin_key k (set_pin_pos u x t)"
    by auto
  also have "\<dots> = tbl_get pin_key k t"
    using Cons.prems by (cases "tbl_get pin_key k t") (auto simp: set_pin_pos_get dest: tbl_get_SomeD)
  finally show ?case by simp
qed

lemma fold_pin_pos_at:
  assumes "distinct (map snd xs)" "(i, room) \<in> set xs"
  shows "map_option pin_pos (tbl_get pin_key (u, room) (fold (set_pin_pos u) xs t))
     = (if tbl_get pin_key (u, room) t = None then None else Some i)"
  using assms
proof (induction xs arbitrary: t)
  case Nil
  then show ?case by simp
next
  case (Cons x xs)
  show ?case
  proof (cases "x = (i, room)")
    case True
    then have "(u, room) \<notin> (\<lambda>x. (u, snd x)) ` set xs" using Cons.prems(1) by auto
    from fold_pin_pos_other[OF this, of "set_pin_pos u x t"] True show ?thesis
      by (cases "tbl_get pin_key (u, room) t") (auto simp: set_pin_pos_get dest: tbl_get_SomeD)
  next
    case False
    then have "(i, room) \<in> set xs" using Cons.prems(2) by simp
    with Cons.IH[of "set_pin_pos u x t"] Cons.prems(1) show ?thesis by (simp add: set_pin_pos_get)
  qed
qed

lemma next_pin_pos_above: "p \<in> set pins \<Longrightarrow> pin_user p = u \<Longrightarrow> pin_pos p < next_pin_pos u pins"
proof -
  assume p: "p \<in> set pins" "pin_user p = u"
  let ?f = "filter (\<lambda>p. pin_user p = u) pins"
  have mem: "p \<in> set ?f" using p by simp
  then obtain x xs where f: "?f = x # xs" by (cases ?f) auto
  have "pin_pos p \<le> fold max (map pin_pos xs) (pin_pos x)"
  proof (cases "p = x")
    case True
    have "a \<le> fold max ys a" for a :: int and ys
    proof (induction ys arbitrary: a)
      case (Cons y ys)
      show ?case using Cons[of "max y a"] by simp
    qed simp
    with True show ?thesis by simp
  next
    case False
    then have "pin_pos p \<in> set (map pin_pos xs)" using mem unfolding f by simp
    moreover have "y \<in> set ys \<Longrightarrow> y \<le> fold max ys a" for y a :: int and ys
    proof (induction ys arbitrary: a)
      case (Cons z ys)
      have up: "b \<le> fold max zs b" for b :: int and zs
      proof (induction zs arbitrary: b)
        case (Cons w zs)
        show ?case using Cons[of "max w b"] by simp
      qed simp
      show ?case using Cons up[of "max z a" ys] by auto
    qed simp
    ultimately show ?thesis by blast
  qed
  then show ?thesis by (simp add: next_pin_pos_def f)
qed

text \<open>
  A saved order becomes the positions of the user's own pins and nothing else: unknown or unpinned
  ids are ignored, other users' pins and the set of pinned rooms stay. A room pinned afresh
  lands below all of that user's pins; pinning it again does not move it.
\<close>

theorem pin_order_saved:
  assumes k: "keyed pin_key (c_pins db)" and d: "distinct ids"
  shows "(\<forall>i < length ids. get_pinned_position u (set_pinned_order_for_user u ids db) (ids ! i)
        = (if get_pinned_position u db (ids ! i) = None then None else Some (int i)))
   \<and> (\<forall>v room. v \<noteq> u \<or> room \<notin> set ids \<longrightarrow>
        get_pinned_position v (set_pinned_order_for_user u ids db) room = get_pinned_position v db room)
   \<and> (\<forall>r q n. get_pinned_position u db r = None \<and> get_pinned_position u db q = Some n \<longrightarrow>
        (\<exists>m. get_pinned_position u (pin_room_for_user u r ts db) r = Some m \<and> n < m))
   \<and> (\<forall>r. get_pinned_position u db r \<noteq> None \<longrightarrow> pin_room_for_user u r ts db = db)"
proof (intro conjI allI impI)
  let ?xs = "zip (map int [0..<length ids]) ids"
  fix i
  assume i: "i < length ids"
  then have "?xs ! i = (int i, ids ! i)" "i < length ?xs" by simp_all
  then have "(int i, ids ! i) \<in> set ?xs" by (metis nth_mem)
  from fold_pin_pos_at[OF _ this, of u "c_pins db"] d
  show "get_pinned_position u (set_pinned_order_for_user u ids db) (ids ! i)
      = (if get_pinned_position u db (ids ! i) = None then None else Some (int i))"
    by (simp add: get_pinned_position_def set_pinned_order_for_user_def)
next
  fix v room
  assume "v \<noteq> u \<or> room \<notin> set ids"
  then have "(v, room) \<notin> (\<lambda>x. (u, snd x)) ` set (zip (map int [0..<length ids]) ids)"
    by (auto dest: set_zip_rightD)
  from fold_pin_pos_other[OF this, of "c_pins db"]
  show "get_pinned_position v (set_pinned_order_for_user u ids db) room = get_pinned_position v db room"
    by (simp add: get_pinned_position_def set_pinned_order_for_user_def)
next
  fix r q n
  assume "get_pinned_position u db r = None \<and> get_pinned_position u db q = Some n"
  then obtain p where r: "tbl_get pin_key (u, r) (c_pins db) = None"
    and p: "tbl_get pin_key (u, q) (c_pins db) = Some p" "pin_pos p = n"
    by (auto simp: get_pinned_position_def)
  then have "n < next_pin_pos u (c_pins db)"
    using next_pin_pos_above[of p "c_pins db" u] tbl_get_SomeD[OF p(1)] by (auto simp: pin_key_def)
  with r show "\<exists>m. get_pinned_position u (pin_room_for_user u r ts db) r = Some m \<and> n < m"
    by (simp add: get_pinned_position_def pin_room_for_user_def tbl_get_insert_new) (simp add: pin_key_def)
next
  fix r
  assume "get_pinned_position u db r \<noteq> None"
  then show "pin_room_for_user u r ts db = db"
    by (auto simp: get_pinned_position_def pin_room_for_user_def tbl_insert_new_def pin_key_def)
qed

definition pins_db :: chat_db where
  "pins_db = pin_room_for_user ''u'' ''s'' 2 (pin_room_for_user ''u'' ''r'' 1 example_db)"

theorem pin_order_saved_witness:
  "get_pinned_position ''u'' (set_pinned_order_for_user ''u'' [''s'', ''zz'', ''r''] pins_db) ''r'' = Some 2"
proof -
  have k: "keyed pin_key (c_pins pins_db)" by code_simp
  have d: "distinct [''s'', ''zz'', ''r'']" by simp
  have p: "get_pinned_position ''u'' pins_db ''r'' \<noteq> None" by code_simp
  show ?thesis
    using pin_order_saved[OF k d, of "''u''", THEN conjunct1, THEN spec, of 2] p by simp
qed

section \<open>Handles\<close>

definition show_value :: "string \<Rightarrow> nat" where
  "show_value s = foldl (\<lambda>a c. a * 10 + (code c - 48)) 0 s"

lemma show_value_show_nat: "show_value (show_nat n) = n"
proof (induction n rule: show_nat.induct)
  case (1 n)
  have c: "code (char_of (48 + k)) = 48 + k" if "k < 10" for k
    using that by (intro code_char_of) simp
  show ?case
  proof (cases "n < 10")
    case True
    then show ?thesis by (simp add: show_nat.simps[of n] show_value_def c)
  next
    case False
    then show ?thesis using 1 by (simp add: show_nat.simps[of n] show_value_def c)
  qed
qed

lemma handle_candidate_inj: "handle_candidate base n = handle_candidate base m \<Longrightarrow> n = m"
  using show_value_show_nat by (auto simp: handle_candidate_def split: if_splits) (metis)

definition handles_ok :: "chat_db \<Rightarrow> bool" where
  "handles_ok db = (keyed hn_user (c_handles db) \<and> keyed hn_handle (c_handles db)
     \<and> (\<forall>r \<in> set (c_handles db). hn_handle r \<noteq> [] \<and> hn_user r \<noteq> [] \<and> map lower (hn_handle r) = hn_handle r))"

lemma handle_free: "user_id_for_handle h db = None \<longleftrightarrow> map lower h \<notin> hn_handle ` set (c_handles db)"
  by (simp add: user_id_for_handle_def tbl_get_None)

lemma ensure_loop_result:
  assumes u: "u \<notin> hn_user ` set (c_handles db)"
    and low: "\<And>n. map lower (handle_candidate base n) = handle_candidate base n"
    and ne: "base \<noteq> []"
    and ex: "\<exists>n \<in> set ns. handle_candidate base n \<notin> hn_handle ` set (c_handles db)"
  shows "\<exists>n \<in> set ns. handle_candidate base n \<notin> hn_handle ` set (c_handles db)
     \<and> ensure_handle_loop u base now ns db = (Some (handle_candidate base n),
         db\<lparr>c_handles := c_handles db @ [\<lparr>hn_user = u, hn_handle = handle_candidate base n, hn_at = now\<rparr>]\<rparr>)"
  using ex
proof (induction ns)
  case Nil
  then show ?case by simp
next
  case (Cons n ns)
  show ?case
  proof (cases "handle_candidate base n \<in> hn_handle ` set (c_handles db)")
    case True
    then have "ensure_handle_loop u base now (n # ns) db = ensure_handle_loop u base now ns db"
      using handle_free[of "handle_candidate base n" db] by (simp add: low)
    moreover have "\<exists>n \<in> set ns. handle_candidate base n \<notin> hn_handle ` set (c_handles db)"
      using Cons.prems True by auto
    ultimately show ?thesis using Cons.IH by auto
  next
    case False
    let ?c = "handle_candidate base n"
    have free: "user_id_for_handle ?c db = None" using False by (simp add: handle_free low)
    have "\<not> list_ex (\<lambda>r. hn_user r = u \<or> hn_handle r = ?c) (c_handles db)"
      unfolding list_ex_iff using u False by (metis image_eqI)
    then have ins: "insert_handle u ?c now (c_handles db)
        = c_handles db @ [\<lparr>hn_user = u, hn_handle = ?c, hn_at = now\<rparr>]" by (simp add: insert_handle_def)
    have none: "find (\<lambda>r. hn_user r = u) (c_handles db) = None" using u by (auto simp: find_None_iff_all)
    have "?c \<noteq> []" using ne by (simp add: handle_candidate_def)
    with free ins none False show ?thesis
      by (intro bexI[of _ n]) (simp_all add: Let_def get_user_handle_def tbl_get_def find_append)
  qed
qed

lemma slug_lower: "(\<forall>c \<in> set s. slug_char c) \<Longrightarrow> map lower s = s"
  by (simp add: lower_slug_char map_idI)

lemma show_nat_digits: "c \<in> set (show_nat n) \<Longrightarrow> slug_char c"
proof (induction n rule: show_nat.induct)
  case (1 n)
  have d: "slug_char (char_of (48 + k))" if "k < 10" for k :: nat
    using that code_char_of[of "48 + k"] by (simp add: slug_char_def is_alnum_def is_digit_def)
  show ?case using 1 d by (cases "n < 10") (auto simp: show_nat.simps[of n])
qed

lemma candidate_chars: "c \<in> set (handle_candidate (slugify_handle name) n) \<Longrightarrow> slug_char c"
  using slugify_handle_shape[of name] show_nat_digits
  by (auto simp: handle_candidate_def handle_shape_def slug_char_def dash_def split: if_splits)

text \<open>
  While fewer than a thousand handles exist, a connecting user always gets one: their own if they
  have it, else a fresh one derived from the display name; no two users ever share one, and the
  handle resolves back to the user.
\<close>

theorem every_user_gets_a_handle:
  assumes ok: "handles_ok db" and few: "length (c_handles db) < 1000" and u: "u \<noteq> []"
  shows "\<exists>h db'. ensure_user_handle u name now db = (Some h, db') \<and> handles_ok db'
     \<and> get_user_handle u db' = Some h \<and> user_id_for_handle h db' = Some u"
proof (cases "get_user_handle u db")
  case (Some h)
  then obtain r where r: "tbl_get hn_user u (c_handles db) = Some r" "h = hn_handle r"
    by (auto simp: get_user_handle_def)
  then have m: "r \<in> set (c_handles db)" "hn_user r = u" using tbl_get_SomeD[OF r(1)] by auto
  then have "h \<noteq> []" "map lower h = h" using ok r(2) by (auto simp: handles_ok_def)
  moreover have "tbl_get hn_handle h (c_handles db) = Some r"
    unfolding r(2) using ok m(1) by (intro tbl_get_mem) (simp_all add: handles_ok_def)
  ultimately show ?thesis using Some ok m(2) by (simp add: ensure_user_handle_def user_id_for_handle_def)
next
  case None
  let ?base = "slugify_handle name"
  let ?cs = "map (handle_candidate ?base) [1..<1001]"
  have fresh: "u \<notin> hn_user ` set (c_handles db)"
    using None by (simp add: get_user_handle_def tbl_get_None)
  have "distinct ?cs" using handle_candidate_inj by (auto simp: distinct_map inj_on_def)
  then have "card (set ?cs) = 1000" by (simp only: distinct_card) simp
  moreover have "card (hn_handle ` set (c_handles db)) < 1000"
    using few by (metis card_length le_less_trans length_map set_map)
  ultimately have "\<not> set ?cs \<subseteq> hn_handle ` set (c_handles db)"
    using card_mono[of "hn_handle ` set (c_handles db)" "set ?cs"] by fastforce
  then have ex: "\<exists>n \<in> set [1..<1001]. handle_candidate ?base n \<notin> hn_handle ` set (c_handles db)"
    unfolding set_map by blast
  have low: "map lower (handle_candidate ?base n) = handle_candidate ?base n" for n
    using candidate_chars by (intro slug_lower) blast
  have ne: "?base \<noteq> []" using slugify_handle_shape[of name] by (auto simp: handle_shape_def)
  obtain n where n: "handle_candidate ?base n \<notin> hn_handle ` set (c_handles db)"
      "ensure_handle_loop u ?base now [1..<1001] db = (Some (handle_candidate ?base n),
         db\<lparr>c_handles := c_handles db @ [\<lparr>hn_user = u, hn_handle = handle_candidate ?base n, hn_at = now\<rparr>]\<rparr>)"
    using ensure_loop_result[OF fresh low ne ex] by blast
  let ?c = "handle_candidate ?base n"
  let ?db = "db\<lparr>c_handles := c_handles db @ [\<lparr>hn_user = u, hn_handle = ?c, hn_at = now\<rparr>]\<rparr>"
  have c: "?c \<noteq> []" using ne by (simp add: handle_candidate_def)
  have e: "ensure_user_handle u name now db = (Some ?c, ?db)"
    unfolding ensure_user_handle_def None n(2) by simp
  have okdb: "handles_ok ?db" using ok fresh n(1) u c low by (simp add: handles_ok_def keyed_def)
  have mem: "\<lparr>hn_user = u, hn_handle = ?c, hn_at = now\<rparr> \<in> set (c_handles ?db)" by simp
  have "tbl_get hn_user u (c_handles ?db) = Some \<lparr>hn_user = u, hn_handle = ?c, hn_at = now\<rparr>"
    using tbl_get_mem[OF _ mem, of hn_user] okdb by (simp add: handles_ok_def)
  moreover have "tbl_get hn_handle ?c (c_handles ?db) = Some \<lparr>hn_user = u, hn_handle = ?c, hn_at = now\<rparr>"
    using tbl_get_mem[OF _ mem, of hn_handle] okdb by (simp add: handles_ok_def)
  ultimately have "get_user_handle u ?db = Some ?c" "user_id_for_handle ?c ?db = Some u"
    unfolding get_user_handle_def user_id_for_handle_def low by simp_all
  with e okdb show ?thesis by blast
qed

theorem every_user_gets_a_handle_witness:
  "\<exists>h db'. ensure_user_handle ''webchat:ts:a'' ''Ann B'' 7 example_db = (Some h, db')"
  using every_user_gets_a_handle[of example_db "''webchat:ts:a''"]
  by (simp add: handles_ok_def example_db_def empty_db_def) blast

text \<open>
  A suffixed default handle is not shortened to the 32 characters the setter accepts, so its owner
  cannot set the handle they were given.
\<close>

definition long_name :: string where "long_name = replicate 32 CHR ''a''"

definition long_name_db :: chat_db where
  "long_name_db = empty_db\<lparr>c_handles := [\<lparr>hn_user = ''u1'', hn_handle = long_name, hn_at = 1\<rparr>]\<rparr>"

lemma suffixed_handle_too_long:
  "fst (ensure_user_handle ''u2'' long_name 2 long_name_db) = Some (long_name @ ''-2'')
   \<and> length (long_name @ ''-2'') = 34
   \<and> fst (set_user_handle ''u2'' (long_name @ ''-2'') 3 long_name_db) = Some Invalid"
proof -
  have n: "[1..<1001] = 1 # 2 # [3..<1001::nat]"
  proof -
    have "[1..<1001::nat] = 1 # [Suc 1..<1001]" "[2..<1001::nat] = 2 # [Suc 2..<1001]"
      by (rule upt_conv_Cons; simp)+
    moreover have "Suc 1 = (2::nat)" "Suc 2 = (3::nat)" by simp_all
    ultimately show ?thesis by (simp only:)
  qed
  have "fst (ensure_handle_loop ''u2'' (slugify_handle long_name) 2 (1 # 2 # ns) long_name_db)
      = Some (long_name @ ''-2'')" for ns
    by code_simp
  moreover have "\<not> truthy (get_user_handle ''u2'' long_name_db)" by code_simp
  moreover have "length (long_name @ ''-2'') = 34
      \<and> fst (set_user_handle ''u2'' (long_name @ ''-2'') 3 long_name_db) = Some Invalid" by code_simp
  ultimately show ?thesis unfolding ensure_user_handle_def n by (simp only: if_False simp_thms)
qed

end
