(* ===== verification/SettingsStore.thy ===== *)
theory SettingsStore
  imports ChatDb
begin

text \<open>
  Settings and models (\<open>channels/webchat/db.ts\<close>): the singleton row of \<open>webchat_settings\<close> behind a
  getter and setter factory, the per-room settings, and which model powers an agent. A row is a map
  from column names to stored values; a column the migrations have not added is not in its domain.
\<close>

datatype sql_value = SNull | SInt int | SText string

type_synonym sql_row = "string \<Rightarrow> sql_value option"

text \<open>The singleton table: \<open>None\<close> when the table is missing, \<open>Some None\<close> when it holds no row.\<close>

record settings_db =
  st_schema :: sql_row
  st_row :: "sql_row option option"

section \<open>The credentials policy\<close>

record credentials_config =
  cc_mode :: string
  cc_anthropic_key :: bool
  cc_claude_oauth :: bool
  cc_openai_key :: bool
  cc_codex_oauth :: bool
  cc_grok_oauth :: bool

definition DEFAULT_CREDENTIALS_CONFIG :: credentials_config where
  "DEFAULT_CREDENTIALS_CONFIG = \<lparr>cc_mode = ''disabled'', cc_anthropic_key = True, cc_claude_oauth = False,
     cc_openai_key = False, cc_codex_oauth = False, cc_grok_oauth = False\<rparr>"

definition is_one :: "sql_value option \<Rightarrow> bool" where
  "is_one v = (v = Some (SInt 1))"

definition text_or :: "string \<Rightarrow> sql_value option \<Rightarrow> string" where
  "text_or d v = (case v of Some (SText t) \<Rightarrow> t | _ \<Rightarrow> d)"

definition get_credentials_config :: "settings_db \<Rightarrow> credentials_config" where
  "get_credentials_config db = (case st_row db of
     None \<Rightarrow> DEFAULT_CREDENTIALS_CONFIG
   | Some None \<Rightarrow> DEFAULT_CREDENTIALS_CONFIG
   | Some (Some row) \<Rightarrow> \<lparr>
       cc_mode = text_or ''disabled'' (row ''default_credential_mode''),
       cc_anthropic_key = is_one (row ''allow_anthropic_key''),
       cc_claude_oauth = is_one (row ''allow_claude_oauth''),
       cc_openai_key = is_one (row ''allow_openai_key''),
       cc_codex_oauth = is_one (row ''allow_codex_oauth''),
       cc_grok_oauth = is_one (row ''allow_grok_oauth'')\<rparr>)"

definition bit :: "bool \<Rightarrow> sql_value" where
  "bit b = SInt (if b then 1 else 0)"

definition config_columns :: "string list" where
  "config_columns = [''default_credential_mode'', ''allow_anthropic_key'', ''allow_claude_oauth'',
     ''allow_openai_key'', ''allow_codex_oauth'']"

definition seed_row :: "credentials_config \<Rightarrow> sql_row \<Rightarrow> sql_row" where
  "seed_row c row = row(
     ''default_credential_mode'' \<mapsto> SText (cc_mode c),
     ''allow_anthropic_key'' \<mapsto> bit (cc_anthropic_key c),
     ''allow_claude_oauth'' \<mapsto> bit (cc_claude_oauth c),
     ''allow_openai_key'' \<mapsto> bit (cc_openai_key c),
     ''allow_codex_oauth'' \<mapsto> bit (cc_codex_oauth c))"

text \<open>A \<open>Partial\<close> patch is a function on the configuration; \<open>None\<close> is the error of a missing table or column.\<close>

definition set_credentials_config ::
  "(credentials_config \<Rightarrow> credentials_config) \<Rightarrow> millis \<Rightarrow> settings_db \<Rightarrow> settings_db option" where
  "set_credentials_config patch now db =
     (let next = patch (get_credentials_config db);
          put = (\<lambda>row. (seed_row next row)(''allow_grok_oauth'' \<mapsto> bit (cc_grok_oauth next), ''updated_at'' \<mapsto> SInt now))
      in case st_row db of
           None \<Rightarrow> None
         | Some r \<Rightarrow> (if st_schema db ''allow_grok_oauth'' = None then None
             else Some (db\<lparr>st_row := Some (Some (put (case r of None \<Rightarrow> st_schema db | Some row \<Rightarrow> row)))\<rparr>)))"

section \<open>The settings factory\<close>

definition settings_getter :: "string \<Rightarrow> (sql_value option \<Rightarrow> 'a) \<Rightarrow> settings_db \<Rightarrow> 'a" where
  "settings_getter column decode db = (case st_row db of
     Some (Some row) \<Rightarrow> decode (row column)
   | _ \<Rightarrow> decode None)"

definition settings_setter :: "string \<Rightarrow> ('a \<Rightarrow> sql_value) \<Rightarrow> 'a \<Rightarrow> millis \<Rightarrow> settings_db \<Rightarrow> settings_db option" where
  "settings_setter column encode v now db = (case st_row db of
     None \<Rightarrow> None
   | Some r \<Rightarrow>
      (if st_schema db column = None then None
       else Some (db\<lparr>st_row := Some (Some ((case r of
           None \<Rightarrow> seed_row (get_credentials_config db) (st_schema db)
         | Some row \<Rightarrow> row)(column \<mapsto> encode v, ''updated_at'' \<mapsto> SInt now)))\<rparr>)))"

definition decode_bool :: "sql_value option \<Rightarrow> bool" where
  "decode_bool v = (v = Some (SInt 1))"

definition decode_nullable_string :: "sql_value option \<Rightarrow> string option" where
  "decode_nullable_string v = (case v of Some (SText t) \<Rightarrow> Some t | _ \<Rightarrow> None)"

definition encode_nullable_string :: "string option \<Rightarrow> sql_value" where
  "encode_nullable_string v = (case v of None \<Rightarrow> SNull | Some t \<Rightarrow> SText t)"

definition decode_nullable_bool :: "sql_value option \<Rightarrow> bool option" where
  "decode_nullable_bool v = (case v of None \<Rightarrow> None | Some SNull \<Rightarrow> None
     | Some (SInt i) \<Rightarrow> Some (i \<noteq> 0) | Some (SText t) \<Rightarrow> Some (t \<noteq> []))"

definition encode_nullable_bool :: "bool option \<Rightarrow> sql_value" where
  "encode_nullable_bool v = (case v of None \<Rightarrow> SNull | Some b \<Rightarrow> bit b)"

definition TURN_TRACE_DEFAULT_DAYS :: int where "TURN_TRACE_DEFAULT_DAYS = 90"

definition decode_turn_trace_days :: "sql_value option \<Rightarrow> int" where
  "decode_turn_trace_days v = (case v of Some (SInt i) \<Rightarrow> if 0 \<le> i then i else TURN_TRACE_DEFAULT_DAYS
     | _ \<Rightarrow> TURN_TRACE_DEFAULT_DAYS)"

definition decode_traces_enabled :: "sql_value option \<Rightarrow> bool" where
  "decode_traces_enabled v = (v \<noteq> Some (SInt 0))"

definition decode_cleanup_prompt :: "sql_value option \<Rightarrow> string option" where
  "decode_cleanup_prompt v = (case v of Some (SText t) \<Rightarrow> if js_trim t \<noteq> [] then Some t else None | _ \<Rightarrow> None)"

definition get_onboarding_complete :: "settings_db \<Rightarrow> bool" where
  "get_onboarding_complete = settings_getter ''onboarding_complete'' decode_bool"

definition set_onboarding_complete :: "bool \<Rightarrow> millis \<Rightarrow> settings_db \<Rightarrow> settings_db option" where
  "set_onboarding_complete = settings_setter ''onboarding_complete'' bit"

definition get_credential_isolation :: "settings_db \<Rightarrow> bool option" where
  "get_credential_isolation = settings_getter ''credential_isolation'' decode_nullable_bool"

definition set_credential_isolation :: "bool option \<Rightarrow> millis \<Rightarrow> settings_db \<Rightarrow> settings_db option" where
  "set_credential_isolation = settings_setter ''credential_isolation'' encode_nullable_bool"

definition get_turn_trace_days :: "settings_db \<Rightarrow> int" where
  "get_turn_trace_days = settings_getter ''turn_trace_days'' decode_turn_trace_days"

definition get_turn_traces_enabled :: "settings_db \<Rightarrow> bool" where
  "get_turn_traces_enabled = settings_getter ''turn_traces_enabled'' decode_traces_enabled"

definition get_default_model_id :: "settings_db \<Rightarrow> string option" where
  "get_default_model_id = settings_getter ''default_model_id'' decode_nullable_string"

definition set_default_model_id :: "string option \<Rightarrow> millis \<Rightarrow> settings_db \<Rightarrow> settings_db option" where
  "set_default_model_id = settings_setter ''default_model_id'' encode_nullable_string"

section \<open>Room settings\<close>

record room_setting =
  rs_room :: string
  rs_engage :: string
  rs_mode :: string
  rs_oauth :: int
  rs_override :: "string option"
  rs_at :: millis

definition new_room_setting :: "string \<Rightarrow> millis \<Rightarrow> room_setting" where
  "new_room_setting room now = \<lparr>rs_room = room, rs_engage = ''mention-only'', rs_mode = ''disabled'',
     rs_oauth = 0, rs_override = None, rs_at = now\<rparr>"

definition upsert_room_setting ::
  "string \<Rightarrow> (room_setting \<Rightarrow> room_setting) \<Rightarrow> millis \<Rightarrow> room_setting list \<Rightarrow> room_setting list" where
  "upsert_room_setting room f now t = (if tbl_get rs_room room t = None
     then t @ [f (new_room_setting room now)]
     else tbl_update (\<lambda>r. rs_room r = room) (\<lambda>r. f (r\<lparr>rs_at := now\<rparr>)) t)"

definition set_room_engage_default :: "string \<Rightarrow> string \<Rightarrow> millis \<Rightarrow> room_setting list \<Rightarrow> room_setting list" where
  "set_room_engage_default room mode = upsert_room_setting room (\<lambda>r. r\<lparr>rs_engage := mode\<rparr>)"

definition get_room_engage_default :: "string \<Rightarrow> string" where
  "get_room_engage_default room = ''mention-only''"

definition get_room_credential_mode :: "string \<Rightarrow> room_setting list \<Rightarrow> string" where
  "get_room_credential_mode room t = coalesce (map_option rs_mode (tbl_get rs_room room t)) ''disabled''"

definition set_room_credential_mode :: "string \<Rightarrow> string \<Rightarrow> millis \<Rightarrow> room_setting list \<Rightarrow> room_setting list" where
  "set_room_credential_mode room mode = upsert_room_setting room (\<lambda>r. r\<lparr>rs_mode := mode\<rparr>)"

definition get_room_oauth_allowed :: "string \<Rightarrow> room_setting list \<Rightarrow> bool" where
  "get_room_oauth_allowed room t = (coalesce (map_option rs_oauth (tbl_get rs_room room t)) 0 = 1)"

definition set_room_oauth_allowed :: "string \<Rightarrow> bool \<Rightarrow> millis \<Rightarrow> room_setting list \<Rightarrow> room_setting list" where
  "set_room_oauth_allowed room b = upsert_room_setting room (\<lambda>r. r\<lparr>rs_oauth := (if b then 1 else 0)\<rparr>)"

definition get_room_mode_override :: "string \<Rightarrow> room_setting list \<Rightarrow> string option" where
  "get_room_mode_override room t = Option.bind (tbl_get rs_room room t) rs_override"

definition set_room_mode_override :: "string \<Rightarrow> string option \<Rightarrow> millis \<Rightarrow> room_setting list \<Rightarrow> room_setting list" where
  "set_room_mode_override room mode = upsert_room_setting room (\<lambda>r. r\<lparr>rs_override := mode\<rparr>)"

definition get_effective_room_mode :: "string \<Rightarrow> room_setting list \<Rightarrow> settings_db \<Rightarrow> string" where
  "get_effective_room_mode room t db = coalesce (get_room_mode_override room t) (cc_mode (get_credentials_config db))"

section \<open>Models\<close>

record webchat_model =
  md_id :: string
  md_name :: string
  md_kind :: string
  md_endpoint :: "string option"
  md_model :: string
  md_credential :: "string option"
  md_created :: millis

record agent_model =
  am_agent :: string
  am_model :: string
  am_at :: millis

record model_db =
  models :: "webchat_model list"
  agent_models :: "agent_model list"

definition get_webchat_model :: "string \<Rightarrow> model_db \<Rightarrow> webchat_model option" where
  "get_webchat_model i db = tbl_get md_id i (models db)"

definition create_webchat_model :: "webchat_model \<Rightarrow> model_db \<Rightarrow> model_db" where
  "create_webchat_model m db = db\<lparr>models := models db @ [m]\<rparr>"

text \<open>A field of the patch that is not given is \<open>None\<close>.\<close>

record model_patch =
  mp_name :: "string option"
  mp_endpoint :: "string option option"
  mp_model :: "string option"
  mp_credential :: "string option option"

definition update_webchat_model :: "string \<Rightarrow> model_patch \<Rightarrow> model_db \<Rightarrow> model_db" where
  "update_webchat_model i p db = (case get_webchat_model i db of None \<Rightarrow> db
     | Some e \<Rightarrow> db\<lparr>models := tbl_update (\<lambda>m. md_id m = i)
         (\<lambda>m. m\<lparr>md_name := coalesce (mp_name p) (md_name e), md_endpoint := coalesce (mp_endpoint p) (md_endpoint e),
                md_model := coalesce (mp_model p) (md_model e),
                md_credential := coalesce (mp_credential p) (md_credential e)\<rparr>) (models db)\<rparr>)"

definition delete_webchat_model :: "string \<Rightarrow> model_db \<Rightarrow> model_db" where
  "delete_webchat_model i db = \<lparr>models = tbl_delete (\<lambda>m. md_id m = i) (models db),
     agent_models = tbl_delete (\<lambda>a. am_model a = i) (agent_models db)\<rparr>"

definition get_agents_assigned_to_model :: "string \<Rightarrow> model_db \<Rightarrow> string list" where
  "get_agents_assigned_to_model i db = map am_agent (filter (\<lambda>a. am_model a = i) (agent_models db))"

definition get_assigned_model_for_agent :: "string \<Rightarrow> model_db \<Rightarrow> webchat_model option" where
  "get_assigned_model_for_agent agent db = (case tbl_get am_agent agent (agent_models db) of
     None \<Rightarrow> None | Some a \<Rightarrow> get_webchat_model (am_model a) db)"

definition get_effective_model_for_agent :: "string \<Rightarrow> model_db \<Rightarrow> settings_db \<Rightarrow> webchat_model option" where
  "get_effective_model_for_agent agent db st = (case get_assigned_model_for_agent agent db of
     Some m \<Rightarrow> Some m
   | None \<Rightarrow> (if truthy (get_default_model_id st) then get_webchat_model (the (get_default_model_id st)) db else None))"

definition assign_model_to_agent :: "string \<Rightarrow> string \<Rightarrow> millis \<Rightarrow> model_db \<Rightarrow> model_db" where
  "assign_model_to_agent agent i now db =
     db\<lparr>agent_models := tbl_upsert am_agent \<lparr>am_agent = agent, am_model = i, am_at = now\<rparr> (agent_models db)\<rparr>"

definition unassign_model_from_agent :: "string \<Rightarrow> model_db \<Rightarrow> model_db" where
  "unassign_model_from_agent agent db = db\<lparr>agent_models := tbl_delete (\<lambda>a. am_agent a = agent) (agent_models db)\<rparr>"

section \<open>Facts\<close>

definition config_free :: "string \<Rightarrow> bool" where
  "config_free column = (column \<notin> set (''allow_grok_oauth'' # config_columns))"

lemma config_after_setter:
  assumes s: "settings_setter column encode v now db = Some db'" and c: "config_free column"
    and g: "\<not> is_one (st_schema db ''allow_grok_oauth'')"
  shows "get_credentials_config db' = get_credentials_config db"
proof -
  obtain r where r: "st_row db = Some r" using s by (cases "st_row db") (simp_all add: settings_setter_def)
  let ?base = "case r of None \<Rightarrow> seed_row (get_credentials_config db) (st_schema db) | Some row \<Rightarrow> row"
  have db': "st_row db' = Some (Some (?base(column \<mapsto> encode v, ''updated_at'' \<mapsto> SInt now)))"
    using s r by (auto simp: settings_setter_def split: if_splits)
  have ne: "column \<noteq> ''allow_grok_oauth''" "column \<noteq> ''default_credential_mode''" "column \<noteq> ''allow_anthropic_key''"
      "column \<noteq> ''allow_claude_oauth''" "column \<noteq> ''allow_openai_key''" "column \<noteq> ''allow_codex_oauth''"
    using c unfolding config_free_def config_columns_def by simp_all
  have rd: "get_credentials_config db' = \<lparr>
       cc_mode = text_or ''disabled'' (?base ''default_credential_mode''),
       cc_anthropic_key = is_one (?base ''allow_anthropic_key''),
       cc_claude_oauth = is_one (?base ''allow_claude_oauth''),
       cc_openai_key = is_one (?base ''allow_openai_key''),
       cc_codex_oauth = is_one (?base ''allow_codex_oauth''),
       cc_grok_oauth = is_one (?base ''allow_grok_oauth'')\<rparr>"
    using ne by (simp add: get_credentials_config_def db')
  show ?thesis
  proof (cases r)
    case (Some row)
    then show ?thesis unfolding rd by (simp add: get_credentials_config_def r)
  next
    case None
    have d: "get_credentials_config db = DEFAULT_CREDENTIALS_CONFIG" by (simp add: get_credentials_config_def r None)
    show ?thesis unfolding rd d None
      using g by (simp add: seed_row_def DEFAULT_CREDENTIALS_CONFIG_def text_or_def is_one_def bit_def)
  qed
qed

text \<open>
  Changing any other workspace setting leaves the credentials policy as it reads, also when the
  settings row did not exist and is created by the change; and the setting reads back as written.
\<close>

theorem other_settings_keep_credentials_policy:
  assumes s: "settings_setter column encode v now db = Some db'" and c: "config_free column"
    and u: "column \<noteq> ''updated_at''"
    and g: "\<not> is_one (st_schema db ''allow_grok_oauth'')"
  shows "get_credentials_config db' = get_credentials_config db
     \<and> settings_getter column decode db' = decode (Some (encode v))"
proof
  show "get_credentials_config db' = get_credentials_config db" by (rule config_after_setter[OF s c g])
  show "settings_getter column decode db' = decode (Some (encode v))"
    using s u by (auto simp: settings_setter_def settings_getter_def split: option.splits if_splits)
qed

definition fresh_settings :: settings_db where
  "fresh_settings = \<lparr>st_schema = [''default_credential_mode'' \<mapsto> SText ''disabled'', ''allow_anthropic_key'' \<mapsto> SInt 1,
      ''allow_grok_oauth'' \<mapsto> SInt 0, ''onboarding_complete'' \<mapsto> SInt 0, ''default_model_id'' \<mapsto> SNull],
     st_row = Some None\<rparr>"

theorem other_settings_keep_credentials_policy_witness:
  "get_onboarding_complete (the (set_onboarding_complete True 9 fresh_settings))
   \<and> get_credentials_config (the (set_onboarding_complete True 9 fresh_settings)) = DEFAULT_CREDENTIALS_CONFIG"
proof -
  have s: "settings_setter ''onboarding_complete'' bit True 9 fresh_settings
      = Some (the (set_onboarding_complete True 9 fresh_settings))"
    by (simp add: set_onboarding_complete_def settings_setter_def fresh_settings_def)
  have c: "config_free ''onboarding_complete''" by (simp add: config_free_def config_columns_def)
  have g: "\<not> is_one (st_schema fresh_settings ''allow_grok_oauth'')" by (simp add: is_one_def fresh_settings_def)
  have d: "get_credentials_config fresh_settings = DEFAULT_CREDENTIALS_CONFIG"
    by (simp add: get_credentials_config_def fresh_settings_def)
  from other_settings_keep_credentials_policy[OF s c _ g, of decode_bool] d
  show ?thesis by (simp add: get_onboarding_complete_def decode_bool_def bit_def)
qed

text \<open>
  An agent's own assignment decides its model, the workspace default only fills in for none; after a
  model is deleted no agent is assigned to it or powered by it, and no other agent's assignment changed.
\<close>

theorem model_assignment:
  assumes k: "keyed md_id (models db)" and a: "keyed am_agent (agent_models db)"
  shows "(get_webchat_model i db = Some m \<longrightarrow>
        get_effective_model_for_agent agent (assign_model_to_agent agent i now db) st = Some m)
   \<and> (tbl_get am_agent agent (agent_models db) = None \<longrightarrow>
        get_effective_model_for_agent agent db st
          = Option.bind (get_default_model_id st) (\<lambda>d. if d = [] then None else get_webchat_model d db))
   \<and> get_agents_assigned_to_model i (delete_webchat_model i db) = []
   \<and> (case get_effective_model_for_agent agent (delete_webchat_model i db) st of None \<Rightarrow> True | Some e \<Rightarrow> md_id e \<noteq> i)
   \<and> (case get_assigned_model_for_agent agent db of None \<Rightarrow> True
        | Some e \<Rightarrow> md_id e = i \<or> get_assigned_model_for_agent agent (delete_webchat_model i db) = Some e)"
proof (intro conjI impI)
  have look: "get_webchat_model j (delete_webchat_model i db) = (if j = i then None else get_webchat_model j db)" for j
    by (simp add: get_webchat_model_def delete_webchat_model_def tbl_get_delete_key)
  show "get_effective_model_for_agent agent (assign_model_to_agent agent i now db) st = Some m"
    if "get_webchat_model i db = Some m"
    using that by (simp add: get_effective_model_for_agent_def get_assigned_model_for_agent_def
        assign_model_to_agent_def tbl_get_upsert get_webchat_model_def)
  show "get_effective_model_for_agent agent db st
          = Option.bind (get_default_model_id st) (\<lambda>d. if d = [] then None else get_webchat_model d db)"
    if "tbl_get am_agent agent (agent_models db) = None"
    using that by (cases "get_default_model_id st")
      (simp_all add: get_effective_model_for_agent_def get_assigned_model_for_agent_def)
  show "get_agents_assigned_to_model i (delete_webchat_model i db) = []"
    by (simp add: get_agents_assigned_to_model_def delete_webchat_model_def tbl_delete_def)
  have ids: "get_webchat_model j d = Some e \<Longrightarrow> md_id e = j" for j e d
    using tbl_get_SomeD[of md_id j "models d" e] by (simp add: get_webchat_model_def)
  have gone: "get_webchat_model j (delete_webchat_model i db) = Some e \<Longrightarrow> md_id e \<noteq> i" for j e
    using look[of j] ids by (auto split: if_splits)
  show "case get_effective_model_for_agent agent (delete_webchat_model i db) st of None \<Rightarrow> True | Some e \<Rightarrow> md_id e \<noteq> i"
    using gone by (auto simp: get_effective_model_for_agent_def get_assigned_model_for_agent_def
        split: option.splits if_splits)
  show "case get_assigned_model_for_agent agent db of None \<Rightarrow> True
        | Some e \<Rightarrow> md_id e = i \<or> get_assigned_model_for_agent agent (delete_webchat_model i db) = Some e"
  proof (cases "get_assigned_model_for_agent agent db")
    case (Some e)
    then obtain r where r: "tbl_get am_agent agent (agent_models db) = Some r" "get_webchat_model (am_model r) db = Some e"
      by (auto simp: get_assigned_model_for_agent_def split: option.splits)
    then have "md_id e = am_model r" using ids by blast
    with r Some show ?thesis
      by (auto simp: get_assigned_model_for_agent_def look tbl_get_delete_other[OF a] delete_webchat_model_def
          get_webchat_model_def tbl_get_delete_key)
  qed simp
qed

theorem model_assignment_witness:
  "get_agents_assigned_to_model ''m'' (delete_webchat_model ''m''
     \<lparr>models = [], agent_models = [\<lparr>am_agent = ''a'', am_model = ''m'', am_at = 1\<rparr>]\<rparr>) = []"
  using model_assignment[of "\<lparr>models = [], agent_models = [\<lparr>am_agent = ''a'', am_model = ''m'', am_at = 1\<rparr>]\<rparr>"]
  by (simp add: keyed_def)

end
