(* ===== verification/CredentialPolicy.thy ===== *)
theory CredentialPolicy
  imports SettingsStore ThreadStore
begin

text \<open>
  Whose credential a turn runs on (\<open>modules/user-credentials\<close>: \<open>db.ts\<close>, \<open>policy.ts\<close>, \<open>index.ts\<close>). In a
  room whose members may bring their own key, a member with a permitted credential runs in a
  session of their own; a room that requires one vetoes the turns of members without. The
  container configuration of an agent group is the parameter \<open>configured\<close>.
\<close>

record user_credential =
  uc_user :: string
  uc_provider :: string
  uc_secret :: "string option"
  uc_type :: string
  uc_status :: string
  uc_created :: millis
  uc_updated :: millis

record member_credential =
  mc_user :: string
  mc_group :: string
  mc_agent :: string
  mc_secret :: "string option"
  mc_status :: string
  mc_type :: string
  mc_provider :: string
  mc_created :: millis
  mc_updated :: millis

record cred_db =
  user_credentials :: "user_credential list"
  member_credentials :: "member_credential list"
  room_settings :: "room_setting list option"
  workspace :: settings_db

definition uc_key :: "user_credential \<Rightarrow> string \<times> string" where
  "uc_key c = (uc_user c, uc_provider c)"

definition mc_key :: "member_credential \<Rightarrow> string \<times> string" where
  "mc_key c = (mc_user c, mc_group c)"

section \<open>Stored credentials\<close>

definition get_user_creds_credential :: "string \<Rightarrow> string \<Rightarrow> cred_db \<Rightarrow> member_credential option" where
  "get_user_creds_credential u g db = tbl_get mc_key (u, g) (member_credentials db)"

definition user_has_active_key :: "string \<Rightarrow> string \<Rightarrow> cred_db \<Rightarrow> bool" where
  "user_has_active_key u g db = (map_option mc_status (get_user_creds_credential u g db) = Some ''active'')"

definition user_has_active_oauth :: "string \<Rightarrow> string \<Rightarrow> cred_db \<Rightarrow> bool" where
  "user_has_active_oauth u g db = (case get_user_creds_credential u g db of None \<Rightarrow> False
     | Some r \<Rightarrow> mc_status r = ''active'' \<and> mc_type r = ''oauth_token'' \<and> mc_provider r = ''claude'')"

definition get_user_credential :: "string \<Rightarrow> string \<Rightarrow> cred_db \<Rightarrow> user_credential option" where
  "get_user_credential u p db = tbl_get uc_key (u, p) (user_credentials db)"

definition user_has_connected_credential :: "string \<Rightarrow> string \<Rightarrow> cred_db \<Rightarrow> bool" where
  "user_has_connected_credential u p db = (map_option uc_status (get_user_credential u p db) = Some ''active'')"

definition get_user_secret_id :: "string \<Rightarrow> string \<Rightarrow> cred_db \<Rightarrow> string option" where
  "get_user_secret_id u p db = (case get_user_credential u p db of None \<Rightarrow> None
     | Some r \<Rightarrow> if uc_status r = ''active'' then uc_secret r else None)"

definition upsert_user_credential ::
  "string \<Rightarrow> string \<Rightarrow> string option \<Rightarrow> string \<Rightarrow> millis \<Rightarrow> cred_db \<Rightarrow> cred_db" where
  "upsert_user_credential u p sid ty now db = db\<lparr>user_credentials :=
     (if tbl_get uc_key (u, p) (user_credentials db) = None
      then user_credentials db @ [\<lparr>uc_user = u, uc_provider = p, uc_secret = sid, uc_type = ty,
             uc_status = ''active'', uc_created = now, uc_updated = now\<rparr>]
      else tbl_update (\<lambda>c. uc_key c = (u, p))
             (\<lambda>c. c\<lparr>uc_secret := sid, uc_type := ty, uc_status := ''active'', uc_updated := now\<rparr>)
             (user_credentials db))\<rparr>"

definition list_all_tracked_secret_ids :: "cred_db \<Rightarrow> string list" where
  "list_all_tracked_secret_ids db = List.map_filter uc_secret (user_credentials db)"

definition set_user_credential_status :: "string \<Rightarrow> string \<Rightarrow> string \<Rightarrow> millis \<Rightarrow> cred_db \<Rightarrow> cred_db" where
  "set_user_credential_status u p status now db = db\<lparr>user_credentials := tbl_update
     (\<lambda>c. uc_user c = u \<and> uc_provider c = p) (\<lambda>c. c\<lparr>uc_status := status, uc_updated := now\<rparr>) (user_credentials db)\<rparr>"

definition list_enrolled_groups :: "string \<Rightarrow> string \<Rightarrow> cred_db \<Rightarrow> member_credential list" where
  "list_enrolled_groups u p db = filter (\<lambda>c. mc_user c = u \<and> mc_provider c = p \<and> mc_status c = ''active'')
     (member_credentials db)"

definition agent_group_for_user_creds_agent :: "string \<Rightarrow> cred_db \<Rightarrow> string option" where
  "agent_group_for_user_creds_agent i db = map_option mc_group (find (\<lambda>c. mc_agent c = i) (member_credentials db))"

definition list_group_member_enrollments :: "string \<Rightarrow> cred_db \<Rightarrow> member_credential list" where
  "list_group_member_enrollments g db = filter (\<lambda>c. mc_group c = g \<and> mc_status c = ''active'') (member_credentials db)"

definition active_members_for_group :: "string \<Rightarrow> cred_db \<Rightarrow> string list" where
  "active_members_for_group g db = map mc_user (list_group_member_enrollments g db)"

definition upsert_user_creds_credential ::
  "string \<Rightarrow> string \<Rightarrow> string \<Rightarrow> string option \<Rightarrow> string \<Rightarrow> string \<Rightarrow> millis \<Rightarrow> cred_db \<Rightarrow> cred_db" where
  "upsert_user_creds_credential u g agent sid ty p now db = db\<lparr>member_credentials :=
     (if tbl_get mc_key (u, g) (member_credentials db) = None
      then member_credentials db @ [\<lparr>mc_user = u, mc_group = g, mc_agent = agent, mc_secret = sid,
             mc_status = ''active'', mc_type = ty, mc_provider = p, mc_created = now, mc_updated = now\<rparr>]
      else tbl_update (\<lambda>c. mc_key c = (u, g))
             (\<lambda>c. c\<lparr>mc_agent := agent, mc_secret := sid, mc_status := ''active'', mc_type := ty,
                    mc_provider := p, mc_updated := now\<rparr>) (member_credentials db))\<rparr>"

definition set_user_creds_status :: "string \<Rightarrow> string \<Rightarrow> string \<Rightarrow> millis \<Rightarrow> cred_db \<Rightarrow> cred_db" where
  "set_user_creds_status u g status now db = db\<lparr>member_credentials := tbl_update
     (\<lambda>c. mc_user c = u \<and> mc_group c = g) (\<lambda>c. c\<lparr>mc_status := status, mc_updated := now\<rparr>) (member_credentials db)\<rparr>"

section \<open>What a workspace accepts\<close>

definition oauth_allowed_for :: "string \<Rightarrow> credentials_config \<Rightarrow> bool" where
  "oauth_allowed_for p cfg = (if p = ''codex'' then cc_codex_oauth cfg
     else if p = ''grok'' then cc_grok_oauth cfg else cc_claude_oauth cfg)"

definition api_key_allowed_for :: "string \<Rightarrow> credentials_config \<Rightarrow> bool" where
  "api_key_allowed_for p cfg = (if p = ''codex'' then cc_openai_key cfg
     else if p = ''grok'' then False else cc_anthropic_key cfg)"

definition provider_label :: "string \<Rightarrow> string" where
  "provider_label p = (if p = ''codex'' then ''Codex (ChatGPT)'' else if p = ''grok'' then ''Grok'' else ''Claude'')"

definition credential_name :: "string \<Rightarrow> string" where
  "credential_name p = (if p = ''codex'' then ''Codex credential''
     else if p = ''grok'' then ''Grok subscription'' else ''Anthropic key'')"

definition user_creds_provider_for_group :: "(string \<Rightarrow> string option) \<Rightarrow> string \<Rightarrow> string" where
  "user_creds_provider_for_group configured g = (case configured g of
     Some p \<Rightarrow> if p = ''codex'' \<or> p = ''grok'' then p else ''claude'' | None \<Rightarrow> ''claude'')"

section \<open>Routing a turn\<close>

record cred_state =
  cs_override :: "string option"
  cs_blocked :: bool
  cs_name :: string

definition no_effect :: cred_state where
  "no_effect = \<lparr>cs_override = None, cs_blocked = False, cs_name = []\<rparr>"

definition has_personal_enrollment :: "string \<Rightarrow> string \<Rightarrow> cred_db \<Rightarrow> bool" where
  "has_personal_enrollment u g db = (case get_user_creds_credential u g db of None \<Rightarrow> False
     | Some r \<Rightarrow> mc_status r = ''active'' \<and> \<not> truthy (mc_secret r))"

definition room_mode :: "mg_row \<Rightarrow> cred_db \<Rightarrow> string" where
  "room_mode mg db = get_effective_room_mode (mg_platform mg) (coalesce (room_settings db) []) (workspace db)"

definition api_offered :: "mg_row \<Rightarrow> string \<Rightarrow> cred_db \<Rightarrow> bool" where
  "api_offered mg p db = (room_mode mg db \<noteq> ''disabled''
     \<and> api_key_allowed_for p (get_credentials_config (workspace db)))"

definition oauth_offered :: "mg_row \<Rightarrow> string \<Rightarrow> cred_db \<Rightarrow> bool" where
  "oauth_offered mg p db = (room_mode mg db \<noteq> ''disabled''
     \<and> oauth_allowed_for p (get_credentials_config (workspace db)))"

text \<open>The member's credential is active and of a kind the room offers now.\<close>

definition permitted_credential :: "mg_row \<Rightarrow> string \<Rightarrow> string \<Rightarrow> cred_db \<Rightarrow> bool" where
  "permitted_credential mg u p db = (case get_user_credential u p db of None \<Rightarrow> False
     | Some c \<Rightarrow> uc_status c = ''active''
         \<and> (if uc_type c = ''oauth_token'' then oauth_offered mg p db else api_offered mg p db))"

definition evaluate_room_cred_state ::
  "(string \<Rightarrow> string option) \<Rightarrow> mg_row \<Rightarrow> string \<Rightarrow> string option \<Rightarrow> string option \<Rightarrow> cred_db \<Rightarrow> cred_state" where
  "evaluate_room_cred_state configured mg g user th db =
     (if mg_channel mg \<noteq> webchat \<or> \<not> truthy user then no_effect
      else if room_settings db = None then no_effect
      else
        (let u = the user;
             p = user_creds_provider_for_group configured g;
             per_member = no_effect\<lparr>cs_override := Some (member_session_key u th)\<rparr>;
             offered = api_offered mg p db \<or> oauth_offered mg p db
         in if offered \<and> permitted_credential mg u p db then per_member
            else if offered \<and> room_mode mg db = ''required''
            then no_effect\<lparr>cs_blocked := True, cs_name := credential_name p\<rparr>
            else if has_personal_enrollment u g db then per_member
            else no_effect))"

section \<open>The turn gate\<close>

definition NOTICE_DEDUPE_MS :: int where "NOTICE_DEDUPE_MS = 5 * 60 * 1000"

text \<open>
  \<open>evaluated\<close> is \<open>None\<close> when the evaluation threw, \<open>mode\<close> the mode read in that case (\<open>None\<close> when that threw
  too). The result: the veto's reason, whether a notice is written, and when notices were last sent.
\<close>

definition turn_gate ::
  "cred_state option \<Rightarrow> string option \<Rightarrow> string \<times> string \<Rightarrow> millis \<Rightarrow> (string \<times> string \<Rightarrow> millis option)
   \<Rightarrow> string option \<times> bool \<times> (string \<times> string \<Rightarrow> millis option)" where
  "turn_gate evaluated mode key now sent = (case evaluated of
     None \<Rightarrow> (if (case mode of None \<Rightarrow> True | Some m \<Rightarrow> m = ''required'')
              then (Some ''user-creds-evaluation-failed'', False, sent) else (None, False, sent))
   | Some st \<Rightarrow> (if \<not> cs_blocked st then (None, False, sent)
       else if coalesce (sent key) 0 + NOTICE_DEDUPE_MS < now
       then (Some ''user-creds-required-no-key'', True, sent(key \<mapsto> now))
       else (Some ''user-creds-required-no-key'', False, sent)))"

section \<open>Preparing a session's container\<close>

definition WORKSPACE_DEFAULT_USER_ID :: string where
  "WORKSPACE_DEFAULT_USER_ID = ''workspace-default''"

definition oauth_env :: "(string \<times> string) list" where
  "oauth_env = [(''CLAUDE_CODE_OAUTH_TOKEN'', ''placeholder''), (''ANTHROPIC_API_KEY'', '''')]"

definition oauth_env_of :: "user_credential option \<Rightarrow> (string \<times> string) list" where
  "oauth_env_of c = (case c of Some r \<Rightarrow> (if uc_status r = ''active'' \<and> uc_type r = ''oauth_token'' then oauth_env else [])
     | None \<Rightarrow> [])"

text \<open>The identity (by \<open>identifier\<close>, a hash of group and user) and the extra environment, staged at spawn.\<close>

definition prepare_session ::
  "(string \<Rightarrow> string \<Rightarrow> string) \<Rightarrow> (string \<Rightarrow> string option) \<Rightarrow> string \<Rightarrow> string option \<Rightarrow> cred_db
   \<Rightarrow> string option \<times> (string \<times> string) list" where
  "prepare_session identifier configured g key db =
     (let p = user_creds_provider_for_group configured g;
          user = (case member_user_from_key key of Some u \<Rightarrow> Some u | None \<Rightarrow> key);
          connected = truthy user \<and> user_has_connected_credential (the user) p db;
          personal = \<not> connected \<and> truthy user \<and> has_personal_enrollment (the user) g db;
          own = (if truthy user then get_user_credential (the user) ''claude'' db else None);
          env = (if p = ''claude''
            then (if map_option uc_status own = Some ''active'' then oauth_env_of own
                  else oauth_env_of (get_user_credential WORKSPACE_DEFAULT_USER_ID ''claude'' db))
            else [])
      in (if connected \<or> personal then Some (identifier g (the user)) else None, env))"

section \<open>Properties\<close>

lemma evaluate_cases:
  assumes "mg_channel mg = webchat" "u \<noteq> []" "room_settings db \<noteq> None"
  shows "evaluate_room_cred_state configured mg g (Some u) th db =
     (let p = user_creds_provider_for_group configured g;
          offered = api_offered mg p db \<or> oauth_offered mg p db
      in if offered \<and> permitted_credential mg u p db then no_effect\<lparr>cs_override := Some (member_session_key u th)\<rparr>
         else if offered \<and> room_mode mg db = ''required''
         then no_effect\<lparr>cs_blocked := True, cs_name := credential_name p\<rparr>
         else if has_personal_enrollment u g db then no_effect\<lparr>cs_override := Some (member_session_key u th)\<rparr>
         else no_effect)"
  using assms by (cases "room_settings db") (simp_all add: evaluate_room_cred_state_def Let_def)

text \<open>
  C25: in a room that requires members' own credentials, of a provider the workspace accepts any for,
  a turn is either vetoed or runs in the member's own session on an active credential of a kind
  offered now: it never falls back to the shared session. When the state cannot be evaluated
  the turn is vetoed unless the room is known not to require one.
\<close>

theorem required_room_no_shared_fallback:
  assumes w: "mg_channel mg = webchat" "u \<noteq> []" "room_settings db \<noteq> None"
    and m: "room_mode mg db = ''required''"
    and p: "p = user_creds_provider_for_group configured g"
    and off: "api_offered mg p db \<or> oauth_offered mg p db"
  shows "(let st = evaluate_room_cred_state configured mg g (Some u) th db in
      (cs_override st = Some (member_session_key u th) \<and> permitted_credential mg u p db
         \<and> fst (turn_gate (Some st) mode key now sent) = None)
      \<or> (cs_override st = None \<and> \<not> permitted_credential mg u p db
         \<and> fst (turn_gate (Some st) mode key now sent) = Some ''user-creds-required-no-key''))
   \<and> fst (turn_gate None (Some (room_mode mg db)) key now sent) \<noteq> None
   \<and> fst (turn_gate None None key now sent) \<noteq> None"
proof (cases "permitted_credential mg u p db")
  case True
  then have "evaluate_room_cred_state configured mg g (Some u) th db
      = no_effect\<lparr>cs_override := Some (member_session_key u th)\<rparr>"
    using off unfolding evaluate_cases[OF w] Let_def p[symmetric] by simp
  with True show ?thesis by (simp add: Let_def turn_gate_def no_effect_def m)
next
  case False
  then have "evaluate_room_cred_state configured mg g (Some u) th db
      = no_effect\<lparr>cs_blocked := True, cs_name := credential_name p\<rparr>"
    using off m unfolding evaluate_cases[OF w] Let_def p[symmetric] by simp
  with False show ?thesis by (simp add: Let_def turn_gate_def no_effect_def m)
qed

definition required_db :: cred_db where
  "required_db = \<lparr>user_credentials = [], member_credentials = [],
     room_settings = Some [(new_room_setting ''r'' 1)\<lparr>rs_override := Some ''required''\<rparr>],
     workspace = fresh_settings\<rparr>"

definition room_mg :: mg_row where
  "room_mg = \<lparr>mg_id = ''g1'', mg_channel = webchat, mg_platform = ''r'', mg_name = None, mg_created = None\<rparr>"

theorem required_room_no_shared_fallback_witness:
  "fst (turn_gate (Some (evaluate_room_cred_state (\<lambda>_. None) room_mg ''a1'' (Some ''u'') None required_db))
     None (''g1'', ''u'') 0 (\<lambda>_. None)) = Some ''user-creds-required-no-key''"
proof -
  have w: "mg_channel room_mg = webchat" by (simp add: room_mg_def)
  have s: "room_settings required_db \<noteq> None" by (simp add: required_db_def)
  have m: "room_mode room_mg required_db = ''required''" by code_simp
  have p: "''claude'' = user_creds_provider_for_group (\<lambda>_. None) ''a1''"
    by (simp add: user_creds_provider_for_group_def)
  have off: "api_offered room_mg ''claude'' required_db \<or> oauth_offered room_mg ''claude'' required_db" by code_simp
  have np: "\<not> permitted_credential room_mg ''u'' ''claude'' required_db" by code_simp
  from required_room_no_shared_fallback[OF w _ s m p off, of "''u''"] np show ?thesis
    by (simp add: Let_def)
qed

text \<open>
  The manual says a member without a key is not woken in a room that requires one, and that there is
  no shared fallback. When the workspace accepts no credential for the agent's provider, the
  same room falls through to the shared session: here a Grok agent with subscriptions off.
\<close>

lemma required_room_shared_when_nothing_accepted:
  "room_mode room_mg required_db = ''required''
   \<and> evaluate_room_cred_state (\<lambda>_. Some ''grok'') room_mg ''a1'' (Some ''u'') None required_db = no_effect"
  by code_simp

end
