(* ===== verification/Access.thy ===== *)
theory Access
  imports RoomStore
begin

text \<open>
  Roles and room access (\<open>channels/webchat/roles.ts\<close>, \<open>access.ts\<close>, \<open>async-array.ts\<close>). The
  permissions tables are optional: \<open>None\<close> stands for a table the host did not install. The
  host's own agent-group check (\<open>canAccessAgentGroup\<close>) is the parameter \<open>allowed\<close>. A statement that
  may raise (a foreign key, a locked database) is the parameter \<open>insert_ok\<close>.
\<close>

record role_row =
  rr_user :: string
  rr_role :: string
  rr_group :: "string option"
  rr_granted_by :: "string option"
  rr_at :: millis

record user_row =
  u_id :: string
  u_kind :: string
  u_display :: "string option"
  u_created :: millis

datatype audit_event = RoleGrant string bool string "string option"
  \<comment> \<open>actor, granted (or failed), how, and the grantor named\<close>

record role_db =
  user_roles :: "role_row list option"
  users :: "user_row list option"
  audit_log :: "audit_event list"

section \<open>Reading roles\<close>

text \<open>Without the permissions module every authenticated caller is trusted.\<close>

definition role_query :: "(role_row \<Rightarrow> bool) \<Rightarrow> role_db \<Rightarrow> bool" where
  "role_query p db = (case user_roles db of None \<Rightarrow> True | Some rs \<Rightarrow> list_ex p rs)"

definition is_owner :: "string \<Rightarrow> role_db \<Rightarrow> bool" where
  "is_owner u = role_query (\<lambda>r. rr_user r = u \<and> rr_role r = ''owner'' \<and> rr_group r = None)"

definition has_admin_privilege :: "string \<Rightarrow> string \<Rightarrow> role_db \<Rightarrow> bool" where
  "has_admin_privilege u g = role_query (\<lambda>r. rr_user r = u
     \<and> (rr_role r = ''owner'' \<or> rr_role r = ''admin'') \<and> (rr_group r = None \<or> rr_group r = Some g))"

definition is_global_admin :: "string \<Rightarrow> role_db \<Rightarrow> bool" where
  "is_global_admin u = role_query (\<lambda>r. rr_user r = u \<and> rr_role r = ''admin'' \<and> rr_group r = None)"

definition is_any_admin :: "string \<Rightarrow> role_db \<Rightarrow> bool" where
  "is_any_admin u = role_query (\<lambda>r. rr_user r = u \<and> (rr_role r = ''owner'' \<or> rr_role r = ''admin''))"

section \<open>Granting ownership\<close>

definition ensure_user_row :: "string \<Rightarrow> millis \<Rightarrow> role_db \<Rightarrow> role_db" where
  "ensure_user_row u now db = db\<lparr>users := map_option
     (tbl_insert_new u_id \<lparr>u_id = u, u_kind = ''webchat'', u_display = None, u_created = now\<rparr>) (users db)\<rparr>"

definition ensure_owner_role_on_first_login ::
  "(role_row \<Rightarrow> role_db \<Rightarrow> bool) \<Rightarrow> string \<Rightarrow> millis \<Rightarrow> role_db \<Rightarrow> role_db" where
  "ensure_owner_role_on_first_login insert_ok u now db = (case user_roles db of
     None \<Rightarrow> db
   | Some rs \<Rightarrow>
      (let db1 = ensure_user_row u now db;
           r = \<lparr>rr_user = u, rr_role = ''owner'', rr_group = None, rr_granted_by = None, rr_at = now\<rparr>
       in if list_ex (\<lambda>x. rr_role x = ''owner'') rs \<or> \<not> insert_ok r db1 then db1
          else db1\<lparr>user_roles := Some (rs @ [r]),
                   audit_log := audit_log db1 @ [RoleGrant u True ''first-login'' None]\<rparr>))"

definition user_exists :: "string \<Rightarrow> role_db \<Rightarrow> bool" where
  "user_exists i db = (case users db of None \<Rightarrow> False | Some us \<Rightarrow> list_ex (\<lambda>x. u_id x = i) us)"

definition grant_owner_role ::
  "(role_row \<Rightarrow> role_db \<Rightarrow> bool) \<Rightarrow> string \<Rightarrow> string option \<Rightarrow> millis \<Rightarrow> role_db \<Rightarrow> bool \<times> role_db" where
  "grant_owner_role insert_ok u granted_by now db = (case user_roles db of
     None \<Rightarrow> (False, db)
   | Some rs \<Rightarrow>
      (let db1 = ensure_user_row u now db;
           grantor = (if truthy granted_by \<and> user_exists (the granted_by) db1 then granted_by else None);
           r = \<lparr>rr_user = u, rr_role = ''owner'', rr_group = None, rr_granted_by = grantor, rr_at = now\<rparr>
       in if list_ex (\<lambda>x. rr_user x = u \<and> rr_role x = ''owner'' \<and> rr_group x = None) rs
          then (False, db1)
          else if insert_ok r db1
          then (True, db1\<lparr>user_roles := Some (rs @ [r]),
                          audit_log := audit_log db1 @ [RoleGrant u True ''promotion'' granted_by]\<rparr>)
          else (False, db1\<lparr>audit_log := audit_log db1 @ [RoleGrant u False ''promotion'' granted_by]\<rparr>)))"

section \<open>Predicates that await\<close>

fun filter_async_from :: "nat \<Rightarrow> ('a \<Rightarrow> nat \<Rightarrow> bool) \<Rightarrow> 'a list \<Rightarrow> 'a list" where
  "filter_async_from i p [] = []"
| "filter_async_from i p (x # xs) =
     (if p x i then x # filter_async_from (Suc i) p xs else filter_async_from (Suc i) p xs)"

definition filter_async :: "'a list \<Rightarrow> ('a \<Rightarrow> nat \<Rightarrow> bool) \<Rightarrow> 'a list" where
  "filter_async xs p = filter_async_from 0 p xs"

fun some_async_from :: "nat \<Rightarrow> ('a \<Rightarrow> nat \<Rightarrow> bool) \<Rightarrow> 'a list \<Rightarrow> bool" where
  "some_async_from i p [] = False"
| "some_async_from i p (x # xs) = (if p x i then True else some_async_from (Suc i) p xs)"

definition some_async :: "'a list \<Rightarrow> ('a \<Rightarrow> nat \<Rightarrow> bool) \<Rightarrow> bool" where
  "some_async xs p = some_async_from 0 p xs"

fun every_async_from :: "nat \<Rightarrow> ('a \<Rightarrow> nat \<Rightarrow> bool) \<Rightarrow> 'a list \<Rightarrow> bool" where
  "every_async_from i p [] = True"
| "every_async_from i p (x # xs) = (if \<not> p x i then False else every_async_from (Suc i) p xs)"

definition every_async :: "'a list \<Rightarrow> ('a \<Rightarrow> nat \<Rightarrow> bool) \<Rightarrow> bool" where
  "every_async xs p = every_async_from 0 p xs"

lemma filter_async_eq: "filter_async xs (\<lambda>x _. p x) = filter p xs"
proof -
  have "filter_async_from i (\<lambda>x _. p x) xs = filter p xs" for i by (induction xs arbitrary: i) auto
  then show ?thesis by (simp add: filter_async_def)
qed

lemma some_async_eq: "some_async xs (\<lambda>x _. p x) = list_ex p xs"
proof -
  have "some_async_from i (\<lambda>x _. p x) xs = list_ex p xs" for i by (induction xs arbitrary: i) auto
  then show ?thesis by (simp add: some_async_def)
qed

lemma every_async_eq: "every_async xs (\<lambda>x _. p x) = list_all p xs"
proof -
  have "every_async_from i (\<lambda>x _. p x) xs = list_all p xs" for i by (induction xs arbitrary: i) auto
  then show ?thesis by (simp add: every_async_def)
qed

section \<open>Rooms\<close>

fun all_allowed :: "(string \<Rightarrow> string \<Rightarrow> bool) \<Rightarrow> string \<Rightarrow> agent_group list \<Rightarrow> bool" where
  "all_allowed allowed u [] = True"
| "all_allowed allowed u (a # as) = (if \<not> allowed u (ag_id a) then False else all_allowed allowed u as)"

definition can_access_room ::
  "mg_api \<Rightarrow> (string \<Rightarrow> string \<Rightarrow> bool) \<Rightarrow> chat_db \<Rightarrow> string \<Rightarrow> string \<Rightarrow> bool" where
  "can_access_room api allowed db u rid = (let as = get_agents_for_webchat_room api rid db in
     if length as = 0 then False else all_allowed allowed u as)"

definition filter_rooms_for_user ::
  "mg_api \<Rightarrow> (string \<Rightarrow> string \<Rightarrow> bool) \<Rightarrow> chat_db \<Rightarrow> string \<Rightarrow> webchat_room list \<Rightarrow> webchat_room list" where
  "filter_rooms_for_user api allowed db u rooms =
     filter_async rooms (\<lambda>r _. can_access_room api allowed db u (r_id r))"

fun any_admin_of :: "role_db \<Rightarrow> string \<Rightarrow> agent_group list \<Rightarrow> bool" where
  "any_admin_of rdb u [] = False"
| "any_admin_of rdb u (a # as) = (if has_admin_privilege u (ag_id a) rdb then True else any_admin_of rdb u as)"

definition can_archive_room :: "mg_api \<Rightarrow> role_db \<Rightarrow> chat_db \<Rightarrow> string \<Rightarrow> string \<Rightarrow> bool" where
  "can_archive_room api rdb db u rid =
     (if is_owner u rdb \<or> is_global_admin u rdb then True
      else any_admin_of rdb u (get_agents_for_webchat_room api rid db))"

lemma all_allowed_eq: "all_allowed allowed u as = (\<forall>a \<in> set as. allowed u (ag_id a))"
  by (induction as) auto

lemma any_admin_of_eq: "any_admin_of rdb u as = (\<exists>a \<in> set as. has_admin_privilege u (ag_id a) rdb)"
  by (induction as) auto

section \<open>The privilege lattice\<close>

text \<open>
  What the handlers rely on: a global authority is an authority over every agent group, and any
  authority is an admin's.
\<close>

locale authority =
  fixes global :: "'u \<Rightarrow> 's \<Rightarrow> bool"
    and scoped :: "'u \<Rightarrow> 'g \<Rightarrow> 's \<Rightarrow> bool"
    and any_right :: "'u \<Rightarrow> 's \<Rightarrow> bool"
  assumes global_scoped: "global u s \<Longrightarrow> scoped u g s"
    and scoped_any: "scoped u g s \<Longrightarrow> any_right u s"
begin

lemma global_any: "global u s \<Longrightarrow> any_right u s"
  using global_scoped scoped_any by blast

lemma no_right_no_scope: "\<not> any_right u s \<Longrightarrow> \<not> scoped u g s \<and> \<not> global u s"
  using global_any scoped_any by blast

lemma scoped_some: "gs \<noteq> [] \<Longrightarrow> global u s \<Longrightarrow> \<exists>g \<in> set gs. scoped u g s"
  using global_scoped by (cases gs) auto

end

lemma role_query_mono: "(\<And>r. p r \<Longrightarrow> q r) \<Longrightarrow> role_query p db \<Longrightarrow> role_query q db"
  by (auto simp: role_query_def list_ex_iff split: option.splits)

interpretation owners: authority is_owner has_admin_privilege is_any_admin
proof
  show "is_owner u s \<Longrightarrow> has_admin_privilege u g s" for u s g
    unfolding is_owner_def has_admin_privilege_def by (erule role_query_mono[rotated]) blast
  show "has_admin_privilege u g s \<Longrightarrow> is_any_admin u s" for u s g
    unfolding is_any_admin_def has_admin_privilege_def by (erule role_query_mono[rotated]) blast
qed

interpretation global_admins: authority is_global_admin has_admin_privilege is_any_admin
proof
  show "is_global_admin u s \<Longrightarrow> has_admin_privilege u g s" for u s g
    unfolding is_global_admin_def has_admin_privilege_def by (erule role_query_mono[rotated]) blast
  show "has_admin_privilege u g s \<Longrightarrow> is_any_admin u s" for u s g
    by (rule owners.scoped_any)
qed

section \<open>Facts about owners\<close>

definition owner_ids :: "role_db \<Rightarrow> string list" where
  "owner_ids db = (case user_roles db of None \<Rightarrow> []
     | Some rs \<Rightarrow> map rr_user (filter (\<lambda>r. rr_role r = ''owner'') rs))"

lemma ensure_user_row_roles [simp]: "user_roles (ensure_user_row u now db) = user_roles db"
  by (simp add: ensure_user_row_def)

lemma first_login_owner:
  assumes "user_roles db = Some rs" "owner_ids db = []" "\<And>r d. insert_ok r d"
  shows "owner_ids (ensure_owner_role_on_first_login insert_ok u now db) = [u]"
    and "user_roles (ensure_owner_role_on_first_login insert_ok u now db) \<noteq> None"
proof -
  have "\<not> list_ex (\<lambda>x. rr_role x = ''owner'') rs"
    using assms(1,2) by (simp add: owner_ids_def list_ex_iff filter_empty_conv)
  then have e: "user_roles (ensure_owner_role_on_first_login insert_ok u now db)
      = Some (rs @ [\<lparr>rr_user = u, rr_role = ''owner'', rr_group = None, rr_granted_by = None, rr_at = now\<rparr>])"
    using assms(1,3) by (simp add: ensure_owner_role_on_first_login_def Let_def)
  then show "owner_ids (ensure_owner_role_on_first_login insert_ok u now db) = [u]"
    using assms(1,2) unfolding owner_ids_def by simp
  show "user_roles (ensure_owner_role_on_first_login insert_ok u now db) \<noteq> None" using e by simp
qed

lemma later_login_same_roles:
  assumes "owner_ids db \<noteq> []"
  shows "user_roles (ensure_owner_role_on_first_login insert_ok u now db) = user_roles db"
proof (cases "user_roles db")
  case None
  then show ?thesis by (simp add: ensure_owner_role_on_first_login_def)
next
  case (Some rs)
  with assms have "list_ex (\<lambda>x. rr_role x = ''owner'') rs"
    by (simp add: owner_ids_def list_ex_iff filter_empty_conv)
  with Some show ?thesis by (simp add: ensure_owner_role_on_first_login_def Let_def)
qed

lemma owner_ids_cong: "user_roles a = user_roles b \<Longrightarrow> owner_ids a = owner_ids b"
  by (simp add: owner_ids_def)

lemma later_logins_same_owners:
  "owner_ids db \<noteq> [] \<Longrightarrow>
   owner_ids (fold (\<lambda>(u, t). ensure_owner_role_on_first_login insert_ok u t) logins db) = owner_ids db"
proof (induction logins arbitrary: db)
  case Nil
  then show ?case by simp
next
  case (Cons l ls)
  obtain u t where l: "l = (u, t)" by fastforce
  have same: "owner_ids (ensure_owner_role_on_first_login insert_ok u t db) = owner_ids db"
    by (intro owner_ids_cong later_login_same_roles Cons.prems)
  then show ?case using Cons.IH[of "ensure_owner_role_on_first_login insert_ok u t db"] Cons.prems
    by (simp add: l)
qed

text \<open>
  On an installation with the permissions tables and no owner, whatever sequence of logins
  follows, exactly one identity is made owner by them: the first.
\<close>

theorem first_login_sole_owner:
  assumes "user_roles db = Some rs" "owner_ids db = []" "\<And>r d. insert_ok r d"
  shows "owner_ids (fold (\<lambda>(u, t). ensure_owner_role_on_first_login insert_ok u t) ((u, t) # logins) db) = [u]"
  using later_logins_same_owners[of "ensure_owner_role_on_first_login insert_ok u t db" insert_ok logins]
    first_login_owner(1)[OF assms, where u = u and now = t] by simp

theorem first_login_sole_owner_witness:
  "owner_ids (fold (\<lambda>(u, t). ensure_owner_role_on_first_login (\<lambda>_ _. True) u t)
     [(''ann'', 1), (''bob'', 2), (''ann'', 3)] \<lparr>user_roles = Some [], users = Some [], audit_log = []\<rparr>) = [''ann'']"
  by (rule first_login_sole_owner) (simp_all add: owner_ids_def)

text \<open>
  Promoting an identity makes it an owner, keeps every other owner, and is idempotent: a second
  grant adds no row and reports that nothing was inserted.
\<close>

theorem grant_owner_idempotent:
  assumes r: "user_roles db = Some rs" and ok: "\<And>r d. insert_ok r d"
    and g: "grant_owner_role insert_ok u by1 t1 db = (done1, db1)"
  shows "is_owner u db1 \<and> (done1 = (\<not> is_owner u db)) \<and> (\<forall>v. is_owner v db1 = (v = u \<or> is_owner v db))
     \<and> (let (done2, db2) = grant_owner_role insert_ok u by2 t2 db1 in
          done2 = False \<and> user_roles db2 = user_roles db1 \<and> audit_log db2 = audit_log db1)"
proof -
  have own: "is_owner v d = list_ex (\<lambda>x. rr_user x = v \<and> rr_role x = ''owner'' \<and> rr_group x = None) qs"
    if "user_roles d = Some qs" for v d qs
    using that by (simp add: is_owner_def role_query_def)
  have again: "\<exists>db2. grant_owner_role insert_ok u gb t d = (False, db2) \<and> user_roles db2 = user_roles d
      \<and> audit_log db2 = audit_log d" if "is_owner u d" "user_roles d = Some qs" for d qs gb t
    using that by (simp add: own grant_owner_role_def Let_def ensure_user_row_def)
  have "is_owner u db1 \<and> (done1 = (\<not> is_owner u db)) \<and> (\<forall>v. is_owner v db1 = (v = u \<or> is_owner v db))
      \<and> (\<exists>qs. user_roles db1 = Some qs)"
  proof (cases "is_owner u db")
    case True
    from again[OF True r, of by1 t1] g have "done1 = False" "user_roles db1 = user_roles db" by auto
    with True r show ?thesis by (auto simp: is_owner_def role_query_def)
  next
    case False
    then have "\<not> list_ex (\<lambda>x. rr_user x = u \<and> rr_role x = ''owner'' \<and> rr_group x = None) rs"
      using own[OF r] by simp
    then obtain q where q: "done1 = True" "user_roles db1 = Some (rs @ [q])" "rr_user q = u"
      "rr_role q = ''owner''" "rr_group q = None"
      using g r ok by (auto simp: grant_owner_role_def Let_def)
    then show ?thesis using False own[OF r] own[OF q(2)] by auto
  qed
  then obtain qs where first: "is_owner u db1" "done1 = (\<not> is_owner u db)"
      "\<forall>v. is_owner v db1 = (v = u \<or> is_owner v db)" and qs: "user_roles db1 = Some qs" by blast
  obtain db2 where "grant_owner_role insert_ok u by2 t2 db1 = (False, db2)"
      "user_roles db2 = user_roles db1" "audit_log db2 = audit_log db1"
    using again[OF first(1) qs] by blast
  with first show ?thesis by simp
qed

theorem grant_owner_idempotent_witness:
  "is_owner ''ann'' (snd (grant_owner_role (\<lambda>_ _. True) ''ann'' (Some ''why'') 1
     \<lparr>user_roles = Some [], users = Some [], audit_log = []\<rparr>))"
proof -
  let ?g = "grant_owner_role (\<lambda>_ _. True) ''ann'' (Some ''why'') 1
     \<lparr>user_roles = Some [], users = Some [], audit_log = []\<rparr>"
  have "?g = (fst ?g, snd ?g)" by simp
  from grant_owner_idempotent[OF _ _ this] show ?thesis by simp
qed


text \<open>
  Archiving is for authority over the room: an owner or global admin archives any room, an admin
  of one wired agent archives that room, and whoever holds no admin role at all archives none.
\<close>

theorem archive_authority:
  "can_archive_room api rdb db u rid
     = (is_owner u rdb \<or> is_global_admin u rdb
        \<or> list_ex (\<lambda>a. has_admin_privilege u (ag_id a) rdb) (get_agents_for_webchat_room api rid db))
   \<and> \<not> (can_archive_room api rdb db u rid \<and> \<not> is_any_admin u rdb)"
proof -
  have "is_any_admin u rdb" if "can_archive_room api rdb db u rid"
    using that owners.global_any global_admins.global_any owners.scoped_any
    by (auto simp: can_archive_room_def any_admin_of_eq split: if_splits)
  then show ?thesis by (auto simp: can_archive_room_def any_admin_of_eq list_ex_iff)
qed

end
