(* ===== verification/LimitRetry.thy ===== *)
theory LimitRetry
  imports Access UserState ThreadStore
begin

text \<open>
  Re-sending a message when a rate limit lifts (\<open>channels/webchat/limit-retry.ts\<close>): scheduling one
  retry per thread, cancelling it, and the sweep that claims each due row by deleting it, checks
  room, thread and access again, and stores, announces and hands over the message. Whether a step
  of one retry raises, and where, is the parameter \<open>fault\<close>.
\<close>

definition JITTER_MIN_MS :: int where "JITTER_MIN_MS = 10000"

definition JITTER_MAX_MS :: int where "JITTER_MAX_MS = 60000"

text \<open>\<open>JITTER_MIN_MS + Math.floor(Math.random() * (JITTER_MAX_MS - JITTER_MIN_MS))\<close>, for a draw in \<open>[0, 1)\<close>.\<close>

definition jitter :: "real \<Rightarrow> int" where
  "jitter u = JITTER_MIN_MS + \<lfloor>u * of_int (JITTER_MAX_MS - JITTER_MIN_MS)\<rfloor>"

datatype schedule_result = Scheduled limit_retry | Refused nat string "limit_retry option"

text \<open>An announcement: room, thread, notice, retry time, scheduler's name.\<close>

type_synonym announcement = "string \<times> string \<times> string \<times> millis option \<times> string option"

definition pending_for :: "string \<Rightarrow> string \<Rightarrow> chat_db \<Rightarrow> limit_retry option" where
  "pending_for room th db = tbl_get lr_key (room, th) (c_retries db)"

definition last_own_text :: "string \<Rightarrow> string \<Rightarrow> string \<Rightarrow> millis \<Rightarrow> chat_db \<Rightarrow> message option" where
  "last_own_text room th user at_most db =
     (case newest 1 (filter (\<lambda>m. m_room m = room \<and> m_thread m = th \<and> m_sender_id m = Some user
               \<and> m_kind m = KText \<and> m_at m \<le> at_most) (c_messages db)) of
        [] \<Rightarrow> None | m # _ \<Rightarrow> Some m)"

definition schedule_limit_retry ::
  "string \<Rightarrow> string \<Rightarrow> string \<Rightarrow> millis \<Rightarrow> int \<Rightarrow> string \<Rightarrow> chat_db \<Rightarrow> schedule_result \<times> announcement list \<times> chat_db" where
  "schedule_limit_retry room notice_id user now jit uuid db =
     (case find (\<lambda>m. m_id m = notice_id \<and> m_room m = room) (c_messages db) of
        None \<Rightarrow> (Refused 404 ''No limit notice'' None, [], db)
      | Some notice \<Rightarrow> (case m_resets notice of
          None \<Rightarrow> (Refused 404 ''No limit notice'' None, [], db)
        | Some resets \<Rightarrow>
           if resets \<le> now then (Refused 409 ''The limit has already reset'' None, [], db)
           else (case pending_for room (m_thread notice) db of
             Some e \<Rightarrow> (Refused 409 ''A retry is already scheduled'' (Some e), [], db)
           | None \<Rightarrow> (case last_own_text room (m_thread notice) user (m_at notice) db of
               None \<Rightarrow> (Refused 409 ''Nothing to retry'' None, [], db)
             | Some m \<Rightarrow>
                (let r = \<lparr>lr_id = uuid, lr_room = room, lr_thread = m_thread notice, lr_notice = m_id notice,
                          lr_user = user, lr_sender = m_sender m, lr_sender_type = m_sender_type m,
                          lr_content = m_content m, lr_retry_at = resets + jit, lr_created = now\<rparr>;
                     db' = db\<lparr>c_retries := tbl_insert_new lr_key r (c_retries db)\<rparr>
                 in if length (c_retries db') = length (c_retries db)
                    then (Refused 409 ''A retry is already scheduled'' (pending_for room (m_thread notice) db'), [], db')
                    else (Scheduled r, [(room, lr_thread r, lr_notice r, Some (lr_retry_at r), Some (lr_sender r))], db'))))))"

text \<open>\<open>Some\<close> status is a refusal.\<close>

definition cancel_limit_retry ::
  "(string \<Rightarrow> string \<Rightarrow> bool) \<Rightarrow> string \<Rightarrow> string \<Rightarrow> string \<Rightarrow> chat_db \<Rightarrow> nat option \<times> announcement list \<times> chat_db" where
  "cancel_limit_retry may_archive room th user db = (case pending_for room th db of
     None \<Rightarrow> (Some 404, [], db)
   | Some r \<Rightarrow> if lr_user r \<noteq> user \<and> \<not> may_archive user room then (Some 403, [], db)
       else (None, [(room, th, lr_notice r, None, None)],
             db\<lparr>c_retries := tbl_delete (\<lambda>x. lr_id x = lr_id r) (c_retries db)\<rparr>))"

text \<open>Each message with its pending retry's time and scheduler.\<close>

definition with_limit_retries :: "message list \<Rightarrow> chat_db \<Rightarrow> (message \<times> (millis \<times> string) option) list" where
  "with_limit_retries ms db =
     (let notices = filter (\<lambda>m. m_resets m \<noteq> None) ms;
          rows = filter (\<lambda>r. lr_notice r \<in> set (map m_id notices)) (c_retries db)
      in map (\<lambda>m. (m, map_option (\<lambda>r. (lr_retry_at r, lr_sender r))
                        (find (\<lambda>r. lr_notice r = m_id m) (rev rows)))) ms)"

section \<open>The sweep\<close>

datatype fault = NoFault | FailBefore | FailAfter

record retry_world =
  rw_db :: chat_db
  rw_announced :: "announcement list"
  rw_stored :: "(limit_retry \<times> message) list"
  rw_handed :: "(limit_retry \<times> string option) list"

definition thread_exists :: "limit_retry \<Rightarrow> chat_db \<Rightarrow> bool" where
  "thread_exists r db = (lr_thread r = MAIN_THREAD \<or> get_webchat_thread (lr_room r) (lr_thread r) db \<noteq> None)"

definition restore :: "limit_retry \<Rightarrow> limit_retry list \<Rightarrow> limit_retry list" where
  "restore r t = (if list_ex (\<lambda>x. lr_id x = lr_id r \<or> lr_key x = lr_key r) t then t else t @ [r])"

definition claim :: "limit_retry \<Rightarrow> limit_retry list \<Rightarrow> limit_retry list" where
  "claim r t = tbl_delete (\<lambda>x. lr_id x = lr_id r) t"

definition unannounce :: "limit_retry \<Rightarrow> announcement" where
  "unannounce r = (lr_room r, lr_thread r, lr_notice r, None, None)"

definition send_stored :: "limit_retry \<Rightarrow> message \<Rightarrow> millis \<Rightarrow> retry_world \<Rightarrow> retry_world" where
  "send_stored r stored now w = w\<lparr>
     rw_announced := rw_announced w @ [unannounce r],
     rw_db := mark_thread_read (lr_user r) (lr_room r) (lr_thread r) (m_at stored)
                (mark_room_read (lr_user r) (lr_room r) (m_at stored) (rw_db w)),
     rw_handed := rw_handed w @ [(r, thread_to_session_key (Some (lr_thread r)))]\<rparr>"

definition send_one ::
  "mg_api \<Rightarrow> (string \<Rightarrow> string \<Rightarrow> bool) \<Rightarrow> (limit_retry \<Rightarrow> fault) \<Rightarrow> (limit_retry \<Rightarrow> string) \<Rightarrow> millis
   \<Rightarrow> limit_retry \<Rightarrow> retry_world \<Rightarrow> bool \<times> retry_world" where
  "send_one api access fault uuid now r w =
     (let db = rw_db w in
      if \<not> list_ex (\<lambda>x. lr_id x = lr_id r) (c_retries db) then (False, w)
      else
        (let db1 = db\<lparr>c_retries := claim r (c_retries db)\<rparr> in
         if fault r = FailBefore then (False, w\<lparr>rw_db := db1\<lparr>c_retries := restore r (c_retries db1)\<rparr>\<rparr>)
         else if get_webchat_room api (lr_room r) now db1 = None then (False, w\<lparr>rw_db := db1\<rparr>)
         else if \<not> thread_exists r db1 then (False, w\<lparr>rw_db := db1\<rparr>)
         else if \<not> access (lr_user r) (lr_room r)
         then (False, w\<lparr>rw_db := db1, rw_announced := rw_announced w @ [unannounce r]\<rparr>)
         else
           (let (stored, db2) = store_webchat_message (lr_room r) (lr_sender r) (lr_sender_type r) (lr_content r)
                  (lr_thread r) (Some (lr_user r)) None None (uuid r) now db1;
                w1 = w\<lparr>rw_db := db2, rw_stored := rw_stored w @ [(r, stored)]\<rparr>
            in if fault r = FailAfter then (False, w1) else (True, send_stored r stored now w1))))"

fun send_each ::
  "mg_api \<Rightarrow> (string \<Rightarrow> string \<Rightarrow> bool) \<Rightarrow> (limit_retry \<Rightarrow> fault) \<Rightarrow> (limit_retry \<Rightarrow> string) \<Rightarrow> millis
   \<Rightarrow> limit_retry list \<Rightarrow> retry_world \<Rightarrow> nat \<times> retry_world" where
  "send_each api access fault uuid now [] w = (0, w)"
| "send_each api access fault uuid now (r # rs) w =
     (let (ok, w1) = send_one api access fault uuid now r w;
          (n, w2) = send_each api access fault uuid now rs w1
      in (if ok then Suc n else n, w2))"

definition send_due_limit_retries ::
  "mg_api \<Rightarrow> (string \<Rightarrow> string \<Rightarrow> bool) \<Rightarrow> (limit_retry \<Rightarrow> fault) \<Rightarrow> (limit_retry \<Rightarrow> string) \<Rightarrow> bool \<Rightarrow> millis
   \<Rightarrow> retry_world \<Rightarrow> nat \<times> retry_world" where
  "send_due_limit_retries api access fault uuid inbound now w =
     (if \<not> inbound \<or> \<not> c_has (rw_db w) ''webchat_limit_retries'' then (0, w)
      else send_each api access fault uuid now
        (sort_key lr_retry_at (filter (\<lambda>r. lr_retry_at r \<le> now) (c_retries (rw_db w)))) w)"

section \<open>Interleaved sweeps\<close>

text \<open>
  Any number of sweeps, requests and cancellations at once. A sweep works from the rows it read when it
  began (\<open>sw_due\<close>), which others may meanwhile have claimed, cancelled or put back; a row it
  claimed is in nobody else's hands until it is delivered, dropped or put back.
\<close>

record sweeps =
  sw_pending :: "limit_retry list"
  sw_due :: "limit_retry list list"
  sw_claimed :: "limit_retry list"
  sw_sent :: "limit_retry list"

definition used_ids :: "sweeps \<Rightarrow> string set" where
  "used_ids s = lr_id ` (set (sw_pending s) \<union> set (sw_claimed s) \<union> set (sw_sent s) \<union> \<Union> (set ` set (sw_due s)))"

inductive sweep_step :: "sweeps \<Rightarrow> sweeps \<Rightarrow> bool" where
  sched: "lr_id r \<notin> used_ids s \<Longrightarrow> tbl_get lr_key (lr_key r) (sw_pending s) = None
    \<Longrightarrow> sweep_step s (s\<lparr>sw_pending := sw_pending s @ [r]\<rparr>)"
| cancel: "sweep_step s (s\<lparr>sw_pending := tbl_delete (\<lambda>x. lr_id x = i) (sw_pending s)\<rparr>)"
| start: "set rs \<subseteq> set (sw_pending s) \<Longrightarrow> sweep_step s (s\<lparr>sw_due := rs # sw_due s\<rparr>)"
| lost: "sw_due s = a @ (r # rs) # b \<Longrightarrow> lr_id r \<notin> lr_id ` set (sw_pending s)
    \<Longrightarrow> sweep_step s (s\<lparr>sw_due := a @ rs # b\<rparr>)"
| won: "sw_due s = a @ (r # rs) # b \<Longrightarrow> lr_id r \<in> lr_id ` set (sw_pending s)
    \<Longrightarrow> sweep_step s (s\<lparr>sw_due := a @ rs # b, sw_pending := claim r (sw_pending s), sw_claimed := r # sw_claimed s\<rparr>)"
| dropped: "sw_claimed s = a @ r # b \<Longrightarrow> sweep_step s (s\<lparr>sw_claimed := a @ b\<rparr>)"
| put_back: "sw_claimed s = a @ r # b
    \<Longrightarrow> sweep_step s (s\<lparr>sw_claimed := a @ b, sw_pending := restore r (sw_pending s)\<rparr>)"
| sent: "sw_claimed s = a @ r # b \<Longrightarrow> sweep_step s (s\<lparr>sw_claimed := a @ b, sw_sent := sw_sent s @ [r]\<rparr>)"

inductive_cases sweep_stepE: "sweep_step s s'"

abbreviation sweep_run :: "sweeps \<Rightarrow> sweeps \<Rightarrow> bool" where
  "sweep_run \<equiv> sweep_step\<^sup>*\<^sup>*"

text \<open>No id is in two of the three places, or twice in one; the table holds one row per thread.\<close>

definition sweeps_ok :: "sweeps \<Rightarrow> bool" where
  "sweeps_ok s = (distinct (map lr_id (sw_pending s @ sw_claimed s @ sw_sent s))
     \<and> keyed lr_key (sw_pending s))"

lemma claim_ids: "lr_id ` set (claim r t) = lr_id ` set t - {lr_id r}"
  by (auto simp: claim_def)

lemma distinct_claim: "distinct (map lr_id t) \<Longrightarrow> distinct (map lr_id (claim r t))"
  by (simp add: claim_def tbl_delete_def distinct_map_filterI)

lemma sweep_step_ok:
  assumes "sweep_step s s'" "sweeps_ok s"
  shows "sweeps_ok s'"
  using assms
proof (cases rule: sweep_step.cases)
  case (sched r)
  have "lr_id r \<notin> lr_id ` (set (sw_pending s) \<union> set (sw_claimed s) \<union> set (sw_sent s))"
    using sched(2) by (auto simp: used_ids_def)
  with sched assms(2) show ?thesis by (auto simp: sweeps_ok_def keyed_def tbl_get_None)
next
  case (cancel i)
  have "distinct (map lr_id (tbl_delete (\<lambda>x. lr_id x = i) (sw_pending s)))"
    using assms(2) by (simp add: sweeps_ok_def tbl_delete_def distinct_map_filterI)
  with cancel assms(2) show ?thesis by (auto simp: sweeps_ok_def intro!: keyed_delete)
next
  case (start rs)
  with assms(2) show ?thesis by (simp add: sweeps_ok_def)
next
  case (lost a r rs b)
  with assms(2) show ?thesis by (simp add: sweeps_ok_def)
next
  case (won a r rs b)
  have "lr_id r \<notin> lr_id ` set (sw_claimed s) \<union> lr_id ` set (sw_sent s)"
    using won(3) assms(2) by (auto simp: sweeps_ok_def)
  moreover have "keyed lr_key (claim r (sw_pending s))"
    using assms(2) unfolding claim_def sweeps_ok_def by (intro keyed_delete) simp
  ultimately show ?thesis using won(1) assms(2) distinct_claim[of "sw_pending s" r] claim_ids[of r "sw_pending s"]
    by (auto simp: sweeps_ok_def)
next
  case (dropped a r b)
  with assms(2) show ?thesis by (auto simp: sweeps_ok_def)
next
  case (put_back a r b)
  show ?thesis
  proof (cases "list_ex (\<lambda>x. lr_id x = lr_id r \<or> lr_key x = lr_key r) (sw_pending s)")
    case True
    with put_back assms(2) show ?thesis by (auto simp: sweeps_ok_def restore_def)
  next
    case False
    then have "lr_key r \<notin> lr_key ` set (sw_pending s)" by (auto simp: list_ex_iff)
    with False put_back assms(2) show ?thesis by (auto simp: sweeps_ok_def restore_def keyed_def)
  qed
next
  case (sent a r b)
  with assms(2) show ?thesis by (auto simp: sweeps_ok_def)
qed

lemma sweep_run_ok: "sweep_run s s' \<Longrightarrow> sweeps_ok s \<Longrightarrow> sweeps_ok s'"
  by (induction rule: rtranclp_induct) (auto intro: sweep_step_ok)

text \<open>
  C24: however sweeps, new requests and cancellations interleave, no scheduled retry is sent twice, a
  thread never has two pending retries, and a retry that was sent is not pending or being sent.
\<close>

theorem retry_sent_at_most_once:
  assumes "sweep_run \<lparr>sw_pending = [], sw_due = [], sw_claimed = [], sw_sent = []\<rparr> s"
  shows "distinct (map lr_id (sw_sent s))
     \<and> lr_id ` set (sw_sent s) \<inter> lr_id ` (set (sw_pending s) \<union> set (sw_claimed s)) = {}
     \<and> keyed lr_key (sw_pending s)"
proof -
  have "sweeps_ok \<lparr>sw_pending = [], sw_due = [], sw_claimed = [], sw_sent = []\<rparr>"
    by (simp add: sweeps_ok_def)
  with assms have "sweeps_ok s" by (rule sweep_run_ok)
  then show ?thesis by (auto simp: sweeps_ok_def)
qed

definition sample_retry :: "string \<Rightarrow> string \<Rightarrow> limit_retry" where
  "sample_retry i th = \<lparr>lr_id = i, lr_room = ''r'', lr_thread = th, lr_notice = ''n'', lr_user = ''u'',
     lr_sender = ''u'', lr_sender_type = ''user'', lr_content = ''hi'', lr_retry_at = 5, lr_created = 1\<rparr>"

theorem retry_sent_at_most_once_witness:
  "distinct (map lr_id (sw_sent \<lparr>sw_pending = [sample_retry ''x'' ''main''], sw_due = [], sw_claimed = [], sw_sent = []\<rparr>))"
proof -
  let ?s0 = "\<lparr>sw_pending = [], sw_due = [], sw_claimed = [], sw_sent = []\<rparr>"
  have "sweep_step ?s0 (?s0\<lparr>sw_pending := sw_pending ?s0 @ [sample_retry ''x'' ''main'']\<rparr>)"
    by (rule sched) (simp_all add: used_ids_def tbl_get_def)
  then have "sweep_run ?s0 \<lparr>sw_pending = [sample_retry ''x'' ''main''], sw_due = [], sw_claimed = [], sw_sent = []\<rparr>"
    by simp
  then show ?thesis by (rule retry_sent_at_most_once[THEN conjunct1])
qed

section \<open>The sweep is a run of those steps\<close>

definition sweep_view :: "limit_retry list list \<Rightarrow> retry_world \<Rightarrow> sweeps" where
  "sweep_view due w = \<lparr>sw_pending = c_retries (rw_db w), sw_due = due, sw_claimed = [],
     sw_sent = map fst (rw_stored w)\<rparr>"

lemma send_stored_view [simp]:
  "c_retries (rw_db (send_stored r m now w)) = c_retries (rw_db w)"
  "rw_stored (send_stored r m now w) = rw_stored w"
  by (simp_all add: send_stored_def mark_thread_read_def mark_room_read_def)

lemma send_one_run:
  assumes "send_one api access fault uuid now r w = (ok, w')"
  shows "sweep_run (sweep_view ((r # rs) # due) w) (sweep_view (rs # due) w')"
proof (cases "list_ex (\<lambda>x. lr_id x = lr_id r) (c_retries (rw_db w))")
  case False
  then have "w' = w" using assms by (simp add: send_one_def)
  moreover have "sweep_step (sweep_view ((r # rs) # due) w) (sweep_view ((r # rs) # due) w\<lparr>sw_due := [] @ rs # due\<rparr>)"
    by (rule lost[where r = r]) (use False in \<open>auto simp: sweep_view_def list_ex_iff\<close>)
  ultimately show ?thesis by (auto simp: sweep_view_def)
next
  case True
  let ?db1 = "rw_db w\<lparr>c_retries := claim r (c_retries (rw_db w))\<rparr>"
  let ?mid = "\<lparr>sw_pending = claim r (c_retries (rw_db w)), sw_due = rs # due, sw_claimed = [r],
     sw_sent = map fst (rw_stored w)\<rparr>"
  have "sweep_step (sweep_view ((r # rs) # due) w)
      (sweep_view ((r # rs) # due) w\<lparr>sw_due := [] @ rs # due, sw_pending := claim r (sw_pending (sweep_view ((r # rs) # due) w)),
         sw_claimed := r # sw_claimed (sweep_view ((r # rs) # due) w)\<rparr>)"
  proof (rule won[where r = r])
    show "lr_id r \<in> lr_id ` set (sw_pending (sweep_view ((r # rs) # due) w))"
      using True unfolding sweep_view_def list_ex_iff sweeps.simps by (metis image_eqI)
  qed (simp add: sweep_view_def)
  then have first: "sweep_step (sweep_view ((r # rs) # due) w) ?mid" by (simp add: sweep_view_def)
  have last_step: "sweep_step ?mid (sweep_view (rs # due) w')"
    if "(rw_stored w' = rw_stored w \<and> c_retries (rw_db w') = claim r (c_retries (rw_db w)))
      \<or> (rw_stored w' = rw_stored w \<and> c_retries (rw_db w') = restore r (claim r (c_retries (rw_db w))))
      \<or> (map fst (rw_stored w') = map fst (rw_stored w) @ [r] \<and> c_retries (rw_db w') = claim r (c_retries (rw_db w)))"
    using that
  proof (elim disjE conjE)
    assume e: "rw_stored w' = rw_stored w" "c_retries (rw_db w') = claim r (c_retries (rw_db w))"
    have "sweep_step ?mid (?mid\<lparr>sw_claimed := [] @ []\<rparr>)" by (rule dropped) simp
    then show ?thesis by (simp add: sweep_view_def e)
  next
    assume e: "rw_stored w' = rw_stored w" "c_retries (rw_db w') = restore r (claim r (c_retries (rw_db w)))"
    have "sweep_step ?mid (?mid\<lparr>sw_claimed := [] @ [], sw_pending := restore r (sw_pending ?mid)\<rparr>)"
      by (rule put_back) simp
    then show ?thesis by (simp add: sweep_view_def e)
  next
    assume e: "map fst (rw_stored w') = map fst (rw_stored w) @ [r]" "c_retries (rw_db w') = claim r (c_retries (rw_db w))"
    have "sweep_step ?mid (?mid\<lparr>sw_claimed := [] @ [], sw_sent := sw_sent ?mid @ [r]\<rparr>)" by (rule sent) simp
    then show ?thesis by (simp add: sweep_view_def e)
  qed
  have "sweep_step ?mid (sweep_view (rs # due) w')"
    by (rule last_step) (use assms True in \<open>auto simp: send_one_def Let_def store_webchat_message_def put_message_def
        split: if_splits\<close>)
  with first show ?thesis by (meson converse_rtranclp_into_rtranclp r_into_rtranclp)
qed

lemma send_each_run:
  "send_each api access fault uuid now rs w = (n, w')
   \<Longrightarrow> sweep_run (sweep_view (rs # due) w) (sweep_view ([] # due) w')"
proof (induction rs arbitrary: w n)
  case Nil
  then show ?case by simp
next
  case (Cons r rs)
  obtain ok w1 where one: "send_one api access fault uuid now r w = (ok, w1)" by fastforce
  obtain m where rest: "send_each api access fault uuid now rs w1 = (m, w')"
    using Cons.prems one by (auto split: prod.splits if_splits)
  from send_one_run[OF one] Cons.IH[OF rest] show ?case by (meson rtranclp_trans)
qed

text \<open>
  C38: one sweep of the program is a run of the interleaving model: it reads the due rows and then only
  claims, drops, puts back or sends them one by one, whatever fails on the way.
\<close>

theorem sweep_refines_interleaving:
  assumes "send_due_limit_retries api access fault uuid True now w = (n, w')"
    and "c_has (rw_db w) ''webchat_limit_retries''"
  shows "sweep_run (sweep_view due w) (sweep_view ([] # due) w')"
proof -
  let ?rs = "sort_key lr_retry_at (filter (\<lambda>r. lr_retry_at r \<le> now) (c_retries (rw_db w)))"
  have "send_each api access fault uuid now ?rs w = (n, w')"
    using assms by (simp add: send_due_limit_retries_def)
  then have run: "sweep_run (sweep_view (?rs # due) w) (sweep_view ([] # due) w')" by (rule send_each_run)
  have "sweep_step (sweep_view due w) (sweep_view due w\<lparr>sw_due := ?rs # sw_due (sweep_view due w)\<rparr>)"
    by (rule start) (auto simp: sweep_view_def)
  then have "sweep_step (sweep_view due w) (sweep_view (?rs # due) w)" by (simp add: sweep_view_def)
  with run show ?thesis by (rule converse_rtranclp_into_rtranclp[rotated])
qed

definition retry_example :: retry_world where
  "retry_example = \<lparr>rw_db = example_db\<lparr>c_retries := [sample_retry ''x'' ''main'']\<rparr>, rw_announced = [],
     rw_stored = [], rw_handed = []\<rparr>"

theorem sweep_refines_interleaving_witness:
  "sweep_run (sweep_view [] retry_example)
     (sweep_view [[]] (snd (send_due_limit_retries host_mg_api (\<lambda>_ _. True) (\<lambda>_. NoFault) (\<lambda>_. ''id'') True 9 retry_example)))"
  by (rule sweep_refines_interleaving[OF surjective_pairing])
     (simp add: retry_example_def example_db_def empty_db_def)

end
