(* ===== verification/Retention.thy ===== *)
theory Retention
  imports ChatDb
begin

text \<open>
  Retention of sessions nobody can resume (\<open>src/session-retention.ts\<close>): which sessions a new message
  would resume, what the central database still waits on, the screen, closing, and the two-pass prune.
  What the host sees outside the database (live containers, file times, mailboxes) is the record
  \<open>host\<close>, where \<open>None\<close> is a raised error; what others do to the database during the grace period and
  between the second screen and the delete are the parameters \<open>grace\<close> and \<open>meanwhile\<close>. Walks of the
  session folder are over a tree of entries; the anchored directory itself belongs to the host.
\<close>

definition DAY_MS :: int where "DAY_MS = 24 * 60 * 60 * 1000"

definition MAX_KEEP_DAYS :: int where "MAX_KEEP_DAYS = 36500"

text \<open>\<open>number\<close> reads an integer out of text, as \<open>Number\<close> does; other text gives \<open>None\<close>.\<close>

definition retention_days :: "(string \<Rightarrow> int option) \<Rightarrow> string option \<Rightarrow> int" where
  "retention_days number raw = (case raw of None \<Rightarrow> 0
     | Some s \<Rightarrow> (let t = js_trim s in
         if t = [] then 0
         else (case number t of None \<Rightarrow> 0 | Some n \<Rightarrow> if n < 0 \<or> MAX_KEEP_DAYS < n then 0 else n)))"

record session_state =
  se_id :: string
  se_agent :: string
  se_mg :: "string option"
  se_thread :: "string option"
  se_status :: string
  se_container :: string
  se_last :: "millis option"
  se_created :: millis

record claim_row =
  cl_session :: string
  cl_by :: "string option"
  cl_stop :: "string option"

record central =
  ce_sessions :: "session_state list"
  ce_claims :: "claim_row list option"
  ce_questions :: "string list"
  ce_approvals :: "(string option \<times> string) list option"
  ce_attempts :: "string list option"
  ce_wakes :: "(string \<times> millis option) list option"
  ce_groups :: "mg_row list"
  ce_pins :: "pin_row list option"

record host =
  ho_running :: "string \<Rightarrow> bool"
  ho_files :: "string \<Rightarrow> string \<Rightarrow> millis option"
  ho_busy :: "string \<Rightarrow> string \<Rightarrow> bool option"

section \<open>What a message would resume\<close>

definition ts_of :: "millis option \<Rightarrow> millis" where
  "ts_of t = coalesce t 0"

definition activity :: "session_state \<Rightarrow> millis" where
  "activity r = max (ts_of (se_last r)) (se_created r)"

definition is_system_thread :: "session_state \<Rightarrow> bool" where
  "is_system_thread r = (se_mg r = None
     \<and> (case se_thread r of None \<Rightarrow> False | Some t \<Rightarrow> starts_with t ''system:''))"

text \<open>Absent chat and thread read as empty, as in the code's key.\<close>

definition conv_key :: "session_state \<Rightarrow> string \<times> string \<times> string" where
  "conv_key r = (se_agent r, coalesce (se_mg r) [], coalesce (se_thread r) [])"

definition newer_in_conv :: "session_state \<Rightarrow> session_state \<Rightarrow> bool" where
  "newer_in_conv r prev = (activity prev < activity r \<or> (activity r = activity prev \<and> se_id prev < se_id r))"

definition note_conv :: "session_state \<Rightarrow> session_state list \<Rightarrow> session_state list" where
  "note_conv r m = (case tbl_get conv_key (conv_key r) m of
     None \<Rightarrow> tbl_upsert conv_key r m
   | Some prev \<Rightarrow> if newer_in_conv r prev then tbl_upsert conv_key r m else m)"

definition note_agent :: "session_state \<Rightarrow> session_state list \<Rightarrow> session_state list" where
  "note_agent r m = (case tbl_get se_agent (se_agent r) m of
     None \<Rightarrow> tbl_upsert se_agent r m
   | Some prev \<Rightarrow> if se_created prev < se_created r then tbl_upsert se_agent r m else m)"

fun note_rows ::
  "session_state list \<Rightarrow> session_state list \<times> session_state list \<Rightarrow> session_state list \<times> session_state list" where
  "note_rows [] (conv, agents) = (conv, agents)"
| "note_rows (r # rs) (conv, agents) =
     (if se_status r \<noteq> ''active'' then note_rows rs (conv, agents)
      else if is_system_thread r then note_rows rs (note_conv r conv, agents)
      else note_rows rs (note_conv r conv, note_agent r agents))"

definition continuations :: "session_state list \<Rightarrow> string set" where
  "continuations rows = (let (conv, agents) = note_rows rows ([], []) in
     set (map se_id conv) \<union> set (map se_id agents))"

section \<open>What the database waits on\<close>

definition add_blocks :: "string \<Rightarrow> string list \<Rightarrow> (string \<times> string) list \<Rightarrow> (string \<times> string) list" where
  "add_blocks reason ids m = fold (\<lambda>i m. if i = [] then m else tbl_insert_new fst (i, reason) m) ids m"

definition central_blocks :: "central \<Rightarrow> (string \<times> string) list" where
  "central_blocks c =
     (let b1 = add_blocks ''claimed'' (case ce_claims c of None \<Rightarrow> []
                 | Some t \<Rightarrow> map cl_session (filter (\<lambda>r. cl_by r \<noteq> None \<or> cl_stop r \<noteq> None) t)) [];
          b2 = add_blocks ''open-question'' (ce_questions c) b1;
          b3 = add_blocks ''open-approval'' (case ce_approvals c of None \<Rightarrow> []
                 | Some t \<Rightarrow> List.map_filter fst (filter (\<lambda>r. snd r = ''pending'' \<or> snd r = ''awaiting_reason'') t)) b2
      in add_blocks ''wake-pending'' (case ce_wakes c of None \<Rightarrow> []
           | Some t \<Rightarrow> map fst (filter (\<lambda>r. snd r = None) t)) b3)"

definition pinned_chats :: "central \<Rightarrow> string set" where
  "pinned_chats c = (case ce_pins c of None \<Rightarrow> {}
     | Some pins \<Rightarrow> set (map mg_id (filter (\<lambda>g. mg_channel g = ''webchat''
                       \<and> list_ex (\<lambda>p. pin_room p = mg_platform g) pins) (ce_groups c))))"

record screen_context =
  cx_cutoff :: millis
  cx_continuations :: "string set"
  cx_pinned :: "string set"
  cx_blocked :: "(string \<times> string) list"

definition build_context :: "millis \<Rightarrow> central \<Rightarrow> screen_context" where
  "build_context cutoff c = \<lparr>cx_cutoff = cutoff, cx_continuations = continuations (ce_sessions c),
     cx_pinned = pinned_chats c, cx_blocked = central_blocks c\<rparr>"

text \<open>The first rule that keeps the session (\<open>None\<close>: it may go) and its last activity; \<open>Inl ()\<close> is a raised error.\<close>

definition screen :: "screen_context \<Rightarrow> host \<Rightarrow> session_state \<Rightarrow> unit + string option \<times> millis" where
  "screen ctx h row =
     (let last1 = activity row in
      if cx_cutoff ctx \<le> last1 then Inr (Some ''recent'', last1)
      else if se_container row \<noteq> ''stopped'' \<or> ho_running h (se_id row) then Inr (Some ''container'', last1)
      else (case tbl_get fst (se_id row) (cx_blocked ctx) of
        Some (_, why) \<Rightarrow> Inr (Some why, last1)
      | None \<Rightarrow>
         if se_id row \<in> cx_continuations ctx then Inr (Some ''continuation'', last1)
         else if truthy (se_mg row) \<and> the (se_mg row) \<in> cx_pinned ctx then Inr (Some ''pinned'', last1)
         else (case ho_files h (se_agent row) (se_id row) of
           None \<Rightarrow> Inl ()
         | Some f \<Rightarrow> (let last2 = max last1 f in
             if cx_cutoff ctx \<le> last2 then Inr (Some ''recent'', last2)
             else (case ho_busy h (se_agent row) (se_id row) of
               None \<Rightarrow> Inl ()
             | Some True \<Rightarrow> Inr (Some ''mailbox-pending'', last2)
             | Some False \<Rightarrow> Inr (None, last2))))))"

section \<open>Folders\<close>

datatype entry = Leaf int | Folder int "(string \<times> entry) list"

text \<open>A leaf is a file or a link: its own blocks, never what a link points to.\<close>

fun measure_entry :: "entry \<Rightarrow> int" where
  "measure_entry (Leaf n) = n"
| "measure_entry (Folder n es) = n + sum_list (map (\<lambda>(_, e). measure_entry e) es)"

text \<open>Bytes freed by removing every entry of a folder and then the folder.\<close>

fun remove_entry :: "entry \<Rightarrow> int" where
  "remove_entry (Leaf n) = n"
| "remove_entry (Folder n es) = fold (\<lambda>e acc. acc + remove_entry (snd e)) es n"

section \<open>Closing and deleting\<close>

definition unchanged_closed :: "session_state \<Rightarrow> string \<Rightarrow> session_state \<Rightarrow> bool" where
  "unchanged_closed row status x = (se_id x = se_id row \<and> se_status x = status
     \<and> se_container x = ''stopped'' \<and> se_last x = se_last row)"

definition close_session :: "session_state \<Rightarrow> central \<Rightarrow> bool \<times> central" where
  "close_session row c = (list_ex (unchanged_closed row ''active'') (ce_sessions c),
     c\<lparr>ce_sessions := tbl_update (unchanged_closed row ''active'') (\<lambda>x. x\<lparr>se_status := ''closed''\<rparr>) (ce_sessions c)\<rparr>)"

definition reopen_session :: "string \<Rightarrow> central \<Rightarrow> central" where
  "reopen_session i c = c\<lparr>ce_sessions := tbl_update (\<lambda>x. se_id x = i \<and> se_status x = ''closed'')
     (\<lambda>x. x\<lparr>se_status := ''active''\<rparr>) (ce_sessions c)\<rparr>"

definition delete_central_rows :: "session_state \<Rightarrow> central \<Rightarrow> bool \<times> central" where
  "delete_central_rows row c =
     (if \<not> list_ex (unchanged_closed row ''closed'') (ce_sessions c) then (False, c)
      else (True, c\<lparr>
        ce_questions := filter (\<lambda>i. i \<noteq> se_id row) (ce_questions c),
        ce_approvals := map_option (filter (\<lambda>r. fst r \<noteq> Some (se_id row))) (ce_approvals c),
        ce_claims := map_option (filter (\<lambda>r. cl_session r \<noteq> se_id row)) (ce_claims c),
        ce_attempts := map_option (filter (\<lambda>i. i \<noteq> se_id row)) (ce_attempts c),
        ce_wakes := map_option (filter (\<lambda>r. fst r \<noteq> se_id row)) (ce_wakes c),
        ce_sessions := tbl_delete (\<lambda>x. se_id x = se_id row) (ce_sessions c)\<rparr>))"

definition fresh_row :: "string \<Rightarrow> central \<Rightarrow> session_state option" where
  "fresh_row i c = tbl_get se_id i (ce_sessions c)"

section \<open>Pruning\<close>

record prune_report =
  pr_sessions :: "(session_state \<times> millis) list"
  pr_kept :: "string list"
  pr_errors :: "string list"

definition empty_report :: prune_report where
  "empty_report = \<lparr>pr_sessions = [], pr_kept = [], pr_errors = []\<rparr>"

text \<open>The first pass; a kept session is counted under its rule unless it is simply recent.\<close>

fun screen_all ::
  "screen_context \<Rightarrow> host \<Rightarrow> session_state list \<Rightarrow> prune_report \<Rightarrow> (session_state \<times> millis) list \<times> prune_report" where
  "screen_all ctx h [] rep = ([], rep)"
| "screen_all ctx h (row # rows) rep = (case screen ctx h row of
     Inl _ \<Rightarrow> screen_all ctx h rows (rep\<lparr>pr_errors := pr_errors rep @ [se_id row]\<rparr>)
   | Inr (None, t) \<Rightarrow> (let (es, rep') = screen_all ctx h rows rep in ((row, t) # es, rep'))
   | Inr (Some why, _) \<Rightarrow> screen_all ctx h rows
        (if why = ''recent'' then rep else rep\<lparr>pr_kept := pr_kept rep @ [why]\<rparr>))"

fun close_all :: "(session_state \<times> millis) list \<Rightarrow> central \<Rightarrow> string list \<times> central" where
  "close_all [] c = ([], c)"
| "close_all ((row, _) # es) c =
     (if se_status row \<noteq> ''active'' then close_all es c
      else (let (ok, c1) = close_session row c; (ids, c2) = close_all es c1
            in (if ok then se_id row # ids else ids, c2)))"

definition reopen_if :: "string list \<Rightarrow> string \<Rightarrow> central \<Rightarrow> central" where
  "reopen_if shut i c = (if i \<in> set shut then reopen_session i c else c)"

text \<open>
  The second pass. \<open>Inl c\<close> is the run aborted by an error of the second screen, which nothing catches,
  with the database it leaves behind.
\<close>

fun delete_each ::
  "screen_context \<Rightarrow> host \<Rightarrow> (string \<Rightarrow> central \<Rightarrow> central) \<Rightarrow> (string \<Rightarrow> bool) \<Rightarrow> string list
   \<Rightarrow> (session_state \<times> millis) list \<Rightarrow> prune_report \<Rightarrow> central \<Rightarrow> central + prune_report \<times> central" where
  "delete_each ctx h meanwhile delete_fails shut [] rep c = Inr (rep, c)"
| "delete_each ctx h meanwhile delete_fails shut ((screened, _) # es) rep c =
     (case fresh_row (se_id screened) c of
        None \<Rightarrow> delete_each ctx h meanwhile delete_fails shut es rep c
      | Some row \<Rightarrow>
         if se_status row \<noteq> ''closed'' then delete_each ctx h meanwhile delete_fails shut es rep c
         else (case screen ctx h row of
           Inl _ \<Rightarrow> Inl c
         | Inr (Some _, _) \<Rightarrow>
             delete_each ctx h meanwhile delete_fails shut es rep (reopen_if shut (se_id row) c)
         | Inr (None, t) \<Rightarrow>
            (let c1 = meanwhile (se_id row) c in
             if delete_fails (se_id row)
             then delete_each ctx h meanwhile delete_fails shut es (rep\<lparr>pr_errors := pr_errors rep @ [se_id row]\<rparr>) c1
             else (case delete_central_rows row c1 of
               (False, c2) \<Rightarrow>
                 delete_each ctx h meanwhile delete_fails shut es rep (reopen_if shut (se_id row) c2)
             | (True, c2) \<Rightarrow>
                 delete_each ctx h meanwhile delete_fails shut es
                   (rep\<lparr>pr_sessions := pr_sessions rep @ [(row, t)]\<rparr>) c2))))"

text \<open>What closing leaves, and the database as the second screen finds it after the grace period.\<close>

definition after_grace :: "(central \<Rightarrow> central) \<Rightarrow> (session_state \<times> millis) list \<Rightarrow> central \<Rightarrow> string list \<times> central" where
  "after_grace grace eligible c = (let (shut, c1) = close_all eligible c in
     (shut, if shut = [] then c1 else grace c1))"

definition prune_sessions ::
  "host \<Rightarrow> host \<Rightarrow> (central \<Rightarrow> central) \<Rightarrow> (string \<Rightarrow> central \<Rightarrow> central) \<Rightarrow> (string \<Rightarrow> bool) \<Rightarrow> int \<Rightarrow> bool \<Rightarrow> millis
   \<Rightarrow> central \<Rightarrow> central + prune_report \<times> central" where
  "prune_sessions h1 h2 grace meanwhile delete_fails days dry now c =
     (if \<not> 0 < days then Inl c
      else (let cutoff = now - days * DAY_MS;
                (eligible, rep) = screen_all (build_context cutoff c) h1 (ce_sessions c) empty_report
            in if dry then Inr (rep\<lparr>pr_sessions := eligible\<rparr>, c)
               else (let (shut, c2) = after_grace grace eligible c
                     in delete_each (build_context cutoff c2) h2 meanwhile delete_fails shut eligible rep c2)))"

end
