(* ===== verification/RetentionFacts.thy ===== *)
theory RetentionFacts
  imports Retention
begin

text \<open>
  What retention guarantees: a session a message would resume survives a run whatever the host reports,
  everything removed passed each rule of the second screen, a run that nothing interferes with removes
  exactly what the dry run lists, and removing a folder frees what measuring it reports.
\<close>

section \<open>Folders\<close>

lemma fold_plus_sum: "fold (\<lambda>e acc. acc + f e) es (n::int) = n + sum_list (map f es)"
  by (induction es arbitrary: n) auto

lemma remove_frees_measured_size: "remove_entry e = measure_entry e"
proof (induction e)
  case (Leaf n)
  then show ?case by simp
next
  case (Folder n es)
  have "map (\<lambda>e. remove_entry (snd e)) es = map (\<lambda>(_, e). measure_entry e) es"
    using Folder by (intro map_cong refl) (auto simp: snds.simps split: prod.splits)
  then show ?case by (simp only: remove_entry.simps measure_entry.simps fold_plus_sum)
qed

section \<open>Continuations\<close>

lemma tbl_upsert_keeps: "x \<in> set m \<Longrightarrow> key x \<noteq> key r \<Longrightarrow> x \<in> set (tbl_upsert key r m)"
  by (auto simp: tbl_upsert_def set_update image_iff intro!: bexI[of _ x])

lemma tbl_upsert_self: "r \<in> set (tbl_upsert key r m)"
  using tbl_get_upsert[of key "key r" r m] tbl_get_SomeD[of key "key r" "tbl_upsert key r m" r] by simp

lemma tbl_upsert_sub: "set (tbl_upsert key r m) \<subseteq> insert r (set m)"
  by (auto simp: tbl_upsert_def set_update split: if_splits)

lemma note_conv_sub: "set (note_conv r m) \<subseteq> insert r (set m)"
  using tbl_upsert_sub[of conv_key r m] by (auto simp: note_conv_def split: option.splits if_splits)

lemma note_agent_sub: "set (note_agent r m) \<subseteq> insert r (set m)"
  using tbl_upsert_sub[of se_agent r m] by (auto simp: note_agent_def split: option.splits if_splits)

lemma note_conv_keyed: "keyed conv_key m \<Longrightarrow> keyed conv_key (note_conv r m)"
  by (auto simp: note_conv_def split: option.splits)

lemma note_agent_keyed: "keyed se_agent m \<Longrightarrow> keyed se_agent (note_agent r m)"
  by (auto simp: note_agent_def split: option.splits)

text \<open>The newest row of a conversation stays noted, and becomes noted when it is seen.\<close>

lemma newer_in_conv_asym: "newer_in_conv a b \<Longrightarrow> \<not> newer_in_conv b a"
  by (auto simp: newer_in_conv_def)

lemma note_conv_stays:
  assumes "keyed conv_key m" "w \<in> set m" "conv_key x = conv_key w \<Longrightarrow> x = w \<or> newer_in_conv w x"
  shows "w \<in> set (note_conv x m)"
proof (cases "conv_key x = conv_key w")
  case False
  then show ?thesis using assms(2) tbl_upsert_keeps[of w m conv_key x]
    by (auto simp: note_conv_def split: option.splits)
next
  case True
  then have get: "tbl_get conv_key (conv_key x) m = Some w" using assms tbl_get_mem by metis
  from assms(3)[OF True] show ?thesis
  proof
    assume "x = w"
    then show ?thesis using get assms(2) tbl_upsert_self[of w conv_key m] by (simp add: note_conv_def)
  next
    assume "newer_in_conv w x"
    then show ?thesis using get assms(2) newer_in_conv_asym by (auto simp: note_conv_def)
  qed
qed

lemma note_conv_enters:
  assumes "\<And>p. p \<in> set m \<Longrightarrow> conv_key p = conv_key w \<Longrightarrow> p = w \<or> newer_in_conv w p"
  shows "w \<in> set (note_conv w m)"
proof (cases "tbl_get conv_key (conv_key w) m")
  case None
  then show ?thesis by (simp add: note_conv_def tbl_upsert_self)
next
  case (Some p)
  then have "p \<in> set m" "conv_key p = conv_key w" using tbl_get_SomeD by metis+
  with assms[of p] Some show ?thesis by (auto simp: note_conv_def tbl_upsert_self)
qed

lemma note_agent_stays:
  assumes "keyed se_agent m" "w \<in> set m" "se_agent x = se_agent w \<Longrightarrow> x = w \<or> se_created x < se_created w"
  shows "w \<in> set (note_agent x m)"
proof (cases "se_agent x = se_agent w")
  case False
  then show ?thesis using assms(2) tbl_upsert_keeps[of w m se_agent x]
    by (auto simp: note_agent_def split: option.splits)
next
  case True
  then have get: "tbl_get se_agent (se_agent x) m = Some w" using assms tbl_get_mem by metis
  from assms(3)[OF True] assms(2) get show ?thesis by (auto simp: note_agent_def)
qed

lemma note_agent_enters:
  assumes "\<And>p. p \<in> set m \<Longrightarrow> se_agent p = se_agent w \<Longrightarrow> p = w \<or> se_created p < se_created w"
  shows "w \<in> set (note_agent w m)"
proof (cases "tbl_get se_agent (se_agent w) m")
  case None
  then show ?thesis by (simp add: note_agent_def tbl_upsert_self)
next
  case (Some p)
  then have "p \<in> set m" "se_agent p = se_agent w" using tbl_get_SomeD by metis+
  with assms[of p] Some show ?thesis by (auto simp: note_agent_def tbl_upsert_self)
qed

definition conv_winner :: "session_state list \<Rightarrow> session_state \<Rightarrow> bool" where
  "conv_winner rows w = (\<forall>x\<in>set rows. se_status x = ''active'' \<and> conv_key x = conv_key w \<longrightarrow> x = w \<or> newer_in_conv w x)"

definition agent_winner :: "session_state list \<Rightarrow> session_state \<Rightarrow> bool" where
  "agent_winner rows w = (\<not> is_system_thread w \<and> (\<forall>x\<in>set rows. se_status x = ''active'' \<and> \<not> is_system_thread x
     \<and> se_agent x = se_agent w \<longrightarrow> x = w \<or> se_created x < se_created w))"

lemma note_rows_active:
  "x \<in> set (fst (note_rows rows (cv, ag))) \<or> x \<in> set (snd (note_rows rows (cv, ag))) \<Longrightarrow>
   x \<in> set cv \<or> x \<in> set ag \<or> (x \<in> set rows \<and> se_status x = ''active'')"
proof (induction rows arbitrary: cv ag)
  case Nil
  then show ?case by simp
next
  case (Cons r rows)
  show ?case
    using Cons.prems Cons.IH[of cv ag] Cons.IH[of "note_conv r cv" ag] Cons.IH[of "note_conv r cv" "note_agent r ag"]
      note_conv_sub[of r cv] note_agent_sub[of r ag]
    by (simp split: if_splits) blast+
qed

lemma note_rows_conv:
  assumes "keyed conv_key cv" "se_status w = ''active''" "conv_winner rows w"
    and "\<And>p. p \<in> set cv \<Longrightarrow> conv_key p = conv_key w \<Longrightarrow> p = w \<or> newer_in_conv w p"
    and "w \<in> set cv \<or> w \<in> set rows"
  shows "w \<in> set (fst (note_rows rows (cv, ag)))"
  using assms
proof (induction rows arbitrary: cv ag)
  case Nil
  then show ?case by simp
next
  case (Cons r rows)
  from Cons.prems(3) have rest: "conv_winner rows w"
    and r: "se_status r = ''active'' \<Longrightarrow> conv_key r = conv_key w \<Longrightarrow> r = w \<or> newer_in_conv w r"
    by (auto simp: conv_winner_def)
  show ?case
  proof (cases "se_status r = ''active''")
    case False
    then have "w \<in> set cv \<or> w \<in> set rows" using Cons.prems(2,5) by auto
    then show ?thesis using False Cons.IH[OF Cons.prems(1,2) rest Cons.prems(4)] by simp
  next
    case True
    have dom: "\<And>p. p \<in> set (note_conv r cv) \<Longrightarrow> conv_key p = conv_key w \<Longrightarrow> p = w \<or> newer_in_conv w p"
      using note_conv_sub[of r cv] Cons.prems(4) r[OF True] by blast
    have here: "w \<in> set (note_conv r cv) \<or> w \<in> set rows"
    proof (cases "w \<in> set cv")
      case True
      then show ?thesis using note_conv_stays[OF Cons.prems(1) True] r[OF \<open>se_status r = ''active''\<close>] by blast
    next
      case False
      then show ?thesis using Cons.prems(4,5) note_conv_enters[of cv w] by auto
    qed
    show ?thesis using True Cons.IH[OF note_conv_keyed[OF Cons.prems(1)] Cons.prems(2) rest dom here] by simp
  qed
qed

lemma note_rows_agent:
  assumes "keyed se_agent ag" "se_status w = ''active''" "agent_winner rows w"
    and "\<And>p. p \<in> set ag \<Longrightarrow> se_agent p = se_agent w \<Longrightarrow> p = w \<or> se_created p < se_created w"
    and "w \<in> set ag \<or> w \<in> set rows"
  shows "w \<in> set (snd (note_rows rows (cv, ag)))"
  using assms
proof (induction rows arbitrary: cv ag)
  case Nil
  then show ?case by simp
next
  case (Cons r rows)
  from Cons.prems(3) have rest: "agent_winner rows w" and sys: "\<not> is_system_thread w"
    and r: "se_status r = ''active'' \<Longrightarrow> \<not> is_system_thread r \<Longrightarrow> se_agent r = se_agent w \<Longrightarrow> r = w \<or> se_created r < se_created w"
    by (auto simp: agent_winner_def)
  show ?case
  proof (cases "se_status r = ''active'' \<and> \<not> is_system_thread r")
    case False
    then have "w \<in> set ag \<or> w \<in> set rows" using Cons.prems(2,5) sys by auto
    then show ?thesis using False Cons.IH[OF Cons.prems(1,2) rest Cons.prems(4)] by auto
  next
    case True
    have dom: "\<And>p. p \<in> set (note_agent r ag) \<Longrightarrow> se_agent p = se_agent w \<Longrightarrow> p = w \<or> se_created p < se_created w"
      using note_agent_sub[of r ag] Cons.prems(4) r True by blast
    have here: "w \<in> set (note_agent r ag) \<or> w \<in> set rows"
    proof (cases "w \<in> set ag")
      case True
      then show ?thesis using note_agent_stays[OF Cons.prems(1) True] r \<open>se_status r = ''active'' \<and> \<not> is_system_thread r\<close> by blast
    next
      case False
      then show ?thesis using Cons.prems(4,5) note_agent_enters[of ag w] by auto
    qed
    show ?thesis using True Cons.IH[OF note_agent_keyed[OF Cons.prems(1)] Cons.prems(2) rest dom here] by simp
  qed
qed

text \<open>The sessions a new message resumes: the router's, or the one agent-to-agent messages resume.\<close>

definition resumable :: "session_state list \<Rightarrow> session_state \<Rightarrow> bool" where
  "resumable rows w = (w \<in> set rows \<and> se_status w = ''active'' \<and> (conv_winner rows w \<or> agent_winner rows w))"

lemma resumable_continuation: "resumable rows w \<Longrightarrow> se_id w \<in> continuations rows"
  using note_rows_conv[of "[]" w rows "[]"] note_rows_agent[of "[]" w rows "[]"]
  by (auto simp: resumable_def continuations_def split: prod.splits)

lemma continuation_active: "i \<in> continuations rows \<Longrightarrow> \<exists>x\<in>set rows. se_status x = ''active'' \<and> se_id x = i"
  using note_rows_active[of _ rows "[]" "[]"] by (fastforce simp: continuations_def split: prod.splits)

section \<open>The screen\<close>

lemma screen_passes:
  "screen ctx h row = Inr (None, t) \<longleftrightarrow>
     activity row < cx_cutoff ctx \<and> se_container row = ''stopped'' \<and> \<not> ho_running h (se_id row)
     \<and> tbl_get fst (se_id row) (cx_blocked ctx) = None \<and> se_id row \<notin> cx_continuations ctx
     \<and> \<not> (truthy (se_mg row) \<and> the (se_mg row) \<in> cx_pinned ctx)
     \<and> (\<exists>f. ho_files h (se_agent row) (se_id row) = Some f \<and> f < cx_cutoff ctx \<and> t = max (activity row) f)
     \<and> ho_busy h (se_agent row) (se_id row) = Some False"
  by (auto simp: screen_def Let_def split: option.splits bool.splits)

lemma screen_status: "screen ctx h (row\<lparr>se_status := s\<rparr>) = screen ctx h row"
  by (cases row) (simp only: screen_def activity_def session_state.simps)

definition passing :: "screen_context \<Rightarrow> host \<Rightarrow> session_state \<Rightarrow> (session_state \<times> millis) option" where
  "passing ctx h row = (case screen ctx h row of Inr (None, t) \<Rightarrow> Some (row, t) | _ \<Rightarrow> None)"

lemma passing_Some: "passing ctx h row = Some e \<longleftrightarrow> fst e = row \<and> screen ctx h row = Inr (None, snd e)"
  by (cases e) (auto simp: passing_def split: sum.splits option.splits)

lemma screen_all_eligible: "fst (screen_all ctx h rows rep) = List.map_filter (passing ctx h) rows"
  by (induction rows arbitrary: rep)
     (auto simp: map_filter_simps passing_def split: sum.splits option.splits prod.splits, (metis fst_conv)+)

lemma screen_all_sessions: "pr_sessions (snd (screen_all ctx h rows rep)) = pr_sessions rep"
  by (induction rows arbitrary: rep) (auto split: sum.splits option.splits prod.splits, (metis snd_conv)+)

lemma eligible_iff:
  "e \<in> set (fst (screen_all ctx h rows rep)) \<longleftrightarrow> fst e \<in> set rows \<and> screen ctx h (fst e) = Inr (None, snd e)"
proof -
  have "e \<in> set (List.map_filter f rows) \<longleftrightarrow> (\<exists>x\<in>set rows. f x = Some e)" for f :: "session_state \<Rightarrow> (session_state \<times> millis) option"
    by (induction rows) (auto simp: map_filter_simps split: option.splits)
  then show ?thesis by (auto simp: screen_all_eligible passing_Some)
qed

section \<open>A resumable session survives\<close>

definition outcome_db :: "central + prune_report \<times> central \<Rightarrow> central" where
  "outcome_db r = (case r of Inl c \<Rightarrow> c | Inr (_, c) \<Rightarrow> c)"

lemma outcome_db_simps [simp]: "outcome_db (Inl c) = c" "outcome_db (Inr (rep, c)) = c"
  by (simp_all add: outcome_db_def)

lemma close_session_keeps:
  "w \<in> set (ce_sessions c) \<Longrightarrow> se_id w \<noteq> se_id row \<Longrightarrow> w \<in> set (ce_sessions (snd (close_session row c)))"
  by (auto simp: close_session_def set_update unchanged_closed_def image_iff intro!: bexI[of _ w])

lemma reopen_if_keeps:
  "w \<in> set (ce_sessions c) \<Longrightarrow> se_id w \<noteq> i \<Longrightarrow> w \<in> set (ce_sessions (reopen_if shut i c))"
  by (auto simp: reopen_if_def reopen_session_def set_update image_iff intro!: bexI[of _ w])

lemma delete_central_rows_keeps:
  "w \<in> set (ce_sessions c) \<Longrightarrow> se_id w \<noteq> se_id row \<Longrightarrow> w \<in> set (ce_sessions (snd (delete_central_rows row c)))"
  by (simp add: delete_central_rows_def)

lemma close_all_keeps:
  "w \<in> set (ce_sessions c) \<Longrightarrow> (\<And>e. e \<in> set es \<Longrightarrow> se_id (fst e) \<noteq> se_id w)
   \<Longrightarrow> w \<in> set (ce_sessions (snd (close_all es c)))"
proof (induction es c rule: close_all.induct)
  case (1 c)
  then show ?case by simp
next
  case (2 row t es c)
  have "w \<in> set (ce_sessions (snd (close_session row c)))"
    using 2(3) 2(4)[of "(row, t)"] by (intro close_session_keeps) auto
  then show ?case using 2 by (auto split: prod.splits)
qed

lemma fresh_row_id: "fresh_row i c = Some r \<Longrightarrow> r \<in> set (ce_sessions c) \<and> se_id r = i"
  by (auto simp: fresh_row_def dest: tbl_get_SomeD)

lemma delete_each_keeps:
  assumes "w \<in> set (ce_sessions c)" "\<And>e. e \<in> set es \<Longrightarrow> se_id (fst e) \<noteq> se_id w"
    and m: "\<And>i c. w \<in> set (ce_sessions c) \<Longrightarrow> w \<in> set (ce_sessions (meanwhile i c))"
  shows "w \<in> set (ce_sessions (outcome_db (delete_each ctx h meanwhile fails shut es rep c)))"
  using assms(1,2)
proof (induction es arbitrary: rep c)
  case Nil
  then show ?case by simp
next
  case (Cons e es)
  obtain screened t where e: "e = (screened, t)" by (cases e)
  note IH = Cons.IH[OF _ Cons.prems(2)[OF list.set_intros(2)]]
  show ?case
  proof (cases "fresh_row (se_id screened) c")
    case None
    then show ?thesis using IH[OF Cons.prems(1)] by (simp add: e)
  next
    case (Some row)
    then have id: "se_id w \<noteq> se_id row" using Cons.prems(2)[of e] fresh_row_id[OF Some] by (simp add: e)
    obtain ok c2 where d: "delete_central_rows row (meanwhile (se_id row) c) = (ok, c2)" by fastforce
    have w1: "w \<in> set (ce_sessions (meanwhile (se_id row) c))" using m Cons.prems(1) .
    have w2: "w \<in> set (ce_sessions c2)" using delete_central_rows_keeps[OF w1 id] d by simp
    note kept = IH[OF Cons.prems(1)] IH[OF reopen_if_keeps[OF Cons.prems(1) id]] IH[OF w1]
      IH[OF w2] IH[OF reopen_if_keeps[OF w2 id]]
    show ?thesis
    proof (cases "screen ctx h row")
      case (Inl u)
      then show ?thesis using Some Cons.prems(1) by (simp add: e kept)
    next
      case (Inr v)
      obtain keep t' where v: "v = (keep, t')" by (cases v)
      show ?thesis using Some Inr v d Cons.prems(1) by (cases keep; cases ok) (simp_all add: e Let_def kept)
    qed
  qed
qed

text \<open>
  C18: a run of retention never closes or removes a session a new message would resume: the newest active
  session of its conversation, or its agent's newest active non-system session, whatever the host reports
  at either screen, whichever deletes fail, as long as nobody else touches it meanwhile.
\<close>

theorem resumable_session_survives:
  assumes "resumable (ce_sessions c) w"
    and "\<And>c. w \<in> set (ce_sessions c) \<Longrightarrow> w \<in> set (ce_sessions (grace c))"
    and "\<And>i c. w \<in> set (ce_sessions c) \<Longrightarrow> w \<in> set (ce_sessions (meanwhile i c))"
  shows "w \<in> set (ce_sessions (outcome_db (prune_sessions h1 h2 grace meanwhile fails days dry now c)))"
proof -
  let ?es = "fst (screen_all (build_context (now - days * DAY_MS) c) h1 (ce_sessions c) empty_report)"
  have w: "w \<in> set (ce_sessions c)" using assms(1) by (simp add: resumable_def)
  have other: "se_id (fst e) \<noteq> se_id w" if "e \<in> set ?es" for e
    using that resumable_continuation[OF assms(1)] by (auto simp: eligible_iff screen_passes build_context_def)
  obtain es rep0 where es: "screen_all (build_context (now - days * DAY_MS) c) h1 (ce_sessions c) empty_report = (es, rep0)"
    by fastforce
  obtain shut c2 where c2: "after_grace grace es c = (shut, c2)" by fastforce
  have away: "se_id (fst e) \<noteq> se_id w" if "e \<in> set es" for e using other[of e] that es by simp
  have "w \<in> set (ce_sessions c2)"
    using close_all_keeps[OF w, of es] away assms(2) c2 by (auto simp: after_grace_def split: prod.splits if_splits)
  from delete_each_keeps[OF this away assms(3)] show ?thesis
    using w by (simp add: prune_sessions_def Let_def es c2)
qed

section \<open>What is removed passed every rule\<close>

lemma delete_each_passed:
  assumes "delete_each ctx h meanwhile fails shut es rep c = Inr (rep', c')" "e \<in> set (pr_sessions rep')"
  shows "e \<in> set (pr_sessions rep) \<or> (se_status (fst e) = ''closed'' \<and> screen ctx h (fst e) = Inr (None, snd e))"
  using assms
proof (induction ctx h meanwhile fails shut es rep c rule: delete_each.induct)
  case (1 ctx h meanwhile delete_fails shut rep c)
  then show ?case by simp
next
  case (2 ctx h meanwhile fails shut screened t0 es rep c)
  show ?case
    using 2 by (fastforce split: option.splits if_splits sum.splits prod.splits bool.splits simp: Let_def)
qed

text \<open>
  Everything a run removes passed every rule against the state after the grace period: closed and
  stopped, no live container, no claim, stop intent, question, approval or wake waiting on it, resumed by
  no message, room not pinned, untouched (rows and files) since the limit, mailbox idle.
\<close>

theorem removed_session_passed_every_rule:
  assumes "prune_sessions h1 h2 grace meanwhile fails days False now c = Inr (rep, c')"
    and "(row, t) \<in> set (pr_sessions rep)"
    and "screened = fst (screen_all (build_context (now - days * DAY_MS) c) h1 (ce_sessions c) empty_report)"
    and "c2 = snd (after_grace grace screened c)"
  shows "se_status row = ''closed'' \<and> se_container row = ''stopped'' \<and> \<not> ho_running h2 (se_id row)
    \<and> tbl_get fst (se_id row) (central_blocks c2) = None
    \<and> \<not> (\<exists>w. resumable (ce_sessions c2) w \<and> se_id w = se_id row)
    \<and> (\<forall>m. se_mg row = Some m \<and> m \<noteq> [] \<longrightarrow> m \<notin> pinned_chats c2)
    \<and> activity row \<le> t \<and> t < now - days * DAY_MS
    \<and> (\<exists>f \<le> t. ho_files h2 (se_agent row) (se_id row) = Some f)
    \<and> ho_busy h2 (se_agent row) (se_id row) = Some False"
proof -
  let ?ctx = "build_context (now - days * DAY_MS) c2"
  obtain rep0 where sc: "screen_all (build_context (now - days * DAY_MS) c) h1 (ce_sessions c) empty_report = (screened, rep0)"
    using assms(3) by (metis prod.collapse)
  obtain shut where c2: "after_grace grace screened c = (shut, c2)" using assms(4) by (metis prod.collapse)
  have "pr_sessions rep0 = []" using screen_all_sessions[of "build_context (now - days * DAY_MS) c" h1 "ce_sessions c" empty_report]
    unfolding sc by (simp add: empty_report_def)
  moreover have "delete_each ?ctx h2 meanwhile fails shut screened rep0 c2 = Inr (rep, c')"
    using assms(1) by (simp add: prune_sessions_def Let_def sc c2 split: if_splits)
  ultimately have "se_status row = ''closed''" and s: "screen ?ctx h2 row = Inr (None, t)"
    using delete_each_passed[OF _ assms(2)] by fastforce+
  with s[unfolded screen_passes] resumable_continuation show ?thesis
    by (auto simp: build_context_def truthy_def) metis+
qed

section \<open>The dry run\<close>

definition shuts :: "(session_state \<times> millis) list \<Rightarrow> session_state \<Rightarrow> bool" where
  "shuts es x = (\<exists>e\<in>set es. se_status (fst e) = ''active'' \<and> unchanged_closed (fst e) ''active'' x)"

definition shut_row :: "session_state \<Rightarrow> session_state" where
  "shut_row x = x\<lparr>se_status := ''closed''\<rparr>"

lemma shut_row_simps [simp]:
  "se_id (shut_row x) = se_id x" "se_status (shut_row x) = ''closed''"
  "se_container (shut_row x) = se_container x" "se_last (shut_row x) = se_last x"
  "se_agent (shut_row x) = se_agent x" "se_mg (shut_row x) = se_mg x"
  "screen ctx h (shut_row x) = screen ctx h x"
  by (simp_all add: shut_row_def screen_status)

lemma shuts_shut_row [simp]: "\<not> shuts es (shut_row x)"
  by (simp add: shuts_def unchanged_closed_def)

lemma close_all_db:
  "snd (close_all es c) = c\<lparr>ce_sessions := map (\<lambda>x. if shuts es x then shut_row x else x) (ce_sessions c)\<rparr>"
proof (induction es c rule: close_all.induct)
  case (1 c)
  then show ?case by (simp add: shuts_def)
next
  case (2 row t es c)
  show ?case
  proof (cases "se_status row = ''active''")
    case False
    then have "shuts ((row, t) # es) = shuts es" by (auto simp: shuts_def)
    with False 2 show ?thesis by simp
  next
    case True
    then have cons: "shuts ((row, t) # es) x \<longleftrightarrow> unchanged_closed row ''active'' x \<or> shuts es x" for x
      by (auto simp: shuts_def)
    have c1: "snd (close_session row c)
        = c\<lparr>ce_sessions := map (\<lambda>x. if unchanged_closed row ''active'' x then shut_row x else x) (ce_sessions c)\<rparr>"
      by (simp add: close_session_def tbl_update_def shut_row_def)
    have "snd (close_all es (snd (close_session row c)))
        = c\<lparr>ce_sessions := map (\<lambda>x. if shuts es x then shut_row x else x)
             (ce_sessions (snd (close_session row c)))\<rparr>"
      using 2(2)[OF _ refl prod.collapse] True c1 by simp
    also have "\<dots> = c\<lparr>ce_sessions := map (\<lambda>x. if shuts ((row, t) # es) x then shut_row x else x) (ce_sessions c)\<rparr>"
      by (simp add: c1 cons)
    finally show ?thesis using True by (cases "close_session row c"; cases "close_all es (snd (close_session row c))") auto
  qed
qed

text \<open>The second pass with nobody interfering: everything still closed that passes again is deleted.\<close>

lemma delete_central_rows_done:
  assumes "x \<in> set (ce_sessions c)" "unchanged_closed x ''closed'' x"
  shows "fst (delete_central_rows x c) \<and>
    ce_sessions (snd (delete_central_rows x c)) = tbl_delete (\<lambda>y. se_id y = se_id x) (ce_sessions c)"
proof -
  have "list_ex (unchanged_closed x ''closed'') (ce_sessions c)" using assms by (auto simp: list_ex_iff)
  then show ?thesis by (simp add: delete_central_rows_def del: list_ex_iff)
qed

lemma delete_each_undisturbed:
  assumes "keyed se_id (ce_sessions c)" "distinct (map (\<lambda>e. se_id (fst e)) es)"
    and "\<And>e. e \<in> set es \<Longrightarrow> \<exists>x\<in>set (ce_sessions c). se_id x = se_id (fst e) \<and> se_status x = ''closed''
           \<and> screen ctx h x = Inr (None, snd e)"
  shows "\<exists>rep' c'. delete_each ctx h (\<lambda>_ c. c) (\<lambda>_. False) shut es rep c = Inr (rep', c')
    \<and> map (\<lambda>(r, t). (se_id r, t)) (pr_sessions rep')
        = map (\<lambda>(r, t). (se_id r, t)) (pr_sessions rep) @ map (\<lambda>(r, t). (se_id r, t)) es
    \<and> ce_sessions c' = filter (\<lambda>x. se_id x \<notin> (\<lambda>e. se_id (fst e)) ` set es) (ce_sessions c)"
  using assms
proof (induction es arbitrary: rep c)
  case Nil
  then show ?case by simp
next
  case (Cons e es)
  obtain screened t where e: "e = (screened, t)" by (cases e)
  obtain x where x: "x \<in> set (ce_sessions c)" "se_id x = se_id screened" "se_status x = ''closed''"
    and sx: "screen ctx h x = Inr (None, t)" using Cons.prems(3)[of e] e by auto
  have fresh: "fresh_row (se_id screened) c = Some x"
    using tbl_get_mem[OF Cons.prems(1) x(1)] x(2) by (simp add: fresh_row_def)
  have "unchanged_closed x ''closed'' x" using sx x(3) by (simp add: unchanged_closed_def screen_passes)
  from delete_central_rows_done[OF x(1) this] obtain c2 where d: "delete_central_rows x c = (True, c2)"
    and c2: "ce_sessions c2 = tbl_delete (\<lambda>y. se_id y = se_id x) (ce_sessions c)"
    by (metis prod.collapse)
  have k2: "keyed se_id (ce_sessions c2)" using Cons.prems(1) by (simp add: c2 keyed_delete)
  have rest: "\<exists>y\<in>set (ce_sessions c2). se_id y = se_id (fst e') \<and> se_status y = ''closed'' \<and> screen ctx h y = Inr (None, snd e')"
    if "e' \<in> set es" for e'
  proof -
    have "se_id (fst e') \<noteq> se_id x" using Cons.prems(2) that x(2) e by force
    then show ?thesis using Cons.prems(3)[of e'] that by (auto simp: c2)
  qed
  from Cons.IH[OF k2 _ rest, of "rep\<lparr>pr_sessions := pr_sessions rep @ [(x, t)]\<rparr>"] Cons.prems(2)
  obtain rep' c' where ih: "delete_each ctx h (\<lambda>_ c. c) (\<lambda>_. False) shut es (rep\<lparr>pr_sessions := pr_sessions rep @ [(x, t)]\<rparr>) c2 = Inr (rep', c')"
    "map (\<lambda>(r, t). (se_id r, t)) (pr_sessions rep')
        = map (\<lambda>(r, t). (se_id r, t)) (pr_sessions rep) @ (se_id x, t) # map (\<lambda>(r, t). (se_id r, t)) es"
    "ce_sessions c' = filter (\<lambda>x. se_id x \<notin> (\<lambda>e. se_id (fst e)) ` set es) (ce_sessions c2)"
    by auto
  have "ce_sessions c' = filter (\<lambda>x. se_id x \<notin> (\<lambda>e. se_id (fst e)) ` set (e # es)) (ce_sessions c)"
    using ih(3) x(2) by (auto simp: c2 tbl_delete_def e intro!: filter_cong)
  then show ?case using ih(1,2) fresh x d sx by (simp add: e)
qed

lemma passing_ids: "distinct (map se_id rows) \<Longrightarrow> distinct (map (\<lambda>e. se_id (fst e)) (List.map_filter (passing ctx h) rows))"
proof (induction rows)
  case (Cons row rows)
  have "se_id (fst e) \<noteq> se_id row" if "e \<in> set (List.map_filter (passing ctx h) rows)" for e
  proof -
    have "fst e \<in> set rows" using that eligible_iff[of e ctx h rows] by (simp add: screen_all_eligible)
    then have "se_id (fst e) \<in> se_id ` set rows" by (rule imageI)
    then show ?thesis using Cons.prems by auto
  qed
  note apart = this
  show ?case
  proof (cases "passing ctx h row")
    case None
    then show ?thesis using Cons by (simp add: map_filter_simps)
  next
    case (Some e)
    then have "fst e = row" by (simp add: passing_Some)
    with apart have "se_id (fst e) \<notin> (\<lambda>e. se_id (fst e)) ` set (List.map_filter (passing ctx h) rows)" by (metis imageE)
    with Some Cons show ?thesis by (simp add: map_filter_simps)
  qed
qed (simp add: map_filter_simps)

lemma screen_all_ids:
  "distinct (map se_id rows) \<Longrightarrow> distinct (map (\<lambda>e. se_id (fst e)) (fst (screen_all ctx h rows rep)))"
  by (simp only: screen_all_eligible passing_ids)

lemma screen_context_shift:
  assumes "screen (build_context cutoff c) h x = Inr (None, t)"
    and "ce_claims c2 = ce_claims c" "ce_questions c2 = ce_questions c" "ce_approvals c2 = ce_approvals c"
    and "ce_wakes c2 = ce_wakes c" "ce_pins c2 = ce_pins c" "ce_groups c2 = ce_groups c"
    and "se_id x \<notin> continuations (ce_sessions c2)"
  shows "screen (build_context cutoff c2) h x = Inr (None, t)"
proof -
  have "central_blocks c2 = central_blocks c" "pinned_chats c2 = pinned_chats c"
    by (simp_all only: central_blocks_def pinned_chats_def assms(2-7))
  then show ?thesis using assms(1,8) by (simp add: screen_passes build_context_def)
qed

lemma filter_map_elsewhere:
  "(\<And>x. x \<in> set xs \<Longrightarrow> P (f x) = P x \<and> (P x \<longrightarrow> f x = x)) \<Longrightarrow> filter P (map f xs) = filter P xs"
  by (induction xs) auto

lemma undisturbed_ready:
  assumes "keyed se_id (ce_sessions c)" "\<forall>x\<in>set (ce_sessions c). se_status x \<in> {''active'', ''closed''}"
    and e: "fst e \<in> set (ce_sessions c) \<and> screen (build_context cutoff c) h (fst e) = Inr (None, snd e)" "e \<in> set es"
    and c2: "c2 = c\<lparr>ce_sessions := map (\<lambda>x. if shuts es x then shut_row x else x) (ce_sessions c)\<rparr>"
  shows "\<exists>x\<in>set (ce_sessions c2). se_id x = se_id (fst e) \<and> se_status x = ''closed''
      \<and> screen (build_context cutoff c2) h x = Inr (None, snd e)"
proof -
  define y where "y = (if shuts es (fst e) then shut_row (fst e) else fst e)"
  have "shuts es (fst e)" if "se_status (fst e) = ''active''"
    using that e by (auto simp: shuts_def unchanged_closed_def screen_passes)
  then have st: "se_status y = ''closed''" using assms(2) e(1) by (auto simp: y_def)
  have y: "y \<in> set (ce_sessions c2)" using e(1) by (auto simp: y_def c2)
  have "map se_id (ce_sessions c2) = map se_id (ce_sessions c)" by (simp add: c2)
  then have k2: "keyed se_id (ce_sessions c2)" using assms(1) by (simp only: keyed_def)
  have "se_id y \<notin> continuations (ce_sessions c2)"
  proof
    assume "se_id y \<in> continuations (ce_sessions c2)"
    then obtain x where x: "x \<in> set (ce_sessions c2)" and act: "se_status x = ''active''" and id: "se_id x = se_id y"
      using continuation_active by blast
    have "inj_on se_id (set (ce_sessions c2))" using k2 by (simp only: keyed_def distinct_map)
    then have "x = y" using id x y by (rule inj_onD)
    then show False using act st by simp
  qed
  note alone = this
  have "screen (build_context cutoff c) h y = Inr (None, snd e)" using e(1) by (simp add: y_def)
  from screen_context_shift[OF this _ _ _ _ _ _ alone] have "screen (build_context cutoff c2) h y = Inr (None, snd e)"
    by (simp add: c2)
  with y st show ?thesis by (intro bexI[of _ y]) (simp_all add: y_def)
qed

text \<open>
  The dry run changes nothing and tells the truth: when nothing else happens, the real run closes and
  deletes exactly the sessions the dry run lists, in that order and with those times, and leaves every
  other session row as it was.
\<close>

theorem real_run_removes_what_dry_run_lists:
  assumes "keyed se_id (ce_sessions c)" "\<forall>x\<in>set (ce_sessions c). se_status x \<in> {''active'', ''closed''}" "0 < days"
  shows "\<exists>listed rep c'.
      prune_sessions h h (\<lambda>c. c) (\<lambda>_ c. c) (\<lambda>_. False) days True now c = Inr (listed, c)
    \<and> prune_sessions h h (\<lambda>c. c) (\<lambda>_ c. c) (\<lambda>_. False) days False now c = Inr (rep, c')
    \<and> map (\<lambda>(r, t). (se_id r, t)) (pr_sessions rep) = map (\<lambda>(r, t). (se_id r, t)) (pr_sessions listed)
    \<and> ce_sessions c' = filter (\<lambda>x. se_id x \<notin> (\<lambda>e. se_id (fst e)) ` set (pr_sessions listed)) (ce_sessions c)"
proof -
  define ctx where "ctx = build_context (now - days * DAY_MS) c"
  obtain es rep0 where sc: "screen_all ctx h (ce_sessions c) empty_report = (es, rep0)" by fastforce
  have rep0: "pr_sessions rep0 = []"
    using screen_all_sessions[of ctx h "ce_sessions c" empty_report] unfolding sc by (simp add: empty_report_def)
  have es: "fst e \<in> set (ce_sessions c) \<and> screen ctx h (fst e) = Inr (None, snd e)" if "e \<in> set es" for e
    using eligible_iff[of e ctx h "ce_sessions c" empty_report] that sc by simp
  obtain shut c2 where gr: "after_grace (\<lambda>c. c) es c = (shut, c2)" by fastforce
  then have "c2 = snd (close_all es c)" by (auto simp: after_grace_def split: prod.splits)
  then have c2: "c2 = c\<lparr>ce_sessions := map (\<lambda>x. if shuts es x then shut_row x else x) (ce_sessions c)\<rparr>"
    by (simp add: close_all_db)
  have sessions2: "ce_sessions c2 = map (\<lambda>x. if shuts es x then shut_row x else x) (ce_sessions c)" by (simp add: c2)
  have ids: "map se_id (ce_sessions c2) = map se_id (ce_sessions c)" by (simp add: c2)
  then have k2: "keyed se_id (ce_sessions c2)" using assms(1) by (simp only: keyed_def)
  have dist: "distinct (map (\<lambda>e. se_id (fst e)) es)"
    using assms(1) screen_all_ids[of "ce_sessions c" ctx h empty_report] sc by (simp add: keyed_def)
  have ready: "\<exists>x\<in>set (ce_sessions c2). se_id x = se_id (fst e) \<and> se_status x = ''closed''
      \<and> screen (build_context (now - days * DAY_MS) c2) h x = Inr (None, snd e)" if "e \<in> set es" for e
    using undisturbed_ready[OF assms(1,2) es[OF that, unfolded ctx_def] that c2] es that by blast
  obtain rep' c' where del: "delete_each (build_context (now - days * DAY_MS) c2) h (\<lambda>_ c. c) (\<lambda>_. False) shut es rep0 c2 = Inr (rep', c')"
    "map (\<lambda>(r, t). (se_id r, t)) (pr_sessions rep') = map (\<lambda>(r, t). (se_id r, t)) es"
    "ce_sessions c' = filter (\<lambda>x. se_id x \<notin> (\<lambda>e. se_id (fst e)) ` set es) (ce_sessions c2)"
    using delete_each_undisturbed[OF k2 dist ready, of shut rep0] rep0 by auto
  have "ce_sessions c' = filter (\<lambda>x. se_id x \<notin> (\<lambda>e. se_id (fst e)) ` set es) (ce_sessions c)"
    unfolding del(3) sessions2
    by (rule filter_map_elsewhere) (auto simp: shuts_def unchanged_closed_def)
  then show ?thesis using assms(3) del(1,2) sc gr by (simp add: prune_sessions_def Let_def ctx_def)
qed

section \<open>A concrete run\<close>

definition old_session :: "string \<Rightarrow> string \<Rightarrow> millis \<Rightarrow> session_state" where
  "old_session i status t = \<lparr>se_id = i, se_agent = ''a'', se_mg = Some ''m'', se_thread = None, se_status = status,
     se_container = ''stopped'', se_last = Some t, se_created = t\<rparr>"

definition example_central :: central where
  "example_central = \<lparr>ce_sessions = [old_session ''s1'' ''active'' 1, old_session ''s2'' ''active'' 2,
       old_session ''s3'' ''closed'' 3],
     ce_claims = None, ce_questions = [], ce_approvals = None, ce_attempts = None, ce_wakes = None,
     ce_groups = [], ce_pins = None\<rparr>"

definition idle_host :: host where
  "idle_host = \<lparr>ho_running = (\<lambda>_. False), ho_files = (\<lambda>_ _. Some 0), ho_busy = (\<lambda>_ _. Some False)\<rparr>"

lemmas example_defs = example_central_def old_session_def idle_host_def

lemma central_keyed: "keyed se_id (ce_sessions example_central)"
  by code_simp

lemma example_resumable: "resumable (ce_sessions example_central) (old_session ''s2'' ''active'' 2)"
proof -
  have "conv_winner (ce_sessions example_central) (old_session ''s2'' ''active'' 2)"
    unfolding conv_winner_def by code_simp
  then show ?thesis by (simp add: resumable_def example_defs)
qed

theorem resumable_session_survives_witness:
  "old_session ''s2'' ''active'' 2 \<in> set (ce_sessions (outcome_db
     (prune_sessions idle_host idle_host (\<lambda>c. c) (\<lambda>_ c. c) (\<lambda>_. False) 1 False (3 * DAY_MS) example_central)))"
  by (rule resumable_session_survives[OF example_resumable]) assumption+

lemma example_run:
  "prune_sessions idle_host idle_host (\<lambda>c. c) (\<lambda>_ c. c) (\<lambda>_. False) 1 False (3 * DAY_MS) example_central
   = Inr (\<lparr>pr_sessions = [(old_session ''s1'' ''closed'' 1, 1), (old_session ''s3'' ''closed'' 3, 3)],
           pr_kept = [''continuation''], pr_errors = []\<rparr>,
          example_central\<lparr>ce_sessions := [old_session ''s2'' ''active'' 2]\<rparr>)"
  by code_simp

theorem removed_session_passed_every_rule_witness:
  "se_container (old_session ''s1'' ''closed'' 1) = ''stopped''
   \<and> ho_busy idle_host ''a'' ''s1'' = Some False"
  using removed_session_passed_every_rule[OF example_run _ refl refl,
    of "old_session ''s1'' ''closed'' 1" 1] by (simp add: old_session_def)

theorem real_run_removes_what_dry_run_lists_witness:
  "\<exists>listed rep c'.
      prune_sessions idle_host idle_host (\<lambda>c. c) (\<lambda>_ c. c) (\<lambda>_. False) 1 True (3 * DAY_MS) example_central = Inr (listed, example_central)
    \<and> prune_sessions idle_host idle_host (\<lambda>c. c) (\<lambda>_ c. c) (\<lambda>_. False) 1 False (3 * DAY_MS) example_central = Inr (rep, c')
    \<and> map (\<lambda>(r, t). (se_id r, t)) (pr_sessions rep) = map (\<lambda>(r, t). (se_id r, t)) (pr_sessions listed)
    \<and> ce_sessions c' = filter (\<lambda>x. se_id x \<notin> (\<lambda>e. se_id (fst e)) ` set (pr_sessions listed)) (ce_sessions example_central)"
  by (rule real_run_removes_what_dry_run_lists[OF central_keyed]) (simp_all add: example_defs)

text \<open>
  An error of the second screen (here: a mailbox that cannot be read) aborts the run, and the session it
  closed only to delete stays closed, where a kept one would have been opened again.
\<close>

lemma aborted_run_leaves_session_closed:
  "prune_sessions idle_host (idle_host\<lparr>ho_busy := (\<lambda>_ _. None)\<rparr>) (\<lambda>c. c) (\<lambda>_ c. c) (\<lambda>_. False) 1 False (3 * DAY_MS) example_central
   = Inl (example_central\<lparr>ce_sessions := [old_session ''s1'' ''closed'' 1, old_session ''s2'' ''active'' 2,
       old_session ''s3'' ''closed'' 3]\<rparr>)"
  by code_simp

lemma kept_session_is_reopened:
  "prune_sessions idle_host (idle_host\<lparr>ho_busy := (\<lambda>_ _. Some True)\<rparr>) (\<lambda>c. c) (\<lambda>_ c. c) (\<lambda>_. False) 1 False (3 * DAY_MS) example_central
   = Inr (\<lparr>pr_sessions = [], pr_kept = [''continuation''], pr_errors = []\<rparr>, example_central)"
  by code_simp

end
