(* ===== verification/NetAddress.thy ===== *)
theory NetAddress
  imports TextScan "HOL-Library.Word"
begin

unbundle bit_operations_syntax

text \<open>
  Literal addresses as the host's \<open>net\<close> module reads them, subnets as 32-bit words, and the rules of
  \<open>src/channels/webchat/egress-policy.ts\<close> and \<open>egress-filter.ts\<close> on the addresses a connection may go to.
\<close>

section \<open>IPv4\<close>

text \<open>One to three digits without a leading zero, at most 255.\<close>

definition octet :: "string \<Rightarrow> nat option" where
  "octet s = (if all_digits s \<and> length s \<le> 3 \<and> (length s = 1 \<or> hd s \<noteq> CHR ''0'') \<and> read_nat s \<le> 255
     then Some (read_nat s) else None)"

definition ipv4_octets :: "string \<Rightarrow> nat list option" where
  "ipv4_octets s = (let os = map octet (split_on (CHR ''.'') s) in
     if length os = 4 \<and> None \<notin> set os then Some (map the os) else None)"

definition is_ipv4 :: "string \<Rightarrow> bool" where
  "is_ipv4 s = (ipv4_octets s \<noteq> None)"

definition ipv4_word :: "nat list \<Rightarrow> 32 word" where
  "ipv4_word os = of_nat (foldl (\<lambda>w n. 256 * w + n) 0 os)"

section \<open>IPv6\<close>

definition is_hex :: "char \<Rightarrow> bool" where
  "is_hex c = (is_digit c \<or> (97 \<le> code c \<and> code c \<le> 102) \<or> (65 \<le> code c \<and> code c \<le> 70))"

definition hex_group :: "string \<Rightarrow> bool" where
  "hex_group s = (1 \<le> length s \<and> length s \<le> 4 \<and> list_all is_hex s)"

text \<open>
  The groups a colon-separated part stands for (a trailing dotted IPv4 address counts as two); \<open>None\<close>
  when it is not such a list. The empty part has none.
\<close>

definition group_count :: "bool \<Rightarrow> string \<Rightarrow> nat option" where
  "group_count v4 s = (if s = [] then Some 0
     else (let ps = split_on (CHR '':'') s in
       if list_all hex_group ps then Some (length ps)
       else if v4 \<and> list_all hex_group (butlast ps) \<and> is_ipv4 (last ps) then Some (Suc (length ps))
       else None))"

text \<open>Cut at the first double colon.\<close>

fun cut_double :: "string \<Rightarrow> (string \<times> string) option" where
  "cut_double (a # b # s) = (if a = CHR '':'' \<and> b = CHR '':'' then Some ([], s)
     else map_option (\<lambda>(p, q). (a # p, q)) (cut_double (b # s)))"
| "cut_double s = None"

definition zone_char :: "char \<Rightarrow> bool" where
  "zone_char c = (is_digit c \<or> is_lower c \<or> is_upper c \<or> c \<in> {CHR ''-'', CHR ''.'', CHR '':''})"

definition is_ipv6 :: "string \<Rightarrow> bool" where
  "is_ipv6 s =
     (let body = takeWhile (\<lambda>c. c \<noteq> CHR ''%'') s;
          zone = dropWhile (\<lambda>c. c \<noteq> CHR ''%'') s
      in (zone = [] \<or> (tl zone \<noteq> [] \<and> list_all zone_char (tl zone)))
       \<and> (case cut_double body of
            None \<Rightarrow> group_count True body = Some 8
          | Some (l, r) \<Rightarrow> (case (group_count False l, group_count True r) of
              (Some a, Some b) \<Rightarrow> a + b \<le> 7
            | _ \<Rightarrow> False)))"

definition is_ip :: "string \<Rightarrow> bool" where
  "is_ip s = (is_ipv4 s \<or> is_ipv6 s)"

section \<open>Where a direct tunnel may go\<close>

definition drop_mapped :: "string \<Rightarrow> string" where
  "drop_mapped a = (if starts_with a ''::ffff:'' then drop 7 a else a)"

text \<open>RFC 1918, shared address space, and IPv6 unique-local addresses.\<close>

definition private_octets :: "nat list \<Rightarrow> bool" where
  "private_octets os = (os ! 0 = 10 \<or> (os ! 0 = 192 \<and> os ! 1 = 168)
     \<or> (os ! 0 = 172 \<and> 16 \<le> os ! 1 \<and> os ! 1 \<le> 31)
     \<or> (os ! 0 = 100 \<and> 64 \<le> os ! 1 \<and> os ! 1 \<le> 127))"

text \<open>\<open>/^f[cd][0-9a-f]{2}:/\<close> and \<open>/^fe[89ab][0-9a-f]:/\<close>.\<close>

definition lower_hex :: "char \<Rightarrow> bool" where
  "lower_hex c = (is_digit c \<or> (97 \<le> code c \<and> code c \<le> 102))"

fun unique_local :: "string \<Rightarrow> bool" where
  "unique_local (a # b # c # d # e # _) = (a = CHR ''f'' \<and> b \<in> {CHR ''c'', CHR ''d''}
     \<and> lower_hex c \<and> lower_hex d \<and> e = CHR '':'')"
| "unique_local _ = False"

fun link_local6 :: "string \<Rightarrow> bool" where
  "link_local6 (a # b # c # d # e # _) = (a = CHR ''f'' \<and> b = CHR ''e''
     \<and> c \<in> {CHR ''8'', CHR ''9'', CHR ''a'', CHR ''b''} \<and> lower_hex d \<and> e = CHR '':'')"
| "link_local6 _ = False"

definition is_private_address :: "string \<Rightarrow> bool" where
  "is_private_address a = (case ipv4_octets a of
     Some os \<Rightarrow> private_octets os
   | None \<Rightarrow> is_ipv6 a \<and> unique_local a)"

text \<open>Loopback, link-local, or this network.\<close>

definition refused_octets :: "nat list \<Rightarrow> bool" where
  "refused_octets os = (os ! 0 = 127 \<or> (os ! 0 = 169 \<and> os ! 1 = 254) \<or> os ! 0 = 0)"

definition direct_address_allowed :: "string list \<Rightarrow> string \<Rightarrow> bool \<Rightarrow> bool" where
  "direct_address_allowed own address literal =
     (let a = drop_mapped (map lower address) in
      if \<not> is_ip a then False
      else if a \<in> set own then False
      else if (case ipv4_octets a of Some os \<Rightarrow> refused_octets os | None \<Rightarrow> False) then False
      else if is_ipv6 a \<and> (a = ''::1'' \<or> a = ''::'' \<or> link_local6 a) then False
      else literal \<or> \<not> is_private_address a)"

section \<open>An agent's own networks\<close>

text \<open>The mask of a subnet of \<open>n\<close> bits.\<close>

definition cidr_mask :: "nat \<Rightarrow> 32 word" where
  "cidr_mask n = push_bit (32 - n) (- 1)"

text \<open>
  One \<open>address/bits\<close>: the first two pieces between slashes; an unusable one is skipped. The width is read
  from decimal digits (\<open>Number\<close> reads further notations, none of which an address plan writes).
\<close>

definition parse_cidr :: "string \<Rightarrow> (32 word \<times> nat) option" where
  "parse_cidr c = (case split_on (CHR ''/'') c of
     addr # bits # _ \<Rightarrow> (case ipv4_octets addr of
        Some os \<Rightarrow> (if all_digits bits \<and> 8 \<le> read_nat bits \<and> read_nat bits \<le> 32
          then Some (ipv4_word os, read_nat bits) else None)
      | None \<Rightarrow> None)
   | _ \<Rightarrow> None)"

definition in_subnet :: "32 word \<Rightarrow> 32 word \<times> nat \<Rightarrow> bool" where
  "in_subnet w net = (w AND cidr_mask (snd net) = fst net AND cidr_mask (snd net))"

definition in_own_network :: "string \<Rightarrow> string list \<Rightarrow> bool" where
  "in_own_network host cidrs = (case ipv4_octets host of
     None \<Rightarrow> False
   | Some os \<Rightarrow> list_ex (in_subnet (ipv4_word os)) (List.map_filter parse_cidr cidrs))"

end
