(* ===== verification/NetFacts.thy ===== *)
theory NetFacts
  imports NetAddress
begin

text \<open>
  The address rules in terms of address ranges: an octet test of the code is membership of the subnet its
  documentation names, and a subnet test is equality of the network bits.
\<close>

section \<open>Words\<close>

lemma mask_bits: "(w :: 32 word) AND push_bit k (- 1) = push_bit k (drop_bit k w)"
  by (rule bit_word_eqI) (auto simp: bit_simps)

lemma push_drop_inj:
  "push_bit k (drop_bit k w) = push_bit k (drop_bit k (v :: 32 word)) \<Longrightarrow> drop_bit k w = drop_bit k v"
proof -
  assume "push_bit k (drop_bit k w) = push_bit k (drop_bit k v)"
  then have "drop_bit k (push_bit k (drop_bit k w)) = drop_bit k (push_bit k (drop_bit k v))" by simp
  moreover have "drop_bit k (push_bit k (drop_bit k u)) = drop_bit k u" for u :: "32 word"
    by (rule bit_word_eqI) (auto simp: bit_simps dest: bit_imp_le_length)
  ultimately show ?thesis by simp
qed

lemma in_subnet_nat:
  "in_subnet w (b, n) \<longleftrightarrow> unat w div 2 ^ (32 - n) = unat b div 2 ^ (32 - n)"
proof -
  have "in_subnet w (b, n) \<longleftrightarrow> drop_bit (32 - n) w = drop_bit (32 - n) b"
    unfolding in_subnet_def cidr_mask_def fst_conv snd_conv mask_bits by (auto dest: push_drop_inj)
  also have "\<dots> \<longleftrightarrow> unat (drop_bit (32 - n) w) = unat (drop_bit (32 - n) b)" by (simp only: word_unat_eq_iff)
  also have "\<dots> \<longleftrightarrow> unat w div 2 ^ (32 - n) = unat b div 2 ^ (32 - n)"
    by (subst (1 2) unat_drop_bit_eq) (simp only: drop_bit_eq_div)
  finally show ?thesis .
qed

text \<open>The four octets of an address, and their value.\<close>

lemma octet_bound: "octet s = Some n \<Longrightarrow> n \<le> 255"
  by (auto simp: octet_def split: if_splits)

lemma ipv4_octets_shape:
  assumes "ipv4_octets s = Some os"
  obtains a b c d where "os = [a, b, c, d]" "a \<le> 255" "b \<le> 255" "c \<le> 255" "d \<le> 255"
proof -
  let ?os = "map octet (split_on (CHR ''.'') s)"
  have len: "length ?os = 4" and some: "None \<notin> set ?os" and os: "os = map the ?os"
    using assms by (auto simp: ipv4_octets_def Let_def split: if_splits)
  have bound: "n \<le> 255" if "n \<in> set os" for n
  proof -
    from that os obtain x where x: "x \<in> set ?os" "n = the x" by auto
    with some obtain m where m: "x = Some m" by (cases x) auto
    with x obtain p where "octet p = Some m" by auto
    then show ?thesis using x m octet_bound by simp
  qed
  have "length os = 4" using len os by simp
  then obtain a b c d where abcd: "os = [a, b, c, d]" by (auto simp: length_Suc_conv numeral_eq_Suc)
  show ?thesis by (rule that[OF abcd]) (use bound abcd in auto)
qed

lemma ipv4_word_value:
  assumes "a \<le> 255" "b \<le> 255" "c \<le> 255" "d \<le> 255"
  shows "unat (ipv4_word [a, b, c, d]) = (a * 256 + b) * 65536 + (c * 256 + d)"
proof -
  let ?n = "(a * 256 + b) * 65536 + (c * 256 + d)"
  have fold: "foldl (\<lambda>w n. 256 * w + n) 0 [a, b, c, d] = ?n" by simp
  have "a * 256 + b \<le> 65535" and cd: "c * 256 + d \<le> 65535" using assms by linarith+
  then have "(a * 256 + b) * 65536 \<le> 65535 * 65536" by (intro mult_le_mono1)
  then have "?n \<le> 65535 * 65536 + 65535" using cd by (rule add_mono)
  then have "?n < 4294967296" by simp
  then have "?n < 2 ^ LENGTH(32)" by simp
  then show ?thesis unfolding ipv4_word_def fold unat_of_nat by (rule mod_less)
qed

lemma two_octets: "c \<le> 255 \<Longrightarrow> d \<le> 255 \<Longrightarrow> (x * 65536 + (c * 256 + d)) div 65536 = (x :: nat)"
  by simp

lemma network_bits:
  assumes "c \<le> 255" "d \<le> 255"
  shows "(x * 65536 + (c * 256 + d)) div (65536 * m) = x div (m :: nat)"
  by (simp only: div_mult2_eq two_octets[OF assms])

lemma digit_eq: "k < m \<Longrightarrow> p * m + k = n \<longleftrightarrow> p = n div m \<and> k = (n mod m :: nat)"
  by auto

lemma first_octet: "b \<le> 255 \<Longrightarrow> (a * 256 + b) div 256 = (a :: nat)"
  by simp

section \<open>Ranges\<close>

definition REFUSED_RANGES :: "string list" where
  "REFUSED_RANGES = [''127.0.0.0/8'', ''169.254.0.0/16'', ''0.0.0.0/8'']"

definition PRIVATE_RANGES :: "string list" where
  "PRIVATE_RANGES = [''10.0.0.0/8'', ''192.168.0.0/16'', ''172.16.0.0/12'', ''100.64.0.0/10'']"

lemma parse_cidrI:
  "split_on (CHR ''/'') c = [x, y] \<Longrightarrow> ipv4_octets x = Some os \<Longrightarrow> all_digits y \<Longrightarrow> read_nat y = n \<Longrightarrow> 8 \<le> n \<Longrightarrow> n \<le> 32
   \<Longrightarrow> parse_cidr c = Some (ipv4_word os, n)"
  by (simp add: parse_cidr_def)

lemma loopback_cidr: "parse_cidr ''127.0.0.0/8'' = Some (ipv4_word [127, 0, 0, 0], 8)"
  by (rule parse_cidrI[where x = "''127.0.0.0''" and y = "''8''"]; code_simp)

lemma link_local_cidr: "parse_cidr ''169.254.0.0/16'' = Some (ipv4_word [169, 254, 0, 0], 16)"
  by (rule parse_cidrI[where x = "''169.254.0.0''" and y = "''16''"]; code_simp)

lemma this_network_cidr: "parse_cidr ''0.0.0.0/8'' = Some (ipv4_word [0, 0, 0, 0], 8)"
  by (rule parse_cidrI[where x = "''0.0.0.0''" and y = "''8''"]; code_simp)

lemma ten_cidr: "parse_cidr ''10.0.0.0/8'' = Some (ipv4_word [10, 0, 0, 0], 8)"
  by (rule parse_cidrI[where x = "''10.0.0.0''" and y = "''8''"]; code_simp)

lemma lan_cidr: "parse_cidr ''192.168.0.0/16'' = Some (ipv4_word [192, 168, 0, 0], 16)"
  by (rule parse_cidrI[where x = "''192.168.0.0''" and y = "''16''"]; code_simp)

lemma docker_cidr: "parse_cidr ''172.16.0.0/12'' = Some (ipv4_word [172, 16, 0, 0], 12)"
  by (rule parse_cidrI[where x = "''172.16.0.0''" and y = "''12''"]; code_simp)

lemma shared_cidr: "parse_cidr ''100.64.0.0/10'' = Some (ipv4_word [100, 64, 0, 0], 10)"
  by (rule parse_cidrI[where x = "''100.64.0.0''" and y = "''10''"]; code_simp)

lemmas range_cidrs = loopback_cidr link_local_cidr this_network_cidr ten_cidr lan_cidr docker_cidr shared_cidr

lemma octets_in_subnet:
  assumes "a \<le> 255" "b \<le> 255" "c \<le> 255" "d \<le> 255" "p \<le> 255" "q \<le> 255" "n \<le> 16"
  shows "in_subnet (ipv4_word [a, b, c, d]) (ipv4_word [p, q, 0, 0], n)
    \<longleftrightarrow> (a * 256 + b) div 2 ^ (16 - n) = (p * 256 + q) div 2 ^ (16 - n)"
proof -
  have z: "0 \<le> (255 :: nat)" by simp
  have "(2 :: nat) ^ (32 - n) = 2 ^ (16 + (16 - n))" using assms(7) by (intro arg_cong[where f = "(^) 2"]) simp
  also have "\<dots> = 65536 * 2 ^ (16 - n)" by (simp only: power_add) simp
  finally show ?thesis
    unfolding in_subnet_nat ipv4_word_value[OF assms(1-4)] ipv4_word_value[OF assms(5,6) z z]
    by (simp only: network_bits[OF assms(3,4)] network_bits[OF z z])
qed

lemma in_ranges:
  assumes "ipv4_octets a = Some os"
  shows "in_own_network a cs \<longleftrightarrow> (\<exists>c\<in>set cs. \<exists>net. parse_cidr c = Some net \<and> in_subnet (ipv4_word os) net)"
  using assms by (simp add: in_own_network_def list_ex_iff Bex_def in_map_filter) blast

lemma refused_octets_range:
  assumes "ipv4_octets a = Some os"
  shows "refused_octets os \<longleftrightarrow> in_own_network a REFUSED_RANGES"
proof -
  obtain p q r s where os: "os = [p, q, r, s]" and b: "p \<le> 255" "q \<le> 255" "r \<le> 255" "s \<le> 255"
    using ipv4_octets_shape[OF assms] .
  note net = octets_in_subnet[OF b]
  have l: "in_subnet (ipv4_word os) (ipv4_word [127, 0, 0, 0], 8) \<longleftrightarrow> p = 127"
    using net[of 127 0 8] b(2) by (simp add: os first_octet)
  have k: "in_subnet (ipv4_word os) (ipv4_word [169, 254, 0, 0], 16) \<longleftrightarrow> p = 169 \<and> q = 254"
    using net[of 169 254 16] b(2) digit_eq[of q 256 p 43518] by (simp add: os)
  have z: "in_subnet (ipv4_word os) (ipv4_word [0, 0, 0, 0], 8) \<longleftrightarrow> p = 0"
    using net[of 0 0 8] b(2) by (simp add: os first_octet)
  show ?thesis
    unfolding in_ranges[OF assms] REFUSED_RANGES_def using l k z
    by (simp add: range_cidrs refused_octets_def os)
qed

lemma private_octets_range:
  assumes "ipv4_octets a = Some os"
  shows "private_octets os \<longleftrightarrow> in_own_network a PRIVATE_RANGES"
proof -
  obtain p q r s where os: "os = [p, q, r, s]" and b: "p \<le> 255" "q \<le> 255" "r \<le> 255" "s \<le> 255"
    using ipv4_octets_shape[OF assms] .
  note net = octets_in_subnet[OF b]
  have t: "in_subnet (ipv4_word os) (ipv4_word [10, 0, 0, 0], 8) \<longleftrightarrow> p = 10"
    using net[of 10 0 8] b(2) by (simp add: os first_octet)
  have l: "in_subnet (ipv4_word os) (ipv4_word [192, 168, 0, 0], 16) \<longleftrightarrow> p = 192 \<and> q = 168"
    using net[of 192 168 16] b(2) digit_eq[of q 256 p 49320] by (simp add: os)
  have sixteen: "(p * 256 + q) div 16 = p * 16 + q div 16" and four: "(p * 256 + q) div 64 = p * 4 + q div 64"
    using div_mult_self3[of 16 "p * 16" q] div_mult_self3[of 64 "p * 4" q] by simp_all
  have small: "q div 16 \<le> 15" "q div 64 \<le> 3" using b(2) by linarith+
  have d: "in_subnet (ipv4_word os) (ipv4_word [172, 16, 0, 0], 12) \<longleftrightarrow> p = 172 \<and> 16 \<le> q \<and> q \<le> 31"
  proof -
    have "p * 16 + q div 16 = 2753 \<longleftrightarrow> p = 172 \<and> q div 16 = 1" using digit_eq[of "q div 16" 16 p 2753] small(1) by simp
    also have "\<dots> \<longleftrightarrow> p = 172 \<and> 16 \<le> q \<and> q \<le> 31" by auto
    finally show ?thesis using net[of 172 16 12] by (simp add: os sixteen)
  qed
  have c: "in_subnet (ipv4_word os) (ipv4_word [100, 64, 0, 0], 10) \<longleftrightarrow> p = 100 \<and> 64 \<le> q \<and> q \<le> 127"
  proof -
    have "p * 4 + q div 64 = 401 \<longleftrightarrow> p = 100 \<and> q div 64 = 1" using digit_eq[of "q div 64" 4 p 401] small(2) by simp
    also have "\<dots> \<longleftrightarrow> p = 100 \<and> 64 \<le> q \<and> q \<le> 127" by auto
    finally show ?thesis using net[of 100 64 10] by (simp add: os four)
  qed
  show ?thesis
    unfolding in_ranges[OF assms] PRIVATE_RANGES_def using t l d c
    by (simp add: range_cidrs private_octets_def os)
qed

section \<open>Dotted addresses are no IPv6 addresses\<close>

lemma hex_not_dot: "is_hex c \<Longrightarrow> c \<noteq> CHR ''.''"
  by (auto simp: is_hex_def is_digit_def code_def)

text \<open>Every IPv6 address holds a colon, no dotted one does.\<close>

lemma ipv4_no_colon: "is_ipv4 a \<Longrightarrow> CHR '':'' \<notin> set a \<and> CHR ''%'' \<notin> set a"
proof -
  assume v4: "is_ipv4 a"
  let ?ps = "split_on (CHR ''.'') a"
  have digits: "list_all is_digit p" if "p \<in> set ?ps" for p
  proof -
    have "None \<notin> octet ` set ?ps" using v4 by (simp add: is_ipv4_def ipv4_octets_def Let_def split: if_splits)
    with that have "octet p \<noteq> None" by (metis imageI)
    then show ?thesis by (auto simp: octet_def all_digits_def split: if_splits)
  qed
  have "set (join_with sep ps) \<subseteq> set sep \<union> (\<Union>p\<in>set ps. set p)" for sep and ps :: "string list"
    by (induction ps rule: induct_list012) auto
  from this[of "[CHR ''.'']" ?ps] have "set a \<subseteq> {CHR ''.''} \<union> (\<Union>p\<in>set ?ps. set p)"
    by (simp add: join_split_on)
  then have chars: "c = CHR ''.'' \<or> is_digit c" if "c \<in> set a" for c
    using that digits unfolding list_all_iff by blast
  have "\<not> is_digit (CHR '':'')" "\<not> is_digit (CHR ''%'')" by code_simp+
  moreover have "CHR '':'' \<noteq> CHR ''.''" "CHR ''%'' \<noteq> CHR ''.''" by simp_all
  ultimately show ?thesis using chars by metis
qed

lemma cut_double_colon: "cut_double s = Some pq \<Longrightarrow> CHR '':'' \<in> set s"
  by (induction s arbitrary: pq rule: cut_double.induct) (auto split: if_splits)

lemma ipv4_not_ipv6:
  assumes "is_ipv4 a"
  shows "\<not> is_ipv6 a"
proof -
  note free = ipv4_no_colon[OF assms]
  have body: "takeWhile (\<lambda>c. c \<noteq> CHR ''%'') a = a" using free by (auto simp: takeWhile_eq_all_conv)
  have "cut_double a = None" using free cut_double_colon[of a] by (cases "cut_double a") auto
  moreover have "group_count True a \<noteq> Some 8"
    using free by (auto simp: group_count_def Let_def split_on_id split: if_splits)
  ultimately show ?thesis by (simp add: is_ipv6_def Let_def body)
qed

text \<open>
  For a dotted address (as itself or mapped into IPv6), the octet tests of the code are exactly the
  address ranges they stand for: a direct tunnel never goes to this machine's own addresses, loopback
  127.0.0.0/8, link-local 169.254.0.0/16 or 0.0.0.0/8, and to a private or shared range only when the
  entry names the address itself.
\<close>

theorem direct_tunnel_ranges:
  assumes "is_ipv4 (drop_mapped (map lower address))"
  shows "direct_address_allowed own address literal \<longleftrightarrow>
     drop_mapped (map lower address) \<notin> set own
     \<and> \<not> in_own_network (drop_mapped (map lower address)) REFUSED_RANGES
     \<and> (literal \<or> \<not> in_own_network (drop_mapped (map lower address)) PRIVATE_RANGES)"
proof -
  let ?a = "drop_mapped (map lower address)"
  obtain os where os: "ipv4_octets ?a = Some os" using assms by (auto simp: is_ipv4_def)
  show ?thesis
    unfolding direct_address_allowed_def Let_def refused_octets_range[OF os, symmetric]
      private_octets_range[OF os, symmetric] is_private_address_def os option.case
    using assms ipv4_not_ipv6[OF assms] by (simp add: is_ip_def)
qed

theorem direct_tunnel_ranges_witness:
  "\<not> direct_address_allowed [] ''::ffff:169.254.169.254'' True \<and> direct_address_allowed [] ''192.168.1.7'' True
   \<and> \<not> direct_address_allowed [] ''192.168.1.7'' False"
proof -
  have m: "is_ipv4 (drop_mapped (map lower ''::ffff:169.254.169.254''))" by code_simp
  have p: "is_ipv4 (drop_mapped (map lower ''192.168.1.7''))" by code_simp
  have om: "ipv4_octets (drop_mapped (map lower ''::ffff:169.254.169.254'')) = Some [169, 254, 169, 254]" by code_simp
  have op: "ipv4_octets (drop_mapped (map lower ''192.168.1.7'')) = Some [192, 168, 1, 7]" by code_simp
  have "in_own_network (drop_mapped (map lower ''::ffff:169.254.169.254'')) REFUSED_RANGES"
    unfolding refused_octets_range[OF om, symmetric] by code_simp
  moreover have "\<not> in_own_network (drop_mapped (map lower ''192.168.1.7'')) REFUSED_RANGES"
    unfolding refused_octets_range[OF op, symmetric] by code_simp
  moreover have "in_own_network (drop_mapped (map lower ''192.168.1.7'')) PRIVATE_RANGES"
    unfolding private_octets_range[OF op, symmetric] by code_simp
  ultimately show ?thesis
    using direct_tunnel_ranges[OF m, of "[]" True] direct_tunnel_ranges[OF p, of "[]" True]
      direct_tunnel_ranges[OF p, of "[]" False] by simp
qed

text \<open>
  Other spellings of the same addresses pass: the rules compare text, and loopback has more than one
  IPv6 spelling.
\<close>

lemma loopback_respelled_allowed:
  "direct_address_allowed [''127.0.0.1'', ''::1''] ''0::1'' True
   \<and> direct_address_allowed [''127.0.0.1'', ''::1''] ''0::ffff:127.0.0.1'' True
   \<and> \<not> direct_address_allowed [''127.0.0.1'', ''::1''] ''::1'' True"
  by code_simp

end
