(* ===== verification/EgressPolicy.thy ===== *)
theory EgressPolicy
  imports NetAddress Tables
begin

text \<open>
  Where an agent may connect (\<open>src/channels/webchat/egress-policy.ts\<close>): host patterns and their
  normal form, allowlists, the three network modes, direct tunnels, the cached configuration readers and
  the list of refused hosts. The database is seen through its stored texts; a text that holds JSON is its
  parsed value (\<open>stored\<close>), so that writing a list and reading it back is \<open>JSON.stringify\<close>
  followed by \<open>JSON.parse\<close>.
\<close>

section \<open>Patterns\<close>

datatype pattern_error = EmptyPattern | BadPort string | NotHost string | Raised

definition strip_scheme :: "string \<Rightarrow> string" where
  "strip_scheme s = (if starts_with s ''http://'' then drop 7 s
     else if starts_with s ''https://'' then drop 8 s else s)"

text \<open>\<open>/\/.*$/\<close>: from the first slash after which the text has no line end.\<close>

fun strip_path :: "string \<Rightarrow> string" where
  "strip_path [] = []"
| "strip_path (c # s) = (if c = CHR ''/'' \<and> \<not> list_ex ends_line s then [] else c # strip_path s)"

text \<open>\<open>/^(.*?)(?::(\d{1,5}))?$/\<close>.\<close>

definition split_port :: "string \<Rightarrow> string \<times> string option" where
  "split_port s =
     (let ds = rev (takeWhile is_digit (rev s)); before = dropWhile is_digit (rev s)
      in if ds \<noteq> [] \<and> length ds \<le> 5 \<and> before \<noteq> [] \<and> hd before = CHR '':''
         then (rev (tl before), Some ds) else (s, None))"

definition label_char :: "char \<Rightarrow> bool" where
  "label_char c = (is_alnum c \<or> c = CHR ''-'')"

definition host_label :: "string \<Rightarrow> bool" where
  "host_label l = (l \<noteq> [] \<and> length l \<le> 63 \<and> list_all label_char l \<and> is_alnum (hd l) \<and> is_alnum (last l))"

text \<open>\<open>HOST_RE\<close>: at least two labels, after an optional star.\<close>

definition host_re :: "string \<Rightarrow> bool" where
  "host_re s = (let ls = split_on (CHR ''.'') (if starts_with s ''*.'' then drop 2 s else s)
     in 2 \<le> length ls \<and> list_all host_label ls)"

definition parse_pattern :: "string \<Rightarrow> pattern_error + string" where
  "parse_pattern raw =
     (let s = strip_path (strip_scheme (map lower (js_trim raw))) in
      if s = [] then Inl EmptyPattern
      else if list_ex ends_line s then Inl Raised
      else (let (host, digits) = split_port s; port = map_option read_nat digits
            in if (case port of None \<Rightarrow> False | Some n \<Rightarrow> n < 1 \<or> 65535 < n) then Inl (BadPort raw)
               else if \<not> host_re host then Inl (NotHost raw)
               else Inr (case port of None \<Rightarrow> host | Some n \<Rightarrow> host @ '':'' @ show_nat n)))"

section \<open>Lists\<close>

datatype json = JText string | JList "json list" | JOther

datatype list_error = NotArray | TooMany | NotString | BadEntry pattern_error

definition MAX_ENTRIES :: nat where "MAX_ENTRIES = 500"

fun parse_entries :: "json list \<Rightarrow> string list \<Rightarrow> list_error + string list" where
  "parse_entries [] out = Inr out"
| "parse_entries (JText t # items) out = (case parse_pattern t of
     Inl e \<Rightarrow> Inl (BadEntry e) | Inr p \<Rightarrow> parse_entries items (add_new p out))"
| "parse_entries (_ # items) out = Inl NotString"

definition parse_allowlist :: "json \<Rightarrow> list_error + string list" where
  "parse_allowlist raw = (case raw of
     JList items \<Rightarrow> if MAX_ENTRIES < length items then Inl TooMany else parse_entries items []
   | _ \<Rightarrow> Inl NotArray)"

definition ALWAYS_ALLOWED :: "string list" where
  "ALWAYS_ALLOWED = [''api.anthropic.com'']"

definition BUILTIN_ALLOWLIST :: "string list" where
  "BUILTIN_ALLOWLIST = [''registry.npmjs.org'', ''pypi.org'', ''files.pythonhosted.org'', ''api.nuget.org'',
     ''github.com'', ''api.github.com'', ''codeload.github.com'', ''*.githubusercontent.com'', ''learn.microsoft.com'']"

text \<open>\<open>None\<close>: an entry on which \<open>parsePattern\<close> raises takes the caller with it.\<close>

fun add_defaults :: "string list \<Rightarrow> string list \<Rightarrow> string list option" where
  "add_defaults [] out = Some out"
| "add_defaults (raw # extra) out = (case parse_pattern raw of
     Inr p \<Rightarrow> add_defaults extra (add_new p out)
   | Inl Raised \<Rightarrow> None
   | Inl _ \<Rightarrow> add_defaults extra out)"

definition default_allowlist :: "string list \<Rightarrow> string list option" where
  "default_allowlist extra = add_defaults extra BUILTIN_ALLOWLIST"

section \<open>Destination hosts\<close>

definition dns_char :: "char \<Rightarrow> bool" where
  "dns_char c = (is_alnum (lower c) \<or> c \<in> {CHR ''_'', CHR ''-''})"

text \<open>First a letter, digit or underscore; the last of two or more a letter or digit.\<close>

definition dns_label :: "string \<Rightarrow> bool" where
  "dns_label l = (l \<noteq> [] \<and> length l \<le> 63 \<and> list_all dns_char l
     \<and> (is_alnum (lower (hd l)) \<or> hd l = CHR ''_'')
     \<and> (length l = 1 \<or> is_alnum (lower (last l))))"

definition drop_dot :: "string \<Rightarrow> string" where
  "drop_dot s = (if s \<noteq> [] \<and> last s = CHR ''.'' then butlast s else s)"

definition dns_name :: "string \<Rightarrow> bool" where
  "dns_name s = (length (drop_dot s) \<le> 253 \<and> list_all dns_label (split_on (CHR ''.'') (drop_dot s)))"

definition is_safe_egress_host :: "string \<Rightarrow> bool" where
  "is_safe_egress_host host = (is_ip host \<or> dns_name host)"

section \<open>Matching\<close>

definition ends_with :: "string \<Rightarrow> string \<Rightarrow> bool" where
  "ends_with s t = (length t \<le> length s \<and> drop (length s - length t) s = t)"

definition host_matches :: "string \<Rightarrow> nat \<Rightarrow> string \<Rightarrow> bool" where
  "host_matches host port pat =
     (let h = drop_dot (map lower host);
          ps = split_on (CHR '':'') pat;
          p_host = hd ps;
          p_port = (case ps of _ # q # _ \<Rightarrow> q | _ \<Rightarrow> [])
      in if (if p_port \<noteq> [] then \<not> (all_digits p_port \<and> read_nat p_port = port) else port \<noteq> 443 \<and> port \<noteq> 80) then False
         else if starts_with p_host ''*.''
         then ends_with h (tl p_host) \<and> length p_host - 1 < length h
         else h = p_host)"

datatype egress_mode = Open | HostOnly | ModelOnly

definition effective_egress_mode :: "string option \<Rightarrow> egress_mode" where
  "effective_egress_mode s = (if s = Some ''open'' then Open else if s = Some ''none'' then ModelOnly else HostOnly)"

definition egress_allowed :: "egress_mode \<Rightarrow> string \<Rightarrow> nat \<Rightarrow> string list \<Rightarrow> string list \<Rightarrow> bool" where
  "egress_allowed mode host port allowlist always =
     (if mode = Open then True
      else if list_ex (host_matches host port) always then True
      else if mode = ModelOnly then False
      else list_ex (host_matches host port) allowlist)"

definition drop_brackets :: "string \<Rightarrow> string" where
  "drop_brackets s = (let t = (if s \<noteq> [] \<and> hd s = CHR ''['' then tl s else s)
     in if t \<noteq> [] \<and> last t = CHR '']'' then butlast t else t)"

definition direct_tunnel :: "string list \<Rightarrow> egress_mode \<Rightarrow> string \<Rightarrow> nat \<Rightarrow> string list \<Rightarrow> bool" where
  "direct_tunnel own mode host port install =
     (if mode \<noteq> HostOnly \<or> port = 443 \<or> port = 80 then False
      else (let h = drop_brackets (drop_dot (map lower host)) in
        if h = ''localhost'' \<or> h = ''host.docker.internal'' then False
        else if is_ip h \<and> \<not> direct_address_allowed own h True then False
        else list_ex (\<lambda>p. CHR '':'' \<in> set p \<and> host_matches host port p) install))"

text \<open>
  What \<open>connectDirect\<close> connects to, given the resolver: the one address it resolved, or nothing.
\<close>

definition connect_direct :: "string list \<Rightarrow> (string \<Rightarrow> string option) \<Rightarrow> string \<Rightarrow> string option" where
  "connect_direct own lookup host = (let bare = drop_brackets host in
     case lookup bare of
       None \<Rightarrow> None
     | Some address \<Rightarrow> if direct_address_allowed own address (is_ip bare) then Some address else None)"

section \<open>Configuration, cached\<close>

definition TTL_MS :: int where "TTL_MS = 15000"

text \<open>A stored text: absent or empty, a read error, text that is not JSON, or a JSON value.\<close>

datatype stored = Absent | Unreadable | Malformed | Value json

record blocked_host =
  b_host :: string
  b_port :: nat
  b_count :: nat
  b_first :: millis
  b_last :: millis
  b_groups :: "string list"

record egress_state =
  forced_mode :: "egress_mode option"
  list_cache :: "(millis \<times> string list) option"
  mode_cache :: "string \<Rightarrow> (millis \<times> egress_mode) option"
  agent_cache :: "string \<Rightarrow> (millis \<times> string list) option"
  hosts_cache :: "string \<Rightarrow> (millis \<times> string list) option"
  targets_cache :: "string \<Rightarrow> (millis \<times> string list) option"
  blocked :: "blocked_host list"
  audited :: "string \<Rightarrow> millis option"

text \<open>The columns behind them: the install list, each agent's hosts, each group's mode (\<open>None\<close>: unreadable).\<close>

record egress_db =
  db_install :: stored
  db_agent :: "string \<Rightarrow> stored"
  db_mode :: "string \<Rightarrow> string option option"

definition fresh_entry :: "millis \<Rightarrow> (millis \<times> 'a) option \<Rightarrow> 'a option" where
  "fresh_entry now e = (case e of None \<Rightarrow> None | Some (t, x) \<Rightarrow> if now - t < TTL_MS then Some x else None)"

definition read_list :: "string list \<Rightarrow> stored \<Rightarrow> string list" where
  "read_list fallback s = (case s of
     Value j \<Rightarrow> (case parse_allowlist j of Inr ps \<Rightarrow> ps | Inl _ \<Rightarrow> fallback)
   | _ \<Rightarrow> fallback)"

definition get_runner_egress_allowlist ::
  "string list \<Rightarrow> millis \<Rightarrow> egress_db \<Rightarrow> egress_state \<Rightarrow> string list \<times> egress_state" where
  "get_runner_egress_allowlist defaults now db st = (case fresh_entry now (list_cache st) of
     Some l \<Rightarrow> (l, st)
   | None \<Rightarrow> (let l = read_list defaults (db_install db) in (l, st\<lparr>list_cache := Some (now, l)\<rparr>)))"

definition list_json :: "string list \<Rightarrow> json" where
  "list_json ps = JList (map JText ps)"

definition set_runner_egress_allowlist ::
  "string list \<Rightarrow> millis \<Rightarrow> egress_db \<Rightarrow> egress_state \<Rightarrow> egress_db \<times> egress_state" where
  "set_runner_egress_allowlist ps now db st =
     (db\<lparr>db_install := Value (list_json ps)\<rparr>,
      st\<lparr>list_cache := Some (now, ps),
         blocked := filter (\<lambda>b. \<not> list_ex (host_matches (b_host b) (b_port b)) ps) (blocked st)\<rparr>)"

definition get_agent_egress_hosts ::
  "string \<Rightarrow> millis \<Rightarrow> egress_db \<Rightarrow> egress_state \<Rightarrow> string list \<times> egress_state" where
  "get_agent_egress_hosts g now db st = (case fresh_entry now (agent_cache st g) of
     Some l \<Rightarrow> (l, st)
   | None \<Rightarrow> (let l = read_list [] (db_agent db g) in (l, st\<lparr>agent_cache := (agent_cache st)(g \<mapsto> (now, l))\<rparr>)))"

text \<open>Allowed for this agent only: it is dropped from each refused host its list now matches.\<close>

definition forgive :: "string \<Rightarrow> string list \<Rightarrow> blocked_host \<Rightarrow> blocked_host option" where
  "forgive g ps b =
     (if g \<notin> set (b_groups b) \<or> \<not> list_ex (host_matches (b_host b) (b_port b)) ps then Some b
      else (let gs = filter (\<lambda>i. i \<noteq> g) (b_groups b) in
        if gs = [] then None else Some (b\<lparr>b_groups := gs\<rparr>)))"

definition set_agent_egress_hosts ::
  "string \<Rightarrow> string list \<Rightarrow> millis \<Rightarrow> egress_db \<Rightarrow> egress_state \<Rightarrow> egress_db \<times> egress_state" where
  "set_agent_egress_hosts g ps now db st =
     (db\<lparr>db_agent := (db_agent db)(g := (if ps = [] then Absent else Value (list_json ps)))\<rparr>,
      st\<lparr>agent_cache := (agent_cache st)(g \<mapsto> (now, ps)),
         blocked := List.map_filter (forgive g ps) (blocked st)\<rparr>)"

definition allowlist_for ::
  "string list \<Rightarrow> string \<Rightarrow> millis \<Rightarrow> egress_db \<Rightarrow> egress_state \<Rightarrow> string list \<times> egress_state" where
  "allowlist_for defaults g now db st =
     (let (install, st1) = get_runner_egress_allowlist defaults now db st;
          (own, st2) = get_agent_egress_hosts g now db st1
      in (if own = [] then install else install @ filter (\<lambda>p. p \<notin> set install) own, st2))"

definition group_egress_mode :: "string \<Rightarrow> millis \<Rightarrow> egress_db \<Rightarrow> egress_state \<Rightarrow> egress_mode \<times> egress_state" where
  "group_egress_mode g now db st = (case forced_mode st of
     Some m \<Rightarrow> (m, st)
   | None \<Rightarrow> (case fresh_entry now (mode_cache st g) of
       Some m \<Rightarrow> (m, st)
     | None \<Rightarrow> (let m = (case db_mode db g of None \<Rightarrow> HostOnly | Some s \<Rightarrow> effective_egress_mode s)
         in (m, st\<lparr>mode_cache := (mode_cache st)(g \<mapsto> (now, m))\<rparr>))))"

definition forget_group_egress_mode :: "string \<Rightarrow> egress_state \<Rightarrow> egress_state" where
  "forget_group_egress_mode g st = st\<lparr>mode_cache := (mode_cache st)(g := None),
     hosts_cache := (hosts_cache st)(g := None), targets_cache := (targets_cache st)(g := None),
     agent_cache := (agent_cache st)(g := None)\<rparr>"

definition forget_model_hosts :: "egress_state \<Rightarrow> egress_state" where
  "forget_model_hosts st = st\<lparr>hosts_cache := (\<lambda>_. None), targets_cache := (\<lambda>_. None)\<rparr>"

text \<open>
  The floor plus the hosts of the agent's harness and of the models it runs on. \<open>read\<close> is what reading
  them gives, up to the point an error stopped it.
\<close>

definition model_hosts_for ::
  "(string \<Rightarrow> string list) \<Rightarrow> string \<Rightarrow> millis \<Rightarrow> egress_state \<Rightarrow> string list \<times> egress_state" where
  "model_hosts_for read g now st = (case fresh_entry now (hosts_cache st g) of
     Some l \<Rightarrow> (l, st)
   | None \<Rightarrow> (let l = fold add_new (read g) ALWAYS_ALLOWED
       in (l, st\<lparr>hosts_cache := (hosts_cache st)(g \<mapsto> (now, l))\<rparr>)))"

definition own_model_targets_for ::
  "(string \<Rightarrow> string list) \<Rightarrow> string \<Rightarrow> millis \<Rightarrow> egress_state \<Rightarrow> string list \<times> egress_state" where
  "own_model_targets_for read g now st = (case fresh_entry now (targets_cache st g) of
     Some l \<Rightarrow> (l, st)
   | None \<Rightarrow> (let l = fold add_new (read g) []
       in (l, st\<lparr>targets_cache := (targets_cache st)(g \<mapsto> (now, l))\<rparr>)))"

section \<open>What was refused\<close>

definition MAX_BLOCKED :: nat where "MAX_BLOCKED = 200"

definition blocked_key :: "blocked_host \<Rightarrow> string" where
  "blocked_key b = b_host b @ '':'' @ show_nat (b_port b)"

definition blocked_entry :: "string \<Rightarrow> nat \<Rightarrow> string \<Rightarrow> millis \<Rightarrow> egress_state \<Rightarrow> blocked_host" where
  "blocked_entry host port g now st =
     (let h = map lower host;
          b = (case tbl_get blocked_key (h @ '':'' @ show_nat port) (blocked st) of Some b \<Rightarrow> b
               | None \<Rightarrow> \<lparr>b_host = h, b_port = port, b_count = 0, b_first = now, b_last = now, b_groups = []\<rparr>)
      in b\<lparr>b_count := b_count b + 1, b_last := now, b_groups := add_new g (b_groups b)\<rparr>)"

text \<open>The most recent is last; the oldest beyond the bound are dropped. The flag: an audit row was written.\<close>

definition record_blocked :: "string \<Rightarrow> nat \<Rightarrow> string \<Rightarrow> millis \<Rightarrow> egress_state \<Rightarrow> bool \<times> egress_state" where
  "record_blocked host port g now st =
     (let b = blocked_entry host port g now st; k = blocked_key b;
          kept = filter (\<lambda>x. blocked_key x \<noteq> k) (blocked st) @ [b];
          st1 = st\<lparr>blocked := drop (length kept - MAX_BLOCKED) kept\<rparr>
      in if 60000 < now - coalesce (audited st k) 0
         then (True, st1\<lparr>audited := (audited st)(k \<mapsto> now)\<rparr>) else (False, st1))"

definition list_blocked :: "egress_state \<Rightarrow> blocked_host list" where
  "list_blocked st = rev (blocked st)"

end
