(* ===== verification/EgressFilter.thy ===== *)
theory EgressFilter
  imports EgressPolicy
begin

text \<open>
  Central's egress filter (\<open>src/channels/webchat/egress-filter.ts\<close>): reading a proxy request head, what
  each connection is answered or where it goes, the body let through after a plain request, the listeners,
  and who is calling from an address. Sockets are outside: a connection's fate is a value of \<open>verdict\<close>.
\<close>

section \<open>Reading a request head\<close>

definition CR :: char where "CR = CHR 0x0D"
definition LF :: char where "LF = CHR 0x0A"
definition NUL :: char where "NUL = CHR 0x00"

definition crlf :: string where "crlf = [CR, LF]"

text \<open>\<open>head.split('\r\n')\<close>.\<close>

fun split_crlf :: "string \<Rightarrow> string list" where
  "split_crlf (a # b # s) = (if a = CR \<and> b = LF then [] # split_crlf s
     else (case split_crlf (b # s) of p # ps \<Rightarrow> (a # p) # ps | [] \<Rightarrow> [[a]]))"
| "split_crlf s = [s]"

definition bad_char :: "char \<Rightarrow> bool" where
  "bad_char c = (c = CR \<or> c = LF \<or> c = NUL)"

text \<open>\<open>/^.../i\<close> on a literal: what follows it, if the line starts with it.\<close>

definition after_ci :: "string \<Rightarrow> string \<Rightarrow> string option" where
  "after_ci lit s = (if length lit \<le> length s \<and> map lower (take (length lit) s) = lit
     then Some (drop (length lit) s) else None)"

definition is_header :: "string \<Rightarrow> string \<Rightarrow> bool" where
  "is_header lit l = (after_ci lit l \<noteq> None)"

text \<open>\<open>/^proxy-authorization:\s*basic\s+(\S+)/i\<close>: the captured credentials.\<close>

definition basic_credentials :: "string \<Rightarrow> string option" where
  "basic_credentials l = (case after_ci ''proxy-authorization:'' l of
     None \<Rightarrow> None
   | Some r \<Rightarrow> (case after_ci ''basic'' (dropWhile js_space r) of
       None \<Rightarrow> None
     | Some r2 \<Rightarrow> (let tok = takeWhile (\<lambda>c. \<not> js_space c) (dropWhile js_space r2)
         in if r2 \<noteq> [] \<and> js_space (hd r2) \<and> tok \<noteq> [] then Some tok else None)))"

definition split_credentials :: "string \<Rightarrow> string \<times> string" where
  "split_credentials dec = (let u = takeWhile (\<lambda>c. c \<noteq> CHR '':'') dec in
     (u, drop (Suc (length u)) dec))"

text \<open>The header lines after the first: the last credentials given, and the headers kept.\<close>

fun read_headers :: "(string \<Rightarrow> string) \<Rightarrow> string list \<Rightarrow> (string \<times> string) \<times> string list \<Rightarrow> (string \<times> string) \<times> string list" where
  "read_headers base64 [] (cred, kept) = (cred, kept)"
| "read_headers base64 (l # ls) (cred, kept) = (case basic_credentials l of
     Some tok \<Rightarrow> read_headers base64 ls (split_credentials (base64 tok), kept)
   | None \<Rightarrow>
       if is_header ''proxy-connection:'' l \<or> is_header ''proxy-authorization:'' l
       then read_headers base64 ls (cred, kept)
       else read_headers base64 ls (cred, if l = [] then kept else kept @ [l]))"

text \<open>\<open>HTTP/1.0\<close> or \<open>HTTP/1.1\<close> after white space, to the end of the line.\<close>

definition version_tail :: "string \<Rightarrow> string option" where
  "version_tail s = (let v = dropWhile js_space s in
     if s \<noteq> [] \<and> js_space (hd s) \<and> map lower v \<in> {''http/1.0'', ''http/1.1''} then Some v else None)"

definition short_number :: "string \<Rightarrow> bool" where
  "short_number ds = (ds \<noteq> [] \<and> length ds \<le> 5)"

definition connect_host_char :: "char \<Rightarrow> bool" where
  "connect_host_char c = (is_hex c \<or> c = CHR '':'' \<or> c = CHR ''.'')"

text \<open>\<open>\[[0-9a-f:.]+\]|[^\s:]+\<close>: the host and what follows it.\<close>

definition connect_host :: "string \<Rightarrow> string \<times> string" where
  "connect_host s =
     (let inner = takeWhile connect_host_char (tl s); rest = dropWhile connect_host_char (tl s)
      in if s \<noteq> [] \<and> hd s = CHR ''['' \<and> inner \<noteq> [] \<and> rest \<noteq> [] \<and> hd rest = CHR '']''
         then (CHR ''['' # inner @ '']'', tl rest)
         else (takeWhile (\<lambda>c. \<not> js_space c \<and> c \<noteq> CHR '':'') s, dropWhile (\<lambda>c. \<not> js_space c \<and> c \<noteq> CHR '':'') s))"

definition connect_line :: "string \<Rightarrow> (string \<times> nat) option" where
  "connect_line first = (case after_ci ''connect'' first of
     None \<Rightarrow> None
   | Some r \<Rightarrow>
      (let (host, s) = connect_host (dropWhile js_space r);
           ds = takeWhile is_digit (tl s)
       in if r \<noteq> [] \<and> js_space (hd r) \<and> host \<noteq> [] \<and> s \<noteq> [] \<and> hd s = CHR '':'' \<and> short_number ds
             \<and> version_tail (dropWhile is_digit (tl s)) \<noteq> None
          then Some (drop_brackets host, read_nat ds) else None))"

record abs_line =
  al_method :: string
  al_host :: string
  al_port :: "string option"
  al_path :: string
  al_version :: string

definition ascii_letter :: "char \<Rightarrow> bool" where
  "ascii_letter c = (is_lower c \<or> is_upper c)"

definition host_stop :: "char \<Rightarrow> bool" where
  "host_stop c = (js_space c \<or> c = CHR ''/'' \<or> c = CHR '':'')"

text \<open>An optional \<open>:port\<close>, and what follows it; \<open>None\<close> when a colon is not followed by one.\<close>

definition abs_port :: "string \<Rightarrow> (string option \<times> string) option" where
  "abs_port s = (if s \<noteq> [] \<and> hd s = CHR '':''
     then (let ds = takeWhile is_digit (tl s) in
       if short_number ds then Some (Some ds, dropWhile is_digit (tl s)) else None)
     else Some (None, s))"

definition abs_path :: "string \<Rightarrow> string \<times> string" where
  "abs_path s = (if s \<noteq> [] \<and> hd s = CHR ''/''
     then (takeWhile (\<lambda>c. \<not> js_space c) s, dropWhile (\<lambda>c. \<not> js_space c) s) else ([], s))"

definition absolute_line :: "string \<Rightarrow> abs_line option" where
  "absolute_line first =
     (let m = takeWhile ascii_letter first; r = dropWhile ascii_letter first
      in if m = [] \<or> r = [] \<or> \<not> js_space (hd r) then None
         else (case after_ci ''http://'' (dropWhile js_space r) of
           None \<Rightarrow> None
         | Some u \<Rightarrow>
            (let host = takeWhile (\<lambda>c. \<not> host_stop c) u; s = dropWhile (\<lambda>c. \<not> host_stop c) u
             in if host = [] then None
                else (case abs_port s of
                  None \<Rightarrow> None
                | Some (port, s2) \<Rightarrow>
                   (let (path, s3) = abs_path s2 in
                    case version_tail s3 of
                      None \<Rightarrow> None
                    | Some v \<Rightarrow> Some \<lparr>al_method = m, al_host = host, al_port = port, al_path = path,
                        al_version = v\<rparr>)))))"

text \<open>\<open>/^content-length:\s*(\d+)\s*$/im\<close> on the headers joined by line feeds: the first that matches.\<close>

fun content_length :: "string list \<Rightarrow> nat option" where
  "content_length [] = None"
| "content_length (l # ls) = (case after_ci ''content-length:'' l of
     None \<Rightarrow> content_length ls
   | Some v \<Rightarrow>
      (let t = dropWhile js_space (v @ concat (map (\<lambda>x. LF # x) ls));
           ds = takeWhile is_digit t;
           rest = dropWhile (\<lambda>c. js_space c \<and> c \<noteq> LF) (dropWhile is_digit t)
       in if ds \<noteq> [] \<and> (rest = [] \<or> hd rest = LF) then Some (read_nat ds) else content_length ls))"

definition is_chunked :: "string \<Rightarrow> bool" where
  "is_chunked l = (case after_ci ''transfer-encoding:'' l of
     None \<Rightarrow> False | Some v \<Rightarrow> sublist ''chunked'' (map lower v))"

datatype proxy_request =
    Connect string nat
  | Plain string nat string string "nat option"

datatype head_error = MalformedHead | BadDestination | NotProxy

definition error_status :: "head_error \<Rightarrow> nat" where
  "error_status e = (case e of NotProxy \<Rightarrow> 501 | _ \<Rightarrow> 400)"

definition authority_of :: "abs_line \<Rightarrow> string" where
  "authority_of a = (case al_port a of None \<Rightarrow> al_host a | Some p \<Rightarrow> al_host a @ '':'' @ p)"

definition path_or_root :: "abs_line \<Rightarrow> string" where
  "path_or_root a = (if al_path a = [] then ''/'' else al_path a)"

text \<open>The client's own Host is replaced by the authority the policy checks.\<close>

definition plain_headers :: "abs_line \<Rightarrow> string list \<Rightarrow> string list" where
  "plain_headers a kept = (''Host: '' @ authority_of a) # filter (\<lambda>l. \<not> is_header ''host:'' l) kept"

definition origin_head :: "abs_line \<Rightarrow> string list \<Rightarrow> string" where
  "origin_head a kept = al_method a @ '' '' @ path_or_root a @ '' '' @ al_version a @ crlf
     @ join_with crlf (plain_headers a kept) @ crlf @ crlf"

definition gateway_lines :: "abs_line \<Rightarrow> string list \<Rightarrow> string list" where
  "gateway_lines a kept =
     (al_method a @ '' http://'' @ authority_of a @ path_or_root a @ '' '' @ al_version a)
     # filter (\<lambda>l. \<not> is_header ''connection:'' l) (plain_headers a kept) @ [''Connection: close'']"

definition gateway_head :: "abs_line \<Rightarrow> string list \<Rightarrow> string" where
  "gateway_head a kept = join_with crlf (gateway_lines a kept) @ crlf"

definition body_length :: "string list \<Rightarrow> nat option" where
  "body_length headers = (if list_ex is_chunked headers then None else Some (coalesce (content_length headers) 0))"

definition parse_proxy_head ::
  "(string \<Rightarrow> string) \<Rightarrow> string \<Rightarrow> head_error + proxy_request \<times> string \<times> string" where
  "parse_proxy_head base64 head =
     (let lines = split_crlf head in
      if list_ex (list_ex bad_char) lines then Inl MalformedHead
      else
        (let first = hd lines;
             (cred, kept) = read_headers base64 (tl lines) (([], []), [])
         in case connect_line first of
              Some (host, port) \<Rightarrow>
                if is_safe_egress_host host then Inr (Connect host port, cred) else Inl BadDestination
            | None \<Rightarrow> (case absolute_line first of
                Some a \<Rightarrow>
                  if is_safe_egress_host (al_host a)
                  then Inr (Plain (al_host a) (case al_port a of None \<Rightarrow> 80 | Some p \<Rightarrow> read_nat p)
                             (origin_head a kept) (gateway_head a kept) (body_length (plain_headers a kept)), cred)
                  else Inl BadDestination
              | None \<Rightarrow> Inl NotProxy)))"

section \<open>Where a connection goes\<close>

record caller =
  ca_group :: string
  ca_session :: string

definition BUILD_SESSION :: string where "BUILD_SESSION = ''workload-build''"

record filter_deps =
  fd_identify :: "string \<Rightarrow> caller option"
  fd_mode :: "string \<Rightarrow> egress_mode"
  fd_allowlist :: "string \<Rightarrow> string list"
  fd_always :: "string \<Rightarrow> string list"
  fd_own_models :: "string \<Rightarrow> string list"
  fd_install :: "string list"
  fd_networks :: "string \<Rightarrow> string list"
  fd_registries :: "string \<Rightarrow> string list"
  fd_addresses :: "string list"

text \<open>
  Dropped; answered with a status; dialled directly on the agent's own network; tunnelled directly by
  \<open>connectDirect\<close>; a plain request sent to the gateway with at most this much body; or tunnelled by the
  gateway with the credentials the client presented.
\<close>

datatype verdict =
    Destroyed
  | Answered nat
  | Blocked
  | OwnNetwork string nat
  | Direct string nat
  | Gateway string string string "nat option"
  | ThroughGateway string nat string string

definition req_host :: "proxy_request \<Rightarrow> string" where
  "req_host r = (case r of Connect h _ \<Rightarrow> h | Plain h _ _ _ _ \<Rightarrow> h)"

definition req_port :: "proxy_request \<Rightarrow> nat" where
  "req_port r = (case r of Connect _ p \<Rightarrow> p | Plain _ p _ _ _ \<Rightarrow> p)"

definition route_request :: "filter_deps \<Rightarrow> caller \<Rightarrow> proxy_request \<Rightarrow> string \<Rightarrow> string \<Rightarrow> verdict" where
  "route_request d c r user password =
     (let host = req_host r; port = req_port r; g = ca_group c; building = ca_session c = BUILD_SESSION
      in if \<not> building \<and> in_own_network host (fd_networks d g) then OwnNetwork host port
         else
           (let mode = fd_mode d g;
                always = fd_always d g @ (if building then fd_registries d g else [])
            in if \<not> egress_allowed mode host port (fd_allowlist d g) always then Blocked
               else if building then Direct host port
               else (case r of
                   Connect _ _ \<Rightarrow>
                     if direct_tunnel (fd_addresses d) mode host port (fd_install d) then Direct host port
                     else ThroughGateway host port user password
                 | Plain _ _ _ gh len \<Rightarrow> Gateway gh user password len)))"

definition serve_proxy_client :: "(string \<Rightarrow> string) \<Rightarrow> filter_deps \<Rightarrow> string \<Rightarrow> string option \<Rightarrow> verdict" where
  "serve_proxy_client base64 d remote head = (case head of
     None \<Rightarrow> Destroyed
   | Some h \<Rightarrow> (case parse_proxy_head base64 h of
       Inl e \<Rightarrow> Answered (error_status e)
     | Inr (r, user, password) \<Rightarrow>
         if password = [] then Answered 407
         else (case fd_identify d remote of
             None \<Rightarrow> Answered 403
           | Some c \<Rightarrow> route_request d c r user password)))"

definition HOST_NAME :: string where "HOST_NAME = ''host.docker.internal''"

text \<open>Whether a connection to a model's port is let through.\<close>

definition serve_model_port :: "filter_deps \<Rightarrow> string \<Rightarrow> nat \<Rightarrow> string \<times> nat \<Rightarrow> bool \<Rightarrow> bool" where
  "serve_model_port d remote port target is_remote = (case fd_identify d remote of
     None \<Rightarrow> False
   | Some c \<Rightarrow>
      (let g = ca_group c;
           (host, checked) = (if is_remote then target else (HOST_NAME, port));
           own = (if is_remote then fd_own_models d g else [])
       in host @ '':'' @ show_nat checked \<in> set own
          \<or> egress_allowed (fd_mode d g) host checked (fd_allowlist d g) (fd_always d g)))"

section \<open>The stream\<close>

definition MAX_HEAD :: nat where "MAX_HEAD = 64 * 1024"

text \<open>Cut at the first blank line.\<close>

fun cut_head :: "string \<Rightarrow> (string \<times> string) option" where
  "cut_head s = (if starts_with s (crlf @ crlf) then Some ([], drop 4 s)
     else (case s of [] \<Rightarrow> None | c # t \<Rightarrow> map_option (\<lambda>(p, q). (c # p, q)) (cut_head t)))"

declare cut_head.simps [simp del]

text \<open>The chunks as they arrive; \<open>None\<close>: over the limit, or closed before the blank line.\<close>

fun read_head :: "string \<Rightarrow> string list \<Rightarrow> (string \<times> string \<times> string list) option" where
  "read_head buf [] = None"
| "read_head buf (chunk # chunks) = (let b = buf @ chunk in
     case cut_head b of
       Some (head, rest) \<Rightarrow> Some (head, rest, chunks)
     | None \<Rightarrow> if MAX_HEAD < length b then None else read_head b chunks)"

text \<open>The body of one plain request: no more than its length, whatever follows.\<close>

fun forward_body :: "nat \<Rightarrow> string list \<Rightarrow> string list" where
  "forward_body left [] = []"
| "forward_body left (chunk # chunks) = (if left = 0 then forward_body left chunks
     else (let part = take left chunk in part # forward_body (left - length part) chunks))"

section \<open>Listeners\<close>

datatype handler = ProxyPort | Passthrough string nat | ModelPort string nat bool bool

record model_listener =
  ml_port :: nat
  ml_target :: "string \<times> nat"
  ml_remote :: bool
  ml_ollama :: bool

record listeners =
  ls_servers :: "string \<times> nat \<Rightarrow> handler option"
  ls_models :: "string \<Rightarrow> nat \<Rightarrow> string option"

definition listen_once :: "string \<Rightarrow> nat \<Rightarrow> handler \<Rightarrow> listeners \<Rightarrow> listeners" where
  "listen_once host port h ls = (if ls_servers ls (host, port) \<noteq> None then ls
     else ls\<lparr>ls_servers := (ls_servers ls)((host, port) \<mapsto> h)\<rparr>)"

definition model_handler :: "model_listener \<Rightarrow> handler" where
  "model_handler m = ModelPort (fst (ml_target m)) (snd (ml_target m)) (ml_remote m) (ml_ollama m)"

definition model_key :: "model_listener \<Rightarrow> string" where
  "model_key m = fst (ml_target m) @ '':'' @ show_nat (snd (ml_target m)) @ (if ml_ollama m then '' ollama'' else [])"

text \<open>A JavaScript \<open>Map\<close> built from pairs: the last of a key wins.\<close>

definition wanted_models :: "model_listener list \<Rightarrow> nat \<Rightarrow> string option" where
  "wanted_models ms = map_of (rev (map (\<lambda>m. (ml_port m, model_key m)) ms))"

definition close_stale :: "string \<Rightarrow> (nat \<Rightarrow> string option) \<Rightarrow> listeners \<Rightarrow> listeners" where
  "close_stale bridge wanted ls = ls\<lparr>ls_servers := (\<lambda>(h, p).
     if h = bridge \<and> ls_models ls bridge p \<noteq> None \<and> wanted p \<noteq> ls_models ls bridge p then None
     else ls_servers ls (h, p))\<rparr>"

definition ensure_egress_filter ::
  "string \<Rightarrow> nat \<Rightarrow> (nat \<times> string \<times> nat) list \<Rightarrow> model_listener list \<Rightarrow> listeners \<Rightarrow> listeners" where
  "ensure_egress_filter bridge gateway passes models ls =
     (let ls1 = listen_once bridge gateway ProxyPort ls;
          ls2 = fold (\<lambda>(p, h, t). listen_once bridge p (Passthrough h t)) passes ls1;
          wanted = wanted_models models;
          ls3 = close_stale bridge wanted ls2;
          ls4 = ls3\<lparr>ls_models := (ls_models ls3)(bridge := wanted)\<rparr>
      in fold (\<lambda>m. listen_once bridge (ml_port m) (model_handler m)) models ls4)"

section \<open>Who is calling\<close>

definition IP_MAP_TTL_MS :: int where "IP_MAP_TTL_MS = 2000"

record identity_state =
  id_names :: "string \<Rightarrow> caller option"
  id_map :: "(millis \<times> (string \<Rightarrow> string option)) option"

definition register_filtered_container :: "string \<Rightarrow> caller \<Rightarrow> identity_state \<Rightarrow> identity_state" where
  "register_filtered_container name c st = st\<lparr>id_names := (id_names st)(name \<mapsto> c), id_map := None\<rparr>"

text \<open>\<open>net\<close> is the network as the runtime reports it now, by address.\<close>

definition lookup_container ::
  "bool \<Rightarrow> millis \<Rightarrow> (string \<Rightarrow> string option) \<Rightarrow> string \<Rightarrow> identity_state \<Rightarrow> string option \<times> identity_state" where
  "lookup_container fresh now net addr st =
     (case id_map st of
        Some (at_time, m) \<Rightarrow>
          if fresh \<or> IP_MAP_TTL_MS < now - at_time then (net addr, st\<lparr>id_map := Some (now, net)\<rparr>) else (m addr, st)
      | None \<Rightarrow> (net addr, st\<lparr>id_map := Some (now, net)\<rparr>))"

text \<open>\<open>labels\<close>: the group and session a container's labels name.\<close>

definition identify_container ::
  "millis \<Rightarrow> (string \<Rightarrow> string option) \<Rightarrow> (string \<Rightarrow> (string \<times> string) option) \<Rightarrow> string \<Rightarrow> identity_state
   \<Rightarrow> caller option \<times> identity_state" where
  "identify_container now net labels ip st =
     (let addr = drop_mapped ip;
          (n1, st1) = lookup_container False now net addr st;
          (name, st2) = (case n1 of Some n \<Rightarrow> (Some n, st1) | None \<Rightarrow> lookup_container True now net addr st1)
      in case name of
           None \<Rightarrow> (None, st2)
         | Some n \<Rightarrow> (case id_names st2 n of
             Some c \<Rightarrow> (Some c, st2)
           | None \<Rightarrow> (case labels n of
               None \<Rightarrow> (None, st2)
             | Some (g, s) \<Rightarrow>
                 if g = [] \<or> g = ''<no value>'' then (None, st2)
                 else (let c = \<lparr>ca_group = g, ca_session = (if s = ''<no value>'' then [] else s)\<rparr>
                       in (Some c, st2\<lparr>id_names := (id_names st2)(n \<mapsto> c)\<rparr>)))))"

end
