(* ===== verification/FilterFacts.thy ===== *)
theory FilterFacts
  imports EgressFilter EgressFacts
begin

text \<open>
  The egress filter: what reaches the gateway is the request the policy checked and nothing else, every
  forwarded connection satisfies the caller's policy, at most one request's body passes, and the
  listeners follow the models.
\<close>

section \<open>Lines\<close>

definition plain_line :: "string \<Rightarrow> bool" where
  "plain_line l = (CR \<notin> set l \<and> LF \<notin> set l)"

lemma split_crlf_ne [simp]: "split_crlf s \<noteq> []"
  by (induction s rule: split_crlf.induct) (auto split: list.splits)

lemma split_crlf_plain: "plain_line l \<Longrightarrow> split_crlf l = [l]"
  by (induction l rule: split_crlf.induct) (auto simp: plain_line_def)

lemma split_crlf_append: "plain_line l \<Longrightarrow> split_crlf (l @ crlf @ s) = l # split_crlf s"
proof (induction l)
  case Nil
  then show ?case by (simp add: crlf_def)
next
  case (Cons x l)
  then have IH: "split_crlf (l @ crlf @ s) = l # split_crlf s" and x: "x \<noteq> CR" by (auto simp: plain_line_def)
  obtain y r where y: "l @ crlf @ s = y # r" by (cases "l @ crlf @ s") (auto simp: crlf_def)
  show ?case using IH x by (simp add: y)
qed

lemma split_join_crlf: "ls \<noteq> [] \<Longrightarrow> list_all plain_line ls \<Longrightarrow> split_crlf (join_with crlf ls) = ls"
proof (induction ls rule: induct_list012)
  case (3 x y zs)
  then show ?case using split_crlf_append[of x "join_with crlf (y # zs)"] by simp
qed (simp_all add: split_crlf_plain)

text \<open>A line end inside a line of the split would be a lone CR or LF.\<close>

lemma good_lines: "\<not> list_ex (list_ex bad_char) ls \<Longrightarrow> l \<in> set ls \<Longrightarrow> plain_line l"
  by (auto simp: list_ex_iff plain_line_def bad_char_def)

section \<open>Safe hosts\<close>

lemma js_space_of: "js_space c \<longleftrightarrow> (9 \<le> code c \<and> code c \<le> 13) \<or> code c = 32 \<or> code c = 160"
  by (simp add: js_space_def code_def Let_def)

lemma set_takeWhile: "set (takeWhile P s) \<subseteq> set s"
  by (auto dest: set_takeWhileD)

lemma set_dropWhile: "set (dropWhile P s) \<subseteq> set s"
  by (auto dest: set_dropWhileD)

lemma after_ci_append: "map lower p = lit \<Longrightarrow> after_ci lit (p @ s) = Some s"
  by (auto simp: after_ci_def)

lemma after_ci_set: "after_ci lit s = Some r \<Longrightarrow> set r \<subseteq> set s"
  by (auto simp: after_ci_def dest: in_set_dropD split: if_splits)

lemma takeWhile_stop: "list_all P xs \<Longrightarrow> \<not> P y \<Longrightarrow> takeWhile P (xs @ y # ys) = xs \<and> dropWhile P (xs @ y # ys) = y # ys"
  by (induction xs) auto

lemma short_number_digits: "short_number (takeWhile is_digit s) \<Longrightarrow> list_all is_digit (takeWhile is_digit s)"
  by (auto simp: list_all_iff dest: set_takeWhileD)

section \<open>The request line\<close>

definition al_ok :: "abs_line \<Rightarrow> bool" where
  "al_ok a = (al_method a \<noteq> [] \<and> list_all ascii_letter (al_method a)
     \<and> al_host a \<noteq> [] \<and> list_all (\<lambda>c. \<not> host_stop c) (al_host a)
     \<and> (case al_port a of None \<Rightarrow> True | Some ds \<Rightarrow> short_number ds \<and> list_all is_digit ds)
     \<and> (al_path a = [] \<or> hd (al_path a) = CHR ''/'' \<and> list_all (\<lambda>c. \<not> js_space c) (al_path a))
     \<and> map lower (al_version a) \<in> {''http/1.0'', ''http/1.1''})"

definition al_set :: "abs_line \<Rightarrow> char set" where
  "al_set a = set (al_method a) \<union> set (al_host a) \<union> (case al_port a of None \<Rightarrow> {} | Some p \<Rightarrow> set p)
     \<union> set (al_path a) \<union> set (al_version a)"

lemma abs_port_parts:
  "abs_port s = Some (port, r) \<Longrightarrow> set r \<subseteq> set s \<and>
     (case port of None \<Rightarrow> True | Some ds \<Rightarrow> short_number ds \<and> list_all is_digit ds \<and> set ds \<subseteq> set s)"
  using short_number_digits[of "tl s"] set_takeWhile[of is_digit "tl s"] set_dropWhile[of is_digit "tl s"]
  by (cases s) (auto simp: abs_port_def Let_def split: if_splits)

lemma abs_path_parts:
  "abs_path s = (path, r) \<Longrightarrow> set r \<subseteq> set s \<and> set path \<subseteq> set s
     \<and> (path = [] \<or> hd path = CHR ''/'' \<and> list_all (\<lambda>c. \<not> js_space c) path)"
  by (cases s) (auto simp: abs_path_def list_all_iff js_space_of dest: set_takeWhileD set_dropWhileD split: if_splits)

lemma version_tail_parts:
  "version_tail s = Some v \<Longrightarrow> set v \<subseteq> set s \<and> map lower v \<in> {''http/1.0'', ''http/1.1''}"
  using set_dropWhile[of js_space s] by (auto simp: version_tail_def Let_def split: if_splits)

lemma absolute_line_parts:
  assumes "absolute_line first = Some a"
  shows "al_ok a \<and> al_set a \<subseteq> set first"
proof -
  let ?m = "takeWhile ascii_letter first" and ?r = "dropWhile ascii_letter first"
  obtain u where u: "after_ci ''http://'' (dropWhile js_space ?r) = Some u" and m: "?m \<noteq> []"
    using assms by (auto simp: absolute_line_def Let_def split: if_splits option.splits)
  let ?h = "takeWhile (\<lambda>c. \<not> host_stop c) u" and ?s = "dropWhile (\<lambda>c. \<not> host_stop c) u"
  obtain port s2 where p: "abs_port ?s = Some (port, s2)" and h: "?h \<noteq> []"
    using assms u by (auto simp: absolute_line_def Let_def split: if_splits option.splits)
  obtain path s3 where q: "abs_path s2 = (path, s3)" by fastforce
  obtain v where v: "version_tail s3 = Some v"
    using assms u p q h by (auto simp: absolute_line_def Let_def split: if_splits option.splits)
  have a: "a = \<lparr>al_method = ?m, al_host = ?h, al_port = port, al_path = path, al_version = v\<rparr>"
    using assms u p q h v by (auto simp: absolute_line_def Let_def split: if_splits)
  note parts = abs_port_parts[OF p] abs_path_parts[OF q] version_tail_parts[OF v]
  have us: "set u \<subseteq> set first"
    using after_ci_set[OF u] set_dropWhile[of js_space ?r] set_dropWhile[of ascii_letter first] by blast
  have "list_all ascii_letter ?m" "list_all (\<lambda>c. \<not> host_stop c) ?h"
    by (auto simp: list_all_iff dest: set_takeWhileD)
  then have ok: "al_ok a" using m h parts by (simp add: al_ok_def a split: option.splits)
  have sets: "set ?m \<subseteq> set first" "set ?h \<subseteq> set u" "set ?s \<subseteq> set u"
    by (auto dest: set_takeWhileD set_dropWhileD)
  have "set s2 \<subseteq> set u" "set path \<subseteq> set u" "set v \<subseteq> set u" using parts sets(3) by auto
  moreover have "(case port of None \<Rightarrow> {} | Some ds \<Rightarrow> set ds) \<subseteq> set u"
    using parts(1) sets(3) by (auto split: option.splits)
  ultimately have "al_set a \<subseteq> set first" using sets(1,2) us by (auto simp: al_set_def a)
  with ok show ?thesis ..
qed

lemma space_char [simp]: "js_space (CHR '' '')" "\<not> ascii_letter (CHR '' '')" "host_stop (CHR ''/'')" "host_stop (CHR '':'')"
    "host_stop (CHR '' '')" "\<not> js_space (CHR ''h'')" "\<not> js_space (CHR ''H'')" "\<not> is_digit (CHR ''/'')"
  by (simp_all add: js_space_of ascii_letter_def is_lower_def is_upper_def host_stop_def code_def is_digit_def)

lemma version_tail_space:
  assumes "map lower v \<in> {''http/1.0'', ''http/1.1''}"
  shows "version_tail ('' '' @ v) = Some v"
proof -
  obtain c r where v: "v = c # r" and c: "lower c = CHR ''h''" using assms by (cases v) auto
  have "\<not> js_space c"
  proof
    assume "js_space c"
    then have "\<not> is_upper c" by (auto simp: js_space_of is_upper_def)
    with c \<open>js_space c\<close> show False by (simp add: lower_def)
  qed
  then show ?thesis using assms v by (simp add: version_tail_def Let_def)
qed

lemma abs_path_space:
  assumes "p \<noteq> []" "hd p = CHR ''/''" "list_all (\<lambda>c. \<not> js_space c) p"
  shows "abs_path (p @ CHR '' '' # s) = (p, CHR '' '' # s)"
  using assms takeWhile_stop[of "\<lambda>c. \<not> js_space c" p "CHR '' ''" s] by (cases p) (auto simp: abs_path_def)

text \<open>The rewritten request line reads back as the line that was checked.\<close>

definition gateway_line :: "abs_line \<Rightarrow> string" where
  "gateway_line a = al_method a @ '' http://'' @ authority_of a @ path_or_root a @ '' '' @ al_version a"

lemma path_or_root_ok: "al_ok a \<Longrightarrow> path_or_root a \<noteq> [] \<and> hd (path_or_root a) = CHR ''/''
   \<and> list_all (\<lambda>c. \<not> js_space c) (path_or_root a)"
  by (auto simp: al_ok_def path_or_root_def js_space_of code_def)

lemma absolute_line_rebuilt:
  assumes "al_ok a"
  shows "absolute_line (gateway_line a) = Some (a\<lparr>al_path := path_or_root a\<rparr>)"
proof -
  let ?tail = "path_or_root a @ '' '' @ al_version a"
  note path = path_or_root_ok[OF assms]
  obtain q where q: "path_or_root a = CHR ''/'' # q" using path by (cases "path_or_root a") auto
  have m: "takeWhile ascii_letter (gateway_line a) = al_method a"
    "dropWhile ascii_letter (gateway_line a) = '' http://'' @ authority_of a @ ?tail"
    using takeWhile_stop[of ascii_letter "al_method a" "CHR '' ''" "''http://'' @ authority_of a @ ?tail"] assms
    by (simp_all add: gateway_line_def al_ok_def)
  have u: "after_ci ''http://'' (dropWhile js_space ('' http://'' @ authority_of a @ ?tail)) = Some (authority_of a @ ?tail)"
    using after_ci_append[of "''http://''" "''http://''" "authority_of a @ ?tail"]
    by (simp add: lower_def is_upper_def code_def)
  obtain y s where s: "y # s = (case al_port a of None \<Rightarrow> [] | Some ds \<Rightarrow> '':'' @ ds) @ ?tail" and y: "host_stop y"
    using q by (cases "al_port a") auto
  have au: "authority_of a @ ?tail = al_host a @ y # s"
    unfolding s by (simp add: authority_of_def split: option.splits)
  have h: "takeWhile (\<lambda>c. \<not> host_stop c) (authority_of a @ ?tail) = al_host a"
    "dropWhile (\<lambda>c. \<not> host_stop c) (authority_of a @ ?tail) = y # s"
    using takeWhile_stop[of "\<lambda>c. \<not> host_stop c" "al_host a" y s] assms y unfolding au by (auto simp: al_ok_def)
  have p: "abs_port (y # s) = Some (al_port a, ?tail)"
  proof (cases "al_port a")
    case None
    then show ?thesis using s q by (simp add: abs_port_def)
  next
    case (Some ds)
    then have "list_all is_digit ds" "short_number ds" using assms by (auto simp: al_ok_def)
    then show ?thesis
      using s Some q takeWhile_stop[of is_digit ds "CHR ''/''" "q @ '' '' @ al_version a"]
      by (simp add: abs_port_def Let_def)
  qed
  have pt: "abs_path ?tail = (path_or_root a, '' '' @ al_version a)"
    using abs_path_space[of "path_or_root a" "al_version a"] path by simp
  have v: "version_tail ('' '' @ al_version a) = Some (al_version a)"
    using assms by (intro version_tail_space) (simp add: al_ok_def)
  show ?thesis
    using assms unfolding absolute_line_def Let_def m u option.case h p pt v prod.case
    by (cases a) (simp add: al_ok_def)
qed

section \<open>The headers sent on\<close>

lemma read_headers_kept:
  "snd (read_headers base64 ls (cred, kept)) = kept @ filter (\<lambda>l. l \<noteq> [] \<and> basic_credentials l = None
     \<and> \<not> is_header ''proxy-connection:'' l \<and> \<not> is_header ''proxy-authorization:'' l) ls"
  by (induction base64 ls "(cred, kept)" arbitrary: cred kept rule: read_headers.induct) (auto split: option.splits)

lemma is_header_literal: "map lower (take (length lit) l) \<noteq> lit \<Longrightarrow> \<not> is_header lit l"
  by (simp add: is_header_def after_ci_def)

lemma lower_letters:
  "lower (CHR ''H'') = CHR ''h''" "lower (CHR ''C'') = CHR ''c''" "lower (CHR ''o'') = CHR ''o''"
  "lower (CHR ''s'') = CHR ''s''" "lower (CHR ''t'') = CHR ''t''" "lower (CHR '':'') = CHR '':''"
  "lower (CHR '' '') = CHR '' ''" "lower (CHR ''n'') = CHR ''n''" "lower (CHR ''e'') = CHR ''e''"
  "lower (CHR ''c'') = CHR ''c''" "lower (CHR ''i'') = CHR ''i''" "lower (CHR ''l'') = CHR ''l''"
  by code_simp+

lemma own_headers:
  "is_header ''host:'' (''Host: '' @ x)" "\<not> is_header ''connection:'' (''Host: '' @ x)"
  "\<not> is_header ''proxy-authorization:'' (''Host: '' @ x)"
  "is_header ''connection:'' ''Connection: close''" "\<not> is_header ''host:'' ''Connection: close''"
  "\<not> is_header ''proxy-authorization:'' ''Connection: close''"
  by (simp_all add: is_header_def after_ci_def lower_letters)

lemma filter_none: "(\<And>x. x \<in> set xs \<Longrightarrow> \<not> P x) \<Longrightarrow> filter P xs = []"
  by (auto simp: filter_empty_conv)

lemma gateway_lines_headers:
  assumes "\<And>l. l \<in> set kept \<Longrightarrow> \<not> is_header ''proxy-authorization:'' l"
  shows "filter (is_header ''host:'') (tl (gateway_lines a kept)) = [''Host: '' @ authority_of a]"
    "filter (is_header ''connection:'') (tl (gateway_lines a kept)) = [''Connection: close'']"
    "filter (is_header ''proxy-authorization:'') (tl (gateway_lines a kept)) = []"
  using assms own_headers by (auto simp: gateway_lines_def plain_headers_def filter_empty_conv)

lemma plain_line_append [simp]: "plain_line (s @ t) \<longleftrightarrow> plain_line s \<and> plain_line t"
  by (auto simp: plain_line_def)

lemma plain_line_sub: "plain_line l \<Longrightarrow> set s \<subseteq> set l \<Longrightarrow> plain_line s"
  by (auto simp: plain_line_def)

lemma plain_line_code [simp]:
  "plain_line []" "plain_line (c # s) \<longleftrightarrow> code c \<noteq> 13 \<and> code c \<noteq> 10 \<and> plain_line s"
  using code_eq[of c CR] code_eq[of c LF] by (auto simp: plain_line_def CR_def LF_def code_def)

lemma gateway_lines_plain:
  assumes "plain_line first" "al_set a \<subseteq> set first" "\<And>l. l \<in> set kept \<Longrightarrow> plain_line l \<and> l \<noteq> []"
  shows "list_all (\<lambda>l. plain_line l \<and> l \<noteq> []) (gateway_lines a kept)"
proof -
  have parts: "plain_line (al_method a)" "plain_line (al_host a)" "plain_line (al_path a)" "plain_line (al_version a)"
    "\<And>p. al_port a = Some p \<Longrightarrow> plain_line p"
    by (rule plain_line_sub[OF assms(1)]; use assms(2) in \<open>force simp: al_set_def\<close>)+
  then have "plain_line (authority_of a)" "plain_line (path_or_root a)"
    by (auto simp: authority_of_def path_or_root_def code_def split: option.splits)
  then show ?thesis
    using parts assms(3) by (auto simp: gateway_lines_def plain_headers_def list_all_iff code_def)
qed

lemma split_gateway_head:
  assumes "list_all (\<lambda>l. plain_line l \<and> l \<noteq> []) (gateway_lines a kept)"
  shows "split_crlf (gateway_head a kept) = gateway_lines a kept @ [[]]"
proof -
  have ne: "gateway_lines a kept \<noteq> []" by (simp add: gateway_lines_def)
  have "gateway_head a kept = join_with crlf (gateway_lines a kept @ [[]])"
    using ne by (simp add: gateway_head_def join_with_snoc)
  moreover have "list_all plain_line (gateway_lines a kept @ [[]])" using assms by (auto simp: list_all_iff)
  ultimately show ?thesis using split_join_crlf[of "gateway_lines a kept @ [[]]"] by simp
qed

lemma parse_plain_cases:
  assumes "parse_proxy_head base64 head = Inr (Plain h n oh gh len, cred)"
  obtains first a kept where "first \<in> set (split_crlf head)" "\<not> list_ex (list_ex bad_char) (split_crlf head)"
    "absolute_line first = Some a" "is_safe_egress_host (al_host a)" "h = al_host a"
    "n = (case al_port a of None \<Rightarrow> 80 | Some p \<Rightarrow> read_nat p)" "gh = gateway_head a kept"
    "len = body_length (plain_headers a kept)"
    "\<And>l. l \<in> set kept \<Longrightarrow> l \<in> set (split_crlf head) \<and> l \<noteq> [] \<and> \<not> is_header ''proxy-authorization:'' l"
proof -
  let ?lines = "split_crlf head"
  obtain cred' kept where k: "read_headers base64 (tl ?lines) (([], []), []) = (cred', kept)" by fastforce
  have good: "\<not> list_ex (list_ex bad_char) ?lines"
    using assms by (auto simp: parse_proxy_head_def Let_def split: if_splits)
  obtain a where a: "absolute_line (hd ?lines) = Some a" and safe: "is_safe_egress_host (al_host a)"
    and r: "h = al_host a" "n = (case al_port a of None \<Rightarrow> 80 | Some p \<Rightarrow> read_nat p)" "gh = gateway_head a kept"
      "len = body_length (plain_headers a kept)"
    using assms k good by (auto simp: parse_proxy_head_def Let_def split: if_splits option.splits prod.splits)
  have kept: "l \<in> set ?lines \<and> l \<noteq> [] \<and> \<not> is_header ''proxy-authorization:'' l" if "l \<in> set kept" for l
  proof -
    have "kept = filter (\<lambda>l. l \<noteq> [] \<and> basic_credentials l = None
     \<and> \<not> is_header ''proxy-connection:'' l \<and> \<not> is_header ''proxy-authorization:'' l) (tl ?lines)"
      using read_headers_kept[of base64 "tl ?lines" "([], [])" "[]"] k by simp
    with that have "l \<in> set (tl ?lines)" "l \<noteq> []" "\<not> is_header ''proxy-authorization:'' l" by auto
    then show ?thesis by (cases ?lines) auto
  qed
  show ?thesis using that[of "hd ?lines" a kept] a good safe r kept by simp
qed

text \<open>
  C17: what the gateway is sent for a plain request is the request the policy checked: a head of proper
  lines with no blank line before its end, whose request line reads back to the checked host and port,
  with exactly one Host header (the checked authority, whatever the client claimed), exactly one
  Connection header (close) and none of the client's proxy credentials.
\<close>

theorem gateway_gets_checked_request:
  assumes "parse_proxy_head base64 head = Inr (Plain h n oh gh len, cred)"
  shows "\<exists>a. is_safe_egress_host h
    \<and> absolute_line (hd (split_crlf gh)) = Some a \<and> al_host a = h
    \<and> n = (case al_port a of None \<Rightarrow> 80 | Some p \<Rightarrow> read_nat p)
    \<and> last (split_crlf gh) = [] \<and> list_all (\<lambda>l. plain_line l \<and> l \<noteq> []) (butlast (split_crlf gh))
    \<and> filter (is_header ''host:'') (tl (split_crlf gh)) = [''Host: '' @ authority_of a]
    \<and> filter (is_header ''connection:'') (tl (split_crlf gh)) = [''Connection: close'']
    \<and> filter (is_header ''proxy-authorization:'') (tl (split_crlf gh)) = []"
proof -
  obtain first a kept where f: "first \<in> set (split_crlf head)" and good: "\<not> list_ex (list_ex bad_char) (split_crlf head)"
    and a: "absolute_line first = Some a" and safe: "is_safe_egress_host (al_host a)" and h: "h = al_host a"
    and n: "n = (case al_port a of None \<Rightarrow> 80 | Some p \<Rightarrow> read_nat p)" and gh: "gh = gateway_head a kept"
    and kept: "\<And>l. l \<in> set kept \<Longrightarrow> l \<in> set (split_crlf head) \<and> l \<noteq> [] \<and> \<not> is_header ''proxy-authorization:'' l"
    using parse_plain_cases[OF assms] by metis
  have ok: "al_ok a" and sub: "al_set a \<subseteq> set first" using absolute_line_parts[OF a] by auto
  have plain: "list_all (\<lambda>l. plain_line l \<and> l \<noteq> []) (gateway_lines a kept)"
    using gateway_lines_plain[OF good_lines[OF good f] sub] kept good_lines[OF good] by blast
  have s: "split_crlf gh = gateway_lines a kept @ [[]]" unfolding gh by (rule split_gateway_head[OF plain])
  have first': "hd (gateway_lines a kept) = gateway_line a" by (simp add: gateway_lines_def gateway_line_def)
  have ne: "gateway_lines a kept \<noteq> []" by (simp add: gateway_lines_def)
  let ?a = "a\<lparr>al_path := path_or_root a\<rparr>"
  have line: "absolute_line (hd (split_crlf gh)) = Some ?a"
    using absolute_line_rebuilt[OF ok] ne by (simp add: s first')
  have au: "authority_of ?a = authority_of a" by (cases "al_port a") (simp_all add: authority_of_def)
  have tl: "tl (split_crlf gh) = tl (gateway_lines a kept) @ [[]]" using ne by (simp add: s)
  have blank: "\<not> is_header lit []" if "lit \<noteq> []" for lit using that by (simp add: is_header_def after_ci_def)
  have heads: "filter (is_header ''host:'') (tl (split_crlf gh)) = [''Host: '' @ authority_of ?a]"
    "filter (is_header ''connection:'') (tl (split_crlf gh)) = [''Connection: close'']"
    "filter (is_header ''proxy-authorization:'') (tl (split_crlf gh)) = []"
    using gateway_lines_headers[of kept a] kept blank unfolding tl au by simp_all
  have last': "last (split_crlf gh) = []" "list_all (\<lambda>l. plain_line l \<and> l \<noteq> []) (butlast (split_crlf gh))"
    using plain by (simp_all add: s)
  show ?thesis using safe h n line last' heads by (intro exI[of _ ?a]) simp
qed

definition sample_head :: string where
  "sample_head = ''GET http://a.test.org/x HTTP/1.1'' @ crlf @ ''Host: evil.org'' @ crlf
     @ ''Proxy-Authorization: Basic u:p'' @ crlf @ ''Connection: keep-alive'' @ crlf"

definition sample_gateway_head :: string where
  "sample_gateway_head = ''GET http://a.test.org/x HTTP/1.1'' @ crlf @ ''Host: a.test.org'' @ crlf
     @ ''Connection: close'' @ crlf"

definition sample_origin_head :: string where
  "sample_origin_head = ''GET /x HTTP/1.1'' @ crlf @ ''Host: a.test.org'' @ crlf
     @ ''Connection: keep-alive'' @ crlf @ crlf"

lemma sample_parsed:
  "parse_proxy_head (\<lambda>s. s) sample_head = Inr (Plain ''a.test.org'' 80 sample_origin_head sample_gateway_head (Some 0), ''u'', ''p'')"
  by code_simp

theorem gateway_gets_checked_request_witness:
  "last (split_crlf sample_gateway_head) = [] \<and> is_safe_egress_host ''a.test.org''"
  using gateway_gets_checked_request[OF sample_parsed] by blast

section \<open>Forwarded connections\<close>

lemma parse_safe: "parse_proxy_head base64 h = Inr (r, cred) \<Longrightarrow> is_safe_egress_host (req_host r)"
  by (auto simp: parse_proxy_head_def Let_def req_host_def split: if_splits option.splits prod.splits)

text \<open>
  C2: a connection leaves the filter only for a caller it knows, with credentials presented, to a
  well-formed host: on the agent's own network (never for a build), or where the caller's policy allows.
  A build never goes through the credential gateway, and an agent is tunnelled directly only in allowlist
  mode, off the web ports, to a host and port the install list names.
\<close>

theorem filter_enforces_policy:
  assumes "serve_proxy_client base64 d remote (Some head) = v"
    and "v \<noteq> Blocked" "\<And>s. v \<noteq> Answered s"
  shows "\<exists>c r user password always. parse_proxy_head base64 head = Inr (r, user, password)
    \<and> password \<noteq> [] \<and> fd_identify d remote = Some c \<and> is_safe_egress_host (req_host r)
    \<and> always = fd_always d (ca_group c) @ (if ca_session c = BUILD_SESSION then fd_registries d (ca_group c) else [])
    \<and> (case v of
        OwnNetwork host port \<Rightarrow> host = req_host r \<and> port = req_port r \<and> ca_session c \<noteq> BUILD_SESSION
          \<and> in_own_network host (fd_networks d (ca_group c))
      | Direct host port \<Rightarrow> host = req_host r \<and> port = req_port r
          \<and> egress_allowed (fd_mode d (ca_group c)) host port (fd_allowlist d (ca_group c)) always
          \<and> (ca_session c = BUILD_SESSION
             \<or> fd_mode d (ca_group c) = HostOnly \<and> port \<noteq> 443 \<and> port \<noteq> 80
               \<and> (\<exists>p\<in>set (fd_install d). CHR '':'' \<in> set p \<and> host_matches host port p))
      | Gateway gh u pw len \<Rightarrow> ca_session c \<noteq> BUILD_SESSION \<and> u = user \<and> pw = password
          \<and> egress_allowed (fd_mode d (ca_group c)) (req_host r) (req_port r) (fd_allowlist d (ca_group c)) always
      | ThroughGateway host port u pw \<Rightarrow> host = req_host r \<and> port = req_port r \<and> u = user \<and> pw = password
          \<and> ca_session c \<noteq> BUILD_SESSION
          \<and> egress_allowed (fd_mode d (ca_group c)) host port (fd_allowlist d (ca_group c)) always
      | _ \<Rightarrow> False)"
proof -
  obtain r user password where p: "parse_proxy_head base64 head = Inr (r, user, password)"
    using assms by (cases "parse_proxy_head base64 head") (auto simp: serve_proxy_client_def)
  have pw: "password \<noteq> []" using assms(1) assms(3)[of 407] p by (auto simp: serve_proxy_client_def)
  obtain c where c: "fd_identify d remote = Some c"
    using assms p pw by (cases "fd_identify d remote") (auto simp: serve_proxy_client_def)
  have v: "v = route_request d c r user password" using assms(1) p pw c by (simp add: serve_proxy_client_def)
  note safe = parse_safe[OF p]
  have install: "\<exists>q\<in>set (fd_install d). CHR '':'' \<in> set q \<and> host_matches h n q"
    and mode: "fd_mode d (ca_group c) = HostOnly \<and> n \<noteq> 443 \<and> n \<noteq> 80"
    if "direct_tunnel (fd_addresses d) (fd_mode d (ca_group c)) h n (fd_install d)" for h n
    using that by (auto simp: direct_tunnel_def Let_def list_ex_iff split: if_splits)
  show ?thesis
    using v assms(2) safe install mode
    by (intro exI[of _ c] exI[of _ r] exI[of _ user] exI[of _ password] exI conjI)
       (auto simp: p pw c route_request_def Let_def req_host_def req_port_def split: if_splits proxy_request.splits)
qed

section \<open>One request's body\<close>

lemma forward_body_take: "concat (forward_body n cs) = take n (concat cs)"
proof (induction n cs rule: forward_body.induct)
  case (2 left chunk chunks)
  then show ?case by (cases "left = 0") (auto simp: Let_def min_def)
qed simp

lemma cut_head_Some: "cut_head s = Some (h, r) \<Longrightarrow> s = h @ crlf @ crlf @ r"
proof (induction s arbitrary: h rule: cut_head.induct)
  case (1 s)
  show ?case
  proof (cases "starts_with s (crlf @ crlf)")
    case True
    then obtain t where "s = (crlf @ crlf) @ t" by (auto simp: starts_with_def prefix_def)
    have "cut_head s = Some ([], drop 4 s)" using True by (subst cut_head.simps) simp
    moreover have "drop 4 s = t" using \<open>s = (crlf @ crlf) @ t\<close> by (simp add: crlf_def)
    ultimately have "h = []" "r = t" using 1(2) by simp_all
    then show ?thesis using \<open>s = (crlf @ crlf) @ t\<close> by simp
  next
    case False
    then obtain c t p where s: "s = c # t" and p: "cut_head t = Some (p, r)" "h = c # p"
      using 1(2) by (auto simp: cut_head.simps[of s] split: list.splits)
    show ?thesis using 1(1)[OF False s p(1)] by (simp add: s p(2))
  qed
qed

lemma cut_head_None: "cut_head s = None \<Longrightarrow> \<not> sublist (crlf @ crlf) s"
proof (induction s)
  case Nil
  then show ?case by (simp add: crlf_def)
next
  case (Cons c s)
  then show ?case by (auto simp: cut_head.simps[of "c # s"] starts_with_def sublist_Cons_right split: if_splits)
qed

text \<open>
  However the stream is cut into chunks, the request head is what comes before the first blank line,
  and what is forwarded as the body of a request of length \<open>n\<close> is exactly the next \<open>n\<close> bytes of the
  stream: nothing of a second request on the same connection.
\<close>

theorem one_request_per_connection:
  assumes "read_head buf chunks = Some (head, rest, later)" "\<not> sublist (crlf @ crlf) buf"
  shows "buf @ concat chunks = head @ crlf @ crlf @ rest @ concat later
    \<and> concat (forward_body n (rest # later)) = take n (drop (length head + 4) (buf @ concat chunks))"
proof -
  have "buf @ concat chunks = head @ crlf @ crlf @ rest @ concat later"
    using assms
  proof (induction buf chunks rule: read_head.induct)
    case (2 buf chunk chunks)
    show ?case
    proof (cases "cut_head (buf @ chunk)")
      case None
      then have "read_head (buf @ chunk) chunks = Some (head, rest, later)"
        using 2(2) by (simp add: Let_def split: if_splits)
      then show ?thesis using 2(1)[OF refl None _ _ cut_head_None[OF None]] 2(2) None
        by (simp add: Let_def split: if_splits)
    next
      case (Some hr)
      then obtain h r where hr: "cut_head (buf @ chunk) = Some (h, r)" by (cases hr) auto
      then show ?thesis using 2(2) cut_head_Some[OF hr] by (simp add: Let_def)
    qed
  qed simp
  then show ?thesis unfolding forward_body_take by (simp add: crlf_def)
qed

theorem one_request_per_connection_witness:
  "concat (forward_body 3 [''xyz'' , ''GET ''])
     = take 3 (drop (length ''POST'' + 4) ([] @ concat [''PO'', ''ST'' @ crlf @ [CR], LF # ''xyz'', ''GET '']))"
proof -
  have "read_head [] [''PO'', ''ST'' @ crlf @ [CR], LF # ''xyz'', ''GET ''] = Some (''POST'', ''xyz'', [''GET ''])"
    by (simp add: MAX_HEAD_def cut_head.simps starts_with_code crlf_def CR_def LF_def)
  from one_request_per_connection[OF this, of 3] show ?thesis by (simp add: crlf_def)
qed

definition sample_deps :: filter_deps where
  "sample_deps = \<lparr>fd_identify = (\<lambda>_. Some \<lparr>ca_group = ''g'', ca_session = ''s''\<rparr>), fd_mode = (\<lambda>_. HostOnly),
     fd_allowlist = (\<lambda>_. [''*.test.org'']), fd_always = (\<lambda>_. ALWAYS_ALLOWED), fd_own_models = (\<lambda>_. []),
     fd_install = [''*.test.org''], fd_networks = (\<lambda>_. []), fd_registries = (\<lambda>_. []), fd_addresses = []\<rparr>"

lemma sample_served:
  "serve_proxy_client (\<lambda>s. s) sample_deps ''10.0.0.2'' (Some sample_head) = Gateway sample_gateway_head ''u'' ''p'' (Some 0)"
proof -
  have m: "host_matches ''a.test.org'' 80 ''*.test.org''"
    by (simp add: host_matches_def Let_def drop_dot_def lower_def is_upper_def code_def starts_with_code ends_with_def)
  have n: "\<not> in_own_network ''a.test.org'' []" by code_simp
  have "egress_allowed HostOnly ''a.test.org'' 80 [''*.test.org''] ALWAYS_ALLOWED" using m by (simp add: egress_allowed_def)
  then show ?thesis using n
    by (simp add: serve_proxy_client_def sample_parsed sample_deps_def route_request_def Let_def req_host_def req_port_def
        BUILD_SESSION_def)
qed

theorem filter_enforces_policy_witness:
  "is_safe_egress_host ''a.test.org'' \<and> fd_mode sample_deps ''g'' = HostOnly"
proof -
  have "\<exists>c r user password always. parse_proxy_head (\<lambda>s. s) sample_head = Inr (r, user, password) \<and> is_safe_egress_host (req_host r)"
    using filter_enforces_policy[OF sample_served] by blast
  then show ?thesis by (auto simp: sample_parsed req_host_def sample_deps_def)
qed

section \<open>Listeners\<close>

definition handler_key :: "handler \<Rightarrow> string option" where
  "handler_key h = (case h of ModelPort t p _ ollama \<Rightarrow> Some (t @ '':'' @ show_nat p @ (if ollama then '' ollama'' else []))
     | _ \<Rightarrow> None)"

text \<open>Every model port on record, if open, is served as recorded.\<close>

definition listeners_ok :: "listeners \<Rightarrow> bool" where
  "listeners_ok ls = (\<forall>b p k. ls_models ls b p = Some k \<longrightarrow>
     (\<exists>h. ls_servers ls (b, p) = Some h \<and> handler_key h = Some k))"

lemma listen_once_frame: "ls_models (listen_once b p h ls) = ls_models ls"
  "ls_servers ls x = Some y \<Longrightarrow> ls_servers (listen_once b p h ls) x = Some y"
  "x \<noteq> (b, p) \<Longrightarrow> ls_servers (listen_once b p h ls) x = ls_servers ls x"
  by (auto simp: listen_once_def)

lemma passes_frame:
  "ls_models (fold (\<lambda>(p, h, t). listen_once b p (Passthrough h t)) ps ls) = ls_models ls"
  "ls_servers ls x = Some y \<Longrightarrow> ls_servers (fold (\<lambda>(p, h, t). listen_once b p (Passthrough h t)) ps ls) x = Some y"
  "(\<And>p. p \<in> fst ` set ps \<Longrightarrow> x \<noteq> (b, p)) \<Longrightarrow>
     ls_servers (fold (\<lambda>(p, h, t). listen_once b p (Passthrough h t)) ps ls) x = ls_servers ls x"
  by (induction ps arbitrary: ls) (auto simp: listen_once_frame)

lemma models_frame:
  "ls_models (fold (\<lambda>m. listen_once b (ml_port m) (model_handler m)) ms ls) = ls_models ls"
  "ls_servers ls x = Some y \<Longrightarrow> ls_servers (fold (\<lambda>m. listen_once b (ml_port m) (model_handler m)) ms ls) x = Some y"
  "(\<And>m. m \<in> set ms \<Longrightarrow> x \<noteq> (b, ml_port m)) \<Longrightarrow>
     ls_servers (fold (\<lambda>m. listen_once b (ml_port m) (model_handler m)) ms ls) x = ls_servers ls x"
  by (induction ms arbitrary: ls) (auto simp: listen_once_frame)

lemma models_opened:
  "distinct (map ml_port ms) \<Longrightarrow> m \<in> set ms \<Longrightarrow> ls_servers ls (b, ml_port m) = None \<Longrightarrow>
   ls_servers (fold (\<lambda>m. listen_once b (ml_port m) (model_handler m)) ms ls) (b, ml_port m) = Some (model_handler m)"
proof (induction ms arbitrary: ls)
  case (Cons a ms)
  show ?case
  proof (cases "m = a")
    case True
    have "ls_servers (listen_once b (ml_port a) (model_handler a) ls) (b, ml_port a) = Some (model_handler a)"
      using Cons.prems True by (simp add: listen_once_def)
    then show ?thesis using True models_frame(2) by simp
  next
    case False
    then have m: "m \<in> set ms" using Cons.prems by simp
    then have "ml_port m \<in> ml_port ` set ms" by (rule imageI)
    then have ne: "ml_port m \<noteq> ml_port a" using Cons.prems(1) by auto
    then show ?thesis using Cons.IH[OF _ m] Cons.prems by (simp add: listen_once_frame)
  qed
qed simp

lemma handler_key_model: "handler_key (model_handler m) = Some (model_key m)"
  by (simp add: handler_key_def model_handler_def model_key_def)

lemma wanted_models_iff:
  "distinct (map ml_port ms) \<Longrightarrow> wanted_models ms p = Some k \<longleftrightarrow> (\<exists>m\<in>set ms. ml_port m = p \<and> model_key m = k)"
proof -
  assume d: "distinct (map ml_port ms)"
  let ?ps = "map (\<lambda>m. (ml_port m, model_key m)) ms"
  have "distinct (map fst (rev ?ps))" using d by (simp add: o_def rev_map[symmetric])
  then have "map_of (rev ?ps) p = Some k \<longleftrightarrow> (p, k) \<in> set (rev ?ps)" by (rule map_of_eq_Some_iff)
  then show ?thesis by (auto simp: wanted_models_def)
qed

text \<open>
  After every spawn the model ports are the models': each model of the roster is served on its port as
  the roster says now (one whose target or filtering changed was reopened), a port no model uses any more
  is closed, listeners of other bridges are untouched, and the record stays true to the open ports.
\<close>

theorem model_ports_follow_roster:
  assumes ok: "listeners_ok ls" and d: "distinct (map ml_port models)"
    and apart: "\<forall>m\<in>set models. ml_port m \<noteq> gateway \<and> ml_port m \<notin> fst ` set passes"
    and free: "\<forall>m\<in>set models. ls_models ls bridge (ml_port m) = None \<longrightarrow> ls_servers ls (bridge, ml_port m) = None"
    and after: "ls' = ensure_egress_filter bridge gateway passes models ls"
  shows "listeners_ok ls'
    \<and> (\<forall>m\<in>set models. \<exists>h. ls_servers ls' (bridge, ml_port m) = Some h \<and> handler_key h = Some (model_key m))
    \<and> (\<forall>p. ls_models ls bridge p \<noteq> None \<longrightarrow> p \<notin> ml_port ` set models \<longrightarrow> ls_servers ls' (bridge, p) = None)
    \<and> (\<forall>b p. b \<noteq> bridge \<longrightarrow> ls_servers ls' (b, p) = ls_servers ls (b, p))"
proof -
  define ls2 where "ls2 = fold (\<lambda>(p, h, t). listen_once bridge p (Passthrough h t)) passes (listen_once bridge gateway ProxyPort ls)"
  define w where "w = wanted_models models"
  define ls4 where "ls4 = (close_stale bridge w ls2)\<lparr>ls_models := (ls_models (close_stale bridge w ls2))(bridge := w)\<rparr>"
  have ls': "ls' = fold (\<lambda>m. listen_once bridge (ml_port m) (model_handler m)) models ls4"
    by (simp add: after ensure_egress_filter_def Let_def ls2_def w_def ls4_def)
  have m2: "ls_models ls2 = ls_models ls" by (simp add: ls2_def passes_frame listen_once_frame)
  have keep2: "ls_servers ls2 x = Some y" if "ls_servers ls x = Some y" for x y
    unfolding ls2_def by (rule passes_frame(2)[OF listen_once_frame(2)[OF that]])
  have same2: "ls_servers ls2 x = ls_servers ls x" if "x \<noteq> (bridge, gateway)" "\<And>p. p \<in> fst ` set passes \<Longrightarrow> x \<noteq> (bridge, p)" for x
    unfolding ls2_def by (subst passes_frame(3)[OF that(2)]) (use that(1) in \<open>simp_all add: listen_once_frame(3)\<close>)
  have s4: "ls_servers ls4 (b, p) = (if b = bridge \<and> ls_models ls bridge p \<noteq> None \<and> w p \<noteq> ls_models ls bridge p then None
      else ls_servers ls2 (b, p))" for b p
    by (simp add: ls4_def close_stale_def m2)
  have m4: "ls_models ls4 = (ls_models ls)(bridge := w)" by (simp add: ls4_def close_stale_def m2)
  have wanted: "w p = Some k \<longleftrightarrow> (\<exists>m\<in>set models. ml_port m = p \<and> model_key m = k)" for p k
    unfolding w_def by (rule wanted_models_iff[OF d])
  have served: "\<exists>h. ls_servers ls' (bridge, ml_port m) = Some h \<and> handler_key h = Some (model_key m)" if m: "m \<in> set models" for m
  proof (cases "ls_servers ls4 (bridge, ml_port m)")
    case None
    then show ?thesis using models_opened[OF d m None] by (simp add: ls' handler_key_model)
  next
    case (Some h)
    have wm: "w (ml_port m) = Some (model_key m)" using wanted m by blast
    have "ls_servers ls2 (bridge, ml_port m) = ls_servers ls (bridge, ml_port m)" using apart m by (intro same2) auto
    with Some s4[of bridge "ml_port m"] have h: "ls_servers ls (bridge, ml_port m) = Some h"
      and eq: "ls_models ls bridge (ml_port m) = None \<or> w (ml_port m) = ls_models ls bridge (ml_port m)"
      by (auto split: if_splits)
    then have "ls_models ls bridge (ml_port m) = Some (model_key m)" using free m wm by auto
    then have "handler_key h = Some (model_key m)" using ok[unfolded listeners_ok_def, rule_format] h by fastforce
    then show ?thesis using models_frame(2)[OF Some] by (auto simp: ls')
  qed
  have stale: "ls_servers ls' (bridge, p) = None" if "ls_models ls bridge p \<noteq> None" "p \<notin> ml_port ` set models" for p
  proof -
    have "w p = None" using wanted that(2) by (cases "w p") auto
    then have "ls_servers ls4 (bridge, p) = None" using that(1) by (auto simp: s4)
    moreover have "ls_servers ls' (bridge, p) = ls_servers ls4 (bridge, p)"
      unfolding ls' by (rule models_frame(3)) (use that(2) in auto)
    ultimately show ?thesis by simp
  qed
  have others: "ls_servers ls' (b, p) = ls_servers ls (b, p)" if "b \<noteq> bridge" for b p
  proof -
    have "ls_servers ls' (b, p) = ls_servers ls4 (b, p)" unfolding ls' by (rule models_frame(3)) (use that in auto)
    also have "\<dots> = ls_servers ls2 (b, p)" using that by (simp add: s4)
    also have "\<dots> = ls_servers ls (b, p)" by (rule same2) (use that in auto)
    finally show ?thesis .
  qed
  have "listeners_ok ls'"
    unfolding listeners_ok_def
  proof (intro allI impI)
    fix b p k assume k: "ls_models ls' b p = Some k"
    then have k4: "((ls_models ls)(bridge := w)) b p = Some k" by (simp add: ls' models_frame m4)
    show "\<exists>h. ls_servers ls' (b, p) = Some h \<and> handler_key h = Some k"
    proof (cases "b = bridge")
      case True
      then obtain m where "m \<in> set models" "ml_port m = p" "model_key m = k" using k4 wanted by auto
      then show ?thesis using served True by auto
    next
      case False
      then show ?thesis using k4 ok others by (simp add: listeners_ok_def)
    qed
  qed
  then show ?thesis using served stale others by blast
qed

theorem model_ports_follow_roster_witness:
  "ls_servers (ensure_egress_filter ''b'' 1 [] [] \<lparr>ls_servers = [(''b'', 5) \<mapsto> ModelPort ''m'' 7 True False],
       ls_models = (\<lambda>_. Map.empty)(''b'' := [5 \<mapsto> ''m:'' @ show_nat 7])\<rparr>) (''b'', 5) = None"
proof -
  let ?ls = "\<lparr>ls_servers = [(''b'', 5) \<mapsto> ModelPort ''m'' 7 True False], ls_models = (\<lambda>_. Map.empty)(''b'' := [5 \<mapsto> ''m:'' @ show_nat 7])\<rparr>"
  have "listeners_ok ?ls" by (auto simp: listeners_ok_def handler_key_def split: if_splits)
  from model_ports_follow_roster[OF this, of "[]" 1 "[]" "''b''", OF _ _ _ refl] show ?thesis by simp
qed

end
