(* ===== verification/LineDiff.thy ===== *)
theory LineDiff
  imports TextScan "HOL-Library.Sublist"
begin

text \<open>
  The line diff of an approval card (\<open>modules/instruction-guard/diff.ts\<close>): the table of common
  subsequence lengths, the walk through it, and the rendering within a character budget. The walk
  is a \<open>while\<close> loop over two indices and is a partial function here: \<open>None\<close> is a loop that does
  not end.
\<close>

section \<open>Lines and operations\<close>

definition MAX_CELLS :: nat where "MAX_CELLS = 2000000"
definition CONTEXT_LINES :: nat where "CONTEXT_LINES = 1"
definition MAX_LINE :: nat where "MAX_LINE = 200"
definition newline :: char where "newline = CHR 0x0A"

datatype change_kind = Same | Removed | Added

datatype line_op = LineOp (op_kind: change_kind) (op_line: string)

fun kind_char :: "change_kind \<Rightarrow> char" where
  "kind_char Same = CHR '' ''"
| "kind_char Removed = CHR ''-''"
| "kind_char Added = CHR ''+''"

definition split_lines :: "string option \<Rightarrow> string list" where
  "split_lines s = (if \<not> truthy s then []
     else let ls = split_on newline (the s) in if last ls = [] then butlast ls else ls)"

fun common_head :: "'a list \<Rightarrow> 'a list \<Rightarrow> nat" where
  "common_head (x # xs) (y # ys) = (if x = y then Suc (common_head xs ys) else 0)"
| "common_head _ _ = 0"

text \<open>
  The table is filled from the last row and column back. \<open>lcs_row\<close> fills the row of one line \<open>x\<close> of
  the old file, given the row below it.
\<close>

fun lcs_row :: "'a \<Rightarrow> 'a list \<Rightarrow> nat list \<Rightarrow> nat list" where
  "lcs_row x [] below = [0]"
| "lcs_row x (y # ys) below =
     (let rest = lcs_row x ys (tl below)
      in (if x = y then hd (tl below) + 1 else max (hd below) (hd rest)) # rest)"

fun lcs_table :: "'a list \<Rightarrow> 'a list \<Rightarrow> nat list list" where
  "lcs_table [] bm = [replicate (length bm + 1) 0]"
| "lcs_table (x # xs) bm = (let t = lcs_table xs bm in lcs_row x bm (hd t) # t)"

partial_function (option) walk_lines ::
  "string list \<Rightarrow> string list \<Rightarrow> nat list list \<Rightarrow> nat \<Rightarrow> nat \<Rightarrow> line_op list \<Rightarrow> line_op list option" where
  "walk_lines am bm lcs i j ops =
     (if i < length am \<or> j < length bm then
        (if i < length am \<and> j < length bm \<and> am ! i = bm ! j
         then walk_lines am bm lcs (i + 1) (j + 1) (ops @ [LineOp Same (am ! i)])
         else if i < length am \<and> (j = length bm \<or> lcs ! i ! (j + 1) \<le> lcs ! (i + 1) ! j)
         then walk_lines am bm lcs (i + 1) j (ops @ [LineOp Removed (am ! i)])
         else walk_lines am bm lcs i (j + 1) (ops @ [LineOp Added (bm ! j)]))
      else Some ops)"

text \<open>\<open>Some None\<close>: the files are too large to compare line by line.\<close>

definition line_ops :: "string list \<Rightarrow> string list \<Rightarrow> line_op list option option" where
  "line_ops a b =
     (let head = common_head a b;
          tail = common_head (rev (drop head a)) (rev (drop head b));
          am = drop head (take (length a - tail) a);
          bm = drop head (take (length b - tail) b)
      in if MAX_CELLS < (length am + 1) * (length bm + 1) then Some None
         else (case walk_lines am bm (lcs_table am bm) 0 0 (map (LineOp Same) (take head a)) of
            None \<Rightarrow> None
          | Some ops \<Rightarrow> Some (Some (ops @ map (LineOp Same) (drop (length a - tail) a)))))"

section \<open>Rendering\<close>

definition mark_near :: "nat \<Rightarrow> nat \<Rightarrow> bool list \<Rightarrow> bool list" where
  "mark_near n idx keep = fold (\<lambda>k kp. kp[k := True]) [idx - CONTEXT_LINES ..< min (n - 1) (idx + CONTEXT_LINES) + 1] keep"

definition kept_lines :: "line_op list \<Rightarrow> bool list" where
  "kept_lines ops =
     fold (\<lambda>idx keep. if op_kind (ops ! idx) = Same then keep else mark_near (length ops) idx keep)
       [0 ..< length ops] (replicate (length ops) False)"

record rendering =
  r_out :: "string list"
  r_used :: int
  r_shown :: nat
  r_hidden :: nat
  r_gap :: bool

definition blank_rendering :: rendering where
  "blank_rendering = \<lparr>r_out = [], r_used = 0, r_shown = 0, r_hidden = 0, r_gap = False\<rparr>"

definition shown_line :: "string \<Rightarrow> string" where
  "shown_line l = (if MAX_LINE < length l then take MAX_LINE l @ [ellipsis] else l)"

definition render_op :: "line_op \<Rightarrow> string" where
  "render_op x = kind_char (op_kind x) # CHR '' '' # shown_line (op_line x)"

text \<open>The loop over the operations; the \<open>break\<close> ends it with the state reached.\<close>

fun render_lines :: "int \<Rightarrow> (line_op \<times> bool) list \<Rightarrow> rendering \<Rightarrow> rendering" where
  "render_lines room [] st = st"
| "render_lines room ((x, keep) # rest) st =
     (if \<not> keep then render_lines room rest (st\<lparr>r_gap := True\<rparr>)
      else
        let rendered = (if r_gap st \<and> r_out st \<noteq> [] then [[ellipsis]] else []) @ [render_op x];
            cost = int (sum_list (map (\<lambda>s. length s + 1) rendered))
        in if room < r_used st + cost then st
           else render_lines room rest
             \<lparr>r_out = r_out st @ rendered, r_used = r_used st + cost,
              r_shown = (if op_kind x \<noteq> Same then r_shown st + 1 else r_shown st),
              r_hidden = (if op_kind x \<noteq> Same then r_hidden st + (length (op_line x) - MAX_LINE) else r_hidden st),
              r_gap = False\<rparr>)"

definition changed :: "line_op \<Rightarrow> bool" where
  "changed x = (op_kind x \<noteq> Same)"

definition plural :: "nat \<Rightarrow> string" where
  "plural n = (if n = 1 then '''' else ''s'')"

definition truncation_notes :: "nat \<Rightarrow> nat \<Rightarrow> string list" where
  "truncation_notes missing hidden =
     (if 0 < missing then [show_nat missing @ '' more changed line'' @ plural missing @ '' not shown''] else [])
     @ (if 0 < hidden then [show_nat hidden @ '' character'' @ plural hidden @ '' of long lines not shown''] else [])"

definition truncation_line :: "string list \<Rightarrow> string" where
  "truncation_line notes = ''(diff truncated: '' @ join_with ''; '' notes @ '')''"

definition shown_diff :: "line_op list \<Rightarrow> int \<Rightarrow> string" where
  "shown_diff ops budget =
     (let total = length (filter changed ops);
          st = render_lines (budget - 128) (zip ops (kept_lines ops)) blank_rendering;
          notes = truncation_notes (total - r_shown st) (r_hidden st)
      in if total = 0 then ''(whitespace-only change)''
         else join_with [newline] (r_out st @ (if notes \<noteq> [] then [truncation_line notes] else [])))"

definition compact_diff :: "string option \<Rightarrow> string option \<Rightarrow> int \<Rightarrow> string option" where
  "compact_diff before after budget =
     (let a = split_lines before; b = split_lines after
      in (case line_ops a b of
            None \<Rightarrow> None
          | Some r \<Rightarrow>
              Some (shown_diff (case r of Some ops \<Rightarrow> ops
                                | None \<Rightarrow> map (LineOp Removed) a @ map (LineOp Added) b) budget)))"

end
