(* ===== verification/InstructionGuard.thy ===== *)
theory InstructionGuard
  imports LineDiff Tables
begin

text \<open>
  The instruction guard (\<open>modules/instruction-guard\<close>: store, guard, index, spawn): the approved
  content of an agent's standing instruction files, the comparison at every spawn that holds and
  reverts a change, and the approval that applies it. Files are reached through the host's anchored
  directories and \<open>fs\<close>, the parameter \<open>disk_api\<close>; SHA-256 and the host's guard framework are parameters.
  Text is a string of bytes.
\<close>

definition MAX_HELD_BYTES :: nat where "MAX_HELD_BYTES = 1024 * 1024"
definition ORPHAN_HELD_MS :: int where "ORPHAN_HELD_MS = 60 * 60 * 1000"

definition INSTRUCTION_CHANGE_ACTION :: string where "INSTRUCTION_CHANGE_ACTION = ''instruction_change''"

section \<open>The guarded files\<close>

datatype base_dir = GroupBase | StateBase

record guarded_file =
  gf_id :: string
  gf_label :: string
  gf_base :: base_dir
  gf_segments :: "string list"
  gf_name :: string
  gf_absent_dir_is_no_file :: bool

definition GUARDED_FILES :: "guarded_file list" where
  "GUARDED_FILES =
    [\<lparr>gf_id = ''persona'', gf_label = ''`instructions.prepend.md` (standing instructions)'',
      gf_base = GroupBase, gf_segments = [], gf_name = ''instructions.prepend.md'', gf_absent_dir_is_no_file = False\<rparr>,
     \<lparr>gf_id = ''claude-project-local'', gf_label = ''`CLAUDE.local.md` (Claude project instructions)'',
      gf_base = GroupBase, gf_segments = [], gf_name = ''CLAUDE.local.md'', gf_absent_dir_is_no_file = False\<rparr>,
     \<lparr>gf_id = ''claude-project-dir'', gf_label = ''`.claude/CLAUDE.md` (Claude project instructions)'',
      gf_base = GroupBase, gf_segments = [''.claude''], gf_name = ''CLAUDE.md'', gf_absent_dir_is_no_file = True\<rparr>,
     \<lparr>gf_id = ''claude-user-memory'', gf_label = ''`~/.claude/CLAUDE.md` (Claude user instructions)'',
      gf_base = StateBase, gf_segments = [''.claude-shared''], gf_name = ''CLAUDE.md'', gf_absent_dir_is_no_file = False\<rparr>,
     \<lparr>gf_id = ''codex-user-instructions'', gf_label = ''`~/.codex/AGENTS.md` (Codex global instructions)'',
      gf_base = StateBase, gf_segments = [''.codex-shared''], gf_name = ''AGENTS.md'', gf_absent_dir_is_no_file = False\<rparr>,
     \<lparr>gf_id = ''codex-user-override'', gf_label = ''`~/.codex/AGENTS.override.md` (Codex global instructions)'',
      gf_base = StateBase, gf_segments = [''.codex-shared''], gf_name = ''AGENTS.override.md'', gf_absent_dir_is_no_file = False\<rparr>]"

datatype fs_error = NotFound | Raised string

text \<open>\<open>None\<close>: the lookup throws.\<close>

definition file_spec :: "string \<Rightarrow> guarded_file option" where
  "file_spec fid = find (\<lambda>f. gf_id f = fid) GUARDED_FILES"

record group_ref =
  gr_id :: string
  gr_folder :: string

type_synonym root = "base_dir \<times> string"

definition root_of :: "group_ref \<Rightarrow> guarded_file \<Rightarrow> root" where
  "root_of g f = (if gf_base f = GroupBase then (GroupBase, gr_folder g) else (StateBase, gr_id g))"

section \<open>Directories and their interface\<close>

datatype node = Regular string | Link | Folder | Special

type_synonym dir = "string \<Rightarrow> node option"
type_synonym disk = "root \<times> string list \<Rightarrow> dir option"

datatype file_kind = IsFile | IsLink | IsDir | IsOther

record stat =
  st_kind :: file_kind
  st_size :: nat

definition kind_of :: "node \<Rightarrow> file_kind" where
  "kind_of n = (case n of Regular _ \<Rightarrow> IsFile | Link \<Rightarrow> IsLink | Folder \<Rightarrow> IsDir | Special \<Rightarrow> IsOther)"

record disk_api =
  da_open :: "root \<Rightarrow> string list \<Rightarrow> disk \<Rightarrow> fs_error + dir option"
  da_lstat :: "string \<Rightarrow> dir \<Rightarrow> fs_error + stat"
  da_read :: "string \<Rightarrow> dir \<Rightarrow> fs_error + string"
  da_unlink :: "string \<Rightarrow> dir \<Rightarrow> fs_error + dir"
  da_replace :: "string \<Rightarrow> string \<Rightarrow> dir \<Rightarrow> fs_error + dir"
  fs_rename :: "string \<Rightarrow> string \<Rightarrow> dir \<Rightarrow> fs_error + dir"

text \<open>What a call that succeeds has done. Any call may raise instead.\<close>

definition disk_api_ok :: "disk_api \<Rightarrow> bool" where
  "disk_api_ok api =
     ((\<forall>r segs disk x. da_open api r segs disk = Inr x \<longrightarrow> x = disk (r, segs))
      \<and> (\<forall>n d. (case da_lstat api n d of
             Inr st \<Rightarrow> (case d n of None \<Rightarrow> False
               | Some x \<Rightarrow> st_kind st = kind_of x \<and> (\<forall>t. x = Regular t \<longrightarrow> st_size st = length t))
           | Inl NotFound \<Rightarrow> d n = None
           | Inl (Raised _) \<Rightarrow> True))
      \<and> (\<forall>n d. (case da_read api n d of
             Inr t \<Rightarrow> d n = Some (Regular t) | Inl NotFound \<Rightarrow> d n = None | Inl (Raised _) \<Rightarrow> True))
      \<and> (\<forall>n d d'. da_unlink api n d = Inr d' \<longrightarrow> d' = d(n := None))
      \<and> (\<forall>n t d d'. da_replace api n t d = Inr d' \<longrightarrow> d' = d(n := Some (Regular t)))
      \<and> (\<forall>n m d d'. fs_rename api n m d = Inr d' \<longrightarrow> d' = d(n := None, m := d n)))"

section \<open>The store of approved content\<close>

record baseline =
  b_sha :: string
  b_content :: "string option"
  b_at :: millis

record held =
  h_group :: string
  h_file :: string
  h_sha :: string
  h_content :: "string option"
  h_at :: millis

definition h_key :: "held \<Rightarrow> string \<times> string \<times> string" where
  "h_key h = (h_group h, h_file h, h_sha h)"

datatype guard_audit =
    Reverted string string bool "string option" string
  | Applied string string string string

record guard_world =
  gw_disk :: disk
  gw_base :: "string \<times> string \<Rightarrow> baseline option"
  gw_held :: "held list"
  gw_audit :: "guard_audit list"

definition normalize :: "string option \<Rightarrow> string option" where
  "normalize c = (case c of None \<Rightarrow> None | Some t \<Rightarrow> if js_trim t \<noteq> [] then Some t else None)"

definition digest :: "(string \<Rightarrow> string) \<Rightarrow> string option \<Rightarrow> string" where
  "digest sha c = sha (case c of None \<Rightarrow> [] | Some t \<Rightarrow> t)"

definition safe_group_id :: "string \<Rightarrow> bool" where
  "safe_group_id s = (case s of [] \<Rightarrow> False
     | c # cs \<Rightarrow> (is_alnum c \<or> is_upper c) \<and> list_all (\<lambda>x. is_alnum x \<or> is_upper x \<or> x \<in> {CHR ''.'', CHR ''_'', CHR ''-''}) cs)"

definition hex_digest :: "string \<Rightarrow> bool" where
  "hex_digest s = (length s = 64 \<and> list_all (\<lambda>c. is_digit c \<or> c \<in> set ''abcdef'') s)"

definition read_baseline :: "string \<Rightarrow> string \<Rightarrow> guard_world \<Rightarrow> fs_error + baseline option" where
  "read_baseline gid fid w =
     (if safe_group_id gid then Inr (gw_base w (gid, fid)) else Inl (Raised ''unsafe agent group id''))"

definition held_path :: "string \<Rightarrow> string \<Rightarrow> string \<Rightarrow> fs_error + (string \<times> string \<times> string)" where
  "held_path gid fid s =
     (if \<not> hex_digest s then Inl (Raised ''malformed content hash'')
      else if \<not> safe_group_id gid then Inl (Raised ''unsafe agent group id'')
      else if file_spec fid = None then Inl (Raised ''unknown guarded instruction file'')
      else Inr (gid, fid, s))"

definition save_baseline ::
  "(string \<Rightarrow> string) \<Rightarrow> millis \<Rightarrow> string \<Rightarrow> string \<Rightarrow> string option \<Rightarrow> guard_world \<Rightarrow> guard_world" where
  "save_baseline sha now gid fid content w =
     (let value = normalize content
      in w\<lparr>gw_base := (gw_base w)((gid, fid) := Some \<lparr>b_sha = digest sha value, b_content = value, b_at = now\<rparr>)\<rparr>)"

definition drop_held :: "string \<times> string \<times> string \<Rightarrow> guard_world \<Rightarrow> guard_world" where
  "drop_held k w = w\<lparr>gw_held := tbl_delete (\<lambda>h. h_key h = k) (gw_held w)\<rparr>"

definition record_instruction_baseline ::
  "(string \<Rightarrow> string) \<Rightarrow> millis \<Rightarrow> string \<Rightarrow> string \<Rightarrow> string option \<Rightarrow> guard_world \<Rightarrow> fs_error option \<times> guard_world" where
  "record_instruction_baseline sha now gid fid content w =
     (if safe_group_id gid then (None, save_baseline sha now gid fid content w)
      else (Some (Raised ''unsafe agent group id''), w))"

section \<open>Reading and replacing the live file\<close>

datatype observed = Content "string option" | Foreign string | Oversize nat

text \<open>\<open>swap\<close> is what a running container does to the entry between the \<open>lstat\<close> and the open.\<close>

definition observe ::
  "disk_api \<Rightarrow> (node option \<Rightarrow> node option) \<Rightarrow> string \<Rightarrow> dir \<Rightarrow> (fs_error + observed) \<times> dir" where
  "observe api swap name d =
     (case da_lstat api name d of
        Inl NotFound \<Rightarrow> (Inr (Content None), d)
      | Inl e \<Rightarrow> (Inl e, d)
      | Inr st \<Rightarrow>
          if st_kind st \<noteq> IsFile then
            (Inr (Foreign (if st_kind st = IsLink then ''a symlink''
                           else if st_kind st = IsDir then ''a directory'' else ''not a regular file'')), d)
          else if MAX_HELD_BYTES < st_size st then (Inr (Oversize (st_size st)), d)
          else (let d1 = d(name := swap (d name)) in
            (case da_read api name d1 of
               Inl NotFound \<Rightarrow> (Inr (Content None), d1)
             | Inl _ \<Rightarrow> (Inr (Foreign ''not a regular file''), d1)
             | Inr buf \<Rightarrow> (if MAX_HELD_BYTES < length buf then (Inr (Oversize (length buf)), d1)
                          else (Inr (Content (normalize (Some buf))), d1)))))"

definition set_dir :: "root \<Rightarrow> string list \<Rightarrow> dir \<Rightarrow> guard_world \<Rightarrow> guard_world" where
  "set_dir r segs d w = w\<lparr>gw_disk := (gw_disk w)((r, segs) := Some d)\<rparr>"

definition clear_entry ::
  "disk_api \<Rightarrow> millis \<Rightarrow> string \<Rightarrow> string option \<Rightarrow> dir \<Rightarrow> fs_error + dir" where
  "clear_entry api now name content d =
     (case da_lstat api name d of
        Inl NotFound \<Rightarrow> Inr d
      | Inl e \<Rightarrow> Inl e
      | Inr st \<Rightarrow>
          if st_kind st = IsDir then fs_rename api name (name @ ''.refused-'' @ show_int now) d
          else if st_kind st \<noteq> IsFile \<or> content = None then da_unlink api name d
          else Inr d)"

definition put_content ::
  "disk_api \<Rightarrow> millis \<Rightarrow> group_ref \<Rightarrow> guarded_file \<Rightarrow> string option \<Rightarrow> guard_world \<Rightarrow> fs_error option \<times> guard_world" where
  "put_content api now g f content w =
     (let r = root_of g f; segs = gf_segments f; name = gf_name f in
      case da_open api r segs (gw_disk w) of
        Inl e \<Rightarrow> (Some e, w)
      | Inr None \<Rightarrow> (Some (Raised (''directory for '' @ name @ '' is missing'')), w)
      | Inr (Some d) \<Rightarrow>
          (case clear_entry api now name content d of
             Inl e \<Rightarrow> (Some e, w)
           | Inr d1 \<Rightarrow>
               (case content of
                  None \<Rightarrow> (None, set_dir r segs d1 w)
                | Some t \<Rightarrow>
                    (case da_replace api name t d1 of
                       Inl e \<Rightarrow> (Some e, set_dir r segs d1 w)
                     | Inr d2 \<Rightarrow> (None, set_dir r segs d2 w)))))"

definition record_from_disk ::
  "(string \<Rightarrow> string) \<Rightarrow> disk_api \<Rightarrow> (node option \<Rightarrow> node option) \<Rightarrow> millis \<Rightarrow> group_ref \<Rightarrow> guarded_file
     \<Rightarrow> guard_world \<Rightarrow> fs_error option \<times> guard_world" where
  "record_from_disk sha api swap now g f w =
     (let r = root_of g f; segs = gf_segments f in
      case da_open api r segs (gw_disk w) of
        Inl e \<Rightarrow> (Some e, w)
      | Inr None \<Rightarrow> (None, w)
      | Inr (Some d) \<Rightarrow>
          (case observe api swap (gf_name f) d of
             (Inl e, d1) \<Rightarrow> (Some e, set_dir r segs d1 w)
           | (Inr (Content c), d1) \<Rightarrow> record_instruction_baseline sha now (gr_id g) (gf_id f) c (set_dir r segs d1 w)
           | (Inr _, d1) \<Rightarrow> (None, set_dir r segs d1 w)))"

text \<open>The changes of a restamp: surface and action.\<close>

definition record_restamped_instructions ::
  "(string \<Rightarrow> string) \<Rightarrow> disk_api \<Rightarrow> (node option \<Rightarrow> node option) \<Rightarrow> millis \<Rightarrow> bool \<Rightarrow> group_ref
     \<Rightarrow> (string \<times> string) list \<Rightarrow> guard_world \<Rightarrow> fs_error option \<times> guard_world" where
  "record_restamped_instructions sha api swap now applied g changes w =
     (if \<not> applied then (None, w)
      else if list_ex (\<lambda>(surface, action). surface = ''persona''
             \<and> (action = ''create'' \<or> action = ''update'' \<or> action = ''remove'')) changes
      then (case file_spec ''persona'' of
              None \<Rightarrow> (Some (Raised ''unknown guarded instruction file''), w)
            | Some f \<Rightarrow> record_from_disk sha api swap now g f w)
      else (None, w))"

end
