(* ===== verification/InstructionGate.thy ===== *)
theory InstructionGate
  imports InstructionGuard
begin

text \<open>
  The check at a spawn, the approval it raises and the decision on it: \<open>checkInstructionFiles\<close>
  (store), \<open>guardStandingInstructions\<close> and \<open>raiseApproval\<close> (spawn), the approval and rejection
  handlers (index).
\<close>

section \<open>The spawn-time check\<close>

datatype outcome = IsHeld | IsRefused

record instruction_change =
  ic_file :: guarded_file
  ic_outcome :: outcome
  ic_sha :: string
  ic_before :: "string option"
  ic_after :: "string option"
  ic_detail :: "string option"

text \<open>The log row of a reverted change.\<close>

definition audit_change :: "group_ref \<Rightarrow> instruction_change \<Rightarrow> guard_world \<Rightarrow> guard_world" where
  "audit_change g c w = w\<lparr>gw_audit := gw_audit w @
     [Reverted (gr_id g) (gf_id (ic_file c)) (ic_outcome c = IsHeld) (ic_detail c) (ic_sha c)]\<rparr>"

definition put_back ::
  "disk_api \<Rightarrow> millis \<Rightarrow> group_ref \<Rightarrow> guarded_file \<Rightarrow> string option \<Rightarrow> instruction_change \<Rightarrow> guard_world
     \<Rightarrow> fs_error option \<times> instruction_change option \<times> guard_world" where
  "put_back api now g f approved c w =
     (case put_content api now g f approved w of
        (Some e, w1) \<Rightarrow> (Some e, None, w1)
      | (None, w1) \<Rightarrow> (None, Some c, audit_change g c w1))"

definition keep_held :: "held \<Rightarrow> guard_world \<Rightarrow> guard_world" where
  "keep_held h w = w\<lparr>gw_held := tbl_insert_new h_key h (gw_held w)\<rparr>"

definition compare_file ::
  "(string \<Rightarrow> string) \<Rightarrow> disk_api \<Rightarrow> millis \<Rightarrow> group_ref \<Rightarrow> guarded_file \<Rightarrow> baseline \<Rightarrow> observed \<Rightarrow> guard_world
     \<Rightarrow> fs_error option \<times> instruction_change option \<times> guard_world" where
  "compare_file sha api now g f b seen w =
     (case seen of
        Content c \<Rightarrow>
          if digest sha c = b_sha b then (None, None, w)
          else (case held_path (gr_id g) (gf_id f) (digest sha c) of
                  Inl e \<Rightarrow> (Some e, None, w)
                | Inr _ \<Rightarrow>
                    put_back api now g f (b_content b)
                      \<lparr>ic_file = f, ic_outcome = IsHeld, ic_sha = digest sha c,
                       ic_before = b_content b, ic_after = c, ic_detail = None\<rparr>
                      (keep_held \<lparr>h_group = gr_id g, h_file = gf_id f, h_sha = digest sha c,
                                  h_content = c, h_at = now\<rparr> w))
      | Foreign what \<Rightarrow>
          put_back api now g f (b_content b)
            \<lparr>ic_file = f, ic_outcome = IsRefused, ic_sha = [], ic_before = b_content b, ic_after = None,
             ic_detail = Some (''it was '' @ what)\<rparr> w
      | Oversize n \<Rightarrow>
          put_back api now g f (b_content b)
            \<lparr>ic_file = f, ic_outcome = IsRefused, ic_sha = [], ic_before = b_content b, ic_after = None,
             ic_detail = Some (''it was too large to hold ('' @ show_nat n @ '' bytes)'')\<rparr> w)"

definition check_file ::
  "(string \<Rightarrow> string) \<Rightarrow> disk_api \<Rightarrow> (node option \<Rightarrow> node option) \<Rightarrow> millis \<Rightarrow> group_ref \<Rightarrow> guarded_file
     \<Rightarrow> guard_world \<Rightarrow> fs_error option \<times> instruction_change option \<times> guard_world" where
  "check_file sha api swap now g f w =
     (let gid = gr_id g; fid = gf_id f in
      case da_open api (root_of g f) (gf_segments f) (gw_disk w) of
        Inl e \<Rightarrow> (Some e, None, w)
      | Inr None \<Rightarrow>
          (if gf_absent_dir_is_no_file f then
             (case read_baseline gid fid w of
                Inl e \<Rightarrow> (Some e, None, w)
              | Inr (Some _) \<Rightarrow> (None, None, w)
              | Inr None \<Rightarrow> (None, None, save_baseline sha now gid fid None w))
           else (None, None, w))
      | Inr (Some d) \<Rightarrow>
          (case observe api swap (gf_name f) d of (r, d1) \<Rightarrow>
             let w1 = set_dir (root_of g f) (gf_segments f) d1 w in
             (case r of
                Inl e \<Rightarrow> (Some e, None, w1)
              | Inr seen \<Rightarrow>
                  (case read_baseline gid fid w1 of
                     Inl e \<Rightarrow> (Some e, None, w1)
                   | Inr (Some b) \<Rightarrow> compare_file sha api now g f b seen w1
                   | Inr None \<Rightarrow>
                       (case seen of
                          Content c \<Rightarrow> (None, None, save_baseline sha now gid fid c w1)
                        | _ \<Rightarrow> (let w2 = save_baseline sha now gid fid None w1
                               in compare_file sha api now g f (the (gw_base w2 (gid, fid))) seen w2))))))"

text \<open>An error ends the check: the spawn fails, and no change is returned.\<close>

fun check_files ::
  "(string \<Rightarrow> string) \<Rightarrow> disk_api \<Rightarrow> (string \<Rightarrow> node option \<Rightarrow> node option) \<Rightarrow> millis \<Rightarrow> group_ref
     \<Rightarrow> guarded_file list \<Rightarrow> guard_world \<Rightarrow> (fs_error + instruction_change list) \<times> guard_world" where
  "check_files sha api swap now g [] w = (Inr [], w)"
| "check_files sha api swap now g (f # fs) w =
     (case check_file sha api (swap (gf_id f)) now g f w of
        (Some e, _, w1) \<Rightarrow> (Inl e, w1)
      | (None, c, w1) \<Rightarrow>
          (case check_files sha api swap now g fs w1 of
             (Inl e, w2) \<Rightarrow> (Inl e, w2)
           | (Inr cs, w2) \<Rightarrow> (Inr ((case c of None \<Rightarrow> [] | Some x \<Rightarrow> [x]) @ cs), w2)))"

definition check_instruction_files ::
  "(string \<Rightarrow> string) \<Rightarrow> disk_api \<Rightarrow> (string \<Rightarrow> node option \<Rightarrow> node option) \<Rightarrow> millis \<Rightarrow> group_ref
     \<Rightarrow> guard_world \<Rightarrow> (fs_error + instruction_change list) \<times> guard_world" where
  "check_instruction_files sha api swap now g w = check_files sha api swap now g GUARDED_FILES w"

section \<open>The approval\<close>

text \<open>The fields of a payload that are read; \<open>None\<close> is a field that is missing.\<close>

record change_payload =
  cp_group :: "string option"
  cp_file :: "string option"
  cp_sha :: "string option"

record pending_row =
  pr_action :: string
  pr_payload :: change_payload

definition same_change :: "change_payload \<Rightarrow> change_payload \<Rightarrow> bool" where
  "same_change a b = (cp_group a = cp_group b \<and> cp_file a = cp_file b \<and> cp_sha a = cp_sha b)"

definition js_string :: "string option \<Rightarrow> string" where
  "js_string x = (case x of None \<Rightarrow> ''undefined'' | Some s \<Rightarrow> s)"

datatype effect = Allow | Hold | Deny

text \<open>
  The host's guard: given the action's own decision and, for a request carrying a grant, whether
  the grant covers it, the effect, its reason and the approver.
\<close>

type_synonym guard_fn = "effect \<Rightarrow> bool option \<Rightarrow> effect \<times> string \<times> string option"

definition instruction_decision :: "bool \<Rightarrow> effect" where
  "instruction_decision actor_is_agent = (if actor_is_agent then Hold else Deny)"

definition held_name :: "string \<Rightarrow> string \<Rightarrow> string" where
  "held_name fid s = fid @ ''.'' @ s @ ''.json''"

definition prune_orphan_held :: "string \<Rightarrow> pending_row list \<Rightarrow> string \<Rightarrow> millis \<Rightarrow> guard_world \<Rightarrow> guard_world" where
  "prune_orphan_held gid pending keep now w =
     (let live = map (\<lambda>row. held_name (js_string (cp_file (pr_payload row))) (js_string (cp_sha (pr_payload row)))) pending
      in w\<lparr>gw_held := tbl_delete (\<lambda>h. h_group h = gid
             \<and> \<not> (held_name (h_file h) (h_sha h) = keep \<or> held_name (h_file h) (h_sha h) \<in> set live)
             \<and> \<not> (now - h_at h < ORPHAN_HELD_MS)) (gw_held w)\<rparr>)"

record change_request =
  rq_payload :: change_payload
  rq_title :: string
  rq_question :: "string option"
  rq_approver :: "string option"

definition change_payload_of :: "group_ref \<Rightarrow> instruction_change \<Rightarrow> change_payload" where
  "change_payload_of g c =
     \<lparr>cp_group = Some (gr_id g), cp_file = Some (gf_id (ic_file c)), cp_sha = Some (ic_sha c)\<rparr>"

definition change_intro :: "string \<Rightarrow> instruction_change \<Rightarrow> string" where
  "change_intro name c = name @ '' edited '' @ gf_label (ic_file c)
     @ ''. The approved version stays in effect until you decide; ''
     @ ''approving applies this edit and restarts the agent once it is idle.''"

definition change_request_for :: "int \<Rightarrow> string \<Rightarrow> group_ref \<Rightarrow> string option \<Rightarrow> instruction_change \<Rightarrow> change_request" where
  "change_request_for max_card name g approver c =
     (let title = ''Instruction change: '' @ name;
          intro = change_intro name c;
          budget = max_card - int (length title) - int (length intro) - 32
      in \<lparr>rq_payload = change_payload_of g c, rq_title = title,
          rq_question = map_option (\<lambda>d. intro @ [newline, newline] @ ''```diff'' @ [newline] @ d @ [newline] @ ''```'')
            (compact_diff (ic_before c) (ic_after c) budget),
          rq_approver = approver\<rparr>)"

text \<open>\<open>inflight\<close>: the changes whose request is being raised.\<close>

definition raise_approval ::
  "guard_fn \<Rightarrow> int \<Rightarrow> string \<Rightarrow> (string \<times> string \<times> string) set \<Rightarrow> pending_row list \<Rightarrow> millis \<Rightarrow> group_ref
     \<Rightarrow> instruction_change \<Rightarrow> guard_world \<Rightarrow> change_request option \<times> guard_world" where
  "raise_approval guarded max_card name inflight pending now g c w =
     (let k = (gr_id g, gf_id (ic_file c), ic_sha c);
          rows = filter (\<lambda>r. pr_action r = INSTRUCTION_CHANGE_ACTION) pending
      in if k \<in> inflight then (None, w)
         else (let w1 = prune_orphan_held (gr_id g) rows (held_name (gf_id (ic_file c)) (ic_sha c)) now w
               in if list_ex (\<lambda>r. same_change (pr_payload r) (change_payload_of g c)) rows then (None, w1)
                  else (case guarded (instruction_decision True) None of (eff, _, approver) \<Rightarrow>
                          if eff \<noteq> Hold then (None, drop_held k w1)
                          else (Some (change_request_for max_card name g approver c), w1))))"

definition notice_text :: "instruction_change \<Rightarrow> string" where
  "notice_text c =
     (if ic_outcome c = IsRefused
      then gf_label (ic_file c) @ '' was reset to its approved version ('' @ js_string (ic_detail c) @ ''). ''
           @ ''Standing instruction files must be regular files, and a change to one needs owner approval.''
      else ''Your edit to '' @ gf_label (ic_file c)
           @ '' was not applied: standing instructions change only after an owner approves. ''
           @ ''The approved version is back in place and your version is waiting for a decision; you will be told the outcome.'')"

text \<open>
  The spawn hook: what the session is told, the requests raised, and the state. A request raised adds its
  row to the pending approvals before the next one is looked at.
\<close>

fun raise_all ::
  "guard_fn \<Rightarrow> int \<Rightarrow> string \<Rightarrow> pending_row list \<Rightarrow> millis \<Rightarrow> group_ref \<Rightarrow> instruction_change list \<Rightarrow> guard_world
     \<Rightarrow> change_request list \<times> guard_world" where
  "raise_all guarded max_card name pending now g [] w = ([], w)"
| "raise_all guarded max_card name pending now g (c # cs) w =
     (if ic_outcome c \<noteq> IsHeld then raise_all guarded max_card name pending now g cs w
      else (case raise_approval guarded max_card name {} pending now g c w of
              (None, w1) \<Rightarrow> raise_all guarded max_card name pending now g cs w1
            | (Some rq, w1) \<Rightarrow>
                (case raise_all guarded max_card name
                        (pending @ [\<lparr>pr_action = INSTRUCTION_CHANGE_ACTION, pr_payload = rq_payload rq\<rparr>]) now g cs w1 of
                   (rqs, w2) \<Rightarrow> (rq # rqs, w2))))"

definition guard_standing_instructions ::
  "(string \<Rightarrow> string) \<Rightarrow> disk_api \<Rightarrow> (string \<Rightarrow> node option \<Rightarrow> node option) \<Rightarrow> guard_fn \<Rightarrow> int \<Rightarrow> string
     \<Rightarrow> pending_row list \<Rightarrow> millis \<Rightarrow> group_ref \<Rightarrow> guard_world
     \<Rightarrow> (fs_error + string list \<times> change_request list) \<times> guard_world" where
  "guard_standing_instructions sha api swap guarded max_card name pending now g w =
     (case check_instruction_files sha api swap now g w of
        (Inl e, w1) \<Rightarrow> (Inl e, w1)
      | (Inr cs, w1) \<Rightarrow>
          (case raise_all guarded max_card name pending now g cs w1 of
             (rqs, w2) \<Rightarrow> (Inr (map notice_text cs, rqs), w2)))"

section \<open>The decision\<close>

record approval_row =
  aw_id :: string
  aw_action :: string
  aw_payload :: change_payload

record approve_result =
  ar_error :: "fs_error option"
  ar_restart :: bool
  ar_note :: string

definition not_applied :: "string \<Rightarrow> approve_result" where
  "not_applied why = \<lparr>ar_error = None, ar_restart = False, ar_note = ''Your instruction change was not applied: '' @ why\<rparr>"

definition failed :: "fs_error \<Rightarrow> approve_result" where
  "failed e = \<lparr>ar_error = Some e, ar_restart = False, ar_note = []\<rparr>"

definition approve_change ::
  "(string \<Rightarrow> string) \<Rightarrow> disk_api \<Rightarrow> guard_fn \<Rightarrow> (string \<Rightarrow> group_ref option) \<Rightarrow> string \<Rightarrow> change_payload \<Rightarrow> approval_row
     \<Rightarrow> millis \<Rightarrow> guard_world \<Rightarrow> approve_result \<times> guard_world" where
  "approve_change sha api guarded get_group session_group p approval now w =
     (case guarded (instruction_decision True) (Some (same_change (aw_payload approval) p)) of (eff, why, _) \<Rightarrow>
        if eff \<noteq> Allow then (not_applied (why @ ''.''), w)
        else if cp_group p \<noteq> Some session_group then (not_applied ''it belongs to another agent.'', w)
        else (case file_spec (js_string (cp_file p)) of
          None \<Rightarrow> (failed (Raised ''unknown guarded instruction file''), w)
        | Some f \<Rightarrow>
            (let s = js_string (cp_sha p) in
             case held_path session_group (gf_id f) s of
               Inl e \<Rightarrow> (failed e, w)
             | Inr k \<Rightarrow>
                 (case (tbl_get h_key k (gw_held w), get_group session_group) of
                    (Some h, Some g) \<Rightarrow>
                      if digest sha (h_content h) \<noteq> s
                      then (\<lparr>ar_error = None, ar_restart = False, ar_note = ''Your edit to '' @ gf_label f
                              @ '' was approved, but the held copy is gone. Make the change again.''\<rparr>, w)
                      else (case put_content api now g f (h_content h) w of
                              (Some e, w1) \<Rightarrow> (failed e, w1)
                            | (None, w1) \<Rightarrow>
                                (let w2 = drop_held k (save_baseline sha now (gr_id g) (gf_id f) (h_content h) w1)
                                 in (\<lparr>ar_error = None, ar_restart = True, ar_note = ''Your edit to '' @ gf_label f
                                       @ '' was approved. It takes effect when your container restarts.''\<rparr>,
                                     w2\<lparr>gw_audit := gw_audit w2 @ [Applied (gr_id g) (gf_id f) s (aw_id approval)]\<rparr>)))
                  | _ \<Rightarrow> (\<lparr>ar_error = None, ar_restart = False, ar_note = ''Your edit to '' @ gf_label f
                              @ '' was approved, but the held copy is gone. Make the change again.''\<rparr>, w)))))"

text \<open>The resolved handler; a key it cannot form is logged and left.\<close>

definition reject_change :: "approval_row \<Rightarrow> bool \<Rightarrow> guard_world \<Rightarrow> guard_world" where
  "reject_change approval rejected w =
     (if aw_action approval \<noteq> INSTRUCTION_CHANGE_ACTION \<or> \<not> rejected then w
      else (case cp_group (aw_payload approval) of
              None \<Rightarrow> w
            | Some gid \<Rightarrow>
                (case held_path gid (js_string (cp_file (aw_payload approval))) (js_string (cp_sha (aw_payload approval))) of
                   Inl _ \<Rightarrow> w
                 | Inr k \<Rightarrow> drop_held k w)))"

end
