(* ===== verification/DiffFacts.thy ===== *)
theory DiffFacts
  imports LineDiff
begin

text \<open>
  What the diff of an approval card promises: the walk ends, the operations turn one file into the
  other with as few changed lines as possible, the text keeps within its budget, and whatever is
  left out of it is counted in its last line.
\<close>

section \<open>Reference: the length of a longest common subsequence\<close>

fun lcs_len :: "'a list \<Rightarrow> 'a list \<Rightarrow> nat" where
  "lcs_len [] ys = 0"
| "lcs_len xs [] = 0"
| "lcs_len (x # xs) (y # ys) =
     (if x = y then lcs_len xs ys + 1 else max (lcs_len xs (y # ys)) (lcs_len (x # xs) ys))"

lemma lcs_len_Nil2 [simp]: "lcs_len xs [] = 0"
  by (cases xs) auto

lemma common_subseq_le_lcs: "subseq c xs \<Longrightarrow> subseq c ys \<Longrightarrow> length c \<le> lcs_len xs ys"
proof (induction xs ys arbitrary: c rule: lcs_len.induct)
  case (3 x xs y ys)
  show ?case
  proof (cases c)
    case Nil
    then show ?thesis by simp
  next
    case (Cons z cs)
    show ?thesis
    proof (cases "x = y")
      case True
      have "subseq cs xs" "subseq cs ys"
        using "3.prems" Cons by (metis subseq_Cons2' subseq_Cons2_neq subseq_Cons')+
      with True Cons "3.IH"(1) show ?thesis by simp
    next
      case False
      consider "z \<noteq> x" | "z \<noteq> y" using False by blast
      then show ?thesis
      proof cases
        case 1
        then have "subseq c xs" using "3.prems"(1) Cons by (metis subseq_Cons2_neq)
        from "3.IH"(2) [OF False this "3.prems"(2)] False show ?thesis by simp
      next
        case 2
        then have "subseq c ys" using "3.prems"(2) Cons by (metis subseq_Cons2_neq)
        from "3.IH"(3) [OF False "3.prems"(1) this] False show ?thesis by simp
      qed
    qed
  qed
qed auto

lemma lcs_attained: "\<exists>c. subseq c xs \<and> subseq c ys \<and> length c = lcs_len xs ys"
proof (induction xs ys rule: lcs_len.induct)
  case (3 x xs y ys)
  show ?case
  proof (cases "x = y")
    case True
    with "3.IH"(1) obtain c where "subseq c xs" "subseq c ys" "length c = lcs_len xs ys" by blast
    with True have "subseq (x # c) (x # xs) \<and> subseq (x # c) (y # ys) \<and> length (x # c) = lcs_len (x # xs) (y # ys)"
      by simp
    then show ?thesis by blast
  next
    case False
    with 3 show ?thesis by (simp add: max_def) (meson list_emb_Cons)
  qed
qed auto

lemma lcs_len_common_front: "lcs_len (p @ xs) (p @ ys) = length p + lcs_len xs ys"
  by (induction p) auto

lemma lcs_len_common_tail: "lcs_len (xs @ s) (ys @ s) \<le> lcs_len xs ys + length s"
proof -
  obtain c where c: "subseq c (xs @ s)" "subseq c (ys @ s)" "length c = lcs_len (xs @ s) (ys @ s)"
    using lcs_attained by blast
  obtain c1 c2 where 1: "c = c1 @ c2" "subseq c1 xs" "subseq c2 s"
    using c(1) unfolding subseq_append_iff by blast
  obtain d1 d2 where 2: "c = d1 @ d2" "subseq d1 ys" "subseq d2 s"
    using c(2) unfolding subseq_append_iff by blast
  have len: "length c2 \<le> length s" "length d2 \<le> length s"
    using 1(3) 2(3) by (auto dest: list_emb_length)
  show ?thesis
  proof (cases "length c1 \<le> length d1")
    case True
    then have "prefix c1 d1" using 1(1) 2(1) by (metis prefix_length_prefix prefixI)
    then have "subseq c1 ys" using 2(2) by (meson prefix_imp_subseq subseq_order.trans)
    then show ?thesis using common_subseq_le_lcs [OF 1(2)] 1(1) c(3) len by fastforce
  next
    case False
    then have "prefix d1 c1" using 1(1) 2(1) by (metis nle_le prefix_length_prefix prefixI)
    then have "subseq d1 xs" using 1(2) by (meson prefix_imp_subseq subseq_order.trans)
    then show ?thesis using common_subseq_le_lcs [OF _ 2(2)] 2(1) c(3) len by fastforce
  qed
qed

section \<open>The table\<close>

fun suffix_lens :: "'a list \<Rightarrow> 'a list \<Rightarrow> nat list" where
  "suffix_lens xs [] = [0]"
| "suffix_lens xs (y # ys) = lcs_len xs (y # ys) # suffix_lens xs ys"

lemma hd_suffix_lens [simp]: "hd (suffix_lens xs ys) = lcs_len xs ys"
  by (cases ys) auto

lemma nth_suffix_lens: "j \<le> length ys \<Longrightarrow> suffix_lens xs ys ! j = lcs_len xs (drop j ys)"
  by (induction ys arbitrary: j) (auto simp: nth_Cons split: nat.splits)

lemma lcs_row_lens: "lcs_row x ys (suffix_lens xs ys) = suffix_lens (x # xs) ys"
  by (induction ys) (auto simp: Let_def)

lemma suffix_lens_Nil: "suffix_lens [] ys = replicate (length ys + 1) 0"
  by (induction ys) auto

lemma lcs_table_ne [simp]: "lcs_table xs ys \<noteq> []"
  by (cases xs) (auto simp: Let_def)

lemma hd_lcs_table: "hd (lcs_table xs ys) = suffix_lens xs ys"
  by (induction xs) (auto simp: Let_def lcs_row_lens suffix_lens_Nil)

lemma nth_lcs_table: "i \<le> length xs \<Longrightarrow> lcs_table xs ys ! i = suffix_lens (drop i xs) ys"
proof (induction xs arbitrary: i)
  case Nil
  then show ?case by (simp add: suffix_lens_Nil)
next
  case (Cons x xs)
  then show ?case
    by (cases i) (auto simp: Let_def hd_lcs_table lcs_row_lens)
qed

lemma lcs_table_cell:
  "i \<le> length am \<Longrightarrow> j \<le> length bm \<Longrightarrow> lcs_table am bm ! i ! j = lcs_len (drop i am) (drop j bm)"
  by (simp add: nth_lcs_table nth_suffix_lens)

section \<open>The walk\<close>

definition old_lines :: "line_op list \<Rightarrow> string list" where
  "old_lines ops = map op_line (filter (\<lambda>x. op_kind x \<noteq> Added) ops)"

definition new_lines :: "line_op list \<Rightarrow> string list" where
  "new_lines ops = map op_line (filter (\<lambda>x. op_kind x \<noteq> Removed) ops)"

definition unchanged :: "line_op list \<Rightarrow> nat" where
  "unchanged ops = length (filter (\<lambda>x. op_kind x = Same) ops)"

lemma ops_Nil [simp]: "old_lines [] = []" "new_lines [] = []" "unchanged [] = 0"
  by (simp_all add: old_lines_def new_lines_def unchanged_def)

lemma ops_Cons [simp]:
  "old_lines (LineOp k l # ops) = (if k = Added then old_lines ops else l # old_lines ops)"
  "new_lines (LineOp k l # ops) = (if k = Removed then new_lines ops else l # new_lines ops)"
  "unchanged (LineOp k l # ops) = (if k = Same then unchanged ops + 1 else unchanged ops)"
  by (simp_all add: old_lines_def new_lines_def unchanged_def)

lemma ops_append [simp]:
  "old_lines (xs @ ys) = old_lines xs @ old_lines ys"
  "new_lines (xs @ ys) = new_lines xs @ new_lines ys"
  "unchanged (xs @ ys) = unchanged xs + unchanged ys"
  by (simp_all add: old_lines_def new_lines_def unchanged_def)

lemma ops_map [simp]:
  "old_lines (map (LineOp k) ls) = (if k = Added then [] else ls)"
  "new_lines (map (LineOp k) ls) = (if k = Removed then [] else ls)"
  "unchanged (map (LineOp k) ls) = (if k = Same then length ls else 0)"
  by (induction ls) auto

lemma walk_lines_result:
  assumes "i \<le> length am" "j \<le> length bm"
  shows "\<exists>rest. walk_lines am bm (lcs_table am bm) i j ops = Some (ops @ rest)
           \<and> old_lines rest = drop i am \<and> new_lines rest = drop j bm
           \<and> unchanged rest = lcs_len (drop i am) (drop j bm)"
  using assms
proof (induction "length am - i + (length bm - j)" arbitrary: i j ops rule: less_induct)
  case less
  let ?t = "lcs_table am bm"
  have cons: "\<And>k. k < length am \<Longrightarrow> drop k am = am ! k # drop (k + 1) am"
             "\<And>k. k < length bm \<Longrightarrow> drop k bm = bm ! k # drop (k + 1) bm"
    by (simp_all add: Cons_nth_drop_Suc)
  note step = walk_lines.simps [of am bm ?t i j ops]
  consider (stop) "i = length am" "j = length bm"
    | (same) "i < length am" "j < length bm" "am ! i = bm ! j"
    | (del) "i < length am" "\<not> (j < length bm \<and> am ! i = bm ! j)" "j = length bm \<or> ?t ! i ! (j + 1) \<le> ?t ! (i + 1) ! j"
    | (ins) "j < length bm" "\<not> (i < length am \<and> am ! i = bm ! j)" "\<not> (i < length am \<and> ?t ! i ! (j + 1) \<le> ?t ! (i + 1) ! j)"
    using less.prems by linarith
  then show ?case
  proof cases
    case stop
    then show ?thesis by (simp add: walk_lines.simps)
  next
    case same
    then have "length am - (i + 1) + (length bm - (j + 1)) < length am - i + (length bm - j)" by linarith
    from less.hyps [OF this, of "ops @ [LineOp Same (am ! i)]"] same
    obtain rest where "walk_lines am bm ?t (i + 1) (j + 1) (ops @ [LineOp Same (am ! i)]) = Some ((ops @ [LineOp Same (am ! i)]) @ rest)"
      "old_lines rest = drop (i + 1) am" "new_lines rest = drop (j + 1) bm"
      "unchanged rest = lcs_len (drop (i + 1) am) (drop (j + 1) bm)" by auto
    then show ?thesis
      using same by (intro exI [of _ "LineOp Same (am ! i) # rest"]) (simp add: step cons)
  next
    case del
    then have "length am - (i + 1) + (length bm - j) < length am - i + (length bm - j)" by linarith
    from less.hyps [OF this, of "ops @ [LineOp Removed (am ! i)]"] del less.prems
    obtain rest where r: "walk_lines am bm ?t (i + 1) j (ops @ [LineOp Removed (am ! i)]) = Some ((ops @ [LineOp Removed (am ! i)]) @ rest)"
      "old_lines rest = drop (i + 1) am" "new_lines rest = drop j bm"
      "unchanged rest = lcs_len (drop (i + 1) am) (drop j bm)" by auto
    have "lcs_len (drop i am) (drop j bm) = lcs_len (drop (i + 1) am) (drop j bm)"
    proof (cases "j = length bm")
      case False
      then have "j < length bm" using less.prems by simp
      with del show ?thesis by (simp add: lcs_table_cell cons max_def)
    qed simp
    with r del show ?thesis
      by (intro exI [of _ "LineOp Removed (am ! i) # rest"]) (auto simp: step cons)
  next
    case ins
    then have "length am - i + (length bm - (j + 1)) < length am - i + (length bm - j)" by linarith
    from less.hyps [OF this, of "ops @ [LineOp Added (bm ! j)]"] ins less.prems
    obtain rest where r: "walk_lines am bm ?t i (j + 1) (ops @ [LineOp Added (bm ! j)]) = Some ((ops @ [LineOp Added (bm ! j)]) @ rest)"
      "old_lines rest = drop i am" "new_lines rest = drop (j + 1) bm"
      "unchanged rest = lcs_len (drop i am) (drop (j + 1) bm)" by auto
    have "lcs_len (drop i am) (drop j bm) = lcs_len (drop i am) (drop (j + 1) bm)"
    proof (cases "i = length am")
      case False
      then have "i < length am" using less.prems by simp
      with ins show ?thesis by (simp add: lcs_table_cell cons max_def)
    qed simp
    with r ins show ?thesis
      by (intro exI [of _ "LineOp Added (bm ! j) # rest"]) (auto simp: step cons)
  qed
qed

section \<open>The trimmed head and tail\<close>

lemma common_head_le: "common_head xs ys \<le> length xs" "common_head xs ys \<le> length ys"
  by (induction xs ys rule: common_head.induct) auto

lemma take_common_head: "take (common_head xs ys) xs = take (common_head xs ys) ys"
  by (induction xs ys rule: common_head.induct) auto

lemma drop_common_tail:
  assumes "t = common_head (rev xs) (rev ys)"
  shows "t \<le> length xs" "t \<le> length ys" "drop (length xs - t) xs = drop (length ys - t) ys"
  using common_head_le [of "rev xs" "rev ys"] take_common_head [of "rev xs" "rev ys"] assms
  by (auto simp: take_rev)

lemma trimmed_parts:
  assumes h: "h = common_head a b" and t: "t = common_head (rev (drop h a)) (rev (drop h b))"
  defines "p \<equiv> take h a" and "s \<equiv> drop (length a - t) a"
  shows "a = p @ drop h (take (length a - t) a) @ s" "b = p @ drop h (take (length b - t) b) @ s"
proof -
  have hl: "h \<le> length a" "h \<le> length b" and pe: "take h a = take h b"
    using common_head_le [of a b] take_common_head [of a b] h by auto
  have tl: "t \<le> length a - h" "t \<le> length b - h" and se: "drop (length a - t) a = drop (length b - t) b"
    using drop_common_tail [OF t] hl by (auto simp: add.commute)
  have whole: "xs = take h xs @ drop h (take (length xs - t) xs) @ drop (length xs - t) xs"
    if "h \<le> length xs - t" for xs :: "'a list"
  proof -
    have "take h (take (length xs - t) xs) = take h xs" using that by (simp add: min_def)
    then show ?thesis by (metis append_assoc append_take_drop_id)
  qed
  show "a = p @ drop h (take (length a - t) a) @ s" unfolding p_def s_def
    by (rule whole) (use hl tl in linarith)
  show "b = p @ drop h (take (length b - t) b) @ s" unfolding p_def s_def pe se
    by (rule whole) (use hl tl in linarith)
qed

lemma line_ops_result:
  "\<exists>r. line_ops a b = Some r \<and> (\<forall>ops. r = Some ops \<longrightarrow> old_lines ops = a \<and> new_lines ops = b \<and> lcs_len a b \<le> unchanged ops)"
proof -
  define h where "h = common_head a b"
  define t where "t = common_head (rev (drop h a)) (rev (drop h b))"
  define am where "am = drop h (take (length a - t) a)"
  define bm where "bm = drop h (take (length b - t) b)"
  define p where "p = take h a"
  define s where "s = drop (length a - t) a"
  have ab: "a = p @ am @ s" "b = p @ bm @ s"
    using trimmed_parts [OF h_def t_def] unfolding am_def bm_def p_def s_def by blast+
  obtain rest where w: "walk_lines am bm (lcs_table am bm) 0 0 (map (LineOp Same) p) = Some (map (LineOp Same) p @ rest)"
    "old_lines rest = am" "new_lines rest = bm" "unchanged rest = lcs_len am bm"
    using walk_lines_result [of 0 am 0 bm "map (LineOp Same) p"] by auto
  have lo: "line_ops a b = (if MAX_CELLS < (length am + 1) * (length bm + 1) then Some None
      else Some (Some (map (LineOp Same) p @ rest @ map (LineOp Same) s)))"
    unfolding line_ops_def Let_def h_def [symmetric] t_def [symmetric] am_def [symmetric] bm_def [symmetric]
      p_def [symmetric] s_def [symmetric] by (simp add: w(1))
  have "lcs_len a b \<le> length p + (lcs_len am bm + length s)"
    unfolding ab lcs_len_common_front using lcs_len_common_tail by simp
  then show ?thesis unfolding lo using w ab by auto
qed

text \<open>
  Whenever the diff is made line by line, its unchanged and removed lines are exactly the old
  file, its unchanged and added lines exactly the new one, and no smaller diff exists: no common
  subsequence of the two files is longer than the lines shown as unchanged.
\<close>

theorem diff_faithful_and_minimal:
  assumes "line_ops a b = Some (Some ops)"
  shows "old_lines ops = a \<and> new_lines ops = b
    \<and> (\<forall>c. subseq c a \<longrightarrow> subseq c b \<longrightarrow> length c \<le> unchanged ops)"
  using line_ops_result [of a b] assms common_subseq_le_lcs [of _ a b] by fastforce

lemma diff_example:
  "line_ops [''be kind'', ''be brief''] [''be kind'', ''be bold'']
     = Some (Some [LineOp Same ''be kind'', LineOp Removed ''be brief'', LineOp Added ''be bold''])"
  by (simp add: line_ops_def Let_def MAX_CELLS_def walk_lines.simps)

lemma diff_faithful_and_minimal_witness:
  "old_lines [LineOp Same ''be kind'', LineOp Removed ''be brief'', LineOp Added ''be bold''] = [''be kind'', ''be brief'']
   \<and> length [''be kind''] \<le> unchanged [LineOp Same ''be kind'', LineOp Removed ''be brief'', LineOp Added ''be bold'']"
  using diff_faithful_and_minimal [OF diff_example] by simp

section \<open>Rendering\<close>

lemma set_flags: "i < length kp \<Longrightarrow> fold (\<lambda>k kp. kp[k := True]) ks kp ! i \<longleftrightarrow> i \<in> set ks \<or> kp ! i"
proof (induction ks arbitrary: kp)
  case (Cons a ks)
  then show ?case by (cases "a = i") auto
qed simp

lemma length_set_flags [simp]: "length (fold (\<lambda>k kp. kp[k := True]) ks kp) = length kp"
  by (induction ks arbitrary: kp) auto

lemma length_mark_near [simp]: "length (mark_near n idx kp) = length kp"
  by (simp add: mark_near_def)

lemma mark_near_self: "idx < n \<Longrightarrow> length kp = n \<Longrightarrow> mark_near n idx kp ! idx"
  by (simp add: mark_near_def set_flags) linarith

lemma mark_near_mono: "kp ! i \<Longrightarrow> i < length kp \<Longrightarrow> mark_near n idx kp ! i"
  by (simp add: mark_near_def set_flags)

lemma marks_up_to:
  assumes "n \<le> length ops"
  defines "step \<equiv> \<lambda>idx keep. if op_kind (ops ! idx) = Same then keep else mark_near (length ops) idx keep"
  defines "flags \<equiv> fold step [0 ..< n] (replicate (length ops) False)"
  shows "length flags = length ops \<and> (\<forall>i < n. changed (ops ! i) \<longrightarrow> flags ! i)"
  using assms(1) unfolding flags_def
proof (induction n)
  case (Suc n)
  then show ?case
    by (auto simp: step_def changed_def less_Suc_eq mark_near_self intro!: mark_near_mono)
qed simp

lemma changed_lines_kept: "i < length ops \<Longrightarrow> changed (ops ! i) \<Longrightarrow> kept_lines ops ! i"
  and length_kept_lines: "length (kept_lines ops) = length ops"
  using marks_up_to [of "length ops" ops] by (auto simp: kept_lines_def)

definition text_cost :: "string list \<Rightarrow> nat" where
  "text_cost ls = sum_list (map (\<lambda>s. length s + 1) ls)"

lemma text_cost_simps [simp]:
  "text_cost [] = 0" "text_cost (l # ls) = length l + 1 + text_cost ls"
  "text_cost (xs @ ys) = text_cost xs + text_cost ys"
  by (simp_all add: text_cost_def)

lemma length_join_lines: "ls \<noteq> [] \<Longrightarrow> length (join_with [c] ls) + 1 = text_cost ls"
  by (induction ls rule: induct_list012) auto

text \<open>One turn of the loop that shows its line.\<close>

definition gap_line :: "rendering \<Rightarrow> string list" where
  "gap_line st = (if r_gap st \<and> r_out st \<noteq> [] then [[ellipsis]] else [])"

definition after_line :: "line_op \<Rightarrow> rendering \<Rightarrow> rendering" where
  "after_line x st =
     \<lparr>r_out = r_out st @ gap_line st @ [render_op x],
      r_used = r_used st + int (text_cost (gap_line st @ [render_op x])),
      r_shown = (if changed x then r_shown st + 1 else r_shown st),
      r_hidden = (if changed x then r_hidden st + (length (op_line x) - MAX_LINE) else r_hidden st),
      r_gap = False\<rparr>"

lemma after_line_simps [simp]:
  "r_out (after_line x st) = r_out st @ gap_line st @ [render_op x]"
  "r_used (after_line x st) = r_used st + int (text_cost (gap_line st @ [render_op x]))"
  "r_shown (after_line x st) = (if changed x then r_shown st + 1 else r_shown st)"
  "r_hidden (after_line x st) = (if changed x then r_hidden st + (length (op_line x) - MAX_LINE) else r_hidden st)"
  by (simp_all add: after_line_def)

lemma render_lines_Cons:
  "render_lines room ((x, keep) # rest) st =
     (if \<not> keep then render_lines room rest (st\<lparr>r_gap := True\<rparr>)
      else if room < r_used st + int (text_cost (gap_line st @ [render_op x])) then st
      else render_lines room rest (after_line x st))"
  by (simp add: Let_def text_cost_def after_line_def gap_line_def changed_def)

text \<open>What the changed lines among the first \<open>k\<close> hide of their ends.\<close>

definition cut_off :: "line_op list \<Rightarrow> nat" where
  "cut_off ops = sum_list (map (\<lambda>x. length (op_line x) - MAX_LINE) ops)"

lemma cut_off_simps [simp]:
  "cut_off [] = 0" "cut_off (x # xs) = length (op_line x) - MAX_LINE + cut_off xs"
  by (simp_all add: cut_off_def)

definition renders :: "line_op list \<Rightarrow> rendering \<Rightarrow> rendering \<Rightarrow> nat \<Rightarrow> bool" where
  "renders cs st st' k \<longleftrightarrow> k \<le> length cs \<and> r_shown st' = r_shown st + k
     \<and> r_hidden st' = r_hidden st + cut_off (take k cs)
     \<and> (\<exists>body. r_out st' = r_out st @ body \<and> subseq (map render_op (take k cs)) body)"

lemma renders_none [simp]: "renders cs st st 0"
  by (simp add: renders_def)

lemma render_lines_shows:
  assumes "\<forall>(x, keep) \<in> set xs. changed x \<longrightarrow> keep"
  shows "\<exists>k. renders (filter changed (map fst xs)) st (render_lines room xs st) k"
  using assms
proof (induction xs arbitrary: st)
  case Nil
  show ?case by (intro exI [of _ 0]) simp
next
  case (Cons p xs)
  obtain x keep where p: "p = (x, keep)" by (cases p)
  have IH: "\<And>st. \<exists>k. renders (filter changed (map fst xs)) st (render_lines room xs st) k"
    using Cons.IH Cons.prems by simp
  show ?case
  proof (cases "keep \<and> \<not> room < r_used st + int (text_cost (gap_line st @ [render_op x]))")
    case False
    then consider "\<not> keep" | "keep" "room < r_used st + int (text_cost (gap_line st @ [render_op x]))" by blast
    then show ?thesis
    proof cases
      case 1
      with Cons.prems p have "\<not> changed x" by auto
      with 1 p IH [of "st\<lparr>r_gap := True\<rparr>"] show ?thesis by (simp add: renders_def render_lines_Cons)
    next
      case 2
      then have "render_lines room (p # xs) st = st" by (simp only: p render_lines_Cons) simp
      then show ?thesis by (metis renders_none)
    qed
  next
    case True
    let ?st = "after_line x st"
    have all: "fst p = x" by (simp add: p)
    have step: "render_lines room (p # xs) st = render_lines room xs ?st"
      using True by (simp only: p render_lines_Cons) simp
    obtain k where "renders (filter changed (map fst xs)) ?st (render_lines room xs ?st) k" using IH by blast
    then obtain body where k: "k \<le> length (filter changed (map fst xs))"
        "r_shown (render_lines room xs ?st) = r_shown ?st + k"
        "r_hidden (render_lines room xs ?st) = r_hidden ?st + cut_off (take k (filter changed (map fst xs)))"
        "r_out (render_lines room xs ?st) = r_out ?st @ body"
        "subseq (map render_op (take k (filter changed (map fst xs)))) body"
      unfolding renders_def by blast
    show ?thesis
    proof (cases "changed x")
      case True
      have "subseq (render_op x # map render_op (take k (filter changed (map fst xs)))) (gap_line st @ render_op x # body)"
        using k(5) by (simp add: subseq_drop_many)
      with True k show ?thesis
        by (intro exI [of _ "Suc k"])
          (simp add: renders_def step all exI [of _ "gap_line st @ render_op x # body"] del: subseq_append)
    next
      case False
      have "subseq (map render_op (take k (filter changed (map fst xs)))) (gap_line st @ render_op x # body)"
        using k(5) by (metis append_Cons append_Nil append_assoc subseq_drop_many)
      with False k show ?thesis
        by (intro exI [of _ k])
          (simp add: renders_def step all exI [of _ "gap_line st @ render_op x # body"] del: subseq_append)
    qed
  qed
qed

lemma render_lines_cost:
  assumes "r_used st = int (text_cost (r_out st))"
  shows "r_used (render_lines room xs st) = int (text_cost (r_out (render_lines room xs st)))
    \<and> r_used (render_lines room xs st) \<le> max room (r_used st)"
  using assms
proof (induction xs arbitrary: st)
  case (Cons p xs)
  obtain x keep where p: "p = (x, keep)" by (cases p)
  have "r_used (after_line x st) = int (text_cost (r_out (after_line x st)))"
    by (simp add: after_line_def Cons.prems)
  note next_line = Cons.IH [OF this]
  have "r_used (st\<lparr>r_gap := True\<rparr>) = int (text_cost (r_out (st\<lparr>r_gap := True\<rparr>)))"
    using Cons.prems by simp
  note skipped = Cons.IH [OF this]
  define c where "c = int (text_cost (gap_line st @ [render_op x]))"
  have used: "r_used (after_line x st) = r_used st + c"
    by (simp add: after_line_def c_def)
  show ?case
  proof (cases keep)
    case False
    then show ?thesis using skipped by (simp add: p render_lines_Cons del: render_lines.simps)
  next
    case True
    then have "render_lines room (p # xs) st = (if room < r_used st + c then st else render_lines room xs (after_line x st))"
      unfolding p render_lines_Cons c_def by simp
    then show ?thesis using next_line Cons.prems used by (auto simp del: render_lines.simps)
  qed
qed simp

section \<open>The budget\<close>

lemma length_lines_of: "text_cost (split_on c s) = length s + 1"
proof -
  have "length (join_with [c] (split_on c s)) + 1 = text_cost (split_on c s)"
    by (rule length_join_lines) simp
  then show ?thesis by (simp add: join_split_on)
qed

lemma split_lines_size: "text_cost (split_lines s) \<le> (case s of None \<Rightarrow> 0 | Some t \<Rightarrow> length t + 1)"
proof (cases s)
  case (Some t)
  have "text_cost (butlast (split_on newline t)) \<le> text_cost (split_on newline t)"
    by (metis append_butlast_last_id le_add1 split_on_ne text_cost_simps(3))
  then show ?thesis using Some length_lines_of [of newline t] by (simp add: split_lines_def Let_def)
qed (simp add: split_lines_def)

definition text_length :: "string option \<Rightarrow> nat" where
  "text_length s = (case s of None \<Rightarrow> 0 | Some t \<Rightarrow> length t)"

lemma split_lines_cost: "text_cost (split_lines s) \<le> text_length s + 1"
  using split_lines_size [of s] by (auto simp: text_length_def split: option.splits)

lemma ops_cost:
  "length (filter changed ops) \<le> text_cost (old_lines ops) + text_cost (new_lines ops)"
  "cut_off (filter changed ops) \<le> text_cost (old_lines ops) + text_cost (new_lines ops)"
proof (induction ops)
  case (Cons x ops)
  {
    case 1
    show ?case using Cons.IH(1) by (cases x; cases "op_kind x") (auto simp: changed_def)
  next
    case 2
    show ?case using Cons.IH(2) by (cases x; cases "op_kind x") (auto simp: changed_def)
  }
qed simp_all

lemma cut_off_take: "cut_off (take k xs) \<le> cut_off xs"
  by (metis append_take_drop_id cut_off_def le_add1 map_append sum_list_append)

lemma truncation_line_length:
  assumes "missing < 10 ^ 22" "hidden < 10 ^ 22"
  shows "length (truncation_line (truncation_notes missing hidden)) \<le> 128"
proof -
  have "length (show_nat missing) \<le> 22" "length (show_nat hidden) \<le> 22"
    using assms by (auto intro: show_nat_length)
  then show ?thesis by (auto simp: truncation_line_def truncation_notes_def plural_def)
qed

lemma truncation_notes_empty: "truncation_notes missing hidden = [] \<longleftrightarrow> missing = 0 \<and> hidden = 0"
  by (auto simp: truncation_notes_def)

lemma rendered_card:
  assumes "0 < length (filter changed ops)"
  obtains k body where
    "k \<le> length (filter changed ops)"
    "shown_diff ops budget = join_with [newline] (body
       @ (if truncation_notes (length (filter changed ops) - k) (cut_off (take k (filter changed ops))) = [] then []
          else [truncation_line (truncation_notes (length (filter changed ops) - k) (cut_off (take k (filter changed ops))))]))"
    "subseq (map render_op (take k (filter changed ops))) body"
    "int (text_cost body) \<le> max (budget - 128) 0"
proof -
  let ?xs = "zip ops (kept_lines ops)"
  let ?st = "render_lines (budget - 128) ?xs blank_rendering"
  have fst: "map fst ?xs = ops" by (simp add: length_kept_lines)
  have kept: "\<forall>(x, keep) \<in> set ?xs. changed x \<longrightarrow> keep"
    by (auto simp: set_zip changed_lines_kept length_kept_lines)
  obtain k where k: "renders (filter changed ops) blank_rendering ?st k"
    using render_lines_shows [OF kept] unfolding fst by blast
  then have st: "k \<le> length (filter changed ops)" "r_shown ?st = k" "r_hidden ?st = cut_off (take k (filter changed ops))"
      "subseq (map render_op (take k (filter changed ops))) (r_out ?st)"
    by (auto simp: renders_def blank_rendering_def)
  have "int (text_cost (r_out ?st)) \<le> max (budget - 128) 0"
    using render_lines_cost [of blank_rendering "budget - 128" ?xs] by (simp add: blank_rendering_def)
  moreover have "shown_diff ops budget = join_with [newline] (r_out ?st
       @ (if truncation_notes (length (filter changed ops) - k) (cut_off (take k (filter changed ops))) = [] then []
          else [truncation_line (truncation_notes (length (filter changed ops) - k) (cut_off (take k (filter changed ops))))]))"
    using assms by (simp add: shown_diff_def Let_def st(2,3))
  ultimately show ?thesis using that st by blast
qed

lemma card_length:
  assumes ops: "text_cost (old_lines ops) + text_cost (new_lines ops) < 10 ^ 22" and "128 \<le> budget"
  shows "int (length (shown_diff ops budget)) \<le> budget"
proof (cases "length (filter changed ops) = 0")
  case True
  then show ?thesis using assms(2) by (simp add: shown_diff_def)
next
  case False
  then have "0 < length (filter changed ops)" by simp
  from rendered_card [OF this, of budget] obtain k body where kb:
    "shown_diff ops budget = join_with [newline] (body
       @ (if truncation_notes (length (filter changed ops) - k) (cut_off (take k (filter changed ops))) = [] then []
          else [truncation_line (truncation_notes (length (filter changed ops) - k) (cut_off (take k (filter changed ops))))]))"
    "int (text_cost body) \<le> max (budget - 128) 0" by metis
  define cut_note where "cut_note = truncation_line (truncation_notes (length (filter changed ops) - k) (cut_off (take k (filter changed ops))))"
  have len: "length cut_note \<le> 128" unfolding cut_note_def
    by (rule truncation_line_length) (use ops ops_cost [of ops] cut_off_take [of k "filter changed ops"] in linarith)+
  have join: "int (length (join_with [newline] ls)) \<le> int (text_cost ls)" for ls
    using length_join_lines [of ls newline] by (cases "ls = []") auto
  have "text_cost [cut_note] = length cut_note + 1" by simp
  have "int (length (join_with [newline] (body @ [cut_note]))) \<le> int (text_cost body) + int (length cut_note)"
    using length_join_lines [of "body @ [cut_note]" newline] by simp
  then show ?thesis using kb join [of body] len assms(2) unfolding cut_note_def [symmetric] by (auto split: if_splits)
qed

lemma compact_diff_ops:
  obtains ops where "compact_diff before after budget = Some (shown_diff ops budget)"
    "old_lines ops = split_lines before" "new_lines ops = split_lines after"
proof -
  let ?a = "split_lines before" and ?b = "split_lines after"
  obtain r where r: "line_ops ?a ?b = Some r"
    and ok: "\<And>ops. r = Some ops \<Longrightarrow> old_lines ops = ?a \<and> new_lines ops = ?b"
    using line_ops_result [of ?a ?b] by blast
  show ?thesis
  proof (cases r)
    case None
    with r that [of "map (LineOp Removed) ?a @ map (LineOp Added) ?b"] show ?thesis
      by (simp add: compact_diff_def Let_def)
  next
    case (Some ops)
    with r that [of ops] ok show ?thesis by (simp add: compact_diff_def Let_def)
  qed
qed

text \<open>
  C39: The diff of any two files is always produced (the walk through the table ends), and it
  keeps within its budget when the budget leaves room for the truncation line.
\<close>

theorem card_diff_ends_within_budget:
  assumes "128 \<le> budget" and "text_length before + text_length after < 10 ^ 20"
  shows "\<exists>s. compact_diff before after budget = Some s \<and> int (length s) \<le> budget"
proof -
  obtain ops where ops: "compact_diff before after budget = Some (shown_diff ops budget)"
    "old_lines ops = split_lines before" "new_lines ops = split_lines after"
    by (rule compact_diff_ops)
  have "text_cost (old_lines ops) + text_cost (new_lines ops) < 10 ^ 22"
    unfolding ops using split_lines_cost [of before] split_lines_cost [of after] assms(2) by simp
  from card_length [OF this assms(1)] ops(1) show ?thesis by blast
qed

lemma card_diff_ends_within_budget_witness:
  "\<exists>s. compact_diff None (Some ''be bold'') 300 = Some s \<and> int (length s) \<le> 300"
  by (rule card_diff_ends_within_budget) (simp_all add: text_length_def)

definition full_line :: "line_op \<Rightarrow> string" where
  "full_line x = kind_char (op_kind x) # CHR '' '' # op_line x"

lemma render_op_full: "length (op_line x) \<le> MAX_LINE \<Longrightarrow> render_op x = full_line x"
  by (simp add: render_op_def full_line_def shown_line_def)

lemma cut_off_0: "cut_off xs = 0 \<Longrightarrow> map render_op xs = map full_line xs"
  by (induction xs) (auto simp: render_op_full)

lemma same_lines_no_change: "filter changed ops = [] \<Longrightarrow> old_lines ops = new_lines ops"
proof (induction ops)
  case (Cons x ops)
  then show ?case by (cases x) (auto simp: changed_def split: if_splits)
qed simp

text \<open>
  A card never passes off a part of a change as the whole. The diff shown for two files that
  differ comes from operations turning the one into the other, whose first \<open>k\<close> changed lines appear in
  order; its last line counts the changed lines left out and the characters cut off, and where there
  is no such line every changed line is shown in full.
\<close>

theorem truncation_never_silent:
  assumes "split_lines before \<noteq> split_lines after"
  shows "\<exists>ops k body notes. old_lines ops = split_lines before \<and> new_lines ops = split_lines after
    \<and> compact_diff before after budget
        = Some (join_with [newline] (body @ (if notes = [] then [] else [truncation_line notes])))
    \<and> subseq (map render_op (take k (filter changed ops))) body
    \<and> notes = truncation_notes (length (filter changed ops) - k) (cut_off (take k (filter changed ops)))
    \<and> (notes = [] \<longrightarrow> subseq (map full_line (filter changed ops)) body)"
proof -
  obtain ops where ops: "compact_diff before after budget = Some (shown_diff ops budget)"
    "old_lines ops = split_lines before" "new_lines ops = split_lines after"
    by (rule compact_diff_ops)
  with assms same_lines_no_change have "0 < length (filter changed ops)" by fastforce
  from rendered_card [OF this, of budget] obtain k body where kb: "k \<le> length (filter changed ops)"
    "shown_diff ops budget = join_with [newline] (body
       @ (if truncation_notes (length (filter changed ops) - k) (cut_off (take k (filter changed ops))) = [] then []
          else [truncation_line (truncation_notes (length (filter changed ops) - k) (cut_off (take k (filter changed ops))))]))"
    "subseq (map render_op (take k (filter changed ops))) body" by metis
  have "subseq (map full_line (filter changed ops)) body"
    if "truncation_notes (length (filter changed ops) - k) (cut_off (take k (filter changed ops))) = []"
  proof -
    have "k = length (filter changed ops)" "cut_off (take k (filter changed ops)) = 0"
      using that kb(1) unfolding truncation_notes_empty by auto
    then have "take k (filter changed ops) = filter changed ops" "cut_off (filter changed ops) = 0" by simp_all
    then show ?thesis using kb(3) cut_off_0 [of "filter changed ops"] by simp
  qed
  then show ?thesis
    by (intro exI [of _ ops] exI [of _ k] exI [of _ body]
        exI [of _ "truncation_notes (length (filter changed ops) - k) (cut_off (take k (filter changed ops)))"])
      (simp add: ops kb)
qed

lemma truncation_never_silent_witness:
  "\<exists>ops k body notes. old_lines ops = [] \<and> new_lines ops = [''be bold'']
    \<and> compact_diff None (Some ''be bold'') 130
        = Some (join_with [newline] (body @ (if notes = [] then [] else [truncation_line notes])))
    \<and> subseq (map render_op (take k (filter changed ops))) body
    \<and> notes = truncation_notes (length (filter changed ops) - k) (cut_off (take k (filter changed ops)))"
proof -
  have "split_lines None = []" "split_lines (Some ''be bold'') = [''be bold'']"
    by (simp_all add: split_lines_def newline_def Let_def)
  then have "split_lines None \<noteq> split_lines (Some ''be bold'')" by simp
  from truncation_never_silent [OF this, of 130] show ?thesis
    unfolding \<open>split_lines None = []\<close> \<open>split_lines (Some ''be bold'') = [''be bold'']\<close> by blast
qed

end
