(* ===== verification/GuardFacts.thy ===== *)
theory GuardFacts
  imports InstructionGate DiffFacts
begin

text \<open>
  What the instruction guard promises: a spawn that passes its check runs on approved text, the
  approved text changes only with the owner's write or an approval that covers it, and an approval
  applies exactly what it was raised for.
\<close>

section \<open>The interface's laws\<close>

lemma disk_laws:
  assumes "disk_api_ok api"
  shows "da_open api r segs disk = Inr x \<Longrightarrow> x = disk (r, segs)"
    and "da_lstat api n d = Inr st \<Longrightarrow> \<exists>x. d n = Some x \<and> st_kind st = kind_of x \<and> (\<forall>t. x = Regular t \<longrightarrow> st_size st = length t)"
    and "da_lstat api n d = Inl NotFound \<Longrightarrow> d n = None"
    and "da_read api n d = Inr t \<Longrightarrow> d n = Some (Regular t)"
    and "da_read api n d = Inl NotFound \<Longrightarrow> d n = None"
    and "da_unlink api n d = Inr d' \<Longrightarrow> d' = d(n := None)"
    and "da_replace api n t d = Inr d' \<Longrightarrow> d' = d(n := Some (Regular t))"
    and "fs_rename api n m d = Inr d' \<Longrightarrow> d' = d(n := None, m := d n)"
proof -
  from assms have ops: "\<And>r segs disk x. da_open api r segs disk = Inr x \<Longrightarrow> x = disk (r, segs)"
      "\<And>n d d'. da_unlink api n d = Inr d' \<Longrightarrow> d' = d(n := None)"
      "\<And>n t d d'. da_replace api n t d = Inr d' \<Longrightarrow> d' = d(n := Some (Regular t))"
      "\<And>n m d d'. fs_rename api n m d = Inr d' \<Longrightarrow> d' = d(n := None, m := d n)"
    unfolding disk_api_ok_def by blast+
  from assms have lstat: "case da_lstat api n d of
             Inr st \<Rightarrow> (case d n of None \<Rightarrow> False
               | Some x \<Rightarrow> st_kind st = kind_of x \<and> (\<forall>t. x = Regular t \<longrightarrow> st_size st = length t))
           | Inl NotFound \<Rightarrow> d n = None
           | Inl (Raised _) \<Rightarrow> True" for n d
    unfolding disk_api_ok_def by blast
  from assms have read: "case da_read api n d of
             Inr t \<Rightarrow> d n = Some (Regular t) | Inl NotFound \<Rightarrow> d n = None | Inl (Raised _) \<Rightarrow> True" for n d
    unfolding disk_api_ok_def by blast
  show "da_open api r segs disk = Inr x \<Longrightarrow> x = disk (r, segs)" by (rule ops)
  show "da_lstat api n d = Inr st \<Longrightarrow> \<exists>x. d n = Some x \<and> st_kind st = kind_of x \<and> (\<forall>t. x = Regular t \<longrightarrow> st_size st = length t)"
    using lstat [where n = n and d = d] by (auto split: option.splits)
  show "da_lstat api n d = Inl NotFound \<Longrightarrow> d n = None" using lstat [where n = n and d = d] by simp
  show "da_read api n d = Inr t \<Longrightarrow> d n = Some (Regular t)" using read [where n = n and d = d] by simp
  show "da_read api n d = Inl NotFound \<Longrightarrow> d n = None" using read [where n = n and d = d] by simp
  show "da_unlink api n d = Inr d' \<Longrightarrow> d' = d(n := None)" by (rule ops)
  show "da_replace api n t d = Inr d' \<Longrightarrow> d' = d(n := Some (Regular t))" by (rule ops)
  show "fs_rename api n m d = Inr d' \<Longrightarrow> d' = d(n := None, m := d n)" by (rule ops)
qed

text \<open>A disk on which every call succeeds.\<close>

definition plain_disk :: disk_api where
  "plain_disk =
     \<lparr>da_open = (\<lambda>r segs disk. Inr (disk (r, segs))),
      da_lstat = (\<lambda>n d. case d n of None \<Rightarrow> Inl NotFound
        | Some x \<Rightarrow> Inr \<lparr>st_kind = kind_of x, st_size = (case x of Regular t \<Rightarrow> length t | _ \<Rightarrow> 0)\<rparr>),
      da_read = (\<lambda>n d. case d n of None \<Rightarrow> Inl NotFound | Some (Regular t) \<Rightarrow> Inr t | _ \<Rightarrow> Inl (Raised ''ELOOP'')),
      da_unlink = (\<lambda>n d. Inr (d(n := None))),
      da_replace = (\<lambda>n t d. Inr (d(n := Some (Regular t)))),
      fs_rename = (\<lambda>n m d. Inr (d(n := None, m := d n)))\<rparr>"

lemma plain_disk_ok [simp]: "disk_api_ok plain_disk"
  by (auto simp: disk_api_ok_def plain_disk_def split: option.splits node.splits)

section \<open>What an operation on one guarded file may touch\<close>

definition loc_of :: "group_ref \<Rightarrow> guarded_file \<Rightarrow> root \<times> string list" where
  "loc_of g f = (root_of g f, gf_segments f)"

definition aside_name :: "millis \<Rightarrow> guarded_file \<Rightarrow> string" where
  "aside_name now f = gf_name f @ ''.refused-'' @ show_int now"

definition touches :: "millis \<Rightarrow> group_ref \<Rightarrow> guarded_file \<Rightarrow> guard_world \<Rightarrow> guard_world \<Rightarrow> bool" where
  "touches now g f w w' \<longleftrightarrow>
     (\<forall>k. k \<noteq> (gr_id g, gf_id f) \<longrightarrow> gw_base w' k = gw_base w k)
     \<and> (\<forall>l. rel_option (\<lambda>d d'. \<forall>n. (l = loc_of g f \<longrightarrow> n \<noteq> gf_name f \<and> n \<noteq> aside_name now f) \<longrightarrow> d' n = d n)
              (gw_disk w l) (gw_disk w' l))"

lemma touches_refl [simp]: "touches now g f w w"
  by (auto simp: touches_def rel_option_iff split: option.split)

lemma touches_trans:
  assumes "touches now g f w w1" "touches now g f w1 w2"
  shows "touches now g f w w2"
proof -
  have "rel_option (\<lambda>d d'. \<forall>n. (l = loc_of g f \<longrightarrow> n \<noteq> gf_name f \<and> n \<noteq> aside_name now f) \<longrightarrow> d' n = d n)
          (gw_disk w l) (gw_disk w2 l)" for l
  proof -
    from assms have "rel_option (\<lambda>d d'. \<forall>n. (l = loc_of g f \<longrightarrow> n \<noteq> gf_name f \<and> n \<noteq> aside_name now f) \<longrightarrow> d' n = d n) (gw_disk w l) (gw_disk w1 l)"
      "rel_option (\<lambda>d d'. \<forall>n. (l = loc_of g f \<longrightarrow> n \<noteq> gf_name f \<and> n \<noteq> aside_name now f) \<longrightarrow> d' n = d n) (gw_disk w1 l) (gw_disk w2 l)"
      unfolding touches_def by blast+
    then show ?thesis by (auto simp: option_rel_Some1 option_rel_Some2 elim!: option.rel_cases)
  qed
  with assms show ?thesis by (simp add: touches_def)
qed

lemma touches_base:
  "(\<And>k. k \<noteq> (gr_id g, gf_id f) \<Longrightarrow> gw_base w' k = gw_base w k) \<Longrightarrow> gw_disk w' = gw_disk w \<Longrightarrow> touches now g f w w'"
  by (auto simp: touches_def rel_option_iff split: option.split)

lemma touches_dir:
  assumes "gw_base w' = gw_base w" "gw_disk w (loc_of g f) = Some d" "gw_disk w' = (gw_disk w)(loc_of g f := Some d')"
    "\<And>n. n \<noteq> gf_name f \<Longrightarrow> n \<noteq> aside_name now f \<Longrightarrow> d' n = d n"
  shows "touches now g f w w'"
  using assms by (auto simp: touches_def rel_option_iff split: option.split)

section \<open>The operations on the live file\<close>

lemma observe_effect:
  assumes "disk_api_ok api" "observe api swap name d = (r, d1)"
  shows "(\<forall>n. n \<noteq> name \<longrightarrow> d1 n = d n)
    \<and> (\<forall>c. r = Inr (Content c) \<longrightarrow> (case d1 name of None \<Rightarrow> c = None | Some (Regular t) \<Rightarrow> c = normalize (Some t) | _ \<Rightarrow> False))"
  using assms(2) disk_laws [OF assms(1)] unfolding observe_def
  by (auto split: sum.splits fs_error.splits if_splits option.splits node.splits simp: Let_def) (fastforce+)?

lemma clear_entry_effect:
  assumes "disk_api_ok api" "clear_entry api now (gf_name f) content d = Inr d1"
  shows "(\<forall>n. n \<noteq> gf_name f \<longrightarrow> n \<noteq> aside_name now f \<longrightarrow> d1 n = d n) \<and> (content = None \<longrightarrow> d1 (gf_name f) = None)"
  using assms(2) unfolding clear_entry_def
  by (auto split: sum.splits fs_error.splits if_splits simp: aside_name_def
      dest!: disk_laws(3,6,8) [OF assms(1)] dest: disk_laws(2) [OF assms(1)])

text \<open>The text the live file stands for.\<close>

definition live_is :: "group_ref \<Rightarrow> guarded_file \<Rightarrow> string option \<Rightarrow> guard_world \<Rightarrow> bool" where
  "live_is g f c w = (case gw_disk w (loc_of g f) of None \<Rightarrow> False
     | Some d \<Rightarrow> (case d (gf_name f) of None \<Rightarrow> c = None | Some (Regular t) \<Rightarrow> c = normalize (Some t) | _ \<Rightarrow> False))"

lemma set_dir_simps [simp]:
  "gw_base (set_dir r segs d w) = gw_base w" "gw_held (set_dir r segs d w) = gw_held w"
  "gw_audit (set_dir r segs d w) = gw_audit w" "gw_disk (set_dir r segs d w) = (gw_disk w)((r, segs) := Some d)"
  by (simp_all add: set_dir_def)

lemma put_content_effect:
  assumes ok: "disk_api_ok api" and put: "put_content api now g f content w = (e, w')"
  shows "touches now g f w w' \<and> gw_base w' = gw_base w \<and> gw_held w' = gw_held w \<and> gw_audit w' = gw_audit w
    \<and> (e = None \<longrightarrow> live_is g f (normalize content) w')"
proof (cases "da_open api (root_of g f) (gf_segments f) (gw_disk w)")
  case (Inl x)
  with put show ?thesis by (auto simp: put_content_def)
next
  case (Inr od)
  then have od: "gw_disk w (loc_of g f) = od" using disk_laws(1) [OF ok Inr] by (simp add: loc_of_def)
  show ?thesis
  proof (cases od)
    case None
    with Inr put show ?thesis by (auto simp: put_content_def)
  next
    case (Some d)
    show ?thesis
    proof (cases "clear_entry api now (gf_name f) content d")
      case (Inl x)
      with Inr Some put show ?thesis by (auto simp: put_content_def)
    next
      case clear: (Inr d1)
      note d1 = clear_entry_effect [OF ok clear]
      have t: "touches now g f w (set_dir (root_of g f) (gf_segments f) d2 w)"
        if "\<And>n. n \<noteq> gf_name f \<Longrightarrow> n \<noteq> aside_name now f \<Longrightarrow> d2 n = d n" for d2
        using that od Some by (intro touches_dir [where d = d and d' = d2]) (auto simp: loc_of_def)
      show ?thesis
      proof (cases content)
        case None
        with Inr Some clear put have "w' = set_dir (root_of g f) (gf_segments f) d1 w" "e = None"
          by (auto simp: put_content_def)
        with d1 None t [of d1] show ?thesis by (simp add: live_is_def loc_of_def normalize_def)
      next
        case c: (Some txt_of)
        show ?thesis
        proof (cases "da_replace api (gf_name f) txt_of d1")
          case (Inl x)
          with Inr Some clear put c have "w' = set_dir (root_of g f) (gf_segments f) d1 w" "e = Some x"
            by (auto simp: put_content_def)
          with d1 t [of d1] show ?thesis by simp
        next
          case new: (Inr d2)
          with Inr Some clear put c have "w' = set_dir (root_of g f) (gf_segments f) d2 w" "e = None"
            by (auto simp: put_content_def)
          moreover have "d2 = d1(gf_name f := Some (Regular txt_of))" by (rule disk_laws(7) [OF ok new])
          ultimately show ?thesis using d1 t [of d2] c by (simp add: live_is_def loc_of_def)
        qed
      qed
    qed
  qed
qed

section \<open>The check of one file\<close>

text \<open>A recorded baseline is of normalised content, and its digest is that content's.\<close>

definition store_ok :: "(string \<Rightarrow> string) \<Rightarrow> guard_world \<Rightarrow> bool" where
  "store_ok sha w \<longleftrightarrow> (\<forall>k b. gw_base w k = Some b \<longrightarrow> b_sha b = digest sha (b_content b) \<and> normalize (b_content b) = b_content b)"

lemma normalize_idem [simp]: "normalize (normalize c) = normalize c"
  by (auto simp: normalize_def split: option.splits)

lemma save_baseline_simps [simp]:
  "gw_disk (save_baseline sha now gid fid c w) = gw_disk w"
  "gw_held (save_baseline sha now gid fid c w) = gw_held w"
  "gw_audit (save_baseline sha now gid fid c w) = gw_audit w"
  "gw_base (save_baseline sha now gid fid c w) =
     (gw_base w)((gid, fid) := Some \<lparr>b_sha = digest sha (normalize c), b_content = normalize c, b_at = now\<rparr>)"
  by (simp_all add: save_baseline_def Let_def)

lemma store_ok_save [simp]: "store_ok sha w \<Longrightarrow> store_ok sha (save_baseline sha now gid fid c w)"
  by (simp add: store_ok_def)

lemma store_ok_cong: "store_ok sha w \<Longrightarrow> gw_base w' = gw_base w \<Longrightarrow> store_ok sha w'"
  by (simp add: store_ok_def)

text \<open>The baseline and the live file agree.\<close>

definition approved_live :: "(string \<Rightarrow> string) \<Rightarrow> group_ref \<Rightarrow> guarded_file \<Rightarrow> guard_world \<Rightarrow> bool" where
  "approved_live sha g f w \<longleftrightarrow>
     (\<exists>b c. gw_base w (gr_id g, gf_id f) = Some b \<and> live_is g f c w \<and> digest sha c = b_sha b)"

lemma put_back_effect:
  assumes "disk_api_ok api" "put_back api now g f approved c w = (e, r, w')"
  shows "touches now g f w w' \<and> gw_base w' = gw_base w \<and> gw_held w' = gw_held w
    \<and> (e = None \<longrightarrow> live_is g f (normalize approved) w' \<and> r = Some c)"
proof -
  obtain e1 w1 where p: "put_content api now g f approved w = (e1, w1)" by fastforce
  have "touches now g f w1 (audit_change g c w1)" by (rule touches_base) (simp_all add: audit_change_def)
  moreover have "live_is g f x (audit_change g c w1) = live_is g f x w1" for x
    by (simp add: live_is_def audit_change_def)
  ultimately show ?thesis
    using put_content_effect [OF assms(1) p] assms(2) touches_trans [of now g f w w1 "audit_change g c w1"]
    by (auto simp: put_back_def p audit_change_def split: option.splits)
qed

lemma keep_held_simps [simp]:
  "gw_base (keep_held h w) = gw_base w" "gw_disk (keep_held h w) = gw_disk w" "gw_audit (keep_held h w) = gw_audit w"
  "gw_held (keep_held h w) = tbl_insert_new h_key h (gw_held w)"
  by (simp_all add: keep_held_def)

lemma compare_file_effect:
  assumes ok: "disk_api_ok api" and cmp: "compare_file sha api now g f b seen w = (e, r, w')"
    and b: "gw_base w (gr_id g, gf_id f) = Some b" "store_ok sha w"
    and seen: "\<And>c. seen = Content c \<Longrightarrow> live_is g f c w"
  shows "touches now g f w w' \<and> gw_base w' = gw_base w \<and> (e = None \<longrightarrow> approved_live sha g f w')"
proof -
  have good: "b_sha b = digest sha (b_content b)" "normalize (b_content b) = b_content b"
    using b by (auto simp: store_ok_def)
  have put: "touches now g f w w'' \<and> gw_base w'' = gw_base w \<and> (e' = None \<longrightarrow> approved_live sha g f w'')"
    if "put_back api now g f (b_content b) ch w1 = (e', r', w'')" "gw_base w1 = gw_base w" "gw_disk w1 = gw_disk w"
    for ch w1 e' r' w''
  proof -
    have "touches now g f w w1" using that by (intro touches_base) simp_all
    then show ?thesis using put_back_effect [OF ok that(1)] that(2) good b(1)
      by (auto simp: approved_live_def dest: touches_trans)
  qed
  show ?thesis
  proof (cases seen)
    case (Content c)
    show ?thesis
    proof (cases "digest sha c = b_sha b")
      case True
      with Content cmp seen b show ?thesis by (auto simp: compare_file_def approved_live_def)
    next
      case False
      show ?thesis
      proof (cases "held_path (gr_id g) (gf_id f) (digest sha c)")
        case (Inl x)
        with False Content cmp show ?thesis by (auto simp: compare_file_def)
      next
        case (Inr k)
        with False Content cmp show ?thesis by (auto simp: compare_file_def dest: put)
      qed
    qed
  next
    case (Foreign what)
    with cmp show ?thesis by (auto simp: compare_file_def dest: put)
  next
    case (Oversize n)
    with cmp show ?thesis by (auto simp: compare_file_def dest: put)
  qed
qed

text \<open>Only a missing baseline is written.\<close>

definition keeps_baselines :: "guard_world \<Rightarrow> guard_world \<Rightarrow> bool" where
  "keeps_baselines w w' \<longleftrightarrow> (\<forall>k b. gw_base w k = Some b \<longrightarrow> gw_base w' k = Some b)"

lemma keeps_baselines_refl [simp]: "gw_base w' = gw_base w \<Longrightarrow> keeps_baselines w w'"
  by (simp add: keeps_baselines_def)

lemma keeps_baselines_save: "gw_base w (gid, fid) = None \<Longrightarrow> gw_base w1 = gw_base w
    \<Longrightarrow> gw_base w' = gw_base (save_baseline sha now gid fid c w1) \<Longrightarrow> keeps_baselines w w'"
  by (auto simp: keeps_baselines_def)

lemma check_file_effect:
  assumes ok: "disk_api_ok api" and chk: "check_file sha api swap now g f w = (e, r, w')" and st: "store_ok sha w"
  shows "touches now g f w w' \<and> store_ok sha w' \<and> keeps_baselines w w'
    \<and> (e = None \<longrightarrow> gw_disk w (loc_of g f) \<noteq> None \<longrightarrow> approved_live sha g f w')"
proof (cases "da_open api (root_of g f) (gf_segments f) (gw_disk w)")
  case (Inl x)
  with chk st show ?thesis by (auto simp: check_file_def)
next
  case (Inr od)
  then have od: "gw_disk w (loc_of g f) = od" using disk_laws(1) [OF ok Inr] by (simp add: loc_of_def)
  show ?thesis
  proof (cases od)
    case None
    with Inr od chk st show ?thesis
      by (auto simp: check_file_def read_baseline_def Let_def intro!: touches_base keeps_baselines_save split: option.splits if_splits)
  next
    case (Some d)
    obtain ob d1 where ob: "observe api swap (gf_name f) d = (ob, d1)" by fastforce
    note oe = observe_effect [OF ok ob]
    define w1 where "w1 = set_dir (root_of g f) (gf_segments f) d1 w"
    have w1: "gw_base w1 = gw_base w" "touches now g f w w1" "store_ok sha w1"
      using oe od Some st by (auto simp: w1_def loc_of_def store_ok_def intro!: touches_dir)
    have seen: "live_is g f c w1" if "ob = Inr (Content c)" for c
      using oe that by (simp add: live_is_def w1_def loc_of_def split: option.splits node.splits)
    have chk1: "check_file sha api swap now g f w =
       (case ob of Inl e \<Rightarrow> (Some e, None, w1)
        | Inr seen \<Rightarrow> (case read_baseline (gr_id g) (gf_id f) w1 of
             Inl e \<Rightarrow> (Some e, None, w1)
           | Inr (Some b) \<Rightarrow> compare_file sha api now g f b seen w1
           | Inr None \<Rightarrow> (case seen of Content c \<Rightarrow> (None, None, save_baseline sha now (gr_id g) (gf_id f) c w1)
               | _ \<Rightarrow> (let w2 = save_baseline sha now (gr_id g) (gf_id f) None w1
                      in compare_file sha api now g f (the (gw_base w2 (gr_id g, gf_id f))) seen w2))))"
      unfolding check_file_def Let_def w1_def by (simp add: Inr Some ob)
    show ?thesis
    proof (cases ob)
      case (Inl x)
      with chk1 chk w1 show ?thesis by auto
    next
      case obs: (Inr sn)
      show ?thesis
      proof (cases "read_baseline (gr_id g) (gf_id f) w1")
        case (Inl x)
        with obs chk1 chk w1 show ?thesis by auto
      next
        case base: (Inr ob)
        then have ob: "gw_base w1 (gr_id g, gf_id f) = ob" by (auto simp: read_baseline_def split: if_splits)
        show ?thesis
        proof (cases ob)
          case (Some b)
          then have "compare_file sha api now g f b sn w1 = (e, r, w')" using base obs chk1 chk by simp
          from compare_file_effect [OF ok this] seen obs ob Some w1
          show ?thesis by (auto dest: touches_trans store_ok_cong)
        next
          case None
          define w2 where "w2 = save_baseline sha now (gr_id g) (gf_id f) (case sn of Content c \<Rightarrow> c | _ \<Rightarrow> None) w1"
          have t2: "touches now g f w w2"
            unfolding w2_def by (rule touches_trans [OF w1(2) touches_base]) auto
          have k2: "keeps_baselines w w2" "store_ok sha w2" "\<And>c. live_is g f c w2 = live_is g f c w1"
            using ob None w1 by (auto simp: w2_def live_is_def intro!: keeps_baselines_save)
          show ?thesis
          proof (cases "\<exists>c. sn = Content c")
            case True
            then obtain c where c: "sn = Content c" by blast
            have "w' = w2" using base obs chk1 chk None c by (simp add: w2_def)
            moreover have "approved_live sha g f w2"
            proof -
              have lv: "live_is g f c w2" using seen obs c k2 by simp
              then have "normalize c = c" by (auto simp: live_is_def normalize_def split: option.splits node.splits)
              with lv show ?thesis by (auto simp: approved_live_def w2_def c)
            qed
            ultimately show ?thesis using t2 k2 by simp
          next
            case False
            then have "compare_file sha api now g f (the (gw_base w2 (gr_id g, gf_id f))) sn w2 = (e, r, w')"
              using base obs chk1 chk None by (cases sn) (auto simp: w2_def Let_def)
            moreover obtain b where "gw_base w2 (gr_id g, gf_id f) = Some b" by (simp add: w2_def)
            ultimately have "touches now g f w2 w' \<and> gw_base w' = gw_base w2 \<and> (e = None \<longrightarrow> approved_live sha g f w')"
              using compare_file_effect [OF ok, of sha now g f b sn w2 e r w'] k2(2) False by auto
            then show ?thesis using t2 k2 by (auto simp: keeps_baselines_def dest: touches_trans store_ok_cong)
          qed
        qed
      qed
    qed
  qed
qed

section \<open>The check of all files\<close>

definition separate :: "millis \<Rightarrow> group_ref \<Rightarrow> guarded_file \<Rightarrow> guarded_file \<Rightarrow> bool" where
  "separate now g f f' \<longleftrightarrow> gf_id f \<noteq> gf_id f'
     \<and> (loc_of g f = loc_of g f' \<longrightarrow> gf_name f \<noteq> gf_name f' \<and> gf_name f \<noteq> aside_name now f')"

lemma approved_live_kept:
  assumes "touches now g f' w w'" "separate now g f f'" "approved_live sha g f w"
  shows "approved_live sha g f w'"
proof -
  from assms(3) obtain b c where b: "gw_base w (gr_id g, gf_id f) = Some b" "digest sha c = b_sha b"
    and live: "live_is g f c w" by (auto simp: approved_live_def)
  then obtain d where d: "gw_disk w (loc_of g f) = Some d"
    by (cases "gw_disk w (loc_of g f)") (auto simp: live_is_def)
  from assms(1) have "rel_option (\<lambda>d d'. \<forall>n. (loc_of g f = loc_of g f' \<longrightarrow> n \<noteq> gf_name f' \<and> n \<noteq> aside_name now f') \<longrightarrow> d' n = d n)
              (gw_disk w (loc_of g f)) (gw_disk w' (loc_of g f))" unfolding touches_def by blast
  then obtain d' where d': "gw_disk w' (loc_of g f) = Some d'" "d' (gf_name f) = d (gf_name f)"
    using d assms(2) by (auto simp: option_rel_Some1 separate_def)
  have "gw_base w' (gr_id g, gf_id f) = Some b" using assms(1,2) b by (simp add: touches_def separate_def)
  moreover have "live_is g f c w'" using live d d' by (simp add: live_is_def)
  ultimately show ?thesis using b by (auto simp: approved_live_def)
qed

lemma touches_dirs: "touches now g f w w' \<Longrightarrow> gw_disk w' l = None \<longleftrightarrow> gw_disk w l = None"
  unfolding touches_def option.rel_sel by blast

lemma check_files_effect:
  assumes ok: "disk_api_ok api" and "check_files sha api swap now g fs w = (r, w')" and "store_ok sha w"
    and "\<And>f f'. f \<in> set fs \<Longrightarrow> f' \<in> set fs \<Longrightarrow> f \<noteq> f' \<Longrightarrow> separate now g f f'" and "distinct fs"
  shows "store_ok sha w' \<and> keeps_baselines w w'
    \<and> (\<forall>f. (\<forall>f' \<in> set fs. separate now g f f') \<longrightarrow> approved_live sha g f w \<longrightarrow> approved_live sha g f w')
    \<and> (\<forall>cs. r = Inr cs \<longrightarrow> (\<forall>f \<in> set fs. gw_disk w (loc_of g f) \<noteq> None \<longrightarrow> approved_live sha g f w'))"
  using assms(2-)
proof (induction fs arbitrary: w r w')
  case Nil
  then show ?case by simp
next
  case (Cons f fs)
  obtain e c w1 where c1: "check_file sha api (swap (gf_id f)) now g f w = (e, c, w1)" by (metis prod_cases3)
  note e1 = check_file_effect [OF ok c1 Cons.prems(2)]
  show ?case
  proof (cases e)
    case (Some x)
    with Cons.prems(1) c1 have "r = Inl x" "w' = w1" by auto
    with e1 show ?thesis by (auto intro: approved_live_kept)
  next
    case None
    obtain r2 w2 where c2: "check_files sha api swap now g fs w1 = (r2, w2)" by fastforce
    have "store_ok sha w1" using e1 by blast
    from Cons.IH [OF c2 this] Cons.prems(3,4)
    have IH: "store_ok sha w2" "keeps_baselines w1 w2"
      "\<And>h. (\<forall>f' \<in> set fs. separate now g h f') \<Longrightarrow> approved_live sha g h w1 \<Longrightarrow> approved_live sha g h w2"
      "\<And>cs h. r2 = Inr cs \<Longrightarrow> h \<in> set fs \<Longrightarrow> gw_disk w1 (loc_of g h) \<noteq> None \<Longrightarrow> approved_live sha g h w2"
      by auto
    have w': "w' = w2" and r: "\<And>cs. r = Inr cs \<Longrightarrow> \<exists>cs2. r2 = Inr cs2"
      using Cons.prems(1) c1 None c2 by (auto split: sum.splits)
    have dirs: "gw_disk w1 l = None \<longleftrightarrow> gw_disk w l = None" for l using e1 touches_dirs by blast
    have k: "keeps_baselines w w2" using e1 IH(2) by (simp add: keeps_baselines_def)
    have keep: "approved_live sha g h w'" if "\<forall>f' \<in> set (f # fs). separate now g h f'" "approved_live sha g h w" for h
      using that e1 IH(3) w' approved_live_kept [of now g f w w1 h sha] by simp
    have all: "approved_live sha g h w'" if "r = Inr cs" "h \<in> set (f # fs)" "gw_disk w (loc_of g h) \<noteq> None" for cs h
    proof (cases "h = f")
      case True
      with e1 None that have "approved_live sha g h w1" by blast
      moreover have "\<forall>f' \<in> set fs. separate now g h f'" using Cons.prems(3,4) True by auto
      ultimately show ?thesis using IH(3) w' by blast
    next
      case False
      with that r IH(4) dirs w' show ?thesis by auto
    qed
    show ?thesis using IH(1) k keep all w' by blast
  qed
qed

lemma guarded_files_separate: "f \<in> set GUARDED_FILES \<Longrightarrow> f' \<in> set GUARDED_FILES \<Longrightarrow> f \<noteq> f' \<Longrightarrow> separate now g f f'"
proof -
  have "list_all (\<lambda>f. list_all (\<lambda>f'. f = f' \<or> separate now g f f') GUARDED_FILES) GUARDED_FILES"
    by (simp add: GUARDED_FILES_def separate_def aside_name_def loc_of_def root_of_def)
  then show "f \<in> set GUARDED_FILES \<Longrightarrow> f' \<in> set GUARDED_FILES \<Longrightarrow> f \<noteq> f' \<Longrightarrow> separate now g f f'"
    by (auto simp: list_all_iff)
qed

lemma guarded_files_distinct: "distinct GUARDED_FILES"
  unfolding GUARDED_FILES_def by simp

lemma check_effect:
  assumes "disk_api_ok api" "check_instruction_files sha api swap now g w = (r, w')" "store_ok sha w"
  shows "store_ok sha w' \<and> keeps_baselines w w'
    \<and> (\<forall>cs f. r = Inr cs \<longrightarrow> f \<in> set GUARDED_FILES \<longrightarrow> gw_disk w (loc_of g f) \<noteq> None \<longrightarrow> approved_live sha g f w')"
  using check_files_effect [OF assms(1) _ assms(3) guarded_files_separate guarded_files_distinct, of swap now g r w']
    assms(2) unfolding check_instruction_files_def by blast

end
