(* ===== verification/InstructionFacts.thy ===== *)
theory InstructionFacts
  imports GuardFacts
begin

text \<open>
  The instruction guard as a whole: its steps under any interleaving with the agent's own writes, and
  the theorems about spawns, approvals and held copies.
\<close>

text \<open>
  C29: A spawn whose check passes runs on approved text. Every guarded file whose directory exists is absent
  or a regular file, its content has the digest of the recorded baseline, and a baseline that was there
  before is the one still there.
\<close>

theorem spawn_runs_on_approved_text:
  assumes "disk_api_ok api" and "store_ok sha w"
    and "check_instruction_files sha api swap now g w = (Inr cs, w')"
    and "f \<in> set GUARDED_FILES" and "gw_disk w (loc_of g f) \<noteq> None"
  shows "\<exists>b c. gw_base w' (gr_id g, gf_id f) = Some b \<and> live_is g f c w' \<and> digest sha c = b_sha b
    \<and> (\<forall>b0. gw_base w (gr_id g, gf_id f) = Some b0 \<longrightarrow> b = b0)"
proof -
  have "keeps_baselines w w'" "approved_live sha g f w'"
    using check_effect [OF assms(1,3,2)] assms(4,5) by blast+
  then show ?thesis by (fastforce simp: approved_live_def keeps_baselines_def)
qed

section \<open>Approvals\<close>

text \<open>A held action is allowed only on a grant that covers the request; a group is looked up by its id.\<close>

definition guard_ok :: "guard_fn \<Rightarrow> bool" where
  "guard_ok guarded \<longleftrightarrow> fst (guarded Hold (Some False)) \<noteq> Allow \<and> fst (guarded Hold None) \<noteq> Allow"

definition lookup_ok :: "(string \<Rightarrow> group_ref option) \<Rightarrow> bool" where
  "lookup_ok get_group \<longleftrightarrow> (\<forall>i g. get_group i = Some g \<longrightarrow> gr_id g = i)"

lemma drop_held_simps [simp]:
  "gw_base (drop_held k w) = gw_base w" "gw_disk (drop_held k w) = gw_disk w"
  "gw_held (drop_held k w) = tbl_delete (\<lambda>h. h_key h = k) (gw_held w)" "gw_audit (drop_held k w) = gw_audit w"
  by (simp_all add: drop_held_def)

lemma file_specD: "file_spec fid = Some f \<Longrightarrow> f \<in> set GUARDED_FILES \<and> gf_id f = fid"
  by (auto simp: file_spec_def dest: find_SomeD)

lemma file_spec_named: "file_spec (js_string x) = Some f \<Longrightarrow> x = Some (gf_id f)"
proof -
  assume f: "file_spec (js_string x) = Some f"
  have "file_spec ''undefined'' = None" by (simp add: file_spec_def GUARDED_FILES_def)
  with f show "x = Some (gf_id f)" by (cases x) (auto simp: js_string_def dest: file_specD)
qed

text \<open>The decision leaves the state alone, or it applied the held copy.\<close>

lemma approve_change_cases:
  assumes ok: "disk_api_ok api" and app: "approve_change sha api guarded get_group sg p approval now w = (res, w')"
  obtains (untouched) "\<not> ar_restart res" "w' = w"
  | (stuck) g f where "\<not> ar_restart res" "get_group sg = Some g" "touches now g f w w'" "gw_base w' = gw_base w" "gw_held w' = gw_held w"
  | (applied) g f h where "ar_restart res" "get_group sg = Some g"
      "fst (guarded Hold (Some (same_change (aw_payload approval) p))) = Allow"
      "cp_group p = Some sg" "cp_file p = Some (gf_id f)" "f \<in> set GUARDED_FILES"
      "tbl_get h_key (sg, gf_id f, digest sha (h_content h)) (gw_held w) = Some h"
      "cp_sha p = Some (digest sha (h_content h))"
      "gw_base w' = (gw_base w)((gr_id g, gf_id f) := Some \<lparr>b_sha = digest sha (normalize (h_content h)),
           b_content = normalize (h_content h), b_at = now\<rparr>)"
      "gw_held w' = tbl_delete (\<lambda>x. h_key x = h_key h) (gw_held w)"
      "live_is g f (normalize (h_content h)) w'"
proof -
  obtain eff why ap where gd: "guarded Hold (Some (same_change (aw_payload approval) p)) = (eff, why, ap)"
    by (metis prod_cases3)
  note unfold = approve_change_def instruction_decision_def gd Let_def
  show ?thesis
  proof (cases "eff = Allow \<and> cp_group p = Some sg")
    case False
    with app have "res = not_applied (why @ ''.'') \<or> res = not_applied ''it belongs to another agent.''" "w' = w"
      by (auto simp: unfold split: if_splits)
    then have "\<not> ar_restart res \<and> w' = w" by (auto simp: not_applied_def)
    then show ?thesis using untouched by blast
  next
    case auth: True
    show ?thesis
    proof (cases "file_spec (js_string (cp_file p))")
      case None
      with app auth have "\<not> ar_restart res \<and> w' = w" by (auto simp: unfold failed_def)
      then show ?thesis using untouched by blast
    next
      case f: (Some f)
      show ?thesis
      proof (cases "held_path sg (gf_id f) (js_string (cp_sha p))")
        case (Inl e)
        with app auth f have "\<not> ar_restart res \<and> w' = w" by (auto simp: unfold failed_def)
        then show ?thesis using untouched by blast
      next
        case k: (Inr k)
        then have kk: "k = (sg, gf_id f, js_string (cp_sha p))" and hex: "hex_digest (js_string (cp_sha p))"
          by (auto simp: held_path_def split: if_splits)
        show ?thesis
        proof (cases "\<exists>h g. tbl_get h_key k (gw_held w) = Some h \<and> get_group sg = Some g
                        \<and> digest sha (h_content h) = js_string (cp_sha p)")
          case False
          with app auth f k have "\<not> ar_restart res \<and> w' = w"
            by (auto simp: unfold split: option.splits if_splits)
          then show ?thesis using untouched by blast
        next
          case True
          then obtain h g where h: "tbl_get h_key k (gw_held w) = Some h" "get_group sg = Some g"
            "digest sha (h_content h) = js_string (cp_sha p)" by blast
          obtain e w1 where put: "put_content api now g f (h_content h) w = (e, w1)" by fastforce
          note pe = put_content_effect [OF ok put]
          show ?thesis
          proof (cases e)
            case (Some x)
            with app auth f k h put have "\<not> ar_restart res \<and> w' = w1" by (auto simp: unfold failed_def)
            with pe h stuck [of g f] show ?thesis by blast
          next
            case None
            have "cp_sha p \<noteq> None" using hex by (cases "cp_sha p") (auto simp: js_string_def hex_digest_def)
            then have s: "cp_sha p = Some (digest sha (h_content h))" using h(3) by (auto simp: js_string_def)
            have hk: "h_key h = k" using h(1) by (auto dest: tbl_get_SomeD)
            have res: "ar_restart res" and w': "w' = (drop_held k (save_baseline sha now (gr_id g) (gf_id f) (h_content h) w1))
                \<lparr>gw_audit := gw_audit w1 @ [Applied (gr_id g) (gf_id f) (js_string (cp_sha p)) (aw_id approval)]\<rparr>"
              using app auth f k h put None by (auto simp: unfold)
            show ?thesis
            proof (rule applied [of g f h])
              show "ar_restart res" by (rule res)
              show "fst (guarded Hold (Some (same_change (aw_payload approval) p))) = Allow" using gd auth by simp
              show "live_is g f (normalize (h_content h)) w'" using pe None unfolding w' by (simp add: live_is_def)
              show "cp_file p = Some (gf_id f)" by (rule file_spec_named [OF f])
              show "f \<in> set GUARDED_FILES" using file_specD [OF f] by simp
              show "tbl_get h_key (sg, gf_id f, digest sha (h_content h)) (gw_held w) = Some h" using h(1,3) kk by simp
              show "gw_held w' = tbl_delete (\<lambda>x. h_key x = h_key h) (gw_held w)" unfolding w' hk using pe by simp
              show "gw_base w' = (gw_base w)((gr_id g, gf_id f) := Some \<lparr>b_sha = digest sha (normalize (h_content h)),
                  b_content = normalize (h_content h), b_at = now\<rparr>)" unfolding w' using pe by simp
            qed (use auth h(2) s in simp_all)
          qed
        qed
      qed
    qed
  qed
qed

text \<open>
  C26: An approval applies exactly what it was raised for. When it takes effect, its grant names the same group,
  file and digest as the request, the group is the session's own, the held copy has that digest, and that
  copy's text is now both the live file and the baseline; the copy is gone.
\<close>

theorem approval_applies_held_text:
  assumes "disk_api_ok api" and "guard_ok guarded" and "lookup_ok get_group"
    and "approve_change sha api guarded get_group sg p approval now w = (res, w')" and "ar_restart res"
  shows "\<exists>g f h. same_change (aw_payload approval) p \<and> cp_group p = Some sg \<and> cp_file p = Some (gf_id f)
    \<and> get_group sg = Some g \<and> h \<in> set (gw_held w) \<and> cp_sha p = Some (digest sha (h_content h))
    \<and> live_is g f (normalize (h_content h)) w'
    \<and> map_option b_content (gw_base w' (sg, gf_id f)) = Some (normalize (h_content h))
    \<and> h \<notin> set (gw_held w')"
  using assms(1,4)
proof (cases rule: approve_change_cases)
  case (applied g f h)
  have "same_change (aw_payload approval) p"
    using applied(3) assms(2) by (cases "same_change (aw_payload approval) p") (auto simp: guard_ok_def)
  moreover have "h \<in> set (gw_held w)" using applied(7) by (auto dest: tbl_get_SomeD)
  moreover have "gr_id g = sg" using assms(3) applied(2) by (simp add: lookup_ok_def)
  ultimately show ?thesis
    using applied by (intro exI [of _ g] exI [of _ f] exI [of _ h]) (simp add: tbl_delete_def)
qed (use assms(5) in auto)

section \<open>Steps and runs\<close>

datatype guard_event =
    Spawned group_ref
  | AgentWrote
  | OwnerRecorded string string
  | Restamped group_ref
  | Decided approval_row
  | Resolved approval_row

inductive guard_step ::
  "(string \<Rightarrow> string) \<Rightarrow> disk_api \<Rightarrow> guard_fn \<Rightarrow> (string \<Rightarrow> group_ref option)
     \<Rightarrow> guard_world \<Rightarrow> guard_event \<Rightarrow> guard_world \<Rightarrow> bool"
  for sha api guarded get_group where
  spawn: "guard_standing_instructions sha api swap guarded max_card name pending now g w = (r, w')
    \<Longrightarrow> guard_step sha api guarded get_group w (Spawned g) w'"
| agent: "guard_step sha api guarded get_group w AgentWrote (w\<lparr>gw_disk := disk\<rparr>)"
| owner: "record_instruction_baseline sha now gid fid content w = (e, w')
    \<Longrightarrow> guard_step sha api guarded get_group w (OwnerRecorded gid fid) (w'\<lparr>gw_disk := disk\<rparr>)"
| restamp: "record_restamped_instructions sha api swap now applied g changes w = (e, w')
    \<Longrightarrow> guard_step sha api guarded get_group w (Restamped g) w'"
| decide: "approve_change sha api guarded get_group sg p approval now w = (res, w')
    \<Longrightarrow> guard_step sha api guarded get_group w (Decided approval) w'"
| resolve: "guard_step sha api guarded get_group w (Resolved approval) (reject_change approval rejected w)"

inductive guard_run ::
  "(string \<Rightarrow> string) \<Rightarrow> disk_api \<Rightarrow> guard_fn \<Rightarrow> (string \<Rightarrow> group_ref option)
     \<Rightarrow> guard_world \<Rightarrow> guard_event list \<Rightarrow> guard_world \<Rightarrow> bool"
  for sha api guarded get_group where
  start: "guard_run sha api guarded get_group w [] w"
| onward: "guard_run sha api guarded get_group w evs w1 \<Longrightarrow> guard_step sha api guarded get_group w1 ev w2
    \<Longrightarrow> guard_run sha api guarded get_group w (evs @ [ev]) w2"

text \<open>The events that may change the baseline of a file: the owner's writes and an approval of that file.\<close>

fun authorises :: "guard_event \<Rightarrow> string \<times> string \<Rightarrow> bool" where
  "authorises (OwnerRecorded gid fid) k = (k = (gid, fid))"
| "authorises (Restamped g) k = (k = (gr_id g, ''persona''))"
| "authorises (Decided a) k = (cp_group (aw_payload a) = Some (fst k) \<and> cp_file (aw_payload a) = Some (snd k))"
| "authorises _ k = False"

lemma raise_approval_keeps:
  "raise_approval guarded max_card name inflight pending now g c w = (rq, w') \<Longrightarrow> gw_base w' = gw_base w \<and> gw_disk w' = gw_disk w"
  by (auto simp: raise_approval_def prune_orphan_held_def Let_def split: if_splits prod.splits)

lemma raise_all_keeps:
  "raise_all guarded max_card name pending now g cs w = (rqs, w') \<Longrightarrow> gw_base w' = gw_base w \<and> gw_disk w' = gw_disk w"
proof (induction cs arbitrary: pending w rqs w')
  case (Cons c cs)
  show ?case
  proof (cases "ic_outcome c \<noteq> IsHeld")
    case True
    with Cons show ?thesis by simp
  next
    case False
    obtain rq w1 where r: "raise_approval guarded max_card name {} pending now g c w = (rq, w1)" by fastforce
    obtain rqs2 w2 where r2: "raise_all guarded max_card name
        (case rq of None \<Rightarrow> pending | Some q \<Rightarrow> pending @ [\<lparr>pr_action = INSTRUCTION_CHANGE_ACTION, pr_payload = rq_payload q\<rparr>])
        now g cs w1 = (rqs2, w2)" by fastforce
    have "w' = w2" using Cons.prems False r r2 by (cases rq) auto
    with Cons.IH [OF r2] raise_approval_keeps [OF r] show ?thesis by simp
  qed
qed simp

lemma guard_standing_keeps:
  assumes "disk_api_ok api" "store_ok sha w"
    "guard_standing_instructions sha api swap guarded max_card name pending now g w = (r, w')"
  shows "store_ok sha w' \<and> keeps_baselines w w'"
proof -
  obtain r1 w1 where c: "check_instruction_files sha api swap now g w = (r1, w1)" by fastforce
  note ce = check_effect [OF assms(1) c assms(2)]
  show ?thesis
  proof (cases r1)
    case (Inl e)
    with c assms(3) ce show ?thesis by (auto simp: guard_standing_instructions_def)
  next
    case (Inr cs)
    obtain rqs w2 where ra: "raise_all guarded max_card name pending now g cs w1 = (rqs, w2)" by fastforce
    with c assms(3) Inr have "w' = w2" by (auto simp: guard_standing_instructions_def)
    with raise_all_keeps [OF ra] ce show ?thesis by (auto simp: keeps_baselines_def dest: store_ok_cong)
  qed
qed

lemma guard_step_keeps:
  assumes "disk_api_ok api" "guard_ok guarded" "lookup_ok get_group"
    and "guard_step sha api guarded get_group w ev w'" "store_ok sha w"
  shows "store_ok sha w' \<and> (\<forall>k b. gw_base w k = Some b \<longrightarrow> \<not> authorises ev k \<longrightarrow> gw_base w' k = Some b)"
  using assms(4)
proof (cases rule: guard_step.cases)
  case (spawn swap max_card name pending now g r)
  with guard_standing_keeps [OF assms(1,5)] show ?thesis by (simp add: keeps_baselines_def)
next
  case (agent disk)
  with assms(5) show ?thesis by (simp add: store_ok_def)
next
  case (owner now gid fid content e w1 disk)
  then show ?thesis using assms(5) by (auto simp: record_instruction_baseline_def store_ok_def split: if_splits)
next
  case (restamp swap now applied g changes e)
  have "file_spec ''persona'' = Some f \<Longrightarrow> gf_id f = ''persona''" for f by (auto dest: file_specD)
  with restamp assms(5) show ?thesis
    by (auto simp: record_restamped_instructions_def record_from_disk_def record_instruction_baseline_def store_ok_def Let_def
        split: if_splits option.splits sum.splits prod.splits observed.splits)
next
  case (decide sg p approval now res)
  show ?thesis using assms(1) decide(2)
  proof (cases rule: approve_change_cases)
    case untouched
    with assms(5) show ?thesis by simp
  next
    case (stuck g f)
    with assms(5) show ?thesis by (auto dest: store_ok_cong)
  next
    case (applied g f h)
    have "same_change (aw_payload approval) p"
      using applied(3) assms(2) by (cases "same_change (aw_payload approval) p") (auto simp: guard_ok_def)
    then have "authorises ev (gr_id g, gf_id f)"
      using applied decide(1) assms(3) by (simp add: same_change_def lookup_ok_def)
    with applied(9) assms(5) show ?thesis by (auto simp: store_ok_def)
  qed
next
  case (resolve approval rejected)
  then have "gw_base w' = gw_base w" by (auto simp: reject_change_def split: option.splits sum.splits)
  with assms(5) show ?thesis by (auto dest: store_ok_cong)
qed

lemma guard_run_keeps:
  assumes "disk_api_ok api" "guard_ok guarded" "lookup_ok get_group"
    and "guard_run sha api guarded get_group w evs w'" "store_ok sha w"
  shows "store_ok sha w' \<and> (\<forall>k b. gw_base w k = Some b \<longrightarrow> list_all (\<lambda>ev. \<not> authorises ev k) evs \<longrightarrow> gw_base w' k = Some b)"
  using assms(4,5)
proof (induction rule: guard_run.induct)
  case (onward w evs w1 ev w2)
  with guard_step_keeps [OF assms(1-3) onward.hyps(2)] show ?case by simp
qed simp


section \<open>Held copies\<close>

definition held_ok :: "(string \<Rightarrow> string) \<Rightarrow> guard_world \<Rightarrow> bool" where
  "held_ok sha w \<longleftrightarrow> (\<forall>h \<in> set (gw_held w). digest sha (h_content h) = h_sha h)"

definition held_for :: "(string \<Rightarrow> string) \<Rightarrow> group_ref \<Rightarrow> instruction_change \<Rightarrow> guard_world \<Rightarrow> bool" where
  "held_for sha g c w \<longleftrightarrow> ic_sha c = digest sha (ic_after c)
     \<and> held_path (gr_id g) (gf_id (ic_file c)) (ic_sha c) = Inr (gr_id g, gf_id (ic_file c), ic_sha c)
     \<and> (\<exists>h \<in> set (gw_held w). h_key h = (gr_id g, gf_id (ic_file c), ic_sha c))"

lemma held_path_key: "held_path gid fid s = Inr k \<Longrightarrow> k = (gid, fid, s)"
  by (auto simp: held_path_def split: if_splits)

lemma keep_held_has: "\<exists>h' \<in> set (gw_held (keep_held h w)). h_key h' = h_key h"
proof (cases "tbl_get h_key (h_key h) (gw_held w)")
  case None
  then show ?thesis by (simp add: tbl_insert_new_def)
next
  case (Some x)
  then show ?thesis using tbl_get_SomeD [OF Some] by (auto simp: tbl_insert_new_def)
qed

lemma keep_held_ok: "held_ok sha w \<Longrightarrow> digest sha (h_content h) = h_sha h \<Longrightarrow> held_ok sha (keep_held h w)"
  by (auto simp: held_ok_def tbl_insert_new_def)

lemma compare_file_held:
  assumes ok: "disk_api_ok api" and cmp: "compare_file sha api now g f b seen w = (e, r, w')" and "held_ok sha w"
  shows "held_ok sha w' \<and> set (gw_held w) \<subseteq> set (gw_held w') \<and> (\<forall>c. r = Some c \<longrightarrow> ic_outcome c = IsHeld \<longrightarrow> held_for sha g c w')"
proof -
  have put: "gw_held w'' = gw_held w1 \<and> (r' = None \<or> r' = Some ch)"
    if "put_back api now g f (b_content b) ch w1 = (e', r', w'')" for ch w1 e' r' w''
    using put_back_effect [OF ok that] that by (auto simp: put_back_def split: prod.splits option.splits)
  show ?thesis
  proof (cases seen)
    case (Content c)
    show ?thesis
    proof (cases "digest sha c = b_sha b \<or> (\<exists>x. held_path (gr_id g) (gf_id f) (digest sha c) = Inl x)")
      case True
      with Content cmp assms(3) show ?thesis by (auto simp: compare_file_def split: if_splits)
    next
      case False
      then obtain k where k: "held_path (gr_id g) (gf_id f) (digest sha c) = Inr k" by (metis obj_sumE)
      define h where "h = \<lparr>h_group = gr_id g, h_file = gf_id f, h_sha = digest sha c, h_content = c, h_at = now\<rparr>"
      define ch where "ch = \<lparr>ic_file = f, ic_outcome = IsHeld, ic_sha = digest sha c,
                       ic_before = b_content b, ic_after = c, ic_detail = None\<rparr>"
      have "put_back api now g f (b_content b) ch (keep_held h w) = (e, r, w')"
        using cmp False k Content by (simp add: compare_file_def h_def ch_def)
      from put [OF this] have w': "gw_held w' = gw_held (keep_held h w)" "r = None \<or> r = Some ch" by blast+
      have "held_ok sha (keep_held h w)" using assms(3) by (rule keep_held_ok) (simp add: h_def)
      then have "held_ok sha w'" using w'(1) by (simp add: held_ok_def)
      moreover have "set (gw_held w) \<subseteq> set (gw_held w')" using w'(1) by (auto simp: tbl_insert_new_def)
      moreover have "held_for sha g ch w'"
        using keep_held_has [of h w] w'(1) k held_path_key [OF k] by (simp add: held_for_def ch_def h_def h_key_def)
      ultimately show ?thesis using w'(2) by auto
    qed
  next
    case (Foreign what)
    with cmp put assms(3) show ?thesis by (fastforce simp: compare_file_def held_ok_def)
  next
    case (Oversize n)
    with cmp put assms(3) show ?thesis by (fastforce simp: compare_file_def held_ok_def)
  qed
qed

lemma check_file_held:
  assumes "disk_api_ok api" "check_file sha api swap now g f w = (e, r, w')" "held_ok sha w"
  shows "held_ok sha w' \<and> set (gw_held w) \<subseteq> set (gw_held w') \<and> (\<forall>c. r = Some c \<longrightarrow> ic_outcome c = IsHeld \<longrightarrow> held_for sha g c w')"
proof -
  have step: ?thesis if "compare_file sha api now g f b seen w1 = (e, r, w')" "gw_held w1 = gw_held w" for b seen w1
    using compare_file_held [OF assms(1) that(1)] that(2) assms(3) by (simp add: held_ok_def)
  have quiet: ?thesis if "r = None" "gw_held w' = gw_held w" using that assms(3) by (simp add: held_ok_def)
  have "(\<exists>b seen w1. compare_file sha api now g f b seen w1 = (e, r, w') \<and> gw_held w1 = gw_held w)
      \<or> (r = None \<and> gw_held w' = gw_held w)"
    using assms(2) unfolding check_file_def Let_def
    by (auto split: sum.splits option.splits prod.splits if_splits observed.splits) (metis save_baseline_simps(2) set_dir_simps(2))+
  then show ?thesis using step quiet by blast
qed

lemma check_files_held:
  assumes "disk_api_ok api"
  shows "check_files sha api swap now g fs w = (r, w') \<Longrightarrow> held_ok sha w \<Longrightarrow>
    held_ok sha w' \<and> set (gw_held w) \<subseteq> set (gw_held w')
    \<and> (\<forall>cs c. r = Inr cs \<longrightarrow> c \<in> set cs \<longrightarrow> ic_outcome c = IsHeld \<longrightarrow> held_for sha g c w')"
proof (induction fs arbitrary: w r w')
  case (Cons f fs)
  obtain e c w1 where c1: "check_file sha api (swap (gf_id f)) now g f w = (e, c, w1)" by (metis prod_cases3)
  note h1 = check_file_held [OF assms c1 Cons.prems(2)]
  show ?case
  proof (cases e)
    case (Some x)
    with Cons.prems(1) c1 have "r = Inl x" "w' = w1" by auto
    with h1 show ?thesis by simp
  next
    case None
    obtain r2 w2 where c2: "check_files sha api swap now g fs w1 = (r2, w2)" by fastforce
    have "held_ok sha w1" using h1 by blast
    note h2 = Cons.IH [OF c2 this]
    have "w' = w2" using Cons.prems(1) c1 None c2 by (auto split: sum.splits)
    have cs: "\<exists>cs2. r2 = Inr cs2 \<and> set cs \<subseteq> set_option c \<union> set cs2" if "r = Inr cs" for cs
      using Cons.prems(1) c1 None c2 that by (auto split: sum.splits option.splits)
    have mono: "held_for sha g x w1 \<Longrightarrow> held_for sha g x w2" for x using h2 by (auto simp: held_for_def)
    show ?thesis using h1 h2 cs mono \<open>w' = w2\<close> by (fastforce simp: elem_set)
  qed
qed simp

lemma held_copy_found:
  assumes "held_ok sha w" "held_for sha g c w"
  obtains h where "tbl_get h_key (gr_id g, gf_id (ic_file c), ic_sha c) (gw_held w) = Some h"
    "digest sha (h_content h) = ic_sha c"
proof -
  from assms(2) have "tbl_get h_key (gr_id g, gf_id (ic_file c), ic_sha c) (gw_held w) \<noteq> None"
    unfolding held_for_def tbl_get_None by (metis imageI)
  then obtain h where h: "tbl_get h_key (gr_id g, gf_id (ic_file c), ic_sha c) (gw_held w) = Some h" by blast
  with tbl_get_SomeD [OF h] assms(1) that show ?thesis by (auto simp: held_ok_def h_key_def)
qed

text \<open>
  A change that a check reports as held can be approved. Its copy is in the store under the digest of the
  agent's text, and an approval of that change which the guard allows applies it, unless a disk call fails.
\<close>

theorem held_change_can_be_approved:
  assumes "disk_api_ok api" and "held_ok sha w"
    and "check_instruction_files sha api swap now g w = (Inr cs, w')" and "c \<in> set cs" and "ic_outcome c = IsHeld"
    and "fst (guarded Hold (Some True)) = Allow" and "get_group (gr_id g) = Some g'"
    and "aw_payload approval = change_payload_of g c"
    and "approve_change sha api guarded get_group (gr_id g) (change_payload_of g c) approval later w' = (res, w2)"
  shows "ic_sha c = digest sha (ic_after c) \<and> (ar_error res \<noteq> None \<or> ar_restart res)"
proof -
  have held: "held_ok sha w'" "held_for sha g c w'"
    using check_files_held [OF assms(1) assms(3) [unfolded check_instruction_files_def] assms(2)] assms(4,5) by blast+
  obtain h where h: "tbl_get h_key (gr_id g, gf_id (ic_file c), ic_sha c) (gw_held w') = Some h" "digest sha (h_content h) = ic_sha c"
    using held_copy_found [OF held] by blast
  have path: "held_path (gr_id g) (gf_id (ic_file c)) (ic_sha c) = Inr (gr_id g, gf_id (ic_file c), ic_sha c)"
    and s: "ic_sha c = digest sha (ic_after c)" using held(2) by (auto simp: held_for_def)
  then obtain f where f: "file_spec (gf_id (ic_file c)) = Some f" by (auto simp: held_path_def split: if_splits)
  obtain eff why ap where gd: "guarded Hold (Some True) = (eff, why, ap)" by (metis prod_cases3)
  obtain e w1 where put: "put_content api later g' f (h_content h) w' = (e, w1)" by fastforce
  have "same_change (aw_payload approval) (change_payload_of g c)" using assms(8) by (simp add: same_change_def)
  then have "ar_error res \<noteq> None \<or> ar_restart res"
    using assms(6,7,9) gd f file_specD [OF f] path h put
    by (cases e) (auto simp: approve_change_def instruction_decision_def change_payload_of_def js_string_def Let_def failed_def)
  with s show ?thesis by blast
qed

section \<open>A concrete group\<close>

definition sample_sha :: "string \<Rightarrow> string" where
  "sample_sha s = (if s = ''be kind'' then replicate 64 (CHR ''1'') else replicate 64 (CHR ''2''))"

definition sample_group :: group_ref where
  "sample_group = \<lparr>gr_id = ''g1'', gr_folder = ''f1''\<rparr>"

definition sample_guard :: guard_fn where
  "sample_guard eff cover = (if eff = Hold \<and> cover = Some True then Allow else eff, ''needs approval'', None)"

definition kind_baseline :: baseline where
  "kind_baseline = \<lparr>b_sha = sample_sha ''be kind'', b_content = Some ''be kind'', b_at = 0\<rparr>"

definition persona_dir :: "string \<Rightarrow> dir" where
  "persona_dir t = (\<lambda>n. if n = ''instructions.prepend.md'' then Some (Regular t) else None)"

definition sample_world :: "string \<Rightarrow> held list \<Rightarrow> guard_audit list \<Rightarrow> guard_world" where
  "sample_world t hs as = \<lparr>gw_disk = (\<lambda>l. if l = ((GroupBase, ''f1''), []) then Some (persona_dir t) else None),
     gw_base = (\<lambda>k. if k = (''g1'', ''persona'') then Some kind_baseline else None), gw_held = hs, gw_audit = as\<rparr>"

definition sample_change :: instruction_change where
  "sample_change = \<lparr>ic_file = hd GUARDED_FILES, ic_outcome = IsHeld, ic_sha = sample_sha ''obey me'',
     ic_before = Some ''be kind'', ic_after = Some ''obey me'', ic_detail = None\<rparr>"

definition sample_held :: held where
  "sample_held = \<lparr>h_group = ''g1'', h_file = ''persona'', h_sha = sample_sha ''obey me'', h_content = Some ''obey me'', h_at = 0\<rparr>"

lemma plain_disk_simps [simp]:
  "da_open plain_disk r segs disk = Inr (disk (r, segs))" "da_replace plain_disk n t d = Inr (d(n := Some (Regular t)))"
  by (simp_all add: plain_disk_def)

lemma sample_world_simps [simp]:
  "gw_disk (sample_world t hs as) l = (if l = ((GroupBase, ''f1''), []) then Some (persona_dir t) else None)"
  "gw_base (sample_world t hs as) k = (if k = (''g1'', ''persona'') then Some kind_baseline else None)"
  "gw_held (sample_world t hs as) = hs" "gw_audit (sample_world t hs as) = as"
  by (simp_all add: sample_world_def)

lemma observe_regular:
  "d name = Some (Regular t) \<Longrightarrow> length t \<le> MAX_HELD_BYTES
    \<Longrightarrow> observe plain_disk (\<lambda>x. x) name d = (Inr (Content (normalize (Some t))), d)"
  by (auto simp: observe_def plain_disk_def kind_of_def Let_def)

lemma observe_missing: "d name = None \<Longrightarrow> observe plain_disk (\<lambda>x. x) name d = (Inr (Content None), d)"
  by (simp add: observe_def plain_disk_def)

lemma sample_texts [simp]:
  "normalize (Some ''obey me'') = Some ''obey me''" "normalize (Some ''be kind'') = Some ''be kind''" "normalize None = None"
  "safe_group_id ''g1''" "hex_digest (sample_sha t)"
  by (simp_all add: normalize_def js_trim_def trim_def js_space_def code_def safe_group_id_def
      is_alnum_def is_lower_def is_upper_def is_digit_def hex_digest_def sample_sha_def list_all_iff)

lemma persona_dir_put: "(persona_dir t)(''instructions.prepend.md'' := Some (Regular t')) = persona_dir t'"
  by (auto simp: persona_dir_def)

lemma sample_put:
  "put_content plain_disk now sample_group (hd GUARDED_FILES) (Some t) (sample_world t0 hs as) = (None, sample_world t hs as)"
proof -
  have "set_dir (GroupBase, ''f1'') [] (persona_dir t) (sample_world t0 hs as) = sample_world t hs as"
    by (auto simp: set_dir_def sample_world_def)
  moreover have "clear_entry plain_disk now ''instructions.prepend.md'' (Some t) (persona_dir t0) = Inr (persona_dir t0)"
    by (simp add: clear_entry_def plain_disk_def persona_dir_def kind_of_def)
  ultimately show ?thesis
    by (simp add: put_content_def Let_def root_of_def GUARDED_FILES_def sample_group_def persona_dir_put)
qed

lemma sample_check_persona:
  "check_file sample_sha plain_disk (\<lambda>x. x) 0 sample_group (hd GUARDED_FILES) (sample_world ''obey me'' [] [])
     = (None, Some sample_change,
        sample_world ''be kind'' [sample_held] [Reverted ''g1'' ''persona'' True None (sample_sha ''obey me'')])"
proof -
  let ?w = "sample_world ''obey me'' [] []"
  have f: "gf_id (hd GUARDED_FILES) = ''persona''" "gf_name (hd GUARDED_FILES) = ''instructions.prepend.md''"
    "gf_segments (hd GUARDED_FILES) = []" "root_of sample_group (hd GUARDED_FILES) = (GroupBase, ''f1'')"
    "gr_id sample_group = ''g1''"
    by (simp_all add: GUARDED_FILES_def root_of_def sample_group_def)
  have obs: "observe plain_disk (\<lambda>x. x) ''instructions.prepend.md'' (persona_dir ''obey me'')
      = (Inr (Content (Some ''obey me'')), persona_dir ''obey me'')"
    by (subst observe_regular [where t = "''obey me''"]) (simp_all add: persona_dir_def MAX_HELD_BYTES_def)
  have same: "set_dir (GroupBase, ''f1'') [] (persona_dir ''obey me'') ?w = ?w"
    by (auto simp: set_dir_def sample_world_def)
  have kept: "keep_held sample_held ?w = sample_world ''obey me'' [sample_held] []"
    by (simp add: keep_held_def sample_world_def tbl_insert_new_def tbl_get_def)
  have audited: "audit_change sample_group sample_change (sample_world t hs []) =
      sample_world t hs [Reverted ''g1'' ''persona'' True None (sample_sha ''obey me'')]" for t hs
    by (simp add: audit_change_def sample_world_def sample_change_def f)
  have spec: "file_spec ''persona'' = Some (hd GUARDED_FILES)" by (simp add: file_spec_def GUARDED_FILES_def)
  have "compare_file sample_sha plain_disk 0 sample_group (hd GUARDED_FILES) kind_baseline (Content (Some ''obey me'')) ?w
      = put_back plain_disk 0 sample_group (hd GUARDED_FILES) (Some ''be kind'') sample_change (keep_held sample_held ?w)"
    by (simp add: compare_file_def digest_def kind_baseline_def held_path_def spec f sample_change_def sample_held_def
        sample_sha_def [of "''be kind''"] sample_sha_def [of "''obey me''"] del: sample_world_simps)
      (simp add: sample_sha_def [symmetric] hex_digest_def list_all_iff is_digit_def code_def)
  then show ?thesis
    by (simp add: check_file_def Let_def f obs same read_baseline_def put_back_def kept sample_put audited)
qed

lemma sample_check_rest:
  assumes "files = tl GUARDED_FILES"
  shows "\<exists>w'. check_files sample_sha plain_disk (\<lambda>_ x. x) 0 sample_group files (sample_world t hs as) = (Inr [], w')
     \<and> gw_held w' = hs \<and> gw_disk w' = gw_disk (sample_world t hs as) \<and> gw_base w' (''g1'', ''persona'') = Some kind_baseline"
proof -
  have obs: "observe plain_disk (\<lambda>x. x) ''CLAUDE.local.md'' (persona_dir t) = (Inr (Content None), persona_dir t)"
    by (rule observe_missing) (simp add: persona_dir_def)
  have same: "set_dir (GroupBase, ''f1'') [] (persona_dir t) (sample_world t hs as) = sample_world t hs as"
    by (auto simp: set_dir_def sample_world_def)
  show ?thesis
    by (simp add: assms GUARDED_FILES_def check_file_def Let_def root_of_def sample_group_def obs same read_baseline_def)
qed

lemma sample_check:
  "\<exists>w'. check_instruction_files sample_sha plain_disk (\<lambda>_ x. x) 0 sample_group (sample_world ''obey me'' [] [])
       = (Inr [sample_change], w') \<and> gw_held w' = [sample_held]
     \<and> gw_disk w' ((GroupBase, ''f1''), []) = Some (persona_dir ''be kind'') \<and> gw_base w' (''g1'', ''persona'') = Some kind_baseline"
proof -
  have files: "hd GUARDED_FILES # tl GUARDED_FILES = GUARDED_FILES" by (simp add: GUARDED_FILES_def)
  obtain w' where w': "check_files sample_sha plain_disk (\<lambda>_ x. x) 0 sample_group (tl GUARDED_FILES)
      (sample_world ''be kind'' [sample_held] [Reverted ''g1'' ''persona'' True None (sample_sha ''obey me'')]) = (Inr [], w')"
    "gw_held w' = [sample_held]" "gw_disk w' ((GroupBase, ''f1''), []) = Some (persona_dir ''be kind'')"
    "gw_base w' (''g1'', ''persona'') = Some kind_baseline"
    using sample_check_rest [OF refl, of "''be kind''" "[sample_held]" "[Reverted ''g1'' ''persona'' True None (sample_sha ''obey me'')]"]
    by auto
  have "check_files sample_sha plain_disk (\<lambda>_ x. x) 0 sample_group (hd GUARDED_FILES # tl GUARDED_FILES) (sample_world ''obey me'' [] [])
      = (Inr [sample_change], w')"
    by (simp add: sample_check_persona w'(1) del: list.collapse)
  then show ?thesis unfolding check_instruction_files_def files using w' by blast
qed

text \<open>The hypotheses on the sample's parameters and state.\<close>

definition sample_lookup :: "string \<Rightarrow> group_ref option" where
  "sample_lookup i = (if i = ''g1'' then Some sample_group else None)"

lemma sample_laws:
  "guard_ok sample_guard" "lookup_ok sample_lookup" "store_ok sample_sha (sample_world t hs as)"
  "held_ok sample_sha (sample_world t [] as)" "hd GUARDED_FILES \<in> set GUARDED_FILES"
  "loc_of sample_group (hd GUARDED_FILES) = ((GroupBase, ''f1''), [])" "gf_id (hd GUARDED_FILES) = ''persona''"
  "gr_id sample_group = ''g1''"
  by (simp_all add: guard_ok_def sample_guard_def lookup_ok_def sample_lookup_def sample_group_def store_ok_def
      kind_baseline_def digest_def held_ok_def GUARDED_FILES_def loc_of_def root_of_def)

lemma spawn_runs_on_approved_text_witness:
  "\<exists>w' b c. gw_base w' (''g1'', ''persona'') = Some b \<and> live_is sample_group (hd GUARDED_FILES) c w'
     \<and> digest sample_sha c = b_sha b"
proof -
  obtain w' where "check_instruction_files sample_sha plain_disk (\<lambda>_ x. x) 0 sample_group (sample_world ''obey me'' [] [])
       = (Inr [sample_change], w')" using sample_check by blast
  from spawn_runs_on_approved_text [OF plain_disk_ok sample_laws(3) this sample_laws(5)] show ?thesis
    by (auto simp: sample_laws)
qed


lemma held_change_can_be_approved_witness:
  "ic_sha sample_change = digest sample_sha (ic_after sample_change)"
proof -
  obtain w' where chk: "check_instruction_files sample_sha plain_disk (\<lambda>_ x. x) 0 sample_group (sample_world ''obey me'' [] [])
       = (Inr [sample_change], w')" using sample_check by blast
  obtain res w2 where dec: "approve_change sample_sha plain_disk sample_guard sample_lookup (gr_id sample_group)
      (change_payload_of sample_group sample_change)
      \<lparr>aw_id = ''a1'', aw_action = INSTRUCTION_CHANGE_ACTION, aw_payload = change_payload_of sample_group sample_change\<rparr> 5 w' = (res, w2)"
    by fastforce
  show ?thesis
    using held_change_can_be_approved [OF plain_disk_ok sample_laws(4) chk _ _ _ _ _ dec, of sample_group]
    by (simp add: sample_change_def sample_guard_def sample_lookup_def sample_laws)
qed

lemma sample_approval:
  "ar_restart (fst (approve_change sample_sha plain_disk sample_guard sample_lookup ''g1''
      (change_payload_of sample_group sample_change)
      \<lparr>aw_id = ''a1'', aw_action = INSTRUCTION_CHANGE_ACTION, aw_payload = change_payload_of sample_group sample_change\<rparr> 5
      (sample_world ''be kind'' [sample_held] [])))"
proof -
  have spec: "file_spec ''persona'' = Some (hd GUARDED_FILES)" by (simp add: file_spec_def GUARDED_FILES_def)
  have p: "change_payload_of sample_group sample_change
      = \<lparr>cp_group = Some ''g1'', cp_file = Some ''persona'', cp_sha = Some (sample_sha ''obey me'')\<rparr>"
    by (simp add: change_payload_of_def sample_change_def sample_laws)
  have held: "h_key sample_held = (''g1'', ''persona'', sample_sha ''obey me'')" "h_content sample_held = Some ''obey me''"
    by (simp_all add: sample_held_def h_key_def)
  show ?thesis
    by (simp add: approve_change_def p sample_guard_def instruction_decision_def same_change_def js_string_def spec
        held_path_def tbl_get_def held sample_lookup_def digest_def sample_put sample_laws Let_def)
qed

lemma approval_applies_held_text_witness:
  "\<exists>w2 f h. cp_file (change_payload_of sample_group sample_change) = Some (gf_id f)
     \<and> live_is sample_group f (normalize (h_content h)) w2 \<and> h \<in> set [sample_held]"
proof -
  let ?a = "approve_change sample_sha plain_disk sample_guard sample_lookup ''g1''
      (change_payload_of sample_group sample_change)
      \<lparr>aw_id = ''a1'', aw_action = INSTRUCTION_CHANGE_ACTION, aw_payload = change_payload_of sample_group sample_change\<rparr> 5
      (sample_world ''be kind'' [sample_held] [])"
  have "?a = (fst ?a, snd ?a)" by simp
  from approval_applies_held_text [OF plain_disk_ok sample_laws(1,2) this sample_approval]
  obtain g f h where "sample_lookup ''g1'' = Some g" "cp_file (change_payload_of sample_group sample_change) = Some (gf_id f)"
    "h \<in> set (gw_held (sample_world ''be kind'' [sample_held] []))" "live_is g f (normalize (h_content h)) (snd ?a)" by blast
  then show ?thesis by (auto simp: sample_lookup_def)
qed

end
