(* ===== verification/PlainRegex.thy ===== *)
theory PlainRegex
  imports TextScan
begin

text \<open>
  Anchored regular expressions without groups, look-around or back references, matched by
  derivatives. A character class is a predicate. \<open>lang\<close> is the meaning, and the matcher decides it.
\<close>

datatype rx = Nope | Eps | Cls "char \<Rightarrow> bool" | Cat rx rx | Alt rx rx | Star rx

definition lit :: "string \<Rightarrow> rx" where
  "lit s = foldr (\<lambda>c r. Cat (Cls (\<lambda>x. x = c)) r) s Eps"

definition opt :: "rx \<Rightarrow> rx" where
  "opt r = Alt Eps r"

definition plus :: "rx \<Rightarrow> rx" where
  "plus r = Cat r (Star r)"

fun exactly :: "nat \<Rightarrow> rx \<Rightarrow> rx" where
  "exactly 0 r = Eps"
| "exactly (Suc n) r = Cat r (exactly n r)"

fun up_to :: "nat \<Rightarrow> rx \<Rightarrow> rx" where
  "up_to 0 r = Eps"
| "up_to (Suc n) r = Alt Eps (Cat r (up_to n r))"

fun nullable :: "rx \<Rightarrow> bool" where
  "nullable Nope = False"
| "nullable Eps = True"
| "nullable (Cls p) = False"
| "nullable (Cat r s) = (nullable r \<and> nullable s)"
| "nullable (Alt r s) = (nullable r \<or> nullable s)"
| "nullable (Star r) = True"

text \<open>Concatenation and choice that drop what cannot match.\<close>

fun cat :: "rx \<Rightarrow> rx \<Rightarrow> rx" where
  "cat Nope s = Nope"
| "cat Eps s = s"
| "cat r s = Cat r s"

definition is_nope :: "rx \<Rightarrow> bool" where
  "is_nope r = (case r of Nope \<Rightarrow> True | _ \<Rightarrow> False)"

definition alt :: "rx \<Rightarrow> rx \<Rightarrow> rx" where
  "alt r s = (if is_nope r then s else if is_nope s then r else Alt r s)"

fun deriv :: "char \<Rightarrow> rx \<Rightarrow> rx" where
  "deriv c Nope = Nope"
| "deriv c Eps = Nope"
| "deriv c (Cls p) = (if p c then Eps else Nope)"
| "deriv c (Cat r s) = (if nullable r then alt (cat (deriv c r) s) (deriv c s) else cat (deriv c r) s)"
| "deriv c (Alt r s) = alt (deriv c r) (deriv c s)"
| "deriv c (Star r) = cat (deriv c r) (Star r)"

text \<open>\<open>re.test(s)\<close> for \<open>/^r$/\<close>.\<close>

definition rx_test :: "rx \<Rightarrow> string \<Rightarrow> bool" where
  "rx_test r s = nullable (fold deriv s r)"

section \<open>Meaning\<close>

inductive lang :: "rx \<Rightarrow> string \<Rightarrow> bool" where
  "lang Eps []"
| "p c \<Longrightarrow> lang (Cls p) [c]"
| "lang r u \<Longrightarrow> lang s v \<Longrightarrow> lang (Cat r s) (u @ v)"
| "lang r u \<Longrightarrow> lang (Alt r s) u"
| "lang s u \<Longrightarrow> lang (Alt r s) u"
| "lang (Star r) []"
| "lang r u \<Longrightarrow> lang (Star r) v \<Longrightarrow> lang (Star r) (u @ v)"

inductive_simps lang_simps [simp]:
  "lang Nope u" "lang Eps u" "lang (Cls p) u" "lang (Alt r s) u"

inductive_cases lang_CatE: "lang (Cat r s) u"

lemma lang_Cat: "lang (Cat r s) w \<longleftrightarrow> (\<exists>u v. w = u @ v \<and> lang r u \<and> lang s v)"
  by (rule iffI, erule lang_CatE) (blast intro: lang.intros)+

lemma lang_Star_cons: "lang (Star r) (c # w) \<Longrightarrow> \<exists>u v. w = u @ v \<and> lang r (c # u) \<and> lang (Star r) v"
proof (induction "Star r" "c # w" arbitrary: c w rule: lang.induct)
  case (7 u v)
  then show ?case by (cases u) auto
qed

lemma nullable_lang: "nullable r \<longleftrightarrow> lang r []"
proof (induction r)
  case (Star r)
  then show ?case by (auto intro: lang.intros)
qed (auto simp: lang_Cat)

lemma lang_cat [simp]: "lang (cat r s) w = lang (Cat r s) w"
  by (cases r) (auto simp: lang_Cat)

lemma lang_alt [simp]: "lang (alt r s) w = (lang r w \<or> lang s w)"
  by (auto simp: alt_def is_nope_def split: rx.splits)

lemma deriv_lang: "lang (deriv c r) w \<longleftrightarrow> lang r (c # w)"
proof (induction r arbitrary: w)
  case (Cat r s)
  have "lang (Cat r s) (c # w) \<longleftrightarrow>
      (\<exists>u v. w = u @ v \<and> lang r (c # u) \<and> lang s v) \<or> (lang r [] \<and> lang s (c # w))"
    by (auto simp: lang_Cat Cons_eq_append_conv)
  then show ?case using Cat by (auto simp: lang_Cat nullable_lang)
next
  case (Star r)
  have "lang (Star r) (c # w)" if "w = u @ v" "lang r (c # u)" "lang (Star r) v" for u v
    using lang.intros(7) [OF that(2,3)] that(1) by simp
  then show ?case using Star lang_Star_cons [of r c w] by (auto simp: lang_Cat)
qed auto

lemma rx_test_lang: "rx_test r s \<longleftrightarrow> lang r s"
proof -
  have "nullable (fold deriv s r) \<longleftrightarrow> lang r s"
    by (induction s arbitrary: r) (auto simp: nullable_lang deriv_lang)
  then show ?thesis by (simp add: rx_test_def)
qed

section \<open>The characters of a match\<close>

fun all_in :: "(char \<Rightarrow> bool) \<Rightarrow> rx \<Rightarrow> bool" where
  "all_in q Nope = True"
| "all_in q Eps = True"
| "all_in q (Cls p) = (\<forall>c. p c \<longrightarrow> q c)"
| "all_in q (Cat r s) = (all_in q r \<and> all_in q s)"
| "all_in q (Alt r s) = (all_in q r \<and> all_in q s)"
| "all_in q (Star r) = all_in q r"

lemma all_in_lang: "lang r s \<Longrightarrow> all_in q r \<Longrightarrow> c \<in> set s \<Longrightarrow> q c"
  by (induction arbitrary: c rule: lang.induct) auto

lemma all_in_derived [simp]:
  "all_in q (opt r) = all_in q r" "all_in q (plus r) = all_in q r"
  "all_in q (lit s) = (\<forall>c \<in> set s. q c)"
  by (induction s) (auto simp: opt_def plus_def lit_def)

lemma all_in_exactly [simp]: "all_in q r \<Longrightarrow> all_in q (exactly n r)"
  by (induction n) auto

lemma all_in_up_to [simp]: "all_in q r \<Longrightarrow> all_in q (up_to n r)"
  by (induction n) auto

end
