(* ===== verification/StackPolicy.thy ===== *)
theory StackPolicy
  imports PlainRegex "HOL-Library.Char_ord" "HOL-Library.List_Lexorder"
begin

text \<open>
  What an agent's Compose stack may contain (\<open>modules/workloads/policy.ts\<close>): from a parsed file to the
  stack as it will run, or the reasons it is refused. The YAML parser is a parameter, as is what
  \<open>realpath\<close> finds on the disk. A missing property (\<open>undefined\<close>) is \<open>None\<close>; numbers are rationals, and
  those that are not finite are \<open>YOdd\<close> with their text. The reasons are a datatype, one constructor for a wording.
\<close>

section \<open>Values\<close>

datatype yv = YNull | YBool bool | YNum rat | YOdd string | YStr string | YList "yv list" | YMap "(string \<times> yv) list"

type_synonym fields = "(string \<times> yv) list"

definition is_object :: "yv \<Rightarrow> bool" where
  "is_object v = (case v of YNull \<Rightarrow> True | YList _ \<Rightarrow> True | YMap _ \<Rightarrow> True | _ \<Rightarrow> False)"

text \<open>\<open>!v\<close> is the negation of this.\<close>

definition is_truthy :: "yv option \<Rightarrow> bool" where
  "is_truthy v = (case v of None \<Rightarrow> False | Some YNull \<Rightarrow> False | Some (YBool b) \<Rightarrow> b | Some (YNum n) \<Rightarrow> n \<noteq> 0
     | Some (YOdd t) \<Rightarrow> t \<noteq> ''NaN'' | Some (YStr t) \<Rightarrow> t \<noteq> [] | Some _ \<Rightarrow> True)"

text \<open>\<open>v?.k\<close>.\<close>

definition field_of :: "yv option \<Rightarrow> string \<Rightarrow> yv option" where
  "field_of v k = (case v of Some (YMap kvs) \<Rightarrow> map_of kvs k | _ \<Rightarrow> None)"

text \<open>\<open>v ?? w\<close>.\<close>

definition otherwise :: "yv option \<Rightarrow> yv option \<Rightarrow> yv option" where
  "otherwise v w = (if v = None \<or> v = Some YNull then w else v)"

text \<open>Writing a property of an object: in place, or at its end.\<close>

fun set_prop :: "string \<Rightarrow> yv \<Rightarrow> fields \<Rightarrow> fields" where
  "set_prop k v [] = [(k, v)]"
| "set_prop k v ((k', v') # kvs) = (if k' = k then (k, v) # kvs else (k', v') # set_prop k v kvs)"

text \<open>Decimal text of a number: at most 17 digits after the point.\<close>

fun decimals :: "nat \<Rightarrow> rat \<Rightarrow> string" where
  "decimals 0 x = []"
| "decimals (Suc n) x = (if x = 0 then [] else show_nat (nat \<lfloor>10 * x\<rfloor>) @ decimals n (10 * x - of_int \<lfloor>10 * x\<rfloor>))"

definition show_num :: "rat \<Rightarrow> string" where
  "show_num x = (let a = \<bar>x\<bar>; i = \<lfloor>a\<rfloor>; f = a - of_int i
     in (if x < 0 then ''-'' else []) @ show_int i @ (if f = 0 then [] else CHR ''.'' # decimals 17 f))"

text \<open>\<open>String(v)\<close>. A list joins its items with commas, null ones being empty.\<close>

fun js_text :: "yv \<Rightarrow> string" where
  "js_text YNull = ''null''"
| "js_text (YBool b) = (if b then ''true'' else ''false'')"
| "js_text (YNum n) = show_num n"
| "js_text (YOdd t) = t"
| "js_text (YStr t) = t"
| "js_text (YList vs) = join_with '','' (map (\<lambda>v. if v = YNull then [] else js_text v) vs)"
| "js_text (YMap kvs) = ''[object Object]''"

section \<open>Numbers in text\<close>

text \<open>An unsigned decimal numeral: digits, and a fraction of digits after a point.\<close>

definition decimal_value :: "string \<Rightarrow> string \<Rightarrow> rat" where
  "decimal_value whole part = of_nat (read_nat whole) + of_nat (read_nat part) / 10 ^ length part"

definition digits_of :: "string \<Rightarrow> string \<times> string" where
  "digits_of s = (takeWhile is_digit s, dropWhile is_digit s)"

definition js_number_digits :: "string \<Rightarrow> (rat \<times> string) option" where
  "js_number_digits s = (let (w, r) = digits_of s in
     case r of
       c # r1 \<Rightarrow> if c = CHR ''.'' then (let (f, r2) = digits_of r1 in
                  if w = [] \<and> f = [] then None else Some (decimal_value w f, r2))
                else if w = [] then None else Some (decimal_value w [], r)
     | [] \<Rightarrow> if w = [] then None else Some (decimal_value w [], []))"

definition exponent :: "string \<Rightarrow> int option" where
  "exponent s = (case s of [] \<Rightarrow> Some 0
     | c # r \<Rightarrow> if lower c \<noteq> CHR ''e'' then None
       else (let (neg, ds) = (case r of d # r1 \<Rightarrow> if d = CHR ''-'' then (True, r1) else if d = CHR ''+'' then (False, r1) else (False, r)
                              | [] \<Rightarrow> (False, []))
             in if all_digits ds then Some (if neg then - int (read_nat ds) else int (read_nat ds)) else None))"

definition power_of_ten :: "int \<Rightarrow> rat" where
  "power_of_ten e = (if 0 \<le> e then 10 ^ nat e else 1 / 10 ^ nat (- e))"

definition radix_digit :: "char \<Rightarrow> nat" where
  "radix_digit c = (if is_digit c then code c - 48 else code (lower c) - 87)"

definition read_radix :: "nat \<Rightarrow> string \<Rightarrow> rat option" where
  "read_radix b s = (if s \<noteq> [] \<and> list_all (\<lambda>c. (is_digit c \<or> is_lower (lower c)) \<and> radix_digit c < b) s
     then Some (of_nat (fold (\<lambda>c n. b * n + radix_digit c) s 0)) else None)"

text \<open>\<open>Number(text)\<close>; \<open>None\<close> is NaN or an infinity.\<close>

definition js_number :: "string \<Rightarrow> rat option" where
  "js_number s0 =
     (let s = js_trim s0 in
      if s = [] then Some 0
      else if starts_with (map lower s) ''0x'' then read_radix 16 (drop 2 s)
      else if starts_with (map lower s) ''0o'' then read_radix 8 (drop 2 s)
      else if starts_with (map lower s) ''0b'' then read_radix 2 (drop 2 s)
      else (let (neg, u) = (case s of c # r \<Rightarrow> if c = CHR ''-'' then (True, r) else if c = CHR ''+'' then (False, r) else (False, s) | [] \<Rightarrow> (False, []))
            in (case js_number_digits u of None \<Rightarrow> None
                | Some (m, r) \<Rightarrow> map_option (\<lambda>e. (if neg then - m else m) * power_of_ten e) (exponent r))))"

definition MIB :: rat where "MIB = 1048576"

text \<open>The unit letters and what follows the number, lower-cased and trimmed: the size of one unit in megabytes.\<close>

definition memory_unit :: "string \<Rightarrow> rat option" where
  "memory_unit u =
     (if u \<in> {''g'', ''gb''} then Some 1024
      else if u \<in> {''m'', ''mb''} then Some 1
      else if u \<in> {''k'', ''kb''} then Some (1 / 1024)
      else if u \<in> {'''', ''b'', ''bb''} then Some (1 / MIB)
      else None)"

definition parse_memory_mb :: "yv option \<Rightarrow> int option" where
  "parse_memory_mb v = (case v of
     Some (YNum n) \<Rightarrow> if 0 < n then Some \<lceil>n / MIB\<rceil> else None
   | Some (YStr t) \<Rightarrow>
       (let s = map lower (js_trim t); (w, r) = digits_of s;
            (part, r1) = (case r of c # r0 \<Rightarrow> (if c = CHR ''.'' \<and> fst (digits_of r0) \<noteq> [] then digits_of r0 else ([], r)) | [] \<Rightarrow> ([], r));
            unit = dropWhile js_space r1
        in if w = [] then None
           else (case memory_unit unit of None \<Rightarrow> None
                 | Some k \<Rightarrow> (let mb = decimal_value w part * k in if 0 < mb then Some \<lceil>mb\<rceil> else None)))
   | _ \<Rightarrow> None)"

definition parse_cpus :: "yv option \<Rightarrow> rat option" where
  "parse_cpus v = (case (case v of Some (YStr t) \<Rightarrow> js_number t | Some (YNum n) \<Rightarrow> Some n | _ \<Rightarrow> None) of
     Some n \<Rightarrow> if 0 < n then Some n else None | None \<Rightarrow> None)"

end
