(* ===== verification/StackCheck.thy ===== *)
theory StackCheck
  imports StackPolicy
begin

text \<open>
  \<open>checkStack\<close> of \<open>modules/workloads/policy.ts\<close>: every check of a stack in the order of the code, the
  normalised stack, and the totals against the quota.
\<close>

section \<open>What a stack may use\<close>

definition DEFAULT_MEMORY_MB :: int where "DEFAULT_MEMORY_MB = 512"
definition DEFAULT_CPUS :: rat where "DEFAULT_CPUS = 1 / 2"

definition TOP_ALLOWED :: "string list" where
  "TOP_ALLOWED = [''services'', ''volumes'', ''name'', ''version'']"

definition SERVICE_ALLOWED :: "string list" where
  "SERVICE_ALLOWED = [''image'', ''build'', ''command'', ''entrypoint'', ''environment'', ''working_dir'', ''user'',
     ''healthcheck'', ''depends_on'', ''expose'', ''labels'', ''volumes'', ''tmpfs'', ''mem_limit'', ''cpus'', ''deploy'',
     ''stop_grace_period'', ''stop_signal'', ''init'', ''read_only'', ''shm_size'', ''hostname'', ''platform'', ''restart'',
     ''cap_add'']"

definition CAP_ADD_ALLOWED :: "string list" where
  "CAP_ADD_ALLOWED = [''CHOWN'', ''DAC_OVERRIDE'', ''FOWNER'', ''FSETID'', ''SETUID'', ''SETGID'', ''NET_BIND_SERVICE'', ''KILL'']"

definition SERVICE_REFUSED :: "string list" where
  "SERVICE_REFUSED = [''privileged'', ''cap_drop'', ''devices'', ''security_opt'', ''network_mode'', ''networks'', ''pid'',
     ''ipc'', ''userns_mode'', ''ports'', ''cgroup_parent'', ''cgroup'', ''sysctls'', ''volumes_from'', ''container_name'',
     ''runtime'', ''isolation'', ''oom_kill_disable'', ''oom_score_adj'', ''links'', ''external_links'', ''env_file'',
     ''secrets'', ''configs'', ''extends'', ''profiles'', ''gpus'', ''dns'', ''extra_hosts'', ''pull_policy'', ''logging'']"

definition is_ext :: "string \<Rightarrow> bool" where
  "is_ext k = starts_with k ''x-''"

definition low_alnum :: rx where "low_alnum = Cls is_alnum"
definition word_dot_dash :: "char \<Rightarrow> bool" where
  "word_dot_dash c = (is_alnum c \<or> is_upper c \<or> c \<in> {CHR ''_'', CHR ''.'', CHR ''-''})"

definition path_part :: rx where
  "path_part = Cat (plus low_alnum) (Star (Cat (Alt (Cls (\<lambda>c. c = CHR ''.'' \<or> c = CHR ''_'')) (Alt (lit ''__'') (plus (lit ''-'')))) (plus low_alnum)))"

definition IMAGE_REF_RE :: rx where
  "IMAGE_REF_RE =
     Cat (opt (Cat (Cat (plus low_alnum) (Star (Cat (Cls (\<lambda>c. c = CHR ''.'' \<or> c = CHR ''_'' \<or> c = CHR ''-'')) (plus low_alnum))))
                   (Cat (opt (Cat (lit '':'') (Cat (Cls is_digit) (up_to 4 (Cls is_digit))))) (lit ''/''))))
     (Cat path_part
     (Cat (Star (Cat (lit ''/'') path_part))
     (Cat (opt (Cat (lit '':'') (Cat (Cls (\<lambda>c. is_alnum c \<or> is_upper c \<or> c = CHR ''_'')) (up_to 127 (Cls word_dot_dash)))))
          (opt (Cat (lit ''@sha256:'') (exactly 64 (Cls (\<lambda>c. is_digit c \<or> c \<in> set ''abcdef''))))))))"

definition volume_name_re :: rx where
  "volume_name_re = Cat low_alnum (up_to 62 (Cls (\<lambda>c. is_alnum c \<or> c \<in> {CHR ''_'', CHR ''.'', CHR ''-''})))"

definition service_name_re :: rx where
  "service_name_re = Cat low_alnum (up_to 40 (Cls (\<lambda>c. is_alnum c \<or> c \<in> {CHR ''_'', CHR ''-''})))"

definition target_re :: rx where
  "target_re = Cat (Cls (\<lambda>c. is_alnum c \<or> is_upper c)) (up_to 63 (Cls word_dot_dash))"

datatype stack_error =
    InvalidYaml string | TagsUsed "string list" | NotCompose | MergeKeys "string list"
  | TopNotAllowed string | NoServices | VolumesNotMap
  | VolumeName string | VolumeShape string | VolumeExternal string | VolumeDriverOpts string | VolumeDriver string | VolumeKey string string
  | ServiceName string | ServiceShape string | KeyRefused string string | KeyNotAllowed string string
  | NeedsImage string | BadImage string | BuildUnavailable string
  | BuildShape string | BuildKey string string | BuildArgs string | BuildTarget string | BuildNotLocal string
  | BuildMissing string string | BuildOutside string string | BuildDockerfile string
  | CapsNotList string | CapNotAllowed string string
  | MountsNotList string | HostMount string yv | MountUndeclared string string
  | LabelReserved string string | DeployKey string string
  | OverMemory int int | OverCpus rat rat | ToFit

section \<open>Parsing\<close>

record yaml_doc =
  yd_errors :: "string list"
  yd_tags :: "string list"
  yd_value :: "string + yv option"

definition first_row :: "string \<Rightarrow> string" where
  "first_row s = hd (split_on (CHR 0x0A) s)"

definition parse_strict :: "(string \<Rightarrow> yaml_doc) \<Rightarrow> string \<Rightarrow> stack_error + yv option" where
  "parse_strict yaml text =
     (let doc = yaml text in
      case yd_errors doc of
        m # _ \<Rightarrow> Inl (InvalidYaml (first_row m))
      | [] \<Rightarrow> if yd_tags doc \<noteq> [] then Inl (TagsUsed (take 3 (yd_tags doc)))
             else (case yd_value doc of Inl m \<Rightarrow> Inl (InvalidYaml (first_row m)) | Inr v \<Rightarrow> Inr v))"

text \<open>\<open>at\<close> of the code is the path so far.\<close>

fun merge_keys :: "yv \<Rightarrow> string \<Rightarrow> string list"
and merge_items :: "yv list \<Rightarrow> nat \<Rightarrow> string \<Rightarrow> string list"
and merge_fields :: "(string \<times> yv) list \<Rightarrow> string \<Rightarrow> string list" where
  "merge_keys (YList vs) p = merge_items vs 0 p"
| "merge_keys (YMap kvs) p = merge_fields kvs p"
| "merge_keys v p = []"
| "merge_items [] i p = []"
| "merge_items (v # vs) i p = merge_keys v (p @ ''['' @ show_nat i @ '']'') @ merge_items vs (i + 1) p"
| "merge_fields [] p = []"
| "merge_fields ((k, v) # kvs) p =
     (if k = ''<<'' then [if p = [] then ''(top level)'' else p] else [])
     @ merge_keys v (if p = [] then k else p @ ''.'' @ k) @ merge_fields kvs p"

section \<open>Volumes\<close>

definition check_volume :: "string \<Rightarrow> yv \<Rightarrow> stack_error list" where
  "check_volume name v =
     (if rx_test volume_name_re name then [] else [VolumeName name])
     @ (let obj = (if v = YNull then YMap [] else v) in
        case obj of
          YMap o1 \<Rightarrow>
            (if is_truthy (map_of o1 ''external'') then [VolumeExternal name] else [])
            @ (if is_truthy (map_of o1 ''driver_opts'') then [VolumeDriverOpts name] else [])
            @ (if map_of o1 ''driver'' \<noteq> None \<and> map_of o1 ''driver'' \<noteq> Some (YStr ''local'') then [VolumeDriver name] else [])
            @ concat (map (\<lambda>(k, _). if k \<notin> {''driver'', ''external'', ''driver_opts''} \<and> \<not> is_ext k then [VolumeKey name k] else []) o1)
        | _ \<Rightarrow> [VolumeShape name])"

definition is_slash :: "char \<Rightarrow> bool" where
  "is_slash c = (c = CHR ''/'' \<or> c = CHR 0x5C)"

text \<open>\<open>None\<close>: not a named volume; \<open>Some []\<close>: a tmpfs.\<close>

definition named_volume :: "yv \<Rightarrow> string option" where
  "named_volume v = (case v of
     YStr s \<Rightarrow> (case split_on (CHR '':'') s of
         src # dst # _ \<Rightarrow>
           if dst = [] \<or> src = [] \<or> list_ex is_slash src \<or> starts_with src ''.'' \<or> starts_with src ''~'' then None
           else Some src
       | _ \<Rightarrow> None)
   | YMap kvs \<Rightarrow>
       (case map_of kvs ''source'' of
          Some (YStr src) \<Rightarrow>
            if map_of kvs ''type'' = Some (YStr ''volume'') \<and> src \<noteq> [] \<and> \<not> list_ex is_slash src then Some src
            else if map_of kvs ''type'' = Some (YStr ''tmpfs'') then Some [] else None
        | _ \<Rightarrow> if map_of kvs ''type'' = Some (YStr ''tmpfs'') then Some [] else None)
   | _ \<Rightarrow> None)"

definition check_mounts :: "string \<Rightarrow> string list \<Rightarrow> yv option \<Rightarrow> stack_error list" where
  "check_mounts svc declared vols =
     (case otherwise vols (Some (YList [])) of
        Some (YList vs) \<Rightarrow> concat (map (\<lambda>v. case named_volume v of
            None \<Rightarrow> [HostMount svc v]
          | Some n \<Rightarrow> if n \<noteq> [] \<and> n \<notin> set declared then [MountUndeclared svc n] else []) vs)
      | _ \<Rightarrow> [MountsNotList svc])"

section \<open>Builds, capabilities, labels\<close>

text \<open>
  \<open>resolve dir path\<close> is \<open>realpathSync(resolve(dir, path))\<close>, \<open>None\<close> where it throws; \<open>home\<close> is the real path of the
  agent's folder.
\<close>

definition has_scheme :: "string \<Rightarrow> bool" where
  "has_scheme s = (let w = takeWhile (\<lambda>c. is_lower (lower c)) s in w \<noteq> [] \<and> starts_with (drop (length w) s) ''://'')"

definition split_slashes :: "string \<Rightarrow> string list" where
  "split_slashes s = concat (map (split_on (CHR 0x5C)) (split_on (CHR ''/'') s))"

definition check_build ::
  "yv \<Rightarrow> string \<Rightarrow> string \<Rightarrow> (string \<Rightarrow> string \<Rightarrow> string option) \<Rightarrow> string \<Rightarrow> stack_error list \<times> string option" where
  "check_build build home compose_dir resolve svc =
     (case (case build of YStr c \<Rightarrow> YMap [(''context'', YStr c)] | _ \<Rightarrow> build) of
        YMap b \<Rightarrow>
          (let e1 = concat (map (\<lambda>(k, _). if k \<in> {''context'', ''dockerfile'', ''args'', ''target''} then [] else [BuildKey svc k]) b)
                 @ (case map_of b ''args'' of None \<Rightarrow> []
                    | Some a \<Rightarrow> if is_object a \<and> a \<noteq> YNull then [] else [BuildArgs svc])
                 @ (case map_of b ''target'' of None \<Rightarrow> []
                    | Some t \<Rightarrow> if rx_test target_re (js_text t) then [] else [BuildTarget svc]);
               ctx = (case otherwise (map_of b ''context'') None of None \<Rightarrow> ''.'' | Some c \<Rightarrow> js_text c)
           in if starts_with ctx ''/'' \<or> has_scheme ctx then (e1 @ [BuildNotLocal svc], None)
              else (case resolve compose_dir ctx of
                      None \<Rightarrow> (e1 @ [BuildMissing svc ctx], None)
                    | Some r \<Rightarrow>
                        if r \<noteq> home \<and> \<not> starts_with r (home @ ''/'') then (e1 @ [BuildOutside svc ctx], None)
                        else (case map_of b ''dockerfile'' of
                                Some f \<Rightarrow>
                                  if starts_with (js_text f) ''/'' \<or> ''..'' \<in> set (split_slashes (js_text f))
                                  then (e1 @ [BuildDockerfile svc], None)
                                  else (e1, Some (if r = home then ''.'' else drop (length home + 1) r))
                              | None \<Rightarrow> (e1, Some (if r = home then ''.'' else drop (length home + 1) r)))))
      | _ \<Rightarrow> ([BuildShape svc], None))"

definition cap_name :: "yv \<Rightarrow> string" where
  "cap_name c = (let u = map upper (js_text c) in if starts_with u ''CAP_'' then drop 4 u else u)"

definition check_caps :: "string \<Rightarrow> yv option \<Rightarrow> stack_error list" where
  "check_caps svc v = (case v of None \<Rightarrow> []
     | Some (YList cs) \<Rightarrow> concat (map (\<lambda>c. if cap_name c \<in> set CAP_ADD_ALLOWED then [] else [CapNotAllowed svc (cap_name c)]) cs)
     | Some _ \<Rightarrow> [CapsNotList svc])"

text \<open>\<open>Object.keys\<close>: of a text, its positions.\<close>

definition object_keys :: "yv option \<Rightarrow> string list" where
  "object_keys v = (case v of Some (YMap kvs) \<Rightarrow> map fst kvs | Some (YList vs) \<Rightarrow> map show_nat [0 ..< length vs]
     | Some (YStr s) \<Rightarrow> map show_nat [0 ..< length s] | _ \<Rightarrow> [])"

definition label_names :: "yv option \<Rightarrow> string list" where
  "label_names v = (case v of
     Some (YList ls) \<Rightarrow> map (\<lambda>l. hd (split_on (CHR ''='') (js_text l))) ls
   | _ \<Rightarrow> object_keys v)"

definition reserved_label :: "string \<Rightarrow> bool" where
  "reserved_label l = (let u = map lower l in
     starts_with u ''nanoclaw'' \<or> starts_with u ''dev.nanoclaw'' \<or> starts_with u ''com.docker.'')"

definition check_labels :: "string \<Rightarrow> yv option \<Rightarrow> stack_error list" where
  "check_labels svc v = concat (map (\<lambda>l. if reserved_label l then [LabelReserved svc l] else []) (label_names v))"

definition check_deploy :: "string \<Rightarrow> yv option \<Rightarrow> stack_error list" where
  "check_deploy svc v = (if is_truthy v
     then concat (map (\<lambda>k. if k \<noteq> ''resources'' then [DeployKey svc k] else []) (object_keys v)) else [])"

record service_limits =
  sl_memory :: int
  sl_cpus :: rat

definition limits_of :: "fields \<Rightarrow> service_limits" where
  "limits_of svc =
     (let res = field_of (field_of (map_of svc ''deploy'') ''resources'') ''limits''
      in \<lparr>sl_memory = coalesce (parse_memory_mb (otherwise (field_of res ''memory'') (map_of svc ''mem_limit''))) DEFAULT_MEMORY_MB,
          sl_cpus = coalesce (parse_cpus (otherwise (field_of res ''cpus'') (map_of svc ''cpus''))) DEFAULT_CPUS\<rparr>)"

section \<open>A service\<close>

record stack_env =
  en_home :: string
  en_compose_dir :: string
  en_resolve :: "string \<Rightarrow> string \<Rightarrow> string option"
  en_allow_build :: bool

definition check_keys :: "string \<Rightarrow> fields \<Rightarrow> stack_error list" where
  "check_keys name svc = concat (map (\<lambda>(k, _).
     if is_ext k then []
     else if k \<in> set SERVICE_REFUSED then [KeyRefused name k]
     else if k \<notin> set SERVICE_ALLOWED then [KeyNotAllowed name k] else []) svc)"

definition check_image :: "string \<Rightarrow> fields \<Rightarrow> stack_error list" where
  "check_image name svc =
     (if \<not> is_truthy (map_of svc ''image'') \<and> map_of svc ''build'' = None then [NeedsImage name] else [])
     @ (case map_of svc ''image'' of None \<Rightarrow> []
        | Some (YStr t) \<Rightarrow> if rx_test IMAGE_REF_RE t then [] else [BadImage name]
        | Some _ \<Rightarrow> [BadImage name])"

definition build_result :: "stack_env \<Rightarrow> string \<Rightarrow> fields \<Rightarrow> stack_error list \<times> string option" where
  "build_result env name svc = (case map_of svc ''build'' of
     None \<Rightarrow> ([], None)
   | Some b \<Rightarrow> if en_allow_build env then check_build b (en_home env) (en_compose_dir env) (en_resolve env) name
               else ([BuildUnavailable name], None))"

definition check_service :: "stack_env \<Rightarrow> string list \<Rightarrow> string \<Rightarrow> fields \<Rightarrow> stack_error list" where
  "check_service env declared name svc =
     check_keys name svc @ check_image name svc @ fst (build_result env name svc)
     @ check_caps name (map_of svc ''cap_add'') @ check_mounts name declared (map_of svc ''volumes'')
     @ check_labels name (map_of svc ''labels'') @ check_deploy name (map_of svc ''deploy'')"

definition normal_caps :: "yv option \<Rightarrow> string list" where
  "normal_caps v = (case v of Some (YList cs) \<Rightarrow> sort (remdups (map cap_name cs)) | _ \<Rightarrow> [])"

definition deploy_limits :: "service_limits \<Rightarrow> yv" where
  "deploy_limits l = YMap [(''resources'', YMap [(''limits'', YMap
     [(''memory'', YStr (show_int (sl_memory l) @ ''M'')), (''cpus'', YStr (show_num (sl_cpus l)))])])]"

definition normal_service :: "fields \<Rightarrow> string option \<Rightarrow> fields" where
  "normal_service svc build_rel =
     (let rest = filter (\<lambda>(k, _). k \<notin> {''mem_limit'', ''cpus'', ''deploy'', ''restart'', ''cap_add''}) svc;
          built = (case build_rel of None \<Rightarrow> rest
            | Some r \<Rightarrow> set_prop ''build'' (YMap (case map_of svc ''build'' of
                 Some (YMap b) \<Rightarrow> set_prop ''context'' (YStr r) b
               | _ \<Rightarrow> [(''context'', YStr r)])) rest);
          caps = (if normal_caps (map_of svc ''cap_add'') = [] then built
                  else set_prop ''cap_add'' (YList (map YStr (normal_caps (map_of svc ''cap_add'')))) built)
      in set_prop ''deploy'' (deploy_limits (limits_of svc)) (set_prop ''restart'' (YStr ''unless-stopped'') caps))"

section \<open>The stack\<close>

record quota =
  q_memory :: int
  q_cpus :: rat

record checked_stack =
  cs_services :: "(string \<times> fields) list"
  cs_volumes :: "fields option"
  cs_limits :: "(string \<times> service_limits) list"
  cs_total :: service_limits

text \<open>\<open>Math.round(x * 1000) / 1000\<close>.\<close>

definition round_thousandth :: "rat \<Rightarrow> rat" where
  "round_thousandth x = of_int \<lfloor>x * 1000 + 1 / 2\<rfloor> / 1000"

definition add_limits :: "service_limits \<Rightarrow> service_limits \<Rightarrow> service_limits" where
  "add_limits a l = \<lparr>sl_memory = sl_memory a + sl_memory l, sl_cpus = round_thousandth (sl_cpus a + sl_cpus l)\<rparr>"

definition total_limits :: "service_limits list \<Rightarrow> service_limits" where
  "total_limits ls = foldl add_limits \<lparr>sl_memory = 0, sl_cpus = 0\<rparr> ls"

text \<open>The loop over the services: errors, and name, limits and normal form of each that is a map.\<close>

fun check_services ::
  "stack_env \<Rightarrow> string list \<Rightarrow> (string \<times> yv) list \<Rightarrow> stack_error list \<times> (string \<times> service_limits) list \<times> (string \<times> fields) list" where
  "check_services env declared [] = ([], [], [])"
| "check_services env declared ((name, raw) # rest) =
     (let e0 = (if rx_test service_name_re name then [] else [ServiceName name]);
          (es, ls, out) = check_services env declared rest
      in case (if raw = YNull then YMap [] else raw) of
           YMap svc \<Rightarrow>
             (e0 @ check_service env declared name svc @ es, (name, limits_of svc) # ls,
              (name, normal_service svc (snd (build_result env name svc))) # out)
         | _ \<Rightarrow> (e0 @ ServiceShape name # es, ls, out))"

definition quota_errors :: "quota \<Rightarrow> service_limits \<Rightarrow> stack_error list" where
  "quota_errors q t =
     (if q_memory q < sl_memory t then [OverMemory (sl_memory t) (q_memory q)] else [])
     @ (if q_cpus q < sl_cpus t then [OverCpus (sl_cpus t) (q_cpus q)] else [])
     @ (if q_memory q < sl_memory t \<or> q_cpus q < sl_cpus t then [ToFit] else [])"

definition top_volumes :: "fields \<Rightarrow> stack_error list \<times> fields" where
  "top_volumes doc = (case otherwise (map_of doc ''volumes'') (Some (YMap [])) of
     Some (YMap vs) \<Rightarrow> ([], vs) | _ \<Rightarrow> ([VolumesNotMap], []))"

definition service_entries :: "fields \<Rightarrow> stack_error list \<times> fields" where
  "service_entries doc = (case map_of doc ''services'' of
     Some (YMap kvs) \<Rightarrow> (if kvs = [] then [NoServices] else [], kvs) | _ \<Rightarrow> ([NoServices], []))"

definition check_top :: "stack_env \<Rightarrow> quota \<Rightarrow> fields \<Rightarrow> stack_error list + checked_stack" where
  "check_top env q doc =
     (let (ve, volumes) = top_volumes doc;
          (se, entries) = service_entries doc;
          (es, limits, out) = check_services env (map fst volumes) entries;
          total = total_limits (map snd limits);
          errors = concat (map (\<lambda>(k, _). if k \<notin> set TOP_ALLOWED \<and> \<not> is_ext k then [TopNotAllowed k] else []) doc)
            @ se @ ve @ concat (map (\<lambda>(n, v). check_volume n v) volumes) @ es @ quota_errors q total
      in if errors \<noteq> [] then Inl errors
         else Inr \<lparr>cs_services = out, cs_volumes = (if volumes = [] then None else Some volumes),
                   cs_limits = limits, cs_total = total\<rparr>)"

definition check_stack ::
  "(string \<Rightarrow> yaml_doc) \<Rightarrow> stack_env \<Rightarrow> quota \<Rightarrow> string \<Rightarrow> stack_error list + checked_stack" where
  "check_stack yaml env q text =
     (case parse_strict yaml text of
        Inl e \<Rightarrow> Inl [e]
      | Inr (Some (YMap doc)) \<Rightarrow>
          (let merges = merge_keys (YMap doc) []
           in if merges \<noteq> [] then Inl [MergeKeys (take 3 merges)] else check_top env q doc)
      | Inr _ \<Rightarrow> Inl [NotCompose])"

end
