(* ===== verification/WorkloadShape.thy ===== *)
theory WorkloadShape
  imports StackCheck
begin

text \<open>
  What a stack runs, as an owner approves it (\<open>modules/workloads/shape.ts\<close>, the image references of
  \<open>docker.ts\<close>): per service the image and its digest, or for a build its folder and hashes of its Dockerfile and
  of its arguments. SHA-256, the registry, the files of the agent's folder and \<open>quoteForCard\<close> are parameters.
  A stored approval is the JSON text of the value modelled here.
\<close>

section \<open>Digests\<close>

definition digest_re :: rx where
  "digest_re = Cat (lit ''sha256:'') (exactly 64 (Cls (\<lambda>c. is_digit c \<or> c \<in> set ''abcdef'')))"

text \<open>\<open>/@(sha256:[a-f0-9]{64})$/.exec(ref)\<close>: the 71 characters after an at sign.\<close>

definition pinned_of :: "string \<Rightarrow> string option" where
  "pinned_of r = (let d = drop (length r - 71) r
     in if 72 \<le> length r \<and> r ! (length r - 72) = CHR ''@'' \<and> rx_test digest_re d then Some d else None)"

definition resolve_digest :: "(string \<Rightarrow> string option) \<Rightarrow> string \<Rightarrow> string option" where
  "resolve_digest registry r = (case pinned_of r of
     Some d \<Rightarrow> Some d
   | None \<Rightarrow> (case registry r of Some d \<Rightarrow> if rx_test digest_re d then Some d else None | None \<Rightarrow> None))"

definition bare_ref :: "string \<Rightarrow> string" where
  "bare_ref r = (if pinned_of r = None then r else take (length r - 72) r)"

definition pin_ref :: "string \<Rightarrow> string \<Rightarrow> string" where
  "pin_ref r digest = bare_ref r @ ''@'' @ digest"

section \<open>Build arguments\<close>

definition normal_arg :: "yv \<Rightarrow> string" where
  "normal_arg a = (let s = js_text a in if CHR ''='' \<in> set s then s else s @ ''='')"

definition normal_pair :: "string \<times> yv \<Rightarrow> string" where
  "normal_pair kv = fst kv @ ''='' @ (if snd kv = YNull then [] else js_text (snd kv))"

definition normalize_args :: "yv option \<Rightarrow> string list" where
  "normalize_args v = (if \<not> is_truthy v then [] else (case v of
     Some (YList as) \<Rightarrow> sort (map normal_arg as)
   | Some (YMap kvs) \<Rightarrow> sort (map normal_pair kvs)
   | Some (YStr s) \<Rightarrow> sort (map (\<lambda>i. show_nat i @ ''='' @ [s ! i]) [0 ..< length s])
   | _ \<Rightarrow> []))"

text \<open>\<open>JSON.stringify\<close> of a list of texts.\<close>

definition hex_digit :: "nat \<Rightarrow> char" where
  "hex_digit n = char_of (if n < 10 then 48 + n else 87 + n)"

definition json_char :: "char \<Rightarrow> string" where
  "json_char c =
     (if c = CHR 0x22 then [CHR 0x5C, CHR 0x22] else if c = CHR 0x5C then [CHR 0x5C, CHR 0x5C]
      else if c = CHR 0x08 then [CHR 0x5C, CHR ''b''] else if c = CHR 0x09 then [CHR 0x5C, CHR ''t'']
      else if c = CHR 0x0A then [CHR 0x5C, CHR ''n''] else if c = CHR 0x0C then [CHR 0x5C, CHR ''f'']
      else if c = CHR 0x0D then [CHR 0x5C, CHR ''r'']
      else if code c < 32 then [CHR 0x5C, CHR ''u'', CHR ''0'', CHR ''0'', hex_digit (code c div 16), hex_digit (code c mod 16)]
      else [c])"

definition json_text :: "string \<Rightarrow> string" where
  "json_text s = CHR 0x22 # concat (map json_char s) @ [CHR 0x22]"

definition json_texts :: "string list \<Rightarrow> string" where
  "json_texts ss = ''['' @ join_with '','' (map json_text ss) @ '']''"

definition hash_args :: "(string \<Rightarrow> string) \<Rightarrow> yv option \<Rightarrow> string" where
  "hash_args sha v = sha (json_texts (normalize_args v))"

definition dockerfile_of :: "fields \<Rightarrow> string" where
  "dockerfile_of b = (case otherwise (map_of b ''dockerfile'') None of None \<Rightarrow> ''Dockerfile'' | Some f \<Rightarrow> js_text f)"

definition build_of :: "fields \<Rightarrow> fields" where
  "build_of svc = (case map_of svc ''build'' of Some (YMap b) \<Rightarrow> b | Some (YStr c) \<Rightarrow> [(''context'', YStr c)] | _ \<Rightarrow> [])"

definition context_of :: "fields \<Rightarrow> string" where
  "context_of b = (case otherwise (map_of b ''context'') None of None \<Rightarrow> ''.'' | Some c \<Rightarrow> js_text c)"

section \<open>Paths\<close>

text \<open>\<open>path.join\<close>.\<close>

fun norm_parts :: "bool \<Rightarrow> string list \<Rightarrow> string list \<Rightarrow> string list" where
  "norm_parts absolute acc [] = rev acc"
| "norm_parts absolute acc (p # ps) =
     (if p = [] \<or> p = ''.'' then norm_parts absolute acc ps
      else if p = ''..'' then
        (if acc \<noteq> [] \<and> hd acc \<noteq> ''..'' then norm_parts absolute (tl acc) ps
         else norm_parts absolute (if absolute then acc else p # acc) ps)
      else norm_parts absolute (p # acc) ps)"

definition path_normalize :: "string \<Rightarrow> string" where
  "path_normalize s =
     (let absolute = starts_with s ''/'';
          body = join_with ''/'' (norm_parts absolute [] (split_on (CHR ''/'') s));
          tail = (if s \<noteq> [] \<and> List.last s = CHR ''/'' then ''/'' else [])
      in if body = [] then (if absolute then ''/'' else ''.'' @ tail)
         else (if absolute then ''/'' else []) @ body @ tail)"

definition path_join :: "string \<Rightarrow> string \<Rightarrow> string" where
  "path_join a b = path_normalize (if a = [] then b else if b = [] then a else a @ ''/'' @ b)"

section \<open>Dockerfiles\<close>

definition is_eol :: "char \<Rightarrow> bool" where
  "is_eol c = (c = CHR 0x0A \<or> c = CHR 0x0D)"

text \<open>
  The capture of \<open>/^\s*FROM\s+(.+?)\s*$/i\<close>. After a bare \<open>FROM\<close> the pattern backs into the white space and captures
  its last character that is not an end of line, the first excepted.
\<close>

definition from_line :: "string \<Rightarrow> string option" where
  "from_line l =
     (let s = dropWhile js_space l; r = drop 4 s; w = takeWhile js_space r; t = js_trim r
      in if map upper (take 4 s) \<noteq> ''FROM'' \<or> w = [] then None
         else if t \<noteq> [] then (if list_ex is_eol t then None else Some t)
         else (case rev (filter (\<lambda>c. \<not> is_eol c) (tl w)) of [] \<Rightarrow> None | c # _ \<Rightarrow> Some [c]))"

definition from_lines :: "string \<Rightarrow> string list" where
  "from_lines s = take 4 (filter (\<lambda>x. x \<noteq> []) (List.map_filter from_line (split_on (CHR 0x0A) s)))"

section \<open>Shapes\<close>

record service_shape =
  sh_line :: string
  sh_ref :: "string option"
  sh_digest :: "string option"
  sh_dockerfile :: "string option"
  sh_args :: "string option"

record approved =
  ap_hash :: "string option"
  ap_services :: "(string \<times> service_shape) list"

record stack_shape =
  ss_services :: "(string \<times> service_shape \<times> string) list"
  ss_lines :: "string list"
  ss_hash :: string

datatype shape_error = NoDockerfile string string | NoImage string

record shape_env =
  se_sha :: "string \<Rightarrow> string"
  se_registry :: "string \<Rightarrow> string option"
  se_plain :: "string \<Rightarrow> string option"
  se_quote :: "string \<Rightarrow> string"

definition caps_of :: "fields \<Rightarrow> string list" where
  "caps_of svc = (case map_of svc ''cap_add'' of Some (YList cs) \<Rightarrow> map js_text cs | _ \<Rightarrow> [])"

definition cap_line :: "fields \<Rightarrow> string" where
  "cap_line svc = (if caps_of svc = [] then [] else '', cap_add '' @ join_with '','' (caps_of svc))"

definition cap_text :: "fields \<Rightarrow> string" where
  "cap_text svc = (if caps_of svc = [] then [] else ''; adds '' @ join_with '', '' (caps_of svc))"

definition image_of :: "fields \<Rightarrow> string" where
  "image_of svc = (case map_of svc ''image'' of None \<Rightarrow> ''undefined'' | Some v \<Rightarrow> js_text v)"

definition approved_digest :: "approved option \<Rightarrow> string \<Rightarrow> string \<Rightarrow> string option" where
  "approved_digest ap name r =
     (case ap of None \<Rightarrow> None
      | Some a \<Rightarrow> (case map_of (ap_services a) name of None \<Rightarrow> None
          | Some s \<Rightarrow> if sh_ref s = Some r \<and> truthy (sh_digest s) then sh_digest s else None))"

definition image_shape ::
  "shape_env \<Rightarrow> approved option \<Rightarrow> string \<Rightarrow> fields \<Rightarrow> shape_error + service_shape \<times> string" where
  "image_shape env ap name svc =
     (let r = image_of svc
      in case (case approved_digest ap name r of Some d \<Rightarrow> Some d | None \<Rightarrow> resolve_digest (se_registry env) r) of
           None \<Rightarrow> Inl (NoImage r)
         | Some d \<Rightarrow> Inr (\<lparr>sh_line = name @ '': image '' @ r @ '' '' @ d @ cap_line svc,
             sh_ref = Some r, sh_digest = Some d, sh_dockerfile = None, sh_args = None\<rparr>,
             se_quote env r @ '' ('' @ take 19 d @ [ellipsis] @ '')'' @ cap_text svc))"

definition build_text :: "shape_env \<Rightarrow> fields \<Rightarrow> string \<Rightarrow> string \<Rightarrow> string \<Rightarrow> string" where
  "build_text env b df dockerfile args =
     (let quoted = (\<lambda>xs. join_with '', '' (map (se_quote env) xs));
          names = map (takeWhile (\<lambda>c. c \<noteq> CHR ''='')) (normalize_args (map_of b ''args''))
      in ''built from '' @ se_quote env (context_of b)
         @ (if is_truthy (map_of b ''target'') then '' (stage '' @ se_quote env (js_text (the (map_of b ''target''))) @ '')'' else [])
         @ '', Dockerfile '' @ take 12 dockerfile
         @ (if from_lines df = [] then [] else '' FROM '' @ quoted (from_lines df))
         @ (if names = [] then [] else ''; build args '' @ quoted names @ '' ('' @ take 12 args @ '')''))"

definition build_line :: "fields \<Rightarrow> string \<Rightarrow> string \<Rightarrow> string \<Rightarrow> string" where
  "build_line b name dockerfile args =
     name @ '': build '' @ context_of b
     @ (if is_truthy (map_of b ''target'') then '' target '' @ js_text (the (map_of b ''target'')) else [])
     @ '', Dockerfile '' @ dockerfile @ '', args '' @ args"

definition build_shape :: "shape_env \<Rightarrow> string \<Rightarrow> fields \<Rightarrow> shape_error + service_shape \<times> string" where
  "build_shape env name svc =
     (let b = build_of svc; rel = path_join (context_of b) (dockerfile_of b)
      in case se_plain env rel of
           None \<Rightarrow> Inl (NoDockerfile name rel)
         | Some df \<Rightarrow>
             (let dockerfile = se_sha env df; args = hash_args (se_sha env) (map_of b ''args'')
              in Inr (\<lparr>sh_line = build_line b name dockerfile args @ cap_line svc, sh_ref = None, sh_digest = None,
                       sh_dockerfile = Some dockerfile, sh_args = Some args\<rparr>,
                      build_text env b df dockerfile args @ cap_text svc)))"

definition shape_of ::
  "shape_env \<Rightarrow> approved option \<Rightarrow> string \<Rightarrow> fields \<Rightarrow> shape_error + service_shape \<times> string" where
  "shape_of env ap name svc = (if map_of svc ''build'' = None then image_shape env ap name svc else build_shape env name svc)"

fun shapes_of ::
  "shape_env \<Rightarrow> approved option \<Rightarrow> (string \<times> fields) list \<Rightarrow> shape_error + (string \<times> service_shape \<times> string) list" where
  "shapes_of env ap [] = Inr []"
| "shapes_of env ap ((name, svc) # rest) =
     (case shape_of env ap name svc of Inl e \<Rightarrow> Inl e
      | Inr s \<Rightarrow> (case shapes_of env ap rest of Inl e \<Rightarrow> Inl e | Inr ss \<Rightarrow> Inr ((name, s) # ss)))"

definition make_shape :: "(string \<Rightarrow> string) \<Rightarrow> (string \<times> service_shape \<times> string) list \<Rightarrow> stack_shape" where
  "make_shape sha ss =
     (let lines = map (\<lambda>(_, s, _). sh_line s) ss
      in \<lparr>ss_services = ss, ss_lines = lines, ss_hash = take 32 (sha (join_with [CHR 0x0A] lines))\<rparr>)"

definition stack_shape :: "shape_env \<Rightarrow> approved option \<Rightarrow> checked_stack \<Rightarrow> shape_error + stack_shape" where
  "stack_shape env ap st =
     (case shapes_of env ap (sort_key fst (cs_services st)) of
        Inl e \<Rightarrow> Inl e | Inr ss \<Rightarrow> Inr (make_shape (se_sha env) ss))"

text \<open>What \<open>encodeApproved\<close> keeps: everything but the words of the card.\<close>

definition encode_approved :: "stack_shape \<Rightarrow> approved" where
  "encode_approved s = \<lparr>ap_hash = Some (ss_hash s), ap_services = map (\<lambda>(n, v, _). (n, v)) (ss_services s)\<rparr>"

definition describe_shape :: "stack_shape \<Rightarrow> approved option \<Rightarrow> string list" where
  "describe_shape shape ap =
     (let before = (case ap of None \<Rightarrow> [] | Some a \<Rightarrow> ap_services a)
      in map (\<lambda>(n, s, words). [bullet, CHR 0x20] @ n @ '': '' @ words @
            (if before = [] then [] else case map_of before n of None \<Rightarrow> '' (new)''
               | Some b \<Rightarrow> if sh_line b \<noteq> sh_line s then '' (changed)'' else [])) (ss_services shape)
         @ map (\<lambda>(n, _). [bullet, CHR 0x20] @ n @ '': removed'')
             (filter (\<lambda>(n, _). map_of (ss_services shape) n = None) before))"

end
