(* ===== verification/WorkloadNet.thy ===== *)
theory WorkloadNet
  imports StackCheck Tables "HOL-Library.Char_ord" "HOL-Library.List_Lexorder"
begin

text \<open>
  Addresses of workloads (\<open>modules/workloads/override.ts\<close>, \<open>claimNetwork\<close> of \<open>store.ts\<close>): one /24 of
  198.18.0.0/15 for each agent, and a fixed address in it for each service.
\<close>

definition SUBNET_BASE :: "nat \<times> nat" where "SUBNET_BASE = (198, 18)"
definition MAX_NETWORKS :: nat where "MAX_NETWORKS = 511"
definition PROBE_INDEX :: nat where "PROBE_INDEX = 511"
definition FIRST_SERVICE :: nat where "FIRST_SERVICE = 10"
definition LAST_SERVICE :: nat where "LAST_SERVICE = 127"

record subnet =
  sn_subnet :: string
  sn_ip_range :: string
  sn_prefix :: string
  sn_gateway :: string

text \<open>\<open>None\<close>: the index is out of range and the call throws.\<close>

definition subnet_for :: "nat \<Rightarrow> subnet option" where
  "subnet_for index =
     (if PROBE_INDEX < index then None
      else (let net = show_nat (fst SUBNET_BASE) @ ''.'' @ show_nat (snd SUBNET_BASE + index div 256) @ ''.'' @ show_nat (index mod 256)
            in Some \<lparr>sn_subnet = net @ ''.0/24'', sn_ip_range = net @ ''.128/25'', sn_prefix = net, sn_gateway = net @ ''.1''\<rparr>))"

definition address :: "string \<Rightarrow> nat \<Rightarrow> string" where
  "address net n = net @ ''.'' @ show_nat n"

type_synonym addresses = "(string \<times> string) list"

text \<open>The services that keep what they had: the addresses in use, and what is given out.\<close>

fun keep_addresses :: "string \<Rightarrow> addresses \<Rightarrow> string list \<Rightarrow> string set \<Rightarrow> addresses \<Rightarrow> string set \<times> addresses" where
  "keep_addresses net keep [] used out = (used, out)"
| "keep_addresses net keep (n # ns) used out =
     (case map_of keep n of
        Some a \<Rightarrow> if a \<noteq> [] \<and> starts_with a (net @ ''.'') \<and> a \<notin> used
                  then keep_addresses net keep ns (insert a used) ((n, a) # out)
                  else keep_addresses net keep ns used out
      | None \<Rightarrow> keep_addresses net keep ns used out)"

function next_free :: "string \<Rightarrow> string set \<Rightarrow> nat \<Rightarrow> nat" where
  "next_free net used n =
     (if n \<le> LAST_SERVICE \<and> address net n \<in> used then next_free net used (n + 1) else n)"
  by pat_completeness auto
termination
  by (relation "measure (\<lambda>(_, _, n). LAST_SERVICE + 1 - n)") auto

declare next_free.simps [simp del]

text \<open>The others, in the order of their names. \<open>None\<close>: no address is left.\<close>

fun place_addresses :: "string \<Rightarrow> string list \<Rightarrow> string set \<Rightarrow> nat \<Rightarrow> addresses \<Rightarrow> addresses option" where
  "place_addresses net [] used n out = Some out"
| "place_addresses net (s # ss) used n out =
     (if map_of out s \<noteq> None then place_addresses net ss used n out
      else (let k = next_free net used n
            in if LAST_SERVICE < k then None
               else place_addresses net ss (insert (address net k) used) k ((s, address net k) # out)))"

text \<open>
  The lookup of a service without an address finds what every object inherits; of the names a service may have
  only \<open>constructor\<close> is such a property, and the call throws on it.
\<close>

definition inherited :: "string \<Rightarrow> bool" where
  "inherited n = (n = ''constructor'')"

definition service_addresses :: "string \<Rightarrow> string list \<Rightarrow> addresses \<Rightarrow> string list \<Rightarrow> addresses option" where
  "service_addresses net services keep taken =
     (if list_ex (\<lambda>n. inherited n \<and> map_of keep n = None) services then None
      else case keep_addresses net keep services (set taken) [] of
        (used, out) \<Rightarrow> place_addresses net (sort services) used FIRST_SERVICE out)"

section \<open>Networks\<close>

record network_row =
  nw_group :: string
  nw_idx :: nat
  nw_name :: string

definition network_of :: "string \<Rightarrow> network_row list \<Rightarrow> network_row option" where
  "network_of g rows = tbl_get nw_group g rows"

function lowest_free :: "nat set \<Rightarrow> nat \<Rightarrow> nat \<Rightarrow> nat" where
  "lowest_free used bound idx = (if idx \<in> used \<and> idx < bound then lowest_free used bound (idx + 1) else idx)"
  by pat_completeness auto
termination
  by (relation "measure (\<lambda>(_, bound, idx). bound - idx)") auto

declare lowest_free.simps [simp del]

text \<open>
  The loop of the code has no bound; it ends because the used indices are finitely many, and a bound above them
  all changes nothing. \<open>None\<close>: no network is left.
\<close>

definition claim_network ::
  "string \<Rightarrow> (nat \<Rightarrow> string) \<Rightarrow> nat \<Rightarrow> network_row list \<Rightarrow> network_row option \<times> network_row list" where
  "claim_network g name most rows =
     (case network_of g rows of
        Some r \<Rightarrow> (Some r, rows)
      | None \<Rightarrow>
          (let used = nw_idx ` set rows; idx = lowest_free used (Suc (fold max (map nw_idx rows) 0)) 0
           in if most \<le> idx then (None, rows)
              else (let r = \<lparr>nw_group = g, nw_idx = idx, nw_name = name idx\<rparr> in (Some r, rows @ [r]))))"

section \<open>Addresses are distinct\<close>

lemma show_nat_inj: "show_nat m = show_nat n \<Longrightarrow> m = n"
  by (metis read_show_nat)

lemma address_inj [simp]: "address p m = address p n \<longleftrightarrow> m = n"
  by (auto simp: address_def dest: show_nat_inj)

lemma next_free_ge: "n \<le> next_free p used n"
proof (induction p used n rule: next_free.induct)
  case (1 p used n)
  show ?case
  proof (cases "n \<le> LAST_SERVICE \<and> address p n \<in> used")
    case True
    then have "next_free p used n = next_free p used (n + 1)" by (subst next_free.simps) simp
    with 1 True show ?thesis by simp
  next
    case False
    then have "next_free p used n = n" by (subst next_free.simps) auto
    then show ?thesis by simp
  qed
qed

lemma next_free_result: "next_free p used n \<le> LAST_SERVICE \<Longrightarrow> address p (next_free p used n) \<notin> used"
proof (induction p used n rule: next_free.induct)
  case (1 p used n)
  then show ?case by (subst (asm) (2) next_free.simps, subst next_free.simps) (auto split: if_splits)
qed

lemma next_free_skips: "n \<le> k \<Longrightarrow> k < next_free p used n \<Longrightarrow> k \<le> LAST_SERVICE \<Longrightarrow> address p k \<in> used"
proof (induction p used n rule: next_free.induct)
  case (1 p used n)
  show ?case
  proof (cases "n \<le> LAST_SERVICE \<and> address p n \<in> used")
    case True
    then have "next_free p used n = next_free p used (n + 1)" by (subst next_free.simps) simp
    with 1 True show ?thesis by (cases "k = n") auto
  next
    case False
    then have "next_free p used n = n" by (subst next_free.simps) auto
    with 1 show ?thesis by simp
  qed
qed

text \<open>What is given out so far: distinct services, distinct addresses, all in use, none of the taken ones.\<close>

definition given :: "string set \<Rightarrow> string set \<Rightarrow> addresses \<Rightarrow> bool" where
  "given taken used out \<longleftrightarrow> distinct (map fst out) \<and> distinct (map snd out) \<and> used = taken \<union> snd ` set out
     \<and> taken \<inter> snd ` set out = {}"

definition allowed_address :: "string \<Rightarrow> addresses \<Rightarrow> string \<times> string \<Rightarrow> bool" where
  "allowed_address p keep x \<longleftrightarrow> (map_of keep (fst x) = Some (snd x) \<and> starts_with (snd x) (p @ ''.''))
     \<or> (\<exists>k. snd x = address p k \<and> FIRST_SERVICE \<le> k \<and> k \<le> LAST_SERVICE)"

lemma keep_addresses_given:
  assumes "keep_addresses p keep ns used out = (used', out')" "given taken used out" "distinct ns"
    "fst ` set out \<inter> set ns = {}"
  shows "given taken used' out' \<and> fst ` set out' \<subseteq> fst ` set out \<union> set ns
    \<and> (\<forall>x \<in> set out'. x \<in> set out \<or> allowed_address p keep x) \<and> set out \<subseteq> set out'"
  using assms
proof (induction ns arbitrary: used out)
  case (Cons n ns)
  show ?case
  proof (cases "\<exists>a. map_of keep n = Some a \<and> a \<noteq> [] \<and> starts_with a (p @ ''.'') \<and> a \<notin> used")
    case True
    then obtain a where a: "map_of keep n = Some a" "a \<noteq> []" "starts_with a (p @ ''.'')" "a \<notin> used" by blast
    have "given taken (insert a used) ((n, a) # out)"
      using Cons.prems(2,4) a(4) by (auto simp: given_def)
    with Cons.IH [of "insert a used" "(n, a) # out"] Cons.prems a show ?thesis
      by (auto simp: allowed_address_def)
  next
    case False
    then have "keep_addresses p keep (n # ns) used out = keep_addresses p keep ns used out"
      by (auto split: option.splits)
    with Cons.IH [of used out] Cons.prems show ?thesis by auto
  qed
qed simp

lemma place_addresses_given:
  assumes "place_addresses p ss used n out = Some out'" "given taken used out" "FIRST_SERVICE \<le> n"
  shows "given taken (taken \<union> snd ` set out') out' \<and> fst ` set out' = fst ` set out \<union> set ss
    \<and> (\<forall>x \<in> set out'. x \<in> set out \<or> allowed_address p keep x) \<and> set out \<subseteq> set out'"
  using assms
proof (induction ss arbitrary: used n out)
  case Nil
  then show ?case by (auto simp: given_def)
next
  case (Cons s ss)
  show ?case
  proof (cases "map_of out s")
    case (Some a)
    then have "s \<in> fst ` set out" by (auto dest: map_of_SomeD intro: rev_image_eqI)
    with Some Cons.prems Cons.IH [of used n out] show ?thesis by auto
  next
    case None
    let ?k = "next_free p used n"
    from None Cons.prems(1) have k: "?k \<le> LAST_SERVICE"
      and rest: "place_addresses p ss (insert (address p ?k) used) ?k ((s, address p ?k) # out) = Some out'"
      by (auto simp: Let_def split: if_splits)
    have "s \<notin> fst ` set out" using None by (auto simp: map_of_eq_None_iff)
    moreover have "address p ?k \<notin> used" by (rule next_free_result [OF k])
    ultimately have "given taken (insert (address p ?k) used) ((s, address p ?k) # out)"
      using Cons.prems(2) by (auto simp: given_def)
    moreover have "FIRST_SERVICE \<le> ?k" using Cons.prems(3) next_free_ge le_trans by blast
    ultimately show ?thesis
      using Cons.IH [OF rest] k by (auto simp: allowed_address_def)
  qed
qed

lemma given_start: "given (set taken) (set taken) []"
  by (simp add: given_def)

text \<open>
  Every service of a stack gets an address of its own. The addresses are distinct, none is taken by another
  stack of the agent, and each is the one the service had or one of .10 to .127 of the agent's network.
\<close>

theorem service_addresses_distinct:
  assumes "service_addresses net services keep taken = Some out" and "distinct services"
  shows "fst ` set out = set services \<and> distinct (map fst out) \<and> distinct (map snd out)
    \<and> set taken \<inter> snd ` set out = {} \<and> (\<forall>x \<in> set out. allowed_address net keep x)"
proof -
  obtain used out1 where k: "keep_addresses net keep services (set taken) [] = (used, out1)" by fastforce
  have g: "given (set taken) used out1" "fst ` set out1 \<subseteq> set services" "\<forall>x \<in> set out1. allowed_address net keep x"
    using keep_addresses_given [OF k given_start assms(2)] by auto
  have "place_addresses net (sort services) used FIRST_SERVICE out1 = Some out"
    using assms(1) k by (simp add: service_addresses_def split: if_splits)
  note p = place_addresses_given [OF this g(1) order_refl, of keep]
  have "\<forall>x \<in> set out. allowed_address net keep x" using p g(3) by blast
  with p g(2) show ?thesis by (auto simp: given_def)
qed

lemma service_addresses_distinct_witness:
  "fst ` set [(''b'', ''n.3''), (''a'', ''n.10'')] = set [''a'', ''b''] \<and> set [''n.11''] \<inter> snd ` set [(''b'', ''n.3''), (''a'', ''n.10'')] = {}"
proof -
  have run: "service_addresses ''n'' [''b'', ''a''] [(''b'', ''n.3'')] [''n.11''] = Some [(''a'', ''n.10''), (''b'', ''n.3'')]"
    by code_simp
  show ?thesis using service_addresses_distinct [OF run] by auto
qed

lemma keep_addresses_used:
  "keep_addresses p keep ns used out = (used', out') \<Longrightarrow> finite used
    \<Longrightarrow> finite used' \<and> card used' + length out \<le> card used + length out'
      \<and> length out' \<le> length out + length ns"
proof (induction ns arbitrary: used out)
  case (Cons n ns)
  show ?case
  proof (cases "\<exists>a. map_of keep n = Some a \<and> a \<noteq> [] \<and> starts_with a (p @ ''.'') \<and> a \<notin> used")
    case True
    then obtain a where a: "map_of keep n = Some a" "a \<noteq> []" "starts_with a (p @ ''.'')" "a \<notin> used" by blast
    with Cons.IH [of "insert a used" "(n, a) # out"] Cons.prems show ?thesis by auto
  next
    case False
    then have "keep_addresses p keep (n # ns) used out = keep_addresses p keep ns used out"
      by (auto split: option.splits)
    with Cons.IH [of used out] Cons.prems show ?thesis by auto
  qed
qed simp

lemma next_free_room:
  assumes "finite used" "card used < LAST_SERVICE + 1 - FIRST_SERVICE" "\<And>k. FIRST_SERVICE \<le> k \<Longrightarrow> k < n \<Longrightarrow> address p k \<in> used"
  shows "next_free p used n \<le> LAST_SERVICE"
proof (rule ccontr)
  assume "\<not> next_free p used n \<le> LAST_SERVICE"
  then have "address p k \<in> used" if "FIRST_SERVICE \<le> k" "k \<le> LAST_SERVICE" for k
    using that assms(3) next_free_skips [of n k p used] by (cases "k < n") auto
  then have "address p ` {FIRST_SERVICE .. LAST_SERVICE} \<subseteq> used" by auto
  moreover have "card (address p ` {FIRST_SERVICE .. LAST_SERVICE}) = LAST_SERVICE + 1 - FIRST_SERVICE"
    by (subst card_image) (auto simp: inj_on_def)
  ultimately have "LAST_SERVICE + 1 - FIRST_SERVICE \<le> card used" using card_mono [OF assms(1)] by metis
  with assms(2) show False by simp
qed

lemma place_addresses_room:
  assumes "finite used" "card used + length ss \<le> LAST_SERVICE + 1 - FIRST_SERVICE"
    "\<And>k. FIRST_SERVICE \<le> k \<Longrightarrow> k < n \<Longrightarrow> address p k \<in> used"
  shows "place_addresses p ss used n out \<noteq> None"
  using assms
proof (induction ss arbitrary: used n out)
  case (Cons s ss)
  show ?case
  proof (cases "map_of out s")
    case (Some a)
    with Cons show ?thesis by simp
  next
    case None
    let ?k = "next_free p used n"
    have k: "?k \<le> LAST_SERVICE" by (rule next_free_room) (use Cons.prems in auto)
    have "address p j \<in> insert (address p ?k) used" if "FIRST_SERVICE \<le> j" "j < ?k" for j
      using that Cons.prems(3) next_free_skips [of n j p used] k by (cases "j < n") auto
    moreover have "card (insert (address p ?k) used) + length ss \<le> LAST_SERVICE + 1 - FIRST_SERVICE"
      using Cons.prems(1,2) by (simp add: card_insert_if)
    ultimately have "place_addresses p ss (insert (address p ?k) used) ?k ((s, address p ?k) # out) \<noteq> None"
      using Cons.IH Cons.prems(1) by blast
    with None k show ?thesis by (simp add: Let_def)
  qed
qed simp

text \<open>
  A deploy is not refused for want of addresses while there are any: with the addresses of the agent's other
  stacks, the services kept and those still to be placed within 118, the placing succeeds.
\<close>

theorem service_addresses_available:
  assumes "length taken + 2 * length services \<le> 118" and "\<not> list_ex inherited services"
  shows "service_addresses net services keep taken \<noteq> None"
proof -
  obtain used out1 where k: "keep_addresses net keep services (set taken) [] = (used, out1)" by fastforce
  from keep_addresses_used [OF k] have "finite used" "card used \<le> length taken + length services"
    using card_length [of taken] by auto
  then have "place_addresses net (sort services) used FIRST_SERVICE out1 \<noteq> None"
    using assms(1) by (intro place_addresses_room) (auto simp: LAST_SERVICE_def FIRST_SERVICE_def)
  then show ?thesis using assms(2) by (auto simp: service_addresses_def k list_ex_iff)
qed

text \<open>A stack with a service named \<open>constructor\<close> passes every check and cannot be deployed.\<close>

lemma constructor_service_has_no_address:
  "rx_test service_name_re ''constructor'' \<and> service_addresses ''198.18.0'' [''constructor''] [] [] = None"
  by code_simp

lemma service_addresses_available_witness:
  "service_addresses ''n'' [''a''] [] [''n.10''] \<noteq> None"
  by (rule service_addresses_available) (simp_all add: inherited_def)

section \<open>Networks are disjoint\<close>

lemma lowest_free_result: "x < bound \<Longrightarrow> (\<And>i. i \<in> used \<Longrightarrow> i < bound) \<Longrightarrow> lowest_free used bound x \<notin> used"
proof (induction used bound x rule: lowest_free.induct)
  case (1 used bound x)
  show ?case
  proof (cases "x \<in> used")
    case True
    then have "lowest_free used bound x = lowest_free used bound (x + 1)"
      using 1 by (subst lowest_free.simps) auto
    moreover have "lowest_free used bound (x + 1) \<notin> used"
    proof (cases "x + 1 < bound")
      case True
      with \<open>x \<in> used\<close> 1 show ?thesis by auto
    next
      case False
      then have "x + 1 \<notin> used" using "1.prems" by blast
      then show ?thesis by (subst lowest_free.simps) auto
    qed
    ultimately show ?thesis by simp
  next
    case False
    then show ?thesis by (subst lowest_free.simps) auto
  qed
qed

lemma fold_max_upper: "x \<in> set xs \<Longrightarrow> x \<le> fold max xs (a::nat)" "a \<le> fold max xs a"
proof -
  have mono: "a \<le> fold max ys a" for ys and a :: nat by (induction ys arbitrary: a) (auto intro: le_trans [OF max.cobounded2])
  show "a \<le> fold max xs a" by (rule mono)
  show "x \<in> set xs \<Longrightarrow> x \<le> fold max xs a"
    by (induction xs arbitrary: a) (auto intro: le_trans [OF max.cobounded1 mono])
qed

definition networks_ok :: "nat \<Rightarrow> network_row list \<Rightarrow> bool" where
  "networks_ok most rows \<longleftrightarrow> distinct (map nw_group rows) \<and> distinct (map nw_idx rows) \<and> (\<forall>r \<in> set rows. nw_idx r < most)"

lemma claim_network_ok:
  assumes "networks_ok most rows" "claim_network g name most rows = (r, rows')"
  shows "networks_ok most rows' \<and> set rows \<subseteq> set rows' \<and> (\<forall>x. r = Some x \<longrightarrow> x \<in> set rows' \<and> nw_group x = g)"
proof (cases "network_of g rows")
  case (Some x)
  with assms show ?thesis by (auto simp: claim_network_def network_of_def dest: tbl_get_SomeD)
next
  case None
  define idx where "idx = lowest_free (nw_idx ` set rows) (Suc (fold max (map nw_idx rows) 0)) 0"
  have "idx \<notin> nw_idx ` set rows"
    unfolding idx_def by (rule lowest_free_result) (auto simp: less_Suc_eq_le intro: fold_max_upper)
  moreover have "g \<notin> nw_group ` set rows" using None by (simp add: network_of_def tbl_get_None)
  ultimately show ?thesis
    using None assms by (auto simp: claim_network_def Let_def idx_def [symmetric] networks_ok_def split: if_splits)
qed

lemma subnet_address_inj:
  assumes "subnet_for i = Some s" "subnet_for j = Some t" "address (sn_prefix s) m = address (sn_prefix t) n"
  shows "i = j \<and> m = n"
proof -
  define dot where "dot = CHR ''.''"
  have no_dot: "dot \<notin> set (show_nat k)" for k
    using show_nat_chars [of dot k] by (auto simp: dot_def is_digit_def code_def)
  have parts: "split_on dot (show_nat a @ dot # show_nat b @ dot # show_nat c @ dot # show_nat d)
      = [show_nat a, show_nat b, show_nat c, show_nat d]" for a b c d
    using no_dot by (simp add: split_on_append split_on_id)
  have form: "address (sn_prefix u) k = show_nat 198 @ dot # show_nat (18 + x div 256) @ dot # show_nat (x mod 256) @ dot # show_nat k"
    if "subnet_for x = Some u" for x u k
    using that by (auto simp: subnet_for_def address_def SUBNET_BASE_def Let_def dot_def split: if_splits)
  have "[show_nat 198, show_nat (18 + i div 256), show_nat (i mod 256), show_nat m]
      = [show_nat 198, show_nat (18 + j div 256), show_nat (j mod 256), show_nat n]"
    using assms(3) unfolding form [OF assms(1)] form [OF assms(2)] by (metis parts)
  then have "i div 256 = j div 256" "i mod 256 = j mod 256" "m = n" by (auto dest: show_nat_inj)
  then show ?thesis by (metis div_mult_mod_eq)
qed

text \<open>
  C36: Two agents never share an address. However networks are claimed, each agent has one, below the index of the
  isolation probe, and no address of one agent's network is an address of another's.
\<close>

theorem agent_networks_disjoint:
  assumes "networks_ok MAX_NETWORKS rows" and "claim_network g name MAX_NETWORKS rows = (r, rows')"
    and "x \<in> set rows'" and "y \<in> set rows'" and "nw_group x \<noteq> nw_group y"
    and "subnet_for (nw_idx x) = Some s" and "subnet_for (nw_idx y) = Some t"
  shows "networks_ok MAX_NETWORKS rows' \<and> nw_idx x \<noteq> PROBE_INDEX \<and> address (sn_prefix s) m \<noteq> address (sn_prefix t) n"
proof -
  have ok: "networks_ok MAX_NETWORKS rows'" using claim_network_ok [OF assms(1,2)] by blast
  have "nw_idx x \<noteq> nw_idx y"
    using ok assms(3-5) by (metis distinct_map inj_on_eq_iff networks_ok_def)
  with subnet_address_inj [OF assms(6,7)] ok assms(3) show ?thesis
    by (auto simp: networks_ok_def MAX_NETWORKS_def PROBE_INDEX_def)
qed

lemma agent_networks_disjoint_witness:
  "networks_ok MAX_NETWORKS [\<lparr>nw_group = ''g'', nw_idx = 0, nw_name = ''w0''\<rparr>, \<lparr>nw_group = ''h'', nw_idx = 1, nw_name = ''w1''\<rparr>]
    \<and> address ''198.18.0'' 10 \<noteq> address ''198.18.1'' 10"
proof -
  let ?g = "\<lparr>nw_group = ''g'', nw_idx = 0, nw_name = ''w0''\<rparr>" and ?h = "\<lparr>nw_group = ''h'', nw_idx = 1, nw_name = ''w1''\<rparr>"
  have start: "networks_ok MAX_NETWORKS [?g]" by (simp add: networks_ok_def MAX_NETWORKS_def)
  have run: "claim_network ''h'' (\<lambda>i. ''w'' @ show_nat i) MAX_NETWORKS [?g] = (Some ?h, [?g, ?h])"
    by code_simp
  have s: "subnet_for 0 = Some \<lparr>sn_subnet = ''198.18.0.0/24'', sn_ip_range = ''198.18.0.128/25'', sn_prefix = ''198.18.0'', sn_gateway = ''198.18.0.1''\<rparr>"
    by code_simp
  have t: "subnet_for 1 = Some \<lparr>sn_subnet = ''198.18.1.0/24'', sn_ip_range = ''198.18.1.128/25'', sn_prefix = ''198.18.1'', sn_gateway = ''198.18.1.1''\<rparr>"
    by code_simp
  show ?thesis
    using agent_networks_disjoint [OF start run, where x = ?g and y = ?h and s = "the (subnet_for 0)" and t = "the (subnet_for 1)" and m = 10 and n = 10]
    by (simp add: s t [simplified])
qed

end
