(* ===== verification/WorkloadStore.thy ===== *)
theory WorkloadStore
  imports WorkloadShape WorkloadNet
begin

text \<open>
  The rows of workloads (\<open>modules/workloads/store.ts\<close>): workloads, quotas, and the builds started without a card.
  JSON columns hold the values they encode. An id is drawn by the caller. A disk quota is a rational number
  of gigabytes; memory is in whole megabytes.
\<close>

datatype workload_state = Deploying | Running | Stopped | Failed | Deleted

record workload =
  wl_id :: string
  wl_group :: string
  wl_name :: string
  wl_state :: workload_state
  wl_text :: string
  wl_stack :: checked_stack
  wl_addresses :: addresses
  wl_memory :: int
  wl_cpus :: rat
  wl_approved_memory :: int
  wl_approved_cpus :: rat
  wl_approved_shape :: "approved option"
  wl_error :: "string option"
  wl_expires :: "millis option"
  wl_created_by :: "string option"
  wl_created :: millis
  wl_updated :: millis

record disk_quota =
  dq_memory :: int
  dq_cpus :: rat
  dq_disk :: rat

record workload_db =
  wd_rows :: "workload list"
  wd_networks :: "network_row list"
  wd_quotas :: "(string \<times> disk_quota) list"
  wd_builds :: "(string \<times> millis) list"

section \<open>Workloads\<close>

definition live :: "workload \<Rightarrow> bool" where
  "live w = (wl_state w \<noteq> Deleted)"

definition list_workloads :: "string option \<Rightarrow> bool \<Rightarrow> workload_db \<Rightarrow> workload list" where
  "list_workloads g include_deleted db =
     sort_key wl_created (filter (\<lambda>w. (truthy g \<longrightarrow> Some (wl_group w) = g) \<and> (include_deleted \<or> live w)) (wd_rows db))"

definition find_workload :: "string \<Rightarrow> string \<Rightarrow> workload_db \<Rightarrow> workload option" where
  "find_workload g name db = find (\<lambda>w. wl_group w = g \<and> wl_name w = name \<and> live w) (wd_rows db)"

definition get_workload :: "string \<Rightarrow> workload_db \<Rightarrow> workload option" where
  "get_workload i db = tbl_get wl_id i (wd_rows db)"

record new_workload =
  nw_agent :: string
  nw_title :: string
  nw_compose :: string
  nw_stack :: checked_stack
  nw_placed :: addresses
  nw_expires :: "millis option"
  nw_author :: "string option"
  nw_shape :: "approved option"

definition insert_workload :: "string \<Rightarrow> millis \<Rightarrow> new_workload \<Rightarrow> workload_db \<Rightarrow> workload \<times> workload_db" where
  "insert_workload i now n db =
     (let t = cs_total (nw_stack n);
          w = \<lparr>wl_id = i, wl_group = nw_agent n, wl_name = nw_title n, wl_state = Deploying, wl_text = nw_compose n,
               wl_stack = nw_stack n, wl_addresses = nw_placed n, wl_memory = sl_memory t, wl_cpus = sl_cpus t,
               wl_approved_memory = sl_memory t, wl_approved_cpus = sl_cpus t, wl_approved_shape = nw_shape n,
               wl_error = None, wl_expires = nw_expires n, wl_created_by = nw_author n, wl_created = now, wl_updated = now\<rparr>
      in (w, db\<lparr>wd_rows := wd_rows db @ [w]\<rparr>))"

text \<open>A patch: \<open>None\<close> leaves the column, and \<open>Some None\<close> of a nullable one writes NULL.\<close>

record workload_patch =
  pa_state :: "workload_state option"
  pa_text :: "string option"
  pa_stack :: "checked_stack option"
  pa_addresses :: "addresses option"
  pa_error :: "string option option"
  pa_expires :: "millis option option"
  pa_memory :: "int option"
  pa_cpus :: "rat option"
  pa_shape :: "approved option"

definition no_patch :: workload_patch where
  "no_patch = \<lparr>pa_state = None, pa_text = None, pa_stack = None, pa_addresses = None, pa_error = None, pa_expires = None,
     pa_memory = None, pa_cpus = None, pa_shape = None\<rparr>"

definition patched :: "workload_patch \<Rightarrow> millis \<Rightarrow> workload \<Rightarrow> workload" where
  "patched p now w = w\<lparr>
     wl_state := coalesce (pa_state p) (wl_state w),
     wl_text := coalesce (pa_text p) (wl_text w),
     wl_stack := coalesce (pa_stack p) (wl_stack w),
     wl_addresses := coalesce (pa_addresses p) (wl_addresses w),
     wl_memory := (case pa_stack p of None \<Rightarrow> wl_memory w | Some s \<Rightarrow> sl_memory (cs_total s)),
     wl_cpus := (case pa_stack p of None \<Rightarrow> wl_cpus w | Some s \<Rightarrow> sl_cpus (cs_total s)),
     wl_approved_memory := coalesce (pa_memory p) (wl_approved_memory w),
     wl_approved_cpus := coalesce (pa_cpus p) (wl_approved_cpus w),
     wl_approved_shape := (case pa_shape p of None \<Rightarrow> wl_approved_shape w | Some s \<Rightarrow> Some s),
     wl_error := coalesce (pa_error p) (wl_error w),
     wl_expires := coalesce (pa_expires p) (wl_expires w),
     wl_updated := now\<rparr>"

definition update_workload :: "string \<Rightarrow> workload_patch \<Rightarrow> millis \<Rightarrow> workload_db \<Rightarrow> workload option \<times> workload_db" where
  "update_workload i p now db =
     (let db1 = db\<lparr>wd_rows := tbl_update (\<lambda>w. wl_id w = i) (patched p now) (wd_rows db)\<rparr> in (get_workload i db1, db1))"

section \<open>Quotas and builds\<close>

definition DEFAULT_QUOTA :: disk_quota where
  "DEFAULT_QUOTA = \<lparr>dq_memory = 4096, dq_cpus = 2, dq_disk = 20\<rparr>"

definition quota_for :: "string \<Rightarrow> workload_db \<Rightarrow> disk_quota" where
  "quota_for g db = (case tbl_get fst g (wd_quotas db) of Some q \<Rightarrow> snd q | None \<Rightarrow> DEFAULT_QUOTA)"

definition set_quota :: "string \<Rightarrow> disk_quota \<Rightarrow> workload_db \<Rightarrow> workload_db" where
  "set_quota g q db = db\<lparr>wd_quotas := tbl_upsert fst (g, q) (wd_quotas db)\<rparr>"

definition builds_since :: "string \<Rightarrow> millis \<Rightarrow> workload_db \<Rightarrow> nat" where
  "builds_since g since db = length (filter (\<lambda>b. fst b = g \<and> since \<le> snd b) (wd_builds db))"

definition note_build :: "string \<Rightarrow> millis \<Rightarrow> millis \<Rightarrow> workload_db \<Rightarrow> nat \<times> workload_db" where
  "note_build g now since db =
     (let db1 = db\<lparr>wd_builds := tbl_delete (\<lambda>b. snd b < since) (wd_builds db) @ [(g, now)]\<rparr>
      in (builds_since g since db1, db1))"

section \<open>Rows keep their keys\<close>

lemma patched_fixed [simp]:
  "wl_id (patched p now w) = wl_id w" "wl_group (patched p now w) = wl_group w" "wl_name (patched p now w) = wl_name w"
  "wl_created (patched p now w) = wl_created w"
  by (simp_all add: patched_def)

lemma patched_no [simp]:
  "pa_state p = None \<Longrightarrow> wl_state (patched p now w) = wl_state w"
  "pa_memory p = None \<Longrightarrow> wl_approved_memory (patched p now w) = wl_approved_memory w"
  "pa_cpus p = None \<Longrightarrow> wl_approved_cpus (patched p now w) = wl_approved_cpus w"
  "pa_shape p = None \<Longrightarrow> wl_approved_shape (patched p now w) = wl_approved_shape w"
  "pa_stack p = None \<Longrightarrow> wl_stack (patched p now w) = wl_stack w \<and> wl_memory (patched p now w) = wl_memory w
     \<and> wl_cpus (patched p now w) = wl_cpus w"
  by (simp_all add: patched_def)

lemma find_workloadD:
  "find_workload g name db = Some w \<Longrightarrow> w \<in> set (wd_rows db) \<and> wl_group w = g \<and> wl_name w = name \<and> live w"
  by (auto simp: find_workload_def dest: find_SomeD)

lemma set_list_workloads [simp]:
  "set (list_workloads g d db) = {w \<in> set (wd_rows db). (truthy g \<longrightarrow> Some (wl_group w) = g) \<and> (d \<or> live w)}"
  by (auto simp: list_workloads_def)

definition rows_ok :: "workload_db \<Rightarrow> bool" where
  "rows_ok db \<longleftrightarrow> keyed wl_id (wd_rows db)
     \<and> (\<forall>v \<in> set (wd_rows db). \<forall>w \<in> set (wd_rows db). live v \<and> live w \<and> wl_group v = wl_group w \<and> wl_name v = wl_name w \<longrightarrow> v = w)"

lemma update_workload_get:
  assumes "keyed wl_id (wd_rows db)" "w \<in> set (wd_rows db)" "update_workload (wl_id w) p now db = (r, db')"
  shows "r = Some (patched p now w)"
proof -
  have "tbl_get wl_id (wl_id w) (wd_rows db) = Some w" by (rule tbl_get_mem [OF assms(1,2)])
  with assms(3) show ?thesis
    by (auto simp: update_workload_def get_workload_def tbl_get_update Let_def)
qed

text \<open>An update of one workload, seen from the rows.\<close>

lemma update_workload_rows:
  assumes "update_workload i p now db = (r, db')"
  shows "wd_rows db' = map (\<lambda>w. if wl_id w = i then patched p now w else w) (wd_rows db)"
    "wd_networks db' = wd_networks db" "wd_quotas db' = wd_quotas db" "wd_builds db' = wd_builds db"
  using assms by (auto simp: update_workload_def tbl_update_def Let_def)

lemma keyed_update_workload: "update_workload i p now db = (r, db') \<Longrightarrow> keyed wl_id (wd_rows db) \<Longrightarrow> keyed wl_id (wd_rows db')"
  by (auto simp: update_workload_rows keyed_def comp_def if_distrib cong: if_cong)

end
