(* ===== verification/WorkloadFiles.thy ===== *)
theory WorkloadFiles
  imports WorkloadStore
begin

text \<open>
  The files Compose runs from (\<open>writeFiles\<close> of \<open>docker.ts\<close>, \<open>buildOverride\<close> of \<open>override.ts\<close>): the checked stack with
  its images replaced and every dollar doubled, and the override laid over it.
\<close>

section \<open>Names\<close>

record install =
  in_slug :: string
  in_slice :: string
  in_sha :: "string \<Rightarrow> string"

definition group_key :: "install \<Rightarrow> string \<Rightarrow> string" where
  "group_key i g = take 12 (in_sha i g)"

definition project_name :: "install \<Rightarrow> workload \<Rightarrow> string" where
  "project_name i w = ''nc-'' @ in_slug i @ ''-'' @ group_key i (wl_group w) @ ''-'' @ wl_name w"

definition built_image_name :: "install \<Rightarrow> workload \<Rightarrow> string \<Rightarrow> string" where
  "built_image_name i w service = project_name i w @ ''-'' @ service @ '':built''"

definition network_name :: "install \<Rightarrow> nat \<Rightarrow> string" where
  "network_name i idx = ''nc-wl-'' @ in_slug i @ ''-'' @ show_nat idx"

section \<open>Dollars\<close>

definition escape_text :: "string \<Rightarrow> string" where
  "escape_text s = concat (map (\<lambda>c. if c = CHR ''$'' then ''$$'' else [c]) s)"

fun escape_interpolation :: "yv \<Rightarrow> yv" where
  "escape_interpolation (YStr s) = YStr (escape_text s)"
| "escape_interpolation (YList vs) = YList (map escape_interpolation vs)"
| "escape_interpolation (YMap kvs) = YMap (map (\<lambda>kv. (fst kv, escape_interpolation (snd kv))) kvs)"
| "escape_interpolation v = v"

section \<open>The two files\<close>

text \<open>\<open>Inl n\<close>: service \<open>n\<close> has no image to run.\<close>

fun written_services :: "(string \<times> string) list \<Rightarrow> (string \<times> fields) list \<Rightarrow> string + fields" where
  "written_services images [] = Inr []"
| "written_services images ((n, svc) # rest) =
     (case map_of images n of
        Some i \<Rightarrow> if i = [] then Inl n else
          (case written_services images rest of Inl e \<Rightarrow> Inl e
           | Inr out \<Rightarrow> Inr ((n, YMap (set_prop ''image'' (YStr i)
               (map (\<lambda>kv. (fst kv, escape_interpolation (snd kv))) (filter (\<lambda>kv. fst kv \<notin> {''build'', ''image''}) svc)))) # out))
      | None \<Rightarrow> Inl n)"

definition stack_file :: "checked_stack \<Rightarrow> (string \<times> string) list \<Rightarrow> string + yv" where
  "stack_file st images =
     (case written_services images (cs_services st) of Inl e \<Rightarrow> Inl e
      | Inr out \<Rightarrow> Inr (YMap ((''services'', YMap out) #
          (case cs_volumes st of Some vs \<Rightarrow> if vs = [] then [] else [(''volumes'', escape_interpolation (YMap vs))] | None \<Rightarrow> []))))"

definition PIDS_LIMIT :: rat where "PIDS_LIMIT = 1024"

definition override_service :: "install \<Rightarrow> workload \<Rightarrow> string \<Rightarrow> fields" where
  "override_service i w n =
     [(''networks'', YMap [(''nanoclaw'', YMap (case map_of (wl_addresses w) n of Some a \<Rightarrow> [(''ipv4_address'', YStr a)] | None \<Rightarrow> []))]),
      (''cgroup_parent'', YStr (in_slice i)),
      (''cap_drop'', YList [YStr ''ALL'']),
      (''security_opt'', YList [YStr ''no-new-privileges:true'']),
      (''logging'', YMap [(''driver'', YStr ''json-file''), (''options'', YMap [(''max-size'', YStr ''10m''), (''max-file'', YStr ''3'')])]),
      (''labels'', YMap [(''nanoclaw.install'', YStr (in_slug i)), (''nanoclaw.agent'', YStr (wl_group w)),
         (''nanoclaw.workload'', YStr (wl_id w)), (''nanoclaw.service'', YStr n)]),
      (''deploy'', YMap [(''resources'', YMap [(''limits'', YMap [(''pids'', YNum PIDS_LIMIT)])])])]"

definition build_override :: "install \<Rightarrow> workload \<Rightarrow> string \<Rightarrow> yv" where
  "build_override i w network =
     YMap [(''name'', YStr (project_name i w)),
       (''services'', YMap (map (\<lambda>(n, _). (n, YMap (override_service i w n))) (cs_services (wl_stack w)))),
       (''networks'', YMap [(''nanoclaw'', YMap [(''external'', YBool True), (''name'', YStr network)])])]"

definition write_files :: "install \<Rightarrow> workload \<Rightarrow> string \<Rightarrow> (string \<times> string) list \<Rightarrow> string + yv \<times> yv" where
  "write_files i w network images =
     (case stack_file (wl_stack w) images of Inl e \<Rightarrow> Inl e | Inr s \<Rightarrow> Inr (s, build_override i w network))"

section \<open>What Compose reads back\<close>

text \<open>
  Compose fills in the values of a file: two dollars stand for one, and a lone one begins a reference to the environment
  (\<open>env\<close>, applied to the rest of the text).
\<close>

fun filled_in :: "(string \<Rightarrow> string) \<Rightarrow> string \<Rightarrow> string" where
  "filled_in env [] = []"
| "filled_in env [c] = (if c = CHR ''$'' then env [] else [c])"
| "filled_in env (c # d # s) =
     (if c = CHR ''$'' then if d = CHR ''$'' then c # filled_in env s else env (d # s) else c # filled_in env (d # s))"

fun compose_reads :: "(string \<Rightarrow> string) \<Rightarrow> yv \<Rightarrow> yv" where
  "compose_reads env (YStr s) = YStr (filled_in env s)"
| "compose_reads env (YList vs) = YList (map (compose_reads env) vs)"
| "compose_reads env (YMap kvs) = YMap (map (\<lambda>kv. (fst kv, compose_reads env (snd kv))) kvs)"
| "compose_reads env v = v"

lemma filled_in_plain: "c \<noteq> CHR ''$'' \<Longrightarrow> filled_in env (c # s) = c # filled_in env s"
  by (cases s) auto

lemma filled_in_escape: "filled_in env (escape_text s) = s"
  by (induction s) (auto simp: escape_text_def filled_in_plain)

text \<open>
  The environment of the host fills in nothing. Whatever \<open>env\<close> holds, what Compose makes of a written value is
  the value that was checked.
\<close>

theorem environment_never_filled_in: "compose_reads env (escape_interpolation v) = v"
proof (induction v rule: escape_interpolation.induct)
  case (2 vs)
  then show ?case by (simp add: comp_def map_idI)
next
  case (3 kvs)
  then have "map (\<lambda>kv. (fst kv, compose_reads env (escape_interpolation (snd kv)))) kvs = kvs"
    by (intro map_idI) auto
  then show ?case by (simp add: comp_def)
qed (simp_all add: filled_in_escape)

lemma written_services_images:
  "written_services images svcs = Inr out \<Longrightarrow>
     map fst out = map fst svcs \<and> (\<forall>(n, v) \<in> set out. \<exists>svc i. (n, svc) \<in> set svcs \<and> map_of images n = Some i \<and> i \<noteq> []
       \<and> field_of (Some v) ''image'' = Some (YStr i) \<and> field_of (Some v) ''build'' = None)"
proof (induction images svcs arbitrary: out rule: written_services.induct)
  case (2 images n svc rest)
  then obtain i out' where i: "map_of images n = Some i" "i \<noteq> []" and rest: "written_services images rest = Inr out'"
    and out: "out = (n, YMap (set_prop ''image'' (YStr i)
      (map (\<lambda>kv. (fst kv, escape_interpolation (snd kv))) (filter (\<lambda>kv. fst kv \<notin> {''build'', ''image''}) svc)))) # out'"
    by (auto split: option.splits sum.splits if_splits)
  have set: "map_of (set_prop k v kvs) k' = (if k' = k then Some v else map_of kvs k')" for k v kvs k'
    by (induction k v kvs rule: set_prop.induct) auto
  have drop: "map_of (map (\<lambda>kv. (fst kv, escape_interpolation (snd kv))) (filter (\<lambda>kv. fst kv \<noteq> ''build'' \<and> fst kv \<noteq> ''image'') kvs)) ''build'' = None" for kvs
    by (auto simp: map_of_eq_None_iff)
  show ?case using "2.IH" [OF i(1,2) rest] i by (auto simp: out field_of_def set drop)
qed simp

end
