(* ===== verification/WorkloadControl.thy ===== *)
theory WorkloadControl
  imports WorkloadFiles
begin

text \<open>
  The life of a workload (\<open>modules/workloads/control.ts\<close>, \<open>requireWorkloads\<close> of \<open>preflight.ts\<close>, \<open>assertDiskRoom\<close>
  of \<open>disk.ts\<close>): check, deploy, up, redeploy, start, stop, down, delete. The host (files, registry, Docker) is a record of
  functions that may answer anything; what the commands do to it is a list of events. Errors are constructors, and \<open>ho_words\<close>
  gives their wording where a row keeps it.
\<close>

datatype workload_fault =
    BadName | SwitchedOff | StillChecking | PreflightFailed string | SliceFault string
  | UnknownAgent | NoFolder | FileOutside | NoSuchFile | FileTooLarge | DiskFull | Refused "stack_error list"
  | NodeFull int int | NoShape shape_error | NoSuchWorkload | ChangedSinceCard | ShapeDiffers | SizeDiffers
  | TooManyBuilds | NeverApproved | NoNetworks | NetworkFault | NoAddresses | RowGone
  | BuildsOff | BuilderFault | BuildNeverApproved string | CopyFault string | DockerfileMissing string
  | DockerfileChanged string | ArgsChanged string | BuildFault string | NoImageToRun string | ComposeFault "string list"
  | ReservedLabels string

datatype workload_event =
    Built string string "yv option" string
  | Wrote "(string \<times> string) list"
  | Composed string "string list"
  | FilesRemoved string
  | BuilderRemoved string
  | Audited string string

record workload_host =
  ho_install :: install
  ho_switched :: bool
  ho_preflight :: "(bool \<times> string) option"
  ho_slice :: "string + int"
  ho_groups_dir :: string
  ho_folder :: "string \<Rightarrow> string option"
  ho_exists :: "string \<Rightarrow> bool"
  ho_plain :: "string \<Rightarrow> string \<Rightarrow> string option"
  ho_real :: "string \<Rightarrow> string"
  ho_resolve :: "string \<Rightarrow> string \<Rightarrow> string option"
  ho_used :: "string \<Rightarrow> int option"
  ho_confined :: bool
  ho_yaml :: "string \<Rightarrow> yaml_doc"
  ho_registry :: "string \<Rightarrow> string option"
  ho_quote :: "string \<Rightarrow> string"
  ho_network :: "nat \<Rightarrow> bool"
  ho_builder :: bool
  ho_copied :: "string \<Rightarrow> string \<Rightarrow> bool"
  ho_copy_file :: "string \<Rightarrow> string \<Rightarrow> string option"
  ho_built :: "string \<Rightarrow> bool"
  ho_compose :: "string list \<Rightarrow> bool"
  ho_labels :: "string \<Rightarrow> string list option"
  ho_words :: "workload_fault \<Rightarrow> string"

section \<open>Checks\<close>

definition require_workloads :: "workload_host \<Rightarrow> workload_fault option" where
  "require_workloads h =
     (if \<not> ho_switched h then Some SwitchedOff
      else case ho_preflight h of None \<Rightarrow> Some StillChecking
        | Some (ok, why) \<Rightarrow> if ok then None else Some (PreflightFailed why))"

definition GB :: rat where "GB = 1073741824"

definition disk_full :: "workload_host \<Rightarrow> string \<Rightarrow> rat \<Rightarrow> bool" where
  "disk_full h g disk = (case ho_used h g of None \<Rightarrow> False | Some bytes \<Rightarrow> disk * GB < of_int bytes)"

definition group_dir :: "workload_host \<Rightarrow> string \<Rightarrow> workload_fault + string" where
  "group_dir h g = (case ho_folder h g of None \<Rightarrow> Inl UnknownAgent
     | Some f \<Rightarrow> (let d = path_join (ho_groups_dir h) f in if ho_exists h d then Inr d else Inl NoFolder))"

definition drop_start :: "string \<Rightarrow> string \<Rightarrow> string" where
  "drop_start p s = (if starts_with s p then drop (length p) s else s)"

definition rel_of :: "string \<Rightarrow> string" where
  "rel_of file = drop_start ''./'' (drop_start ''/workspace/agent/'' file)"

definition read_compose :: "workload_host \<Rightarrow> string \<Rightarrow> string \<Rightarrow> workload_fault + string" where
  "read_compose h dir file =
     (let rel = rel_of file
      in if starts_with rel ''/'' \<or> ''..'' \<in> set (split_slashes rel) then Inl FileOutside
         else case ho_plain h dir rel of None \<Rightarrow> Inl NoSuchFile
           | Some t \<Rightarrow> if 256000 < int (length t) then Inl FileTooLarge else Inr t)"

definition WORKLOAD_NAME_RE :: rx where
  "WORKLOAD_NAME_RE = Cat (Cls is_lower) (Cat (up_to 28 (Cls (\<lambda>c. is_alnum c \<or> c = CHR ''-''))) (Cls is_alnum))"

definition path_dirname :: "string \<Rightarrow> string" where
  "path_dirname s =
     (let strip = (\<lambda>t. rev (dropWhile (\<lambda>c. c = CHR ''/'') (rev t)));
          up = rev (dropWhile (\<lambda>c. c \<noteq> CHR ''/'') (rev (strip s)))
      in if up = [] then (if starts_with s ''/'' then ''/'' else ''.'') else if strip up = [] then ''/'' else strip up)"

definition stack_env_of :: "workload_host \<Rightarrow> string \<Rightarrow> string \<Rightarrow> stack_env" where
  "stack_env_of h dir file = \<lparr>en_home = ho_real h dir, en_compose_dir = path_dirname (path_join dir (rel_of file)),
     en_resolve = ho_resolve h, en_allow_build = ho_confined h\<rparr>"

definition shape_env_of :: "workload_host \<Rightarrow> string \<Rightarrow> shape_env" where
  "shape_env_of h dir = \<lparr>se_sha = in_sha (ho_install h), se_registry = ho_registry h, se_plain = ho_plain h dir, se_quote = ho_quote h\<rparr>"

definition approved_memory :: "workload list \<Rightarrow> int" where
  "approved_memory ws = sum_list (map wl_approved_memory ws)"

definition approved_cpus :: "workload list \<Rightarrow> rat" where
  "approved_cpus ws = sum_list (map wl_approved_cpus ws)"

definition others_of :: "workload option \<Rightarrow> workload list \<Rightarrow> workload list" where
  "others_of existing ws = filter (\<lambda>w. case existing of None \<Rightarrow> True | Some e \<Rightarrow> wl_id w \<noteq> wl_id e) ws"

definition quota_left :: "string \<Rightarrow> workload option \<Rightarrow> workload_db \<Rightarrow> quota" where
  "quota_left g existing db =
     (let q = quota_for g db; os = others_of existing (list_workloads (Some g) False db)
      in \<lparr>q_memory = dq_memory q - approved_memory os, q_cpus = dq_cpus q - approved_cpus os\<rparr>)"

record checked =
  ck_text :: string
  ck_stack :: checked_stack
  ck_existing :: "workload option"
  ck_shape :: stack_shape
  ck_hash :: string

definition check_workload ::
  "workload_host \<Rightarrow> string \<Rightarrow> string \<Rightarrow> string \<Rightarrow> approved option \<Rightarrow> workload_db \<Rightarrow> workload_fault + checked" where
  "check_workload h g name file ap db =
     (if \<not> rx_test WORKLOAD_NAME_RE name then Inl BadName
      else case require_workloads h of Some e \<Rightarrow> Inl e | None \<Rightarrow>
      (case ho_slice h of Inl why \<Rightarrow> Inl (SliceFault why) | Inr most \<Rightarrow>
      (case group_dir h g of Inl e \<Rightarrow> Inl e | Inr dir \<Rightarrow>
      (case read_compose h dir file of Inl e \<Rightarrow> Inl e | Inr t \<Rightarrow>
      (let existing = find_workload g name db
       in if disk_full h g (dq_disk (quota_for g db)) then Inl DiskFull
          else case check_stack (ho_yaml h) (stack_env_of h dir file) (quota_left g existing db) t of
            Inl es \<Rightarrow> Inl (Refused es)
          | Inr st \<Rightarrow>
              (let node = approved_memory (others_of existing (list_workloads None False db)) + sl_memory (cs_total st)
               in if most < node then Inl (NodeFull most node)
                  else case stack_shape (shape_env_of h dir) ap st of
                    Inl e \<Rightarrow> Inl (NoShape e)
                  | Inr sh \<Rightarrow> Inr \<lparr>ck_text = t, ck_stack = st, ck_existing = existing, ck_shape = sh,
                                  ck_hash = take 32 (in_sha (ho_install h) t)\<rparr>))))))"

definition approval_pin :: "checked \<Rightarrow> string" where
  "approval_pin c = ck_hash c @ '':'' @ ss_hash (ck_shape c)"

definition UNAPPROVED_BUILDS_PER_HOUR :: nat where "UNAPPROVED_BUILDS_PER_HOUR = 20"
definition HOUR :: millis where "HOUR = 3600000"

definition note_unapproved_build :: "string \<Rightarrow> millis \<Rightarrow> workload_db \<Rightarrow> workload_fault option \<times> workload_db" where
  "note_unapproved_build g now db =
     (if UNAPPROVED_BUILDS_PER_HOUR \<le> builds_since g (now - HOUR) db then (Some TooManyBuilds, db)
      else (None, snd (note_build g now (now - HOUR) db)))"

section \<open>Builds and images\<close>

definition is_build :: "fields \<Rightarrow> bool" where
  "is_build svc = (map_of svc ''build'' \<noteq> None)"

definition has_build :: "checked_stack \<Rightarrow> bool" where
  "has_build st = list_ex (\<lambda>(_, svc). is_build svc) (cs_services st)"

definition approved_service :: "approved option \<Rightarrow> string \<Rightarrow> service_shape option" where
  "approved_service ap n = (case ap of None \<Rightarrow> None | Some a \<Rightarrow> map_of (ap_services a) n)"

definition image_for :: "install \<Rightarrow> workload \<Rightarrow> string \<times> fields \<Rightarrow> (string \<times> string) option" where
  "image_for i w ns = (let n = fst ns; svc = snd ns in
     if is_build svc then Some (n, built_image_name i w n)
     else case approved_service (wl_approved_shape w) n of None \<Rightarrow> None
       | Some a \<Rightarrow> (case sh_ref a of None \<Rightarrow> None
           | Some r \<Rightarrow> if truthy (sh_digest a) \<and> map_of svc ''image'' = Some (YStr r)
                      then Some (n, pin_ref r (the (sh_digest a))) else None))"

definition service_images :: "install \<Rightarrow> workload \<Rightarrow> (string \<times> string) list" where
  "service_images i w = List.map_filter (image_for i w) (cs_services (wl_stack w))"

definition plain_segment :: "string \<Rightarrow> bool" where
  "plain_segment p = (p \<noteq> ''..'' \<and> list_all (\<lambda>c. is_alnum c \<or> is_upper c \<or> c \<in> set ''._@+-'') p)"

definition plain_segments :: "string \<Rightarrow> string list option" where
  "plain_segments rel = (let ps = filter (\<lambda>p. p \<noteq> [] \<and> p \<noteq> ''.'') (split_slashes rel)
     in if list_all plain_segment ps then Some ps else None)"

definition build_service :: "workload_host \<Rightarrow> workload \<Rightarrow> approved \<Rightarrow> string \<times> fields \<Rightarrow> workload_fault + workload_event" where
  "build_service h w ap ns =
     (let n = fst ns; b = build_of (snd ns); sha = in_sha (ho_install h)
      in case map_of (ap_services ap) n of None \<Rightarrow> Inl (BuildNeverApproved n)
       | Some want \<Rightarrow>
         if \<not> truthy (sh_dockerfile want) \<or> \<not> truthy (sh_args want) then Inl (BuildNeverApproved n)
         else case plain_segments (context_of b) of None \<Rightarrow> Inl (CopyFault n)
          | Some ctx \<Rightarrow>
            if \<not> ho_copied h n (join_with ''/'' ctx) then Inl (CopyFault n)
            else case plain_segments (dockerfile_of b) of None \<Rightarrow> Inl (CopyFault n)
             | Some ps \<Rightarrow>
               (case ho_copy_file h n (join_with ''/'' ps) of None \<Rightarrow> Inl (DockerfileMissing n)
                | Some df \<Rightarrow>
                  if Some (sha df) \<noteq> sh_dockerfile want then Inl (DockerfileChanged n)
                  else if Some (hash_args sha (map_of b ''args'')) \<noteq> sh_args want then Inl (ArgsChanged n)
                  else if ho_built h n then Inr (Built n df (map_of b ''args'') (built_image_name (ho_install h) w n))
                  else Inl (BuildFault n)))"

fun build_each ::
  "workload_host \<Rightarrow> workload \<Rightarrow> approved \<Rightarrow> (string \<times> fields) list \<Rightarrow> workload_event list \<times> workload_fault option" where
  "build_each h w ap [] = ([], None)"
| "build_each h w ap (s # ss) =
     (case build_service h w ap s of Inl e \<Rightarrow> ([], Some e)
      | Inr ev \<Rightarrow> (case build_each h w ap ss of (evs, r) \<Rightarrow> (ev # evs, r)))"

definition reserved_image_label :: "string \<Rightarrow> bool" where
  "reserved_image_label l = (let u = map lower l in starts_with u ''nanoclaw'' \<or> starts_with u ''dev.nanoclaw'')"

definition labels_fault :: "workload_host \<Rightarrow> string list \<Rightarrow> workload_fault option" where
  "labels_fault h images = map_option ReservedLabels
     (find (\<lambda>i. case ho_labels h i of None \<Rightarrow> True | Some ls \<Rightarrow> list_ex reserved_image_label ls) images)"

section \<open>Deploying\<close>

definition pull_args :: "string list \<Rightarrow> string list" where
  "pull_args services = ''pull'' # ''--quiet'' # services"

definition up_args :: "string list" where
  "up_args = [''up'', ''-d'', ''--remove-orphans'', ''--no-build'', ''--pull'', ''never'']"

text \<open>Once every image is there: write the files, pull, look at the labels, start.\<close>

definition start_stack :: "workload_host \<Rightarrow> workload \<Rightarrow> string \<Rightarrow> workload_event list \<times> workload_fault option" where
  "start_stack h w network =
     (let images = service_images (ho_install h) w;
          pulled = map fst (filter (\<lambda>(_, svc). \<not> is_build svc) (cs_services (wl_stack w)));
          pull = (if pulled = [] then [] else [Composed (wl_id w) (pull_args pulled)])
      in case write_files (ho_install h) w network images of Inl n \<Rightarrow> ([], Some (NoImageToRun n))
       | Inr _ \<Rightarrow>
         if pulled \<noteq> [] \<and> \<not> ho_compose h (pull_args pulled) then (Wrote images # pull, Some (ComposeFault (pull_args pulled)))
         else case labels_fault h (map snd images) of Some e \<Rightarrow> (Wrote images # pull, Some e)
          | None \<Rightarrow> (Wrote images # pull @ [Composed (wl_id w) up_args],
                     if ho_compose h up_args then None else Some (ComposeFault up_args)))"

definition deploy_body ::
  "workload_host \<Rightarrow> string \<Rightarrow> workload \<Rightarrow> approved \<Rightarrow> string \<Rightarrow> workload_event list \<times> workload_fault option" where
  "deploy_body h g w ap network =
     (let builds = filter (\<lambda>(_, svc). is_build svc) (cs_services (wl_stack w))
      in if builds \<noteq> [] \<and> \<not> ho_confined h then ([], Some BuildsOff)
         else case (if builds = [] then None else case group_dir h g of Inl e \<Rightarrow> Some e
                    | Inr _ \<Rightarrow> if ho_builder h then None else Some BuilderFault) of
           Some e \<Rightarrow> ([], Some e)
         | None \<Rightarrow> (case build_each h w ap builds of
               (evs, Some e) \<Rightarrow> (evs, Some e)
             | (evs, None) \<Rightarrow> (case start_stack h w network of (evs', r) \<Rightarrow> (evs @ evs', r))))"

type_synonym outcome = "workload_event list \<times> (workload_fault + workload) \<times> workload_db"

definition row_or_gone :: "workload_event list \<Rightarrow> workload option \<times> workload_db \<Rightarrow> outcome" where
  "row_or_gone evs r = (evs, (case fst r of Some w \<Rightarrow> Inr w | None \<Rightarrow> Inl RowGone), snd r)"

definition last_chars :: "nat \<Rightarrow> string \<Rightarrow> string" where
  "last_chars n s = drop (length s - n) s"

definition finish_deploy ::
  "workload_host \<Rightarrow> millis \<Rightarrow> workload \<Rightarrow> workload_event list \<times> workload_fault option \<Rightarrow> workload_db \<Rightarrow> outcome" where
  "finish_deploy h now w r db =
     (case r of
        (evs, Some e) \<Rightarrow> row_or_gone (evs @ [Audited ''workload.deploy'' ''failed''])
          (update_workload (wl_id w) (no_patch\<lparr>pa_state := Some Failed, pa_error := Some (Some (last_chars 2000 (ho_words h e)))\<rparr>) now db)
      | (evs, None) \<Rightarrow> row_or_gone (evs @ [Audited ''workload.deploy'' ''allow''])
          (update_workload (wl_id w) (no_patch\<lparr>pa_state := Some Running\<rparr>) now db))"

definition place :: "workload_host \<Rightarrow> string \<Rightarrow> workload \<Rightarrow> network_row \<Rightarrow> workload_db \<Rightarrow> addresses option" where
  "place h g w net db =
     (case subnet_for (nw_idx net) of None \<Rightarrow> None
      | Some s \<Rightarrow> service_addresses (sn_prefix s) (map fst (cs_services (wl_stack w))) (wl_addresses w)
          (concat (map (\<lambda>v. map snd (wl_addresses v)) (filter (\<lambda>v. wl_id v \<noteq> wl_id w) (list_workloads (Some g) False db)))))"

definition deploy :: "workload_host \<Rightarrow> millis \<Rightarrow> string \<Rightarrow> workload \<Rightarrow> workload_db \<Rightarrow> outcome" where
  "deploy h now g w db =
     (case require_workloads h of Some e \<Rightarrow> ([], Inl e, db) | None \<Rightarrow>
      (case wl_approved_shape w of None \<Rightarrow> ([], Inl NeverApproved, db) | Some ap \<Rightarrow>
      (case claim_network g (network_name (ho_install h)) MAX_NETWORKS (wd_networks db) of
         (None, _) \<Rightarrow> ([], Inl NoNetworks, db)
       | (Some net, nets) \<Rightarrow>
         (let db1 = db\<lparr>wd_networks := nets\<rparr>
          in if \<not> ho_network h (nw_idx net) then ([], Inl NetworkFault, db1)
             else case place h g w net db1 of None \<Rightarrow> ([], Inl NoAddresses, db1)
              | Some a \<Rightarrow>
                (case update_workload (wl_id w) (no_patch\<lparr>pa_addresses := Some a, pa_state := Some Deploying, pa_error := Some None\<rparr>) now db1 of
                   (None, db2) \<Rightarrow> ([], Inl RowGone, db2)
                 | (Some w1, db2) \<Rightarrow>
                     finish_deploy h now w1 (deploy_body h g w1 ap (network_name (ho_install h) (nw_idx net))) db2)))))"

section \<open>Commands\<close>

definition DEFAULT_DAYS :: int where "DEFAULT_DAYS = 30"

definition record_approved :: "string \<Rightarrow> millis \<Rightarrow> string \<Rightarrow> string \<Rightarrow> string option \<Rightarrow> checked \<Rightarrow> workload_db \<Rightarrow> workload option \<times> workload_db" where
  "record_approved i now g name author c db =
     (let st = ck_stack c; ap = encode_approved (ck_shape c)
      in case ck_existing c of
           Some e \<Rightarrow> update_workload (wl_id e) (no_patch\<lparr>pa_text := Some (ck_text c), pa_stack := Some st,
             pa_memory := Some (sl_memory (cs_total st)), pa_cpus := Some (sl_cpus (cs_total st)), pa_shape := Some ap\<rparr>) now db
         | None \<Rightarrow> (case insert_workload i now \<lparr>nw_agent = g, nw_title = name, nw_compose = ck_text c, nw_stack = st, nw_placed = [],
             nw_expires = Some (now + DEFAULT_DAYS * 86400000), nw_author = author, nw_shape = Some ap\<rparr> db of (w, db1) \<Rightarrow> (Some w, db1)))"

definition deploy_row :: "workload_host \<Rightarrow> millis \<Rightarrow> string \<Rightarrow> workload option \<times> workload_db \<Rightarrow> outcome" where
  "deploy_row h now g r = (case r of (None, db) \<Rightarrow> ([], Inl RowGone, db) | (Some w, db) \<Rightarrow> deploy h now g w db)"

definition up_workload ::
  "workload_host \<Rightarrow> millis \<Rightarrow> string \<Rightarrow> string \<Rightarrow> string \<Rightarrow> string \<Rightarrow> string option \<Rightarrow> string option \<Rightarrow> workload_db \<Rightarrow> outcome" where
  "up_workload h now i g name file author pin db =
     (case check_workload h g name file None db of Inl e \<Rightarrow> ([], Inl e, db)
      | Inr c \<Rightarrow> if pin \<noteq> None \<and> pin \<noteq> Some (approval_pin c) then ([], Inl ChangedSinceCard, db)
                else deploy_row h now g (record_approved i now g name author c db))"

definition redeploy_workload :: "workload_host \<Rightarrow> millis \<Rightarrow> string \<Rightarrow> string \<Rightarrow> string \<Rightarrow> workload_db \<Rightarrow> outcome" where
  "redeploy_workload h now g name file db =
     (case find_workload g name db of None \<Rightarrow> ([], Inl NoSuchWorkload, db)
      | Some w \<Rightarrow>
        (case check_workload h g name file (wl_approved_shape w) db of Inl e \<Rightarrow> ([], Inl e, db)
         | Inr c \<Rightarrow>
           (let t = cs_total (ck_stack c)
            in if (case wl_approved_shape w of None \<Rightarrow> True | Some ap \<Rightarrow> ap_hash ap \<noteq> Some (ss_hash (ck_shape c)))
               then ([], Inl ShapeDiffers, db)
               else if wl_approved_memory w < sl_memory t \<or> wl_approved_cpus w < sl_cpus t then ([], Inl SizeDiffers, db)
               else case (if has_build (ck_stack c) then note_unapproved_build g now db else (None, db)) of
                 (Some e, db1) \<Rightarrow> ([], Inl e, db1)
               | (None, db1) \<Rightarrow> deploy_row h now g
                   (update_workload (wl_id w) (no_patch\<lparr>pa_text := Some (ck_text c), pa_stack := Some (ck_stack c)\<rparr>) now db1))))"

definition start_workload :: "workload_host \<Rightarrow> millis \<Rightarrow> string \<Rightarrow> string \<Rightarrow> workload_db \<Rightarrow> outcome" where
  "start_workload h now g name db =
     (case find_workload g name db of None \<Rightarrow> ([], Inl NoSuchWorkload, db)
      | Some w \<Rightarrow>
        if wl_state w \<noteq> Stopped \<and> wl_state w \<noteq> Failed then ([], Inr w, db)
        else case require_workloads h of Some e \<Rightarrow> ([], Inl e, db)
         | None \<Rightarrow>
           if disk_full h g (dq_disk (quota_for g db)) then ([], Inl DiskFull, db)
           else case (if has_build (wl_stack w) then note_unapproved_build g now db else (None, db)) of
             (Some e, db1) \<Rightarrow> ([], Inl e, db1)
           | (None, db1) \<Rightarrow> deploy h now g w db1)"

definition compose_then ::
  "workload_host \<Rightarrow> string list \<Rightarrow> workload_event list \<Rightarrow> workload_patch \<Rightarrow> millis \<Rightarrow> string \<Rightarrow> string \<Rightarrow> workload_db \<Rightarrow> outcome" where
  "compose_then h args evs p now g name db =
     (case find_workload g name db of None \<Rightarrow> ([], Inl NoSuchWorkload, db)
      | Some w \<Rightarrow> if \<not> ho_compose h args then ([Composed (wl_id w) args], Inl (ComposeFault args), db)
                 else row_or_gone (Composed (wl_id w) args # evs) (update_workload (wl_id w) p now db))"

definition stop_workload :: "workload_host \<Rightarrow> millis \<Rightarrow> string \<Rightarrow> string \<Rightarrow> string \<Rightarrow> workload_db \<Rightarrow> outcome" where
  "stop_workload h now g name reason db =
     compose_then h [''stop'']
       [Audited (if reason = ''requested'' then ''workload.stop'' else ''workload.autostop'') ''allow'']
       (if reason = ''requested'' then no_patch\<lparr>pa_state := Some Stopped\<rparr>
        else no_patch\<lparr>pa_state := Some Stopped, pa_error := Some (Some (''stopped: '' @ reason))\<rparr>) now g name db"

definition down_workload :: "workload_host \<Rightarrow> millis \<Rightarrow> string \<Rightarrow> string \<Rightarrow> workload_db \<Rightarrow> outcome" where
  "down_workload h now g name db =
     compose_then h [''down'', ''--remove-orphans''] [Audited ''workload.down'' ''allow''] (no_patch\<lparr>pa_state := Some Stopped\<rparr>) now g name db"

definition delete_args :: "string list" where
  "delete_args = [''down'', ''--volumes'', ''--remove-orphans'', ''--rmi'', ''local'']"

definition delete_workload :: "workload_host \<Rightarrow> (string \<Rightarrow> bool) \<Rightarrow> millis \<Rightarrow> string \<Rightarrow> string \<Rightarrow> workload_db \<Rightarrow> outcome" where
  "delete_workload h has_files now g name db =
     (case find_workload g name db of None \<Rightarrow> ([], Inl NoSuchWorkload, db)
      | Some w \<Rightarrow>
        (let evs = (if has_files (wl_id w) then [Composed (wl_id w) delete_args] else [])
         in if has_files (wl_id w) \<and> \<not> ho_compose h delete_args then (evs, Inl (ComposeFault delete_args), db)
            else (let r = update_workload (wl_id w) (no_patch\<lparr>pa_state := Some Deleted\<rparr>) now db
                  in row_or_gone (evs @ [FilesRemoved (wl_id w), Audited ''workload.delete'' ''allow'']
                       @ (if list_workloads (Some g) False (snd r) = [] then [BuilderRemoved g] else [])) r)))"

section \<open>Runs\<close>

datatype workload_command =
    Up string string string "string option" "string option"
  | Redeploy string string
  | Start string
  | Stop string string
  | Down string
  | Remove string bool
  | SetQuota disk_quota

text \<open>
  A command of agent \<open>g\<close> on host \<open>h\<close> at time \<open>now\<close>. \<open>Up\<close> names the id to use, the workload, its file, its author and its
  pin; \<open>Remove\<close> whether the stack's files are there.
\<close>

fun run_command :: "workload_host \<times> millis \<times> string \<times> workload_command \<Rightarrow> workload_db \<Rightarrow> workload_db" where
  "run_command (h, now, g, Up i name file author pin) db = snd (snd (up_workload h now i g name file author pin db))"
| "run_command (h, now, g, Redeploy name file) db = snd (snd (redeploy_workload h now g name file db))"
| "run_command (h, now, g, Start name) db = snd (snd (start_workload h now g name db))"
| "run_command (h, now, g, Stop name reason) db = snd (snd (stop_workload h now g name reason db))"
| "run_command (h, now, g, Down name) db = snd (snd (down_workload h now g name db))"
| "run_command (h, now, g, Remove name files) db = snd (snd (delete_workload h (\<lambda>_. files) now g name db))"
| "run_command (h, now, g, SetQuota q) db = set_quota g q db"

definition run_commands :: "(workload_host \<times> millis \<times> string \<times> workload_command) list \<Rightarrow> workload_db \<Rightarrow> workload_db" where
  "run_commands cs db = fold run_command cs db"

end
