(* ===== verification/StackFacts.thy ===== *)
theory StackFacts
  imports StackCheck
begin

text \<open>
  What an accepted stack can do: nothing on it reaches past the agent, its limits add up to what the
  quota allows, and the texts shown to an approver stay on their line.
\<close>

section \<open>Fields of an object\<close>

lemma map_of_set_prop [simp]: "map_of (set_prop k v kvs) k' = (if k' = k then Some v else map_of kvs k')"
  by (induction kvs) auto

lemma set_prop_values: "x \<in> set (set_prop k v kvs) \<Longrightarrow> x = (k, v) \<or> x \<in> set kvs"
  by (induction kvs) (auto split: if_splits)

lemma set_prop_all: "\<forall>y \<in> set kvs. P y \<Longrightarrow> P (k, v) \<Longrightarrow> \<forall>y \<in> set (set_prop k v kvs). P y"
  using set_prop_values by fast

lemma map_of_without: "map_of (filter (\<lambda>(k, _). k \<notin> S) kvs) k' = (if k' \<in> S then None else map_of kvs k')"
  by (induction kvs) auto

lemma concat_map_Nil: "concat (map f xs) = [] \<longleftrightarrow> (\<forall>x \<in> set xs. f x = [])"
  by (induction xs) auto

section \<open>What confined means\<close>

definition confined_mount :: "string list \<Rightarrow> yv \<Rightarrow> bool" where
  "confined_mount declared v \<longleftrightarrow>
     (\<exists>n \<in> set declared. (\<exists>s. v = YStr s \<and> prefix (n @ '':'') s)
        \<or> (\<exists>kvs. v = YMap kvs \<and> map_of kvs ''type'' = Some (YStr ''volume'') \<and> map_of kvs ''source'' = Some (YStr n)))
     \<or> (\<exists>kvs. v = YMap kvs \<and> map_of kvs ''type'' = Some (YStr ''tmpfs''))"

definition confined_build :: "stack_env \<Rightarrow> yv \<Rightarrow> bool" where
  "confined_build env v \<longleftrightarrow> en_allow_build env \<and> (\<exists>b given r. v = YMap b
     \<and> en_resolve env (en_compose_dir env) given = Some r
     \<and> (r = en_home env \<and> map_of b ''context'' = Some (YStr ''.'')
        \<or> (\<exists>rel. r = en_home env @ ''/'' @ rel \<and> map_of b ''context'' = Some (YStr rel)))
     \<and> (\<forall>f. map_of b ''dockerfile'' = Some f \<longrightarrow> \<not> starts_with (js_text f) ''/'' \<and> ''..'' \<notin> set (split_slashes (js_text f)))
     \<and> (\<forall>k \<in> fst ` set b. k \<in> {''context'', ''dockerfile'', ''args'', ''target''}))"

definition confined_service :: "stack_env \<Rightarrow> string list \<Rightarrow> fields \<Rightarrow> bool" where
  "confined_service env declared svc \<longleftrightarrow>
     (\<forall>k \<in> fst ` set svc. is_ext k \<or> k \<in> set SERVICE_ALLOWED - {''mem_limit'', ''cpus''})
     \<and> (case map_of svc ''volumes'' of None \<Rightarrow> True | Some YNull \<Rightarrow> True
        | Some (YList vs) \<Rightarrow> (\<forall>v \<in> set vs. confined_mount declared v) | _ \<Rightarrow> False)
     \<and> (case map_of svc ''cap_add'' of None \<Rightarrow> True
        | Some v \<Rightarrow> (\<exists>cs. v = YList (map YStr cs) \<and> set cs \<subseteq> set CAP_ADD_ALLOWED))
     \<and> (case map_of svc ''image'' of None \<Rightarrow> map_of svc ''build'' \<noteq> None | Some v \<Rightarrow> (\<exists>t. v = YStr t \<and> lang IMAGE_REF_RE t))
     \<and> (case map_of svc ''build'' of None \<Rightarrow> True | Some v \<Rightarrow> confined_build env v)
     \<and> (\<forall>l \<in> set (label_names (map_of svc ''labels'')). \<not> reserved_label l)
     \<and> map_of svc ''restart'' = Some (YStr ''unless-stopped'')
     \<and> (\<exists>l. map_of svc ''deploy'' = Some (deploy_limits l))"

definition local_volume :: "yv \<Rightarrow> bool" where
  "local_volume v \<longleftrightarrow> v = YNull \<or> (\<exists>kvs. v = YMap kvs
     \<and> \<not> is_truthy (map_of kvs ''external'') \<and> \<not> is_truthy (map_of kvs ''driver_opts'')
     \<and> map_of kvs ''driver'' \<in> {None, Some (YStr ''local'')}
     \<and> (\<forall>k \<in> fst ` set kvs. is_ext k \<or> k \<in> {''driver'', ''external'', ''driver_opts''}))"

section \<open>The checks one by one\<close>

lemma check_volume_ok: "check_volume n v = [] \<Longrightarrow> lang volume_name_re n \<and> local_volume v"
  by (auto simp: check_volume_def local_volume_def rx_test_lang Let_def concat_map_Nil split: if_splits yv.splits)

lemma starts_with_prefix: "starts_with s p \<longleftrightarrow> prefix p s"
  by (simp add: starts_with_def)

lemma split_on_prefix: "split_on c s = a # b # rest \<Longrightarrow> prefix (a @ [c]) s"
  using join_split_on [of c s] by (cases rest) (auto simp: prefix_def)

lemma named_volume_confined:
  assumes "named_volume v = Some n" "n \<noteq> [] \<longrightarrow> n \<in> set declared"
  shows "confined_mount declared v"
proof (cases v)
  case (YStr s)
  with assms obtain dst rest where "split_on (CHR '':'') s = n # dst # rest" "n \<noteq> []"
    by (auto simp: named_volume_def split: list.splits if_splits)
  with split_on_prefix [of "CHR '':''" s] assms(2) YStr show ?thesis by (auto simp: confined_mount_def)
next
  case (YMap kvs)
  with assms show ?thesis
    by (auto simp: named_volume_def confined_mount_def split: option.splits yv.splits if_splits)
qed (use assms in \<open>auto simp: named_volume_def\<close>)

lemma check_mounts_ok:
  assumes "check_mounts svc declared vols = []"
  shows "case vols of None \<Rightarrow> True | Some YNull \<Rightarrow> True
        | Some (YList vs) \<Rightarrow> (\<forall>v \<in> set vs. confined_mount declared v) | _ \<Rightarrow> False"
proof (cases "otherwise vols (Some (YList []))")
  case (Some w)
  show ?thesis
  proof (cases w)
    case (YList vs)
    have "confined_mount declared v" if "v \<in> set vs" for v
    proof -
      have "(case named_volume v of None \<Rightarrow> [HostMount svc v]
            | Some n \<Rightarrow> if n \<noteq> [] \<and> n \<notin> set declared then [MountUndeclared svc n] else []) = []"
        using assms Some YList that by (auto simp: check_mounts_def concat_map_Nil)
      then show ?thesis
        by (cases "named_volume v") (auto intro: named_volume_confined split: if_splits)
    qed
    with Some YList show ?thesis
      by (cases vols) (auto simp: otherwise_def split: yv.splits if_splits)
  qed (use assms Some in \<open>auto simp: check_mounts_def\<close>)
qed (auto simp: otherwise_def split: if_splits)

lemma check_caps_ok: "check_caps svc v = [] \<Longrightarrow> set (normal_caps v) \<subseteq> set CAP_ADD_ALLOWED"
  by (auto simp: check_caps_def normal_caps_def concat_map_Nil split: option.splits yv.splits if_splits)

lemma starts_with_child: "starts_with r (h @ ''/'') \<Longrightarrow> r = h @ ''/'' @ drop (length h + 1) r"
  by (auto simp: starts_with_def prefix_def)

lemma check_build_ok:
  assumes "check_build v home dir resolve svc = ([], rel)"
  shows "\<exists>b given r out. (v = YMap b \<or> (\<exists>c. v = YStr c \<and> b = [(''context'', YStr c)])) \<and> rel = Some out
    \<and> resolve dir given = Some r
    \<and> (r = home \<and> out = ''.'' \<or> r = home @ ''/'' @ out)
    \<and> (\<forall>f. map_of b ''dockerfile'' = Some f \<longrightarrow> \<not> starts_with (js_text f) ''/'' \<and> ''..'' \<notin> set (split_slashes (js_text f)))
    \<and> (\<forall>k \<in> fst ` set b. k \<in> {''context'', ''dockerfile'', ''args'', ''target''})"
proof -
  obtain b where b: "v = YMap b \<or> (\<exists>c. v = YStr c \<and> b = [(''context'', YStr c)])"
      "(case v of YStr c \<Rightarrow> YMap [(''context'', YStr c)] | _ \<Rightarrow> v) = YMap b"
    using assms by (cases v) (auto simp: check_build_def)
  define given where "given = (case otherwise (map_of b ''context'') None of None \<Rightarrow> ''.'' | Some c \<Rightarrow> js_text c)"
  have "concat (map (\<lambda>(k, _). if k \<in> {''context'', ''dockerfile'', ''args'', ''target''} then [] else [BuildKey svc k]) b) = []"
    using assms unfolding check_build_def b(2) by (simp add: Let_def split: if_splits option.splits)
  then have keys: "\<forall>k \<in> fst ` set b. k \<in> {''context'', ''dockerfile'', ''args'', ''target''}"
    unfolding concat_map_Nil by (force split: if_splits)
  have "\<exists>r. resolve dir given = Some r \<and> (r = home \<or> starts_with r (home @ ''/''))
      \<and> (\<forall>f. map_of b ''dockerfile'' = Some f \<longrightarrow> \<not> starts_with (js_text f) ''/'' \<and> ''..'' \<notin> set (split_slashes (js_text f)))
      \<and> rel = Some (if r = home then ''.'' else drop (length home + 1) r)"
    using assms unfolding check_build_def b(2) given_def [symmetric]
    by (auto simp: Let_def given_def [symmetric] split: if_splits option.splits)
  then obtain r where r: "resolve dir given = Some r" "r = home \<or> starts_with r (home @ ''/'')"
    and df: "\<forall>f. map_of b ''dockerfile'' = Some f \<longrightarrow> \<not> starts_with (js_text f) ''/'' \<and> ''..'' \<notin> set (split_slashes (js_text f))"
    and rel: "rel = Some (if r = home then ''.'' else drop (length home + 1) r)" by blast
  show ?thesis
  proof (intro exI conjI)
    show "v = YMap b \<or> (\<exists>c. v = YStr c \<and> b = [(''context'', YStr c)])" by (rule b(1))
    show "rel = Some (if r = home then ''.'' else drop (length home + 1) r)" by (rule rel)
    show "resolve dir given = Some r" by (rule r(1))
    show "r = home \<and> (if r = home then ''.'' else drop (length home + 1) r) = ''.''
        \<or> r = home @ ''/'' @ (if r = home then ''.'' else drop (length home + 1) r)"
      using r(2) starts_with_child by auto
  qed (use keys df in auto)
qed

section \<open>The normal form\<close>

definition kept_fields :: "fields \<Rightarrow> fields" where
  "kept_fields svc = filter (\<lambda>(k, _). k \<notin> {''mem_limit'', ''cpus'', ''deploy'', ''restart'', ''cap_add''}) svc"

lemma map_of_kept_fields:
  "map_of (kept_fields svc) k = (if k \<in> {''mem_limit'', ''cpus'', ''deploy'', ''restart'', ''cap_add''} then None else map_of svc k)"
  unfolding kept_fields_def by (rule map_of_without)

lemma normal_service_fields:
  "map_of (normal_service svc rel) ''deploy'' = Some (deploy_limits (limits_of svc))"
  "map_of (normal_service svc rel) ''restart'' = Some (YStr ''unless-stopped'')"
  "map_of (normal_service svc rel) ''cap_add'' = (if normal_caps (map_of svc ''cap_add'') = [] then None
     else Some (YList (map YStr (normal_caps (map_of svc ''cap_add'')))))"
  "map_of (normal_service svc rel) ''build'' = (case rel of None \<Rightarrow> map_of svc ''build''
     | Some r \<Rightarrow> Some (YMap (case map_of svc ''build'' of Some (YMap b) \<Rightarrow> set_prop ''context'' (YStr r) b | _ \<Rightarrow> [(''context'', YStr r)])))"
  "k \<notin> {''mem_limit'', ''cpus'', ''deploy'', ''restart'', ''cap_add'', ''build''} \<Longrightarrow> map_of (normal_service svc rel) k = map_of svc k"
  unfolding normal_service_def Let_def kept_fields_def [symmetric]
  by (simp_all add: map_of_kept_fields split: option.split)

lemma normal_service_entries:
  assumes "x \<in> set (normal_service svc rel)"
  shows "fst x \<in> {''deploy'', ''restart'', ''cap_add'', ''build''} \<or> (x \<in> set svc \<and> fst x \<notin> {''mem_limit'', ''cpus''})"
proof -
  define P where "P y \<longleftrightarrow> fst y \<in> {''deploy'', ''restart'', ''cap_add'', ''build''} \<or> (y \<in> set svc \<and> fst y \<notin> {''mem_limit'', ''cpus''})" for y
  have own: "P (''deploy'', v)" "P (''restart'', v)" "P (''cap_add'', v)" "P (''build'', v)" for v
    by (simp_all add: P_def)
  have rest: "\<forall>y \<in> set (filter (\<lambda>(k, _). k \<notin> {''mem_limit'', ''cpus'', ''deploy'', ''restart'', ''cap_add''}) svc). P y"
    by (auto simp: P_def)
  have built: "\<forall>y \<in> set (case rel of None \<Rightarrow> kvs | Some r \<Rightarrow> set_prop ''build'' (v r) kvs). P y" if "\<forall>y \<in> set kvs. P y" for kvs v
    using that set_prop_all [OF that own(4)] by (cases rel) auto
  have capped: "\<forall>y \<in> set (if c then kvs else set_prop ''cap_add'' v kvs). P y" if "\<forall>y \<in> set kvs. P y" for c kvs v
    using that set_prop_all [OF that own(3)] by auto
  have "\<forall>y \<in> set (normal_service svc rel). P y"
    unfolding normal_service_def Let_def by (intro set_prop_all own capped built rest)
  with assms show ?thesis by (simp add: P_def)
qed

lemma check_keys_ok: "check_keys name svc = [] \<Longrightarrow> k \<in> fst ` set svc \<Longrightarrow> is_ext k \<or> k \<in> set SERVICE_ALLOWED"
proof -
  assume ok: "check_keys name svc = []" and "k \<in> fst ` set svc"
  then obtain v where "(k, v) \<in> set svc" by auto
  with ok have "(if is_ext k then []
     else if k \<in> set SERVICE_REFUSED then [KeyRefused name k]
     else if k \<notin> set SERVICE_ALLOWED then [KeyNotAllowed name k] else []) = []"
    unfolding check_keys_def concat_map_Nil by fastforce
  then show ?thesis by (auto split: if_splits)
qed

lemma check_labels_ok: "check_labels name v = [] \<Longrightarrow> l \<in> set (label_names v) \<Longrightarrow> \<not> reserved_label l"
proof -
  assume "check_labels name v = []" "l \<in> set (label_names v)"
  then have "(if reserved_label l then [LabelReserved name l] else []) = []"
    unfolding check_labels_def concat_map_Nil by blast
  then show ?thesis by (auto split: if_splits)
qed

lemma check_image_ok:
  "check_image name svc = [] \<Longrightarrow> (case map_of svc ''image'' of None \<Rightarrow> map_of svc ''build'' \<noteq> None | Some v \<Rightarrow> (\<exists>t. v = YStr t \<and> lang IMAGE_REF_RE t))"
proof -
  assume ok: "check_image name svc = []"
  show ?thesis
  proof (cases "map_of svc ''image''")
    case None
    with ok show ?thesis by (auto simp: check_image_def is_truthy_def split: if_splits)
  next
    case (Some v)
    with ok show ?thesis by (cases v) (auto simp: check_image_def rx_test_lang split: if_splits)
  qed
qed

lemma normal_build_confined:
  assumes "fst (build_result env name svc) = []" "map_of svc ''build'' = Some v"
  defines "rel \<equiv> snd (build_result env name svc)"
  shows "rel \<noteq> None \<and> confined_build env
    (YMap (case map_of svc ''build'' of Some (YMap b) \<Rightarrow> set_prop ''context'' (YStr (the rel)) b | _ \<Rightarrow> [(''context'', YStr (the rel))]))"
proof -
  have allow: "en_allow_build env" and
    cb: "check_build v (en_home env) (en_compose_dir env) (en_resolve env) name = ([], rel)"
    using assms by (auto simp: build_result_def prod_eq_iff split: if_splits)
  from check_build_ok [OF cb] show ?thesis
  proof (elim exE conjE)
    fix b given r out
    assume b: "v = YMap b \<or> (\<exists>c. v = YStr c \<and> b = [(''context'', YStr c)])" and rel: "rel = Some out"
      and r: "en_resolve env (en_compose_dir env) given = Some r" "r = en_home env \<and> out = ''.'' \<or> r = en_home env @ ''/'' @ out"
      and df: "\<forall>f. map_of b ''dockerfile'' = Some f \<longrightarrow> \<not> starts_with (js_text f) ''/'' \<and> ''..'' \<notin> set (split_slashes (js_text f))"
      and keys: "\<forall>k \<in> fst ` set b. k \<in> {''context'', ''dockerfile'', ''args'', ''target''}"
    define nb where "nb = set_prop ''context'' (YStr out) b"
    have "(case map_of svc ''build'' of Some (YMap b) \<Rightarrow> set_prop ''context'' (YStr (the rel)) b | _ \<Rightarrow> [(''context'', YStr (the rel))]) = nb"
      using b assms(2) rel by (auto simp: nb_def)
    moreover have "confined_build env (YMap nb)"
      unfolding confined_build_def
    proof (intro conjI exI)
      show "en_resolve env (en_compose_dir env) given = Some r" by (rule r(1))
      show "r = en_home env \<and> map_of nb ''context'' = Some (YStr ''.'') \<or> (\<exists>rel. r = en_home env @ ''/'' @ rel \<and> map_of nb ''context'' = Some (YStr rel))"
        using r(2) by (auto simp: nb_def)
      have "\<forall>y \<in> set nb. fst y \<in> {''context'', ''dockerfile'', ''args'', ''target''}"
        unfolding nb_def by (rule set_prop_all) (use keys in auto)
      then show "\<forall>k \<in> fst ` set nb. k \<in> {''context'', ''dockerfile'', ''args'', ''target''}" by blast
      show "\<forall>f. map_of nb ''dockerfile'' = Some f \<longrightarrow> \<not> starts_with (js_text f) ''/'' \<and> ''..'' \<notin> set (split_slashes (js_text f))"
        using df by (simp add: nb_def)
    qed (use allow in auto)
      ultimately show ?thesis using rel by simp
  qed
qed

lemma normal_service_confined:
  assumes "check_service env declared name svc = []"
  shows "confined_service env declared (normal_service svc (snd (build_result env name svc)))"
proof -
  let ?n = "normal_service svc (snd (build_result env name svc))"
  have ok: "check_keys name svc = []" "check_image name svc = []" "fst (build_result env name svc) = []"
    "check_caps name (map_of svc ''cap_add'') = []" "check_mounts name declared (map_of svc ''volumes'') = []"
    "check_labels name (map_of svc ''labels'') = []"
    using assms by (auto simp: check_service_def)
  have f: "map_of ?n ''volumes'' = map_of svc ''volumes''" "map_of ?n ''image'' = map_of svc ''image''"
    "map_of ?n ''labels'' = map_of svc ''labels''" "map_of ?n ''restart'' = Some (YStr ''unless-stopped'')"
    "map_of ?n ''deploy'' = Some (deploy_limits (limits_of svc))"
    by (simp_all add: normal_service_fields)
  have build: "map_of ?n ''build'' = None \<and> map_of svc ''build'' = None
      \<or> (\<exists>v. map_of ?n ''build'' = Some v \<and> confined_build env v)"
  proof (cases "map_of svc ''build''")
    case None
    then have "snd (build_result env name svc) = None" by (simp add: build_result_def)
    with None show ?thesis by (simp add: normal_service_fields)
  next
    case (Some v)
    then obtain r where r: "snd (build_result env name svc) = Some r" using normal_build_confined [OF ok(3)] by auto
    show ?thesis
      using normal_build_confined [OF ok(3) Some, unfolded r option.sel] by (simp add: normal_service_fields(4) r)
  qed
  have keys: "is_ext k \<or> k \<in> set SERVICE_ALLOWED - {''mem_limit'', ''cpus''}" if "k \<in> fst ` set ?n" for k
  proof -
    from that obtain x where x: "x \<in> set ?n" "k = fst x" by blast
    have own: "{''deploy'', ''restart'', ''cap_add'', ''build''} \<subseteq> set SERVICE_ALLOWED - {''mem_limit'', ''cpus''}"
      by (simp add: SERVICE_ALLOWED_def)
    show ?thesis
      using normal_service_entries [OF x(1)] x(2) own check_keys_ok [OF ok(1), of k] by auto
  qed
  have caps: "case map_of ?n ''cap_add'' of None \<Rightarrow> True
        | Some v \<Rightarrow> (\<exists>cs. v = YList (map YStr cs) \<and> set cs \<subseteq> set CAP_ADD_ALLOWED)"
    using check_caps_ok [OF ok(4)] by (auto simp: normal_service_fields)
  show ?thesis
    unfolding confined_service_def f
  proof (intro conjI)
    show "case map_of svc ''volumes'' of None \<Rightarrow> True | Some YNull \<Rightarrow> True
        | Some (YList vs) \<Rightarrow> (\<forall>v \<in> set vs. confined_mount declared v) | _ \<Rightarrow> False"
      by (rule check_mounts_ok [OF ok(5)])
    show "case map_of svc ''image'' of None \<Rightarrow> map_of ?n ''build'' \<noteq> None | Some v \<Rightarrow> (\<exists>t. v = YStr t \<and> lang IMAGE_REF_RE t)"
      using check_image_ok [OF ok(2)] build by (auto split: option.splits)
    show "case map_of ?n ''build'' of None \<Rightarrow> True | Some v \<Rightarrow> confined_build env v" using build by auto
  qed (use keys caps check_labels_ok [OF ok(6)] in auto)
qed

section \<open>All services\<close>

definition object_fields :: "yv \<Rightarrow> fields" where
  "object_fields v = (case v of YMap kvs \<Rightarrow> kvs | _ \<Rightarrow> [])"

lemma check_services_ok:
  "check_services env declared kvs = ([], ls, out) \<Longrightarrow>
     out = map (\<lambda>(n, v). (n, normal_service (object_fields v) (snd (build_result env n (object_fields v))))) kvs
   \<and> ls = map (\<lambda>(n, v). (n, limits_of (object_fields v))) kvs
   \<and> (\<forall>(n, v) \<in> set kvs. lang service_name_re n \<and> check_service env declared n (object_fields v) = []
        \<and> (v = YNull \<or> (\<exists>svc. v = YMap svc)))"
proof (induction kvs arbitrary: ls out)
  case (Cons x kvs)
  obtain n v where x: "x = (n, v)" by (cases x)
  obtain es ls1 out1 where r: "check_services env declared kvs = (es, ls1, out1)" by (metis prod_cases3)
  have v: "v = YNull \<or> (\<exists>svc. v = YMap svc)" using Cons.prems x r by (cases v) (auto simp: Let_def)
  then have "(if v = YNull then YMap [] else v) = YMap (object_fields v)" by (auto simp: object_fields_def)
  with Cons.prems x r have "es = []" "rx_test service_name_re n" "check_service env declared n (object_fields v) = []"
    "ls = (n, limits_of (object_fields v)) # ls1"
    "out = (n, normal_service (object_fields v) (snd (build_result env n (object_fields v)))) # out1"
    by (auto simp: Let_def split: if_splits)
  with Cons.IH [of ls1 out1] r v x show ?case by (simp add: rx_test_lang)
qed simp

definition declared_volumes :: "checked_stack \<Rightarrow> fields" where
  "declared_volumes st = (case cs_volumes st of None \<Rightarrow> [] | Some vs \<Rightarrow> vs)"

lemma check_top_ok:
  assumes "check_top env q doc = Inr st"
  obtains volumes entries where
    "top_volumes doc = ([], volumes)" "service_entries doc = ([], entries)"
    "check_services env (map fst volumes) entries = ([], cs_limits st, cs_services st)"
    "declared_volumes st = volumes" "\<forall>(n, v) \<in> set volumes. check_volume n v = []"
    "cs_total st = total_limits (map snd (cs_limits st))" "quota_errors q (cs_total st) = []"
proof -
  obtain ve volumes where tv: "top_volumes doc = (ve, volumes)" by fastforce
  obtain se entries where se: "service_entries doc = (se, entries)" by fastforce
  obtain es ls out where cs: "check_services env (map fst volumes) entries = (es, ls, out)" by (metis prod_cases3)
  have "ve = [] \<and> se = [] \<and> es = [] \<and> concat (map (\<lambda>(n, v). check_volume n v) volumes) = []
      \<and> quota_errors q (total_limits (map snd ls)) = []
      \<and> st = \<lparr>cs_services = out, cs_volumes = (if volumes = [] then None else Some volumes),
              cs_limits = ls, cs_total = total_limits (map snd ls)\<rparr>"
    using assms unfolding check_top_def tv se cs Let_def by (simp add: cs Let_def split: if_splits)
  moreover from this have "\<forall>(n, v) \<in> set volumes. check_volume n v = []" by (auto simp: concat_map_Nil)
  moreover have "declared_volumes st = volumes" using calculation by (simp add: declared_volumes_def)
  ultimately show ?thesis using that [of volumes entries] tv se cs by simp
qed

lemma check_stack_top:
  assumes "check_stack yaml env q text = Inr st"
  obtains doc where "merge_keys (YMap doc) [] = []" "check_top env q doc = Inr st"
  using assms by (auto simp: check_stack_def Let_def split: sum.splits option.splits yv.splits if_splits)

text \<open>
  C30: An accepted stack is confined to its agent. Every service uses allowed keys only, mounts nothing but
  declared local volumes and tmpfs, adds back allowed capabilities only, runs a plain image reference or a
  build inside the agent's own folder, sets no reserved label, and carries NanoClaw's restart policy and limits.
\<close>

theorem accepted_stack_is_confined:
  assumes "check_stack yaml env q text = Inr st"
  shows "(\<forall>(n, svc) \<in> set (cs_services st). lang service_name_re n
           \<and> confined_service env (map fst (declared_volumes st)) svc)
    \<and> (\<forall>(n, v) \<in> set (declared_volumes st). lang volume_name_re n \<and> local_volume v)"
proof -
  obtain doc where "check_top env q doc = Inr st" using check_stack_top [OF assms] by metis
  then obtain volumes entries where tv: "top_volumes doc = ([], volumes)" and se: "service_entries doc = ([], entries)"
    and cs: "check_services env (map fst volumes) entries = ([], cs_limits st, cs_services st)"
    and dv: "declared_volumes st = volumes" "\<forall>(n, v) \<in> set volumes. check_volume n v = []"
    and total: "cs_total st = total_limits (map snd (cs_limits st))" "quota_errors q (cs_total st) = []"
    by (rule check_top_ok)
  have "lang service_name_re n \<and> confined_service env (map fst (declared_volumes st)) svc"
    if "(n, svc) \<in> set (cs_services st)" for n svc
    using check_services_ok [OF cs] that normal_service_confined dv(1) by fastforce
  moreover have "lang volume_name_re n \<and> local_volume v" if "(n, v) \<in> set (declared_volumes st)" for n v
    using check_volume_ok dv that by blast
  ultimately show ?thesis by blast
qed

section \<open>Totals\<close>

lemma round_thousandth_near: "\<bar>round_thousandth x - x\<bar> \<le> 1 / 2000"
  unfolding round_thousandth_def by linarith

lemma total_from:
  "sl_memory (foldl add_limits a ls) = sl_memory a + sum_list (map sl_memory ls)
   \<and> \<bar>sl_cpus (foldl add_limits a ls) - (sl_cpus a + sum_list (map sl_cpus ls))\<bar> \<le> of_nat (length ls) / 2000"
proof (induction ls arbitrary: a)
  case (Cons l ls)
  let ?b = "add_limits a l"
  have "\<bar>sl_cpus ?b - (sl_cpus a + sl_cpus l)\<bar> \<le> 1 / 2000"
    using round_thousandth_near by (simp add: add_limits_def)
  moreover have "\<bar>sl_cpus (foldl add_limits ?b ls) - (sl_cpus ?b + sum_list (map sl_cpus ls))\<bar> \<le> of_nat (length ls) / 2000"
    by (rule Cons.IH [of ?b, THEN conjunct2])
  moreover have "sl_memory (foldl add_limits ?b ls) = sl_memory ?b + sum_list (map sl_memory ls)"
    by (rule Cons.IH [of ?b, THEN conjunct1])
  moreover have "sl_memory ?b = sl_memory a + sl_memory l" by (simp add: add_limits_def)
  moreover have "(of_nat (length (l # ls)) :: rat) / 2000 = of_nat (length ls) / 2000 + 1 / 2000"
    by (simp add: add_divide_distrib)
  ultimately show ?case unfolding foldl.simps list.map sum_list.Cons by linarith
qed simp

lemma limits_positive: "0 < sl_memory (limits_of svc) \<and> 0 < sl_cpus (limits_of svc)"
proof -
  have "0 < m" if "parse_memory_mb v = Some m" for v m
    using that by (auto simp: parse_memory_mb_def Let_def MIB_def split: option.splits yv.splits if_splits prod.splits)
  moreover have "0 < c" if "parse_cpus v = Some c" for v c
    using that by (auto simp: parse_cpus_def split: option.splits yv.splits if_splits)
  ultimately show ?thesis
    by (auto simp: limits_of_def Let_def coalesce_def DEFAULT_MEMORY_MB_def DEFAULT_CPUS_def split: option.splits)
qed

text \<open>
  The limits an accepted stack runs under fit its quota. Each service carries its own limits, positive
  ones; the total memory is their sum and within the quota, and the total of processors is within the quota and
  differs from their sum by at most half a thousandth for each service.
\<close>

theorem accepted_stack_fits_quota:
  assumes "check_stack yaml env q text = Inr st"
  shows "map fst (cs_limits st) = map fst (cs_services st)
    \<and> list_all2 (\<lambda>(_, l) (_, svc). map_of svc ''deploy'' = Some (deploy_limits l) \<and> 0 < sl_memory l \<and> 0 < sl_cpus l)
        (cs_limits st) (cs_services st)
    \<and> sl_memory (cs_total st) = sum_list (map (sl_memory \<circ> snd) (cs_limits st))
    \<and> sl_memory (cs_total st) \<le> q_memory q \<and> sl_cpus (cs_total st) \<le> q_cpus q
    \<and> \<bar>sl_cpus (cs_total st) - sum_list (map (sl_cpus \<circ> snd) (cs_limits st))\<bar> \<le> of_nat (length (cs_limits st)) / 2000"
proof -
  obtain doc where "check_top env q doc = Inr st" using check_stack_top [OF assms] by metis
  then obtain volumes entries where tv: "top_volumes doc = ([], volumes)" and se: "service_entries doc = ([], entries)"
    and cs: "check_services env (map fst volumes) entries = ([], cs_limits st, cs_services st)"
    and dv: "declared_volumes st = volumes" "\<forall>(n, v) \<in> set volumes. check_volume n v = []"
    and total: "cs_total st = total_limits (map snd (cs_limits st))" "quota_errors q (cs_total st) = []"
    by (rule check_top_ok)
  note ok = check_services_ok [OF cs]
  have "list_all2 (\<lambda>(_, l) (_, svc). map_of svc ''deploy'' = Some (deploy_limits l) \<and> 0 < sl_memory l \<and> 0 < sl_cpus l)
      (cs_limits st) (cs_services st)"
    using ok limits_positive by (auto simp: list_all2_conv_all_nth normal_service_fields split: prod.split)
  moreover have "map fst (cs_limits st) = map fst (cs_services st)" using ok by auto
  moreover have "sl_memory (cs_total st) \<le> q_memory q \<and> sl_cpus (cs_total st) \<le> q_cpus q"
    using total(2) by (auto simp: quota_errors_def split: if_splits)
  ultimately show ?thesis
    using total_from [of "\<lparr>sl_memory = 0, sl_cpus = 0\<rparr>" "map snd (cs_limits st)"] unfolding total(1) total_limits_def
    by simp
qed

section \<open>Merge keys\<close>

fun plain_keys :: "yv \<Rightarrow> bool" and plain_items :: "yv list \<Rightarrow> bool" and plain_fields :: "(string \<times> yv) list \<Rightarrow> bool" where
  "plain_keys (YList vs) = plain_items vs"
| "plain_keys (YMap kvs) = plain_fields kvs"
| "plain_keys v = True"
| "plain_items [] = True"
| "plain_items (v # vs) = (plain_keys v \<and> plain_items vs)"
| "plain_fields [] = True"
| "plain_fields ((k, v) # kvs) = (k \<noteq> ''<<'' \<and> plain_keys v \<and> plain_fields kvs)"

lemma merge_keys_none:
  "merge_keys v p = [] \<longleftrightarrow> plain_keys v"
  "merge_items vs i p = [] \<longleftrightarrow> plain_items vs"
  "merge_fields kvs p = [] \<longleftrightarrow> plain_fields kvs"
  by (induction v p and vs i p and kvs p rule: merge_keys_merge_items_merge_fields.induct) auto

lemma plain_fields_all: "plain_fields kvs \<longleftrightarrow> (\<forall>y \<in> set kvs. fst y \<noteq> ''<<'' \<and> plain_keys (snd y))"
  by (induction kvs) auto

lemma merge_fields_all: "merge_fields kvs p = [] \<longleftrightarrow> (\<forall>y \<in> set kvs. fst y \<noteq> ''<<'' \<and> merge_keys (snd y) [] = [])"
  by (simp add: merge_keys_none plain_fields_all)

lemma merge_texts: "merge_items (map YStr ts) i p = []"
  by (induction ts arbitrary: i) auto

text \<open>
  No merge key survives into an accepted stack: nothing that Compose would merge in after the check is
  anywhere in its services.
\<close>

theorem accepted_stack_has_no_merge_keys:
  assumes "check_stack yaml env q text = Inr st" and "(n, svc) \<in> set (cs_services st)"
  shows "merge_keys (YMap svc) [] = []"
proof -
  obtain doc where merges: "merge_keys (YMap doc) [] = []" and "check_top env q doc = Inr st"
    using check_stack_top [OF assms(1)] by metis
  from this(2) obtain volumes entries where tv: "top_volumes doc = ([], volumes)" and se: "service_entries doc = ([], entries)"
    and cs: "check_services env (map fst volumes) entries = ([], cs_limits st, cs_services st)"
    and dv: "declared_volumes st = volumes" "\<forall>(n, v) \<in> set volumes. check_volume n v = []"
    and total: "cs_total st = total_limits (map snd (cs_limits st))" "quota_errors q (cs_total st) = []"
    by (rule check_top_ok)
  have "map_of doc ''services'' = Some (YMap entries)"
    using se by (auto simp: service_entries_def split: option.splits yv.splits if_splits)
  then have entries: "\<forall>y \<in> set entries. merge_keys (snd y) [] = []"
    using merges map_of_SomeD by (fastforce simp: merge_fields_all)
  obtain v rel where v: "(n, v) \<in> set entries" and svc: "svc = normal_service (object_fields v) rel"
    using check_services_ok [OF cs] assms(2) by auto
  define P where "P y \<longleftrightarrow> fst y \<noteq> ''<<'' \<and> merge_keys (snd y) [] = []" for y
  have own: "\<forall>y \<in> set (object_fields v). P y"
  proof (cases v)
    case (YMap kvs)
    have "merge_keys v [] = []" using entries v by fastforce
    then have "merge_fields kvs [] = []" using YMap by simp
    then show ?thesis unfolding merge_fields_all by (simp add: YMap object_fields_def P_def)
  qed (simp_all add: object_fields_def)
  have kept: "\<forall>y \<in> set (kept_fields (object_fields v)). P y" using own by (auto simp: kept_fields_def)
  have P: "P (''deploy'', deploy_limits l)" "P (''restart'', YStr t)" "P (''cap_add'', YList (map YStr cs))" for l t cs
    by (simp_all add: P_def deploy_limits_def merge_texts)
  have inner: "P (''build'', YMap (case map_of (object_fields v) ''build'' of
       Some (YMap b) \<Rightarrow> set_prop ''context'' (YStr r) b | _ \<Rightarrow> [(''context'', YStr r)]))" for r
  proof -
    have "\<forall>y \<in> set (set_prop ''context'' (YStr r) b). P y" if "map_of (object_fields v) ''build'' = Some (YMap b)" for b
    proof (rule set_prop_all)
      have "merge_keys (YMap b) [] = []" using own map_of_SomeD [OF that] by (fastforce simp: P_def simp del: merge_keys.simps)
      then have "merge_fields b [] = []" by simp
      then show "\<forall>y \<in> set b. P y" unfolding merge_fields_all P_def .
    qed (simp add: P_def)
    then show ?thesis by (auto simp: P_def merge_fields_all split: option.split yv.split)
  qed
  have built: "\<forall>y \<in> set (case rel of None \<Rightarrow> kvs | Some r \<Rightarrow> set_prop ''build'' (F r) kvs). P y"
    if "\<forall>y \<in> set kvs. P y" "\<And>r. P (''build'', F r)" for kvs F
    using that set_prop_all [OF that] by (cases rel) auto
  have capped: "\<forall>y \<in> set (if c then kvs else set_prop ''cap_add'' v kvs). P y"
    if "\<forall>y \<in> set kvs. P y" "P (''cap_add'', v)" for c kvs v
    using that set_prop_all [OF that] by auto
  have "\<forall>y \<in> set svc. P y"
    unfolding svc normal_service_def Let_def kept_fields_def [symmetric]
    by (intro set_prop_all P capped built kept inner)
  then show ?thesis by (simp add: merge_fields_all P_def)
qed

section \<open>Texts on a card\<close>

text \<open>
  An image reference that is accepted shows as one line on a card: it consists of letters, digits and
  the marks of a reference, so no space, line end, quote or backtick can be in it.
\<close>

theorem image_reference_is_one_line:
  assumes "rx_test IMAGE_REF_RE t" and "c \<in> set t"
  shows "is_alnum c \<or> is_upper c \<or> c \<in> {CHR ''.'', CHR ''_'', CHR ''-'', CHR '':'', CHR ''/'', CHR ''@''}"
proof -
  define q where "q c \<longleftrightarrow> is_alnum c \<or> is_upper c \<or> c \<in> {CHR ''.'', CHR ''_'', CHR ''-'', CHR '':'', CHR ''/'', CHR ''@''}" for c
  have digit: "is_digit c \<Longrightarrow> is_alnum c" and lower: "is_lower c \<Longrightarrow> is_alnum c" for c by (simp_all add: is_alnum_def)
  have lit: "all_in q (lit '':'')" "all_in q (lit ''/'')" "all_in q (lit ''__'')" "all_in q (lit ''-'')" "all_in q (lit ''@sha256:'')"
    by (simp_all add: q_def is_alnum_def is_digit_def is_lower_def code_def)
  have abc: "is_alnum CHR ''a''" "is_alnum CHR ''b''" "is_alnum CHR ''c''" "is_alnum CHR ''d''" "is_alnum CHR ''e''" "is_alnum CHR ''f''"
    by (simp_all add: is_alnum_def is_lower_def code_def)
  have hex: "all_in q (Cls (\<lambda>c. is_digit c \<or> c \<in> set ''abcdef''))"
    using digit by (auto simp: q_def is_alnum_def is_lower_def code_def)
  have part: "all_in q path_part" using lit by (simp add: path_part_def low_alnum_def q_def)
  have "all_in q IMAGE_REF_RE"
    unfolding IMAGE_REF_RE_def
    using lit part by (auto simp del: all_in_derived(3) simp: low_alnum_def word_dot_dash_def q_def digit abc intro!: all_in_exactly all_in_up_to hex)
  then have "q c" using all_in_lang assms by (simp add: rx_test_lang)
  then show ?thesis by (simp add: q_def)
qed

section \<open>A concrete stack\<close>

definition sample_doc :: fields where
  "sample_doc = [(''services'', YMap [(''web'', YMap [(''image'', YStr ''nginx:1''), (''volumes'', YList [YStr ''data:/d'']),
       (''mem_limit'', YStr ''64m'')])]), (''volumes'', YMap [(''data'', YNull)])]"

definition sample_yaml :: "string \<Rightarrow> yaml_doc" where
  "sample_yaml t = \<lparr>yd_errors = [], yd_tags = [], yd_value = Inr (Some (YMap sample_doc))\<rparr>"

definition sample_env :: stack_env where
  "sample_env = \<lparr>en_home = ''/g'', en_compose_dir = ''/g'', en_resolve = (\<lambda>_ _. None), en_allow_build = False\<rparr>"

lemma sample_accepted: "\<not> isl (check_stack sample_yaml sample_env \<lparr>q_memory = 100, q_cpus = 2\<rparr> ''x'')"
  by code_simp

lemma sample_stack: obtains st where "check_stack sample_yaml sample_env \<lparr>q_memory = 100, q_cpus = 2\<rparr> ''x'' = Inr st"
  using sample_accepted by (cases "check_stack sample_yaml sample_env \<lparr>q_memory = 100, q_cpus = 2\<rparr> ''x''") auto

lemma sample_services:
  "map_option (map fst) (case check_stack sample_yaml sample_env \<lparr>q_memory = 100, q_cpus = 2\<rparr> ''x'' of Inl _ \<Rightarrow> None
     | Inr st \<Rightarrow> Some (cs_services st)) = Some [''web'']"
  by code_simp

lemma accepted_stack_is_confined_witness:
  "\<exists>st. check_stack sample_yaml sample_env \<lparr>q_memory = 100, q_cpus = 2\<rparr> ''x'' = Inr st
     \<and> list_all (\<lambda>(n, svc). confined_service sample_env (map fst (declared_volumes st)) svc) (cs_services st)"
proof -
  obtain st where st: "check_stack sample_yaml sample_env \<lparr>q_memory = 100, q_cpus = 2\<rparr> ''x'' = Inr st" by (rule sample_stack)
  from accepted_stack_is_confined [OF st] st show ?thesis by (auto simp: list_all_iff)
qed

lemma accepted_stack_fits_quota_witness:
  "\<exists>st. check_stack sample_yaml sample_env \<lparr>q_memory = 100, q_cpus = 2\<rparr> ''x'' = Inr st
     \<and> sl_memory (cs_total st) \<le> 100 \<and> sl_cpus (cs_total st) \<le> 2"
proof -
  obtain st where st: "check_stack sample_yaml sample_env \<lparr>q_memory = 100, q_cpus = 2\<rparr> ''x'' = Inr st" by (rule sample_stack)
  from accepted_stack_fits_quota [OF st] st show ?thesis by auto
qed

lemma accepted_stack_has_no_merge_keys_witness:
  "\<exists>svc. merge_keys (YMap svc) [] = []
     \<and> (\<exists>st. check_stack sample_yaml sample_env \<lparr>q_memory = 100, q_cpus = 2\<rparr> ''x'' = Inr st \<and> (''web'', svc) \<in> set (cs_services st))"
proof -
  obtain st where st: "check_stack sample_yaml sample_env \<lparr>q_memory = 100, q_cpus = 2\<rparr> ''x'' = Inr st" by (rule sample_stack)
  then have "map fst (cs_services st) = [''web'']" using sample_services by simp
  then obtain svc where "(''web'', svc) \<in> set (cs_services st)" by (cases "cs_services st") auto
  with accepted_stack_has_no_merge_keys [OF st] st show ?thesis by blast
qed

lemma image_reference_is_one_line_witness: "is_alnum (CHR ''n'') \<or> is_upper (CHR ''n'') \<or> CHR ''n'' \<in> {CHR ''.'', CHR ''_'', CHR ''-'', CHR '':'', CHR ''/'', CHR ''@''}"
proof -
  have "rx_test IMAGE_REF_RE ''nginx:1''" by code_simp
  from image_reference_is_one_line [OF this, of "CHR ''n''"] show ?thesis by simp
qed

end
