(* ===== verification/WorkloadFacts.thy ===== *)
theory WorkloadFacts
  imports WorkloadControl StackFacts
begin

text \<open>
  What the commands of \<open>WorkloadControl\<close> guarantee: what starts was approved, the quota holds over any run of commands, a redeploy stays
  within its approval, and an approval covers what the card showed.
\<close>

section \<open>What is started\<close>

lemma build_service_ok:
  assumes "build_service h w ap (n, svc) = Inr ev"
  shows "\<exists>df want. map_of (ap_services ap) n = Some want
    \<and> ev = Built n df (map_of (build_of svc) ''args'') (built_image_name (ho_install h) w n)
    \<and> sh_dockerfile want = Some (in_sha (ho_install h) df)
    \<and> sh_args want = Some (hash_args (in_sha (ho_install h)) (map_of (build_of svc) ''args''))"
  using assms by (auto simp: build_service_def Let_def split: option.splits if_splits)

lemma build_each_ok:
  "build_each h w ap ss = (evs, None) \<Longrightarrow> \<forall>s \<in> set ss. \<exists>ev \<in> set evs. build_service h w ap s = Inr ev"
  by (induction h w ap ss arbitrary: evs rule: build_each.induct) (fastforce split: sum.splits prod.splits)+

lemma build_each_events: "build_each h w ap ss = (evs, r) \<Longrightarrow> Composed i args \<notin> set evs \<and> Wrote images \<notin> set evs"
  by (induction h w ap ss arbitrary: evs r rule: build_each.induct)
     (auto simp: build_service_def Let_def split: sum.splits prod.splits option.splits if_splits)

lemma up_args_not_pull [simp]: "up_args \<noteq> pull_args ps" "pull_args ps \<noteq> up_args"
  by (simp_all add: up_args_def pull_args_def)

lemma start_stack_up:
  assumes "start_stack h w network = (evs, r)" "Composed i up_args \<in> set evs"
  shows "i = wl_id w \<and> Wrote (service_images (ho_install h) w) \<in> set evs
    \<and> (\<exists>out. written_services (service_images (ho_install h) w) (cs_services (wl_stack w)) = Inr out)"
  using assms by (auto simp: start_stack_def write_files_def stack_file_def Let_def
      split: sum.splits option.splits if_splits)

text \<open>What the owner approved for a service: the digest of its image, or the Dockerfile and arguments of its build.\<close>

definition image_approved :: "install \<Rightarrow> workload \<Rightarrow> approved \<Rightarrow> workload_event list \<Rightarrow> string \<times> fields \<Rightarrow> string \<Rightarrow> bool" where
  "image_approved i w ap evs ns img \<longleftrightarrow> (\<exists>want. map_of (ap_services ap) (fst ns) = Some want \<and>
     (if is_build (snd ns)
      then img = built_image_name i w (fst ns)
        \<and> (\<exists>df args. Built (fst ns) df args img \<in> set evs \<and> sh_dockerfile want = Some (in_sha i df) \<and> sh_args want = Some (hash_args (in_sha i) args))
      else (\<exists>r d. map_of (snd ns) ''image'' = Some (YStr r) \<and> sh_ref want = Some r \<and> sh_digest want = Some d \<and> img = pin_ref r d)))"

lemma service_images_mem:
  assumes "distinct (map fst (cs_services (wl_stack w)))" "(n, svc) \<in> set (cs_services (wl_stack w))"
    "map_of (service_images i w) n = Some img"
  shows "image_for i w (n, svc) = Some (n, img)"
proof -
  from assms(3) obtain ns where ns: "ns \<in> set (cs_services (wl_stack w))" "image_for i w ns = Some (n, img)"
    by (auto simp: service_images_def in_map_filter dest!: map_of_SomeD)
  then have "fst ns = n" by (auto simp: image_for_def Let_def split: if_splits option.splits)
  with assms(1,2) ns show ?thesis by (metis eq_key_imp_eq_value prod.collapse)
qed

lemma written_services_has:
  "written_services images svcs = Inr out \<Longrightarrow> (n, svc) \<in> set svcs \<Longrightarrow> \<exists>i. map_of images n = Some i"
  by (induction images svcs arbitrary: out rule: written_services.induct) (auto split: option.splits sum.splits if_splits)

lemma deploy_body_up:
  assumes "deploy_body h g w ap network = (evs, r)" "Composed i up_args \<in> set evs"
    and "distinct (map fst (cs_services (wl_stack w)))" "wl_approved_shape w = Some ap"
  shows "i = wl_id w \<and> (\<exists>images. Wrote images \<in> set evs \<and> (\<forall>ns \<in> set (cs_services (wl_stack w)).
    \<exists>img. map_of images (fst ns) = Some img \<and> image_approved (ho_install h) w ap evs ns img))"
proof -
  define builds where "builds = filter (\<lambda>(_, svc). is_build svc) (cs_services (wl_stack w))"
  obtain evs1 r1 where b: "build_each h w ap builds = (evs1, r1)" by fastforce
  obtain evs2 r2 where s: "start_stack h w network = (evs2, r2)" by fastforce
  have e: "r1 = None" "evs = evs1 @ evs2" "Composed i up_args \<in> set evs2"
    using assms(1,2) b s build_each_events [OF b, where i = i and args = up_args]
    by (auto simp: deploy_body_def Let_def builds_def [symmetric] split: if_splits option.splits sum.splits)
  note st = start_stack_up [OF s e(3)]
  let ?images = "service_images (ho_install h) w"
  have "\<exists>img. map_of ?images (fst ns) = Some img \<and> image_approved (ho_install h) w ap evs ns img"
    if ns: "ns \<in> set (cs_services (wl_stack w))" for ns
  proof -
    obtain n svc where n: "ns = (n, svc)" by fastforce
    obtain out where "written_services ?images (cs_services (wl_stack w)) = Inr out" using st by blast
    then obtain img where img: "map_of ?images n = Some img"
      using written_services_has ns n by blast
    then have i: "image_for (ho_install h) w (n, svc) = Some (n, img)"
      using service_images_mem [OF assms(3)] ns n by blast
    have "image_approved (ho_install h) w ap evs ns img"
    proof (cases "is_build svc")
      case True
      then have "(n, svc) \<in> set builds" using ns n by (simp add: builds_def)
      then obtain ev where "ev \<in> set evs1" "build_service h w ap (n, svc) = Inr ev"
        using build_each_ok b e(1) by blast
      with True i n e(2) show ?thesis
        by (auto simp: image_approved_def image_for_def dest!: build_service_ok)
    next
      case False
      with i n assms(4) show ?thesis
        by (auto simp: image_approved_def image_for_def approved_service_def split: option.splits if_splits dest!: truthyD)
    qed
    with img n show ?thesis by auto
  qed
  with st e(2) show ?thesis by auto
qed

lemma finish_deploy_events:
  "finish_deploy h now w (evs, r) db = (evs', x, db') \<Longrightarrow> \<exists>a b. evs' = evs @ [Audited a b]"
  by (auto simp: finish_deploy_def row_or_gone_def split: option.splits)

text \<open>A deploy either stops before it changes the row, or runs and records how it ended.\<close>

definition placed_patch :: "addresses \<Rightarrow> workload_patch" where
  "placed_patch a = no_patch\<lparr>pa_addresses := Some a, pa_state := Some Deploying, pa_error := Some None\<rparr>"

lemma placed_patch_simps [simp]:
  "pa_text (placed_patch a) = None" "pa_stack (placed_patch a) = None" "pa_memory (placed_patch a) = None"
  "pa_cpus (placed_patch a) = None" "pa_shape (placed_patch a) = None" "pa_state (placed_patch a) = Some Deploying"
  by (simp_all add: placed_patch_def no_patch_def)

lemma update_get: "get_workload i db = Some w \<Longrightarrow> \<exists>db'. update_workload i p now db = (Some (patched p now w), db')"
  by (auto simp: update_workload_def get_workload_def tbl_get_update Let_def dest: tbl_get_SomeD)

lemma deploy_cases:
  assumes "deploy h now g w db = (evs, r, db')" "get_workload (wl_id w) db = Some w"
  obtains (stopped) "evs = []" "isl r" "wd_rows db' = wd_rows db" "wd_quotas db' = wd_quotas db" "wd_builds db' = wd_builds db"
  | (ran) ap and net :: network_row and nets and a and db2 where "wl_approved_shape w = Some ap"
      "update_workload (wl_id w) (placed_patch a) now (db\<lparr>wd_networks := nets\<rparr>) = (Some (patched (placed_patch a) now w), db2)"
      "finish_deploy h now (patched (placed_patch a) now w)
         (deploy_body h g (patched (placed_patch a) now w) ap (network_name (ho_install h) (nw_idx net))) db2 = (evs, r, db')"
proof (cases "require_workloads h")
  case (Some e)
  then show ?thesis using assms(1) by (intro stopped) (auto simp: deploy_def)
next
  case ok: None
  show ?thesis
  proof (cases "wl_approved_shape w")
    case None
    then show ?thesis using ok assms(1) by (intro stopped) (auto simp: deploy_def)
  next
    case ap: (Some ap)
    obtain found nets where c: "claim_network g (network_name (ho_install h)) MAX_NETWORKS (wd_networks db) = (found, nets)" by fastforce
    show ?thesis
    proof (cases "\<exists>net a. found = Some net \<and> ho_network h (nw_idx net) \<and> place h g w net (db\<lparr>wd_networks := nets\<rparr>) = Some a")
      case True
      then obtain net a where o: "found = Some net" "ho_network h (nw_idx net)" "place h g w net (db\<lparr>wd_networks := nets\<rparr>) = Some a" by blast
      have "get_workload (wl_id w) (db\<lparr>wd_networks := nets\<rparr>) = Some w" using assms(2) by (simp add: get_workload_def)
      then obtain db2 where u: "update_workload (wl_id w) (placed_patch a) now (db\<lparr>wd_networks := nets\<rparr>) = (Some (patched (placed_patch a) now w), db2)"
        using update_get by blast
      with assms(1) ok ap c o show ?thesis by (intro ran [where net = net, OF ap u]) (simp add: deploy_def Let_def placed_patch_def)
    next
      case False
      then show ?thesis using ok ap c assms(1)
        by (intro stopped) (auto simp: deploy_def Let_def split: option.splits if_splits)
    qed
  qed
qed

text \<open>
  C8: Nothing starts that was not approved. When a deploy gets as far as starting containers, every service runs either
  the digest the owner approved for the very reference the stack has, or an image built in this deploy from a Dockerfile and
  arguments with the approved hashes, whatever the registry, the agent's folder and Docker answered.
\<close>

theorem deploy_starts_only_approved:
  assumes "deploy h now g w db = (evs, r, db')" and "Composed i up_args \<in> set evs"
    and "get_workload (wl_id w) db = Some w" and "distinct (map fst (cs_services (wl_stack w)))"
  shows "i = wl_id w \<and> (\<exists>ap images. wl_approved_shape w = Some ap \<and> Wrote images \<in> set evs
    \<and> (\<forall>ns \<in> set (cs_services (wl_stack w)). \<exists>img. map_of images (fst ns) = Some img
         \<and> image_approved (ho_install h) w ap evs ns img))"
  using assms(1,3)
proof (cases rule: deploy_cases)
  case stopped
  with assms(2) show ?thesis by simp
next
  case (ran ap net nets a db2)
  let ?w = "patched (placed_patch a) now w"
  obtain evs1 r1 where body: "deploy_body h g ?w ap (network_name (ho_install h) (nw_idx net)) = (evs1, r1)" by fastforce
  then have "\<exists>a b. evs = evs1 @ [Audited a b]" using ran(3) by (auto dest: finish_deploy_events)
  with assms(2) have e: "Composed i up_args \<in> set evs1" "set evs1 \<subseteq> set evs" by auto
  have "distinct (map fst (cs_services (wl_stack ?w)))" "wl_approved_shape ?w = Some ap"
    using assms(4) ran(1) by simp_all
  note b = deploy_body_up [OF body e(1) this]
  have "image_approved (ho_install h) w ap evs ns img" if "image_approved (ho_install h) ?w ap evs1 ns img" for ns img
    using that e(2) by (auto simp: image_approved_def built_image_name_def project_name_def split: if_splits)
  with b e(2) ran(1) show ?thesis by simp blast
qed

end
