(* ===== verification/WorkloadQuota.thy ===== *)
theory WorkloadQuota
  imports WorkloadFacts "HOL-Library.Multiset"
begin

text \<open>
  The quota of an agent over any run of commands. Every command changes one row; \<open>update_sound\<close> is the one argument
  about such a change, and each command is a few applications of it.
\<close>

definition mine :: "string \<Rightarrow> workload list \<Rightarrow> workload list" where
  "mine g ws = filter (\<lambda>w. live w \<and> wl_group w = g) ws"

definition within_quota :: "workload_db \<Rightarrow> bool" where
  "within_quota db \<longleftrightarrow> (\<forall>g. approved_memory (mine g (wd_rows db)) \<le> dq_memory (quota_for g db)
     \<and> approved_cpus (mine g (wd_rows db)) \<le> dq_cpus (quota_for g db))"

definition size_ok :: "workload \<Rightarrow> bool" where
  "size_ok w \<longleftrightarrow> 0 \<le> wl_approved_memory w \<and> 0 \<le> wl_approved_cpus w
     \<and> wl_memory w \<le> wl_approved_memory w \<and> wl_cpus w \<le> wl_approved_cpus w"

definition db_sound :: "workload_db \<Rightarrow> bool" where
  "db_sound db \<longleftrightarrow> rows_ok db \<and> within_quota db \<and> (\<forall>w \<in> set (wd_rows db). size_ok w)"

section \<open>One row changes\<close>

definition rest :: "string \<Rightarrow> workload list \<Rightarrow> workload list" where
  "rest i ws = filter (\<lambda>w. wl_id w \<noteq> i) ws"

lemma rest_map: "rest i (map (\<lambda>v. if wl_id v = i then patched p now v else v) ws) = rest i ws"
  by (induction ws) (auto simp: rest_def)

lemma mine_split:
  assumes "distinct (map wl_id ws)" "w \<in> set ws"
  shows "approved_memory (mine g ws) = (if live w \<and> wl_group w = g then wl_approved_memory w else 0) + approved_memory (mine g (rest (wl_id w) ws))"
    and "approved_cpus (mine g ws) = (if live w \<and> wl_group w = g then wl_approved_cpus w else 0) + approved_cpus (mine g (rest (wl_id w) ws))"
proof -
  have none: "rest i vs = vs" if "i \<notin> wl_id ` set vs" for i vs
    using that by (auto simp: rest_def filter_id_conv)
  have "approved_memory (mine g ws) = (if live w \<and> wl_group w = g then wl_approved_memory w else 0) + approved_memory (mine g (rest (wl_id w) ws))
    \<and> approved_cpus (mine g ws) = (if live w \<and> wl_group w = g then wl_approved_cpus w else 0) + approved_cpus (mine g (rest (wl_id w) ws))"
    using assms
  proof (induction ws)
    case (Cons v ws)
    show ?case
    proof (cases "v = w")
      case True
      with Cons.prems none [of "wl_id w" ws] show ?thesis
        by (auto simp: mine_def approved_memory_def approved_cpus_def rest_def)
    next
      case False
      with Cons.prems have "wl_id v \<noteq> wl_id w" "w \<in> set ws" by (auto simp: rev_image_eqI)
      with Cons show ?thesis by (auto simp: mine_def approved_memory_def approved_cpus_def rest_def)
    qed
  qed simp
  then show "approved_memory (mine g ws) = (if live w \<and> wl_group w = g then wl_approved_memory w else 0) + approved_memory (mine g (rest (wl_id w) ws))"
    and "approved_cpus (mine g ws) = (if live w \<and> wl_group w = g then wl_approved_cpus w else 0) + approved_cpus (mine g (rest (wl_id w) ws))"
    by blast+
qed

lemma update_sound:
  assumes sound: "db_sound db" and w: "w \<in> set (wd_rows db)" "live w"
    and u: "update_workload (wl_id w) p now db = (r, db')" and sz: "size_ok (patched p now w)"
    and fits: "live (patched p now w) \<Longrightarrow>
      wl_approved_memory (patched p now w) + approved_memory (mine (wl_group w) (rest (wl_id w) (wd_rows db))) \<le> dq_memory (quota_for (wl_group w) db)
      \<and> wl_approved_cpus (patched p now w) + approved_cpus (mine (wl_group w) (rest (wl_id w) (wd_rows db))) \<le> dq_cpus (quota_for (wl_group w) db)"
  shows "db_sound db'"
proof -
  let ?f = "\<lambda>v. if wl_id v = wl_id w then patched p now v else v" and ?w = "patched p now w"
  note rows = update_workload_rows [OF u]
  have key: "keyed wl_id (wd_rows db)" and names: "\<And>v x. \<lbrakk>v \<in> set (wd_rows db); x \<in> set (wd_rows db); live v; live x; wl_group v = wl_group x; wl_name v = wl_name x\<rbrakk> \<Longrightarrow> v = x"
    using sound by (auto simp: db_sound_def rows_ok_def)
  have key': "keyed wl_id (wd_rows db')" by (rule keyed_update_workload [OF u key])
  have only: "v = w" if "v \<in> set (wd_rows db)" "wl_id v = wl_id w" for v
    using key w(1) that by (auto simp: keyed_def distinct_map inj_on_eq_iff)
  have mem: "v \<in> set (wd_rows db') \<longleftrightarrow> v = ?w \<or> (v \<in> set (wd_rows db) \<and> wl_id v \<noteq> wl_id w)" for v
    using only w(1) by (auto simp: rows(1) image_iff)
  have "rows_ok db'"
    unfolding rows_ok_def
  proof (intro conjI key' ballI impI)
    fix v x
    assume "v \<in> set (wd_rows db')" "x \<in> set (wd_rows db')" "live v \<and> live x \<and> wl_group v = wl_group x \<and> wl_name v = wl_name x"
    then show "v = x" using names w unfolding mem by (metis patched_fixed(2,3))
  qed
  moreover have "size_ok v" if "v \<in> set (wd_rows db')" for v
    using that sz sound by (auto simp: mem db_sound_def)
  moreover have "within_quota db'"
  proof -
    have q: "quota_for g db' = quota_for g db" for g by (simp add: quota_for_def rows(3))
    have r: "rest (wl_id w) (wd_rows db') = rest (wl_id w) (wd_rows db)"
      by (simp add: rows(1) rest_map)
    have d: "distinct (map wl_id (wd_rows db))" "distinct (map wl_id (wd_rows db'))" using key key' by (simp_all add: keyed_def)
    have old: "approved_memory (mine g (wd_rows db)) \<le> dq_memory (quota_for g db)" "approved_cpus (mine g (wd_rows db)) \<le> dq_cpus (quota_for g db)" for g
      using sound by (auto simp: db_sound_def within_quota_def)
    have pos: "0 \<le> wl_approved_memory w" "0 \<le> wl_approved_cpus w" using sound w(1) by (auto simp: db_sound_def size_ok_def)
    have w': "?w \<in> set (wd_rows db')" by (simp add: mem)
    note split' = mine_split [OF d(2) w', unfolded patched_fixed r] and split = mine_split [OF d(1) w(1)]
    have "approved_memory (mine g (wd_rows db')) \<le> dq_memory (quota_for g db) \<and> approved_cpus (mine g (wd_rows db')) \<le> dq_cpus (quota_for g db)" for g
    proof (cases "live ?w \<and> wl_group w = g")
      case True
      then show ?thesis using fits by (auto simp: split')
    next
      case False
      then have "approved_memory (mine g (wd_rows db')) \<le> approved_memory (mine g (wd_rows db))"
        "approved_cpus (mine g (wd_rows db')) \<le> approved_cpus (mine g (wd_rows db))"
        using pos by (auto simp: split' split [of g])
      with old [of g] show ?thesis by linarith
    qed
    then show ?thesis by (simp add: within_quota_def q)
  qed
  ultimately show ?thesis by (simp add: db_sound_def)
qed

corollary update_same_approval:
  assumes "db_sound db" "w \<in> set (wd_rows db)" "live w" "update_workload (wl_id w) p now db = (r, db')"
    and "pa_memory p = None" "pa_cpus p = None"
    and "\<And>st. pa_stack p = Some st \<Longrightarrow> sl_memory (cs_total st) \<le> wl_approved_memory w \<and> sl_cpus (cs_total st) \<le> wl_approved_cpus w"
  shows "db_sound db'"
proof (rule update_sound [OF assms(1-4)])
  have "size_ok w" using assms(1,2) by (simp add: db_sound_def)
  then show "size_ok (patched p now w)"
    using assms(5-7) by (auto simp: size_ok_def patched_def split: option.splits)
  have d: "distinct (map wl_id (wd_rows db))" using assms(1) by (simp add: db_sound_def rows_ok_def keyed_def)
  have "approved_memory (mine (wl_group w) (wd_rows db)) \<le> dq_memory (quota_for (wl_group w) db)"
    "approved_cpus (mine (wl_group w) (wd_rows db)) \<le> dq_cpus (quota_for (wl_group w) db)"
    using assms(1) by (simp_all add: db_sound_def within_quota_def)
  then show "wl_approved_memory (patched p now w) + approved_memory (mine (wl_group w) (rest (wl_id w) (wd_rows db))) \<le> dq_memory (quota_for (wl_group w) db)
      \<and> wl_approved_cpus (patched p now w) + approved_cpus (mine (wl_group w) (rest (wl_id w) (wd_rows db))) \<le> dq_cpus (quota_for (wl_group w) db)"
    using mine_split [OF d assms(2), of "wl_group w"] assms(3,5,6) by simp
qed

lemma get_workload_mem: "get_workload i db = Some w \<Longrightarrow> w \<in> set (wd_rows db) \<and> wl_id w = i"
  by (auto simp: get_workload_def dest: tbl_get_SomeD)

lemma get_workload_eq: "db_sound db \<Longrightarrow> w \<in> set (wd_rows db) \<Longrightarrow> get_workload (wl_id w) db = Some w"
  by (simp add: get_workload_def db_sound_def rows_ok_def tbl_get_mem)

lemma sound_same_rows:
  "db_sound db \<Longrightarrow> wd_rows db' = wd_rows db \<Longrightarrow> wd_quotas db' = wd_quotas db \<Longrightarrow> db_sound db'"
  by (simp add: db_sound_def rows_ok_def within_quota_def quota_for_def)

section \<open>The commands\<close>

lemma total_nonneg:
  "\<forall>l \<in> set ls. 0 \<le> sl_memory l \<and> 0 \<le> sl_cpus l \<Longrightarrow> 0 \<le> sl_memory a \<Longrightarrow> 0 \<le> sl_cpus a \<Longrightarrow>
     0 \<le> sl_memory (foldl add_limits a ls) \<and> 0 \<le> sl_cpus (foldl add_limits a ls)"
proof (induction ls arbitrary: a)
  case (Cons l ls)
  have "0 \<le> round_thousandth x" if "0 \<le> x" for x using that by (simp add: round_thousandth_def)
  with Cons show ?case by (simp add: add_limits_def)
qed simp

lemma check_stack_totals:
  assumes "check_stack yaml env q t = Inr st"
  shows "sl_memory (cs_total st) \<le> q_memory q \<and> sl_cpus (cs_total st) \<le> q_cpus q
    \<and> 0 \<le> sl_memory (cs_total st) \<and> 0 \<le> sl_cpus (cs_total st)"
proof -
  obtain doc where "check_top env q doc = Inr st" using check_stack_top [OF assms] by metis
  then obtain volumes entries where "top_volumes doc = ([], volumes)" "service_entries doc = ([], entries)"
    and services: "check_services env (map fst volumes) entries = ([], cs_limits st, cs_services st)"
    and "declared_volumes st = volumes" "\<forall>(n, v) \<in> set volumes. check_volume n v = []"
    and total: "cs_total st = total_limits (map snd (cs_limits st))" "quota_errors q (cs_total st) = []"
    by (rule check_top_ok)
  from check_services_ok [OF services]
  have "\<forall>l \<in> set (map snd (cs_limits st)). \<exists>svc. l = limits_of svc" by auto
  then have "\<forall>l \<in> set (map snd (cs_limits st)). 0 \<le> sl_memory l \<and> 0 \<le> sl_cpus l"
    using limits_positive less_imp_le by metis
  then show ?thesis
    using total total_nonneg [of "map snd (cs_limits st)" "\<lparr>sl_memory = 0, sl_cpus = 0\<rparr>"]
    by (auto simp: total_limits_def quota_errors_def split: if_splits)
qed

lemma finish_deploy_sound:
  assumes "db_sound db" "w \<in> set (wd_rows db)" "live w" "finish_deploy h now w x db = (evs, r, db')"
  shows "db_sound db'"
proof -
  obtain p where "db' = snd (update_workload (wl_id w) p now db)" "pa_memory p = None" "pa_cpus p = None" "pa_stack p = None"
    using assms(4) by (cases x; cases "snd x") (auto simp: finish_deploy_def row_or_gone_def no_patch_def)
  with update_same_approval [OF assms(1-3)] show ?thesis by (metis option.distinct(1) prod.collapse)
qed

lemma deploy_sound:
  assumes "db_sound db" "w \<in> set (wd_rows db)" "live w" "deploy h now g w db = (evs, r, db')"
  shows "db_sound db'"
  using assms(4) get_workload_eq [OF assms(1,2)]
proof (cases rule: deploy_cases)
  case stopped
  with assms(1) show ?thesis by (auto intro: sound_same_rows)
next
  case (ran ap net nets a db2)
  let ?w = "patched (placed_patch a) now w"
  have s1: "db_sound (db\<lparr>wd_networks := nets\<rparr>)" by (rule sound_same_rows [OF assms(1)]) simp_all
  have w1: "w \<in> set (wd_rows (db\<lparr>wd_networks := nets\<rparr>))" using assms(2) by simp
  have s2: "db_sound db2" by (rule update_same_approval [OF s1 w1 assms(3) ran(2)]) simp_all
  have "?w \<in> set (wd_rows db2)" using update_workload_rows(1) [OF ran(2)] w1 by (auto simp: image_iff)
  moreover have "live ?w" by (simp add: live_def patched_def)
  ultimately show ?thesis using finish_deploy_sound [OF s2] ran(3) by blast
qed

lemma check_workload_fits:
  assumes "check_workload h g name file ap db = Inr c"
  shows "ck_existing c = find_workload g name db"
    and "sl_memory (cs_total (ck_stack c)) \<le> q_memory (quota_left g (find_workload g name db) db)"
    and "sl_cpus (cs_total (ck_stack c)) \<le> q_cpus (quota_left g (find_workload g name db) db)"
    and "0 \<le> sl_memory (cs_total (ck_stack c))" "0 \<le> sl_cpus (cs_total (ck_stack c))"
proof -
  from assms obtain dir t where st: "check_stack (ho_yaml h) (stack_env_of h dir file) (quota_left g (find_workload g name db) db) t = Inr (ck_stack c)"
    and e: "ck_existing c = find_workload g name db"
    by (auto simp: check_workload_def Let_def split: option.splits sum.splits if_splits)
  show "ck_existing c = find_workload g name db" by (rule e)
  from check_stack_totals [OF st]
  show "sl_memory (cs_total (ck_stack c)) \<le> q_memory (quota_left g (find_workload g name db) db)"
    "sl_cpus (cs_total (ck_stack c)) \<le> q_cpus (quota_left g (find_workload g name db) db)"
    "0 \<le> sl_memory (cs_total (ck_stack c))" "0 \<le> sl_cpus (cs_total (ck_stack c))" by blast+
qed

lemma approved_sort [simp]:
  "approved_memory (sort_key k ws) = approved_memory ws" "approved_cpus (sort_key k ws) = approved_cpus ws"
proof -
  have "mset (map f (sort_key k ws)) = mset (map f ws)" for f by simp
  then have "sum_list (map wl_approved_memory (sort_key k ws)) = sum_list (map wl_approved_memory ws)"
    "sum_list (map wl_approved_cpus (sort_key k ws)) = sum_list (map wl_approved_cpus ws)"
    by (metis sum_mset_sum_list)+
  then show "approved_memory (sort_key k ws) = approved_memory ws" "approved_cpus (sort_key k ws) = approved_cpus ws"
    by (simp_all add: approved_memory_def approved_cpus_def)
qed

lemma quota_left_rest:
  assumes "g \<noteq> []"
  shows "quota_left g (Some w) db = \<lparr>q_memory = dq_memory (quota_for g db) - approved_memory (mine g (rest (wl_id w) (wd_rows db))),
      q_cpus = dq_cpus (quota_for g db) - approved_cpus (mine g (rest (wl_id w) (wd_rows db)))\<rparr>"
    and "quota_left g None db = \<lparr>q_memory = dq_memory (quota_for g db) - approved_memory (mine g (wd_rows db)),
      q_cpus = dq_cpus (quota_for g db) - approved_cpus (mine g (wd_rows db))\<rparr>"
  using assms by (simp_all add: quota_left_def others_of_def list_workloads_def mine_def rest_def Let_def filter_sort conj_commute)

lemma insert_sound:
  assumes "db_sound db" "i \<notin> wl_id ` set (wd_rows db)" "find_workload (nw_agent n) (nw_title n) db = None"
    and "insert_workload i now n db = (w, db')"
    and "0 \<le> sl_memory (cs_total (nw_stack n))" "0 \<le> sl_cpus (cs_total (nw_stack n))"
    and "sl_memory (cs_total (nw_stack n)) + approved_memory (mine (nw_agent n) (wd_rows db)) \<le> dq_memory (quota_for (nw_agent n) db)"
    and "sl_cpus (cs_total (nw_stack n)) + approved_cpus (mine (nw_agent n) (wd_rows db)) \<le> dq_cpus (quota_for (nw_agent n) db)"
  shows "db_sound db' \<and> w \<in> set (wd_rows db') \<and> live w"
proof -
  have w: "wl_id w = i" "wl_group w = nw_agent n" "wl_name w = nw_title n" "live w" "wl_approved_memory w = sl_memory (cs_total (nw_stack n))"
    "wl_approved_cpus w = sl_cpus (cs_total (nw_stack n))" "wl_memory w = sl_memory (cs_total (nw_stack n))" "wl_cpus w = sl_cpus (cs_total (nw_stack n))"
    and rows: "wd_rows db' = wd_rows db @ [w]" "wd_quotas db' = wd_quotas db"
    using assms(4) by (auto simp: insert_workload_def Let_def live_def)
  have none: "\<not> (wl_group v = nw_agent n \<and> wl_name v = nw_title n \<and> live v)" if "v \<in> set (wd_rows db)" for v
    using assms(3) that by (auto simp: find_workload_def find_None_iff_all)
  have "rows_ok db'"
    using assms(1,2) none w by (auto simp: rows_ok_def db_sound_def keyed_def rows)
  moreover have "within_quota db'"
    using assms(1,7,8) w
    by (auto simp: within_quota_def db_sound_def rows quota_for_def mine_def approved_memory_def approved_cpus_def add.commute)
  moreover have "\<forall>v \<in> set (wd_rows db'). size_ok v"
    using assms(1,5,6) w by (auto simp: db_sound_def rows size_ok_def)
  ultimately show ?thesis using w(4) by (simp add: db_sound_def rows)
qed

lemma record_approved_sound:
  assumes "db_sound db" "check_workload h g name file ap db = Inr c" "g \<noteq> []" "i \<notin> wl_id ` set (wd_rows db)"
    and "record_approved i now g name author c db = (r, db')"
  shows "\<exists>w. r = Some w \<and> db_sound db' \<and> w \<in> set (wd_rows db') \<and> live w"
proof (cases "find_workload g name db")
  case None
  note c = check_workload_fits [OF assms(2), unfolded None quota_left_rest(2) [OF assms(3)]]
  define n where "n = \<lparr>nw_agent = g, nw_title = name, nw_compose = ck_text c, nw_stack = ck_stack c, nw_placed = [],
    nw_expires = Some (now + DEFAULT_DAYS * 86400000), nw_author = author, nw_shape = Some (encode_approved (ck_shape c))\<rparr>"
  obtain w where w: "insert_workload i now n db = (w, db')" "r = Some w"
    using assms(5) c(1) by (auto simp: record_approved_def n_def Let_def split: prod.splits)
  have "db_sound db' \<and> w \<in> set (wd_rows db') \<and> live w"
    by (rule insert_sound [OF assms(1,4) _ w(1)]) (use None c in \<open>auto simp: n_def\<close>)
  with w(2) show ?thesis by blast
next
  case (Some e)
  note c = check_workload_fits [OF assms(2), unfolded Some quota_left_rest(1) [OF assms(3)]]
  define p where "p = no_patch\<lparr>pa_text := Some (ck_text c), pa_stack := Some (ck_stack c),
    pa_memory := Some (sl_memory (cs_total (ck_stack c))), pa_cpus := Some (sl_cpus (cs_total (ck_stack c))),
    pa_shape := Some (encode_approved (ck_shape c))\<rparr>"
  have u: "update_workload (wl_id e) p now db = (r, db')"
    using assms(5) c(1) by (simp add: record_approved_def p_def Let_def)
  have e: "e \<in> set (wd_rows db)" "wl_group e = g" "live e" using find_workloadD [OF Some] by blast+
  have r: "r = Some (patched p now e)"
    using update_get [OF get_workload_eq [OF assms(1) e(1)]] u by (metis fst_conv)
  have am: "wl_approved_memory (patched p now e) = sl_memory (cs_total (ck_stack c))" "wl_approved_cpus (patched p now e) = sl_cpus (cs_total (ck_stack c))"
    "size_ok (patched p now e)" "live (patched p now e)"
    using c e(3) by (auto simp: patched_def p_def size_ok_def live_def no_patch_def)
  have "db_sound db'" by (rule update_sound [OF assms(1) e(1,3) u am(3)]) (use c e(2) in \<open>auto simp: am\<close>)
  moreover have "patched p now e \<in> set (wd_rows db')" using e(1) by (auto simp: update_workload_rows(1) [OF u] image_iff)
  ultimately show ?thesis using r am(4) by blast
qed

lemma up_sound:
  assumes "db_sound db" "g \<noteq> []" "i \<notin> wl_id ` set (wd_rows db)"
  shows "db_sound (snd (snd (up_workload h now i g name file author pin db)))"
proof (cases "check_workload h g name file None db")
  case (Inr c)
  show ?thesis
  proof (cases "pin \<noteq> None \<and> pin \<noteq> Some (approval_pin c)")
    case False
    obtain r db1 where r: "record_approved i now g name author c db = (r, db1)" by fastforce
    with record_approved_sound [OF assms(1) Inr assms(2,3)] obtain w where w: "r = Some w" "db_sound db1" "w \<in> set (wd_rows db1)" "live w"
      by blast
    obtain evs x db2 where "deploy h now g w db1 = (evs, x, db2)" by (metis prod_cases3)
    with deploy_sound [OF w(2-4)] Inr False r w(1) show ?thesis by (auto simp: up_workload_def deploy_row_def)
  qed (use assms(1) Inr in \<open>auto simp: up_workload_def\<close>)
qed (use assms(1) in \<open>simp add: up_workload_def\<close>)

lemma note_build_rows:
  "note_unapproved_build g now db = (e, db') \<Longrightarrow> wd_rows db' = wd_rows db \<and> wd_quotas db' = wd_quotas db"
  by (auto simp: note_unapproved_build_def note_build_def Let_def split: if_splits)

lemma redeploy_sound:
  assumes "db_sound db"
  shows "db_sound (snd (snd (redeploy_workload h now g name file db)))"
proof (cases "find_workload g name db")
  case (Some w)
  note w = find_workloadD [OF Some]
  show ?thesis
  proof (cases "check_workload h g name file (wl_approved_shape w) db")
    case (Inr c)
    let ?t = "cs_total (ck_stack c)" and ?p = "no_patch\<lparr>pa_text := Some (ck_text c), pa_stack := Some (ck_stack c)\<rparr>"
    obtain e db1 where b: "(if has_build (ck_stack c) then note_unapproved_build g now db else (None, db)) = (e, db1)" by fastforce
    then have same: "wd_rows db1 = wd_rows db" "wd_quotas db1 = wd_quotas db" by (auto split: if_splits dest: note_build_rows)
    note s1 = sound_same_rows [OF assms same]
    obtain r db2 where u: "update_workload (wl_id w) ?p now db1 = (r, db2)" by fastforce
    have w1: "w \<in> set (wd_rows db1)" using w same by simp
    have r: "r = Some (patched ?p now w)" using update_get [OF get_workload_eq [OF s1 w1]] u by (metis fst_conv)
    show ?thesis
    proof (cases "sl_memory ?t \<le> wl_approved_memory w \<and> sl_cpus ?t \<le> wl_approved_cpus w")
      case fits: True
      have s2: "db_sound db2" by (rule update_same_approval [OF s1 w1 _ u]) (use w fits in \<open>auto simp: no_patch_def\<close>)
      have "patched ?p now w \<in> set (wd_rows db2)" "live (patched ?p now w)"
        using w w1 by (auto simp: update_workload_rows(1) [OF u] image_iff live_def patched_def no_patch_def)
      from deploy_sound [OF s2 this] have "db_sound (snd (snd (deploy h now g (patched ?p now w) db2)))"
        by (metis prod.collapse)
      then show ?thesis
        using Some Inr b u r s1 assms by (auto simp: redeploy_workload_def Let_def deploy_row_def split: option.splits)
    qed (use Some Inr assms in \<open>auto simp: redeploy_workload_def Let_def split: option.splits\<close>)
  qed (use Some assms in \<open>simp add: redeploy_workload_def\<close>)
qed (use assms in \<open>simp add: redeploy_workload_def\<close>)

lemma start_sound:
  assumes "db_sound db"
  shows "db_sound (snd (snd (start_workload h now g name db)))"
proof (cases "find_workload g name db")
  case (Some w)
  note w = find_workloadD [OF Some]
  obtain e db1 where b: "(if has_build (wl_stack w) then note_unapproved_build g now db else (None, db)) = (e, db1)" by fastforce
  then have same: "wd_rows db1 = wd_rows db" "wd_quotas db1 = wd_quotas db" by (auto split: if_splits dest: note_build_rows)
  note s1 = sound_same_rows [OF assms same]
  have "db_sound (snd (snd (deploy h now g w db1)))"
    using deploy_sound [OF s1] w same(1) by (metis prod.collapse)
  with Some b s1 assms show ?thesis by (auto simp: start_workload_def split: option.splits)
qed (use assms in \<open>simp add: start_workload_def\<close>)

lemma update_found_sound:
  assumes "db_sound db" "find_workload g name db = Some w" "pa_memory p = None" "pa_cpus p = None" "pa_stack p = None"
  shows "db_sound (snd (update_workload (wl_id w) p now db))"
  using update_same_approval [OF assms(1), of w p now] find_workloadD [OF assms(2)] assms(3-5) by (metis option.distinct(1) prod.collapse)

lemma compose_then_sound:
  assumes "db_sound db" "pa_memory p = None" "pa_cpus p = None" "pa_stack p = None"
  shows "db_sound (snd (snd (compose_then h args evs p now g name db)))"
  using assms update_found_sound [OF assms(1)] by (auto simp: compose_then_def row_or_gone_def split: option.splits)

lemma command_sound:
  assumes "db_sound db" "g \<noteq> []" "\<And>q. c \<noteq> SetQuota q" "\<And>i name file author pin. c = Up i name file author pin \<Longrightarrow> i \<notin> wl_id ` set (wd_rows db)"
  shows "db_sound (run_command (h, now, g, c) db)"
proof (cases c)
  case (Remove name b)
  have "db_sound (snd (update_workload (wl_id w) (no_patch\<lparr>pa_state := Some Deleted\<rparr>) now db))" if "find_workload g name db = Some w" for w
    using update_found_sound [OF assms(1) that] by (simp add: no_patch_def)
  with Remove assms(1) show ?thesis by (auto simp: delete_workload_def row_or_gone_def Let_def split: option.splits)
qed (use assms up_sound redeploy_sound start_sound compose_then_sound in
      \<open>auto simp: stop_workload_def down_workload_def no_patch_def\<close>)

section \<open>Ids\<close>

definition ids :: "workload_db \<Rightarrow> string set" where
  "ids db = wl_id ` set (wd_rows db)"

lemma ids_update: "ids (snd (update_workload i p now db)) = ids db"
proof -
  have "set (map wl_id (tbl_update (\<lambda>w. wl_id w = i) (patched p now) t)) = set (map wl_id t)" for t
    by (subst map_key_update) simp_all
  then show ?thesis by (simp add: ids_def update_workload_def Let_def)
qed

lemma ids_finish: "ids (snd (snd (finish_deploy h now w x db))) = ids db"
  by (cases x; cases "snd x") (auto simp: finish_deploy_def row_or_gone_def ids_update)

lemma ids_deploy: "ids (snd (snd (deploy h now g w db))) = ids db"
proof -
  have nets: "ids (db\<lparr>wd_networks := nets\<rparr>) = ids db" for nets by (simp add: ids_def)
  have upd: "ids db2 = ids db" if "update_workload i p now (db\<lparr>wd_networks := nets\<rparr>) = (r, db2)" for i p nets r db2
    using ids_update [of i p now "db\<lparr>wd_networks := nets\<rparr>"] that nets by simp
  show ?thesis
    by (auto simp: deploy_def Let_def nets ids_finish dest: upd split: option.splits prod.splits)
qed

lemma ids_note: "note_unapproved_build g now db = (e, db') \<Longrightarrow> ids db' = ids db"
  by (simp add: ids_def note_build_rows)

definition up_ids :: "(workload_host \<times> millis \<times> string \<times> workload_command) list \<Rightarrow> string list" where
  "up_ids cs = List.map_filter (\<lambda>(_, _, _, c). case c of Up i _ _ _ _ \<Rightarrow> Some i | _ \<Rightarrow> None) cs"

lemma ids_record: "ids (snd (record_approved i now g name author c db)) \<subseteq> insert i (ids db)"
  by (auto simp: record_approved_def Let_def ids_update insert_workload_def split: option.splits) (auto simp: ids_def)

lemma ids_deploy_row: "ids (snd (snd (deploy_row h now g r))) = ids (snd r)"
  by (cases r; cases "fst r") (auto simp: deploy_row_def ids_deploy)

lemma ids_up: "ids (snd (snd (up_workload h now i g name file author pin db))) \<subseteq> insert i (ids db)"
  using ids_record by (auto simp: up_workload_def ids_deploy_row split: sum.splits dest: subsetD [OF ids_record])

lemma ids_redeploy: "ids (snd (snd (redeploy_workload h now g name file db))) = ids db"
  by (auto simp: redeploy_workload_def Let_def ids_deploy_row ids_update split: option.splits sum.splits prod.splits if_splits dest: ids_note)

lemma ids_start: "ids (snd (snd (start_workload h now g name db))) = ids db"
  by (auto simp: start_workload_def ids_deploy split: option.splits prod.splits if_splits dest: ids_note)

lemma ids_compose_then: "ids (snd (snd (compose_then h args evs p now g name db))) = ids db"
  by (auto simp: compose_then_def row_or_gone_def ids_update split: option.splits)

lemma ids_command: "ids (run_command (h, now, g, c) db) \<subseteq> ids db \<union> set (up_ids [(h, now, g, c)])"
proof (cases c)
  case (Remove name b)
  then show ?thesis by (auto simp: delete_workload_def row_or_gone_def Let_def ids_update split: option.splits)
next
  case (Up i name f author pin)
  then show ?thesis using ids_up by (auto simp: up_ids_def)
next
  case (SetQuota q)
  then show ?thesis by (simp add: set_quota_def ids_def)
qed (simp_all add: ids_redeploy ids_start ids_compose_then stop_workload_def down_workload_def)


end
