(* ===== verification/WorkloadRuns.thy ===== *)
theory WorkloadRuns
  imports WorkloadQuota
begin

text \<open>
  What an approval covers and what a redeploy may change, the hourly limit on builds without a card, and concrete runs.
\<close>

section \<open>A deploy keeps what was agreed\<close>

definition same_contract :: "workload \<Rightarrow> workload \<Rightarrow> bool" where
  "same_contract v w \<longleftrightarrow> wl_id v = wl_id w \<and> wl_group v = wl_group w \<and> wl_name v = wl_name w \<and> wl_text v = wl_text w \<and> wl_stack v = wl_stack w
     \<and> wl_memory v = wl_memory w \<and> wl_cpus v = wl_cpus w \<and> wl_approved_memory v = wl_approved_memory w
     \<and> wl_approved_cpus v = wl_approved_cpus w \<and> wl_approved_shape v = wl_approved_shape w"

lemma same_contract_refl [simp]: "same_contract w w"
  by (simp add: same_contract_def)

lemma same_contract_trans: "same_contract u v \<Longrightarrow> same_contract v w \<Longrightarrow> same_contract u w"
  by (simp add: same_contract_def)

lemma patched_contract:
  "pa_text p = None \<Longrightarrow> pa_stack p = None \<Longrightarrow> pa_memory p = None \<Longrightarrow> pa_cpus p = None \<Longrightarrow> pa_shape p = None \<Longrightarrow> same_contract w (patched p now w)"
  by (simp add: same_contract_def patched_def)

lemma update_get_db:
  "update_workload i p now db = (r, db') \<Longrightarrow> get_workload i db = Some w \<Longrightarrow> get_workload i db' = Some (patched p now w)"
  by (auto simp: update_workload_def get_workload_def tbl_get_update Let_def dest: tbl_get_SomeD)

lemma finish_deploy_keeps:
  assumes "get_workload (wl_id w) db = Some w" "finish_deploy h now w x db = (evs, r, db')"
  shows "\<exists>w'. get_workload (wl_id w) db' = Some w' \<and> same_contract w w'"
proof -
  obtain p where u: "db' = snd (update_workload (wl_id w) p now db)"
    and p: "pa_text p = None" "pa_stack p = None" "pa_memory p = None" "pa_cpus p = None" "pa_shape p = None"
    using assms(2) by (cases x; cases "snd x") (auto simp: finish_deploy_def row_or_gone_def no_patch_def)
  have "get_workload (wl_id w) db' = Some (patched p now w)"
    by (rule update_get_db [OF _ assms(1)]) (simp add: u prod_eq_iff)
  with patched_contract [OF p] show ?thesis by blast
qed

lemma deploy_keeps:
  assumes "get_workload (wl_id w) db = Some w" "deploy h now g w db = (evs, r, db')"
  shows "\<exists>w'. get_workload (wl_id w) db' = Some w' \<and> same_contract w w'"
  using assms(2,1)
proof (cases rule: deploy_cases)
  case stopped
  then show ?thesis using assms(1) by (auto simp: get_workload_def)
next
  case (ran ap net nets a db2)
  let ?w = "patched (placed_patch a) now w"
  have "get_workload (wl_id w) (db\<lparr>wd_networks := nets\<rparr>) = Some w" using assms(1) by (simp add: get_workload_def)
  from update_get_db [OF ran(2) this] have "get_workload (wl_id ?w) db2 = Some ?w" by simp
  from finish_deploy_keeps [OF this ran(3)] show ?thesis
    using patched_contract [of "placed_patch a" w now] same_contract_trans by fastforce
qed

section \<open>Approvals\<close>

lemma record_approved_row:
  assumes "db_sound db" "check_workload h g name file ap db = Inr c" "i \<notin> wl_id ` set (wd_rows db)"
    and "record_approved i now g name author c db = (r, db')"
  shows "\<exists>w. r = Some w \<and> get_workload (wl_id w) db' = Some w \<and> wl_group w = g \<and> wl_name w = name \<and> wl_text w = ck_text c \<and> wl_stack w = ck_stack c
    \<and> wl_approved_shape w = Some (encode_approved (ck_shape c))
    \<and> wl_approved_memory w = sl_memory (cs_total (ck_stack c)) \<and> wl_approved_cpus w = sl_cpus (cs_total (ck_stack c))"
proof (cases "find_workload g name db")
  case None
  then have "ck_existing c = None" using check_workload_fits(1) [OF assms(2)] by simp
  moreover have "find (\<lambda>w. wl_id w = i) (wd_rows db) = None" using assms(3) by (auto simp: find_None_iff_all)
  ultimately show ?thesis using assms(4)
    by (auto simp: record_approved_def insert_workload_def Let_def get_workload_def tbl_get_def find_append)
next
  case (Some e)
  then have c: "ck_existing c = Some e" using check_workload_fits(1) [OF assms(2)] by simp
  have e: "e \<in> set (wd_rows db)" "wl_group e = g" "wl_name e = name" using find_workloadD [OF Some] by blast+
  define p where "p = no_patch\<lparr>pa_text := Some (ck_text c), pa_stack := Some (ck_stack c),
    pa_memory := Some (sl_memory (cs_total (ck_stack c))), pa_cpus := Some (sl_cpus (cs_total (ck_stack c))),
    pa_shape := Some (encode_approved (ck_shape c))\<rparr>"
  have u: "update_workload (wl_id e) p now db = (r, db')" using assms(4) c by (simp add: record_approved_def p_def Let_def)
  note get = get_workload_eq [OF assms(1) e(1)]
  have "r = Some (patched p now e)" using update_get [OF get] u by (metis fst_conv)
  with update_get_db [OF u get] e(2,3) show ?thesis by (auto simp: patched_def p_def)
qed

lemma check_workload_hash:
  "check_workload h g name file ap db = Inr c \<Longrightarrow> ck_hash c = take 32 (in_sha (ho_install h) (ck_text c))"
  by (auto simp: check_workload_def Let_def split: option.splits sum.splits if_splits)

text \<open>
  An approval covers what its card showed and nothing else. When an \<open>up\<close> from a card changes any row, the row it leaves holds a
  Compose file and a shape whose hashes are the pinned ones, and the approved size is that of the very stack recorded.
\<close>

theorem approval_covers_what_the_card_pinned:
  assumes "db_sound db" and "g \<noteq> []" and "i \<notin> wl_id ` set (wd_rows db)"
    and "up_workload h now i g name file author (Some pin) db = (evs, r, db')" and "wd_rows db' \<noteq> wd_rows db"
  shows "\<exists>w ap hash. w \<in> set (wd_rows db') \<and> wl_group w = g \<and> wl_name w = name \<and> wl_approved_shape w = Some ap \<and> ap_hash ap = Some hash
    \<and> pin = take 32 (in_sha (ho_install h) (wl_text w)) @ '':'' @ hash
    \<and> wl_approved_memory w = sl_memory (cs_total (wl_stack w)) \<and> wl_approved_cpus w = sl_cpus (cs_total (wl_stack w))"
proof -
  from assms(4,5) obtain c where c: "check_workload h g name file None db = Inr c" "pin = approval_pin c"
    and d: "deploy_row h now g (record_approved i now g name author c db) = (evs, r, db')"
    by (auto simp: up_workload_def split: sum.splits if_splits)
  obtain o1 db1 where rec: "record_approved i now g name author c db = (o1, db1)" by fastforce
  from record_approved_row [OF assms(1) c(1) assms(3) rec] obtain w where w: "o1 = Some w" "get_workload (wl_id w) db1 = Some w"
    "wl_group w = g" "wl_name w = name" "wl_text w = ck_text c" "wl_stack w = ck_stack c"
    "wl_approved_shape w = Some (encode_approved (ck_shape c))"
    "wl_approved_memory w = sl_memory (cs_total (ck_stack c))" "wl_approved_cpus w = sl_cpus (cs_total (ck_stack c))" by blast
  have "deploy h now g w db1 = (evs, r, db')" using d rec w(1) by (simp add: deploy_row_def)
  from deploy_keeps [OF w(2) this] obtain w' where w': "get_workload (wl_id w) db' = Some w'" "same_contract w w'" by blast
  from w'(1) have "w' \<in> set (wd_rows db')" by (auto dest: get_workload_mem)
  with w w'(2) c(2) check_workload_hash [OF c(1)] show ?thesis
    by (intro exI [of _ w'] exI [of _ "encode_approved (ck_shape c)"] exI [of _ "ss_hash (ck_shape c)"])
      (auto simp: same_contract_def approval_pin_def encode_approved_def)
qed

text \<open>
  C34: A redeploy stays within its approval. It changes neither the approved size nor the approved shape, and if it changes the stack at all,
  the new one passed the check, has the approved shape's hash and is no larger than approved.
\<close>

theorem redeploy_stays_within_approval:
  assumes "db_sound db" and "find_workload g name db = Some w"
    and "redeploy_workload h now g name file db = (evs, r, db')"
  shows "\<exists>w'. get_workload (wl_id w) db' = Some w' \<and> wl_approved_memory w' = wl_approved_memory w \<and> wl_approved_cpus w' = wl_approved_cpus w
    \<and> wl_approved_shape w' = wl_approved_shape w
    \<and> (wl_stack w' = wl_stack w \<or> (\<exists>c ap. check_workload h g name file (wl_approved_shape w) db = Inr c \<and> wl_stack w' = ck_stack c
         \<and> wl_approved_shape w = Some ap \<and> ap_hash ap = Some (ss_hash (ck_shape c))
         \<and> sl_memory (cs_total (ck_stack c)) \<le> wl_approved_memory w \<and> sl_cpus (cs_total (ck_stack c)) \<le> wl_approved_cpus w))"
proof -
  have w: "w \<in> set (wd_rows db)" using find_workloadD [OF assms(2)] by blast
  note get = get_workload_eq [OF assms(1) w]
  show ?thesis
  proof (cases "wd_rows db' = wd_rows db")
    case True
    with get show ?thesis by (auto simp: get_workload_def)
  next
    case False
    with assms(2,3) obtain c ap db1 where c: "check_workload h g name file (wl_approved_shape w) db = Inr c"
      and ap: "wl_approved_shape w = Some ap" "ap_hash ap = Some (ss_hash (ck_shape c))"
      and fits: "sl_memory (cs_total (ck_stack c)) \<le> wl_approved_memory w" "sl_cpus (cs_total (ck_stack c)) \<le> wl_approved_cpus w"
      and b: "(if has_build (ck_stack c) then note_unapproved_build g now db else (None, db)) = (None, db1)"
      and d: "deploy_row h now g (update_workload (wl_id w) (no_patch\<lparr>pa_text := Some (ck_text c), pa_stack := Some (ck_stack c)\<rparr>) now db1) = (evs, r, db')"
      by (auto simp: redeploy_workload_def Let_def not_less split: sum.splits option.splits prod.splits if_splits dest: note_build_rows)
    let ?p = "no_patch\<lparr>pa_text := Some (ck_text c), pa_stack := Some (ck_stack c)\<rparr>"
    have "get_workload (wl_id w) db1 = Some w"
      using b get by (auto simp: get_workload_def split: if_splits dest: note_build_rows)
    moreover obtain r2 db2 where u: "update_workload (wl_id w) ?p now db1 = (r2, db2)" by fastforce
    ultimately have g2: "get_workload (wl_id w) db2 = Some (patched ?p now w)" "r2 = Some (patched ?p now w)"
      using update_get_db [OF u] update_get [of "wl_id w" db1 w ?p now] by auto
    then have "deploy h now g (patched ?p now w) db2 = (evs, r, db')" using d u by (simp add: deploy_row_def)
    from deploy_keeps [OF _ this] g2 obtain w' where w': "get_workload (wl_id w) db' = Some w'" "same_contract (patched ?p now w) w'" by auto
    from w'(2) have "wl_approved_memory w' = wl_approved_memory w" "wl_approved_cpus w' = wl_approved_cpus w"
      "wl_approved_shape w' = wl_approved_shape w" "wl_stack w' = ck_stack c"
      by (simp_all add: same_contract_def patched_def no_patch_def)
    with w'(1) c ap fits show ?thesis by blast
  qed
qed

section \<open>Builds without a card\<close>

text \<open>Requests of agents over time: the builds that were allowed, and the database after.\<close>

fun note_run :: "(string \<times> millis) list \<Rightarrow> workload_db \<Rightarrow> (string \<times> millis) list \<times> workload_db" where
  "note_run [] db = ([], db)"
| "note_run ((g, now) # bs) db =
     (case note_unapproved_build g now db of
        (Some _, db1) \<Rightarrow> note_run bs db1
      | (None, db1) \<Rightarrow> (case note_run bs db1 of (acc, db2) \<Rightarrow> ((g, now) # acc, db2)))"

definition builds_in :: "string \<Rightarrow> millis \<Rightarrow> millis \<Rightarrow> (string \<times> millis) list \<Rightarrow> nat" where
  "builds_in g a b bs = length (filter (\<lambda>x. fst x = g \<and> a \<le> snd x \<and> snd x \<le> b) bs)"

text \<open>The database remembers what was allowed in the hour before \<open>t\<close>.\<close>

definition remembers :: "(string \<times> millis) list \<Rightarrow> millis \<Rightarrow> workload_db \<Rightarrow> bool" where
  "remembers acc t db \<longleftrightarrow> (\<forall>s \<ge> t - HOUR. filter (\<lambda>b. s \<le> snd b) (wd_builds db) = filter (\<lambda>b. s \<le> snd b) acc)
     \<and> (\<forall>b \<in> set acc. snd b \<le> t)"

lemma remembers_later: "remembers acc t db \<Longrightarrow> t \<le> u \<Longrightarrow> remembers acc u db"
  by (auto simp: remembers_def)

lemma remembers_note:
  assumes "remembers acc now db" "note_unapproved_build g now db = (None, db')"
  shows "remembers (acc @ [(g, now)]) now db'"
proof -
  have db': "wd_builds db' = filter (\<lambda>b. now - HOUR \<le> snd b) (wd_builds db) @ [(g, now)]"
    using assms(2) by (auto simp: note_unapproved_build_def note_build_def Let_def tbl_delete_def not_less split: if_splits)
  have "filter (\<lambda>b. s \<le> snd b) (filter (\<lambda>b. now - HOUR \<le> snd b) bs) = filter (\<lambda>b. s \<le> snd b) bs"
    if "now - HOUR \<le> s" for s and bs :: "(string \<times> millis) list"
    using that by (induction bs) auto
  with assms(1) show ?thesis unfolding remembers_def db' by (simp del: filter_filter)
qed

lemma note_allowed:
  assumes "remembers acc now db" "note_unapproved_build g now db = (None, db')" "now \<le> b" "a = b - HOUR"
  shows "builds_in g a b (acc @ [(g, now)]) \<le> UNAPPROVED_BUILDS_PER_HOUR"
proof -
  have "builds_since g (now - HOUR) db < UNAPPROVED_BUILDS_PER_HOUR"
    using assms(2) by (auto simp: note_unapproved_build_def split: if_splits)
  moreover have "builds_in g a b acc \<le> builds_since g (now - HOUR) db"
  proof -
    have "builds_since g (now - HOUR) db = length (filter (\<lambda>x. fst x = g) (filter (\<lambda>x. now - HOUR \<le> snd x) (wd_builds db)))"
      by (simp add: builds_since_def conj_commute)
    also have "\<dots> = length (filter (\<lambda>x. fst x = g) (filter (\<lambda>x. now - HOUR \<le> snd x) acc))"
      using assms(1) by (simp add: remembers_def)
    also have "\<dots> = length (filter (\<lambda>x. fst x = g \<and> now - HOUR \<le> snd x) acc)" by (simp add: conj_commute)
    moreover have "builds_in g a b acc \<le> length (filter (\<lambda>x. fst x = g \<and> now - HOUR \<le> snd x) acc)"
      unfolding builds_in_def using assms(3,4) by (induction acc) auto
    ultimately show ?thesis by simp
  qed
  ultimately show ?thesis by (auto simp: builds_in_def)
qed

lemma note_run_bound:
  assumes "sorted (map snd bs)" "\<forall>b \<in> set bs. t \<le> snd b" "remembers acc t db"
    and "\<forall>g b. builds_in g (b - HOUR) b acc \<le> UNAPPROVED_BUILDS_PER_HOUR" "note_run bs db = (acc', db')"
  shows "\<forall>g b. builds_in g (b - HOUR) b (acc @ acc') \<le> UNAPPROVED_BUILDS_PER_HOUR"
  using assms
proof (induction bs arbitrary: db t acc acc')
  case (Cons x bs)
  obtain g now where x: "x = (g, now)" by fastforce
  note now = remembers_later [OF Cons.prems(3), of now]
  have later: "t \<le> now" "\<forall>b \<in> set bs. now \<le> snd b" "sorted (map snd bs)" using Cons.prems(1,2) x by auto
  obtain e db1 where n: "note_unapproved_build g now db = (e, db1)" by fastforce
  show ?case
  proof (cases e)
    case (Some f)
    then have "db1 = db" using n by (auto simp: note_unapproved_build_def split: if_splits)
    with Some Cons.prems(5) x n have "note_run bs db = (acc', db')" by simp
    with Cons.IH [OF later(3,2) now [OF later(1)] Cons.prems(4)] show ?thesis by blast
  next
    case None
    obtain acc1 where r: "note_run bs db1 = (acc1, db')" "acc' = x # acc1"
      using Cons.prems(5) x n None by (auto split: prod.splits)
    have m: "remembers (acc @ [(g, now)]) now db1" using remembers_note now [OF later(1)] n None by blast
    have "builds_in k (b - HOUR) b (acc @ [(g, now)]) \<le> UNAPPROVED_BUILDS_PER_HOUR" for k b
    proof (cases "k = g \<and> now \<le> b")
      case True
      then show ?thesis using note_allowed [OF now [OF later(1)]] n None by blast
    next
      case False
      then have "builds_in k (b - HOUR) b (acc @ [(g, now)]) = builds_in k (b - HOUR) b acc" by (auto simp: builds_in_def)
      with Cons.prems(4) show ?thesis by simp
    qed
    from Cons.IH [OF later(3,2) m _ r(1)] this r(2) x show ?thesis by simp
  qed
qed simp

text \<open>
  No agent starts more than twenty builds without a card in any hour. However the requests of agents come, and whenever the hour begins, at most
  twenty of an agent's requests within it are allowed.
\<close>

theorem unapproved_builds_bounded:
  assumes "sorted (map snd bs)" and "wd_builds db = []" and "note_run bs db = (acc, db')"
  shows "builds_in g (b - HOUR) b acc \<le> UNAPPROVED_BUILDS_PER_HOUR"
proof (cases bs)
  case Nil
  with assms(3) show ?thesis by (simp add: builds_in_def)
next
  case (Cons x xs)
  have "\<forall>y \<in> set bs. snd x \<le> snd y" using assms(1) Cons by auto
  moreover have "remembers [] (snd x) db" by (simp add: remembers_def assms(2))
  ultimately show ?thesis using note_run_bound [OF assms(1) _ _ _ assms(3), of "snd x" "[]"] by (simp add: builds_in_def)
qed

section \<open>Concrete runs\<close>

text \<open>A stack of one service, checked once; the runs below start from this value.\<close>

definition small_yaml :: "string \<Rightarrow> yaml_doc" where
  "small_yaml t = \<lparr>yd_errors = [], yd_tags = [], yd_value = Inr (Some (YMap
     [(''services'', YMap [(''s'', YMap [(''image'', YStr ''a''), (''mem_limit'', YStr ''64m'')])])]))\<rparr>"

definition small_digest :: string where
  "small_digest = ''sha256:'' @ replicate 64 CHR ''0''"

definition small_host :: workload_host where
  "small_host = \<lparr>ho_install = \<lparr>in_slug = ''x'', in_slice = ''x.slice'', in_sha = (\<lambda>s. s)\<rparr>,
     ho_switched = True, ho_preflight = Some (True, []), ho_slice = Inr 8192, ho_groups_dir = ''/groups'',
     ho_folder = (\<lambda>g. Some g), ho_exists = (\<lambda>_. True), ho_plain = (\<lambda>_ _. Some ''x''), ho_real = (\<lambda>d. d),
     ho_resolve = (\<lambda>_ _. None), ho_used = (\<lambda>_. None), ho_confined = False, ho_yaml = small_yaml,
     ho_registry = (\<lambda>_. Some small_digest), ho_quote = (\<lambda>s. s), ho_network = (\<lambda>_. True), ho_builder = False,
     ho_copied = (\<lambda>_ _. False), ho_copy_file = (\<lambda>_ _. None), ho_built = (\<lambda>_. False), ho_compose = (\<lambda>_. True),
     ho_labels = (\<lambda>_. Some []), ho_words = (\<lambda>_. [])\<rparr>"

definition small_quota :: workload_db where
  "small_quota = \<lparr>wd_rows = [], wd_networks = [], wd_quotas = [(''g'', \<lparr>dq_memory = 100, dq_cpus = 2, dq_disk = 20\<rparr>)], wd_builds = []\<rparr>"

definition small_limits :: service_limits where
  "small_limits = \<lparr>sl_memory = 64, sl_cpus = 1 / 2\<rparr>"

definition small_checked :: checked where
  "small_checked = (let line = ''s: image a '' @ small_digest in
    \<lparr>ck_text = ''x'',
     ck_stack = \<lparr>cs_services = [(''s'', [(''image'', YStr ''a''), (''restart'', YStr ''unless-stopped''), (''deploy'', deploy_limits small_limits)])],
       cs_volumes = None, cs_limits = [(''s'', small_limits)], cs_total = small_limits\<rparr>,
     ck_existing = None,
     ck_shape = \<lparr>ss_services = [(''s'', \<lparr>sh_line = line, sh_ref = Some ''a'', sh_digest = Some small_digest, sh_dockerfile = None, sh_args = None\<rparr>,
         ''a ('' @ take 19 small_digest @ [ellipsis] @ '')'')], ss_lines = [line], ss_hash = take 32 line\<rparr>,
     ck_hash = ''x''\<rparr>)"

lemma small_check: "check_workload small_host ''g'' ''aa'' ''c.yml'' None small_quota = Inr small_checked"
  by code_simp

definition small_pin :: string where
  "small_pin = ''x:s: image a sha256:00000000000000''"

lemma small_pin: "approval_pin small_checked = small_pin"
  by code_simp

definition one_workload :: workload_db where
  "one_workload = snd (snd (up_workload small_host 0 ''1'' ''g'' ''aa'' ''c.yml'' None (Some small_pin) small_quota))"

lemma one_workload: "one_workload = snd (snd (deploy_row small_host 0 ''g'' (record_approved ''1'' 0 ''g'' ''aa'' None small_checked small_quota)))"
  by (simp add: one_workload_def up_workload_def small_check small_pin)

lemma one_workload_rows:
  "map (\<lambda>w. (wl_id w, wl_name w, wl_state w, wl_approved_memory w)) (wd_rows one_workload) = [(''1'', ''aa'', Running, 64)]"
  unfolding one_workload by code_simp

lemma small_quota_sound: "db_sound small_quota"
  by (simp add: db_sound_def small_quota_def rows_ok_def within_quota_def mine_def approved_memory_def approved_cpus_def
      quota_for_def tbl_get_def DEFAULT_QUOTA_def)

lemma one_workload_sound: "db_sound one_workload"
  unfolding one_workload_def by (rule up_sound [OF small_quota_sound]) (simp_all add: small_quota_def)

lemma one_workload_ids: "wl_id ` set (wd_rows one_workload) = {''1''}"
  using arg_cong [OF one_workload_rows, of "\<lambda>xs. fst ` set xs"] by (simp add: image_image)

lemma one_workload_row: obtains w where "find_workload ''g'' ''aa'' one_workload = Some w"
proof -
  have "find_workload ''g'' ''aa'' one_workload \<noteq> None" unfolding one_workload by code_simp
  with that show ?thesis by blast
qed


lemma approval_covers_what_the_card_pinned_witness:
  "\<exists>w ap hash. w \<in> set (wd_rows one_workload) \<and> wl_name w = ''aa'' \<and> wl_approved_shape w = Some ap \<and> ap_hash ap = Some hash
    \<and> small_pin = take 32 (wl_text w) @ '':'' @ hash"
proof -
  obtain evs r where up: "up_workload small_host 0 ''1'' ''g'' ''aa'' ''c.yml'' None (Some small_pin) small_quota = (evs, r, one_workload)"
    unfolding one_workload_def by (metis prod.collapse)
  have "wd_rows one_workload \<noteq> wd_rows small_quota" using one_workload_rows by (auto simp: small_quota_def)
  from approval_covers_what_the_card_pinned [OF small_quota_sound _ _ up this]
  show ?thesis by (fastforce simp: small_quota_def small_host_def)
qed

definition small_redeploy :: outcome where
  "small_redeploy = redeploy_workload small_host 5 ''g'' ''aa'' ''c.yml'' one_workload"

lemma redeploy_stays_within_approval_witness:
  "\<exists>w w'. find_workload ''g'' ''aa'' one_workload = Some w \<and> get_workload (wl_id w) (snd (snd small_redeploy)) = Some w'
     \<and> wl_approved_memory w' = wl_approved_memory w \<and> wl_approved_shape w' = wl_approved_shape w"
proof -
  obtain w where w: "find_workload ''g'' ''aa'' one_workload = Some w" by (rule one_workload_row)
  obtain evs r db where run: "redeploy_workload small_host 5 ''g'' ''aa'' ''c.yml'' one_workload = (evs, r, db)" by (metis prod_cases3)
  from redeploy_stays_within_approval [OF one_workload_sound w run] w run show ?thesis
    by (auto simp: small_redeploy_def)
qed

definition many_requests :: "(string \<times> millis) list" where
  "many_requests = map (\<lambda>i. (''g'', int i)) [0 ..< 25]"

lemma unapproved_builds_bounded_witness:
  "builds_in ''g'' 0 HOUR (fst (note_run many_requests small_quota)) \<le> 20 \<and> length (fst (note_run many_requests small_quota)) = 20"
proof
  obtain acc db where run: "note_run many_requests small_quota = (acc, db)" by fastforce
  have "sorted (map snd many_requests)" by code_simp
  from unapproved_builds_bounded [OF this _ run, of "''g''" HOUR] run
  show "builds_in ''g'' 0 HOUR (fst (note_run many_requests small_quota)) \<le> 20"
    by (simp add: small_quota_def UNAPPROVED_BUILDS_PER_HOUR_def)
qed code_simp

text \<open>A deploy from a row that is there: the workload stopped and started again.\<close>

definition stopped_workload :: workload_db where
  "stopped_workload = snd (snd (stop_workload small_host 1 ''g'' ''aa'' ''requested'' one_workload))"

definition starts_first :: "workload_event \<Rightarrow> bool" where
  "starts_first e = (case e of Composed i args \<Rightarrow> i = ''1'' \<and> args = up_args | _ \<Rightarrow> False)"

lemma starts_firstD: "starts_first e \<Longrightarrow> e = Composed ''1'' up_args"
  by (auto simp: starts_first_def split: workload_event.splits)

lemma deploy_starts_only_approved_witness:
  "\<exists>w evs r db' ap images. find_workload ''g'' ''aa'' stopped_workload = Some w \<and> deploy small_host 2 ''g'' w stopped_workload = (evs, r, db')
     \<and> wl_approved_shape w = Some ap \<and> Wrote images \<in> set evs
     \<and> (\<forall>ns \<in> set (cs_services (wl_stack w)). \<exists>img. map_of images (fst ns) = Some img \<and> image_approved (ho_install small_host) w ap evs ns img)"
proof -
  have started: "map_option (\<lambda>w. (list_ex starts_first (fst (deploy small_host 2 ''g'' w stopped_workload)), map fst (cs_services (wl_stack w))))
      (find_workload ''g'' ''aa'' stopped_workload) = Some (True, [''s''])"
    unfolding stopped_workload_def one_workload by code_simp
  then obtain w where w: "find_workload ''g'' ''aa'' stopped_workload = Some w" by blast
  have sound: "db_sound stopped_workload"
    unfolding stopped_workload_def stop_workload_def using one_workload_sound by (intro compose_then_sound) (auto simp: no_patch_def)
  obtain evs r db' where d: "deploy small_host 2 ''g'' w stopped_workload = (evs, r, db')" by (metis prod_cases3)
  have "get_workload (wl_id w) stopped_workload = Some w"
    using find_workloadD [OF w] by (intro get_workload_eq [OF sound]) blast
  moreover have "Composed ''1'' up_args \<in> set evs" "distinct (map fst (cs_services (wl_stack w)))"
    using started w d by (auto simp: list_ex_iff dest: starts_firstD)
  ultimately show ?thesis using deploy_starts_only_approved [OF d] w d by blast
qed

section \<open>What goes wrong\<close>

text \<open>
  Two cards approved at the same moment: both checks read the quota before either approval is recorded, and together the
  two stacks exceed it.
\<close>

definition both_recorded :: "checked \<Rightarrow> checked \<Rightarrow> workload_db" where
  "both_recorded c1 c2 = snd (record_approved ''2'' 0 ''g'' ''bb'' None c2 (snd (record_approved ''1'' 0 ''g'' ''aa'' None c1 small_quota)))"

lemma concurrent_ups_exceed_quota:
  "\<exists>c1 c2. check_workload small_host ''g'' ''aa'' ''c.yml'' None small_quota = Inr c1
     \<and> check_workload small_host ''g'' ''bb'' ''c.yml'' None small_quota = Inr c2
     \<and> dq_memory (quota_for ''g'' (both_recorded c1 c2)) < approved_memory (mine ''g'' (wd_rows (both_recorded c1 c2)))"
proof (intro exI conjI)
  show "check_workload small_host ''g'' ''aa'' ''c.yml'' None small_quota = Inr small_checked" by (rule small_check)
  have "rx_test WORKLOAD_NAME_RE ''aa''" "rx_test WORKLOAD_NAME_RE ''bb''" by code_simp+
  moreover have none: "find_workload ''g'' n small_quota = None" for n by (simp add: find_workload_def small_quota_def)
  ultimately show "check_workload small_host ''g'' ''bb'' ''c.yml'' None small_quota = Inr small_checked"
    unfolding small_check [symmetric] check_workload_def none by simp
  show "dq_memory (quota_for ''g'' (both_recorded small_checked small_checked)) < approved_memory (mine ''g'' (wd_rows (both_recorded small_checked small_checked)))"
    by code_simp
qed

text \<open>
  A first deploy that stops before it records a failure leaves its row \<open>Deploying\<close>, and \<open>start\<close> returns such a row as it is.
\<close>

definition interrupted :: workload_db where
  "interrupted = snd (snd (deploy_row (small_host\<lparr>ho_network := (\<lambda>_. False)\<rparr>) 0 ''g'' (record_approved ''1'' 0 ''g'' ''aa'' None small_checked small_quota)))"

lemma interrupted_deploying: "map wl_state (wd_rows interrupted) = [Deploying]"
  by code_simp

lemma interrupted_deploy_never_starts: "start_workload h now ''g'' name interrupted = (evs, r, db) \<Longrightarrow> evs = [] \<and> db = interrupted"
proof -
  assume s: "start_workload h now ''g'' name interrupted = (evs, r, db)"
  have "wl_state w = Deploying" if "w \<in> set (wd_rows interrupted)" for w
    using that arg_cong [OF interrupted_deploying, of set] by auto
  with s show ?thesis by (auto simp: start_workload_def dest!: find_workloadD split: option.splits)
qed

end
