(* ===== verification/SignIn.thy ===== *)
theory SignIn
  imports Access TextScan
begin

text \<open>
  Sign-ins (\<open>channels/webchat/signins.ts\<close>): the browser sessions a single sign-on starts, found by the
  digest of a token the browser holds, and the links that make several identities one account. The
  digest is the parameter \<open>hash\<close>, the token drawn for a new session an argument. A table the host did
  not create is \<open>None\<close>; an insert that meets its primary key raises (\<open>None\<close>).
\<close>

definition SESSION_COOKIE :: string where "SESSION_COOKIE = ''nanoclaw_session''"

definition SESSION_TTL_MS :: int where "SESSION_TTL_MS = 14 * 24 * 60 * 60 * 1000"

record signin_row =
  ss_hash :: string
  ss_user :: string
  ss_name :: string
  ss_created :: millis
  ss_expires :: millis
  ss_used :: millis

record link_row =
  lk_alias :: string
  lk_primary :: string
  lk_at :: millis

record signin_db =
  sg_sessions :: "signin_row list option"
  sg_links :: "link_row list option"

record signin_session =
  sn_user :: string
  sn_name :: string
  sn_expires :: millis

section \<open>Sessions\<close>

definition create_session ::
  "(string \<Rightarrow> string) \<Rightarrow> string \<Rightarrow> string \<Rightarrow> string \<Rightarrow> millis \<Rightarrow> signin_db \<Rightarrow> signin_db option" where
  "create_session hash token u name now db = (case sg_sessions db of
     None \<Rightarrow> None
   | Some t \<Rightarrow> (if tbl_get ss_hash (hash token) t \<noteq> None then None
      else Some (db\<lparr>sg_sessions := Some (t @ [\<lparr>ss_hash = hash token, ss_user = u, ss_name = name,
        ss_created = now, ss_expires = now + SESSION_TTL_MS, ss_used = now\<rparr>])\<rparr>)))"

definition delete_session :: "(string \<Rightarrow> string) \<Rightarrow> string \<Rightarrow> signin_db \<Rightarrow> signin_db" where
  "delete_session hash token db = (if token = [] then db
     else db\<lparr>sg_sessions := map_option (tbl_delete (\<lambda>r. ss_hash r = hash token)) (sg_sessions db)\<rparr>)"

definition lookup_session ::
  "(string \<Rightarrow> string) \<Rightarrow> string \<Rightarrow> millis \<Rightarrow> signin_db \<Rightarrow> signin_session option \<times> signin_db" where
  "lookup_session hash token now db = (if token = [] then (None, db) else (case sg_sessions db of
     None \<Rightarrow> (None, db)
   | Some t \<Rightarrow> (case tbl_get ss_hash (hash token) t of
        None \<Rightarrow> (None, db)
      | Some r \<Rightarrow>
         (if ss_expires r \<le> now then (None, delete_session hash token db)
          else (Some \<lparr>sn_user = ss_user r, sn_name = ss_name r, sn_expires = ss_expires r\<rparr>,
             if now - ss_used r > 60000
             then db\<lparr>sg_sessions := Some (tbl_update (\<lambda>x. ss_hash x = hash token) (\<lambda>x. x\<lparr>ss_used := now\<rparr>) t)\<rparr>
             else db)))))"

definition prune_signin_sessions :: "millis \<Rightarrow> signin_db \<Rightarrow> signin_db" where
  "prune_signin_sessions now db =
     db\<lparr>sg_sessions := map_option (tbl_delete (\<lambda>r. ss_expires r \<le> now)) (sg_sessions db)\<rparr>"

section \<open>The cookie\<close>

text \<open>A header Node hands over as one string or as several.\<close>

datatype header_value = One string | Many "string list"

definition cookie_char :: "char \<Rightarrow> bool" where
  "cookie_char c = (is_digit c \<or> is_lower c \<or> is_upper c \<or> c = CHR ''_'' \<or> c = CHR ''-'')"

definition token_shape :: "nat \<Rightarrow> nat \<Rightarrow> string \<Rightarrow> bool" where
  "token_shape lo hi v = (lo \<le> length v \<and> length v \<le> hi \<and> list_all cookie_char v)"

text \<open>The name and value of one \<open>name=value\<close>, cut at the first equals sign.\<close>

definition cookie_pair :: "string \<Rightarrow> (string \<times> string) option" where
  "cookie_pair part = (let n = takeWhile (\<lambda>c. c \<noteq> CHR ''='') part in
     if length n = length part then None
     else Some (js_trim n, js_trim (drop (Suc (length n)) part)))"

fun session_in_parts :: "string list \<Rightarrow> string option" where
  "session_in_parts [] = None"
| "session_in_parts (part # ps) = (case cookie_pair part of
     None \<Rightarrow> session_in_parts ps
   | Some (n, v) \<Rightarrow> (if n = SESSION_COOKIE then (if token_shape 20 200 v then Some v else None)
       else session_in_parts ps))"

definition raw_cookies :: "header_value option \<Rightarrow> string" where
  "raw_cookies h = (case h of None \<Rightarrow> [] | Some (One s) \<Rightarrow> s | Some (Many xs) \<Rightarrow> join_with ''; '' xs)"

definition session_token_from_cookie :: "header_value option \<Rightarrow> string option" where
  "session_token_from_cookie h = (let raw = raw_cookies h in
     if raw = [] then None else session_in_parts (split_on (CHR '';'') raw))"

text \<open>The age is a whole number of milliseconds, floored to seconds.\<close>

definition session_cookie :: "string \<Rightarrow> bool \<Rightarrow> int \<Rightarrow> string" where
  "session_cookie token secure max_age = join_with ''; ''
     ([SESSION_COOKIE @ ''='' @ token, ''Path=/'', ''HttpOnly'', ''SameSite=Lax'',
       ''Max-Age='' @ show_int (max_age div 1000)] @ (if secure then [''Secure''] else []))"

definition cleared_session_cookie :: "bool \<Rightarrow> string" where
  "cleared_session_cookie secure = session_cookie [] secure 0"

section \<open>Links\<close>

text \<open>A read that raises leaves the identity as it is: \<open>readable\<close> says whether this one does not.\<close>

definition resolve_linked :: "bool \<Rightarrow> string \<Rightarrow> signin_db \<Rightarrow> string" where
  "resolve_linked readable u db = (if \<not> readable then u else (case sg_links db of
     None \<Rightarrow> u
   | Some t \<Rightarrow> (case tbl_get lk_alias u t of None \<Rightarrow> u | Some r \<Rightarrow> lk_primary r)))"

definition list_links :: "string \<Rightarrow> signin_db \<Rightarrow> link_row list" where
  "list_links p db = (case sg_links db of None \<Rightarrow> []
     | Some t \<Rightarrow> sort_key lk_at (filter (\<lambda>r. lk_primary r = p) t))"

datatype link_refusal = LinkSame | LinkHasRoles | LinkHasLinks | LinkElsewhere

datatype link_result = Linked string string | LinkRefused link_refusal | LinkRaised
  \<comment> \<open>the primary and the alias\<close>

definition user_created_at :: "string \<Rightarrow> role_db \<Rightarrow> millis option" where
  "user_created_at u db = (case users db of None \<Rightarrow> None
     | Some us \<Rightarrow> map_option u_created (find (\<lambda>x. u_id x = u) us))"

definition holds_role :: "string \<Rightarrow> role_db \<Rightarrow> bool" where
  "holds_role u db = (case user_roles db of None \<Rightarrow> False | Some rs \<Rightarrow> list_ex (\<lambda>r. rr_user r = u) rs)"

text \<open>The older of two unlinked identities, by the row the host keeps of each.\<close>

definition first_is_older :: "string \<Rightarrow> string \<Rightarrow> role_db \<Rightarrow> bool" where
  "first_is_older a b rdb = (case user_created_at a rdb of None \<Rightarrow> False
     | Some ca \<Rightarrow> (case user_created_at b rdb of None \<Rightarrow> True | Some cb \<Rightarrow> ca \<le> cb))"

definition insert_link :: "string \<Rightarrow> string \<Rightarrow> millis \<Rightarrow> signin_db \<Rightarrow> signin_db option" where
  "insert_link p a now db = (case sg_links db of
     None \<Rightarrow> None
   | Some t \<Rightarrow> (if tbl_get lk_alias a t \<noteq> None then None
      else Some (db\<lparr>sg_links := Some (t @ [\<lparr>lk_alias = a, lk_primary = p, lk_at = now\<rparr>])\<rparr>)))"

text \<open>Which of the two stays the account, and which becomes a sign-in for it.\<close>

definition primary_and_alias :: "string \<Rightarrow> string \<Rightarrow> string \<Rightarrow> string \<Rightarrow> role_db \<Rightarrow> string \<times> string" where
  "primary_and_alias a b pa pb rdb = (if pa \<noteq> a then (pa, b) else if pb \<noteq> b then (pb, a)
     else if first_is_older a b rdb then (a, b) else (b, a))"

definition join_account :: "string \<Rightarrow> string \<Rightarrow> millis \<Rightarrow> role_db \<Rightarrow> signin_db \<Rightarrow> link_result \<times> signin_db" where
  "join_account p q now rdb db =
     (if list_links q db \<noteq> [] then (LinkRefused LinkHasLinks, db)
      else if holds_role q rdb then (LinkRefused LinkHasRoles, db)
      else (case insert_link p q now db of
         None \<Rightarrow> (LinkRaised, db)
       | Some db' \<Rightarrow> (Linked p q, db')))"

definition link_identities ::
  "string \<Rightarrow> string \<Rightarrow> millis \<Rightarrow> role_db \<Rightarrow> signin_db \<Rightarrow> link_result \<times> signin_db" where
  "link_identities a b now rdb db =
     (let pa = resolve_linked True a db; pb = resolve_linked True b db in
      if pa = pb then (LinkRefused LinkSame, db)
      else if pa \<noteq> a \<and> pb \<noteq> b then (LinkRefused LinkElsewhere, db)
      else (case primary_and_alias a b pa pb rdb of (p, q) \<Rightarrow> join_account p q now rdb db))"

definition unlink_identity :: "string \<Rightarrow> string \<Rightarrow> signin_db \<Rightarrow> (bool \<times> signin_db) option" where
  "unlink_identity p a db = (case sg_links db of None \<Rightarrow> None
     | Some t \<Rightarrow> Some (list_ex (\<lambda>r. lk_alias r = a \<and> lk_primary r = p) t,
         db\<lparr>sg_links := Some (tbl_delete (\<lambda>r. lk_alias r = a \<and> lk_primary r = p) t)\<rparr>))"

definition link_refusal_message :: "link_refusal \<Rightarrow> string option \<Rightarrow> string" where
  "link_refusal_message r alias = (case r of
     LinkSame \<Rightarrow> ''These sign-ins already belong to the same account.''
   | LinkHasRoles \<Rightarrow> coalesce alias ''That sign-in'' @ '' already has its own roles. Remove them first, or ask an owner to.''
   | LinkHasLinks \<Rightarrow> coalesce alias ''That sign-in'' @ '' already has other sign-ins linked to it. Unlink them first.''
   | LinkElsewhere \<Rightarrow> ''Both sign-ins already belong to other accounts.'')"

end
