(* ===== verification/SignInConfig.thy ===== *)
theory SignInConfig
  imports SignIn EgressPolicy
begin

text \<open>
  How sign-in is configured: the settings \<open>channels/webchat/auth.ts\<close> reads from the process environment
  on every use, the page that edits them (\<open>signin-settings.ts\<close>), the file they are kept in
  (\<open>env-write.ts\<close>) and what a start takes from it (\<open>env-load.ts\<close>). An environment maps a name
  to its text. The platform's URL reader, the provider's answer to discovery and the host's reader of the
  file are parameters. A parsed JSON body is a \<open>jval\<close>; a number is its rational value.
\<close>

type_synonym env = "string \<Rightarrow> string option"

datatype jval = VNull | VBool bool | VNum rat | VStr string | VArr "jval list" | VObj "(string \<times> jval) list"

definition jfield :: "string \<Rightarrow> jval \<Rightarrow> jval option" where
  "jfield k v = (case v of VObj kvs \<Rightarrow> map_of (rev kvs) k | _ \<Rightarrow> None)"

definition jtext :: "jval option \<Rightarrow> string" where
  "jtext v = (case v of Some (VStr s) \<Rightarrow> s | _ \<Rightarrow> [])"

text \<open>What \<open>new URL\<close> reads; a text it refuses is \<open>None\<close>.\<close>

record url =
  ur_protocol :: string
  ur_username :: string
  ur_password :: string
  ur_hostname :: string
  ur_port :: string
  ur_host :: string
  ur_search :: string
  ur_hash :: string

text \<open>\<open>(env[k] || '').trim()\<close>, and the same with another fallback.\<close>

definition env_or :: "string \<Rightarrow> string \<Rightarrow> env \<Rightarrow> string" where
  "env_or d k env = js_trim (if truthy (env k) then the (env k) else d)"

definition env_var :: "string \<Rightarrow> env \<Rightarrow> string" where
  "env_var k env = env_or [] k env"

definition strip_slashes :: "string \<Rightarrow> string" where
  "strip_slashes s = rev (dropWhile (\<lambda>c. c = CHR ''/'') (rev s))"

section \<open>The trusted proxy\<close>

definition DEFAULT_PROXY_HEADER :: string where "DEFAULT_PROXY_HEADER = ''x-forwarded-user''"

record proxy_config =
  px_raw :: string
  px_header :: string
  px_any :: bool
  px_entries :: "string list"

text \<open>\<open>split(',')\<close>, each piece trimmed, the empty ones dropped.\<close>

definition comma_list :: "string \<Rightarrow> string list" where
  "comma_list s = filter (\<lambda>p. p \<noteq> []) (map js_trim (split_on (CHR '','') s))"

definition proxy_cfg :: "env \<Rightarrow> proxy_config" where
  "proxy_cfg env =
     (let raw = env_var ''WEBCHAT_TRUSTED_PROXY_IPS'' env;
          any = (raw = ''auto'' \<or> raw = ''*'')
      in \<lparr>px_raw = raw,
          px_header = map lower (env_or DEFAULT_PROXY_HEADER ''WEBCHAT_TRUSTED_PROXY_HEADER'' env),
          px_any = any,
          px_entries = (if any then [] else comma_list raw)\<rparr>)"

definition proxy_enabled :: "env \<Rightarrow> bool" where
  "proxy_enabled env = (px_raw (proxy_cfg env) \<noteq> [])"

section \<open>Addresses of the proxy\<close>

definition percent :: char where "percent = CHR 0x25"

text \<open>\<open>replace(/%.*$/, '')\<close>: from the first percent sign no line end follows.\<close>

fun drop_zone :: "string \<Rightarrow> string" where
  "drop_zone [] = []"
| "drop_zone (c # s) = (if c = percent \<and> \<not> list_ex ends_line s then [] else c # drop_zone s)"

text \<open>\<open>replace(/^\[|\]$/g, '')\<close>.\<close>

definition drop_outer_brackets :: "string \<Rightarrow> string" where
  "drop_outer_brackets s =
     (let t = (if s \<noteq> [] \<and> hd s = CHR ''['' then tl s else s)
      in if t \<noteq> [] \<and> last t = CHR '']'' then butlast t else t)"

text \<open>The dotted part of \<open>::ffff:a.b.c.d\<close>, each number of one to three digits.\<close>

definition mapped_tail :: "string \<Rightarrow> string option" where
  "mapped_tail s = (if starts_with s ''::ffff:'' then
      (let d = drop 7 s; ps = split_on (CHR ''.'') d in
       if length ps = 4 \<and> list_all (\<lambda>p. all_digits p \<and> length p \<le> 3) ps then Some d else None)
     else None)"

definition canonical_ip :: "string \<Rightarrow> string" where
  "canonical_ip raw = (let ip = map lower (drop_zone (drop_outer_brackets (js_trim raw)))
     in coalesce (mapped_tail ip) ip)"

datatype ip_family = IPv4 | IPv6

definition family_of :: "string \<Rightarrow> ip_family option" where
  "family_of a = (if is_ipv4 a then Some IPv4 else if is_ipv6 a then Some IPv6 else None)"

record proxy_subnet =
  sb_address :: string
  sb_prefix :: nat
  sb_family :: ip_family

definition parse_proxy_entry :: "string \<Rightarrow> proxy_subnet option" where
  "parse_proxy_entry entry =
     (let ps = split_on (CHR ''/'') (js_trim entry);
          raw = hd ps;
          address = canonical_ip raw
      in if length ps > 2 \<or> raw = [] then None
         else case family_of address of None \<Rightarrow> None
         | Some fam \<Rightarrow>
            (let max = (if fam = IPv4 then 32 else 128) in
             if length ps = 1 then Some \<lparr>sb_address = address, sb_prefix = max, sb_family = fam\<rparr>
             else
               (let bits = ps ! 1;
                    n = int (read_nat bits)
                      - (if fam = IPv4 \<and> address \<noteq> map lower (js_trim raw) then 96 else 0)
                in if \<not> (all_digits bits \<and> length bits \<le> 3) then None
                   else if n < 0 \<or> n > int max then None
                   else Some \<lparr>sb_address = address, sb_prefix = nat n, sb_family = fam\<rparr>)))"

text \<open>The 16-bit groups of an IPv6 address without a zone; its compressed run is filled with zeroes.\<close>

definition hex_digit_value :: "char \<Rightarrow> nat" where
  "hex_digit_value c = (if is_digit c then code c - 48
     else if 97 \<le> code c then code c - 87 else code c - 55)"

definition read_hex :: "string \<Rightarrow> nat" where
  "read_hex s = foldl (\<lambda>n c. 16 * n + hex_digit_value c) 0 s"

definition group_values :: "string \<Rightarrow> nat list" where
  "group_values s = (if s = [] then [] else concat (map (\<lambda>g. case ipv4_octets g of
      Some os \<Rightarrow> [256 * os ! 0 + os ! 1, 256 * os ! 2 + os ! 3]
    | None \<Rightarrow> [read_hex g]) (split_on (CHR '':'') s)))"

definition ipv6_groups :: "string \<Rightarrow> nat list" where
  "ipv6_groups a = (case cut_double a of
     None \<Rightarrow> group_values a
   | Some (l, r) \<Rightarrow> group_values l
       @ replicate (8 - length (group_values l) - length (group_values r)) 0 @ group_values r)"

definition ipv6_word :: "string \<Rightarrow> 128 word" where
  "ipv6_word a = of_nat (foldl (\<lambda>w g. 65536 * w + g) 0 (ipv6_groups a))"

definition ipv6_mask :: "nat \<Rightarrow> 128 word" where
  "ipv6_mask n = push_bit (128 - n) (- 1)"

text \<open>\<open>BlockList.check\<close> of one network.\<close>

definition subnet_has :: "proxy_subnet \<Rightarrow> string \<Rightarrow> bool" where
  "subnet_has s addr = (case sb_family s of
     IPv4 \<Rightarrow> in_subnet (ipv4_word (the (ipv4_octets addr)))
       (ipv4_word (the (ipv4_octets (sb_address s))), sb_prefix s)
   | IPv6 \<Rightarrow> ipv6_word addr AND ipv6_mask (sb_prefix s)
       = ipv6_word (sb_address s) AND ipv6_mask (sb_prefix s))"

definition is_trusted_proxy_ip :: "string \<Rightarrow> string list \<Rightarrow> bool" where
  "is_trusted_proxy_ip ip entries = (let addr = canonical_ip ip in
     case family_of addr of None \<Rightarrow> False
     | Some fam \<Rightarrow> list_ex (\<lambda>e. case parse_proxy_entry e of None \<Rightarrow> False
         | Some s \<Rightarrow> sb_family s = fam \<and> subnet_has s addr) entries)"

section \<open>Cloudflare Access\<close>

text \<open>Whose tokens are accepted, and where their keys are.\<close>

record token_issuer =
  ti_issuer :: string
  ti_audience :: string
  ti_jwks :: string

definition strip_http :: "string \<Rightarrow> string" where
  "strip_http s = (if starts_with s ''https://'' then drop 8 s
     else if starts_with s ''http://'' then drop 7 s else s)"

definition cf_access_cfg :: "env \<Rightarrow> bool \<times> token_issuer" where
  "cf_access_cfg env =
     (let team = strip_slashes (strip_http (env_var ''WEBCHAT_CF_ACCESS_TEAM_DOMAIN'' env));
          audience = env_var ''WEBCHAT_CF_ACCESS_AUD'' env;
          issuer = (if team \<noteq> [] then ''https://'' @ team else [])
      in (team \<noteq> [] \<and> audience \<noteq> [],
          \<lparr>ti_issuer = issuer, ti_audience = audience,
           ti_jwks = (if issuer \<noteq> [] then issuer @ ''/cdn-cgi/access/certs'' else [])\<rparr>))"

section \<open>OpenID Connect\<close>

datatype oidc_provider = Microsoft | OtherProvider

record oidc_config =
  oc_provider :: oidc_provider
  oc_name :: string
  oc_tokens :: token_issuer
  oc_authorize :: string
  oc_token_url :: string
  oc_basic :: bool
  oc_enabled :: bool
  oc_login_flag :: string

definition MS_AUTHORITY :: string where "MS_AUTHORITY = ''https://login.microsoftonline.com''"

text \<open>The tenant of a Microsoft issuer: \<open>authority/tenant/v2.0\<close>, with or without a final slash.\<close>

definition ms_tenant :: "string \<Rightarrow> string option" where
  "ms_tenant issuer = (let p = MS_AUTHORITY @ ''/'' in
     if \<not> starts_with issuer p then None
     else (let r = drop (length p) issuer;
               tenant = takeWhile (\<lambda>c. c \<noteq> CHR ''/'') r;
               rest = drop (length tenant) r
           in if tenant \<noteq> [] \<and> rest \<in> {''/v2.0'', ''/v2.0/''} then Some tenant else None))"

definition strip_v2 :: "string \<Rightarrow> string" where
  "strip_v2 s = (if ends_with s ''/v2.0/'' then take (length s - 6) s
     else if ends_with s ''/v2.0'' then take (length s - 5) s else s)"

definition or_else :: "string \<Rightarrow> string \<Rightarrow> string" where
  "or_else a b = (if a \<noteq> [] then a else b)"

definition oidc_cfg :: "env \<Rightarrow> oidc_config" where
  "oidc_cfg env =
     (let issuer = env_var ''WEBCHAT_OIDC_ISSUER'' env;
          audience = env_var ''WEBCHAT_OIDC_AUDIENCE'' env;
          ms = (ms_tenant issuer \<noteq> None);
          p = env_var ''WEBCHAT_OIDC_PROVIDER'' env;
          provider = (if p = ''other'' then OtherProvider
            else if p = ''microsoft'' \<or> ms then Microsoft else OtherProvider);
          base = (if ms then strip_v2 issuer else []);
          derived = (\<lambda>k path. or_else (env_var k env) (if ms then base @ path else []));
          jwks = derived ''WEBCHAT_OIDC_JWKS_URI'' ''/discovery/v2.0/keys''
      in \<lparr>oc_provider = provider,
          oc_name = (if provider = Microsoft then ''Microsoft'' else or_else (env_var ''WEBCHAT_OIDC_NAME'' env) ''SSO''),
          oc_tokens = \<lparr>ti_issuer = issuer, ti_audience = audience, ti_jwks = jwks\<rparr>,
          oc_authorize = derived ''WEBCHAT_OIDC_AUTHORIZE_URL'' ''/oauth2/v2.0/authorize'',
          oc_token_url = derived ''WEBCHAT_OIDC_TOKEN_URL'' ''/oauth2/v2.0/token'',
          oc_basic = (env_var ''WEBCHAT_OIDC_TOKEN_AUTH'' env = ''basic''),
          oc_enabled = (issuer \<noteq> [] \<and> audience \<noteq> [] \<and> jwks \<noteq> []),
          oc_login_flag = map lower (env_var ''WEBCHAT_OIDC_LOGIN'' env)\<rparr>)"

definition oidc_login_enabled :: "env \<Rightarrow> bool" where
  "oidc_login_enabled env = (let c = oidc_cfg env in
     oc_enabled c \<and> oc_authorize c \<noteq> [] \<and> oc_token_url c \<noteq> [] \<and> oc_login_flag c \<noteq> ''false'')"

definition tailscale_enabled :: "env \<Rightarrow> bool" where
  "tailscale_enabled env = (env ''WEBCHAT_TAILSCALE'' = Some ''true'')"

end
