(* ===== verification/TokenCheck.thy ===== *)
theory TokenCheck
  imports SignInConfig
begin

text \<open>
  Signed tokens (\<open>channels/webchat/auth.ts\<close>): the signing keys of each issuer, fetched and refetched
  under a rate limit, the verification of a token against them, and the identity its claims name.
  The platform's decoder, key import and signature check are the fields of \<open>crypto\<close>, with keys of a type
  of their own; a fetch answers with the instant it ended and the body, or nothing when it failed.
\<close>

datatype jwt_alg = RS256 | ES256

record 'k signing_key =
  sk_key :: 'k
  sk_alg :: jwt_alg

record 'k crypto =
  cr_decode :: "string \<Rightarrow> jval option"
  cr_import :: "jval \<Rightarrow> 'k option"
  cr_verify :: "jwt_alg \<Rightarrow> 'k \<Rightarrow> string \<Rightarrow> string \<Rightarrow> bool"

section \<open>Signing keys\<close>

definition JWKS_TTL_MS :: int where "JWKS_TTL_MS = 3600000"
definition JWKS_MIN_REFETCH_MS :: int where "JWKS_MIN_REFETCH_MS = 60000"

record 'k jwks_state =
  jw_keys :: "(string \<times> 'k signing_key) list option"
  jw_fetched :: millis
  jw_attempt :: millis
  jw_flight :: bool

type_synonym 'k jwks_cache = "(string \<times> 'k jwks_state) list"

type_synonym jwks_net = "string \<Rightarrow> millis \<Rightarrow> millis \<times> jval option"

definition no_keys :: "'k jwks_state" where
  "no_keys = \<lparr>jw_keys = None, jw_fetched = 0, jw_attempt = 0, jw_flight = False\<rparr>"

text \<open>The state of a source, made when there is none; a full map is emptied first.\<close>

definition jwks_open :: "string \<Rightarrow> 'k jwks_cache \<Rightarrow> 'k jwks_cache" where
  "jwks_open uri c = (if map_of c uri \<noteq> None then c
     else (if length c \<ge> 8 then [] else c) @ [(uri, no_keys)])"

definition jwks_at :: "string \<Rightarrow> 'k jwks_cache \<Rightarrow> 'k jwks_state" where
  "jwks_at uri c = coalesce (map_of c uri) no_keys"

definition jwks_update :: "string \<Rightarrow> ('k jwks_state \<Rightarrow> 'k jwks_state) \<Rightarrow> 'k jwks_cache \<Rightarrow> 'k jwks_cache" where
  "jwks_update uri f c = map (\<lambda>(u, st). (u, if u = uri then f st else st)) c"

definition jwk_alg :: "jval \<Rightarrow> jwt_alg option" where
  "jwk_alg k = (if jtext (jfield ''kty'' k) = ''RSA'' then Some RS256
     else if jtext (jfield ''kty'' k) = ''EC'' \<and> jtext (jfield ''crv'' k) = ''P-256'' then Some ES256 else None)"

text \<open>The keys of a document's list, the later of two with one id first; reading \<open>null\<close> raises.\<close>

fun read_jwks_keys :: "(jval \<Rightarrow> 'k option) \<Rightarrow> jval list \<Rightarrow> (string \<times> 'k signing_key) list \<Rightarrow> (string \<times> 'k signing_key) list option" where
  "read_jwks_keys imp [] acc = Some acc"
| "read_jwks_keys imp (k # ks) acc =
     (if k = VNull then None
      else (let kid = jtext (jfield ''kid'' k); use = jfield ''use'' k in
        if kid = [] \<or> (use \<noteq> None \<and> use \<noteq> Some (VStr ''sig'')) then read_jwks_keys imp ks acc
        else (case (jwk_alg k, imp k) of
            (Some a, Some key) \<Rightarrow> read_jwks_keys imp ks ((kid, \<lparr>sk_key = key, sk_alg = a\<rparr>) # acc)
          | _ \<Rightarrow> read_jwks_keys imp ks acc)))"

text \<open>\<open>body.keys ?? []\<close>; \<open>None\<close> when iterating it raises. A string's characters hold no key.\<close>

definition key_list :: "jval \<Rightarrow> jval list option" where
  "key_list body = (case body of
     VNull \<Rightarrow> None
   | VArr _ \<Rightarrow> None
   | _ \<Rightarrow> (case jfield ''keys'' body of
        None \<Rightarrow> Some [] | Some VNull \<Rightarrow> Some [] | Some (VStr _) \<Rightarrow> Some []
      | Some (VArr ks) \<Rightarrow> Some ks | _ \<Rightarrow> None))"

definition keys_of :: "(jval \<Rightarrow> 'k option) \<Rightarrow> jval option \<Rightarrow> (string \<times> 'k signing_key) list" where
  "keys_of imp body = (case body of None \<Rightarrow> []
     | Some b \<Rightarrow> (case key_list b of None \<Rightarrow> [] | Some ks \<Rightarrow> coalesce (read_jwks_keys imp ks []) []))"

definition begin_fetch :: "string \<Rightarrow> millis \<Rightarrow> 'k jwks_cache \<Rightarrow> 'k jwks_cache" where
  "begin_fetch uri now c = (let c0 = jwks_open uri c in
     if jw_flight (jwks_at uri c0) then c0
     else jwks_update uri (\<lambda>st. st\<lparr>jw_attempt := now, jw_flight := True\<rparr>) c0)"

definition end_fetch ::
  "(jval \<Rightarrow> 'k option) \<Rightarrow> string \<Rightarrow> millis \<Rightarrow> jval option \<Rightarrow> 'k jwks_cache \<Rightarrow> 'k jwks_cache" where
  "end_fetch imp uri now body c = (let next = keys_of imp body in
     jwks_update uri (\<lambda>st. if next = [] then st\<lparr>jw_flight := False\<rparr>
       else st\<lparr>jw_keys := Some next, jw_fetched := now, jw_flight := False\<rparr>) c)"

definition fetch_jwks ::
  "(jval \<Rightarrow> 'k option) \<Rightarrow> jwks_net \<Rightarrow> string \<Rightarrow> millis \<Rightarrow> 'k jwks_cache \<Rightarrow> millis \<times> 'k jwks_cache" where
  "fetch_jwks imp net uri now c = (case net uri now of (t, body) \<Rightarrow>
     (t, end_fetch imp uri t body (begin_fetch uri now c)))"

definition may_fetch :: "millis \<Rightarrow> 'k jwks_state \<Rightarrow> bool" where
  "may_fetch now st = (now - jw_attempt st > JWKS_MIN_REFETCH_MS)"

definition keys_stale :: "millis \<Rightarrow> 'k jwks_state \<Rightarrow> bool" where
  "keys_stale now st = (jw_keys st = None \<or> now - jw_fetched st > JWKS_TTL_MS)"

definition key_in :: "string \<Rightarrow> 'k jwks_state \<Rightarrow> 'k signing_key option" where
  "key_in kid st = (case jw_keys st of None \<Rightarrow> None | Some ks \<Rightarrow> map_of ks kid)"

definition jwks_key ::
  "(jval \<Rightarrow> 'k option) \<Rightarrow> jwks_net \<Rightarrow> string \<Rightarrow> string \<Rightarrow> millis \<Rightarrow> 'k jwks_cache
     \<Rightarrow> 'k signing_key option \<times> millis \<times> 'k jwks_cache" where
  "jwks_key imp net uri kid now c =
     (let c0 = jwks_open uri c; st = jwks_at uri c0;
          (now1, c1) = (if keys_stale now st \<and> may_fetch now st then fetch_jwks imp net uri now c0 else (now, c0))
      in case key_in kid (jwks_at uri c1) of
           Some k \<Rightarrow> (Some k, now1, c1)
         | None \<Rightarrow>
            (if may_fetch now1 (jwks_at uri c1)
             then (let (now2, c2) = fetch_jwks imp net uri now1 c1
                   in (key_in kid (jwks_at uri c2), now2, c2))
             else (None, now1, c1)))"

section \<open>Verifying a token\<close>

datatype oidc_failure = NotEnabled | BadShape | BadAlg | UnknownKid | BadSignature | TokenExpired
  | NotYetValid | WrongIssuer | WrongAudience | WrongNonce | NoIdentity

text \<open>A refusal carries, for an expiry, how many seconds ago; \<open>Raises\<close> is an exception that escapes.\<close>

datatype 'a token_result = Accepted 'a | Refused oidc_failure "rat option" | Raises

definition CLOCK_SKEW_S :: int where "CLOCK_SKEW_S = 120"

definition jwt_parts :: "string \<Rightarrow> (string \<times> string \<times> string) option" where
  "jwt_parts token = (case split_on (CHR ''.'') token of
     [h, p, s] \<Rightarrow> (if list_all (\<lambda>x. x \<noteq> [] \<and> list_all cookie_char x) [h, p, s] then Some (h, p, s) else None)
   | _ \<Rightarrow> None)"

definition header_alg :: "jval \<Rightarrow> jwt_alg option" where
  "header_alg h = (case jfield ''alg'' h of
     Some (VStr a) \<Rightarrow> (if a = ''RS256'' then Some RS256 else if a = ''ES256'' then Some ES256 else None)
   | _ \<Rightarrow> None)"

definition audience_ok :: "string \<Rightarrow> jval \<Rightarrow> bool" where
  "audience_ok a claims = (case jfield ''aud'' claims of
     Some (VArr xs) \<Rightarrow> VStr a \<in> set xs
   | v \<Rightarrow> v = Some (VStr a))"

definition check_claims :: "token_issuer \<Rightarrow> millis \<Rightarrow> jval \<Rightarrow> jval token_result" where
  "check_claims cfg now claims =
     (let s = now div 1000 in
      if claims = VNull then Raises
      else case jfield ''exp'' claims of
        Some (VNum e) \<Rightarrow>
          (if e \<le> of_int (s - CLOCK_SKEW_S) then Refused TokenExpired (Some (of_int s - e))
           else if (case jfield ''nbf'' claims of Some (VNum n) \<Rightarrow> n > of_int (s + CLOCK_SKEW_S) | _ \<Rightarrow> False)
             then Refused NotYetValid None
           else if jfield ''iss'' claims \<noteq> Some (VStr (ti_issuer cfg)) then Refused WrongIssuer None
           else if \<not> audience_ok (ti_audience cfg) claims then Refused WrongAudience None
           else Accepted claims)
      | _ \<Rightarrow> Refused TokenExpired None)"

definition verify_jwt ::
  "'k crypto \<Rightarrow> jwks_net \<Rightarrow> string \<Rightarrow> token_issuer \<Rightarrow> millis \<Rightarrow> 'k jwks_cache
     \<Rightarrow> jval token_result \<times> millis \<times> 'k jwks_cache" where
  "verify_jwt cr net token cfg now c = (case jwt_parts token of
     None \<Rightarrow> (Refused BadShape None, now, c)
   | Some (h, p, sig) \<Rightarrow>
      (case (cr_decode cr h, cr_decode cr p) of
         (Some header, Some claims) \<Rightarrow>
           (if header = VNull then (Raises, now, c)
            else case (header_alg header, jfield ''kid'' header) of
              (Some alg, Some (VStr kid)) \<Rightarrow>
                (case jwks_key (cr_import cr) net (ti_jwks cfg) kid now c of
                   (None, now', c') \<Rightarrow> (Refused UnknownKid None, now', c')
                 | (Some key, now', c') \<Rightarrow>
                    (if sk_alg key \<noteq> alg then Refused BadAlg None
                     else if \<not> cr_verify cr (sk_alg key) (sk_key key) (h @ ''.'' @ p) sig then Refused BadSignature None
                     else check_claims cfg now' claims, now', c'))
            | _ \<Rightarrow> (Refused BadAlg None, now, c))
       | _ \<Rightarrow> (Refused BadShape None, now, c)))"

section \<open>Whom the claims name\<close>

definition str_claim :: "string \<Rightarrow> jval \<Rightarrow> string option" where
  "str_claim k claims = (case jfield k claims of Some (VStr s) \<Rightarrow> if s \<noteq> [] then Some s else None | _ \<Rightarrow> None)"

definition oidc_identity_claim :: "oidc_provider \<Rightarrow> jval \<Rightarrow> string option" where
  "oidc_identity_claim provider claims =
     (if provider = Microsoft then
        (case str_claim ''preferred_username'' claims of Some s \<Rightarrow> Some s
         | None \<Rightarrow> (case str_claim ''upn'' claims of Some s \<Rightarrow> Some s | None \<Rightarrow> str_claim ''email'' claims))
      else if jfield ''email_verified'' claims \<in> {Some (VBool True), Some (VStr ''true'')}
        then str_claim ''email'' claims else None)"

record oidc_identity =
  oi_identity :: string
  oi_name :: string

definition name_identity :: "oidc_provider \<Rightarrow> string option \<Rightarrow> jval \<Rightarrow> oidc_identity token_result" where
  "name_identity provider nonce claims =
     (if nonce \<noteq> None \<and> jfield ''nonce'' claims \<noteq> map_option VStr nonce then Refused WrongNonce None
      else case oidc_identity_claim provider claims of
        None \<Rightarrow> Refused NoIdentity None
      | Some i \<Rightarrow> Accepted \<lparr>oi_identity = i, oi_name = coalesce (str_claim ''name'' claims) i\<rparr>)"

definition verify_oidc_token ::
  "'k crypto \<Rightarrow> jwks_net \<Rightarrow> string \<Rightarrow> string option \<Rightarrow> env \<Rightarrow> millis \<Rightarrow> 'k jwks_cache
     \<Rightarrow> oidc_identity token_result \<times> millis \<times> 'k jwks_cache" where
  "verify_oidc_token cr net token nonce env now c = (let cfg = oidc_cfg env in
     if \<not> oc_enabled cfg then (Refused NotEnabled None, now, c)
     else case verify_jwt cr net token (oc_tokens cfg) now c of
       (Refused r s, now', c') \<Rightarrow> (Refused r s, now', c')
     | (Raises, now', c') \<Rightarrow> (Raises, now', c')
     | (Accepted claims, now', c') \<Rightarrow> (name_identity (oc_provider cfg) nonce claims, now', c'))"

end
