(* ===== verification/TailnetServe.thy ===== *)
theory TailnetServe
  imports SignInConfig TextRules
begin

text \<open>
  Tailscale's HTTPS front (\<open>channels/webchat/tailscale-serve.ts\<close>): the mappings its status reports, where
  they send this install's traffic, the port it should use, and the commands that move an old mapping.
  The command line tool is the parameter \<open>runner\<close>; its status text is the JSON it parses to, if any.
\<close>

record run_result =
  rn_ok :: bool
  rn_not_found :: bool
  rn_stdout :: string
  rn_stderr :: string
  rn_json :: "jval option"

type_synonym runner = "string list \<Rightarrow> run_result"

record serve_mapping =
  sm_host_port :: string
  sm_host :: string
  sm_https :: string
  sm_target :: nat

text \<open>\<open>Object.entries\<close>: each name once, where it first stood, with its last value.\<close>

definition obj_entries :: "jval option \<Rightarrow> (string \<times> jval) list" where
  "obj_entries v = (case v of
     Some (VObj kvs) \<Rightarrow> map (\<lambda>k. (k, the (map_of (rev kvs) k))) (fold add_new (map fst kvs) [])
   | Some (VArr xs) \<Rightarrow> zip (map show_nat [0..<length xs]) xs
   | _ \<Rightarrow> [])"

definition url_has_scheme :: "string \<Rightarrow> bool" where
  "url_has_scheme s = (let p = takeWhile (\<lambda>c. is_lower (lower c) \<or> c = CHR ''+'') s in
     p \<noteq> [] \<and> starts_with (drop (length p) s) ''://'')"

definition inner :: "string \<Rightarrow> jval option \<Rightarrow> jval option" where
  "inner k v = (case v of None \<Rightarrow> None | Some x \<Rightarrow> jfield k x)"

definition mapping_of :: "(string \<Rightarrow> url option) \<Rightarrow> string \<times> jval \<Rightarrow> serve_mapping option" where
  "mapping_of parse_url e =
     (let proxy = jtext (inner ''Proxy'' (inner ''/'' (jfield ''Handlers'' (snd e)))) in
      case parse_url (if url_has_scheme proxy then proxy else ''http://'' @ proxy) of
        None \<Rightarrow> None
      | Some u \<Rightarrow>
         (if ur_hostname u \<notin> {''127.0.0.1'', ''localhost'', ''[::1]''} then None
          else (let ps = split_on (CHR '':'') (map lower (fst e)) in
            Some \<lparr>sm_host_port = fst e, sm_host = hd ps,
              sm_https = (if length ps > 1 then or_else (ps ! 1) ''443'' else ''443''),
              sm_target = (if ur_port u \<noteq> [] then read_nat (ur_port u)
                else if ur_protocol u = ''https:'' then 443 else 80)\<rparr>)))"

definition serve_mappings :: "(string \<Rightarrow> url option) \<Rightarrow> jval option \<Rightarrow> serve_mapping list" where
  "serve_mappings parse_url status = List.map_filter (mapping_of parse_url) (obj_entries (inner ''Web'' status))"

section \<open>Which port\<close>

text \<open>
  A port written in decimal digits is read; any other text (\<open>Number\<close> knows further notations) is no port.
\<close>

definition read_port :: "string \<Rightarrow> nat option" where
  "read_port s = (if all_digits s then Some (read_nat s) else None)"

definition serve_port_for :: "nat \<Rightarrow> env \<Rightarrow> nat option" where
  "serve_port_for main env =
     (let raw = map lower (env_var ''WEBCHAT_SERVE_PORT'' env) in
      if raw = ''off'' \<or> raw = ''0'' \<or> raw = ''false'' then None
      else if raw = [] \<and> main = 0 then None
      else case (if raw \<noteq> [] then read_port raw else Some (main + 10000)) of
        None \<Rightarrow> None
      | Some p \<Rightarrow> (if 0 < p \<and> p < 65536 \<and> p \<noteq> main then Some p else None))"

section \<open>Where Serve sends this install's traffic\<close>

record serve_routing =
  sr_dedicated :: bool
  sr_legacy :: "string list"

definition SERVE_ROUTING_TTL_MS :: int where "SERVE_ROUTING_TTL_MS = 60000"

text \<open>The name as a Host header carries it: bare on 443, with its port otherwise.\<close>

definition fronted_name :: "serve_mapping \<Rightarrow> string" where
  "fronted_name m = (if sm_https m = ''443'' then sm_host m else sm_host m @ '':'' @ sm_https m)"

definition routing_of :: "nat option \<Rightarrow> nat option \<Rightarrow> serve_mapping list \<Rightarrow> serve_routing" where
  "routing_of main serve ms =
     \<lparr>sr_dedicated = (serve \<noteq> None \<and> list_ex (\<lambda>m. Some (sm_target m) = serve) ms),
      sr_legacy = map fronted_name (filter (\<lambda>m. Some (sm_target m) = main) ms)\<rparr>"

type_synonym routing_cache = "((nat option \<times> nat option) \<times> serve_routing \<times> millis) option"

definition read_mappings :: "(string \<Rightarrow> url option) \<Rightarrow> runner \<Rightarrow> serve_mapping list" where
  "read_mappings parse_url runner = (let r = runner [''serve'', ''status'', ''--json''] in
     if rn_ok r then serve_mappings parse_url (rn_json r) else [])"

definition serve_routing_for ::
  "(string \<Rightarrow> url option) \<Rightarrow> runner \<Rightarrow> nat option \<Rightarrow> nat option \<Rightarrow> millis \<Rightarrow> routing_cache
     \<Rightarrow> serve_routing \<times> routing_cache" where
  "serve_routing_for parse_url runner main serve now cache =
     (let fresh = (let r = routing_of main serve (read_mappings parse_url runner)
                   in (r, Some ((main, serve), r, now)))
      in case cache of
           None \<Rightarrow> fresh
         | Some (k, r, t) \<Rightarrow> (if k = (main, serve) \<and> now - t < SERVE_ROUTING_TTL_MS then (r, cache) else fresh))"

definition serve_migration_commands :: "(string \<Rightarrow> url option) \<Rightarrow> jval option \<Rightarrow> nat \<Rightarrow> nat \<Rightarrow> string list" where
  "serve_migration_commands parse_url status main serve =
     (let ms = serve_mappings parse_url status in
      if list_ex (\<lambda>m. sm_target m = serve) ms then []
      else map (\<lambda>p. ''tailscale serve --bg --https='' @ p @ '' '' @ show_nat serve)
        (fold add_new (map sm_https (filter (\<lambda>m. sm_target m = main) ms)) []))"

definition pending_serve_migration :: "(string \<Rightarrow> url option) \<Rightarrow> runner \<Rightarrow> nat \<Rightarrow> nat \<Rightarrow> string list" where
  "pending_serve_migration parse_url runner main serve = (let r = runner [''serve'', ''status'', ''--json''] in
     if rn_ok r then serve_migration_commands parse_url (rn_json r) main serve else [])"

fun serve_url_for :: "serve_mapping list \<Rightarrow> nat list \<Rightarrow> string option" where
  "serve_url_for ms [] = None"
| "serve_url_for ms (p # ps) = (case find (\<lambda>m. sm_target m = p) ms of
     None \<Rightarrow> serve_url_for ms ps
   | Some m \<Rightarrow> Some (''https://'' @ fronted_name m))"

definition serve_url_for_port :: "(string \<Rightarrow> url option) \<Rightarrow> jval option \<Rightarrow> nat list \<Rightarrow> string option" where
  "serve_url_for_port parse_url status ports = serve_url_for (serve_mappings parse_url status) ports"

definition own_dns :: "jval option \<Rightarrow> string" where
  "own_dns status = (let d = jtext (inner ''DNSName'' (inner ''Self'' status)) in
     if d \<noteq> [] \<and> last d = CHR ''.'' then butlast d else d)"

definition tailnet_url_for_port ::
  "(string \<Rightarrow> url option) \<Rightarrow> runner \<Rightarrow> nat \<Rightarrow> bool \<Rightarrow> nat option \<Rightarrow> string option" where
  "tailnet_url_for_port parse_url runner port beyond serve =
     (let r = runner [''serve'', ''status'', ''--json''];
          via = (if rn_ok r then serve_url_for_port parse_url (rn_json r)
              (case serve of None \<Rightarrow> [port] | Some s \<Rightarrow> [s, port]) else None)
      in if via \<noteq> None then via
         else if \<not> beyond then None
         else (let s = runner [''status'', ''--json''] in
           if \<not> rn_ok s \<or> own_dns (rn_json s) = [] then None
           else Some (''http://'' @ own_dns (rn_json s) @ '':'' @ show_nat port)))"

section \<open>Turning it on\<close>

record serve_state =
  tv_available :: bool
  tv_active :: bool
  tv_url :: "string option"

definition get_tailscale_serve_state :: "runner \<Rightarrow> serve_state" where
  "get_tailscale_serve_state runner =
     (let status = runner [''status'', ''--json''] in
      if \<not> rn_ok status then \<lparr>tv_available = False, tv_active = False, tv_url = None\<rparr>
      else
        (let dns = own_dns (rn_json status); serve = runner [''serve'', ''status'', ''--json''] in
         \<lparr>tv_available = (inner ''BackendState'' (rn_json status) = Some (VStr ''Running'')),
          tv_active = (rn_ok serve \<and> (obj_entries (inner ''Web'' (rn_json serve)) \<noteq> []
             \<or> obj_entries (inner ''TCP'' (rn_json serve)) \<noteq> [])),
          tv_url = (if dns \<noteq> [] then Some (''https://'' @ dns) else None)\<rparr>))"

text \<open>The text holds \<open>w\<close>; as a whole word, when no letter, digit or underscore touches it.\<close>

definition name_char :: "char \<Rightarrow> bool" where
  "name_char c = (is_digit c \<or> is_letter c \<or> c = CHR ''_'')"

fun holds_after :: "(char \<Rightarrow> bool) \<Rightarrow> bool \<Rightarrow> string \<Rightarrow> string \<Rightarrow> bool" where
  "holds_after edge free w s = ((free \<and> starts_with s w
       \<and> (drop (length w) s = [] \<or> \<not> edge (hd (drop (length w) s))))
     \<or> (case s of [] \<Rightarrow> False | c # t \<Rightarrow> holds_after edge (\<not> edge c) w t))"

definition holds_text :: "string list \<Rightarrow> string \<Rightarrow> bool" where
  "holds_text ws s = list_ex (\<lambda>w. holds_after (\<lambda>_. False) True w s) ws"

definition holds_word :: "string \<Rightarrow> string \<Rightarrow> bool" where
  "holds_word w s = holds_after name_char True w s"

datatype serve_problem = TailscaleNotRunning | TailscaleNotInstalled | CertificatesOff | NotOperator | ServeFailed string

definition classify_serve_error :: "run_result \<Rightarrow> serve_problem" where
  "classify_serve_error run =
     (let err = map lower (rn_stdout run @ CHR 0x0A # rn_stderr run) in
      if rn_not_found run then TailscaleNotInstalled
      else if (holds_text [''https'', ''certificate''] err \<or> holds_word ''cert'' err)
           \<and> holds_text [''enabl'', ''not '', ''admin'', ''provision''] err then CertificatesOff
      else if holds_text [''access denied'', ''permission'', ''operator'', ''must be run'', ''not permitted'',
           ''are not allowed''] err then NotOperator
      else ServeFailed (take 400 (js_trim (or_else (rn_stderr run) (or_else (rn_stdout run) ''tailscale serve failed'')))))"

text \<open>
  The tool is asked for the state, told to serve, and, when it did, asked again; either way the remembered
  routing is forgotten once it was told.
\<close>

definition enable_tailscale_serve ::
  "runner \<Rightarrow> (string list \<Rightarrow> run_result \<times> runner) \<Rightarrow> nat \<Rightarrow> routing_cache
     \<Rightarrow> (serve_problem + string option) \<times> routing_cache" where
  "enable_tailscale_serve runner command port cache =
     (let before = get_tailscale_serve_state runner in
      if \<not> tv_available before then (Inl TailscaleNotRunning, cache)
      else case command [''serve'', ''--bg'', show_nat port] of (run, runner') \<Rightarrow>
        (if rn_ok run
         then (Inr (case tv_url (get_tailscale_serve_state runner') of Some u \<Rightarrow> Some u | None \<Rightarrow> tv_url before), None)
         else (Inl (classify_serve_error run), None)))"

end
