(* ===== verification/RequestAuth.thy ===== *)
theory RequestAuth
  imports TokenCheck TailnetServe SettingsStore
begin

text \<open>
  Who a request is from (\<open>channels/webchat/auth.ts\<close>): the methods in their order, the account an
  identity signs in as, and what is remembered between requests. One request is served at a time from its
  instant \<open>now\<close>; only fetching signing keys takes time. The host's user table, the tools it runs and its
  libraries are the fields of \<open>auth_host\<close>.
\<close>

section \<open>Requests\<close>

record request =
  rq_remote :: "string option"
  rq_headers :: "string \<Rightarrow> header_value option"
  rq_serve :: bool

definition header_first :: "string \<Rightarrow> request \<Rightarrow> string option" where
  "header_first h req = (case rq_headers req h of
     None \<Rightarrow> None | Some (One s) \<Rightarrow> Some s | Some (Many []) \<Rightarrow> None | Some (Many (s # _)) \<Rightarrow> Some s)"

definition header_set :: "string \<Rightarrow> request \<Rightarrow> bool" where
  "header_set h req = (case rq_headers req h of None \<Rightarrow> False | Some (One s) \<Rightarrow> s \<noteq> [] | Some (Many _) \<Rightarrow> True)"

text \<open>\<open>String(header ?? '')\<close>: several values are joined by commas.\<close>

definition header_text :: "string \<Rightarrow> request \<Rightarrow> string" where
  "header_text h req = (case rq_headers req h of
     None \<Rightarrow> [] | Some (One s) \<Rightarrow> s | Some (Many xs) \<Rightarrow> join_with '','' xs)"

definition remote_ip :: "request \<Rightarrow> string" where
  "remote_ip req = drop_mapped (coalesce (rq_remote req) ''127.0.0.1'')"

definition is_localhost :: "string \<Rightarrow> bool" where
  "is_localhost ip = (drop_mapped ip \<in> {''127.0.0.1'', ''::1'', ''localhost''})"

definition RELAY_HEADERS :: "string list" where
  "RELAY_HEADERS = [''x-forwarded-for'', ''x-forwarded-host'', ''forwarded'', ''x-real-ip'', ''cf-connecting-ip'',
     ''cf-ray'', ''tailscale-user-login'']"

definition relayed_request :: "request \<Rightarrow> bool" where
  "relayed_request req = list_ex (\<lambda>h. rq_headers req h \<noteq> None) RELAY_HEADERS"

text \<open>Node never hands \<open>authorization\<close> over as several values.\<close>

definition extract_bearer :: "request \<Rightarrow> string option" where
  "extract_bearer req = (case header_first ''authorization'' req of
     Some a \<Rightarrow> (if starts_with a ''Bearer '' then Some (drop 7 a) else None)
   | None \<Rightarrow> None)"

definition extract_subprotocol :: "request \<Rightarrow> string option" where
  "extract_subprotocol req = map_option (drop 7) (find (\<lambda>p. starts_with p ''bearer.'')
     (map js_trim (split_on (CHR '','') (header_text ''sec-websocket-protocol'' req))))"

definition provided_token :: "request \<Rightarrow> string option" where
  "provided_token req = (case extract_bearer req of Some t \<Rightarrow> Some t
     | None \<Rightarrow> (if header_set ''sec-websocket-protocol'' req then extract_subprotocol req else None))"

definition same_origin_request :: "(string \<Rightarrow> url option) \<Rightarrow> request \<Rightarrow> bool" where
  "same_origin_request parse_url req = (if \<not> header_set ''origin'' req then True
     else case parse_url (header_text ''origin'' req) of None \<Rightarrow> False
     | Some u \<Rightarrow> ur_host u = header_text ''host'' req)"

section \<open>Identities\<close>

definition id_char :: "char \<Rightarrow> bool" where
  "id_char c = (is_alnum c \<or> c \<in> set ''._@+-'')"

definition normalize_id :: "string \<Rightarrow> string" where
  "normalize_id raw = map (\<lambda>c. if id_char (lower c) then lower c else dash) raw"

definition oidc_user_id :: "string \<Rightarrow> string" where
  "oidc_user_id identity = ''webchat:'' @ normalize_id identity"

definition tailscale_user_id :: "string \<Rightarrow> string" where
  "tailscale_user_id login = ''webchat:tailscale:'' @ normalize_id login"

definition canonicalize_user_id :: "string \<Rightarrow> string" where
  "canonicalize_user_id i =
     (let parts = split_on (CHR '':'') i in
      if hd parts \<noteq> ''webchat'' \<or> length parts < 2 then i
      else if parts ! 1 = ''tailscale'' then
        (let handle = join_with '':'' (drop 2 parts) in
         if handle \<noteq> [] then ''webchat:tailscale:'' @ normalize_id handle else i)
      else
        (let handle = join_with '':'' (drop 1 parts) in
         if handle \<noteq> [] then ''webchat:'' @ normalize_id handle else i))"

datatype auth_source = FromLocalhost | FromBearer | FromTailscale | FromProxy | FromOidc

record auth_result =
  ar_user :: string
  ar_name :: string
  ar_source :: auth_source
  ar_signed_in_as :: "string option"
  ar_via_session :: bool
  ar_stale_hint :: bool

datatype auth_outcome = SignedIn auth_result | Unauthorized | AuthRaised

datatype auth_event = SessionSeen string auth_source string | DeniedFrom string
  | TokenNotVerifiable string oidc_failure "rat option" nat

section \<open>State\<close>

record 'k auth_state =
  au_roles :: role_db
  au_settings :: settings_db
  au_signin :: signin_db
  au_jwks :: "'k jwks_cache"
  au_routing :: routing_cache
  au_whois :: "(string \<times> string option \<times> millis) list"
  au_recent :: "(string \<times> string \<times> millis) list"
  au_warned :: "((string \<times> oidc_failure) \<times> millis \<times> nat) list"
  au_seen :: "(string \<times> auth_source \<times> string) list"
  au_denied :: "(string \<times> millis) list"
  au_events :: "auth_event list"

record 'k auth_host =
  ho_env :: env
  ho_token :: string
  ho_serve_port :: "nat option"
  ho_crypto :: "'k crypto"
  ho_net :: jwks_net
  ho_hash :: "string \<Rightarrow> string"
  ho_url :: "string \<Rightarrow> url option"
  ho_runner :: runner
  ho_whois :: "string \<Rightarrow> jval option"
  ho_get_user :: "string \<Rightarrow> role_db \<Rightarrow> user_row option"
  ho_upsert :: "user_row \<Rightarrow> role_db \<Rightarrow> role_db option"
  ho_insert_ok :: "role_row \<Rightarrow> role_db \<Rightarrow> bool"

text \<open>A \<open>Map\<close> that is emptied before it would outgrow its bound.\<close>

definition map_put :: "'a \<Rightarrow> 'b \<Rightarrow> ('a \<times> 'b) list \<Rightarrow> ('a \<times> 'b) list" where
  "map_put k v m = (k, v) # filter (\<lambda>(x, _). x \<noteq> k) m"

definition map_drop :: "'a \<Rightarrow> ('a \<times> 'b) list \<Rightarrow> ('a \<times> 'b) list" where
  "map_drop k m = filter (\<lambda>(x, _). x \<noteq> k) m"

definition WHOIS_CACHE_MAX :: nat where "WHOIS_CACHE_MAX = 1000"

definition bounded :: "('a \<times> 'b) list \<Rightarrow> ('a \<times> 'b) list" where
  "bounded m = (if length m \<ge> WHOIS_CACHE_MAX then [] else m)"

section \<open>Which methods are on\<close>

definition get_bearer_token_disabled :: "settings_db \<Rightarrow> bool" where
  "get_bearer_token_disabled = settings_getter ''bearer_token_disabled'' decode_bool"

definition set_bearer_token_disabled :: "bool \<Rightarrow> millis \<Rightarrow> settings_db \<Rightarrow> settings_db option" where
  "set_bearer_token_disabled = settings_setter ''bearer_token_disabled'' bit"

definition get_promote_first :: "settings_db \<Rightarrow> bool" where
  "get_promote_first = settings_getter ''promote_first_tailscale_owner'' decode_bool"

definition set_promote_first :: "bool \<Rightarrow> millis \<Rightarrow> settings_db \<Rightarrow> settings_db option" where
  "set_promote_first = settings_setter ''promote_first_tailscale_owner'' bit"

definition bearer_active :: "'k auth_host \<Rightarrow> settings_db \<Rightarrow> bool" where
  "bearer_active h sdb = (ho_token h \<noteq> [] \<and> \<not> get_bearer_token_disabled sdb)"

definition has_explicit_auth :: "'k auth_host \<Rightarrow> settings_db \<Rightarrow> bool" where
  "has_explicit_auth h sdb = (bearer_active h sdb \<or> tailscale_enabled (ho_env h)
     \<or> proxy_enabled (ho_env h) \<or> oc_enabled (oidc_cfg (ho_env h)))"

definition DEFAULT_PORT :: nat where "DEFAULT_PORT = 3100"

definition main_port :: "env \<Rightarrow> nat option" where
  "main_port env = (if truthy (env ''WEBCHAT_PORT'') then read_port (the (env ''WEBCHAT_PORT'')) else Some DEFAULT_PORT)"

section \<open>The account an identity signs in as\<close>

definition USER_WRITE_TTL_MS :: int where "USER_WRITE_TTL_MS = 60000"

text \<open>A linked identity authenticates as its account, whatever its own row says.\<close>

definition linked_account :: "auth_source \<Rightarrow> string \<Rightarrow> signin_db \<Rightarrow> string option" where
  "linked_account src u db = (if src = FromBearer \<or> src = FromLocalhost then None
     else (let a = resolve_linked True u db in if a \<noteq> u then Some a else None))"

definition shown_name :: "'k auth_host \<Rightarrow> auth_source \<Rightarrow> string \<Rightarrow> string \<Rightarrow> role_db \<Rightarrow> string" where
  "shown_name h src u name rdb = (if src \<noteq> FromProxy then name
     else case ho_get_user h u rdb of None \<Rightarrow> name
     | Some r \<Rightarrow> (if truthy (u_display r) \<and> normalize_id (the (u_display r)) \<noteq> normalize_id name
         then the (u_display r) else name))"

text \<open>The row is written when its name changed or a minute went by; a write that raises is forgotten.\<close>

definition record_user :: "'k auth_host \<Rightarrow> string \<Rightarrow> string \<Rightarrow> millis \<Rightarrow> 'k auth_state \<Rightarrow> 'k auth_state" where
  "record_user h u name now st =
     (let written = (case map_of (au_recent st) u of None \<Rightarrow> False
            | Some (n, t) \<Rightarrow> n = name \<and> now - t < USER_WRITE_TTL_MS)
      in if written then st
         else (let recent = map_put u (name, now) (bounded (au_recent st)) in
           case ho_upsert h \<lparr>u_id = u, u_kind = ''webchat'',
               u_display = (if name = [] then None else Some name), u_created = now\<rparr> (au_roles st) of
             Some r \<Rightarrow> st\<lparr>au_recent := recent, au_roles := r\<rparr>
           | None \<Rightarrow> st\<lparr>au_recent := map_drop u recent\<rparr>))"

definition ensure_owner :: "'k auth_host \<Rightarrow> string \<Rightarrow> millis \<Rightarrow> 'k auth_state \<Rightarrow> 'k auth_state" where
  "ensure_owner h u now st =
     st\<lparr>au_roles := ensure_owner_role_on_first_login (ho_insert_ok h) u now (au_roles st)\<rparr>"

text \<open>The one-shot promotion of the first tailnet identity; its flag, once read as set, can be written.\<close>

definition promote_first :: "'k auth_host \<Rightarrow> string \<Rightarrow> millis \<Rightarrow> 'k auth_state \<Rightarrow> 'k auth_state" where
  "promote_first h u now st =
     (if \<not> get_promote_first (au_settings st) then st
      else case grant_owner_role (ho_insert_ok h) u (Some ''webchat:first-tailscale-owner'') now (au_roles st) of
        (granted, r) \<Rightarrow> (if granted \<or> is_owner u r
          then st\<lparr>au_roles := r, au_settings := coalesce (set_promote_first False now (au_settings st)) (au_settings st)\<rparr>
          else st\<lparr>au_roles := r\<rparr>))"

definition finalize ::
  "'k auth_host \<Rightarrow> auth_source \<Rightarrow> string \<Rightarrow> string \<Rightarrow> millis \<Rightarrow> 'k auth_state \<Rightarrow> auth_result \<times> 'k auth_state" where
  "finalize h src u name now st =
     (let res = \<lparr>ar_user = u, ar_name = name, ar_source = src, ar_signed_in_as = None,
            ar_via_session = False, ar_stale_hint = False\<rparr>
      in case linked_account src u (au_signin st) of
           Some a \<Rightarrow> (res\<lparr>ar_user := a, ar_signed_in_as := Some u\<rparr>, ensure_owner h a now st)
         | None \<Rightarrow>
            (let rows = (users (au_roles st) \<noteq> None);
                 shown = (if rows then shown_name h src u name (au_roles st) else name);
                 st1 = (if rows then record_user h u shown now st else st);
                 st2 = ensure_owner h u now st1;
                 st3 = (if src = FromTailscale then promote_first h u now st2 else st2)
             in (res\<lparr>ar_name := shown\<rparr>, st3)))"

end
