(* ===== verification/Authenticate.thy ===== *)
theory Authenticate
  imports RequestAuth
begin

text \<open>
  The sign-in methods in the order \<open>channels/webchat/auth.ts\<close> tries them. A method answers with an outcome
  or passes the request on; an expired token that was passed over marks what signs the request in instead.
\<close>

section \<open>Tokens that do not verify\<close>

definition OIDC_WARN_WINDOW_MS :: int where "OIDC_WARN_WINDOW_MS = 60000"

definition warn_fall_through ::
  "string \<Rightarrow> oidc_failure \<Rightarrow> rat option \<Rightarrow> millis \<Rightarrow> 'k auth_state \<Rightarrow> 'k auth_state" where
  "warn_fall_through ip r secs now st =
     (let prev = map_of (au_warned st) (ip, r) in
      case prev of
        Some (t, n) \<Rightarrow>
          (if now - t < OIDC_WARN_WINDOW_MS then st\<lparr>au_warned := map_put (ip, r) (t, Suc n) (au_warned st)\<rparr>
           else st\<lparr>au_warned := map_put (ip, r) (now, 0) (if length (au_warned st) > 1000 then [] else au_warned st),
                   au_events := au_events st @ [TokenNotVerifiable ip r secs n]\<rparr>)
      | None \<Rightarrow> st\<lparr>au_warned := map_put (ip, r) (now, 0) (if length (au_warned st) > 1000 then [] else au_warned st),
                   au_events := au_events st @ [TokenNotVerifiable ip r secs 0]\<rparr>)"

section \<open>The trusted proxy\<close>

definition PLATFORM_HEADERS :: "(string \<times> string) list" where
  "PLATFORM_HEADERS = [(''x-ms-client-principal-name'', ''x-ms-client-principal''),
     (''cf-access-authenticated-user-email'', ''cf-access-jwt-assertion'')]"

definition full_header :: "string \<Rightarrow> request \<Rightarrow> string option" where
  "full_header h req = (case header_first h req of Some s \<Rightarrow> if s \<noteq> [] then Some s else None | None \<Rightarrow> None)"

definition platform_identity :: "request \<Rightarrow> string option" where
  "platform_identity req = (case List.map_filter (\<lambda>(i, p). if header_set i req \<and> header_set p req
      then full_header i req else None) PLATFORM_HEADERS of [] \<Rightarrow> None | u # _ \<Rightarrow> Some u)"

definition proxy_gate :: "'k auth_host \<Rightarrow> string \<Rightarrow> bool" where
  "proxy_gate h ip = (let cfg = proxy_cfg (ho_env h) in px_raw cfg \<noteq> []
     \<and> (px_any cfg \<or> (px_entries cfg \<noteq> [] \<and> is_trusted_proxy_ip (drop_mapped ip) (px_entries cfg))))"

text \<open>The verified assertion's email, when the header names the same person.\<close>

definition verify_cf_access ::
  "'k auth_host \<Rightarrow> string \<Rightarrow> string \<Rightarrow> string \<Rightarrow> millis \<Rightarrow> 'k auth_state
     \<Rightarrow> string option token_result \<times> millis \<times> 'k auth_state" where
  "verify_cf_access h assertion email ip now st =
     (case verify_jwt (ho_crypto h) (ho_net h) assertion (snd (cf_access_cfg (ho_env h))) now (au_jwks st) of
        (Raises, t, c) \<Rightarrow> (Raises, t, st\<lparr>au_jwks := c\<rparr>)
      | (Refused r s, t, c) \<Rightarrow> (Accepted None, t, warn_fall_through ip r s t (st\<lparr>au_jwks := c\<rparr>))
      | (Accepted claims, t, c) \<Rightarrow>
          (let e = jtext (jfield ''email'' claims) in
           (Accepted (if e = [] \<or> map lower e \<noteq> map lower email then None else Some e), t, st\<lparr>au_jwks := c\<rparr>)))"

definition authenticate_trusted_proxy ::
  "'k auth_host \<Rightarrow> request \<Rightarrow> string \<Rightarrow> millis \<Rightarrow> 'k auth_state
     \<Rightarrow> string option token_result \<times> millis \<times> 'k auth_state" where
  "authenticate_trusted_proxy h req ip now st =
     (if \<not> proxy_gate h ip then (Accepted None, now, st)
      else if fst (cf_access_cfg (ho_env h)) then
        (case (full_header ''cf-access-authenticated-user-email'' req, full_header ''cf-access-jwt-assertion'' req) of
           (Some user, Some assertion) \<Rightarrow> verify_cf_access h assertion user (drop_mapped ip) now st
         | _ \<Rightarrow> (Accepted None, now, st))
      else case platform_identity req of
        Some u \<Rightarrow> (Accepted (Some u), now, st)
      | None \<Rightarrow> (Accepted (full_header (px_header (proxy_cfg (ho_env h))) req), now, st))"

section \<open>Tailscale\<close>

definition header_login :: "request \<Rightarrow> string option" where
  "header_login req = (case header_first ''tailscale-user-login'' req of
     None \<Rightarrow> None | Some s \<Rightarrow> (if js_trim s \<noteq> [] then Some (js_trim s) else None))"

definition tailscale_serve_identity :: "request \<Rightarrow> string \<Rightarrow> string list \<Rightarrow> string option" where
  "tailscale_serve_identity req ip hosts =
     (let t = map lower (header_text ''host'' req);
          host = (if ends_with t '':443'' then take (length t - 4) t else t)
      in if \<not> is_localhost ip then None
         else if host = [] \<or> host \<notin> set hosts then None
         else header_login req)"

definition serve_login_of ::
  "'k auth_host \<Rightarrow> request \<Rightarrow> string \<Rightarrow> millis \<Rightarrow> 'k auth_state \<Rightarrow> string option \<times> 'k auth_state" where
  "serve_login_of h req ip now st =
     (if \<not> is_localhost ip then (None, st)
      else if rq_serve req then (header_login req, st)
      else if \<not> header_set ''tailscale-user-login'' req then (None, st)
      else case serve_routing_for (ho_url h) (ho_runner h) (main_port (ho_env h)) (ho_serve_port h) now (au_routing st) of
        (routing, cache) \<Rightarrow>
          ((if sr_dedicated routing then None else tailscale_serve_identity req ip (sr_legacy routing)),
           st\<lparr>au_routing := cache\<rparr>))"

definition run_whois :: "(string \<Rightarrow> jval option) \<Rightarrow> string \<Rightarrow> string option" where
  "run_whois whois ip =
     (let d = whois ip;
          login = jtext (inner ''LoginName'' (inner ''UserProfile'' d));
          name = jtext (inner ''Hostname'' (inner ''Hostinfo'' (inner ''Node'' d)))
      in if login \<noteq> [] then Some login else if name \<noteq> [] then Some name else None)"

definition WHOIS_TTL_MS :: int where "WHOIS_TTL_MS = 30000"
definition WHOIS_MISS_TTL_MS :: int where "WHOIS_MISS_TTL_MS = 10000"

definition tailscale_whois ::
  "'k auth_host \<Rightarrow> string \<Rightarrow> millis \<Rightarrow> 'k auth_state \<Rightarrow> string option \<times> 'k auth_state" where
  "tailscale_whois h ip now st =
     (let clean = drop_mapped ip;
          asked = (let login = run_whois (ho_whois h) clean in
            (login, st\<lparr>au_whois := map_put clean (login, now) (bounded (au_whois st))\<rparr>))
      in case map_of (au_whois st) clean of
           None \<Rightarrow> asked
         | Some (login, t) \<Rightarrow>
            (if now - t < (if login \<noteq> None then WHOIS_TTL_MS else WHOIS_MISS_TTL_MS) then (login, st) else asked))"

section \<open>Each method\<close>

datatype step_outcome = Settled auth_outcome | Pass bool \<comment> \<open>whether an expired token was passed over\<close>

definition with_hint :: "bool \<Rightarrow> auth_result \<Rightarrow> auth_outcome" where
  "with_hint stale r = SignedIn (if stale then r\<lparr>ar_stale_hint := True\<rparr> else r)"

definition try_bearer ::
  "'k auth_host \<Rightarrow> request \<Rightarrow> millis \<Rightarrow> 'k auth_state \<Rightarrow> step_outcome \<times> millis \<times> 'k auth_state" where
  "try_bearer h req now st =
     (if bearer_active h (au_settings st) \<and> truthy (provided_token req) \<and> provided_token req = Some (ho_token h)
      then (case finalize h FromBearer ''webchat:owner'' ''operator'' now st of (r, s) \<Rightarrow> (Settled (SignedIn r), now, s))
      else (Pass False, now, st))"

definition presented_token :: "request \<Rightarrow> string option" where
  "presented_token req = (case provided_token req of
     Some t \<Rightarrow> (if jwt_parts t \<noteq> None then Some t else full_header ''x-ms-token-aad-id-token'' req)
   | None \<Rightarrow> full_header ''x-ms-token-aad-id-token'' req)"

definition try_oidc ::
  "'k auth_host \<Rightarrow> request \<Rightarrow> millis \<Rightarrow> 'k auth_state \<Rightarrow> step_outcome \<times> millis \<times> 'k auth_state" where
  "try_oidc h req now st =
     (if \<not> oc_enabled (oidc_cfg (ho_env h)) then (Pass False, now, st)
      else case presented_token req of
        None \<Rightarrow> (Pass False, now, st)
      | Some token \<Rightarrow>
         (case verify_oidc_token (ho_crypto h) (ho_net h) token None (ho_env h) now (au_jwks st) of
            (Raises, t, c) \<Rightarrow> (Settled AuthRaised, t, st\<lparr>au_jwks := c\<rparr>)
          | (Refused r s, t, c) \<Rightarrow>
              (Pass (r = TokenExpired), t, warn_fall_through (remote_ip req) r s t (st\<lparr>au_jwks := c\<rparr>))
          | (Accepted i, t, c) \<Rightarrow>
              (case finalize h FromOidc (oidc_user_id (oi_identity i)) (oi_name i) t (st\<lparr>au_jwks := c\<rparr>) of
                 (r, s) \<Rightarrow> (Settled (SignedIn r), t, s))))"

definition try_session ::
  "'k auth_host \<Rightarrow> request \<Rightarrow> bool \<Rightarrow> millis \<Rightarrow> 'k auth_state \<Rightarrow> step_outcome \<times> millis \<times> 'k auth_state" where
  "try_session h req stale now st =
     (case (if oc_enabled (oidc_cfg (ho_env h)) then session_token_from_cookie (rq_headers req ''cookie'') else None) of
        None \<Rightarrow> (Pass stale, now, st)
      | Some token \<Rightarrow>
         (if header_set ''upgrade'' req \<and> \<not> same_origin_request (ho_url h) req then (Pass stale, now, st)
          else case lookup_session (ho_hash h) token now (au_signin st) of
            (None, sg) \<Rightarrow> (Pass stale, now, st\<lparr>au_signin := sg\<rparr>)
          | (Some sn, sg) \<Rightarrow>
             (case finalize h FromOidc (sn_user sn) (sn_name sn) now (st\<lparr>au_signin := sg\<rparr>) of
                (r, s) \<Rightarrow> (Settled (with_hint stale (r\<lparr>ar_via_session := True\<rparr>)), now, s))))"

definition try_proxy ::
  "'k auth_host \<Rightarrow> request \<Rightarrow> bool \<Rightarrow> millis \<Rightarrow> 'k auth_state \<Rightarrow> step_outcome \<times> millis \<times> 'k auth_state" where
  "try_proxy h req stale now st =
     (case authenticate_trusted_proxy h req (remote_ip req) now st of
        (Accepted (Some u), t, s) \<Rightarrow>
          (case finalize h FromProxy (oidc_user_id u) u t s of (r, s') \<Rightarrow> (Settled (with_hint stale r), t, s'))
      | (Accepted None, t, s) \<Rightarrow> (Pass stale, t, s)
      | (_, t, s) \<Rightarrow> (Settled AuthRaised, t, s))"

definition try_tailscale ::
  "'k auth_host \<Rightarrow> request \<Rightarrow> bool \<Rightarrow> millis \<Rightarrow> 'k auth_state \<Rightarrow> step_outcome \<times> millis \<times> 'k auth_state" where
  "try_tailscale h req stale now st =
     (if \<not> tailscale_enabled (ho_env h) then (Pass stale, now, st)
      else case serve_login_of h req (remote_ip req) now st of
        (Some login, s) \<Rightarrow> (case finalize h FromTailscale (tailscale_user_id login) login now s of
           (r, s') \<Rightarrow> (Settled (with_hint stale r), now, s'))
      | (None, s) \<Rightarrow>
         (case tailscale_whois h (remote_ip req) now s of
            (Some login, s1) \<Rightarrow> (case finalize h FromTailscale (tailscale_user_id login) login now s1 of
               (r, s') \<Rightarrow> (Settled (SignedIn r), now, s'))
          | (None, s1) \<Rightarrow> (Pass stale, now, s1)))"

definition local_user :: "env \<Rightarrow> string" where
  "local_user env = or_else (coalesce (env ''USER'') []) (or_else (coalesce (env ''USERNAME'') []) ''user'')"

definition try_localhost ::
  "'k auth_host \<Rightarrow> request \<Rightarrow> millis \<Rightarrow> 'k auth_state \<Rightarrow> auth_outcome \<times> millis \<times> 'k auth_state" where
  "try_localhost h req now st =
     (if is_localhost (remote_ip req) \<and> \<not> rq_serve req \<and> \<not> relayed_request req
         \<and> \<not> has_explicit_auth h (au_settings st)
      then (case finalize h FromLocalhost ''webchat:local-owner'' (local_user (ho_env h)) now st of
         (r, s) \<Rightarrow> (SignedIn r, now, s))
      else (Unauthorized, now, st))"

section \<open>A request\<close>

definition and_then ::
  "step_outcome \<times> millis \<times> 'k auth_state \<Rightarrow> (bool \<Rightarrow> millis \<Rightarrow> 'k auth_state \<Rightarrow> step_outcome \<times> millis \<times> 'k auth_state)
     \<Rightarrow> step_outcome \<times> millis \<times> 'k auth_state" where
  "and_then x f = (case x of (Settled r, t, s) \<Rightarrow> (Settled r, t, s) | (Pass stale, t, s) \<Rightarrow> f stale t s)"

definition authenticate ::
  "'k auth_host \<Rightarrow> request \<Rightarrow> millis \<Rightarrow> 'k auth_state \<Rightarrow> auth_outcome \<times> millis \<times> 'k auth_state" where
  "authenticate h req now st =
     (case and_then (and_then (and_then (and_then (try_bearer h req now st) (\<lambda>_. try_oidc h req))
        (try_session h req)) (try_proxy h req)) (try_tailscale h req) of
        (Settled r, t, s) \<Rightarrow> (r, t, s)
      | (Pass _, t, s) \<Rightarrow> try_localhost h req t s)"

definition authenticate_request ::
  "'k auth_host \<Rightarrow> request \<Rightarrow> millis \<Rightarrow> 'k auth_state \<Rightarrow> auth_outcome \<times> millis \<times> 'k auth_state" where
  "authenticate_request h req now st = (case authenticate h req now st of
     (SignedIn r, t, s) \<Rightarrow>
       (let k = (ar_user r, ar_source r, remote_ip req) in
        (SignedIn r, t, if k \<in> set (au_seen s) then s
           else s\<lparr>au_seen := k # au_seen s, au_events := au_events s @ [SessionSeen (ar_user r) (ar_source r) (remote_ip req)]\<rparr>))
   | (Unauthorized, t, s) \<Rightarrow>
       (Unauthorized, t, if t - coalesce (map_of (au_denied s) (remote_ip req)) 0 > 60000
          then s\<lparr>au_denied := map_put (remote_ip req) t (au_denied s), au_events := au_events s @ [DeniedFrom (remote_ip req)]\<rparr>
          else s)
   | (AuthRaised, t, s) \<Rightarrow> (AuthRaised, t, s))"

definition tailscale_identity_of ::
  "'k auth_host \<Rightarrow> request \<Rightarrow> millis \<Rightarrow> 'k auth_state \<Rightarrow> (string \<times> string) option \<times> 'k auth_state" where
  "tailscale_identity_of h req now st =
     (if \<not> tailscale_enabled (ho_env h) then (None, st)
      else case serve_login_of h req (remote_ip req) now st of
        (Some l, s) \<Rightarrow> (Some (tailscale_user_id l, l), s)
      | (None, s) \<Rightarrow> (case tailscale_whois h (remote_ip req) now s of
          (Some l, s1) \<Rightarrow> (Some (tailscale_user_id l, l), s1) | (None, s1) \<Rightarrow> (None, s1)))"

definition strip_port :: "string \<Rightarrow> string" where
  "strip_port s = (let ds = takeWhile is_digit (rev s); r = drop (length ds) (rev s) in
     if ds \<noteq> [] \<and> r \<noteq> [] \<and> hd r = CHR '':'' then rev (tl r) else s)"

text \<open>\<open>None\<close> when authenticating raises.\<close>

definition loopback_visitor_without_sign_in ::
  "'k auth_host \<Rightarrow> request \<Rightarrow> millis \<Rightarrow> 'k auth_state \<Rightarrow> bool option \<times> 'k auth_state" where
  "loopback_visitor_without_sign_in h req now st =
     (if \<not> tailscale_enabled (ho_env h) then (Some False, st)
      else if \<not> is_localhost (drop_mapped (coalesce (rq_remote req) [])) then (Some False, st)
      else if map lower (strip_port (header_text ''host'' req)) \<notin> {''localhost'', ''127.0.0.1'', ''[::1]''} then (Some False, st)
      else if header_set ''tailscale-user-login'' req then (Some False, st)
      else case authenticate h req now st of
        (SignedIn _, _, s) \<Rightarrow> (Some False, s) | (Unauthorized, _, s) \<Rightarrow> (Some True, s) | (AuthRaised, _, s) \<Rightarrow> (None, s))"

end
