(* ===== verification/SignInSettings.thy ===== *)
theory SignInSettings
  imports SignInConfig TextRules
begin

text \<open>
  Editing the sign-in methods (\<open>signin-settings.ts\<close>): the file the settings are kept in
  (\<open>env-write.ts\<close>, read at start by \<open>env-load.ts\<close>), what an administrator may type, the provider's
  discovery document, and the writes that follow. Error texts are the constructors of the two error
  types.
\<close>

section \<open>The environment file\<close>

definition line_feed :: char where "line_feed = CHR 0x0A"

text \<open>The process's environment and the text of its file, if there is one.\<close>

record env_install =
  in_env :: env
  in_file :: "string option"

definition without_key :: "string \<Rightarrow> string \<Rightarrow> string" where
  "without_key k raw = join_with [line_feed]
     (filter (\<lambda>l. \<not> starts_with l (k @ ''='')) (split_on line_feed raw))"

definition upsert_env :: "string \<Rightarrow> string \<Rightarrow> string option \<Rightarrow> string option" where
  "upsert_env k v f =
     (let safe = filter (\<lambda>c. code c \<noteq> 10 \<and> code c \<noteq> 13) v;
          raw = without_key k (coalesce f []);
          raw' = (if raw \<noteq> [] \<and> last raw \<noteq> line_feed then raw @ [line_feed] else raw)
      in Some (raw' @ k @ ''='' @ safe @ [line_feed]))"

definition remove_env :: "string \<Rightarrow> string option \<Rightarrow> string option" where
  "remove_env k f = map_option (without_key k) f"

definition put_env :: "string \<Rightarrow> string \<Rightarrow> env_install \<Rightarrow> env_install" where
  "put_env k v i = i\<lparr>in_file := upsert_env k v (in_file i), in_env := (in_env i)(k \<mapsto> v)\<rparr>"

definition drop_env :: "string \<Rightarrow> env_install \<Rightarrow> env_install" where
  "drop_env k i = i\<lparr>in_file := remove_env k (in_file i), in_env := (in_env i)(k := None)\<rparr>"

definition WEBCHAT_ENV_KEYS :: "string list" where
  "WEBCHAT_ENV_KEYS = [''WEBCHAT_ENABLED'', ''WEBCHAT_HOST'', ''WEBCHAT_PORT'', ''WEBCHAT_TOKEN'',
     ''WEBCHAT_TAILSCALE'', ''WEBCHAT_TRUSTED_PROXY_IPS'', ''WEBCHAT_TRUSTED_PROXY_HEADER'',
     ''WEBCHAT_OIDC_ISSUER'', ''WEBCHAT_OIDC_AUDIENCE'', ''WEBCHAT_OIDC_JWKS_URI'',
     ''WEBCHAT_OIDC_CLIENT_SECRET'', ''WEBCHAT_OIDC_LOGIN'', ''WEBCHAT_OIDC_PROVIDER'', ''WEBCHAT_OIDC_NAME'',
     ''WEBCHAT_OIDC_AUTHORIZE_URL'', ''WEBCHAT_OIDC_TOKEN_URL'', ''WEBCHAT_OIDC_TOKEN_AUTH'',
     ''WEBCHAT_PUBLIC_URL'', ''WEBCHAT_ALLOWED_HOSTS'', ''WEBCHAT_TLS_CERT'', ''WEBCHAT_TLS_KEY'',
     ''WEBCHAT_PUBLIC_DIR'', ''WEBCHAT_RUNNER_ENABLED'', ''WEBCHAT_RUNNER_AUTO_GROUP'',
     ''WEBCHAT_RUNNER_ORIGINS'', ''WEBCHAT_EXEC_RELAY'', ''WEBCHAT_VAPID_PUBLIC_KEY'',
     ''WEBCHAT_VAPID_PRIVATE_KEY'', ''WEBCHAT_VAPID_SUBJECT'', ''WEBCHAT_DRAFTER_MODEL'',
     ''WEBCHAT_BLOCK_PRIVATE_IPS'', ''WEBCHAT_TTS_ENABLED'', ''WEBCHAT_TTS_ENDPOINT'', ''WEBCHAT_TTS_MODEL'',
     ''WEBCHAT_TTS_VOICE'', ''WEBCHAT_STT_ENABLED'', ''WEBCHAT_STT_PROVIDER'', ''WEBCHAT_STT_URL'',
     ''WEBCHAT_STT_MODEL'', ''WEBCHAT_STT_LANG'', ''WEBCHAT_STT_API_KEY'', ''OLLAMA_HOST'',
     ''AGENT_DISPLAY_NAME'', ''NANOCLAW_CHANNELS_REMOTE_URL'', ''NANOCLAW_AUDIT_KEEP_DAYS'',
     ''NANOCLAW_AUDIT_MAX_MB'']"

text \<open>The host's reader of the file answers with the keys it found, of those asked for.\<close>

definition load_env ::
  "(string list \<Rightarrow> string option \<Rightarrow> (string \<times> string) list) \<Rightarrow> env_install \<Rightarrow> env_install" where
  "load_env read_env_file i = i\<lparr>in_env := fold (\<lambda>(k, v) e. if e k = None then e(k \<mapsto> v) else e)
     (read_env_file WEBCHAT_ENV_KEYS (in_file i)) (in_env i)\<rparr>"

section \<open>Tailscale and the proxy\<close>

definition apply_tailscale :: "bool \<Rightarrow> env_install \<Rightarrow> env_install" where
  "apply_tailscale enabled = (if enabled then put_env ''WEBCHAT_TAILSCALE'' ''true''
     else drop_env ''WEBCHAT_TAILSCALE'')"

record proxy_view =
  pv_enabled :: bool
  pv_ips :: string
  pv_auto :: bool
  pv_header :: string

definition read_proxy :: "env \<Rightarrow> proxy_view" where
  "read_proxy env =
     (let raw = env_var ''WEBCHAT_TRUSTED_PROXY_IPS'' env;
          auto = (raw = ''auto'' \<or> raw = ''*'')
      in \<lparr>pv_enabled = (raw \<noteq> []), pv_ips = (if auto then [] else raw), pv_auto = auto,
          pv_header = map lower (env_or DEFAULT_PROXY_HEADER ''WEBCHAT_TRUSTED_PROXY_HEADER'' env)\<rparr>)"

datatype proxy_error = NoProxyAddress | AnyProxyAddress | TooManyAddresses | NotAnAddress string | BadHeaderName

text \<open>\<open>split(/[\s,]+/)\<close> without its empty pieces.\<close>

definition address_list :: "string \<Rightarrow> string list" where
  "address_list s = filter (\<lambda>e. e \<noteq> [])
     (split_on (CHR '','') (map (\<lambda>c. if js_space c then CHR '','' else c) s))"

definition header_name :: "string \<Rightarrow> bool" where
  "header_name h = (h \<noteq> [] \<and> length h \<le> 64 \<and> is_alnum (hd h) \<and> list_all (\<lambda>c. is_alnum c \<or> c = CHR ''-'') h)"

definition validate_proxy_input :: "jval \<Rightarrow> proxy_error + string \<times> string" where
  "validate_proxy_input input =
     (let entries = address_list (jtext (jfield ''ips'' input));
          header = or_else (map lower (js_trim (jtext (jfield ''header'' input)))) DEFAULT_PROXY_HEADER
      in if entries = [] then Inl NoProxyAddress
         else if list_ex (\<lambda>e. e = ''auto'' \<or> e = ''*'') entries then Inl AnyProxyAddress
         else if length entries > 50 then Inl TooManyAddresses
         else (case find (\<lambda>e. parse_proxy_entry e = None) entries of
            Some e \<Rightarrow> Inl (NotAnAddress e)
          | None \<Rightarrow> (if \<not> header_name header then Inl BadHeaderName
              else Inr (join_with '','' entries, header))))"

definition apply_proxy :: "string \<times> string \<Rightarrow> env_install \<Rightarrow> env_install" where
  "apply_proxy v i = (let i1 = put_env ''WEBCHAT_TRUSTED_PROXY_IPS'' (fst v) i in
     if snd v = DEFAULT_PROXY_HEADER then drop_env ''WEBCHAT_TRUSTED_PROXY_HEADER'' i1
     else put_env ''WEBCHAT_TRUSTED_PROXY_HEADER'' (snd v) i1)"

definition clear_proxy :: "env_install \<Rightarrow> env_install" where
  "clear_proxy i = drop_env ''WEBCHAT_TRUSTED_PROXY_HEADER'' (drop_env ''WEBCHAT_TRUSTED_PROXY_IPS'' i)"

section \<open>OpenID Connect\<close>

definition OIDC_KEYS :: "string list" where
  "OIDC_KEYS = [''WEBCHAT_OIDC_PROVIDER'', ''WEBCHAT_OIDC_NAME'', ''WEBCHAT_OIDC_ISSUER'', ''WEBCHAT_OIDC_AUDIENCE'',
     ''WEBCHAT_OIDC_JWKS_URI'', ''WEBCHAT_OIDC_AUTHORIZE_URL'', ''WEBCHAT_OIDC_TOKEN_URL'',
     ''WEBCHAT_OIDC_TOKEN_AUTH'', ''WEBCHAT_OIDC_CLIENT_SECRET'', ''WEBCHAT_OIDC_LOGIN'']"

record oidc_view =
  ov_enabled :: bool
  ov_provider :: oidc_provider
  ov_tenant :: string
  ov_issuer :: string
  ov_name :: string
  ov_client :: string
  ov_secret_set :: bool

definition read_oidc :: "env \<Rightarrow> oidc_view" where
  "read_oidc env = (let c = oidc_cfg env in
     \<lparr>ov_enabled = oc_enabled c, ov_provider = oc_provider c,
      ov_tenant = coalesce (ms_tenant (ti_issuer (oc_tokens c))) [], ov_issuer = ti_issuer (oc_tokens c),
      ov_name = (if oc_provider c = OtherProvider then env_var ''WEBCHAT_OIDC_NAME'' env else []),
      ov_client = ti_audience (oc_tokens c),
      ov_secret_set = (env_var ''WEBCHAT_OIDC_CLIENT_SECRET'' env \<noteq> [])\<rparr>)"

datatype oidc_error = ChooseProvider | TenantRequired | SharedTenant string | BadTenant | BadClientId
  | IssuerNotHttps | BadName | ClientRequired | BadSecret
  | ProviderUnreachable | NoConfiguration oidc_provider | ProviderStatus nat | NotSingleTenant | KeysElsewhere
  | DifferentIssuer string | EndpointNotHttps string | NoUsableAlgorithm | DocumentRaised

definition https_url :: "(string \<Rightarrow> url option) \<Rightarrow> string \<Rightarrow> bool" where
  "https_url parse_url raw = (case parse_url raw of None \<Rightarrow> False
     | Some u \<Rightarrow> ur_protocol u = ''https:'' \<and> ur_username u = [] \<and> ur_password u = []
         \<and> ur_search u = [] \<and> ur_hash u = [])"

definition https_endpoint :: "(string \<Rightarrow> url option) \<Rightarrow> string \<Rightarrow> bool" where
  "https_endpoint parse_url raw = (case parse_url raw of None \<Rightarrow> False
     | Some u \<Rightarrow> ur_protocol u = ''https:'' \<and> ur_username u = [] \<and> ur_password u = [] \<and> ur_hash u = [])"

definition guid :: "string \<Rightarrow> bool" where
  "guid s = (let ps = split_on (CHR ''-'') s in map length ps = [8, 4, 4, 4, 12] \<and> list_all (list_all is_hex) ps)"

definition domain_label :: "string \<Rightarrow> bool" where
  "domain_label l = (l \<noteq> [] \<and> length l \<le> 63 \<and> list_all (\<lambda>c. is_letter c \<or> is_digit c \<or> c = CHR ''-'') l
     \<and> hd l \<noteq> CHR ''-'' \<and> last l \<noteq> CHR ''-'')"

definition domain_name :: "string \<Rightarrow> bool" where
  "domain_name s = (let ps = split_on (CHR ''.'') s in
     4 \<le> length s \<and> length s \<le> 253 \<and> 2 \<le> length ps \<and> list_all domain_label (butlast ps)
     \<and> 2 \<le> length (last ps) \<and> length (last ps) \<le> 63 \<and> list_all is_letter (last ps))"

definition SHARED_TENANTS :: "string list" where
  "SHARED_TENANTS = [''common'', ''organizations'', ''consumers'']"

record valid_oidc =
  vo_provider :: oidc_provider
  vo_where :: string
  vo_name :: string
  vo_client :: string
  vo_secret :: "string option"
  vo_clear :: bool

text \<open>Microsoft: the tenant. Any other: the issuer, with the name of its button.\<close>

definition oidc_where :: "(string \<Rightarrow> url option) \<Rightarrow> jval \<Rightarrow> oidc_error + oidc_provider \<times> string \<times> string" where
  "oidc_where parse_url input =
     (let client = js_trim (jtext (jfield ''clientId'' input)) in
      if jfield ''provider'' input = Some (VStr ''microsoft'') then
        (let tenant = map lower (js_trim (jtext (jfield ''tenant'' input))) in
         if tenant = [] then Inl TenantRequired
         else if tenant \<in> set SHARED_TENANTS then Inl (SharedTenant tenant)
         else if \<not> guid tenant \<and> \<not> domain_name tenant then Inl BadTenant
         else if \<not> guid client then Inl BadClientId
         else Inr (Microsoft, tenant, []))
      else if jfield ''provider'' input = Some (VStr ''other'') then
        (let raw = js_trim (jtext (jfield ''issuer'' input));
             name = js_trim (jtext (jfield ''name'' input))
         in if \<not> https_url parse_url raw then Inl IssuerNotHttps
            else if length name > 40 \<or> list_ex (\<lambda>c. control_char c \<or> c = CHR ''<'' \<or> c = CHR ''>'') name then Inl BadName
            else if client = [] \<or> length client > 256 \<or> list_ex js_space client then Inl ClientRequired
            else Inr (OtherProvider, raw, name))
      else Inl ChooseProvider)"

definition validate_oidc_input :: "(string \<Rightarrow> url option) \<Rightarrow> jval \<Rightarrow> oidc_error + valid_oidc" where
  "validate_oidc_input parse_url input = (case oidc_where parse_url input of
     Inl e \<Rightarrow> Inl e
   | Inr (provider, place, name) \<Rightarrow>
      (let secret = js_trim (jtext (jfield ''clientSecret'' input)) in
       if secret \<noteq> [] \<and> (length secret > 1024 \<or> list_ex (\<lambda>c. code c = 10 \<or> code c = 13) secret) then Inl BadSecret
       else Inr \<lparr>vo_provider = provider, vo_where = place, vo_name = name,
           vo_client = js_trim (jtext (jfield ''clientId'' input)),
           vo_secret = (if secret \<noteq> [] then Some secret else None),
           vo_clear = (jfield ''clearSecret'' input = Some (VBool True))\<rparr>))"

section \<open>Discovery\<close>

record discovered =
  dc_tokens :: "string \<times> string" \<comment> \<open>the issuer and its keys\<close>
  dc_authorize :: string
  dc_token_url :: string
  dc_basic :: bool

text \<open>What came back: the status, and the document (an empty object when it is not JSON).\<close>

type_synonym fetched = "(nat \<times> jval) option"

definition hex_char :: "nat \<Rightarrow> char" where
  "hex_char n = (if n < 10 then char_of (48 + n) else char_of (55 + n))"

definition escape_byte :: "nat \<Rightarrow> string" where
  "escape_byte b = [percent, hex_char (b div 16), hex_char (b mod 16)]"

text \<open>\<open>encodeURIComponent\<close>: what is not kept is written byte by byte in UTF-8.\<close>

definition uri_kept :: "char \<Rightarrow> bool" where
  "uri_kept c = (is_letter c \<or> is_digit c \<or> c \<in> set ''-_.!~*()'' \<or> code c = 39)"

definition uri_component :: "string \<Rightarrow> string" where
  "uri_component s = concat (map (\<lambda>c. if uri_kept c then [c]
     else if code c < 128 then escape_byte (code c)
     else escape_byte (192 + code c div 64) @ escape_byte (128 + code c mod 64)) s)"

definition discovery_url :: "oidc_provider \<Rightarrow> string \<Rightarrow> string" where
  "discovery_url provider place =
     (if provider = Microsoft then MS_AUTHORITY @ ''/'' @ uri_component place @ ''/v2.0'' else strip_slashes place)
     @ ''/.well-known/openid-configuration''"

definition single_tenant_issuer :: "string \<Rightarrow> bool" where
  "single_tenant_issuer s = (let l = map lower s; p = MS_AUTHORITY @ ''/''; r = drop (length p) l in
     starts_with l p \<and> length r = 41 \<and> list_all (\<lambda>c. lower_hex c \<or> c = CHR ''-'') (take 36 r)
     \<and> drop 36 r = ''/v2.0'')"

definition array_of :: "jval option \<Rightarrow> jval list option" where
  "array_of v = (case v of Some (VArr xs) \<Rightarrow> Some xs | _ \<Rightarrow> None)"

definition issuer_refusal :: "oidc_provider \<Rightarrow> string \<Rightarrow> string \<Rightarrow> string \<Rightarrow> oidc_error option" where
  "issuer_refusal provider place issuer jwks =
     (if provider = Microsoft then
        (if \<not> single_tenant_issuer issuer then Some NotSingleTenant
         else if \<not> starts_with jwks (MS_AUTHORITY @ ''/'') then Some KeysElsewhere else None)
      else if issuer \<noteq> place \<and> issuer \<noteq> strip_slashes place
        then Some (DifferentIssuer (or_else (take 120 issuer) ''none'')) else None)"

definition read_discovery ::
  "(string \<Rightarrow> url option) \<Rightarrow> oidc_provider \<Rightarrow> string \<Rightarrow> jval \<Rightarrow> oidc_error + discovered" where
  "read_discovery parse_url provider place doc =
     (let str = (\<lambda>k. jtext (jfield k doc));
          issuer = str ''issuer''; jwks = str ''jwks_uri'';
          authorize = str ''authorization_endpoint''; token = str ''token_endpoint'';
          auth = array_of (jfield ''token_endpoint_auth_methods_supported'' doc)
      in if doc = VNull then Inl DocumentRaised
         else case issuer_refusal provider place issuer jwks of Some e \<Rightarrow> Inl e
         | None \<Rightarrow>
            (case find (\<lambda>(k, u). \<not> https_endpoint parse_url u) [(''jwks_uri'', jwks),
                (''authorization_endpoint'', authorize), (''token_endpoint'', token)] of
               Some (k, _) \<Rightarrow> Inl (EndpointNotHttps k)
             | None \<Rightarrow>
               (if (case array_of (jfield ''id_token_signing_alg_values_supported'' doc) of None \<Rightarrow> False
                      | Some xs \<Rightarrow> VStr ''RS256'' \<notin> set xs \<and> VStr ''ES256'' \<notin> set xs) then Inl NoUsableAlgorithm
                else Inr \<lparr>dc_tokens = (issuer, jwks), dc_authorize = authorize, dc_token_url = token,
                    dc_basic = (case auth of None \<Rightarrow> False
                      | Some xs \<Rightarrow> VStr ''client_secret_basic'' \<in> set xs \<and> VStr ''client_secret_post'' \<notin> set xs)\<rparr>)))"

definition discover ::
  "(string \<Rightarrow> url option) \<Rightarrow> (string \<Rightarrow> fetched) \<Rightarrow> oidc_provider \<Rightarrow> string \<Rightarrow> oidc_error + discovered" where
  "discover parse_url fetch provider place = (case fetch (discovery_url provider place) of
     None \<Rightarrow> Inl ProviderUnreachable
   | Some (status, doc) \<Rightarrow>
      (if status = 400 \<or> status = 404 then Inl (NoConfiguration provider)
       else if \<not> (200 \<le> status \<and> status < 300) then Inl (ProviderStatus status)
       else read_discovery parse_url provider place doc))"

definition keep_or_drop :: "bool \<Rightarrow> string \<Rightarrow> string \<Rightarrow> env_install \<Rightarrow> env_install" where
  "keep_or_drop keep k v i = (if keep then put_env k v i else drop_env k i)"

definition apply_oidc :: "valid_oidc \<Rightarrow> discovered \<Rightarrow> env_install \<Rightarrow> env_install" where
  "apply_oidc v d i =
     (let i1 = put_env ''WEBCHAT_OIDC_PROVIDER'' (case vo_provider v of Microsoft \<Rightarrow> ''microsoft'' | OtherProvider \<Rightarrow> ''other'') i;
          i2 = keep_or_drop (vo_provider v = OtherProvider \<and> vo_name v \<noteq> []) ''WEBCHAT_OIDC_NAME'' (vo_name v) i1;
          i3 = put_env ''WEBCHAT_OIDC_ISSUER'' (fst (dc_tokens d)) i2;
          i4 = put_env ''WEBCHAT_OIDC_AUDIENCE'' (vo_client v) i3;
          i5 = put_env ''WEBCHAT_OIDC_JWKS_URI'' (snd (dc_tokens d)) i4;
          i6 = put_env ''WEBCHAT_OIDC_AUTHORIZE_URL'' (dc_authorize d) i5;
          i7 = put_env ''WEBCHAT_OIDC_TOKEN_URL'' (dc_token_url d) i6;
          i8 = keep_or_drop (dc_basic d) ''WEBCHAT_OIDC_TOKEN_AUTH'' ''basic'' i7;
          i9 = drop_env ''WEBCHAT_OIDC_LOGIN'' i8
      in (case vo_secret v of Some s \<Rightarrow> put_env ''WEBCHAT_OIDC_CLIENT_SECRET'' s i9
          | None \<Rightarrow> if vo_clear v then drop_env ''WEBCHAT_OIDC_CLIENT_SECRET'' i9 else i9))"

definition clear_oidc :: "env_install \<Rightarrow> env_install" where
  "clear_oidc i = fold drop_env OIDC_KEYS i"

end
