(* ===== verification/OidcLogin.thy ===== *)
theory OidcLogin
  imports Authenticate SignInSettings
begin

text \<open>
  The web app's own sign-in (\<open>channels/webchat/oidc-login.ts\<close>) and the routes around it
  (\<open>server/routes-signin.ts\<close>): an attempt bound to the browser that began it, the exchange of its code,
  the session that follows, and the links between one person's sign-ins. The random values of an attempt
  and of a session are arguments; the provider's token endpoint is a parameter.
\<close>

definition LOGIN_PATH :: string where "LOGIN_PATH = ''/auth/oidc/login''"
definition CALLBACK_PATH :: string where "CALLBACK_PATH = ''/auth/oidc/callback''"
definition LEGACY_LOGIN_PATH :: string where "LEGACY_LOGIN_PATH = ''/auth/microsoft/login''"
definition LEGACY_CALLBACK_PATH :: string where "LEGACY_CALLBACK_PATH = ''/auth/microsoft/callback''"

section \<open>Where the browser came from\<close>

definition public_url :: "env \<Rightarrow> string" where
  "public_url env = (let u = env_var ''WEBCHAT_PUBLIC_URL'' env in
     if u \<noteq> [] \<and> last u = CHR ''/'' then butlast u else u)"

definition request_origin :: "env \<Rightarrow> request \<Rightarrow> bool \<Rightarrow> string" where
  "request_origin env req tls = (if public_url env \<noteq> [] then public_url env
     else
       (let host = or_else (js_trim (header_text ''host'' req)) ''localhost'';
            fwd = js_trim (hd (split_on (CHR '','') (header_text ''x-forwarded-proto'' req)))
        in (if tls \<or> fwd = ''https'' then ''https'' else ''http'') @ ''://'' @ host))"

definition is_https_origin :: "string \<Rightarrow> bool" where
  "is_https_origin origin = starts_with origin ''https://''"

section \<open>Attempts\<close>

record attempt =
  at_verifier :: string
  at_nonce :: string
  at_redirect :: string
  at_link_from :: "string option"
  at_created :: millis

definition ATTEMPT_TTL_MS :: int where "ATTEMPT_TTL_MS = 10 * 60 * 1000"
definition MAX_ATTEMPTS :: nat where "MAX_ATTEMPTS = 500"

text \<open>Expired attempts go, then the oldest until there is room for one more.\<close>

definition sweep_attempts :: "millis \<Rightarrow> (string \<times> attempt) list \<Rightarrow> (string \<times> attempt) list" where
  "sweep_attempts now as = (let live = filter (\<lambda>(_, a). now - at_created a \<le> ATTEMPT_TTL_MS) as in
     drop (Suc (length live) - MAX_ATTEMPTS) live)"

text \<open>A \<open>Map.set\<close>: in place, or at the end.\<close>

definition set_entry :: "'a \<Rightarrow> 'b \<Rightarrow> ('a \<times> 'b) list \<Rightarrow> ('a \<times> 'b) list" where
  "set_entry k v m = (if k \<in> fst ` set m then map (\<lambda>(x, y). if x = k then (x, v) else (x, y)) m else m @ [(k, v)])"

definition STATE_COOKIE :: string where "STATE_COOKIE = ''nanoclaw_signin_state''"

definition state_cookie :: "string \<Rightarrow> bool \<Rightarrow> int \<Rightarrow> string" where
  "state_cookie state secure age = join_with ''; '' ([STATE_COOKIE @ ''='' @ state, ''Path=/auth/'', ''HttpOnly'',
     ''SameSite=Lax'', ''Max-Age='' @ show_int age] @ (if secure then [''Secure''] else []))"

fun state_in_parts :: "string list \<Rightarrow> string option" where
  "state_in_parts [] = None"
| "state_in_parts (part # ps) = (case cookie_pair part of
     None \<Rightarrow> state_in_parts ps
   | Some (n, v) \<Rightarrow> (if n = STATE_COOKIE then (if token_shape 16 100 v then Some v else None)
       else state_in_parts ps))"

definition state_from_cookie :: "header_value option \<Rightarrow> string option" where
  "state_from_cookie h = state_in_parts (split_on (CHR '';'') (raw_cookies h))"

record login_secrets =
  ls_state :: string
  ls_verifier :: string
  ls_nonce :: string

definition set_params :: "(string \<times> string) list \<Rightarrow> (string \<times> string) list \<Rightarrow> (string \<times> string) list" where
  "set_params new q = fold (\<lambda>(k, v). set_entry k v) new q"

text \<open>
  The provider's address with its query; \<open>challenge\<close> digests the verifier, \<open>query_of\<close> reads the query the
  endpoint already carries. \<open>None\<close> when the endpoint is no URL.
\<close>

definition begin_login ::
  "(string \<Rightarrow> url option) \<Rightarrow> (string \<Rightarrow> (string \<times> string) list) \<Rightarrow> (string \<Rightarrow> string) \<Rightarrow> env \<Rightarrow> login_secrets
     \<Rightarrow> string \<Rightarrow> string option \<Rightarrow> millis \<Rightarrow> (string \<times> attempt) list
     \<Rightarrow> (string \<times> (string \<times> string) list) option \<times> (string \<times> attempt) list" where
  "begin_login parse_url query_of challenge env ls redirect link_from now as =
     (let cfg = oidc_cfg env;
          as' = set_entry (ls_state ls) \<lparr>at_verifier = ls_verifier ls, at_nonce = ls_nonce ls, at_redirect = redirect,
              at_link_from = link_from, at_created = now\<rparr> (sweep_attempts now as);
          new = [(''client_id'', ti_audience (oc_tokens cfg)), (''response_type'', ''code''), (''redirect_uri'', redirect),
              (''response_mode'', ''query''), (''scope'', ''openid profile email''), (''state'', ls_state ls),
              (''nonce'', ls_nonce ls), (''code_challenge'', challenge (ls_verifier ls)),
              (''code_challenge_method'', ''S256'')]
            @ (if truthy link_from then [(''prompt'', if oc_provider cfg = Microsoft then ''select_account'' else ''login'')]
               else [])
      in (case parse_url (oc_authorize cfg) of None \<Rightarrow> (None, as')
          | Some u \<Rightarrow> (Some (oc_authorize cfg, set_params new (query_of (ur_search u))), as')))"

section \<open>Finishing an attempt\<close>

text \<open>The token endpoint: unreachable, or its status and body (an empty object when it is not JSON).\<close>

type_synonym token_endpoint = "(string \<times> string) list \<Rightarrow> (string \<times> string) option \<Rightarrow> (nat \<times> jval) option"

datatype login_failure = LoginRefused string | LoginExpired | NoCode | ExchangeFailed string
  | ExchangeUnreachable | TokenRefused oidc_failure

datatype login_result = LoggedIn oidc_identity "string option" | LoginFailed login_failure | LoginRaised

definition exchange_body :: "env \<Rightarrow> string \<Rightarrow> attempt \<Rightarrow> (string \<times> string) list" where
  "exchange_body env cd a =
     (let cfg = oidc_cfg env; secret = env_var ''WEBCHAT_OIDC_CLIENT_SECRET'' env in
      [(''client_id'', ti_audience (oc_tokens cfg)), (''grant_type'', ''authorization_code''), (''code'', cd),
       (''redirect_uri'', at_redirect a), (''code_verifier'', at_verifier a)]
      @ (if secret \<noteq> [] \<and> \<not> oc_basic cfg then [(''client_secret'', secret)] else []))"

definition exchange_auth :: "env \<Rightarrow> (string \<times> string) option" where
  "exchange_auth env = (let cfg = oidc_cfg env; secret = env_var ''WEBCHAT_OIDC_CLIENT_SECRET'' env in
     if secret \<noteq> [] \<and> oc_basic cfg then Some (uri_component (ti_audience (oc_tokens cfg)), uri_component secret)
     else None)"

definition jtrue :: "jval option \<Rightarrow> bool" where
  "jtrue v = (case v of None \<Rightarrow> False | Some VNull \<Rightarrow> False | Some (VBool b) \<Rightarrow> b
     | Some (VNum r) \<Rightarrow> r \<noteq> 0 | Some (VStr s) \<Rightarrow> s \<noteq> [] | _ \<Rightarrow> True)"

text \<open>The id token of the answer; one that is not a string has no token's shape.\<close>

definition exchanged_token :: "(nat \<times> jval) option \<Rightarrow> login_failure + string" where
  "exchanged_token answer = (case answer of
     None \<Rightarrow> Inl ExchangeUnreachable
   | Some (status, doc) \<Rightarrow>
      (if doc = VNull then Inl ExchangeUnreachable
       else if \<not> (200 \<le> status \<and> status < 300) \<or> \<not> jtrue (jfield ''id_token'' doc)
       then Inl (ExchangeFailed (take 300 (or_else (jtext (jfield ''error_description'' doc))
              (or_else (jtext (jfield ''error'' doc)) (''HTTP '' @ show_nat status)))))
       else Inr (jtext (jfield ''id_token'' doc))))"

definition query_get :: "string \<Rightarrow> (string \<times> string) list \<Rightarrow> string option" where
  "query_get k q = map_of q k"

definition complete_login ::
  "'k auth_host \<Rightarrow> token_endpoint \<Rightarrow> (string \<times> string) list \<Rightarrow> millis \<Rightarrow> 'k jwks_cache \<Rightarrow> (string \<times> attempt) list
     \<Rightarrow> login_result \<times> millis \<times> 'k jwks_cache \<times> (string \<times> attempt) list" where
  "complete_login h exchange q now c as =
     (let state = coalesce (query_get ''state'' q) []; found = map_of as state;
          as' = filter (\<lambda>(k, _). k \<noteq> state) as; env = ho_env h
      in if truthy (query_get ''error'' q)
         then (LoginFailed (LoginRefused (take 300 (or_else (coalesce (query_get ''error_description'' q) [])
             (coalesce (query_get ''error'' q) [])))), now, c, as')
         else case found of
           None \<Rightarrow> (LoginFailed LoginExpired, now, c, as')
         | Some a \<Rightarrow>
            (if now - at_created a > ATTEMPT_TTL_MS then (LoginFailed LoginExpired, now, c, as')
             else if \<not> truthy (query_get ''code'' q) then (LoginFailed NoCode, now, c, as')
             else case exchanged_token (exchange (exchange_body env (the (query_get ''code'' q)) a) (exchange_auth env)) of
               Inl e \<Rightarrow> (LoginFailed e, now, c, as')
             | Inr token \<Rightarrow>
                (case verify_oidc_token (ho_crypto h) (ho_net h) token (Some (at_nonce a)) env now c of
                   (Accepted i, t, c') \<Rightarrow> (LoggedIn i (at_link_from a), t, c', as')
                 | (Refused r _, t, c') \<Rightarrow> (LoginFailed (TokenRefused r), t, c', as')
                 | (Raises, t, c') \<Rightarrow> (LoginRaised, t, c', as'))))"

section \<open>The routes\<close>

datatype web_event = LinkMade string string string | SignedInAs string string | LinkRemoved string string

record 'k web_state =
  ws_auth :: "'k auth_state"
  ws_attempts :: "(string \<times> attempt) list"
  ws_trail :: "web_event list"

datatype web_reply = NotHere | Raised
  | ToProvider string "(string \<times> string) list" string \<comment> \<open>with the attempt's cookie\<close>
  | BackToApp string string "string list" \<comment> \<open>the note shown, and the cookies set\<close>
  | Answer nat string
  | LoggedOut string
  | LinkedAs string string

text \<open>The words of the login screen are the constructor of what went wrong.\<close>

definition is_person :: "auth_result \<Rightarrow> bool" where
  "is_person r = (ar_source r \<noteq> FromBearer \<and> ar_source r \<noteq> FromLocalhost)"

definition raw_identity :: "auth_result \<Rightarrow> string" where
  "raw_identity r = coalesce (ar_signed_in_as r) (ar_user r)"

record 'k login_site =
  lo_host :: "'k auth_host"
  lo_exchange :: token_endpoint
  lo_query_of :: "string \<Rightarrow> (string \<times> string) list"
  lo_challenge :: "string \<Rightarrow> string"

definition handle_login ::
  "'k login_site \<Rightarrow> request \<Rightarrow> bool \<Rightarrow> (string \<times> string) list \<Rightarrow> login_secrets \<Rightarrow> millis \<Rightarrow> 'k web_state
     \<Rightarrow> web_reply \<times> 'k web_state" where
  "handle_login site req tls q ls now st =
     (let h = lo_host site; env = ho_env h; origin = request_origin env req tls;
          start = (\<lambda>link t s. case begin_login (ho_url h) (lo_query_of site) (lo_challenge site) env ls
                (origin @ CALLBACK_PATH) link t (ws_attempts s) of
              (None, as) \<Rightarrow> (Raised, s\<lparr>ws_attempts := as\<rparr>)
            | (Some (to, ps), as) \<Rightarrow> (ToProvider to ps (state_cookie (ls_state ls) (is_https_origin origin) 600),
                s\<lparr>ws_attempts := as\<rparr>))
      in if \<not> oidc_login_enabled env then (BackToApp ''signin_error'' ''not set up'' [], st)
         else if query_get ''link'' q \<noteq> Some ''1'' then start None now st
         else case authenticate_request h req now (ws_auth st) of
           (SignedIn r, t, a) \<Rightarrow>
             (if is_person r then start (Some (raw_identity r)) t (st\<lparr>ws_auth := a\<rparr>)
              else (BackToApp ''signin_error'' ''sign in first'' [], st\<lparr>ws_auth := a\<rparr>))
         | (Unauthorized, t, a) \<Rightarrow> (BackToApp ''signin_error'' ''sign in first'' [], st\<lparr>ws_auth := a\<rparr>)
         | (AuthRaised, t, a) \<Rightarrow> (Raised, st\<lparr>ws_auth := a\<rparr>))"

definition on_signin :: "'k auth_state \<Rightarrow> signin_db \<Rightarrow> 'k auth_state" where
  "on_signin a sg = a\<lparr>au_signin := sg\<rparr>"

text \<open>Linking, when the attempt was begun to link: which accounts, or the reason it was refused.\<close>

definition link_attempt ::
  "string option \<Rightarrow> string \<Rightarrow> millis \<Rightarrow> 'k auth_state \<Rightarrow> (link_result option) \<times> 'k auth_state" where
  "link_attempt from who now a = (case from of
     None \<Rightarrow> (None, a)
   | Some f \<Rightarrow> (if f = [] then (None, a) else (case link_identities f who now (au_roles a) (au_signin a) of
        (res, sg) \<Rightarrow> (Some res, on_signin a sg))))"

text \<open>The session, its cookie and the trail, once the identity is known and any link is made.\<close>

definition finish_sign_in ::
  "'k login_site \<Rightarrow> bool \<Rightarrow> string \<Rightarrow> string \<Rightarrow> string \<Rightarrow> string \<Rightarrow> millis \<Rightarrow> 'k web_state \<Rightarrow> web_reply \<times> 'k web_state" where
  "finish_sign_in site secure told token who name now st =
     (case create_session (ho_hash (lo_host site)) token who name now (au_signin (ws_auth st)) of
        None \<Rightarrow> (Raised, st)
      | Some sg \<Rightarrow> (BackToApp ''signin'' told [session_cookie token secure SESSION_TTL_MS, state_cookie [] secure 0],
          st\<lparr>ws_auth := on_signin (ws_auth st) sg,
             ws_trail := ws_trail st @ [SignedInAs (resolve_linked True who sg) who]\<rparr>))"

definition handle_callback ::
  "'k login_site \<Rightarrow> request \<Rightarrow> bool \<Rightarrow> (string \<times> string) list \<Rightarrow> string \<Rightarrow> millis \<Rightarrow> 'k web_state
     \<Rightarrow> web_reply \<times> 'k web_state" where
  "handle_callback site req tls q token now st =
     (let h = lo_host site; secure = is_https_origin (request_origin (ho_env h) req tls);
          dropped = state_cookie [] secure 0; state = query_get ''state'' q
      in if \<not> truthy state \<or> state_from_cookie (rq_headers req ''cookie'') \<noteq> state
         then (BackToApp ''signin_error'' ''expired'' [dropped], st)
         else case complete_login h (lo_exchange site) q now (au_jwks (ws_auth st)) (ws_attempts st) of
           (LoginRaised, t, c, as) \<Rightarrow> (Raised, st\<lparr>ws_auth := (ws_auth st)\<lparr>au_jwks := c\<rparr>, ws_attempts := as\<rparr>)
         | (LoginFailed _, t, c, as) \<Rightarrow> (BackToApp ''signin_error'' ''failed'' [dropped],
             st\<lparr>ws_auth := (ws_auth st)\<lparr>au_jwks := c\<rparr>, ws_attempts := as\<rparr>)
         | (LoggedIn i from, t, c, as) \<Rightarrow>
            (let who = oidc_user_id (oi_identity i); a0 = (ws_auth st)\<lparr>au_jwks := c\<rparr> in
             case link_attempt from who t a0 of
               (None, a) \<Rightarrow> finish_sign_in site secure ''signed-in'' token who (oi_name i) t
                  (st\<lparr>ws_auth := a, ws_attempts := as\<rparr>)
             | (Some (Linked p al), a) \<Rightarrow> finish_sign_in site secure ''linked'' token who (oi_name i) t
                  (st\<lparr>ws_auth := a, ws_attempts := as, ws_trail := ws_trail st @ [LinkMade p al ''oidc'']\<rparr>)
             | (Some (LinkRefused r), a) \<Rightarrow> (BackToApp ''signin_error'' (link_refusal_message r (Some who)) [dropped],
                  st\<lparr>ws_auth := a, ws_attempts := as\<rparr>)
             | (Some LinkRaised, a) \<Rightarrow> (Raised, st\<lparr>ws_auth := a, ws_attempts := as\<rparr>)))"

definition csrf_ok :: "request \<Rightarrow> bool" where
  "csrf_ok req = (rq_headers req ''x-webchat-csrf'' = Some (One ''1''))"

definition handle_logout :: "'k login_site \<Rightarrow> request \<Rightarrow> bool \<Rightarrow> 'k web_state \<Rightarrow> web_reply \<times> 'k web_state" where
  "handle_logout site req tls st =
     (let h = lo_host site; secure = is_https_origin (request_origin (ho_env h) req tls) in
      if \<not> csrf_ok req then (Answer 403 ''Missing X-Webchat-CSRF header'', st)
      else (LoggedOut (cleared_session_cookie secure),
        (case session_token_from_cookie (rq_headers req ''cookie'') of None \<Rightarrow> st
         | Some token \<Rightarrow> st\<lparr>ws_auth := on_signin (ws_auth st) (delete_session (ho_hash h) token (au_signin (ws_auth st)))\<rparr>)))"

definition handle_pre_auth_signin ::
  "'k login_site \<Rightarrow> request \<Rightarrow> bool \<Rightarrow> string \<Rightarrow> string \<Rightarrow> (string \<times> string) list \<Rightarrow> login_secrets \<Rightarrow> string \<Rightarrow> millis
     \<Rightarrow> 'k web_state \<Rightarrow> web_reply \<times> 'k web_state" where
  "handle_pre_auth_signin site req tls path meth q ls token now st =
     (if path \<in> {LOGIN_PATH, LEGACY_LOGIN_PATH} \<and> meth = ''GET'' then handle_login site req tls q ls now st
      else if path \<in> {CALLBACK_PATH, LEGACY_CALLBACK_PATH} \<and> meth = ''GET'' then handle_callback site req tls q token now st
      else if path = ''/auth/logout'' \<and> meth = ''POST'' then handle_logout site req tls st
      else (NotHere, st))"

section \<open>A signed-in person's links\<close>

definition link_tailscale ::
  "'k login_site \<Rightarrow> request \<Rightarrow> auth_result \<Rightarrow> millis \<Rightarrow> 'k web_state \<Rightarrow> web_reply \<times> 'k web_state" where
  "link_tailscale site req auth now st =
     (if \<not> csrf_ok req then (Answer 403 ''Missing X-Webchat-CSRF header'', st)
      else if \<not> is_person auth then (Answer 403 ''The shared operator sign-in has no sign-ins to link.'', st)
      else case tailscale_identity_of (lo_host site) req now (ws_auth st) of
        (None, a) \<Rightarrow> (Answer 400 ''This device is not reaching central over Tailscale.'', st\<lparr>ws_auth := a\<rparr>)
      | (Some (here, _), a) \<Rightarrow>
         (case link_identities (raw_identity auth) here now (au_roles a) (au_signin a) of
            (LinkRefused r, sg) \<Rightarrow> (Answer 409 (link_refusal_message r (Some here)), st\<lparr>ws_auth := on_signin a sg\<rparr>)
          | (LinkRaised, sg) \<Rightarrow> (Raised, st\<lparr>ws_auth := on_signin a sg\<rparr>)
          | (Linked p al, sg) \<Rightarrow> (LinkedAs p al, st\<lparr>ws_auth := on_signin a sg,
              ws_trail := ws_trail st @ [LinkMade p al ''tailscale'']\<rparr>)))"

text \<open>\<open>alias\<close> is the decoded last part of the path.\<close>

definition unlink_route ::
  "request \<Rightarrow> auth_result \<Rightarrow> string \<Rightarrow> 'k web_state \<Rightarrow> web_reply \<times> 'k web_state" where
  "unlink_route req auth alias st =
     (if \<not> csrf_ok req then (Answer 403 ''Missing X-Webchat-CSRF header'', st)
      else case unlink_identity (ar_user auth) alias (au_signin (ws_auth st)) of
        None \<Rightarrow> (Raised, st)
      | Some (gone, sg) \<Rightarrow>
         (if gone then (Answer 200 ''ok'', st\<lparr>ws_auth := on_signin (ws_auth st) sg,
              ws_trail := ws_trail st @ [LinkRemoved (ar_user auth) alias]\<rparr>)
          else (Answer 404 ''That sign-in is not linked to this account.'', st\<lparr>ws_auth := on_signin (ws_auth st) sg\<rparr>)))"

end
