(* ===== verification/TokenFacts.thy ===== *)
theory TokenFacts
  imports TokenCheck
begin

text \<open>
  What an accepted token proves, and how often a source of signing keys is asked. A token is genuine when a
  key its issuer served, of the algorithm the token names, verifies it, and its claims are current and
  meant for this install. Attempts on one source are more than a minute apart however requests interleave.
\<close>

section \<open>Where keys come from\<close>

definition served_key :: "(jval \<Rightarrow> 'k option) \<Rightarrow> jwks_net \<Rightarrow> string \<Rightarrow> string \<Rightarrow> 'k signing_key \<Rightarrow> bool" where
  "served_key imp net uri kid k = (\<exists>t. map_of (keys_of imp (snd (net uri t))) kid = Some k)"

definition state_served :: "(jval \<Rightarrow> 'k option) \<Rightarrow> jwks_net \<Rightarrow> string \<Rightarrow> 'k jwks_state \<Rightarrow> bool" where
  "state_served imp net uri st = (\<forall>kid k. key_in kid st = Some k \<longrightarrow> served_key imp net uri kid k)"

definition keys_served :: "(jval \<Rightarrow> 'k option) \<Rightarrow> jwks_net \<Rightarrow> 'k jwks_cache \<Rightarrow> bool" where
  "keys_served imp net c = (\<forall>uri st. (uri, st) \<in> set c \<longrightarrow> state_served imp net uri st)"

lemma no_keys_served [simp]: "state_served imp net uri no_keys"
  by (simp add: state_served_def no_keys_def key_in_def)

lemma keys_served_Nil [simp]: "keys_served imp net []"
  by (simp add: keys_served_def)

lemma keys_served_at: "keys_served imp net c \<Longrightarrow> state_served imp net uri (jwks_at uri c)"
  by (cases "map_of c uri") (auto simp: jwks_at_def keys_served_def dest: map_of_SomeD)

lemma keys_served_open [intro]: "keys_served imp net c \<Longrightarrow> keys_served imp net (jwks_open uri c)"
  by (auto simp: jwks_open_def keys_served_def)

lemma keys_served_update:
  "keys_served imp net c \<Longrightarrow> (\<And>st. state_served imp net uri st \<Longrightarrow> state_served imp net uri (f st))
   \<Longrightarrow> keys_served imp net (jwks_update uri f c)"
  by (auto simp: jwks_update_def keys_served_def)

lemma keys_served_begin [intro]: "keys_served imp net c \<Longrightarrow> keys_served imp net (begin_fetch uri now c)"
  unfolding begin_fetch_def Let_def
  by (auto intro!: keys_served_update simp: state_served_def key_in_def)

lemma keys_served_end:
  assumes "keys_served imp net c" "body = snd (net uri t0)"
  shows "keys_served imp net (end_fetch imp uri now body c)"
  unfolding end_fetch_def Let_def
proof (rule keys_served_update[OF assms(1)])
  fix st :: "'a jwks_state"
  assume "state_served imp net uri st"
  then show "state_served imp net uri (if keys_of imp body = [] then st\<lparr>jw_flight := False\<rparr>
       else st\<lparr>jw_keys := Some (keys_of imp body), jw_fetched := now, jw_flight := False\<rparr>)"
    using assms(2) by (auto simp: state_served_def key_in_def served_key_def split: option.splits)
qed

lemma keys_served_fetch:
  "keys_served imp net c \<Longrightarrow> fetch_jwks imp net uri now c = (t, c') \<Longrightarrow> keys_served imp net c'"
  using keys_served_end[OF keys_served_begin, of imp net c]
  by (auto simp: fetch_jwks_def split: prod.splits) (metis snd_conv)

lemma jwks_key_served:
  assumes c: "keys_served imp net c" and k: "jwks_key imp net uri kid now c = (res, t, c')"
  shows "keys_served imp net c'" and "res = Some key \<Longrightarrow> served_key imp net uri kid key"
proof -
  obtain now1 c1 where 1: "(if keys_stale now (jwks_at uri (jwks_open uri c)) \<and> may_fetch now (jwks_at uri (jwks_open uri c))
      then fetch_jwks imp net uri now (jwks_open uri c) else (now, jwks_open uri c)) = (now1, c1)" by fastforce
  have c1: "keys_served imp net c1"
    using 1 c keys_served_fetch keys_served_open[OF c] by (metis prod.inject)
  have found: "served_key imp net uri kid x" if "keys_served imp net d" "key_in kid (jwks_at uri d) = Some x" for d x
    using keys_served_at[OF that(1)] that(2) by (auto simp: state_served_def)
  show "keys_served imp net c'"
    using k c1 keys_served_fetch[OF c1, of uri now1]
    by (auto simp: jwks_key_def 1 Let_def split: option.splits if_splits prod.splits)
  show "served_key imp net uri kid key" if "res = Some key"
    using that k c1 found keys_served_fetch[OF c1, of uri now1]
    by (auto simp: jwks_key_def 1 Let_def split: option.splits if_splits prod.splits)
qed

section \<open>What an accepted token proves\<close>

definition current_claims :: "token_issuer \<Rightarrow> millis \<Rightarrow> jval \<Rightarrow> bool" where
  "current_claims cfg now claims =
     ((\<exists>e. jfield ''exp'' claims = Some (VNum e) \<and> of_int (now div 1000 - CLOCK_SKEW_S) < e)
      \<and> (\<forall>n. jfield ''nbf'' claims = Some (VNum n) \<longrightarrow> n \<le> of_int (now div 1000 + CLOCK_SKEW_S))
      \<and> jfield ''iss'' claims = Some (VStr (ti_issuer cfg)) \<and> audience_ok (ti_audience cfg) claims)"

definition genuine_token ::
  "'k crypto \<Rightarrow> jwks_net \<Rightarrow> token_issuer \<Rightarrow> string \<Rightarrow> millis \<Rightarrow> jval \<Rightarrow> bool" where
  "genuine_token cr net cfg token now claims =
     (\<exists>hd p sig header kid k. jwt_parts token = Some (hd, p, sig)
        \<and> cr_decode cr hd = Some header \<and> cr_decode cr p = Some claims
        \<and> jfield ''kid'' header = Some (VStr kid) \<and> served_key (cr_import cr) net (ti_jwks cfg) kid k
        \<and> header_alg header = Some (sk_alg k) \<and> cr_verify cr (sk_alg k) (sk_key k) (hd @ ''.'' @ p) sig
        \<and> current_claims cfg now claims)"

lemma check_claims_Accepted: "check_claims cfg now claims = Accepted v \<Longrightarrow> v = claims \<and> current_claims cfg now claims"
  unfolding check_claims_def Let_def current_claims_def
  by (auto split: if_splits option.splits jval.splits)

lemma verify_jwt_keys:
  assumes "keys_served (cr_import cr) net c" "verify_jwt cr net token cfg now c = (res, t, c')"
  shows "keys_served (cr_import cr) net c'"
  using assms jwks_key_served(1)[OF assms(1)] unfolding verify_jwt_def
  by (auto split: option.splits prod.splits if_splits jval.splits)

lemma verify_jwt_genuine:
  assumes c: "keys_served (cr_import cr) net c"
    and v: "verify_jwt cr net token cfg now c = (Accepted claims, t, c')"
  shows "genuine_token cr net cfg token t claims"
proof -
  obtain hd p sig header cl alg kid k where 1: "jwt_parts token = Some (hd, p, sig)"
    "cr_decode cr hd = Some header" "cr_decode cr p = Some cl" "header_alg header = Some alg"
    "jfield ''kid'' header = Some (VStr kid)" "jwks_key (cr_import cr) net (ti_jwks cfg) kid now c = (Some k, t, c')"
    "sk_alg k = alg" "cr_verify cr (sk_alg k) (sk_key k) (hd @ ''.'' @ p) sig"
    "check_claims cfg t cl = Accepted claims"
    using v unfolding verify_jwt_def by (auto split: option.splits prod.splits if_splits jval.splits)
  then show ?thesis
    unfolding genuine_token_def using jwks_key_served(2)[OF c 1(6)] check_claims_Accepted[OF 1(9)] by blast
qed

lemma verify_oidc_genuine:
  assumes c: "keys_served (cr_import cr) net c"
    and v: "verify_oidc_token cr net token nonce env now c = (Accepted i, t, c')"
  obtains claims where "oc_enabled (oidc_cfg env)" "genuine_token cr net (oc_tokens (oidc_cfg env)) token t claims"
    "oidc_identity_claim (oc_provider (oidc_cfg env)) claims = Some (oi_identity i)"
    "\<And>n. nonce = Some n \<Longrightarrow> jfield ''nonce'' claims = Some (VStr n)"
proof -
  obtain claims where 1: "oc_enabled (oidc_cfg env)"
    "verify_jwt cr net token (oc_tokens (oidc_cfg env)) now c = (Accepted claims, t, c')"
    "name_identity (oc_provider (oidc_cfg env)) nonce claims = Accepted i"
    using v unfolding verify_oidc_token_def Let_def
    by (auto split: if_splits prod.splits token_result.splits)
  show ?thesis
    by (rule that[OF 1(1) verify_jwt_genuine[OF c 1(2)]])
      (use 1(3) in \<open>auto simp: name_identity_def split: if_splits option.splits\<close>)
qed

lemma verify_oidc_keys:
  "keys_served (cr_import cr) net c \<Longrightarrow> verify_oidc_token cr net token nonce env now c = (res, t, c')
   \<Longrightarrow> keys_served (cr_import cr) net c'"
  using verify_jwt_keys unfolding verify_oidc_token_def Let_def
  by (fastforce split: if_splits prod.splits token_result.splits)

section \<open>How often a source is asked\<close>

text \<open>
  The parts of a lookup that run without waiting, as steps of any number of requests: the first look, the
  second one of a key that was not there, and the arrival of an answer. \<open>tries\<close> holds the attempts, the
  latest first.
\<close>

datatype key_event = Wants string | WantsAgain string string | Arrives string "jval option"

definition ask :: "string \<Rightarrow> millis \<Rightarrow> 'k jwks_cache \<times> (string \<times> millis) list
    \<Rightarrow> 'k jwks_cache \<times> (string \<times> millis) list" where
  "ask uri now s = (if may_fetch now (jwks_at uri (fst s))
     then (begin_fetch uri now (fst s), if jw_flight (jwks_at uri (fst s)) then snd s else (uri, now) # snd s)
     else s)"

fun key_step :: "(jval \<Rightarrow> 'k option) \<Rightarrow> key_event \<times> millis \<Rightarrow> 'k jwks_cache \<times> (string \<times> millis) list
    \<Rightarrow> 'k jwks_cache \<times> (string \<times> millis) list" where
  "key_step imp (Wants uri, now) s =
     (let c = jwks_open uri (fst s) in if keys_stale now (jwks_at uri c) then ask uri now (c, snd s) else (c, snd s))"
| "key_step imp (WantsAgain uri kid, now) s =
     (if key_in kid (jwks_at uri (fst s)) = None then ask uri now (jwks_open uri (fst s), snd s) else s)"
| "key_step imp (Arrives uri body, now) s = (end_fetch imp uri now body (fst s), snd s)"

fun source_of :: "key_event \<Rightarrow> string" where
  "source_of (Wants uri) = uri"
| "source_of (WantsAgain uri kid) = uri"
| "source_of (Arrives uri body) = uri"

definition attempts :: "string \<Rightarrow> (string \<times> millis) list \<Rightarrow> millis list" where
  "attempts uri tries = map snd (filter (\<lambda>a. fst a = uri) tries)"

definition few_sources :: "string set \<Rightarrow> 'k jwks_cache \<Rightarrow> bool" where
  "few_sources U c = (finite U \<and> card U \<le> 8 \<and> distinct (map fst c) \<and> fst ` set c \<subseteq> U)"

definition spaced :: "'k jwks_cache \<times> (string \<times> millis) list \<Rightarrow> bool" where
  "spaced s = (\<forall>uri. sorted_wrt (\<lambda>new old. new - old > JWKS_MIN_REFETCH_MS) (attempts uri (snd s))
     \<and> (\<forall>t ts. attempts uri (snd s) = t # ts \<longrightarrow> jw_attempt (jwks_at uri (fst s)) = t))"

lemma fst_jwks_update [simp]: "map fst (jwks_update uri f c) = map fst c"
  by (induction c) (auto simp: jwks_update_def)

lemma map_of_jwks_update:
  "map_of (jwks_update uri f c) u = (if u = uri then map_option f (map_of c u) else map_of c u)"
  by (induction c) (auto simp: jwks_update_def)

lemma jwks_at_update:
  "map_of c uri \<noteq> None \<Longrightarrow> jwks_at u (jwks_update uri f c) = (if u = uri then f (jwks_at u c) else jwks_at u c)"
  by (auto simp: jwks_at_def map_of_jwks_update)

lemma jwks_update_absent: "map_of c uri = None \<Longrightarrow> jwks_update uri f c = c"
  by (induction c) (auto simp: jwks_update_def split: if_splits)

lemma few_sources_room: "few_sources U c \<Longrightarrow> uri \<in> U \<Longrightarrow> map_of c uri = None \<Longrightarrow> length c < 8"
proof -
  assume f: "few_sources U c" and u: "uri \<in> U" and n: "map_of c uri = None"
  have "fst ` set c \<subseteq> U - {uri}" using f n by (auto simp: few_sources_def map_of_eq_None_iff image_iff)
  then have "card (fst ` set c) \<le> card (U - {uri})" using f by (intro card_mono) (auto simp: few_sources_def)
  also have "\<dots> < card U" using f u by (intro psubset_card_mono) (auto simp: few_sources_def)
  finally have "card (set (map fst c)) < card U" by simp
  then show ?thesis using f distinct_card[of "map fst c"] by (simp add: few_sources_def)
qed

lemma few_sources_open:
  assumes "few_sources U c" "uri \<in> U"
  shows "few_sources U (jwks_open uri c)" and "jwks_at u (jwks_open uri c) = jwks_at u c"
    and "map_of (jwks_open uri c) uri \<noteq> None"
proof -
  have room: "map_of c uri = None \<Longrightarrow> \<not> 8 \<le> length c" using few_sources_room[OF assms] by auto
  then show "few_sources U (jwks_open uri c)"
    using assms by (auto simp: jwks_open_def few_sources_def map_of_eq_None_iff)
  show "jwks_at u (jwks_open uri c) = jwks_at u c"
    using room by (auto simp: jwks_open_def jwks_at_def map_add_def coalesce_def split: option.splits)
  show "map_of (jwks_open uri c) uri \<noteq> None"
    using room by (auto simp: jwks_open_def map_add_def split: option.splits)
qed

lemma few_sources_update [simp]: "few_sources U (jwks_update uri f c) = few_sources U c"
proof -
  have "fst ` set (jwks_update uri f c) = fst ` set c" by (metis fst_jwks_update list.set_map)
  then show ?thesis by (simp add: few_sources_def)
qed

lemma spaced_same_attempts:
  "spaced (c, tries) \<Longrightarrow> (\<And>u. jw_attempt (jwks_at u c') = jw_attempt (jwks_at u c)) \<Longrightarrow> spaced (c', tries)"
  by (simp add: spaced_def)

lemma spaced_ask:
  assumes s: "spaced (c, tries)" and f: "few_sources U c" and u: "uri \<in> U" and here: "map_of c uri \<noteq> None"
  shows "spaced (ask uri now (c, tries)) \<and> few_sources U (fst (ask uri now (c, tries)))"
proof (cases "may_fetch now (jwks_at uri c) \<and> \<not> jw_flight (jwks_at uri c)")
  case False
  then show ?thesis using s f here
    by (auto simp: ask_def begin_fetch_def Let_def jwks_open_def)
next
  case True
  then have a: "ask uri now (c, tries)
      = (jwks_update uri (\<lambda>st. st\<lparr>jw_attempt := now, jw_flight := True\<rparr>) c, (uri, now) # tries)"
    using here by (auto simp: ask_def begin_fetch_def Let_def jwks_open_def)
  have far: "now - t > JWKS_MIN_REFETCH_MS" if "t \<in> set (attempts uri tries)" for t
  proof (cases "attempts uri tries")
    case (Cons t1 ts)
    with s have t1: "jw_attempt (jwks_at uri c) = t1"
      and old: "\<forall>t \<in> set ts. t1 - t > JWKS_MIN_REFETCH_MS"
      unfolding spaced_def by (auto dest: spec[of _ uri])
    have "now - t1 > JWKS_MIN_REFETCH_MS" using True t1 by (simp add: may_fetch_def)
    with old that Cons show ?thesis by (auto simp: JWKS_MIN_REFETCH_MS_def)
  qed (use that in simp)
  have "spaced (ask uri now (c, tries))"
    unfolding a spaced_def using s far here
    by (auto simp: attempts_def jwks_at_update spaced_def)
  with f show ?thesis by (simp add: a)
qed

lemma spaced_step:
  assumes s: "spaced s" and f: "few_sources U (fst s)" and u: "source_of (fst e) \<in> U"
  shows "spaced (key_step imp e s) \<and> few_sources U (fst (key_step imp e s))"
proof -
  obtain ev now where e: "e = (ev, now)" by fastforce
  obtain c tries where sc: "s = (c, tries)" by fastforce
  have opened: "spaced (jwks_open uri c, tries)" "few_sources U (jwks_open uri c)" "map_of (jwks_open uri c) uri \<noteq> None"
    if "uri \<in> U" for uri
    using few_sources_open[of U c uri] that f s sc spaced_same_attempts[of c tries "jwks_open uri c"] by auto
  show ?thesis
  proof (cases ev)
    case (Wants uri)
    then show ?thesis using u e sc opened[of uri] spaced_ask[of "jwks_open uri c" tries U uri now]
      by (simp add: Let_def)
  next
    case (WantsAgain uri kid)
    then show ?thesis using u e sc s f opened[of uri] spaced_ask[of "jwks_open uri c" tries U uri now]
      by simp
  next
    case (Arrives uri body)
    have "jw_attempt (jwks_at v (end_fetch imp uri now body c)) = jw_attempt (jwks_at v c)" for v
      by (cases "map_of c uri") (auto simp: end_fetch_def Let_def jwks_at_update jwks_update_absent)
    then have "spaced (end_fetch imp uri now body c, tries)" using s sc spaced_same_attempts by blast
    then show ?thesis using Arrives e sc f by (simp add: end_fetch_def Let_def)
  qed
qed

text \<open>
  However requests and the provider's answers interleave, two attempts to fetch one provider's signing keys are
  more than a minute apart, so forged key ids cannot make the server flood it. Eight is the number of sources whose state
  the server remembers.
\<close>

theorem key_attempts_are_spaced:
  assumes "card (source_of ` fst ` set events) \<le> 8"
  shows "sorted_wrt (\<lambda>new old. new - old > JWKS_MIN_REFETCH_MS)
    (attempts uri (snd (fold (key_step imp) events ([], []))))"
proof -
  let ?U = "source_of ` fst ` set events"
  have "spaced (fold (key_step imp) es s) \<and> few_sources ?U (fst (fold (key_step imp) es s))"
    if "spaced s" "few_sources ?U (fst s)" "set es \<subseteq> set events" for es and s :: "'a jwks_cache \<times> (string \<times> millis) list"
    using that
  proof (induction es arbitrary: s)
    case (Cons e es)
    then have "source_of (fst e) \<in> ?U" by auto
    with Cons show ?case using spaced_step[of s ?U e imp] by simp
  qed simp
  moreover have "spaced ([] :: 'a jwks_cache, [])" by (simp add: spaced_def attempts_def)
  moreover have "few_sources ?U ([] :: 'a jwks_cache)" using assms by (simp add: few_sources_def)
  ultimately show ?thesis unfolding spaced_def by (metis fst_conv order_refl)
qed

theorem key_attempts_are_spaced_witness:
  "sorted_wrt (\<lambda>new old. new - old > JWKS_MIN_REFETCH_MS)
    (attempts ''https://idp.example/keys'' (snd (fold (key_step (\<lambda>_. None :: unit option))
      [(Wants ''https://idp.example/keys'', 100000), (Arrives ''https://idp.example/keys'' None, 100200),
       (WantsAgain ''https://idp.example/keys'' ''new'', 130000), (Wants ''https://idp.example/keys'', 170000)] ([], []))))"
  by (rule key_attempts_are_spaced) simp

text \<open>A key the provider has published is found, however stale the cache, once a minute has passed since the last attempt.\<close>

lemma rotated_key_lands:
  assumes may: "now - jw_attempt (jwks_at uri (jwks_open uri c)) > JWKS_MIN_REFETCH_MS"
    and served: "\<And>t. map_of (keys_of imp (snd (net uri t))) kid \<noteq> None"
  shows "fst (jwks_key imp net uri kid now c) \<noteq> None"
proof -
  have here: "map_of (jwks_open uri d) uri \<noteq> None" for d :: "'a jwks_cache"
    by (auto simp: jwks_open_def map_add_def split: option.splits)
  have found: "key_in kid (jwks_at uri (snd (fetch_jwks imp net uri t d))) \<noteq> None" for t d
  proof -
    have k: "map_of (keys_of imp (snd (net uri t))) kid \<noteq> None" by (rule served)
    then have ne: "keys_of imp (snd (net uri t)) \<noteq> []" by auto
    have b: "map_of (begin_fetch uri t d) uri \<noteq> None"
      using here[of d] unfolding begin_fetch_def Let_def jwks_update_def
      by (auto simp: map_of_eq_None_iff image_iff split: prod.splits)
    obtain t2 body where n: "net uri t = (t2, body)" by fastforce
    show ?thesis using k ne n by (simp add: fetch_jwks_def end_fetch_def Let_def jwks_at_update[OF b] key_in_def)
  qed
  obtain now1 c1 where 1: "(if keys_stale now (jwks_at uri (jwks_open uri c)) \<and> may_fetch now (jwks_at uri (jwks_open uri c))
      then fetch_jwks imp net uri now (jwks_open uri c) else (now, jwks_open uri c)) = (now1, c1)" by fastforce
  have "key_in kid (jwks_at uri c1) \<noteq> None \<or> (now1 = now \<and> c1 = jwks_open uri c)"
    using 1 found[of now "jwks_open uri c"] by (auto split: if_splits)
  note or = this
  have k: "jwks_key imp net uri kid now c = (case key_in kid (jwks_at uri c1) of
      Some k \<Rightarrow> (Some k, now1, c1)
    | None \<Rightarrow> (if may_fetch now1 (jwks_at uri c1)
        then (case fetch_jwks imp net uri now1 c1 of (now2, c2) \<Rightarrow> (key_in kid (jwks_at uri c2), now2, c2))
        else (None, now1, c1)))"
    unfolding jwks_key_def Let_def 1 by simp
  show ?thesis
  proof (cases "key_in kid (jwks_at uri c1)")
    case None
    with or may have "may_fetch now1 (jwks_at uri c1)" by (simp add: may_fetch_def)
    with None k found[of now1 c1] show ?thesis by (cases "fetch_jwks imp net uri now1 c1") simp
  next
    case (Some x)
    with k show ?thesis by simp
  qed
qed

end
