(* ===== verification/SignInFacts.thy ===== *)
theory SignInFacts
  imports SignIn
begin

text \<open>
  What the sign-in tables guarantee under every sequence of operations: links form no chains and no
  alias is linked twice, linking two identities makes them one account and moves nobody else, and a
  session signs its person in for exactly its lifetime.
\<close>

section \<open>The shape of the tables\<close>

definition links_ok :: "link_row list \<Rightarrow> bool" where
  "links_ok t = (keyed lk_alias t \<and> lk_primary ` set t \<inter> lk_alias ` set t = {})"

definition session_row_ok :: "signin_row \<Rightarrow> bool" where
  "session_row_ok r = (ss_expires r = ss_created r + SESSION_TTL_MS)"

definition signin_ok :: "signin_db \<Rightarrow> bool" where
  "signin_ok db = ((\<forall>t. sg_sessions db = Some t \<longrightarrow> keyed ss_hash t \<and> list_all session_row_ok t)
     \<and> (\<forall>t. sg_links db = Some t \<longrightarrow> links_ok t))"

definition linked_to :: "link_row list \<Rightarrow> string \<Rightarrow> string" where
  "linked_to t u = (case tbl_get lk_alias u t of None \<Rightarrow> u | Some r \<Rightarrow> lk_primary r)"

lemma resolve_linked_table:
  "resolve_linked True u db = (case sg_links db of None \<Rightarrow> u | Some t \<Rightarrow> linked_to t u)"
  by (simp add: resolve_linked_def linked_to_def split: option.splits)

lemma linked_to_moved:
  assumes "links_ok t" "linked_to t u \<noteq> u"
  shows "\<exists>r \<in> set t. lk_alias r = u \<and> lk_primary r = linked_to t u"
proof -
  from assms(2) obtain r where "tbl_get lk_alias u t = Some r"
    by (cases "tbl_get lk_alias u t") (auto simp: linked_to_def)
  then show ?thesis by (auto simp: linked_to_def dest: tbl_get_SomeD)
qed

lemma linked_to_self:
  assumes "links_ok t"
  shows "linked_to t u = u \<longleftrightarrow> tbl_get lk_alias u t = None"
proof (cases "tbl_get lk_alias u t")
  case (Some r)
  then have "r \<in> set t" "lk_alias r = u" using tbl_get_SomeD[of lk_alias u t r] by auto
  then have "lk_primary r \<noteq> u" using assms by (auto simp: links_ok_def)
  with Some show ?thesis by (simp add: linked_to_def)
qed (simp add: linked_to_def)

lemma linked_to_idem: "links_ok t \<Longrightarrow> linked_to t (linked_to t u) = linked_to t u"
proof (cases "tbl_get lk_alias u t")
  case None
  then show ?thesis by (simp add: linked_to_def)
next
  case (Some r)
  assume ok: "links_ok t"
  from Some have r: "r \<in> set t" using tbl_get_SomeD[of lk_alias u t r] by blast
  with ok have "tbl_get lk_alias (lk_primary r) t = None"
    by (auto simp: links_ok_def tbl_get_None)
  with Some show ?thesis by (simp add: linked_to_def)
qed

lemma linked_to_snoc:
  assumes "tbl_get lk_alias (lk_alias r) t = None"
  shows "linked_to (t @ [r]) u = (if u = lk_alias r then lk_primary r else linked_to t u)"
  using assms by (auto simp: linked_to_def tbl_get_def find_append split: option.splits)

lemma links_ok_snoc:
  assumes "links_ok t" "lk_alias r \<notin> lk_alias ` set t" "lk_alias r \<notin> lk_primary ` set t"
    "lk_primary r \<notin> lk_alias ` set t" "lk_primary r \<noteq> lk_alias r"
  shows "links_ok (t @ [r])"
  using assms by (auto simp: links_ok_def keyed_def)

lemma links_ok_delete: "links_ok t \<Longrightarrow> links_ok (tbl_delete p t)"
  by (auto simp: links_ok_def)

lemma list_links_none: "sg_links db = Some t \<Longrightarrow> list_links p db = [] \<longleftrightarrow> p \<notin> lk_primary ` set t"
proof -
  assume t: "sg_links db = Some t"
  have "set (list_links p db) = {r \<in> set t. lk_primary r = p}" using t by (simp add: list_links_def)
  then have "list_links p db = [] \<longleftrightarrow> {r \<in> set t. lk_primary r = p} = {}" by (metis set_empty)
  then show ?thesis by auto
qed

section \<open>Linking\<close>

text \<open>What an accepted link adds, and what was true before it.\<close>

lemma join_Linked:
  assumes "join_account p q now rdb db = (Linked p' q', db')"
  shows "p' = p \<and> q' = q \<and> list_links q db = [] \<and> \<not> holds_role q rdb \<and>
    (\<exists>t. sg_links db = Some t \<and> tbl_get lk_alias q t = None
       \<and> db' = db\<lparr>sg_links := Some (t @ [\<lparr>lk_alias = q, lk_primary = p, lk_at = now\<rparr>])\<rparr>)"
  using assms unfolding join_account_def insert_link_def by (auto split: if_splits option.splits)

lemma link_cases:
  assumes l: "link_identities a b now rdb db = (Linked p q, db')" and ok: "signin_ok db"
  obtains t where "sg_links db = Some t" "links_ok t"
    "db' = db\<lparr>sg_links := Some (t @ [\<lparr>lk_alias = q, lk_primary = p, lk_at = now\<rparr>])\<rparr>"
    "tbl_get lk_alias q t = None" "q \<notin> lk_primary ` set t" "p \<notin> lk_alias ` set t" "p \<noteq> q"
    "\<not> holds_role q rdb" "{linked_to t a, linked_to t b} = {p, q}"
    "a = q \<and> linked_to t b = p \<or> b = q \<and> linked_to t a = p"
proof -
  let ?pa = "resolve_linked True a db" and ?pb = "resolve_linked True b db"
  obtain p1 q1 where pq: "primary_and_alias a b ?pa ?pb rdb = (p1, q1)" by fastforce
  have ne: "?pa \<noteq> ?pb" and one: "?pa = a \<or> ?pb = b" and j: "join_account p1 q1 now rdb db = (Linked p q, db')"
    using l pq unfolding link_identities_def Let_def by (simp_all split: if_splits)
  from join_Linked[OF j] obtain t where eq: "p = p1" "q = q1" and lone: "list_links q db = []"
    and role: "\<not> holds_role q rdb" and t: "sg_links db = Some t" and new: "tbl_get lk_alias q t = None"
    and db': "db' = db\<lparr>sg_links := Some (t @ [\<lparr>lk_alias = q, lk_primary = p, lk_at = now\<rparr>])\<rparr>" by blast
  from ok t have tok: "links_ok t" by (simp add: signin_ok_def)
  have set2: "{?pa, ?pb} = {p, q}" and which: "a = q \<and> ?pb = p \<or> b = q \<and> ?pa = p"
    using pq one eq unfolding primary_and_alias_def by (auto split: if_splits)
  have "p = ?pa \<or> p = ?pb" using set2 by blast
  then have "linked_to t p = p" using linked_to_idem[OF tok] t by (auto simp: resolve_linked_table)
  then have p_new: "p \<notin> lk_alias ` set t" using linked_to_self[OF tok] by (simp add: tbl_get_None)
  have pq_ne: "p \<noteq> q"
  proof
    assume e: "p = q"
    have "?pa \<in> {p, q}" "?pb \<in> {p, q}" unfolding set2[symmetric] by (rule insertI1, rule insertI2, rule insertI1)
    with e ne show False by (metis insertE singletonD)
  qed
  show ?thesis
    by (rule that[OF t tok db' new _ p_new pq_ne role])
      (use set2 which t list_links_none[OF t] lone in \<open>auto simp: resolve_linked_table\<close>)
qed

lemma link_keeps_ok:
  assumes "signin_ok db" shows "signin_ok (snd (link_identities a b now rdb db))"
proof (cases "\<exists>p q. fst (link_identities a b now rdb db) = Linked p q")
  case True
  then obtain p q db' where l: "link_identities a b now rdb db = (Linked p q, db')"
    by (metis prod.collapse)
  from link_cases[OF l assms] obtain t where t: "links_ok t" "tbl_get lk_alias q t = None"
    "q \<notin> lk_primary ` set t" "p \<notin> lk_alias ` set t" "p \<noteq> q"
    "db' = db\<lparr>sg_links := Some (t @ [\<lparr>lk_alias = q, lk_primary = p, lk_at = now\<rparr>])\<rparr>" by metis
  have "links_ok (t @ [\<lparr>lk_alias = q, lk_primary = p, lk_at = now\<rparr>])"
    by (rule links_ok_snoc) (use t in \<open>auto simp: tbl_get_None\<close>)
  with t assms l show ?thesis by (simp add: signin_ok_def)
next
  case False
  then have "snd (link_identities a b now rdb db) = db"
    unfolding link_identities_def Let_def
    by (auto simp: join_account_def split: if_splits option.splits prod.splits)
  with assms show ?thesis by simp
qed

text \<open>
  C31: Linking two identities makes one account of them: both then resolve to the surviving one \<open>p\<close>, no other
  identity resolves differently except those that resolved to \<open>q\<close>, the account that disappears holds no role,
  and removing the link gives every identity its own account back.
\<close>

theorem linking_makes_one_account:
  assumes l: "link_identities a b now rdb db = (Linked p q, db')" and ok: "signin_ok db"
  shows "resolve_linked True a db' = p \<and> resolve_linked True b db' = p
    \<and> {resolve_linked True a db, resolve_linked True b db} = {p, q} \<and> \<not> holds_role q rdb
    \<and> (\<forall>u. resolve_linked True u db' = (if u = q then p else resolve_linked True u db))
    \<and> (\<exists>back. unlink_identity p q db' = Some (True, back)
         \<and> (\<forall>u. resolve_linked True u back = resolve_linked True u db))"
proof -
  from link_cases[OF l ok] obtain t where t: "sg_links db = Some t" and tok: "links_ok t"
    and db': "db' = db\<lparr>sg_links := Some (t @ [\<lparr>lk_alias = q, lk_primary = p, lk_at = now\<rparr>])\<rparr>"
    and new: "tbl_get lk_alias q t = None" and ne: "p \<noteq> q" and role: "\<not> holds_role q rdb"
    and two: "{linked_to t a, linked_to t b} = {p, q}"
    and which: "a = q \<and> linked_to t b = p \<or> b = q \<and> linked_to t a = p" by metis
  have after: "resolve_linked True u db' = (if u = q then p else resolve_linked True u db)" for u
    using linked_to_snoc[of "\<lparr>lk_alias = q, lk_primary = p, lk_at = now\<rparr>" t u] new t db'
    by (simp add: resolve_linked_table)
  have both: "resolve_linked True a db' = p \<and> resolve_linked True b db' = p"
    using which t by (auto simp: after resolve_linked_table[of _ db])
  have q_self: "linked_to t q = q" using new by (simp add: linked_to_def)
  have drop: "tbl_delete (\<lambda>r. lk_alias r = q \<and> lk_primary r = p) t = t"
    using new unfolding tbl_delete_def by (auto simp: tbl_get_None filter_id_conv)
  have undo: "unlink_identity p q db' = Some (True, db'\<lparr>sg_links := Some t\<rparr>)"
    using drop db' by (simp add: unlink_identity_def tbl_delete_def)
  have "\<forall>u. resolve_linked True u (db'\<lparr>sg_links := Some t\<rparr>) = resolve_linked True u db"
    using t by (simp add: resolve_linked_table)
  moreover have "{resolve_linked True a db, resolve_linked True b db} = {p, q}"
    using two t by (simp add: resolve_linked_table)
  ultimately show ?thesis using undo after both role by blast
qed

section \<open>Sessions\<close>

definition valid_at :: "millis \<Rightarrow> signin_row \<Rightarrow> bool" where
  "valid_at now r = (now < ss_expires r)"

definition signs_in :: "signin_row \<Rightarrow> signin_session" where
  "signs_in r = \<lparr>sn_user = ss_user r, sn_name = ss_name r, sn_expires = ss_expires r\<rparr>"

lemma lookup_result:
  "fst (lookup_session hash token now db) = (if token = [] then None else (case sg_sessions db of
     None \<Rightarrow> None | Some t \<Rightarrow> (case tbl_get ss_hash (hash token) t of None \<Rightarrow> None
       | Some r \<Rightarrow> if valid_at now r then Some (signs_in r) else None)))"
  by (auto simp: lookup_session_def valid_at_def signs_in_def split: option.splits)

text \<open>The operations a running host performs, each with the instant it happens at.\<close>

datatype signin_op = NewSession string string string | Look string | SignOut string | Prune
  | Link string string role_db | Unlink string string

fun signin_step :: "(string \<Rightarrow> string) \<Rightarrow> signin_op \<times> millis \<Rightarrow> signin_db \<Rightarrow> signin_db" where
  "signin_step hash (NewSession token u name, now) db = coalesce (create_session hash token u name now db) db"
| "signin_step hash (Look token, now) db = snd (lookup_session hash token now db)"
| "signin_step hash (SignOut token, now) db = delete_session hash token db"
| "signin_step hash (Prune, now) db = prune_signin_sessions now db"
| "signin_step hash (Link a b rdb, now) db = snd (link_identities a b now rdb db)"
| "signin_step hash (Unlink p a, now) db = (case unlink_identity p a db of None \<Rightarrow> db | Some (_, db') \<Rightarrow> db')"

definition run_signin :: "(string \<Rightarrow> string) \<Rightarrow> (signin_op \<times> millis) list \<Rightarrow> signin_db \<Rightarrow> signin_db" where
  "run_signin hash ops db = fold (signin_step hash) ops db"

lemma link_sessions [simp]: "sg_sessions (snd (link_identities a b now rdb db)) = sg_sessions db"
proof -
  have "sg_sessions (snd (join_account p q now rdb db)) = sg_sessions db" for p q
    unfolding join_account_def insert_link_def by (simp split: option.split)
  then show ?thesis unfolding link_identities_def Let_def by (simp split: prod.split)
qed

lemma session_links [simp]:
  "sg_links (delete_session hash token db) = sg_links db"
  "sg_links (prune_signin_sessions now db) = sg_links db"
  "sg_links (snd (lookup_session hash token now db)) = sg_links db"
  unfolding lookup_session_def by (simp_all add: delete_session_def prune_signin_sessions_def split: option.split)

lemma sessions_ok_delete:
  "keyed ss_hash t \<and> list_all session_row_ok t \<Longrightarrow>
   keyed ss_hash (tbl_delete p t) \<and> list_all session_row_ok (tbl_delete p t)"
  by (auto simp: list_all_iff)

lemma delete_keeps_ok: "signin_ok db \<Longrightarrow> signin_ok (delete_session hash token db)"
  using sessions_ok_delete by (auto simp: delete_session_def signin_ok_def)

lemma lookup_leaves:
  "snd (lookup_session hash token now db) = db
   \<or> (\<exists>t r. snd (lookup_session hash token now db) = delete_session hash token db
      \<and> sg_sessions db = Some t \<and> tbl_get ss_hash (hash token) t = Some r \<and> ss_expires r \<le> now)
   \<or> (\<exists>t. sg_sessions db = Some t \<and> snd (lookup_session hash token now db)
      = db\<lparr>sg_sessions := Some (tbl_update (\<lambda>x. ss_hash x = hash token) (\<lambda>x. x\<lparr>ss_used := now\<rparr>) t)\<rparr>)"
  unfolding lookup_session_def by (simp split: option.split)

lemma lookup_keeps_ok:
  assumes ok: "signin_ok db" shows "signin_ok (snd (lookup_session hash token now db))"
  using lookup_leaves[of hash token now db]
proof (elim disjE exE conjE)
  fix t
  assume t: "sg_sessions db = Some t" "snd (lookup_session hash token now db)
      = db\<lparr>sg_sessions := Some (tbl_update (\<lambda>x. ss_hash x = hash token) (\<lambda>x. x\<lparr>ss_used := now\<rparr>) t)\<rparr>"
  have "keyed ss_hash (tbl_update p (\<lambda>x. x\<lparr>ss_used := now\<rparr>) t)
      \<and> list_all session_row_ok (tbl_update p (\<lambda>x. x\<lparr>ss_used := now\<rparr>) t)"
    if "keyed ss_hash t" "list_all session_row_ok t" for p
    using that by (auto simp: list_all_iff set_update session_row_ok_def)
  with ok t show ?thesis by (simp add: signin_ok_def)
qed (simp_all add: ok delete_keeps_ok)

lemma create_keeps_ok: "signin_ok db \<Longrightarrow> create_session hash token u name now db = Some db' \<Longrightarrow> signin_ok db'"
  by (auto simp: create_session_def signin_ok_def keyed_def session_row_ok_def tbl_get_None
      split: option.splits if_splits)

lemma step_keeps_ok: "signin_ok db \<Longrightarrow> signin_ok (signin_step hash op db)"
proof (induction hash op db rule: signin_step.induct)
  case (1 hash token u name now db)
  then show ?case using create_keeps_ok by (cases "create_session hash token u name now db") auto
next
  case (4 hash now db)
  then show ?case using sessions_ok_delete by (auto simp: prune_signin_sessions_def signin_ok_def)
next
  case (6 hash p a now db)
  then show ?case by (auto simp: unlink_identity_def signin_ok_def links_ok_delete split: option.splits)
qed (simp_all add: lookup_keeps_ok delete_keeps_ok link_keeps_ok)

text \<open>
  C32: Whatever sequence of creations, lookups, deletions, sweeps, links and unlinks runs, the sign-in tables keep
  their form: digests and aliases are unique, a session expires its fixed time after it was created, no primary is itself
  an alias; so resolving an identity twice gives what resolving it once gives.
\<close>

theorem signin_tables_well_formed:
  assumes "signin_ok db"
  shows "signin_ok (run_signin hash ops db)
    \<and> resolve_linked True (resolve_linked True u (run_signin hash ops db)) (run_signin hash ops db)
      = resolve_linked True u (run_signin hash ops db)"
proof -
  have ok: "signin_ok (run_signin hash ops db)"
    unfolding run_signin_def using assms by (induction ops arbitrary: db) (auto simp: step_keeps_ok)
  then show ?thesis
    by (cases "sg_links (run_signin hash ops db)") (auto simp: signin_ok_def linked_to_idem resolve_linked_table)
qed

section \<open>How long a session lasts\<close>

definition session_live :: "string \<Rightarrow> signin_session \<Rightarrow> millis \<Rightarrow> signin_db \<Rightarrow> bool" where
  "session_live h sn now db = (\<exists>t. sg_sessions db = Some t \<and>
     (case tbl_get ss_hash h t of None \<Rightarrow> sn_expires sn \<le> now | Some r \<Rightarrow> signs_in r = sn))"

fun other_token :: "(string \<Rightarrow> string) \<Rightarrow> string \<Rightarrow> signin_op \<Rightarrow> bool" where
  "other_token hash token (NewSession tk _ _) = (hash tk \<noteq> hash token)"
| "other_token hash token (SignOut tk) = (hash tk \<noteq> hash token)"
| "other_token hash token _ = True"

lemma session_state_sessions:
  "sg_sessions db' = sg_sessions db \<Longrightarrow> session_live h sn now db' = session_live h sn now db"
  by (simp add: session_live_def)

lemma session_state_delete_other:
  "hash tk \<noteq> h \<Longrightarrow> session_live h sn now db \<Longrightarrow> session_live h sn now (delete_session hash tk db)"
  by (auto simp: session_live_def delete_session_def tbl_get_delete_key split: option.splits)

lemma session_state_lookup:
  assumes s: "session_live h sn now db" and le: "t' \<le> now"
  shows "session_live h sn now (snd (lookup_session hash tk t' db))"
  using lookup_leaves[of hash tk t' db]
proof (elim disjE exE conjE)
  assume "snd (lookup_session hash tk t' db) = db"
  with s show ?thesis by simp
next
  fix t r
  assume d: "snd (lookup_session hash tk t' db) = delete_session hash tk db"
    and r: "sg_sessions db = Some t" "tbl_get ss_hash (hash tk) t = Some r" "ss_expires r \<le> t'"
  show ?thesis
  proof (cases "hash tk = h")
    case True
    with s r have "sn_expires sn \<le> now" using le by (auto simp: session_live_def signs_in_def)
    with s r True show ?thesis unfolding d
      by (auto simp: session_live_def delete_session_def tbl_get_delete_key)
  next
    case False
    then show ?thesis unfolding d using s by (rule session_state_delete_other)
  qed
next
  fix t
  assume t: "sg_sessions db = Some t"
    and u: "snd (lookup_session hash tk t' db)
      = db\<lparr>sg_sessions := Some (tbl_update (\<lambda>x. ss_hash x = hash tk) (\<lambda>x. x\<lparr>ss_used := t'\<rparr>) t)\<rparr>"
  from s t show ?thesis unfolding u
    by (auto simp: session_live_def tbl_get_update signs_in_def split: option.splits)
qed

lemma session_state_step:
  assumes "session_live (hash token) sn now db" "signin_ok db" "other_token hash token op" "t' \<le> now"
  shows "session_live (hash token) sn now (signin_step hash (op, t') db)"
proof (cases op)
  case (NewSession tk u name)
  with assms(1,3) show ?thesis
    by (auto simp: session_live_def create_session_def coalesce_def tbl_get_def find_append split: option.splits)
next
  case (Look tk)
  with assms(1,4) show ?thesis by (simp add: session_state_lookup)
next
  case (SignOut tk)
  with assms show ?thesis by (simp add: session_state_delete_other)
next
  case Prune
  from assms(1) obtain t where t: "sg_sessions db = Some t" by (auto simp: session_live_def)
  with assms(2) have "keyed ss_hash t" by (simp add: signin_ok_def)
  with assms(1,4) t Prune show ?thesis
    by (auto simp: session_live_def prune_signin_sessions_def tbl_get_delete_other signs_in_def split: option.splits)
next
  case (Link a b rdb)
  then show ?thesis using assms(1) session_state_sessions[of "snd (link_identities a b t' rdb db)" db] by simp
next
  case (Unlink p a)
  then show ?thesis using assms(1) by (auto simp: unlink_identity_def session_live_def split: option.splits)
qed

text \<open>
  A session is found under its token, with the account and name it was created for, at every instant before its
  fourteen days are over and at none after, whatever other sessions are created, looked up, deleted or swept and whatever
  accounts are linked in between.
\<close>

theorem session_lives_its_ttl:
  assumes c: "create_session hash token u name t0 db = Some db1" and ok: "signin_ok db" and ne: "token \<noteq> []"
    and ops: "\<forall>(op, t) \<in> set ops. t \<le> now \<and> other_token hash token op"
  shows "fst (lookup_session hash token now (run_signin hash ops db1))
    = (if now < t0 + SESSION_TTL_MS
       then Some \<lparr>sn_user = u, sn_name = name, sn_expires = t0 + SESSION_TTL_MS\<rparr> else None)"
proof -
  let ?sn = "\<lparr>sn_user = u, sn_name = name, sn_expires = t0 + SESSION_TTL_MS\<rparr>"
  have start: "session_live (hash token) ?sn now db1"
  proof -
    from c obtain t where "tbl_get ss_hash (hash token) t = None"
      "sg_sessions db1 = Some (t @ [\<lparr>ss_hash = hash token, ss_user = u, ss_name = name,
         ss_created = t0, ss_expires = t0 + SESSION_TTL_MS, ss_used = t0\<rparr>])"
      by (auto simp: create_session_def split: option.splits if_splits)
    then show ?thesis by (simp add: session_live_def tbl_get_def find_append signs_in_def)
  qed
  have "session_live (hash token) ?sn now (run_signin hash ops db1)"
    unfolding run_signin_def using ops start create_keeps_ok[OF ok c]
  proof (induction ops arbitrary: db1)
    case (Cons x ops)
    obtain op t where x: "x = (op, t)" by fastforce
    with Cons show ?case by (simp add: session_state_step step_keeps_ok)
  qed simp
  then show ?thesis using ne
    by (auto simp: lookup_result session_live_def valid_at_def signs_in_def split: option.splits)
qed

section \<open>One person, two sign-ins\<close>

definition two_people :: role_db where
  "two_people = \<lparr>user_roles = Some [],
     users = Some [\<lparr>u_id = ''webchat:tailscale:ann'', u_kind = ''webchat'', u_display = None, u_created = 1\<rparr>,
                   \<lparr>u_id = ''webchat:ann@x'', u_kind = ''webchat'', u_display = None, u_created = 7\<rparr>],
     audit_log = []\<rparr>"

definition fresh_signin :: signin_db where
  "fresh_signin = \<lparr>sg_sessions = Some [], sg_links = Some []\<rparr>"

lemma fresh_signin_ok: "signin_ok fresh_signin"
  by (simp add: signin_ok_def fresh_signin_def links_ok_def)

theorem linking_makes_one_account_witness:
  "resolve_linked True ''webchat:ann@x''
     (snd (link_identities ''webchat:ann@x'' ''webchat:tailscale:ann'' 9 two_people fresh_signin))
   = ''webchat:tailscale:ann''"
proof -
  let ?r = "link_identities ''webchat:ann@x'' ''webchat:tailscale:ann'' 9 two_people fresh_signin"
  have "fst ?r = Linked ''webchat:tailscale:ann'' ''webchat:ann@x''" by code_simp
  then have "?r = (Linked ''webchat:tailscale:ann'' ''webchat:ann@x'', snd ?r)" by (metis prod.collapse)
  from linking_makes_one_account[OF this fresh_signin_ok] show ?thesis by blast
qed

theorem signin_tables_well_formed_witness:
  "signin_ok (run_signin id [(NewSession ''t'' ''webchat:ann@x'' ''Ann'', 1),
     (Link ''webchat:ann@x'' ''webchat:tailscale:ann'' two_people, 2), (Prune, 3)] fresh_signin)"
  using signin_tables_well_formed[OF fresh_signin_ok] by blast

theorem session_lives_its_ttl_witness:
  "fst (lookup_session id ''t'' 5 (run_signin id [(Prune, 3), (SignOut ''s'', 4)]
     (the (create_session id ''t'' ''webchat:ann@x'' ''Ann'' 1 fresh_signin)))) \<noteq> None"
proof -
  have c: "create_session id ''t'' ''webchat:ann@x'' ''Ann'' 1 fresh_signin
      = Some (the (create_session id ''t'' ''webchat:ann@x'' ''Ann'' 1 fresh_signin))"
    by (simp add: create_session_def fresh_signin_def tbl_get_def)
  show ?thesis
    by (subst session_lives_its_ttl[OF c fresh_signin_ok]) (simp_all add: SESSION_TTL_MS_def)
qed

end
