(* ===== verification/AuthFacts.thy ===== *)
theory AuthFacts
  imports Authenticate TokenFacts SignInFacts
begin

text \<open>
  What signing in proves. \<open>entitled\<close> says, independently of the order the methods are tried in, which
  evidence entitles a request to which identity by which method; whoever the server signs in is so
  entitled, and is signed in as the account that identity belongs to.
\<close>

definition account_of :: "auth_source \<Rightarrow> string \<Rightarrow> signin_db \<Rightarrow> string" where
  "account_of src raw sg = (if src = FromBearer \<or> src = FromLocalhost then raw else resolve_linked True raw sg)"

inductive entitled :: "'k auth_host \<Rightarrow> request \<Rightarrow> 'k auth_state \<Rightarrow> millis \<Rightarrow> auth_source \<Rightarrow> string \<Rightarrow> bool"
  for h req st t where
  operator: "bearer_active h (au_settings st) \<Longrightarrow> provided_token req = Some (ho_token h)
    \<Longrightarrow> entitled h req st t FromBearer ''webchat:owner''"
| token: "oc_enabled (oidc_cfg (ho_env h)) \<Longrightarrow> presented_token req = Some tk
    \<Longrightarrow> genuine_token (ho_crypto h) (ho_net h) (oc_tokens (oidc_cfg (ho_env h))) tk t claims
    \<Longrightarrow> oidc_identity_claim (oc_provider (oidc_cfg (ho_env h))) claims = Some i
    \<Longrightarrow> entitled h req st t FromOidc (oidc_user_id i)"
| session: "oc_enabled (oidc_cfg (ho_env h)) \<Longrightarrow> session_token_from_cookie (rq_headers req ''cookie'') = Some tk
    \<Longrightarrow> header_set ''upgrade'' req \<Longrightarrow> same_origin_request (ho_url h) req
    \<Longrightarrow> sg_sessions (au_signin st) = Some rows \<Longrightarrow> row \<in> set rows \<Longrightarrow> ss_hash row = ho_hash h tk
    \<Longrightarrow> t < ss_expires row \<Longrightarrow> entitled h req st t FromOidc (ss_user row)"
| page_session: "oc_enabled (oidc_cfg (ho_env h)) \<Longrightarrow> session_token_from_cookie (rq_headers req ''cookie'') = Some tk
    \<Longrightarrow> \<not> header_set ''upgrade'' req
    \<Longrightarrow> sg_sessions (au_signin st) = Some rows \<Longrightarrow> row \<in> set rows \<Longrightarrow> ss_hash row = ho_hash h tk
    \<Longrightarrow> t < ss_expires row \<Longrightarrow> entitled h req st t FromOidc (ss_user row)"
| verified_proxy: "proxy_gate h (remote_ip req) \<Longrightarrow> fst (cf_access_cfg (ho_env h))
    \<Longrightarrow> full_header ''cf-access-jwt-assertion'' req = Some tk
    \<Longrightarrow> genuine_token (ho_crypto h) (ho_net h) (snd (cf_access_cfg (ho_env h))) tk t claims
    \<Longrightarrow> jfield ''email'' claims = Some (VStr e) \<Longrightarrow> e \<noteq> []
    \<Longrightarrow> full_header ''cf-access-authenticated-user-email'' req = Some u \<Longrightarrow> map lower e = map lower u
    \<Longrightarrow> entitled h req st t FromProxy (oidc_user_id e)"
| platform: "proxy_gate h (remote_ip req) \<Longrightarrow> \<not> fst (cf_access_cfg (ho_env h))
    \<Longrightarrow> platform_identity req = Some u \<Longrightarrow> entitled h req st t FromProxy (oidc_user_id u)"
| named_header: "proxy_gate h (remote_ip req) \<Longrightarrow> \<not> fst (cf_access_cfg (ho_env h))
    \<Longrightarrow> platform_identity req = None \<Longrightarrow> full_header (px_header (proxy_cfg (ho_env h))) req = Some u
    \<Longrightarrow> entitled h req st t FromProxy (oidc_user_id u)"
| serve_listener: "tailscale_enabled (ho_env h) \<Longrightarrow> is_localhost (remote_ip req) \<Longrightarrow> rq_serve req
    \<Longrightarrow> header_login req = Some l \<Longrightarrow> entitled h req st t FromTailscale (tailscale_user_id l)"
| legacy_serve: "tailscale_enabled (ho_env h) \<Longrightarrow> is_localhost (remote_ip req)
    \<Longrightarrow> routing = fst (serve_routing_for (ho_url h) (ho_runner h) (main_port (ho_env h)) (ho_serve_port h) t (au_routing st))
    \<Longrightarrow> \<not> sr_dedicated routing \<Longrightarrow> tailscale_serve_identity req (remote_ip req) (sr_legacy routing) = Some l
    \<Longrightarrow> entitled h req st t FromTailscale (tailscale_user_id l)"
| peer: "tailscale_enabled (ho_env h) \<Longrightarrow> fst (tailscale_whois h (remote_ip req) t st) = Some l
    \<Longrightarrow> entitled h req st t FromTailscale (tailscale_user_id l)"
| this_machine: "is_localhost (remote_ip req) \<Longrightarrow> \<not> rq_serve req \<Longrightarrow> \<not> relayed_request req
    \<Longrightarrow> \<not> bearer_active h (au_settings st) \<Longrightarrow> \<not> tailscale_enabled (ho_env h)
    \<Longrightarrow> \<not> proxy_enabled (ho_env h) \<Longrightarrow> \<not> oc_enabled (oidc_cfg (ho_env h))
    \<Longrightarrow> entitled h req st t FromLocalhost ''webchat:local-owner''"

section \<open>What a step leaves alone\<close>

lemma warn_frame [simp]:
  "au_settings (warn_fall_through ip r s now st) = au_settings st"
  "au_signin (warn_fall_through ip r s now st) = au_signin st"
  "au_whois (warn_fall_through ip r s now st) = au_whois st"
  "au_routing (warn_fall_through ip r s now st) = au_routing st"
  "au_jwks (warn_fall_through ip r s now st) = au_jwks st"
  by (simp_all add: warn_fall_through_def Let_def split: option.split)

lemma record_user_frame [simp]:
  "au_jwks (record_user h u name now st) = au_jwks st"
  "au_signin (record_user h u name now st) = au_signin st"
  by (simp_all add: record_user_def Let_def split: option.split)

lemma promote_first_frame [simp]:
  "au_jwks (promote_first h u now st) = au_jwks st"
  "au_signin (promote_first h u now st) = au_signin st"
  by (simp_all add: promote_first_def split: prod.split)

lemma finalize_result:
  assumes "finalize h src u name now st = (r, s)"
  shows "ar_user r = account_of src u (au_signin st) \<and> ar_source r = src \<and> au_jwks s = au_jwks st"
proof (cases "linked_account src u (au_signin st)")
  case None
  then have "account_of src u (au_signin st) = u"
    by (auto simp: linked_account_def account_of_def Let_def split: if_splits)
  with None assms show ?thesis by (auto simp: finalize_def Let_def ensure_owner_def)
next
  case (Some a)
  then have "account_of src u (au_signin st) = a"
    by (auto simp: linked_account_def account_of_def Let_def split: if_splits)
  with Some assms show ?thesis by (auto simp: finalize_def Let_def ensure_owner_def)
qed

text \<open>Nothing a later method reads has changed.\<close>

definition same_base :: "'k auth_state \<Rightarrow> 'k auth_state \<Rightarrow> bool" where
  "same_base st s = (au_settings s = au_settings st \<and> au_whois s = au_whois st \<and> au_routing s = au_routing st
     \<and> sg_links (au_signin s) = sg_links (au_signin st))"

lemma same_base_refl [simp]: "same_base st st"
  by (simp add: same_base_def)

lemma same_base_trans: "same_base a b \<Longrightarrow> same_base b c \<Longrightarrow> same_base a c"
  by (simp add: same_base_def)

lemma account_same_base: "same_base st s \<Longrightarrow> account_of src u (au_signin s) = account_of src u (au_signin st)"
  by (simp add: same_base_def account_of_def resolve_linked_def)

text \<open>What is claimed of a step: a sign-in is entitled, or the request is passed on.\<close>

definition sound_step ::
  "'k auth_host \<Rightarrow> request \<Rightarrow> 'k auth_state \<Rightarrow> step_outcome \<times> millis \<times> 'k auth_state \<Rightarrow> bool" where
  "sound_step h req st x = (case x of (out, t, s) \<Rightarrow>
     keys_served (cr_import (ho_crypto h)) (ho_net h) (au_jwks s)
     \<and> (case out of
          Settled (SignedIn r) \<Rightarrow> (\<exists>raw. entitled h req st t (ar_source r) raw
             \<and> ar_user r = account_of (ar_source r) raw (au_signin st))
        | Settled _ \<Rightarrow> True
        | Pass _ \<Rightarrow> same_base st s))"

lemma ar_with_hint [simp]: "\<exists>r'. with_hint stale r = SignedIn r' \<and> ar_user r' = ar_user r \<and> ar_source r' = ar_source r"
  by (simp add: with_hint_def)

lemma with_hint_cases: "with_hint stale r = SignedIn (if stale then r\<lparr>ar_stale_hint := True\<rparr> else r)"
  by (simp add: with_hint_def)

abbreviation served :: "'k auth_host \<Rightarrow> 'k auth_state \<Rightarrow> bool" where
  "served h s \<equiv> keys_served (cr_import (ho_crypto h)) (ho_net h) (au_jwks s)"

lemma sound_signed_in:
  assumes "finalize h src raw name t s = (r, s')" "served h s" "same_base st s" "entitled h req st t src raw"
    "ar_user r' = ar_user r" "ar_source r' = ar_source r"
  shows "sound_step h req st (Settled (SignedIn r'), t, s')"
  using assms finalize_result[OF assms(1)] account_same_base[OF assms(3), of src raw]
  by (auto simp: sound_step_def)

lemma sound_bearer: "served h st \<Longrightarrow> sound_step h req st (try_bearer h req now st)"
proof -
  assume k: "served h st"
  obtain r s where f: "finalize h FromBearer ''webchat:owner'' ''operator'' now st = (r, s)" by fastforce
  show ?thesis
  proof (cases "bearer_active h (au_settings st) \<and> truthy (provided_token req) \<and> provided_token req = Some (ho_token h)")
    case True
    then show ?thesis
      using sound_signed_in[OF f k _ operator, of st req r] by (auto simp: try_bearer_def f)
  next
    case False
    with k show ?thesis unfolding try_bearer_def by (auto simp: sound_step_def)
  qed
qed

lemma sound_pass:
  "served h s \<Longrightarrow> same_base st s \<Longrightarrow> sound_step h req st (Pass b, t, s)"
  by (simp add: sound_step_def)

lemma sound_raised: "served h s \<Longrightarrow> sound_step h req st (Settled AuthRaised, t, s)"
  by (simp add: sound_step_def)

lemma sound_oidc:
  assumes k: "served h st" shows "sound_step h req st (try_oidc h req now st)"
proof (cases "oc_enabled (oidc_cfg (ho_env h))")
  case False
  with k show ?thesis by (simp add: try_oidc_def sound_pass)
next
  case on: True
  show ?thesis
  proof (cases "presented_token req")
    case None
    with on k show ?thesis by (simp add: try_oidc_def sound_pass)
  next
    case (Some tk)
    obtain res t c where v: "verify_oidc_token (ho_crypto h) (ho_net h) tk None (ho_env h) now (au_jwks st) = (res, t, c)"
      by (metis prod_cases3)
    have c: "keys_served (cr_import (ho_crypto h)) (ho_net h) c" by (rule verify_oidc_keys[OF k v])
    show ?thesis
    proof (cases res)
      case (Accepted i)
      obtain r s where f: "finalize h FromOidc (oidc_user_id (oi_identity i)) (oi_name i) t (st\<lparr>au_jwks := c\<rparr>) = (r, s)"
        by fastforce
      from verify_oidc_genuine[OF k v[unfolded Accepted]] obtain claims where
        g: "genuine_token (ho_crypto h) (ho_net h) (oc_tokens (oidc_cfg (ho_env h))) tk t claims"
          "oidc_identity_claim (oc_provider (oidc_cfg (ho_env h))) claims = Some (oi_identity i)" by metis
      have "sound_step h req st (Settled (SignedIn r), t, s)"
        by (rule sound_signed_in[OF f _ _ token[OF on Some g]]) (simp_all add: c same_base_def)
      then show ?thesis using on Some v Accepted f by (simp add: try_oidc_def)
    next
      case (Refused why secs)
      then show ?thesis using on Some v c by (simp add: try_oidc_def sound_pass same_base_def)
    next
      case Raises
      then show ?thesis using on Some v c by (simp add: try_oidc_def sound_raised)
    qed
  qed
qed

lemma sound_session:
  assumes k: "served h s0" and b: "same_base st s0" "au_signin s0 = au_signin st"
  shows "sound_step h req st (try_session h req stale now s0)"
proof (cases "oc_enabled (oidc_cfg (ho_env h)) \<and> session_token_from_cookie (rq_headers req ''cookie'') \<noteq> None
    \<and> \<not> (header_set ''upgrade'' req \<and> \<not> same_origin_request (ho_url h) req)")
  case False
  then show ?thesis using k b by (auto simp: try_session_def sound_pass split: option.split)
next
  case True
  then obtain tk where tk: "session_token_from_cookie (rq_headers req ''cookie'') = Some tk" by auto
  obtain res sg where l: "lookup_session (ho_hash h) tk now (au_signin s0) = (res, sg)" by fastforce
  have links: "sg_links sg = sg_links (au_signin s0)"
    using session_links(3)[of "ho_hash h" tk now "au_signin s0"] l by simp
  show ?thesis
  proof (cases res)
    case None
    then show ?thesis using True tk l k b links by (simp add: try_session_def sound_pass same_base_def)
  next
    case (Some sn)
    obtain r s where f: "finalize h FromOidc (sn_user sn) (sn_name sn) now (s0\<lparr>au_signin := sg\<rparr>) = (r, s)" by fastforce
    have "fst (lookup_session (ho_hash h) tk now (au_signin st)) = Some sn" using l Some b by simp
    then obtain rows row where row: "sg_sessions (au_signin st) = Some rows" "row \<in> set rows"
      "ss_hash row = ho_hash h tk" "now < ss_expires row" "sn_user sn = ss_user row"
      by (auto simp: lookup_result valid_at_def signs_in_def dest: tbl_get_SomeD split: option.splits if_splits)
    have e: "entitled h req st now FromOidc (sn_user sn)"
      using True tk row session[of h req tk st rows row now] page_session[of h req tk st rows row now] by auto
    have "sound_step h req st (Settled (SignedIn (if stale then r\<lparr>ar_via_session := True, ar_stale_hint := True\<rparr>
        else r\<lparr>ar_via_session := True\<rparr>)), now, s)"
      by (rule sound_signed_in[OF f _ _ e]) (use k b links in \<open>simp_all add: same_base_def\<close>)
    then show ?thesis using True tk l Some f by (auto simp: try_session_def with_hint_cases)
  qed
qed

lemma cf_access_sound:
  assumes k: "served h s0" and v: "verify_cf_access h a email ip now s0 = (res, t, s)"
  shows "served h s \<and> au_signin s = au_signin s0 \<and> same_base s0 s \<and> (\<forall>u. res = Accepted (Some u) \<longrightarrow>
    (\<exists>claims. genuine_token (ho_crypto h) (ho_net h) (snd (cf_access_cfg (ho_env h))) a t claims
       \<and> jfield ''email'' claims = Some (VStr u) \<and> u \<noteq> [] \<and> map lower u = map lower email))"
proof -
  obtain jr jt c where j: "verify_jwt (ho_crypto h) (ho_net h) a (snd (cf_access_cfg (ho_env h))) now (au_jwks s0) = (jr, jt, c)"
    by (metis prod_cases3)
  have c: "keys_served (cr_import (ho_crypto h)) (ho_net h) c" by (rule verify_jwt_keys[OF k j])
  show ?thesis
  proof (cases jr)
    case (Accepted claims)
    have e: "jfield ''email'' claims = Some (VStr u)" if "jtext (jfield ''email'' claims) = u" "u \<noteq> []" for u
      using that by (auto simp: jtext_def split: option.splits jval.splits)
    show ?thesis
      using v j c Accepted verify_jwt_genuine[OF k j[unfolded Accepted]] e
      by (auto simp: verify_cf_access_def Let_def same_base_def split: if_splits)
  next
    case (Refused why secs)
    with v j c show ?thesis by (auto simp: verify_cf_access_def same_base_def)
  next
    case Raises
    with v j c show ?thesis by (auto simp: verify_cf_access_def same_base_def)
  qed
qed

lemma trusted_proxy_sound:
  assumes k: "served h s0" and v: "authenticate_trusted_proxy h req (remote_ip req) now s0 = (res, t, s)"
  shows "served h s \<and> same_base s0 s
    \<and> (\<forall>u. res = Accepted (Some u) \<longrightarrow> entitled h req st t FromProxy (oidc_user_id u))"
proof (cases "proxy_gate h (remote_ip req)")
  case False
  with v k show ?thesis by (auto simp: authenticate_trusted_proxy_def)
next
  case gate: True
  show ?thesis
  proof (cases "fst (cf_access_cfg (ho_env h))")
    case False
    with gate v k show ?thesis
      by (auto simp: authenticate_trusted_proxy_def intro: platform named_header split: option.splits)
  next
    case cf: True
    show ?thesis
    proof (cases "full_header ''cf-access-authenticated-user-email'' req = None
        \<or> full_header ''cf-access-jwt-assertion'' req = None")
      case True
      with cf gate v k show ?thesis by (auto simp: authenticate_trusted_proxy_def split: option.splits)
    next
      case False
      then obtain u a where h: "full_header ''cf-access-authenticated-user-email'' req = Some u"
        "full_header ''cf-access-jwt-assertion'' req = Some a" by auto
      then have "verify_cf_access h a u (drop_mapped (remote_ip req)) now s0 = (res, t, s)"
        using cf gate v by (simp add: authenticate_trusted_proxy_def)
      from cf_access_sound[OF k this] show ?thesis
        using verified_proxy[OF gate cf h(2) _ _ _ h(1)] by blast
    qed
  qed
qed

lemma sound_proxy:
  assumes k: "served h s0" and b: "same_base st s0"
  shows "sound_step h req st (try_proxy h req stale now s0)"
proof -
  obtain res t s where v: "authenticate_trusted_proxy h req (remote_ip req) now s0 = (res, t, s)" by (metis prod_cases3)
  from trusted_proxy_sound[OF k v] have p: "served h s" "same_base s0 s"
    "\<And>u. res = Accepted (Some u) \<Longrightarrow> entitled h req st t FromProxy (oidc_user_id u)" by blast+
  have b': "same_base st s" by (rule same_base_trans[OF b p(2)])
  show ?thesis
  proof (cases "\<exists>u. res = Accepted (Some u)")
    case True
    then obtain u where u: "res = Accepted (Some u)" by blast
    obtain r s' where f: "finalize h FromProxy (oidc_user_id u) u t s = (r, s')" by fastforce
    have "sound_step h req st (Settled (SignedIn (if stale then r\<lparr>ar_stale_hint := True\<rparr> else r)), t, s')"
      by (rule sound_signed_in[OF f p(1) b' p(3)[OF u]]) simp_all
    then show ?thesis using v u f by (simp add: try_proxy_def with_hint_cases)
  next
    case False
    then show ?thesis using v p(1) b'
      by (auto simp: try_proxy_def sound_pass sound_raised split: token_result.splits option.splits)
  qed
qed

lemma serve_login_frame:
  assumes "serve_login_of h req ip now st = (l, s)"
  shows "au_jwks s = au_jwks st \<and> au_settings s = au_settings st \<and> au_whois s = au_whois st \<and> au_signin s = au_signin st"
  using assms by (auto simp: serve_login_of_def split: if_splits prod.splits)

lemma whois_frame:
  assumes "tailscale_whois h ip now st = (l, s)"
  shows "au_jwks s = au_jwks st \<and> au_settings s = au_settings st \<and> au_signin s = au_signin st"
  using assms by (auto simp: tailscale_whois_def Let_def split: if_splits option.splits prod.splits)

lemma serve_login_entitled:
  assumes on: "tailscale_enabled (ho_env h)" and l: "serve_login_of h req (remote_ip req) now s0 = (Some l, s)"
    and b: "same_base st s0"
  shows "entitled h req st now FromTailscale (tailscale_user_id l)"
proof (cases "rq_serve req")
  case True
  with l on show ?thesis by (auto simp: serve_login_of_def intro: serve_listener split: if_splits)
next
  case False
  have loc: "is_localhost (remote_ip req)" using l by (auto simp: serve_login_of_def split: if_splits)
  obtain routing cache where r: "serve_routing_for (ho_url h) (ho_runner h) (main_port (ho_env h)) (ho_serve_port h) now
      (au_routing s0) = (routing, cache)" by fastforce
  from l False loc r have "\<not> sr_dedicated routing" "tailscale_serve_identity req (remote_ip req) (sr_legacy routing) = Some l"
    by (auto simp: serve_login_of_def split: if_splits)
  then show ?thesis using legacy_serve[OF on loc _, of routing now st l] r b by (simp add: same_base_def)
qed

lemma sound_tailscale:
  assumes k: "served h s0" and b: "same_base st s0"
  shows "sound_step h req st (try_tailscale h req stale now s0)
    \<or> (\<exists>b t s. try_tailscale h req stale now s0 = (Pass b, t, s) \<and> served h s
         \<and> au_settings s = au_settings st \<and> sg_links (au_signin s) = sg_links (au_signin st))"
proof (cases "tailscale_enabled (ho_env h)")
  case False
  with k b show ?thesis by (simp add: try_tailscale_def sound_pass)
next
  case on: True
  obtain l s where l: "serve_login_of h req (remote_ip req) now s0 = (l, s)" by fastforce
  from serve_login_frame[OF l] have fr: "au_jwks s = au_jwks s0" "au_settings s = au_settings s0"
    "au_whois s = au_whois s0" "au_signin s = au_signin s0" by auto
  have settled: "sound_step h req st (Settled (SignedIn r'), now, s')"
    if f: "finalize h FromTailscale (tailscale_user_id i) i now s1 = (r, s')" and "au_jwks s1 = au_jwks s0"
      "au_signin s1 = au_signin s0" "entitled h req st now FromTailscale (tailscale_user_id i)"
      "ar_user r' = ar_user r" "ar_source r' = ar_source r" for i s1 r r' s'
    using finalize_result[OF f] that k account_same_base[OF b, of FromTailscale "tailscale_user_id i"]
    by (auto simp: sound_step_def)
  show ?thesis
  proof (cases l)
    case (Some i)
    obtain r s' where f: "finalize h FromTailscale (tailscale_user_id i) i now s = (r, s')" by fastforce
    have "sound_step h req st (Settled (SignedIn (if stale then r\<lparr>ar_stale_hint := True\<rparr> else r)), now, s')"
      by (rule settled[OF f fr(1,4) serve_login_entitled[OF on l[unfolded Some] b]]) simp_all
    then show ?thesis using on l Some f by (simp add: try_tailscale_def with_hint_cases)
  next
    case None
    obtain w s1 where w: "tailscale_whois h (remote_ip req) now s = (w, s1)" by fastforce
    from whois_frame[OF w] have fr1: "au_jwks s1 = au_jwks s0" "au_settings s1 = au_settings s0" "au_signin s1 = au_signin s0"
      using fr by auto
    have "fst (tailscale_whois h (remote_ip req) now st) = w"
      using w fr(3) b by (auto simp: tailscale_whois_def Let_def same_base_def split: option.splits if_splits)
    then have e: "entitled h req st now FromTailscale (tailscale_user_id i)" if "w = Some i" for i
      using peer[OF on] that by blast
    show ?thesis
    proof (cases w)
      case (Some i)
      obtain r s' where f: "finalize h FromTailscale (tailscale_user_id i) i now s1 = (r, s')" by fastforce
      have "sound_step h req st (Settled (SignedIn r), now, s')"
        by (rule settled[OF f fr1(1,3) e[OF Some]]) simp_all
      then show ?thesis using on l None w Some f by (simp add: try_tailscale_def)
    next
      case w_none: None
      then show ?thesis using on l None w fr1 k b by (auto simp: try_tailscale_def same_base_def)
    qed
  qed
qed

lemma oidc_pass_signin: "try_oidc h req now st = (Pass b, t, s) \<Longrightarrow> au_signin s = au_signin st"
  by (auto simp: try_oidc_def split: if_splits option.splits prod.splits token_result.splits)

lemma sound_and_then:
  assumes "sound_step h req st x"
    and "\<And>b t s. x = (Pass b, t, s) \<Longrightarrow> served h s \<Longrightarrow> same_base st s \<Longrightarrow> sound_step h req st (f b t s)"
  shows "sound_step h req st (and_then x f)"
  using assms unfolding and_then_def by (auto simp: sound_step_def split: prod.splits step_outcome.splits)

lemma sound_first_methods:
  assumes k: "served h st"
  shows "sound_step h req st (and_then (and_then (and_then (try_bearer h req now st) (\<lambda>_. try_oidc h req))
    (try_session h req)) (try_proxy h req))"
proof (intro sound_and_then)
  show "sound_step h req st (try_bearer h req now st)" by (rule sound_bearer[OF k])
next
  fix b t and s :: "'a auth_state"
  assume "try_bearer h req now st = (Pass b, t, s)"
  then have "s = st" by (auto simp: try_bearer_def split: if_splits prod.splits)
  then show "sound_step h req st (try_oidc h req t s)" using sound_oidc[OF k] by simp
next
  fix b t and s :: "'a auth_state"
  assume x: "and_then (try_bearer h req now st) (\<lambda>_. try_oidc h req) = (Pass b, t, s)" "served h s" "same_base st s"
  then have "au_signin s = au_signin st"
    by (auto simp: and_then_def try_bearer_def dest: oidc_pass_signin split: prod.splits step_outcome.splits if_splits)
  with x show "sound_step h req st (try_session h req b t s)" by (simp add: sound_session)
qed (rule sound_proxy)

text \<open>
  C4: A request is signed in only when one of the methods this install offers entitles it: the operator's token, a
  genuine token of the provider, a live session on a same-origin request, the identity a trusted proxy names (verified when
  Cloudflare Access is configured), the tailnet login, or this machine itself when nothing was relayed and no other method
  is configured. The account granted is the one that identity is linked to, and the keys kept are still only keys
  their providers served.
\<close>

theorem every_sign_in_is_entitled:
  assumes k: "served h st" and a: "authenticate h req now st = (SignedIn r, t, s)"
  shows "(\<exists>raw. entitled h req st t (ar_source r) raw \<and> ar_user r = account_of (ar_source r) raw (au_signin st))
    \<and> served h s"
proof -
  let ?x = "and_then (and_then (and_then (try_bearer h req now st) (\<lambda>_. try_oidc h req))
    (try_session h req)) (try_proxy h req)"
  obtain out t0 s0 where x: "?x = (out, t0, s0)" by (metis prod_cases3)
  have sx: "sound_step h req st (out, t0, s0)" using sound_first_methods[OF k, of req now] x by simp
  show ?thesis
  proof (cases out)
    case (Settled o1)
    then show ?thesis using a x sx by (auto simp: authenticate_def and_then_def sound_step_def)
  next
    case (Pass stale)
    with sx have k0: "served h s0" and b0: "same_base st s0" by (auto simp: sound_step_def)
    obtain out1 t1 s1 where y: "try_tailscale h req stale t0 s0 = (out1, t1, s1)" by (metis prod_cases3)
    have auth: "(case (out1, t1, s1) of (Settled r, t, s) \<Rightarrow> (r, t, s) | (Pass _, t, s) \<Rightarrow> try_localhost h req t s)
        = (SignedIn r, t, s)"
      using a x Pass y by (simp add: authenticate_def and_then_def)
    show ?thesis
    proof (cases out1)
      case (Settled o1)
      then show ?thesis using auth sound_tailscale[OF k0 b0, of req stale t0] y by (auto simp: sound_step_def)
    next
      case (Pass b1)
      then have base: "served h s1" "au_settings s1 = au_settings st" "sg_links (au_signin s1) = sg_links (au_signin st)"
        using sound_tailscale[OF k0 b0, of req stale t0] y by (auto simp: sound_step_def same_base_def)
      have l: "try_localhost h req t1 s1 = (SignedIn r, t, s)" using auth Pass by simp
      then have e: "entitled h req st t FromLocalhost ''webchat:local-owner''"
        using base(2) by (auto simp: try_localhost_def has_explicit_auth_def split: if_splits prod.splits intro!: this_machine)
      from l obtain nm where f: "finalize h FromLocalhost ''webchat:local-owner'' nm t1 s1 = (r, s)"
        by (auto simp: try_localhost_def split: if_splits prod.splits)
      from finalize_result[OF f] e base(1) show ?thesis by (auto simp: account_of_def)
    qed
  qed
qed

end
