(* ===== verification/AuthIds.thy ===== *)
theory AuthIds
  imports AuthFacts
begin

text \<open>
  The ids identities sign in under. An id typed by hand is brought to the form signing in mints, so a role
  granted to it reaches the person; and what that form does not keep apart.
\<close>

lemmas ascii_simps = id_char_def is_alnum_def is_digit_def is_lower_def lower_def is_upper_def code_def dash_def
  char_of_def bit_0 bit_Suc

lemma id_char_dash [simp]: "id_char dash"
  by (simp add: id_char_def dash_def)

lemma normalize_id_char: "c \<in> set (normalize_id x) \<Longrightarrow> id_char c \<and> lower c = c"
proof -
  assume "c \<in> set (normalize_id x)"
  then obtain d where "c = (if id_char (lower d) then lower d else dash)"
    unfolding normalize_id_def set_map by blast
  moreover have "lower dash = dash" by (simp add: dash_def lower_def is_upper_def code_def)
  ultimately show ?thesis by auto
qed

lemma normalize_id_idem [simp]: "normalize_id (normalize_id x) = normalize_id x"
proof -
  have "(if id_char (lower c) then lower c else dash) = c" if "c \<in> set (normalize_id x)" for c
    using normalize_id_char[OF that] by simp
  then show ?thesis unfolding normalize_id_def[of "normalize_id x"] by (intro map_idI) blast
qed

lemma normalize_id_Nil [simp]: "normalize_id x = [] \<longleftrightarrow> x = []"
  by (simp add: normalize_id_def)

lemma no_colon_normalized: "CHR '':'' \<notin> set (normalize_id x)"
proof
  assume "CHR '':'' \<in> set (normalize_id x)"
  then have "id_char (CHR '':'')" using normalize_id_char by blast
  then show False by (simp add: id_char_def is_alnum_def is_digit_def is_lower_def code_def)
qed

lemma split_webchat: "split_on (CHR '':'') (''webchat:'' @ x) = ''webchat'' # split_on (CHR '':'') x"
  using split_on_append[of "CHR '':''" "''webchat''" x] by simp

lemma split_tailscale: "split_on (CHR '':'') (''webchat:tailscale:'' @ x) = ''webchat'' # ''tailscale'' # split_on (CHR '':'') x"
  using split_webchat[of "''tailscale:'' @ x"] split_on_append[of "CHR '':''" "''tailscale''" x] by simp

lemma canonical_tailnet: "x \<noteq> [] \<Longrightarrow> canonicalize_user_id (''webchat:tailscale:'' @ x) = tailscale_user_id x"
  unfolding canonicalize_user_id_def split_tailscale
  by (simp add: Let_def numeral_2_eq_2 join_split_on tailscale_user_id_def)

lemma canonical_plain: "CHR '':'' \<notin> set x \<Longrightarrow> canonicalize_user_id (''webchat:'' @ x) = oidc_user_id x"
proof -
  assume x: "CHR '':'' \<notin> set x"
  have "normalize_id ''tailscale'' = ''tailscale''" by (simp add: normalize_id_def ascii_simps)
  then show ?thesis
    unfolding canonicalize_user_id_def split_webchat split_on_id[OF x]
    by (auto simp: Let_def oidc_user_id_def normalize_id_def)
qed

lemma canonical_minted:
  "canonicalize_user_id (oidc_user_id x) = oidc_user_id x"
  "x \<noteq> [] \<Longrightarrow> canonicalize_user_id (tailscale_user_id x) = tailscale_user_id x"
  using canonical_plain[OF no_colon_normalized, of x] canonical_tailnet[of "normalize_id x"]
  by (simp_all add: oidc_user_id_def tailscale_user_id_def)

lemma canonical_cases:
  "canonicalize_user_id i = i \<or> (\<exists>x. x \<noteq> [] \<and> canonicalize_user_id i = tailscale_user_id x)
   \<or> (\<exists>x. canonicalize_user_id i = oidc_user_id x)"
  unfolding canonicalize_user_id_def Let_def tailscale_user_id_def oidc_user_id_def
  by (simp split: if_split) blast

lemma granted_id_is_the_one_signed_in:
  "canonicalize_user_id (canonicalize_user_id i) = canonicalize_user_id i
   \<and> (CHR '':'' \<in> set x \<or> canonicalize_user_id (''webchat:'' @ x) = oidc_user_id x)
   \<and> (x = [] \<or> canonicalize_user_id (''webchat:tailscale:'' @ x) = tailscale_user_id x)
   \<and> canonicalize_user_id (oidc_user_id x) = oidc_user_id x"
proof -
  have "canonicalize_user_id (canonicalize_user_id i) = canonicalize_user_id i"
    using canonical_cases[of i] by (auto simp: canonical_minted)
  then show ?thesis using canonical_plain canonical_tailnet canonical_minted(1) by blast
qed

section \<open>Identities that share an id\<close>

text \<open>Two different sign-in names, one account.\<close>

lemma distinct_names_one_account: "oidc_user_id ''o/brien@x.org'' = oidc_user_id ''o-brien@x.org''"
  by (simp add: oidc_user_id_def normalize_id_def ascii_simps)

text \<open>A name an identity provider or proxy chooses can be the operator's or this machine's owner's.\<close>

lemma proxy_name_can_be_the_operator:
  "oidc_user_id ''Owner'' = ''webchat:owner''" "oidc_user_id ''local-owner'' = ''webchat:local-owner''"
  by (simp_all add: oidc_user_id_def normalize_id_def ascii_simps)

section \<open>One request\<close>

definition demo_crypto :: "unit crypto" where
  "demo_crypto = \<lparr>cr_decode = (\<lambda>_. None), cr_import = (\<lambda>_. None), cr_verify = (\<lambda>_ _ _ _. False)\<rparr>"

definition demo_host :: "env \<Rightarrow> unit auth_host" where
  "demo_host env = \<lparr>ho_env = env, ho_token = [], ho_serve_port = None, ho_crypto = demo_crypto,
     ho_net = (\<lambda>_ t. (t, None)), ho_hash = id, ho_url = (\<lambda>_. None),
     ho_runner = (\<lambda>_. \<lparr>rn_ok = False, rn_not_found = True, rn_stdout = [], rn_stderr = [], rn_json = None\<rparr>),
     ho_whois = (\<lambda>_. None), ho_get_user = (\<lambda>_ _. None), ho_upsert = (\<lambda>_ r. Some r), ho_insert_ok = (\<lambda>_ _. True)\<rparr>"

definition demo_state :: "unit auth_state" where
  "demo_state = \<lparr>au_roles = \<lparr>user_roles = Some [], users = None, audit_log = []\<rparr>,
     au_settings = \<lparr>st_schema = Map.empty, st_row = None\<rparr>, au_signin = fresh_signin, au_jwks = [],
     au_routing = None, au_whois = [], au_recent = [], au_warned = [], au_seen = [], au_denied = [], au_events = []\<rparr>"

definition local_request :: "(string \<Rightarrow> header_value option) \<Rightarrow> request" where
  "local_request hs = \<lparr>rq_remote = Some ''::ffff:127.0.0.1'', rq_headers = hs, rq_serve = False\<rparr>"

definition user_of :: "auth_outcome \<Rightarrow> string option" where
  "user_of a = (case a of SignedIn r \<Rightarrow> Some (ar_user r) | _ \<Rightarrow> None)"

lemma user_ofD: "user_of a = Some u \<Longrightarrow> \<exists>r. a = SignedIn r \<and> ar_user r = u"
  by (auto simp: user_of_def split: auth_outcome.splits)

lemma bare_settings [simp]:
  "env_or d k Map.empty = js_trim d" "env_var k Map.empty = []"
  "oc_enabled (oidc_cfg Map.empty) = False" "tailscale_enabled Map.empty = False" "proxy_enabled Map.empty = False"
  by (simp_all add: env_or_def env_var_def oidc_cfg_def Let_def tailscale_enabled_def proxy_enabled_def
      proxy_cfg_def js_trim_def trim_def)

lemma local_signs_in:
  "user_of (fst (authenticate (demo_host Map.empty) (local_request Map.empty) 5 demo_state)) = Some ''webchat:local-owner''"
proof -
  let ?h = "demo_host Map.empty" and ?q = "local_request Map.empty"
  have ip: "is_localhost (remote_ip ?q)"
    by (simp add: is_localhost_def remote_ip_def local_request_def drop_mapped_def starts_with_def)
  have "try_bearer ?h ?q 5 demo_state = (Pass False, 5, demo_state)"
    "try_oidc ?h ?q 5 demo_state = (Pass False, 5, demo_state)"
    "try_session ?h ?q False 5 demo_state = (Pass False, 5, demo_state)"
    "try_proxy ?h ?q False 5 demo_state = (Pass False, 5, demo_state)"
    "try_tailscale ?h ?q False 5 demo_state = (Pass False, 5, demo_state)"
    by (simp_all add: try_bearer_def try_oidc_def try_session_def try_proxy_def try_tailscale_def
        authenticate_trusted_proxy_def proxy_gate_def Let_def bearer_active_def demo_host_def proxy_enabled_def[symmetric])
  then have auth: "authenticate ?h ?q 5 demo_state = try_localhost ?h ?q 5 demo_state"
    by (simp add: authenticate_def and_then_def)
  have "user_of (fst (try_localhost ?h ?q 5 demo_state)) = Some ''webchat:local-owner''"
    using ip by (simp add: try_localhost_def has_explicit_auth_def bearer_active_def demo_host_def relayed_request_def
        RELAY_HEADERS_def local_request_def finalize_def linked_account_def user_of_def Let_def split: prod.split)
  then show ?thesis unfolding auth .
qed

text \<open>Through a proxy trusted by address or not at all, a visitor it calls \<open>Owner\<close> is the operator.\<close>

definition behind_proxy :: env where
  "behind_proxy = [''WEBCHAT_TRUSTED_PROXY_IPS'' \<mapsto> ''auto'']"

lemma behind_proxy_settings:
  "oc_enabled (oidc_cfg behind_proxy) = False" "fst (cf_access_cfg behind_proxy) = False"
  "px_raw (proxy_cfg behind_proxy) = ''auto''" "px_any (proxy_cfg behind_proxy)"
  "px_header (proxy_cfg behind_proxy) = ''x-forwarded-user''"
proof -
  have e: "env_var k behind_proxy = (if k = ''WEBCHAT_TRUSTED_PROXY_IPS'' then ''auto'' else [])" for k
    by (simp add: env_var_def env_or_def behind_proxy_def js_trim_def trim_def js_space_def)
  have d: "env_or DEFAULT_PROXY_HEADER ''WEBCHAT_TRUSTED_PROXY_HEADER'' behind_proxy = ''x-forwarded-user''"
    by (simp add: env_or_def behind_proxy_def DEFAULT_PROXY_HEADER_def js_trim_def trim_def js_space_def)
  show "oc_enabled (oidc_cfg behind_proxy) = False" "fst (cf_access_cfg behind_proxy) = False"
    by (simp_all add: oidc_cfg_def cf_access_cfg_def Let_def e strip_slashes_def strip_http_def starts_with_def)
  show "px_raw (proxy_cfg behind_proxy) = ''auto''" "px_any (proxy_cfg behind_proxy)"
    "px_header (proxy_cfg behind_proxy) = ''x-forwarded-user''"
    by (simp_all add: proxy_cfg_def Let_def e d lower_def is_upper_def code_def)
qed

lemma proxied_owner_signs_in:
  "user_of (fst (authenticate (demo_host behind_proxy) (local_request [''x-forwarded-user'' \<mapsto> One ''Owner''])
     5 demo_state)) = Some ''webchat:owner''"
proof -
  let ?h = "demo_host behind_proxy" and ?q = "local_request [''x-forwarded-user'' \<mapsto> One ''Owner'']"
  have h: "ho_env ?h = behind_proxy" "ho_token ?h = []" by (simp_all add: demo_host_def)
  have passed: "try_bearer ?h ?q 5 demo_state = (Pass False, 5, demo_state)"
    "try_oidc ?h ?q 5 demo_state = (Pass False, 5, demo_state)"
    "try_session ?h ?q False 5 demo_state = (Pass False, 5, demo_state)"
    by (simp_all add: try_bearer_def try_oidc_def try_session_def bearer_active_def h behind_proxy_settings)
  have "platform_identity ?q = None"
    by (simp add: platform_identity_def PLATFORM_HEADERS_def header_set_def local_request_def)
  moreover have "full_header ''x-forwarded-user'' ?q = Some ''Owner''"
    by (simp add: full_header_def header_first_def local_request_def)
  ultimately have p: "authenticate_trusted_proxy ?h ?q (remote_ip ?q) 5 demo_state = (Accepted (Some ''Owner''), 5, demo_state)"
    by (simp add: authenticate_trusted_proxy_def proxy_gate_def Let_def h behind_proxy_settings)
  obtain r s where f: "finalize ?h FromProxy ''webchat:owner'' ''Owner'' 5 demo_state = (r, s)" by fastforce
  have "ar_user r = ''webchat:owner''"
    using finalize_result[OF f] by (simp add: account_of_def resolve_linked_def demo_state_def fresh_signin_def tbl_get_def)
  then show ?thesis
    by (simp add: authenticate_def and_then_def passed try_proxy_def p proxy_name_can_be_the_operator f with_hint_def user_of_def)
qed

theorem every_sign_in_is_entitled_witness:
  "\<exists>t src raw. entitled (demo_host Map.empty) (local_request Map.empty) demo_state t src raw
     \<and> account_of src raw (au_signin demo_state) = ''webchat:local-owner''"
proof -
  obtain r where r: "fst (authenticate (demo_host Map.empty) (local_request Map.empty) 5 demo_state) = SignedIn r"
    "ar_user r = ''webchat:local-owner''" using user_ofD[OF local_signs_in] by blast
  then obtain t s where a: "authenticate (demo_host Map.empty) (local_request Map.empty) 5 demo_state = (SignedIn r, t, s)"
    by (metis prod.exhaust_sel)
  have "keys_served (cr_import (ho_crypto (demo_host Map.empty))) (ho_net (demo_host Map.empty)) (au_jwks demo_state)"
    by (simp add: demo_state_def)
  from every_sign_in_is_entitled[OF this a] r(2) show ?thesis by metis
qed

end
