(* ===== verification/LoginFacts.thy ===== *)
theory LoginFacts
  imports OidcLogin AuthIds
begin

text \<open>
  A session starts only at the end of an attempt the same browser began, whose code was redeemed with that
  attempt's verifier for a genuine token carrying its nonce, and the attempt is spent.
\<close>

lemma complete_login_LoggedIn:
  assumes "complete_login h exchange q now c as = (LoggedIn i lf, t, c', as')"
  obtains a tok where "map_of as (coalesce (query_get ''state'' q) []) = Some a" "now - at_created a \<le> ATTEMPT_TTL_MS"
    "truthy (query_get ''code'' q)"
    "exchanged_token (exchange (exchange_body (ho_env h) (the (query_get ''code'' q)) a) (exchange_auth (ho_env h))) = Inr tok"
    "verify_oidc_token (ho_crypto h) (ho_net h) tok (Some (at_nonce a)) (ho_env h) now c = (Accepted i, t, c')"
    "lf = at_link_from a" "as' = filter (\<lambda>(k, _). k \<noteq> coalesce (query_get ''state'' q) []) as"
  using assms unfolding complete_login_def Let_def
  by (auto split: if_splits option.splits sum.splits prod.splits token_result.splits)

lemma complete_login_spends:
  "complete_login h exchange q now c as = (res, t, c', as') \<Longrightarrow>
   as' = filter (\<lambda>(k, _). k \<noteq> coalesce (query_get ''state'' q) []) as"
  unfolding complete_login_def Let_def
  by (auto split: if_splits option.splits sum.splits prod.splits token_result.splits)

lemma link_attempt_frame:
  assumes "link_attempt lf who now a = (res, a')"
  shows "sg_sessions (au_signin a') = sg_sessions (au_signin a) \<and> au_jwks a' = au_jwks a"
proof (cases "lf = None \<or> lf = Some []")
  case True
  with assms show ?thesis by (auto simp: link_attempt_def)
next
  case False
  then obtain f where "lf = Some f" "f \<noteq> []" by auto
  with assms show ?thesis
    using link_sessions[of f who now "au_roles a" "au_signin a"]
    by (cases "link_identities f who now (au_roles a) (au_signin a)") (auto simp: link_attempt_def on_signin_def)
qed

lemma finish_session:
  assumes "finish_sign_in site secure told token who name now st = (reply, st')"
  shows "(st' = st \<and> reply = Raised) \<or> (\<exists>rows. sg_sessions (au_signin (ws_auth st)) = Some rows
     \<and> sg_sessions (au_signin (ws_auth st')) = Some (rows @ [\<lparr>ss_hash = ho_hash (lo_host site) token, ss_user = who,
        ss_name = name, ss_created = now, ss_expires = now + SESSION_TTL_MS, ss_used = now\<rparr>])
     \<and> sg_links (au_signin (ws_auth st')) = sg_links (au_signin (ws_auth st)) \<and> ws_attempts st' = ws_attempts st)"
  using assms by (auto simp: finish_sign_in_def create_session_def on_signin_def split: option.splits if_splits)

text \<open>What a finished attempt has to show for itself.\<close>

definition own_attempt ::
  "'k login_site \<Rightarrow> request \<Rightarrow> (string \<times> string) list \<Rightarrow> millis \<Rightarrow> 'k web_state \<Rightarrow> attempt \<Rightarrow> string \<Rightarrow> millis \<Rightarrow> bool" where
  "own_attempt site req q now st a i t =
     (let h = lo_host site; state = coalesce (query_get ''state'' q) [] in
      state_from_cookie (rq_headers req ''cookie'') = Some state \<and> map_of (ws_attempts st) state = Some a
      \<and> now - at_created a \<le> ATTEMPT_TTL_MS
      \<and> (\<exists>tok claims. exchanged_token (lo_exchange site (exchange_body (ho_env h) (the (query_get ''code'' q)) a)
             (exchange_auth (ho_env h))) = Inr tok
          \<and> genuine_token (ho_crypto h) (ho_net h) (oc_tokens (oidc_cfg (ho_env h))) tok t claims
          \<and> jfield ''nonce'' claims = Some (VStr (at_nonce a))
          \<and> oidc_identity_claim (oc_provider (oidc_cfg (ho_env h))) claims = Some i))"

lemma logged_in_own_attempt:
  assumes k: "served (lo_host site) (ws_auth st)"
    and cookie: "truthy (query_get ''state'' q)" "state_from_cookie (rq_headers req ''cookie'') = query_get ''state'' q"
    and l: "complete_login (lo_host site) (lo_exchange site) q now (au_jwks (ws_auth st)) (ws_attempts st)
      = (LoggedIn i lf, t, c, as)"
  obtains a where "own_attempt site req q now st a (oi_identity i) t" "lf = at_link_from a"
proof -
  from complete_login_LoggedIn[OF l] obtain a tok where 1:
    "map_of (ws_attempts st) (coalesce (query_get ''state'' q) []) = Some a" "now - at_created a \<le> ATTEMPT_TTL_MS"
    "exchanged_token (lo_exchange site (exchange_body (ho_env (lo_host site)) (the (query_get ''code'' q)) a)
       (exchange_auth (ho_env (lo_host site)))) = Inr tok"
    "verify_oidc_token (ho_crypto (lo_host site)) (ho_net (lo_host site)) tok (Some (at_nonce a)) (ho_env (lo_host site)) now
       (au_jwks (ws_auth st)) = (Accepted i, t, c)" "lf = at_link_from a" by metis
  from verify_oidc_genuine[OF k 1(4)] obtain claims where
    "genuine_token (ho_crypto (lo_host site)) (ho_net (lo_host site)) (oc_tokens (oidc_cfg (ho_env (lo_host site)))) tok t claims"
    "oidc_identity_claim (oc_provider (oidc_cfg (ho_env (lo_host site)))) claims = Some (oi_identity i)"
    "jfield ''nonce'' claims = Some (VStr (at_nonce a))" by metis
  moreover have "state_from_cookie (rq_headers req ''cookie'') = Some (coalesce (query_get ''state'' q) [])"
    using cookie truthyD[OF cookie(1)] by auto
  ultimately show ?thesis using 1 that[of a] unfolding own_attempt_def Let_def by blast
qed

text \<open>
  C15: The callback of a single sign-on creates a session only for the browser that began the attempt: the state in
  the query is that of its cookie and of an attempt still open, the token is genuine and carries that attempt's nonce, the
  session is for the identity in it, the attempt is used up, and accounts are linked only when the attempt was to link. In
  every other case no session is created and nobody is signed in.
\<close>

theorem callback_finishes_its_own_attempt:
  assumes k: "served (lo_host site) (ws_auth st)"
    and c: "handle_callback site req tls q token now st = (reply, st')"
  shows "(sg_sessions (au_signin (ws_auth st')) = sg_sessions (au_signin (ws_auth st))
       \<and> (\<forall>n cs. reply \<noteq> BackToApp ''signin'' n cs))
    \<or> (\<exists>a i t rows row. own_attempt site req q now st a i t
        \<and> sg_sessions (au_signin (ws_auth st)) = Some rows \<and> sg_sessions (au_signin (ws_auth st')) = Some (rows @ [row])
        \<and> ss_user row = oidc_user_id i \<and> ss_hash row = ho_hash (lo_host site) token
        \<and> ss_expires row = t + SESSION_TTL_MS
        \<and> map_of (ws_attempts st') (coalesce (query_get ''state'' q) []) = None
        \<and> (at_link_from a = None \<longrightarrow> sg_links (au_signin (ws_auth st')) = sg_links (au_signin (ws_auth st))))"
proof (cases "truthy (query_get ''state'' q) \<and> state_from_cookie (rq_headers req ''cookie'') = query_get ''state'' q")
  case False
  then show ?thesis using c unfolding handle_callback_def Let_def by auto
next
  case cookie: True
  obtain res t cc as where l: "complete_login (lo_host site) (lo_exchange site) q now (au_jwks (ws_auth st)) (ws_attempts st)
      = (res, t, cc, as)" by (metis prod_cases4)
  show ?thesis
  proof (cases res)
    case (LoginFailed e)
    then show ?thesis using c cookie l unfolding handle_callback_def Let_def by auto
  next
    case LoginRaised
    then show ?thesis using c cookie l unfolding handle_callback_def Let_def by auto
  next
    case (LoggedIn i lf)
    obtain a where own: "own_attempt site req q now st a (oi_identity i) t" "lf = at_link_from a"
      using logged_in_own_attempt[OF k _ _ l[unfolded LoggedIn]] cookie by metis
    have spent: "map_of as (coalesce (query_get ''state'' q) []) = None"
      using complete_login_spends[OF l] by (auto simp: map_of_eq_None_iff)
    obtain lr a1 where la: "link_attempt lf (oidc_user_id (oi_identity i)) t ((ws_auth st)\<lparr>au_jwks := cc\<rparr>) = (lr, a1)"
      by fastforce
    have fr: "sg_sessions (au_signin a1) = sg_sessions (au_signin (ws_auth st))" using link_attempt_frame[OF la] by simp
    have fin: ?thesis if f: "finish_sign_in site s told token (oidc_user_id (oi_identity i)) (oi_name i) t s1 = (reply, st')"
      and s1: "ws_auth s1 = a1" "ws_attempts s1 = as" for s told s1
      using finish_session[OF f]
    proof (elim disjE exE conjE)
      assume "st' = s1" "reply = Raised"
      with fr s1 show ?thesis by simp
    next
      fix rows
      assume r: "sg_sessions (au_signin (ws_auth s1)) = Some rows"
        "sg_sessions (au_signin (ws_auth st')) = Some (rows @ [\<lparr>ss_hash = ho_hash (lo_host site) token,
           ss_user = oidc_user_id (oi_identity i), ss_name = oi_name i, ss_created = t, ss_expires = t + SESSION_TTL_MS,
           ss_used = t\<rparr>])"
        "sg_links (au_signin (ws_auth st')) = sg_links (au_signin (ws_auth s1))" "ws_attempts st' = ws_attempts s1"
      have "sg_links (au_signin a1) = sg_links (au_signin (ws_auth st))" if "at_link_from a = None"
        using la own(2) that by (auto simp: link_attempt_def)
      then show ?thesis
        by (intro disjI2 exI[of _ a] exI[of _ "oi_identity i"] exI[of _ t] exI[of _ rows]
            exI[of _ "\<lparr>ss_hash = ho_hash (lo_host site) token, ss_user = oidc_user_id (oi_identity i),
              ss_name = oi_name i, ss_created = t, ss_expires = t + SESSION_TTL_MS, ss_used = t\<rparr>"])
          (use r fr s1 own(1) spent in simp)
    qed
    let ?s = "is_https_origin (request_origin (ho_env (lo_host site)) req tls)"
    let ?w = "oidc_user_id (oi_identity i)"
    show ?thesis
    proof (cases "lr = None \<or> (\<exists>p al. lr = Some (Linked p al))")
      case True
      then obtain told s1 where f: "finish_sign_in site ?s told token ?w (oi_name i) t s1 = (reply, st')"
        "ws_auth s1 = a1" "ws_attempts s1 = as"
        using c cookie l LoggedIn la unfolding handle_callback_def Let_def by fastforce
      then show ?thesis by (rule fin)
    next
      case False
      then have "ws_auth st' = a1 \<and> (\<forall>n cs. reply \<noteq> BackToApp ''signin'' n cs)"
        using c cookie l LoggedIn la unfolding handle_callback_def Let_def
        by (auto split: option.splits link_result.splits)
      with fr show ?thesis by simp
    qed
  qed
qed

section \<open>Attempts are few\<close>

lemma length_set_entry: "length (set_entry k v m) \<le> Suc (length m)"
  by (simp add: set_entry_def)

lemma begin_login_bounded:
  "length (snd (begin_login pu qo ch env ls redirect link now as)) \<le> MAX_ATTEMPTS"
proof -
  have "length (sweep_attempts now as) \<le> 499" by (simp add: sweep_attempts_def Let_def MAX_ATTEMPTS_def)
  then have "length (set_entry k v (sweep_attempts now as)) \<le> MAX_ATTEMPTS" for k v
    using length_set_entry[of k v "sweep_attempts now as"] by (simp add: MAX_ATTEMPTS_def)
  then show ?thesis by (simp add: begin_login_def Let_def split: option.split)
qed

section \<open>One sign-in\<close>

definition demo_oidc :: env where
  "demo_oidc = [''WEBCHAT_OIDC_ISSUER'' \<mapsto> ''i'', ''WEBCHAT_OIDC_AUDIENCE'' \<mapsto> ''a'', ''WEBCHAT_OIDC_JWKS_URI'' \<mapsto> ''k'']"

definition demo_claims :: jval where
  "demo_claims = VObj [(''iss'', VStr ''i''), (''aud'', VStr ''a''), (''exp'', VNum 900), (''nonce'', VStr ''n''),
     (''email_verified'', VBool True), (''email'', VStr ''ann@x'')]"

definition demo_keys :: jval where
  "demo_keys = VObj [(''keys'', VArr [VObj [(''kid'', VStr ''1''), (''kty'', VStr ''RSA'')]])]"

definition oidc_host :: "unit auth_host" where
  "oidc_host = (demo_host demo_oidc)\<lparr>ho_net := (\<lambda>_ t. (t, Some demo_keys)),
     ho_crypto := \<lparr>cr_decode = (\<lambda>x. if x = ''h'' then Some (VObj [(''alg'', VStr ''RS256''), (''kid'', VStr ''1'')])
         else if x = ''p'' then Some demo_claims else None),
       cr_import = (\<lambda>_. Some ()), cr_verify = (\<lambda>_ _ _ _. True)\<rparr>\<rparr>"

definition oidc_site :: "unit login_site" where
  "oidc_site = \<lparr>lo_host = oidc_host, lo_exchange = (\<lambda>_ _. Some (200, VObj [(''id_token'', VStr ''h.p.s'')])),
     lo_query_of = (\<lambda>_. []), lo_challenge = id\<rparr>"

definition demo_attempt :: "unit web_state" where
  "demo_attempt = \<lparr>ws_auth = demo_state, ws_attempts = [(''0123456789abcdef'', \<lparr>at_verifier = ''v'', at_nonce = ''n'',
     at_redirect = ''r'', at_link_from = None, at_created = 90000\<rparr>)], ws_trail = []\<rparr>"

definition returning :: request where
  "returning = local_request [''cookie'' \<mapsto> One ''nanoclaw_signin_state=0123456789abcdef'']"

lemma demo_settings:
  "oidc_cfg demo_oidc = \<lparr>oc_provider = OtherProvider, oc_name = ''SSO'',
     oc_tokens = \<lparr>ti_issuer = ''i'', ti_audience = ''a'', ti_jwks = ''k''\<rparr>, oc_authorize = [], oc_token_url = [],
     oc_basic = False, oc_enabled = True, oc_login_flag = []\<rparr>"
proof -
  have e: "env_var k demo_oidc = (if k = ''WEBCHAT_OIDC_ISSUER'' then ''i'' else if k = ''WEBCHAT_OIDC_AUDIENCE'' then ''a''
      else if k = ''WEBCHAT_OIDC_JWKS_URI'' then ''k'' else [])" for k
    by (simp add: env_var_def env_or_def demo_oidc_def js_trim_def trim_def js_space_def)
  show ?thesis
    by (simp add: oidc_cfg_def Let_def e ms_tenant_def MS_AUTHORITY_def starts_with_def or_else_def)
qed

lemma demo_token:
  "\<exists>c. verify_oidc_token (ho_crypto oidc_host) (ho_net oidc_host) ''h.p.s'' (Some ''n'') demo_oidc 100000 []
     = (Accepted \<lparr>oi_identity = ''ann@x'', oi_name = ''ann@x''\<rparr>, 100000, c)"
proof -
  have parts: "jwt_parts ''h.p.s'' = Some (''h'', ''p'', ''s'')"
    by (simp add: jwt_parts_def cookie_char_def is_lower_def code_def)
  obtain c where key: "jwks_key (cr_import (ho_crypto oidc_host)) (ho_net oidc_host) ''k'' ''1'' 100000 []
      = (Some \<lparr>sk_key = (), sk_alg = RS256\<rparr>, 100000, c)"
    by (simp add: oidc_host_def demo_host_def jwks_key_def Let_def jwks_open_def jwks_at_def no_keys_def keys_stale_def
        may_fetch_def JWKS_MIN_REFETCH_MS_def fetch_jwks_def begin_fetch_def end_fetch_def jwks_update_def demo_keys_def
        keys_of_def key_list_def jfield_def jtext_def jwk_alg_def key_in_def)
  have "verify_jwt (ho_crypto oidc_host) (ho_net oidc_host) ''h.p.s'' \<lparr>ti_issuer = ''i'', ti_audience = ''a'', ti_jwks = ''k''\<rparr>
      100000 [] = (Accepted demo_claims, 100000, c)"
    using key by (simp add: verify_jwt_def parts oidc_host_def demo_host_def header_alg_def jfield_def check_claims_def
        Let_def demo_claims_def CLOCK_SKEW_S_def audience_ok_def)
  then show ?thesis
    by (simp add: verify_oidc_token_def Let_def demo_settings name_identity_def demo_claims_def jfield_def
        oidc_identity_claim_def str_claim_def)
qed

definition demo_query :: "(string \<times> string) list" where
  "demo_query = [(''state'', ''0123456789abcdef''), (''code'', ''c'')]"

lemma demo_returns:
  "\<exists>cs st'. handle_callback oidc_site returning False demo_query ''tok'' 100000 demo_attempt
     = (BackToApp ''signin'' ''signed-in'' cs, st')"
proof -
  have cookie: "state_from_cookie (rq_headers returning ''cookie'') = Some ''0123456789abcdef''"
    by (simp add: returning_def local_request_def state_from_cookie_def raw_cookies_def cookie_pair_def Let_def
        js_trim_def trim_def js_space_def STATE_COOKIE_def token_shape_def cookie_char_def is_digit_def is_lower_def code_def)
  obtain c where v: "verify_oidc_token (ho_crypto oidc_host) (ho_net oidc_host) ''h.p.s'' (Some ''n'') demo_oidc 100000 []
      = (Accepted \<lparr>oi_identity = ''ann@x'', oi_name = ''ann@x''\<rparr>, 100000, c)" using demo_token by blast
  have env: "ho_env oidc_host = demo_oidc" by (simp add: oidc_host_def demo_host_def)
  obtain as where "complete_login oidc_host (lo_exchange oidc_site) demo_query 100000 [] (ws_attempts demo_attempt)
      = (LoggedIn \<lparr>oi_identity = ''ann@x'', oi_name = ''ann@x''\<rparr> None, 100000, c, as)"
    using v by (simp add: complete_login_def Let_def demo_query_def query_get_def demo_attempt_def ATTEMPT_TTL_MS_def
        oidc_site_def exchanged_token_def jtrue_def jfield_def jtext_def env)
  then show ?thesis
    using cookie
    by (simp add: handle_callback_def Let_def demo_query_def query_get_def oidc_site_def demo_attempt_def demo_state_def
        link_attempt_def finish_sign_in_def create_session_def fresh_signin_def tbl_get_def)
qed

theorem callback_finishes_its_own_attempt_witness:
  "\<exists>a i t. own_attempt oidc_site returning demo_query 100000 demo_attempt a i t"
proof -
  obtain cs st' where c: "handle_callback oidc_site returning False demo_query ''tok'' 100000 demo_attempt
      = (BackToApp ''signin'' ''signed-in'' cs, st')" using demo_returns by blast
  have "served (lo_host oidc_site) (ws_auth demo_attempt)" by (simp add: demo_attempt_def demo_state_def)
  from callback_finishes_its_own_attempt[OF this c] show ?thesis by blast
qed

end
