(* ===== verification/SignInAdmin.thy ===== *)
theory SignInAdmin
  imports Authenticate SignInSettings
begin

text \<open>
  Turning sign-in methods on and off (\<open>server/routes-signin-settings.ts\<close>), and what the server tells of
  its methods (\<open>channels/webchat/auth.ts\<close>): which can sign someone in now, the probe of the Tailscale
  daemon, and the refusals that keep an administrator from locking the door behind everyone.
\<close>

datatype signin_method = ByToken | ByTailscale | ByProxy | ByOidc

definition method_of_source :: "auth_source \<Rightarrow> signin_method option" where
  "method_of_source src = (case src of FromBearer \<Rightarrow> Some ByToken | FromProxy \<Rightarrow> Some ByProxy
     | FromTailscale \<Rightarrow> Some ByTailscale | FromOidc \<Rightarrow> Some ByOidc | FromLocalhost \<Rightarrow> None)"

text \<open>What is fixed at start: the access token and the bind address.\<close>

record site =
  si_token :: string
  si_host :: string
  si_url :: "string \<Rightarrow> url option"
  si_fetch :: "string \<Rightarrow> fetched"

record admin_state =
  ad_install :: env_install
  ad_settings :: settings_db
  ad_healthy :: "bool option"
  ad_probed :: millis
  ad_roles :: role_db
  ad_trail :: "(string \<times> signin_method \<times> bool) list"

abbreviation ad_env :: "admin_state \<Rightarrow> env" where
  "ad_env st \<equiv> in_env (ad_install st)"

definition token_active :: "site \<Rightarrow> admin_state \<Rightarrow> bool" where
  "token_active site st = (si_token site \<noteq> [] \<and> \<not> get_bearer_token_disabled (ad_settings st))"

fun usable :: "site \<Rightarrow> admin_state \<Rightarrow> signin_method \<Rightarrow> bool" where
  "usable site st ByToken = token_active site st"
| "usable site st ByTailscale = (tailscale_enabled (ad_env st) \<and> ad_healthy st = Some True)"
| "usable site st ByProxy = proxy_enabled (ad_env st)"
| "usable site st ByOidc = oc_enabled (oidc_cfg (ad_env st))"

definition METHODS :: "signin_method list" where "METHODS = [ByToken, ByTailscale, ByProxy, ByOidc]"

definition is_loopback_host :: "string \<Rightarrow> bool" where
  "is_loopback_host host = (let h = map lower host in
     h = [] \<or> h = ''localhost'' \<or> h = ''::1'' \<or> starts_with h ''127.'')"

definition requires_explicit_auth :: "string \<Rightarrow> bool" where
  "requires_explicit_auth host = (host \<noteq> ''127.0.0.1'' \<and> host \<noteq> ''localhost'' \<and> host \<noteq> ''::1'')"

definition via_trusted_proxy :: "env \<Rightarrow> request \<Rightarrow> bool" where
  "via_trusted_proxy env req = (let cfg = proxy_cfg env in
     if px_raw cfg = [] then False else if px_any cfg then True
     else is_trusted_proxy_ip (drop_mapped (coalesce (rq_remote req) [])) (px_entries cfg))"

definition MIN_BEARER_TOKEN_LENGTH :: nat where "MIN_BEARER_TOKEN_LENGTH = 24"

definition bearer_token_strong :: "string \<Rightarrow> bool" where
  "bearer_token_strong token = (token = [] \<or> MIN_BEARER_TOKEN_LENGTH \<le> length token)"

section \<open>The Tailscale probe\<close>

definition TS_PROBE_INTERVAL_DOWN_MS :: int where "TS_PROBE_INTERVAL_DOWN_MS = 10000"
definition TS_PROBE_INTERVAL_UP_MS :: int where "TS_PROBE_INTERVAL_UP_MS = 60000"

definition tailscale_reprobe_due :: "bool option \<Rightarrow> millis \<Rightarrow> millis \<Rightarrow> bool" where
  "tailscale_reprobe_due healthy probed now =
     (now - probed \<ge> (if healthy = Some True then TS_PROBE_INTERVAL_UP_MS else TS_PROBE_INTERVAL_DOWN_MS))"

text \<open>One probe: what the daemon answered, when it did.\<close>

definition probe_tailscale_health :: "bool \<Rightarrow> millis \<Rightarrow> admin_state \<Rightarrow> admin_state" where
  "probe_tailscale_health ok now st = st\<lparr>ad_healthy := Some ok, ad_probed := now\<rparr>"

record auth_info =
  in_bearer :: bool
  in_tailscale :: bool
  in_proxy :: bool
  in_oidc :: bool
  in_oidc_login :: bool
  in_oidc_name :: string
  in_tailscale_healthy :: bool

definition get_auth_info :: "site \<Rightarrow> admin_state \<Rightarrow> auth_info" where
  "get_auth_info site st = \<lparr>in_bearer = token_active site st, in_tailscale = tailscale_enabled (ad_env st),
     in_proxy = proxy_enabled (ad_env st), in_oidc = oc_enabled (oidc_cfg (ad_env st)),
     in_oidc_login = oidc_login_enabled (ad_env st), in_oidc_name = oc_name (oidc_cfg (ad_env st)),
     in_tailscale_healthy = (tailscale_enabled (ad_env st) \<and> ad_healthy st = Some True)\<rparr>"

record management_info =
  mi_bearer_configured :: bool
  mi_bearer_active :: bool
  mi_tailscale :: "bool \<times> bool"
  mi_proxy :: bool
  mi_oidc :: bool
  mi_loopback :: bool
  mi_alternative :: bool
  mi_can_disable :: bool
  mi_can_enable :: bool

definition get_auth_management_info :: "site \<Rightarrow> admin_state \<Rightarrow> management_info" where
  "get_auth_management_info site st =
     (let other = (usable site st ByTailscale \<or> usable site st ByProxy \<or> usable site st ByOidc);
          active = token_active site st
      in \<lparr>mi_bearer_configured = (si_token site \<noteq> []), mi_bearer_active = active,
          mi_tailscale = (tailscale_enabled (ad_env st), ad_healthy st = Some True),
          mi_proxy = proxy_enabled (ad_env st), mi_oidc = oc_enabled (oidc_cfg (ad_env st)),
          mi_loopback = is_loopback_host (si_host site), mi_alternative = other,
          mi_can_disable = (active \<and> other), mi_can_enable = (si_token site \<noteq> [] \<and> \<not> active)\<rparr>)"

section \<open>Refusals\<close>

datatype signin_refusal = NotAdmin | WrongMethod | NoCsrf | NotBoolean | NoTokenConfigured
  | OwnMethod signin_method | NoWayLeft | LocalOwner
  | ProxyInput proxy_error | OidcInput oidc_error | UnknownSetting

definition off_refusal :: "site \<Rightarrow> admin_state \<Rightarrow> auth_source \<Rightarrow> signin_method \<Rightarrow> signin_refusal option" where
  "off_refusal site st src m =
     (if method_of_source src = Some m then Some (OwnMethod m)
      else if \<not> is_loopback_host (si_host site) \<and> \<not> list_ex (\<lambda>x. x \<noteq> m \<and> usable site st x) METHODS then Some NoWayLeft
      else None)"

definition on_refusal :: "auth_source \<Rightarrow> signin_method \<Rightarrow> signin_refusal option" where
  "on_refusal src m = (if src \<noteq> FromLocalhost \<or> m = ByTailscale then None else Some LocalOwner)"

text \<open>
  \<open>Passed\<close> is not this route's, \<open>BodyRefused\<close> was answered while reading the body, \<open>Unanswered\<close> gets no
  answer at all, \<open>Failed\<close> is an exception.
\<close>

datatype signin_reply = Passed | Refuse nat signin_refusal | BodyRefused | Unanswered | Failed | Shown

definition jtruthy :: "jval \<Rightarrow> bool" where
  "jtruthy v = (case v of VNull \<Rightarrow> False | VBool b \<Rightarrow> b | VNum r \<Rightarrow> r \<noteq> 0 | VStr s \<Rightarrow> s \<noteq> [] | _ \<Rightarrow> True)"

definition with_body ::
  "jval option \<Rightarrow> admin_state \<Rightarrow> (jval \<Rightarrow> signin_reply \<times> admin_state) \<Rightarrow> signin_reply \<times> admin_state" where
  "with_body body st f = (case body of None \<Rightarrow> (BodyRefused, st)
     | Some b \<Rightarrow> (if jtruthy b then f b else (Unanswered, st)))"

definition recorded :: "string \<Rightarrow> signin_method \<Rightarrow> bool \<Rightarrow> admin_state \<Rightarrow> signin_reply \<times> admin_state" where
  "recorded user m on st = (Shown, st\<lparr>ad_trail := ad_trail st @ [(user, m, on)]\<rparr>)"

definition unless :: "signin_refusal option \<Rightarrow> admin_state \<Rightarrow> signin_reply \<times> admin_state \<Rightarrow> signin_reply \<times> admin_state" where
  "unless why st go = (case why of Some w \<Rightarrow> (Refuse 400 w, st) | None \<Rightarrow> go)"

section \<open>The routes\<close>

definition put_tailscale ::
  "site \<Rightarrow> jval \<Rightarrow> auth_source \<Rightarrow> string \<Rightarrow> millis \<Rightarrow> admin_state \<Rightarrow> signin_reply \<times> admin_state" where
  "put_tailscale site b src user now st = (case jfield ''enabled'' b of
     Some (VBool on) \<Rightarrow>
       unless (if on then None else off_refusal site st src ByTailscale) st
         (case (if on \<and> src = FromLocalhost then set_promote_first True now (ad_settings st) else Some (ad_settings st)) of
            None \<Rightarrow> (Failed, st)
          | Some sdb \<Rightarrow> recorded user ByTailscale on
              (st\<lparr>ad_settings := sdb, ad_install := apply_tailscale on (ad_install st)\<rparr>))
   | _ \<Rightarrow> (Refuse 400 NotBoolean, st))"

definition put_token ::
  "site \<Rightarrow> jval \<Rightarrow> auth_source \<Rightarrow> string \<Rightarrow> millis \<Rightarrow> admin_state \<Rightarrow> signin_reply \<times> admin_state" where
  "put_token site b src user now st = (case jfield ''enabled'' b of
     Some (VBool on) \<Rightarrow>
       (if si_token site = [] then (Refuse 400 NoTokenConfigured, st)
        else unless (if on then on_refusal src ByToken else off_refusal site st src ByToken) st
          (case set_bearer_token_disabled (\<not> on) now (ad_settings st) of
             None \<Rightarrow> (Failed, st)
           | Some sdb \<Rightarrow> recorded user ByToken on (st\<lparr>ad_settings := sdb\<rparr>)))
   | _ \<Rightarrow> (Refuse 400 NotBoolean, st))"

definition delete_proxy :: "site \<Rightarrow> auth_source \<Rightarrow> string \<Rightarrow> admin_state \<Rightarrow> signin_reply \<times> admin_state" where
  "delete_proxy site src user st = unless (off_refusal site st src ByProxy) st
     (recorded user ByProxy False (st\<lparr>ad_install := clear_proxy (ad_install st)\<rparr>))"

definition put_proxy :: "site \<Rightarrow> jval \<Rightarrow> auth_source \<Rightarrow> string \<Rightarrow> admin_state \<Rightarrow> signin_reply \<times> admin_state" where
  "put_proxy site b src user st = (case validate_proxy_input b of
     Inl e \<Rightarrow> (Refuse 400 (ProxyInput e), st)
   | Inr v \<Rightarrow>
      (let before = read_proxy (ad_env st);
           why = (if pv_enabled before
             then (if pv_ips before \<noteq> fst v \<or> pv_header before \<noteq> snd v then off_refusal site st src ByProxy else None)
             else on_refusal src ByProxy)
       in unless why st (recorded user ByProxy True (st\<lparr>ad_install := apply_proxy v (ad_install st)\<rparr>))))"

definition delete_oidc :: "site \<Rightarrow> auth_source \<Rightarrow> string \<Rightarrow> admin_state \<Rightarrow> signin_reply \<times> admin_state" where
  "delete_oidc site src user st = unless (off_refusal site st src ByOidc) st
     (recorded user ByOidc False (st\<lparr>ad_install := clear_oidc (ad_install st)\<rparr>))"

definition put_oidc :: "site \<Rightarrow> jval \<Rightarrow> auth_source \<Rightarrow> string \<Rightarrow> admin_state \<Rightarrow> signin_reply \<times> admin_state" where
  "put_oidc site b src user st = (case validate_oidc_input (si_url site) b of
     Inl e \<Rightarrow> (Refuse 400 (OidcInput e), st)
   | Inr v \<Rightarrow>
      (let before = read_oidc (ad_env st) in
       unless (if ov_enabled before then None else on_refusal src ByOidc) st
         (case discover (si_url site) (si_fetch site) (vo_provider v) (vo_where v) of
            Inl DocumentRaised \<Rightarrow> (Failed, st)
          | Inl e \<Rightarrow> (Refuse 400 (OidcInput e), st)
          | Inr d \<Rightarrow>
             unless (if ov_enabled before \<and> (fst (dc_tokens d) \<noteq> ov_issuer before \<or> vo_client v \<noteq> ov_client before)
                 then off_refusal site st src ByOidc else None) st
               (recorded user ByOidc True (st\<lparr>ad_install := apply_oidc v d (ad_install st)\<rparr>)))))"

definition signin_path :: string where "signin_path = ''/api/webchat/signin''"

definition handle_signin_settings ::
  "site \<Rightarrow> string \<Rightarrow> string \<Rightarrow> bool \<Rightarrow> jval option \<Rightarrow> auth_source \<Rightarrow> string \<Rightarrow> millis \<Rightarrow> admin_state
     \<Rightarrow> signin_reply \<times> admin_state" where
  "handle_signin_settings site path meth csrf body src user now st =
     (let which = drop (Suc (length signin_path)) path in
      if path \<noteq> signin_path \<and> \<not> starts_with path (signin_path @ ''/'') then (Passed, st)
      else if \<not> is_owner user (ad_roles st) \<and> \<not> is_global_admin user (ad_roles st) then (Refuse 403 NotAdmin, st)
      else if path = signin_path then ((if meth \<noteq> ''GET'' then Refuse 405 WrongMethod else Shown), st)
      else if meth \<noteq> ''PUT'' \<and> meth \<noteq> ''DELETE'' then (Refuse 405 WrongMethod, st)
      else if \<not> csrf then (Refuse 403 NoCsrf, st)
      else if which = ''tailscale'' \<and> meth = ''PUT'' then with_body body st (\<lambda>b. put_tailscale site b src user now st)
      else if which = ''token'' \<and> meth = ''PUT'' then with_body body st (\<lambda>b. put_token site b src user now st)
      else if which = ''proxy'' then
        (if meth = ''DELETE'' then delete_proxy site src user st
         else with_body body st (\<lambda>b. put_proxy site b src user st))
      else if which = ''oidc'' then
        (if meth = ''DELETE'' then delete_oidc site src user st
         else with_body body st (\<lambda>b. put_oidc site b src user st))
      else (Refuse 404 UnknownSetting, st))"

end
