(* ===== verification/AdminFacts.thy ===== *)
theory AdminFacts
  imports SignInAdmin
begin

text \<open>
  No accepted change of the sign-in settings takes away the method its administrator came in by, and the
  environment file keeps agreeing with the running process.
\<close>

lemma in_env_put [simp]: "in_env (put_env k v i) x = (if x = k then Some v else in_env i x)"
  by (simp add: put_env_def)

lemma in_env_drop [simp]: "in_env (drop_env k i) x = (if x = k then None else in_env i x)"
  by (simp add: drop_env_def)

lemma in_env_keep_or_drop [simp]:
  "in_env (keep_or_drop b k v i) x = (if x = k then (if b then Some v else None) else in_env i x)"
  by (simp add: keep_or_drop_def)

lemma in_env_drops: "in_env (fold drop_env ks i) x = (if x \<in> set ks then None else in_env i x)"
  by (induction ks arbitrary: i) auto

lemma js_trim_idem [simp]: "js_trim (js_trim s) = js_trim s"
  unfolding js_trim_def by (rule trim_id) (use trim_ends[of js_space s] in blast)

lemma env_var_cong: "e k = f k \<Longrightarrow> env_var k e = env_var k f"
  by (simp add: env_var_def env_or_def)

lemma env_or_cong: "e k = f k \<Longrightarrow> env_or d k e = env_or d k f"
  by (simp add: env_or_def)

lemma env_var_Some: "e k = Some v \<Longrightarrow> env_var k e = js_trim v"
  by (simp add: env_var_def env_or_def)

section \<open>What each change touches\<close>

lemma tailscale_after [simp]:
  "tailscale_enabled (in_env (apply_tailscale on i)) = on"
  "tailscale_enabled (in_env (apply_proxy v i)) = tailscale_enabled (in_env i)"
  "tailscale_enabled (in_env (clear_proxy i)) = tailscale_enabled (in_env i)"
  "tailscale_enabled (in_env (apply_oidc w d i)) = tailscale_enabled (in_env i)"
  "tailscale_enabled (in_env (clear_oidc i)) = tailscale_enabled (in_env i)"
  by (simp_all add: tailscale_enabled_def apply_tailscale_def apply_proxy_def clear_proxy_def apply_oidc_def
      clear_oidc_def in_env_drops OIDC_KEYS_def Let_def split: option.split)

lemma proxy_cfg_cong:
  "e ''WEBCHAT_TRUSTED_PROXY_IPS'' = f ''WEBCHAT_TRUSTED_PROXY_IPS''
   \<Longrightarrow> e ''WEBCHAT_TRUSTED_PROXY_HEADER'' = f ''WEBCHAT_TRUSTED_PROXY_HEADER'' \<Longrightarrow> proxy_cfg e = proxy_cfg f"
  unfolding proxy_cfg_def using env_var_cong[of e _ f] env_or_cong[of e _ f] by metis

lemma proxy_after [simp]:
  "proxy_cfg (in_env (apply_tailscale on i)) = proxy_cfg (in_env i)"
  "proxy_cfg (in_env (apply_oidc w d i)) = proxy_cfg (in_env i)"
  "proxy_cfg (in_env (clear_oidc i)) = proxy_cfg (in_env i)"
  by (rule proxy_cfg_cong; simp add: apply_tailscale_def apply_oidc_def clear_oidc_def in_env_drops OIDC_KEYS_def
      Let_def split: option.split)+

lemma oidc_cfg_cong: "(\<And>k. k \<in> set OIDC_KEYS \<Longrightarrow> e k = f k) \<Longrightarrow> oidc_cfg e = oidc_cfg f"
proof -
  assume a: "\<And>k. k \<in> set OIDC_KEYS \<Longrightarrow> e k = f k"
  have k:
    "env_var ''WEBCHAT_OIDC_PROVIDER'' e = env_var ''WEBCHAT_OIDC_PROVIDER'' f"
    "env_var ''WEBCHAT_OIDC_NAME'' e = env_var ''WEBCHAT_OIDC_NAME'' f"
    "env_var ''WEBCHAT_OIDC_ISSUER'' e = env_var ''WEBCHAT_OIDC_ISSUER'' f"
    "env_var ''WEBCHAT_OIDC_AUDIENCE'' e = env_var ''WEBCHAT_OIDC_AUDIENCE'' f"
    "env_var ''WEBCHAT_OIDC_JWKS_URI'' e = env_var ''WEBCHAT_OIDC_JWKS_URI'' f"
    "env_var ''WEBCHAT_OIDC_AUTHORIZE_URL'' e = env_var ''WEBCHAT_OIDC_AUTHORIZE_URL'' f"
    "env_var ''WEBCHAT_OIDC_TOKEN_URL'' e = env_var ''WEBCHAT_OIDC_TOKEN_URL'' f"
    "env_var ''WEBCHAT_OIDC_TOKEN_AUTH'' e = env_var ''WEBCHAT_OIDC_TOKEN_AUTH'' f"
    "env_var ''WEBCHAT_OIDC_LOGIN'' e = env_var ''WEBCHAT_OIDC_LOGIN'' f"
    by (rule env_var_cong, rule a, simp add: OIDC_KEYS_def)+
  show ?thesis unfolding oidc_cfg_def Let_def k ..
qed

lemma oidc_after [simp]:
  "oidc_cfg (in_env (apply_tailscale on i)) = oidc_cfg (in_env i)"
  "oidc_cfg (in_env (apply_proxy v i)) = oidc_cfg (in_env i)"
  "oidc_cfg (in_env (clear_proxy i)) = oidc_cfg (in_env i)"
  by (rule oidc_cfg_cong; force simp: apply_tailscale_def apply_proxy_def clear_proxy_def OIDC_KEYS_def Let_def)+

section \<open>The way one came in stays open\<close>

lemma proxy_enabled_iff: "proxy_enabled e = (px_raw (proxy_cfg e) \<noteq> [])"
  by (simp add: proxy_enabled_def)

lemma same_proxy_again:
  assumes "pv_enabled (read_proxy (in_env i))" "pv_ips (read_proxy (in_env i)) = fst v" "fst v \<noteq> []" "snd v \<noteq> []"
    "pv_header (read_proxy (in_env i)) = snd v"
  shows "proxy_cfg (in_env (apply_proxy v i)) = proxy_cfg (in_env i)"
proof -
  let ?raw = "env_var ''WEBCHAT_TRUSTED_PROXY_IPS'' (in_env i)"
  let ?hd = "env_or DEFAULT_PROXY_HEADER ''WEBCHAT_TRUSTED_PROXY_HEADER''"
  have raw: "fst v = ?raw" using assms(2,3) by (auto simp: read_proxy_def Let_def split: if_splits)
  have h: "snd v = map lower (?hd (in_env i))" using assms(5) by (simp add: read_proxy_def Let_def)
  have ips: "env_var ''WEBCHAT_TRUSTED_PROXY_IPS'' (in_env (apply_proxy v i)) = ?raw"
    using raw by (subst env_var_Some[of _ _ "fst v"]) (simp_all add: apply_proxy_def Let_def env_var_def env_or_def)
  have lt: "map lower (js_trim (map lower s)) = map lower (js_trim s)" for s
  proof -
    have sp: "js_space (lower c) = js_space c" for c
      by (auto simp: js_space_def lower_def is_upper_def code_def)
    have dw: "dropWhile js_space (map lower s) = map lower (dropWhile js_space s)" for s
      by (induction s) (simp_all add: sp)
    show ?thesis by (simp add: js_trim_def trim_def dw rev_map)
  qed
  have "map lower (?hd (in_env (apply_proxy v i))) = map lower (?hd (in_env i))"
  proof (cases "snd v = DEFAULT_PROXY_HEADER")
    case True
    then have "?hd (in_env (apply_proxy v i)) = js_trim DEFAULT_PROXY_HEADER"
      by (simp add: env_or_def apply_proxy_def Let_def)
    moreover have "js_trim DEFAULT_PROXY_HEADER = DEFAULT_PROXY_HEADER"
      by (simp add: DEFAULT_PROXY_HEADER_def js_trim_def trim_def js_space_def)
    moreover have "map lower DEFAULT_PROXY_HEADER = DEFAULT_PROXY_HEADER"
      by (simp add: DEFAULT_PROXY_HEADER_def lower_def is_upper_def code_def)
    ultimately show ?thesis using True h by argo
  next
    case False
    then have a: "in_env (apply_proxy v i) ''WEBCHAT_TRUSTED_PROXY_HEADER'' = Some (snd v)"
      by (simp add: apply_proxy_def Let_def)
    have "?hd (in_env (apply_proxy v i)) = js_trim (snd v)" using assms(4) by (simp add: env_or_def a)
    also have "map lower (js_trim (snd v)) = snd v" using h lt by (simp add: env_or_def)
    finally show ?thesis using h by simp
  qed
  with ips show ?thesis unfolding proxy_cfg_def Let_def by simp
qed

lemma validated_proxy:
  assumes "validate_proxy_input b = Inr v"
  shows "fst v \<noteq> []" "snd v \<noteq> []"
proof -
  obtain x where e: "address_list (jtext (jfield ''ips'' b)) \<noteq> []" "fst v = join_with '','' (address_list (jtext (jfield ''ips'' b)))"
    "snd v = x" "header_name x"
    using assms by (auto simp: validate_proxy_input_def Let_def split: if_splits option.splits)
  show "snd v \<noteq> []" using e(3,4) by (auto simp: header_name_def)
  have "[] \<notin> set (address_list (jtext (jfield ''ips'' b)))" by (simp add: address_list_def)
  then show "fst v \<noteq> []" using e(1,2) by (cases "address_list (jtext (jfield ''ips'' b))") (auto simp: join_with_def)
qed

text \<open>A change the routes accepted, by the route that made it.\<close>

lemma accepted_cases:
  assumes "handle_signin_settings site path meth csrf body src user now st = (Shown, st')"
  shows "st' = st \<or> (\<exists>b. put_tailscale site b src user now st = (Shown, st'))
    \<or> (\<exists>b. put_token site b src user now st = (Shown, st'))
    \<or> delete_proxy site src user st = (Shown, st') \<or> (\<exists>b. put_proxy site b src user st = (Shown, st'))
    \<or> delete_oidc site src user st = (Shown, st') \<or> (\<exists>b. put_oidc site b src user st = (Shown, st'))"
  using assms unfolding handle_signin_settings_def Let_def with_body_def
  by (auto split: if_splits option.splits)

lemma recorded_Shown [simp]: "recorded user m on s = (Shown, st') \<longleftrightarrow> st' = s\<lparr>ad_trail := ad_trail s @ [(user, m, on)]\<rparr>"
  by (auto simp: recorded_def)

lemma unless_Shown [simp]: "unless why st go = (Shown, st') \<longleftrightarrow> why = None \<and> go = (Shown, st')"
  by (auto simp: unless_def split: option.split)

lemma off_refused: "method_of_source src = Some m \<Longrightarrow> off_refusal site st src m \<noteq> None"
  by (simp add: off_refusal_def)

lemma bearer_flag_after_set:
  "set_bearer_token_disabled d now sdb = Some sdb' \<Longrightarrow> get_bearer_token_disabled sdb' = d"
  by (auto simp: set_bearer_token_disabled_def settings_setter_def get_bearer_token_disabled_def settings_getter_def
      decode_bool_def bit_def split: option.splits if_splits)

definition same_way :: "signin_method \<Rightarrow> admin_state \<Rightarrow> admin_state \<Rightarrow> bool" where
  "same_way m st st' = (case m of
     ByToken \<Rightarrow> get_bearer_token_disabled (ad_settings st') \<longrightarrow> get_bearer_token_disabled (ad_settings st)
   | ByTailscale \<Rightarrow> tailscale_enabled (ad_env st) \<longrightarrow> tailscale_enabled (ad_env st')
   | ByProxy \<Rightarrow> proxy_enabled (ad_env st) \<longrightarrow> proxy_cfg (ad_env st') = proxy_cfg (ad_env st)
   | ByOidc \<Rightarrow> oc_enabled (oidc_cfg (ad_env st)) \<longrightarrow> oc_enabled (oidc_cfg (ad_env st'))
       \<and> ti_issuer (oc_tokens (oidc_cfg (ad_env st'))) = ti_issuer (oc_tokens (oidc_cfg (ad_env st)))
       \<and> ti_audience (oc_tokens (oidc_cfg (ad_env st'))) = ti_audience (oc_tokens (oidc_cfg (ad_env st))))"

lemma same_way_refl: "same_way m st st"
  by (simp add: same_way_def split: signin_method.split)

lemma discovered_endpoint:
  assumes "discover pu fetch provider place = Inr d" "\<And>s. js_trim s = [] \<Longrightarrow> pu s = None"
  shows "js_trim (snd (dc_tokens d)) \<noteq> []"
proof -
  obtain doc where r: "read_discovery pu provider place doc = Inr d"
    using assms(1) by (auto simp: discover_def split: option.splits if_splits)
  then have "https_endpoint pu (snd (dc_tokens d))"
    by (auto simp: read_discovery_def Let_def split: option.splits if_splits)
  with assms(2) show ?thesis by (auto simp: https_endpoint_def split: option.splits)
qed

lemma oidc_view_tokens:
  "ov_enabled (read_oidc e) = oc_enabled (oidc_cfg e)" "ov_issuer (read_oidc e) = env_var ''WEBCHAT_OIDC_ISSUER'' e"
  "ov_client (read_oidc e) = env_var ''WEBCHAT_OIDC_AUDIENCE'' e"
  "ti_issuer (oc_tokens (oidc_cfg e)) = env_var ''WEBCHAT_OIDC_ISSUER'' e"
  "ti_audience (oc_tokens (oidc_cfg e)) = env_var ''WEBCHAT_OIDC_AUDIENCE'' e"
  by (simp_all add: read_oidc_def oidc_cfg_def Let_def)

lemma oidc_enabled_iff: "oc_enabled (oidc_cfg e) \<longleftrightarrow> env_var ''WEBCHAT_OIDC_ISSUER'' e \<noteq> []
    \<and> env_var ''WEBCHAT_OIDC_AUDIENCE'' e \<noteq> []
    \<and> (env_var ''WEBCHAT_OIDC_JWKS_URI'' e \<noteq> [] \<or> ms_tenant (env_var ''WEBCHAT_OIDC_ISSUER'' e) \<noteq> None)"
  by (auto simp: oidc_cfg_def Let_def or_else_def)

lemma oidc_applied:
  "env_var ''WEBCHAT_OIDC_ISSUER'' (in_env (apply_oidc v d i)) = js_trim (fst (dc_tokens d))"
  "env_var ''WEBCHAT_OIDC_AUDIENCE'' (in_env (apply_oidc v d i)) = js_trim (vo_client v)"
  "env_var ''WEBCHAT_OIDC_JWKS_URI'' (in_env (apply_oidc v d i)) = js_trim (snd (dc_tokens d))"
  by (simp_all add: env_var_def env_or_def apply_oidc_def Let_def split: option.split)

lemma env_var_trimmed [simp]: "js_trim (env_var k e) = env_var k e"
  by (simp add: env_var_def env_or_def)

lemma put_oidc_same_way:
  assumes p: "put_oidc site b src user st = (Shown, st')" and m: "method_of_source src = Some ByOidc"
    and blank: "\<And>s. js_trim s = [] \<Longrightarrow> si_url site s = None"
  shows "same_way ByOidc st st'"
proof (cases "oc_enabled (oidc_cfg (ad_env st))")
  case False
  then show ?thesis by (simp add: same_way_def)
next
  case True
  from p obtain v d where d: "discover (si_url site) (si_fetch site) (vo_provider v) (vo_where v) = Inr d"
    and same: "fst (dc_tokens d) = ov_issuer (read_oidc (ad_env st))" "vo_client v = ov_client (read_oidc (ad_env st))"
    and st': "ad_install st' = apply_oidc v d (ad_install st)"
    using True off_refused[OF m, of site st]
    by (auto simp: put_oidc_def Let_def oidc_view_tokens split: sum.splits oidc_error.splits if_splits)
  have "js_trim (snd (dc_tokens d)) \<noteq> []" by (rule discovered_endpoint[OF d blank])
  then show ?thesis using True same
    by (simp add: same_way_def st' oidc_enabled_iff oidc_view_tokens oidc_applied)
qed

lemma put_proxy_same_way:
  assumes p: "put_proxy site b src user st = (Shown, st')" and m: "method_of_source src = Some ByProxy"
  shows "same_way ByProxy st st'"
proof (cases "proxy_enabled (ad_env st)")
  case False
  then show ?thesis by (simp add: same_way_def)
next
  case True
  then have on: "pv_enabled (read_proxy (ad_env st))"
    by (simp add: read_proxy_def Let_def proxy_enabled_def proxy_cfg_def)
  from p obtain v where v: "validate_proxy_input b = Inr v" and st': "ad_install st' = apply_proxy v (ad_install st)"
    and same: "pv_ips (read_proxy (ad_env st)) = fst v" "pv_header (read_proxy (ad_env st)) = snd v"
    using on off_refused[OF m, of site st]
    by (auto simp: put_proxy_def Let_def split: sum.splits if_splits)
  show ?thesis
    using same_proxy_again[OF on same(1) validated_proxy[OF v] same(2)] st' by (simp add: same_way_def)
qed

text \<open>
  C19: No settings change an owner makes turns off the method that signed the owner in: the settings of that method
  read as before, and if it was usable it still is.
\<close>

theorem own_way_in_stays_open:
  assumes accepted: "handle_signin_settings site path meth csrf body src user now st = (Shown, st')"
    and m: "method_of_source src = Some m" and blank: "\<And>s. js_trim s = [] \<Longrightarrow> si_url site s = None"
  shows "same_way m st st' \<and> (\<not> usable site st m \<or> usable site st' m)"
proof -
  have local: "src \<noteq> FromLocalhost" using m by (auto simp: method_of_source_def)
  have "same_way m st st' \<and> ad_healthy st' = ad_healthy st"
    using accepted_cases[OF accepted]
  proof (elim disjE exE)
    assume "st' = st"
    then show ?thesis by (simp add: same_way_refl)
  next
    fix b
    assume "put_tailscale site b src user now st = (Shown, st')"
    then obtain on where on: "on \<or> off_refusal site st src ByTailscale = None"
      and st': "st' = st\<lparr>ad_install := apply_tailscale on (ad_install st),
        ad_trail := ad_trail st @ [(user, ByTailscale, on)]\<rparr>"
      using local by (auto simp: put_tailscale_def split: option.splits jval.splits if_splits)
    have "on \<or> m \<noteq> ByTailscale" using on off_refused[OF m, of site st] by auto
    then show ?thesis using st' by (auto simp: same_way_def split: signin_method.split)
  next
    fix b
    assume t: "put_token site b src user now st = (Shown, st')"
    then obtain on where f: "jfield ''enabled'' b = Some (VBool on)"
      by (auto simp: put_token_def split: option.splits jval.splits)
    with t have on: "on \<or> off_refusal site st src ByToken = None"
      by (auto simp: put_token_def split: if_splits)
    from t f obtain sdb where sdb: "set_bearer_token_disabled (\<not> on) now (ad_settings st) = Some sdb"
      and st': "st' = st\<lparr>ad_settings := sdb, ad_trail := ad_trail st @ [(user, ByToken, on)]\<rparr>"
      by (auto simp: put_token_def split: option.splits if_splits)
    have "on \<or> m \<noteq> ByToken" using on off_refused[OF m, of site st] by auto
    then show ?thesis using st' bearer_flag_after_set[OF sdb] by (auto simp: same_way_def split: signin_method.split)
  next
    assume "delete_proxy site src user st = (Shown, st')"
    then have "m \<noteq> ByProxy" and st': "st' = st\<lparr>ad_install := clear_proxy (ad_install st),
        ad_trail := ad_trail st @ [(user, ByProxy, False)]\<rparr>"
      using off_refused[OF m, of site st] by (auto simp: delete_proxy_def)
    then show ?thesis by (auto simp: same_way_def split: signin_method.split)
  next
    fix b
    assume p: "put_proxy site b src user st = (Shown, st')"
    then obtain v where st': "st' = st\<lparr>ad_install := apply_proxy v (ad_install st),
        ad_trail := ad_trail st @ [(user, ByProxy, True)]\<rparr>"
      by (auto simp: put_proxy_def Let_def split: sum.splits if_splits)
    show ?thesis
    proof (cases "m = ByProxy")
      case True
      then show ?thesis using put_proxy_same_way[OF p] m st' by simp
    next
      case False
      then show ?thesis using st' by (auto simp: same_way_def split: signin_method.split)
    qed
  next
    assume "delete_oidc site src user st = (Shown, st')"
    then have "m \<noteq> ByOidc" and st': "st' = st\<lparr>ad_install := clear_oidc (ad_install st),
        ad_trail := ad_trail st @ [(user, ByOidc, False)]\<rparr>"
      using off_refused[OF m, of site st] by (auto simp: delete_oidc_def)
    then show ?thesis by (auto simp: same_way_def split: signin_method.split)
  next
    fix b
    assume p: "put_oidc site b src user st = (Shown, st')"
    then obtain v d where st': "st' = st\<lparr>ad_install := apply_oidc v d (ad_install st),
        ad_trail := ad_trail st @ [(user, ByOidc, True)]\<rparr>"
      by (auto simp: put_oidc_def Let_def split: sum.splits oidc_error.splits if_splits)
    show ?thesis
    proof (cases "m = ByOidc")
      case True
      then show ?thesis using put_oidc_same_way[OF p _ blank] m st' by simp
    next
      case False
      then show ?thesis using st' by (auto simp: same_way_def split: signin_method.split)
    qed
  qed
  then show ?thesis
    by (cases m) (auto simp: same_way_def token_active_def proxy_enabled_iff)
qed

section \<open>What the refusals miss\<close>

lemma settings_path:
  "drop (Suc (length signin_path)) (signin_path @ CHR ''/'' # which) = which"
  "starts_with (signin_path @ CHR ''/'' # which) (signin_path @ ''/'')"
  "signin_path @ CHR ''/'' # which \<noteq> signin_path"
  by (simp_all add: starts_with_def)

text \<open>
  The owner of a machine-only install may turn Tailscale on while its daemon is down: the local sign-in
  ends, and nothing can sign anyone in.
\<close>

lemma local_owner_locked_out:
  assumes own: "is_owner user (ad_roles st)" and down: "ad_healthy st \<noteq> Some True"
    and alone: "si_token site = []" "\<not> proxy_enabled (ad_env st)" "\<not> oc_enabled (oidc_cfg (ad_env st))"
    and flag: "set_promote_first True now (ad_settings st) = Some sdb"
  shows "\<exists>st'. handle_signin_settings site (signin_path @ ''/tailscale'') ''PUT'' True
      (Some (VObj [(''enabled'', VBool True)])) FromLocalhost user now st = (Shown, st')
    \<and> tailscale_enabled (ad_env st') \<and> (\<forall>m. \<not> usable site st' m)"
proof -
  let ?st = "st\<lparr>ad_settings := sdb, ad_install := apply_tailscale True (ad_install st),
    ad_trail := ad_trail st @ [(user, ByTailscale, True)]\<rparr>"
  have "handle_signin_settings site (signin_path @ ''/tailscale'') ''PUT'' True
      (Some (VObj [(''enabled'', VBool True)])) FromLocalhost user now st = (Shown, ?st)"
    using own flag settings_path[of "''tailscale''"]
    by (simp add: handle_signin_settings_def Let_def with_body_def jtruthy_def put_tailscale_def jfield_def)
  moreover have "\<not> usable site ?st m" for m
    using down alone by (cases m) (simp_all add: token_active_def proxy_enabled_iff)
  ultimately show ?thesis by auto
qed

text \<open>
  Someone signed in with the single sign-on may change which claim names them: the refusal to re-point it
  compares the issuer and the client, not the provider.
\<close>

lemma provider_switch_is_accepted:
  assumes "is_owner user (ad_roles st)" "jtruthy b" "validate_oidc_input (si_url site) b = Inr v"
    "discover (si_url site) (si_fetch site) (vo_provider v) (vo_where v) = Inr d"
    "oc_enabled (oidc_cfg (ad_env st))" "fst (dc_tokens d) = ov_issuer (read_oidc (ad_env st))"
    "vo_client v = ov_client (read_oidc (ad_env st))"
  shows "\<exists>st'. handle_signin_settings site (signin_path @ ''/oidc'') ''PUT'' True (Some b) FromOidc user now st
      = (Shown, st') \<and> ad_install st' = apply_oidc v d (ad_install st)"
  using assms settings_path[of "''oidc''"]
  by (simp add: handle_signin_settings_def Let_def with_body_def put_oidc_def oidc_view_tokens)

text \<open>A body that is JSON but false gets no answer.\<close>

lemma null_body_is_unanswered:
  assumes "is_owner user (ad_roles st)"
  shows "handle_signin_settings site (signin_path @ ''/proxy'') ''PUT'' True (Some VNull) src user now st = (Unanswered, st)"
  using assms settings_path[of "''proxy''"]
  by (simp add: handle_signin_settings_def Let_def with_body_def jtruthy_def)

section \<open>One change\<close>

definition demo_site :: site where
  "demo_site = \<lparr>si_token = ''t'', si_host = ''0.0.0.0'', si_url = (\<lambda>_. None), si_fetch = (\<lambda>_. None)\<rparr>"

definition demo_admin :: admin_state where
  "demo_admin = \<lparr>ad_install = \<lparr>in_env = [''WEBCHAT_TAILSCALE'' \<mapsto> ''true''], in_file = None\<rparr>,
     ad_settings = \<lparr>st_schema = [''bearer_token_disabled'' \<mapsto> SInt 0], st_row = Some None\<rparr>,
     ad_healthy = Some True, ad_probed = 0,
     ad_roles = \<lparr>user_roles = None, users = None, audit_log = []\<rparr>, ad_trail = []\<rparr>"

theorem own_way_in_stays_open_witness:
  "\<exists>st'. handle_signin_settings demo_site (signin_path @ ''/token'') ''PUT'' True
      (Some (VObj [(''enabled'', VBool False)])) FromTailscale ''webchat:tailscale:ann'' 5 demo_admin = (Shown, st')
    \<and> usable demo_site st' ByTailscale"
proof -
  let ?r = "handle_signin_settings demo_site (signin_path @ ''/token'') ''PUT'' True
      (Some (VObj [(''enabled'', VBool False)])) FromTailscale ''webchat:tailscale:ann'' 5 demo_admin"
  have owner: "is_owner u (ad_roles demo_admin)" for u
    by (simp add: is_owner_def role_query_def demo_admin_def)
  have on: "usable demo_site demo_admin ByTailscale"
    by (simp add: demo_admin_def tailscale_enabled_def)
  have "off_refusal demo_site demo_admin FromTailscale ByToken = None"
    using on by (simp add: off_refusal_def method_of_source_def METHODS_def)
  moreover have "set_bearer_token_disabled True 5 (ad_settings demo_admin) \<noteq> None"
    by (simp add: set_bearer_token_disabled_def settings_setter_def demo_admin_def)
  ultimately obtain st' where h: "?r = (Shown, st')"
    using owner settings_path[of "''token''"]
    by (auto simp: handle_signin_settings_def Let_def with_body_def jtruthy_def put_token_def jfield_def demo_site_def
        unless_def recorded_def)
  have "method_of_source FromTailscale = Some ByTailscale" by (simp add: method_of_source_def)
  from own_way_in_stays_open[OF h this] on h show ?thesis by (auto simp: demo_site_def)
qed

section \<open>The environment file\<close>

text \<open>The lines of the file that set \<open>k\<close>.\<close>

definition setting_lines :: "string \<Rightarrow> string option \<Rightarrow> string list" where
  "setting_lines k f = filter (\<lambda>l. starts_with l (k @ ''='')) (split_on line_feed (coalesce f []))"

lemma split_on_join:
  "ls \<noteq> [] \<Longrightarrow> (\<And>l. l \<in> set ls \<Longrightarrow> c \<notin> set l) \<Longrightarrow> split_on c (join_with [c] ls) = ls"
  by (induction ls rule: induct_list012) (auto simp: split_on_id split_on_append)

lemma lines_without_key:
  "filter (\<lambda>l. starts_with l (k' @ ''='')) (split_on line_feed (without_key k raw))
   = filter (\<lambda>l. starts_with l (k' @ ''='') \<and> \<not> starts_with l (k @ ''='')) (split_on line_feed raw)"
proof (cases "filter (\<lambda>l. \<not> starts_with l (k @ ''='')) (split_on line_feed raw) = []")
  case True
  then have "\<not> (starts_with l (k' @ ''='') \<and> \<not> starts_with l (k @ ''=''))" if "l \<in> set (split_on line_feed raw)" for l
    using that by (auto simp: filter_empty_conv)
  with True show ?thesis by (auto simp: without_key_def starts_with_def filter_empty_conv)
next
  case False
  have "line_feed \<notin> set l" if "l \<in> set (split_on line_feed raw)" for l using split_on_part[OF that] by blast
  then have "split_on line_feed (without_key k raw) = filter (\<lambda>l. \<not> starts_with l (k @ ''='')) (split_on line_feed raw)"
    unfolding without_key_def using False by (intro split_on_join) auto
  then show ?thesis by (simp add: conj_commute)
qed

lemma split_on_last_piece:
  "split_on c (a @ c # b) = split_on c a @ split_on c b"
proof (induction a)
  case (Cons x a)
  then show ?case by (cases "split_on c a") (auto split: list.splits)
qed simp

text \<open>Two names neither of which holds an equals sign do not start the same line.\<close>

lemma one_name_per_line:
  assumes "CHR ''='' \<notin> set k" "CHR ''='' \<notin> set k'" "starts_with l (k @ ''='')" "starts_with l (k' @ ''='')"
  shows "k = k'"
proof -
  obtain r where "l = k @ CHR ''='' # r" using assms(3) by (auto simp: starts_with_def prefix_def)
  moreover obtain r' where "l = k' @ CHR ''='' # r'" using assms(4) by (auto simp: starts_with_def prefix_def)
  moreover have "takeWhile (\<lambda>c. c \<noteq> CHR ''='') (x @ CHR ''='' # y) = x" if "CHR ''='' \<notin> set x" for x y
    using that by (induction x) auto
  ultimately show ?thesis using assms(1,2) by metis
qed

text \<open>
  After a setting is written, the environment file has exactly one line for its key, with the value less its
  line ends, and the lines of every other key are as they were.
\<close>

theorem environment_file_agrees:
  assumes k: "CHR ''='' \<notin> set k" "line_feed \<notin> set k" and k': "CHR ''='' \<notin> set k'"
  shows "setting_lines k' (in_file (put_env k v i))
    = (if k' = k then [k @ ''='' @ filter (\<lambda>c. code c \<noteq> 10 \<and> code c \<noteq> 13) v] else setting_lines k' (in_file i))"
proof -
  let ?raw = "without_key k (coalesce (in_file i) [])"
  let ?line = "k @ ''='' @ filter (\<lambda>c. code c \<noteq> 10 \<and> code c \<noteq> 13) v"
  let ?q = "\<lambda>l. starts_with l (k' @ ''='')"
  have nl: "line_feed \<notin> set ?line" using k(2) by (auto simp: line_feed_def code_def)
  have written: "in_file (put_env k v i) = Some ((if ?raw \<noteq> [] \<and> last ?raw \<noteq> line_feed then ?raw @ [line_feed] else ?raw)
      @ ?line @ [line_feed])"
    by (simp add: put_env_def upsert_env_def Let_def)
  have last_line: "split_on line_feed (?line @ [line_feed]) = [?line, []]"
    using split_on_append[OF nl, of "[]"] by simp
  have blank: "\<not> ?q []" by (simp add: starts_with_def)
  have "filter ?q (split_on line_feed (the (in_file (put_env k v i))))
      = filter ?q (split_on line_feed ?raw) @ filter ?q [?line]"
  proof (cases "?raw \<noteq> [] \<and> last ?raw \<noteq> line_feed")
    case True
    then have "split_on line_feed (the (in_file (put_env k v i))) = split_on line_feed ?raw @ [?line, []]"
      using written split_on_last_piece[of line_feed ?raw "?line @ [line_feed]"] last_line by simp
    then show ?thesis using blank by simp
  next
    case False
    show ?thesis
    proof (cases "?raw = []")
      case True
      then show ?thesis using written last_line blank by simp
    next
      case ne: False
      with False obtain r0 where r0: "?raw = r0 @ [line_feed]" by (metis append_butlast_last_id)
      have "split_on line_feed (the (in_file (put_env k v i))) = split_on line_feed r0 @ [?line, []]"
        using written False ne r0 split_on_last_piece[of line_feed r0 "?line @ [line_feed]"] last_line by simp
      moreover have "split_on line_feed ?raw = split_on line_feed r0 @ [[]]"
        using split_on_last_piece[of line_feed r0 "[]"] by (simp add: r0)
      ultimately show ?thesis using blank by simp
    qed
  qed
  moreover have "?q ?line \<longleftrightarrow> k' = k"
  proof
    assume "?q ?line"
    moreover have "starts_with ?line (k @ ''='')" by (simp add: starts_with_def)
    ultimately show "k' = k" using one_name_per_line[OF k(1) k'] by metis
  qed (simp add: starts_with_def)
  moreover have "filter ?q (split_on line_feed ?raw) = (if k' = k then [] else setting_lines k' (in_file i))"
  proof (cases "k' = k")
    case False
    have "(?q l \<and> \<not> starts_with l (k @ ''='')) = ?q l" for l
      using one_name_per_line[OF k(1) k', of l] False by blast
    then show ?thesis using False by (simp add: lines_without_key setting_lines_def)
  qed (simp add: lines_without_key)
  moreover have "setting_lines k' (in_file (put_env k v i)) = filter ?q (split_on line_feed (the (in_file (put_env k v i))))"
    by (simp add: setting_lines_def written)
  ultimately show ?thesis by simp
qed

theorem environment_file_agrees_witness:
  "setting_lines ''WEBCHAT_HOST'' (in_file (put_env ''WEBCHAT_TAILSCALE'' ''true''
     \<lparr>in_env = Map.empty, in_file = Some ''WEBCHAT_HOST=0.0.0.0''\<rparr>)) = [''WEBCHAT_HOST=0.0.0.0'']"
  by (subst environment_file_agrees) (simp_all add: line_feed_def setting_lines_def starts_with_def)

section \<open>What a start reads\<close>

text \<open>
  The names the environment reader is not asked for keep what the service manager gave them, whatever the
  file says: both Cloudflare Access settings and the Serve port are among them.
\<close>

lemma load_env_other:
  assumes "\<And>ks f. fst ` set (read_env_file ks f) \<subseteq> set ks" "k \<notin> set WEBCHAT_ENV_KEYS"
  shows "in_env (load_env read_env_file i) k = in_env i k"
proof -
  have "fold (\<lambda>(k, v) e. if e k = None then e(k \<mapsto> v) else e) kvs e k = e k" if "k \<notin> fst ` set kvs" for kvs and e :: env
    using that by (induction kvs arbitrary: e) (auto split: if_splits)
  moreover have "k \<notin> fst ` set (read_env_file WEBCHAT_ENV_KEYS (in_file i))" using assms by blast
  ultimately show ?thesis by (simp add: load_env_def)
qed

lemma cf_access_in_the_file_is_not_read:
  assumes "\<And>ks f. fst ` set (read_env_file ks f) \<subseteq> set ks" "in_env i ''WEBCHAT_CF_ACCESS_AUD'' = None"
  shows "fst (cf_access_cfg (in_env (load_env read_env_file i))) = False"
    and "in_env (load_env read_env_file i) ''WEBCHAT_SERVE_PORT'' = in_env i ''WEBCHAT_SERVE_PORT''"
proof -
  have "in_env (load_env read_env_file i) ''WEBCHAT_CF_ACCESS_AUD'' = None"
    using load_env_other[OF assms(1), of "''WEBCHAT_CF_ACCESS_AUD''"] assms(2) by (simp add: WEBCHAT_ENV_KEYS_def)
  then have "env_var ''WEBCHAT_CF_ACCESS_AUD'' (in_env (load_env read_env_file i)) = []"
    by (simp add: env_var_def env_or_def js_trim_def trim_def)
  then show "fst (cf_access_cfg (in_env (load_env read_env_file i))) = False"
    by (simp add: cf_access_cfg_def Let_def)
  show "in_env (load_env read_env_file i) ''WEBCHAT_SERVE_PORT'' = in_env i ''WEBCHAT_SERVE_PORT''"
    using load_env_other[OF assms(1), of "''WEBCHAT_SERVE_PORT''"] by (simp add: WEBCHAT_ENV_KEYS_def)
qed

end
