(* ===== verification/Permissions.thy ===== *)
theory Permissions
  imports RequestAuth
begin

text \<open>
  Who grants what to whom (the permission routes of \<open>channels/webchat/server/routes-users.ts\<close>, and the
  guards of the route table in \<open>server.ts\<close>). The host's own tables of roles, memberships and users
  (\<open>modules/permissions/db\<close>) are not part of this repository: they are the parameter \<open>perm_api\<close>, with what
  its functions are documented to do in \<open>perm_api_ok\<close>. A write that violates a constraint raises (\<open>None\<close>).
\<close>

record member_row =
  mb_user :: string
  mb_group :: string
  mb_by :: "string option"
  mb_at :: millis

record perm_db =
  pd_roles :: role_db
  pd_members :: "member_row list"
  pd_dms :: "string list" \<comment> \<open>the user of each cached direct-message row\<close>

definition role_rows :: "perm_db \<Rightarrow> role_row list" where
  "role_rows d = coalesce (user_roles (pd_roles d)) []"

section \<open>The host's tables\<close>

record perm_api =
  pm_grant_role :: "role_row \<Rightarrow> perm_db \<Rightarrow> perm_db option"
  pm_revoke_role :: "string \<Rightarrow> string \<Rightarrow> string option \<Rightarrow> perm_db \<Rightarrow> perm_db"
  pm_owners :: "perm_db \<Rightarrow> role_row list"
  pm_user_roles :: "string \<Rightarrow> perm_db \<Rightarrow> role_row list"
  pm_add_member :: "member_row \<Rightarrow> perm_db \<Rightarrow> perm_db option"
  pm_remove_member :: "string \<Rightarrow> string \<Rightarrow> perm_db \<Rightarrow> perm_db"
  pm_members :: "string \<Rightarrow> perm_db \<Rightarrow> member_row list"
  pm_all_users :: "perm_db \<Rightarrow> user_row list"
  pm_user :: "string \<Rightarrow> perm_db \<Rightarrow> user_row option"
  pm_upsert_user :: "user_row \<Rightarrow> perm_db \<Rightarrow> perm_db"
  pm_delete_user :: "string \<Rightarrow> perm_db \<Rightarrow> perm_db"

text \<open>What a write to one table leaves alone.\<close>

definition same_members :: "perm_db \<Rightarrow> perm_db \<Rightarrow> bool" where
  "same_members d d' = (pd_members d' = pd_members d)"

definition same_roles :: "perm_db \<Rightarrow> perm_db \<Rightarrow> bool" where
  "same_roles d d' = (user_roles (pd_roles d') = user_roles (pd_roles d))"

definition same_role :: "role_row \<Rightarrow> role_row \<Rightarrow> bool" where
  "same_role r s = (rr_user r = rr_user s \<and> rr_role r = rr_role s \<and> rr_group r = rr_group s)"

definition same_member :: "member_row \<Rightarrow> member_row \<Rightarrow> bool" where
  "same_member m n = (mb_user m = mb_user n \<and> mb_group m = mb_group n)"

text \<open>A grant leaves a row of that user, role and group, its own or the one that was there, and every other row.\<close>

definition granted_role :: "role_row \<Rightarrow> perm_db \<Rightarrow> perm_db \<Rightarrow> bool" where
  "granted_role r d d' = (set (role_rows d) \<subseteq> set (role_rows d') \<and> set (role_rows d') \<subseteq> insert r (set (role_rows d))
     \<and> list_ex (same_role r) (role_rows d') \<and> (user_roles (pd_roles d') = None) = (user_roles (pd_roles d) = None)
     \<and> same_members d d')"

definition added_member :: "member_row \<Rightarrow> perm_db \<Rightarrow> perm_db \<Rightarrow> bool" where
  "added_member m d d' = (set (pd_members d) \<subseteq> set (pd_members d') \<and> set (pd_members d') \<subseteq> insert m (set (pd_members d))
     \<and> list_ex (same_member m) (pd_members d') \<and> same_roles d d')"

definition perm_api_ok :: "perm_api \<Rightarrow> bool" where
  "perm_api_ok a =
     ((\<forall>r d d'. pm_grant_role a r d = Some d' \<longrightarrow> granted_role r d d')
      \<and> (\<forall>u k g d. set (role_rows (pm_revoke_role a u k g d))
           = {r \<in> set (role_rows d). \<not> (rr_user r = u \<and> rr_role r = k \<and> rr_group r = g)}
         \<and> (user_roles (pd_roles (pm_revoke_role a u k g d)) = None) = (user_roles (pd_roles d) = None)
         \<and> same_members d (pm_revoke_role a u k g d))
      \<and> (\<forall>d. set (pm_owners a d) = {r \<in> set (role_rows d). rr_role r = ''owner'' \<and> rr_group r = None})
      \<and> (\<forall>u d. set (pm_user_roles a u d) = {r \<in> set (role_rows d). rr_user r = u})
      \<and> (\<forall>m d d'. pm_add_member a m d = Some d' \<longrightarrow> added_member m d d')
      \<and> (\<forall>u g d. set (pd_members (pm_remove_member a u g d))
           = {m \<in> set (pd_members d). \<not> (mb_user m = u \<and> mb_group m = g)} \<and> same_roles d (pm_remove_member a u g d))
      \<and> (\<forall>g d. set (pm_members a g d) = {m \<in> set (pd_members d). mb_group m = g})
      \<and> (\<forall>u d. same_roles d (pm_upsert_user a u d) \<and> same_members d (pm_upsert_user a u d))
      \<and> (\<forall>u d. same_roles d (pm_delete_user a u d) \<and> same_members d (pm_delete_user a u d)))"

text \<open>Tables that behave as documented, for concrete runs.\<close>

definition on_roles :: "(role_row list \<Rightarrow> role_row list) \<Rightarrow> perm_db \<Rightarrow> perm_db" where
  "on_roles f d = d\<lparr>pd_roles := (pd_roles d)\<lparr>user_roles := map_option f (user_roles (pd_roles d))\<rparr>\<rparr>"

definition on_users :: "(user_row list \<Rightarrow> user_row list) \<Rightarrow> perm_db \<Rightarrow> perm_db" where
  "on_users f d = d\<lparr>pd_roles := (pd_roles d)\<lparr>users := map_option f (users (pd_roles d))\<rparr>\<rparr>"

definition host_perm_api :: perm_api where
  "host_perm_api = \<lparr>
     pm_grant_role = (\<lambda>r d. case user_roles (pd_roles d) of None \<Rightarrow> None
        | Some rs \<Rightarrow> (if list_ex (same_role r) rs then None else Some (on_roles (\<lambda>rs. rs @ [r]) d))),
     pm_revoke_role = (\<lambda>u k g. on_roles (tbl_delete (\<lambda>r. rr_user r = u \<and> rr_role r = k \<and> rr_group r = g))),
     pm_owners = (\<lambda>d. filter (\<lambda>r. rr_role r = ''owner'' \<and> rr_group r = None) (role_rows d)),
     pm_user_roles = (\<lambda>u d. filter (\<lambda>r. rr_user r = u) (role_rows d)),
     pm_add_member = (\<lambda>m d. Some (if list_ex (same_member m) (pd_members d) then d else d\<lparr>pd_members := pd_members d @ [m]\<rparr>)),
     pm_remove_member = (\<lambda>u g d. d\<lparr>pd_members := tbl_delete (\<lambda>m. mb_user m = u \<and> mb_group m = g) (pd_members d)\<rparr>),
     pm_members = (\<lambda>g d. filter (\<lambda>m. mb_group m = g) (pd_members d)),
     pm_all_users = (\<lambda>d. coalesce (users (pd_roles d)) []),
     pm_user = (\<lambda>u d. tbl_get u_id u (coalesce (users (pd_roles d)) [])),
     pm_upsert_user = (\<lambda>u. on_users (tbl_upsert u_id u)),
     pm_delete_user = (\<lambda>u. on_users (tbl_delete (\<lambda>x. u_id x = u)))\<rparr>"

lemma role_rows_delete: "role_rows (on_roles (tbl_delete p) d) = tbl_delete p (role_rows d)"
  by (cases "user_roles (pd_roles d)") (auto simp: role_rows_def on_roles_def tbl_delete_def)

lemma host_perm_api_ok [simp]: "perm_api_ok host_perm_api"
proof -
  have g: "granted_role r d d'" if "pm_grant_role host_perm_api r d = Some d'" for r d d'
    using that by (auto simp: host_perm_api_def granted_role_def on_roles_def role_rows_def same_members_def
        same_role_def list_ex_iff split: option.splits if_splits)
  show ?thesis unfolding perm_api_ok_def
    by (auto simp: g) (auto simp: host_perm_api_def role_rows_delete added_member_def same_members_def same_roles_def
        on_users_def same_member_def list_ex_iff, auto simp: on_roles_def split: if_splits)
qed

section \<open>The route table's guards\<close>

datatype route_guard = Csrf | OwnerGuard | GlobalAdminGuard | AnyAdminGuard

datatype grant_error = UserIdRequired | NotNamespaced | BadKind | OwnerIsGlobal | MemberNeedsGroup | NoSuchGroup string

datatype perm_refusal = NoCsrf | OwnerOnly | Forbidden | AdminOnly | NeedsGroupAdmin | InvalidJson
  | BadGrant grant_error | LastOwner | UserRequired | SelfDelete | NoSuchUser | StillHasRoles nat | StillHasMemberships

datatype perm_reply = Done | Denied nat perm_refusal | Threw

definition guard_fails :: "bool \<Rightarrow> string \<Rightarrow> role_db \<Rightarrow> route_guard \<Rightarrow> perm_refusal option" where
  "guard_fails csrf u rdb g = (case g of
     Csrf \<Rightarrow> (if csrf then None else Some NoCsrf)
   | OwnerGuard \<Rightarrow> (if is_owner u rdb then None else Some OwnerOnly)
   | GlobalAdminGuard \<Rightarrow> (if is_owner u rdb \<or> is_global_admin u rdb then None else Some Forbidden)
   | AnyAdminGuard \<Rightarrow> (if is_any_admin u rdb then None else Some AdminOnly))"

text \<open>In the order they are written; the first that fails answers.\<close>

fun guards_refuse :: "bool \<Rightarrow> string \<Rightarrow> role_db \<Rightarrow> route_guard list \<Rightarrow> perm_refusal option" where
  "guards_refuse csrf u rdb [] = None"
| "guards_refuse csrf u rdb (g # gs) =
     (case guard_fails csrf u rdb g of Some e \<Rightarrow> Some e | None \<Rightarrow> guards_refuse csrf u rdb gs)"

section \<open>Reading a grant\<close>

datatype grant_kind = AsOwner | AsAdmin | AsMember

definition derive_user_kind :: "string \<Rightarrow> string" where
  "derive_user_kind u = (if CHR '':'' \<in> set u then takeWhile (\<lambda>c. c \<noteq> CHR '':'') u else ''unknown'')"

definition grant_kind_of :: "jval option \<Rightarrow> grant_kind option" where
  "grant_kind_of v = (case v of Some (VStr k) \<Rightarrow>
      (if k = ''owner'' then Some AsOwner else if k = ''admin'' then Some AsAdmin
       else if k = ''member'' then Some AsMember else None)
   | _ \<Rightarrow> None)"

definition group_of :: "jval option \<Rightarrow> string option" where
  "group_of v = (case v of Some (VStr g) \<Rightarrow> Some g | _ \<Rightarrow> None)"

definition validate_grant_body ::
  "(string \<Rightarrow> bool) \<Rightarrow> jval \<Rightarrow> grant_error + string \<times> grant_kind \<times> string option" where
  "validate_grant_body agent_exists b =
     (let raw = js_trim (jtext (jfield ''userId'' b)); g = group_of (jfield ''agentGroupId'' b)
      in if raw = [] then Inl UserIdRequired
         else if CHR '':'' \<notin> set raw then Inl NotNamespaced
         else case grant_kind_of (jfield ''kind'' b) of
           None \<Rightarrow> Inl BadKind
         | Some k \<Rightarrow>
            (if k = AsOwner \<and> g \<noteq> None then Inl OwnerIsGlobal
             else if k = AsMember \<and> g = None then Inl MemberNeedsGroup
             else if truthy g \<and> \<not> agent_exists (the g) then Inl (NoSuchGroup (the g))
             else Inr (canonicalize_user_id raw, k, g)))"

text \<open>The boundary of delegated membership: the 403 to send, or \<open>None\<close>.\<close>

definition check_member_grant_auth :: "string \<Rightarrow> jval option \<Rightarrow> jval option \<Rightarrow> role_db \<Rightarrow> perm_refusal option" where
  "check_member_grant_auth caller kind gid rdb =
     (if is_owner caller rdb then None
      else if kind \<noteq> Some (VStr ''member'') then Some OwnerOnly
      else if \<not> truthy (group_of gid) \<or> \<not> has_admin_privilege caller (the (group_of gid)) rdb
      then Some NeedsGroupAdmin else None)"

section \<open>Granting and revoking\<close>

definition role_name :: "grant_kind \<Rightarrow> string" where
  "role_name k = (case k of AsOwner \<Rightarrow> ''owner'' | AsAdmin \<Rightarrow> ''admin'' | AsMember \<Rightarrow> ''member'')"

definition ensure_known :: "perm_api \<Rightarrow> string \<Rightarrow> millis \<Rightarrow> perm_db \<Rightarrow> perm_db" where
  "ensure_known a u now d = (if pm_user a u d \<noteq> None then d
     else pm_upsert_user a \<lparr>u_id = u, u_kind = derive_user_kind u, u_display = None, u_created = now\<rparr> d)"

definition grant_permission ::
  "perm_api \<Rightarrow> (string \<Rightarrow> bool) \<Rightarrow> jval \<Rightarrow> string \<Rightarrow> millis \<Rightarrow> perm_db \<Rightarrow> perm_reply \<times> perm_db" where
  "grant_permission a agent_exists b caller now d = (case validate_grant_body agent_exists b of
     Inl e \<Rightarrow> (Denied 400 (BadGrant e), d)
   | Inr (u, k, g) \<Rightarrow>
      (let d1 = ensure_known a u now d;
           wrote = (if k = AsMember
             then pm_add_member a \<lparr>mb_user = u, mb_group = the g, mb_by = Some caller, mb_at = now\<rparr> d1
             else pm_grant_role a \<lparr>rr_user = u, rr_role = role_name k, rr_group = g, rr_granted_by = Some caller,
                    rr_at = now\<rparr> d1)
       in case wrote of None \<Rightarrow> (Threw, d1) | Some d2 \<Rightarrow> (Done, d2)))"

definition revoke_permission ::
  "perm_api \<Rightarrow> (string \<Rightarrow> bool) \<Rightarrow> jval \<Rightarrow> perm_db \<Rightarrow> perm_reply \<times> perm_db" where
  "revoke_permission a agent_exists b d = (case validate_grant_body agent_exists b of
     Inl e \<Rightarrow> (Denied 400 (BadGrant e), d)
   | Inr (u, k, g) \<Rightarrow>
      (if k = AsOwner \<and> filter (\<lambda>r. rr_user r \<noteq> u) (pm_owners a d) = [] then (Denied 409 LastOwner, d)
       else if k = AsMember then (Done, pm_remove_member a u (the g) d)
       else (Done, pm_revoke_role a u (role_name k) g d)))"

definition delete_user_handler ::
  "perm_api \<Rightarrow> string list \<Rightarrow> string \<Rightarrow> string \<Rightarrow> perm_db \<Rightarrow> perm_reply \<times> perm_db" where
  "delete_user_handler a groups target caller d =
     (if target = [] then (Denied 400 UserRequired, d)
      else if target = caller then (Denied 409 SelfDelete, d)
      else if pm_user a target d = None then (Denied 404 NoSuchUser, d)
      else if pm_user_roles a target d \<noteq> [] then (Denied 409 (StillHasRoles (length (pm_user_roles a target d))), d)
      else if list_ex (\<lambda>g. list_ex (\<lambda>m. mb_user m = target) (pm_members a g d)) groups
      then (Denied 409 StillHasMemberships, d)
      else (Done, pm_delete_user a target (d\<lparr>pd_dms := filter (\<lambda>u. u \<noteq> target) (pd_dms d)\<rparr>)))"

section \<open>The routes\<close>

text \<open>A body that does not parse is \<open>None\<close>; reading a field of \<open>null\<close> raises.\<close>

definition with_grant_body ::
  "bool \<Rightarrow> string \<Rightarrow> jval option \<Rightarrow> perm_db \<Rightarrow> (jval \<Rightarrow> perm_reply \<times> perm_db) \<Rightarrow> perm_reply \<times> perm_db" where
  "with_grant_body csrf caller body d f = (case guards_refuse csrf caller (pd_roles d) [Csrf] of
     Some e \<Rightarrow> (Denied 403 e, d)
   | None \<Rightarrow> (case body of
       None \<Rightarrow> (Denied 400 InvalidJson, d)
     | Some b \<Rightarrow>
        (if b = VNull then (Threw, d)
         else case check_member_grant_auth caller (jfield ''kind'' b) (jfield ''agentGroupId'' b) (pd_roles d) of
           Some e \<Rightarrow> (Denied 403 e, d)
         | None \<Rightarrow> f b)))"

definition r_permissions_grant_post ::
  "perm_api \<Rightarrow> (string \<Rightarrow> bool) \<Rightarrow> bool \<Rightarrow> string \<Rightarrow> jval option \<Rightarrow> millis \<Rightarrow> perm_db \<Rightarrow> perm_reply \<times> perm_db" where
  "r_permissions_grant_post a agent_exists csrf caller body now d =
     with_grant_body csrf caller body d (\<lambda>b. grant_permission a agent_exists b caller now d)"

definition r_permissions_revoke_post ::
  "perm_api \<Rightarrow> (string \<Rightarrow> bool) \<Rightarrow> bool \<Rightarrow> string \<Rightarrow> jval option \<Rightarrow> perm_db \<Rightarrow> perm_reply \<times> perm_db" where
  "r_permissions_revoke_post a agent_exists csrf caller body d =
     with_grant_body csrf caller body d (\<lambda>b. revoke_permission a agent_exists b d)"

definition r_user_id_delete ::
  "perm_api \<Rightarrow> string list \<Rightarrow> bool \<Rightarrow> string \<Rightarrow> string \<Rightarrow> perm_db \<Rightarrow> perm_reply \<times> perm_db" where
  "r_user_id_delete a groups csrf caller target d =
     (case guards_refuse csrf caller (pd_roles d) [Csrf, OwnerGuard] of
        Some e \<Rightarrow> (Denied 403 e, d)
      | None \<Rightarrow> delete_user_handler a groups target caller d)"

section \<open>The directory\<close>

record user_with_permissions =
  up_user :: user_row
  up_roles :: "role_row list"
  up_memberships :: "member_row list"

definition list_users_with_permissions ::
  "perm_api \<Rightarrow> string list \<Rightarrow> string \<Rightarrow> perm_db \<Rightarrow> user_with_permissions list" where
  "list_users_with_permissions a groups caller d =
     (let rdb = pd_roles d; full = is_owner caller rdb \<or> is_global_admin caller rdb;
          visible = (if full then groups else filter_async groups (\<lambda>g _. has_admin_privilege caller g rdb))
      in map (\<lambda>u. \<lparr>up_user = u,
            up_roles = filter (\<lambda>r. full \<or> (case rr_group r of None \<Rightarrow> False | Some g \<Rightarrow> g \<in> set visible))
               (pm_user_roles a (u_id u) d),
            up_memberships = List.map_filter (\<lambda>g. find (\<lambda>m. mb_user m = u_id u) (pm_members a g d)) visible\<rparr>)
          (pm_all_users a d))"

definition r_users_get ::
  "perm_api \<Rightarrow> string list \<Rightarrow> string \<Rightarrow> perm_db \<Rightarrow> user_with_permissions list option" where
  "r_users_get a groups caller d = (if is_any_admin caller (pd_roles d)
     then Some (list_users_with_permissions a groups caller d) else None)"

end
