(* ===== verification/PermissionFacts.thy ===== *)
theory PermissionFacts
  imports Permissions
begin

text \<open>
  What the permission routes keep: somebody always owns the install, people who are not owners never change a
  role whatever they ask for together, and an admin of some groups sees those groups only.
\<close>

datatype perm_ask = AskGrant bool string "jval option" | AskRevoke bool string "jval option"
  | AskDelete bool string string | LogsIn string

fun asker :: "perm_ask \<Rightarrow> string option" where
  "asker (AskGrant csrf u b) = Some u"
| "asker (AskRevoke csrf u b) = Some u"
| "asker (AskDelete csrf u t) = Some u"
| "asker (LogsIn u) = None"

fun perm_step ::
  "perm_api \<Rightarrow> (string \<Rightarrow> bool) \<Rightarrow> string list \<Rightarrow> (role_row \<Rightarrow> role_db \<Rightarrow> bool) \<Rightarrow> perm_ask \<times> millis \<Rightarrow> perm_db \<Rightarrow> perm_db" where
  "perm_step a agents groups ins (AskGrant csrf u b, now) d = snd (r_permissions_grant_post a agents csrf u b now d)"
| "perm_step a agents groups ins (AskRevoke csrf u b, now) d = snd (r_permissions_revoke_post a agents csrf u b d)"
| "perm_step a agents groups ins (AskDelete csrf u t, now) d = snd (r_user_id_delete a groups csrf u t d)"
| "perm_step a agents groups ins (LogsIn u, now) d = d\<lparr>pd_roles := ensure_owner_role_on_first_login ins u now (pd_roles d)\<rparr>"

definition run_perms ::
  "perm_api \<Rightarrow> (string \<Rightarrow> bool) \<Rightarrow> string list \<Rightarrow> (role_row \<Rightarrow> role_db \<Rightarrow> bool) \<Rightarrow> (perm_ask \<times> millis) list \<Rightarrow> perm_db \<Rightarrow> perm_db" where
  "run_perms a agents groups ins = fold (perm_step a agents groups ins)"

section \<open>What the host's tables promise, one law at a time\<close>

lemma perm_api_grant: "perm_api_ok a \<Longrightarrow> pm_grant_role a r d = Some d' \<Longrightarrow> granted_role r d d'"
  by (simp add: perm_api_ok_def)

lemma perm_api_revoke:
  assumes "perm_api_ok a"
  shows "set (role_rows (pm_revoke_role a u k g d))
      = {r \<in> set (role_rows d). \<not> (rr_user r = u \<and> rr_role r = k \<and> rr_group r = g)}"
    and "(user_roles (pd_roles (pm_revoke_role a u k g d)) = None) = (user_roles (pd_roles d) = None)"
    and "same_members d (pm_revoke_role a u k g d)"
  using assms by (simp_all add: perm_api_ok_def)

lemma perm_api_owners:
  "perm_api_ok a \<Longrightarrow> set (pm_owners a d) = {r \<in> set (role_rows d). rr_role r = ''owner'' \<and> rr_group r = None}"
  by (simp add: perm_api_ok_def)

lemma perm_api_add: "perm_api_ok a \<Longrightarrow> pm_add_member a m d = Some d' \<Longrightarrow> added_member m d d'"
  by (simp add: perm_api_ok_def)

lemma perm_api_remove:
  assumes "perm_api_ok a"
  shows "set (pd_members (pm_remove_member a u g d)) = {m \<in> set (pd_members d). \<not> (mb_user m = u \<and> mb_group m = g)}"
    and "same_roles d (pm_remove_member a u g d)"
  using assms by (simp_all add: perm_api_ok_def)

lemma perm_api_lists:
  assumes "perm_api_ok a"
  shows "set (pm_user_roles a u d) = {r \<in> set (role_rows d). rr_user r = u}"
    and "set (pm_members a g d) = {m \<in> set (pd_members d). mb_group m = g}"
  using assms by (simp_all add: perm_api_ok_def)

lemma perm_api_users:
  assumes "perm_api_ok a"
  shows "same_roles d (pm_upsert_user a x d)" "same_members d (pm_upsert_user a x d)"
    "same_roles d (pm_delete_user a u d)" "same_members d (pm_delete_user a u d)"
  using assms by (simp_all add: perm_api_ok_def)

lemmas perm_laws = perm_api_grant perm_api_revoke perm_api_owners perm_api_add perm_api_remove perm_api_users

lemma ensure_known_same:
  "perm_api_ok a \<Longrightarrow> same_roles d (ensure_known a u now d) \<and> same_members d (ensure_known a u now d)"
  by (simp add: ensure_known_def perm_api_users) (simp add: same_roles_def same_members_def)

lemma is_owner_rows:
  "is_owner u (pd_roles d) = (user_roles (pd_roles d) = None
     \<or> (\<exists>r \<in> set (role_rows d). rr_user r = u \<and> rr_role r = ''owner'' \<and> rr_group r = None))"
  by (cases "user_roles (pd_roles d)") (auto simp: is_owner_def role_query_def role_rows_def list_ex_iff)

lemma same_roles_rows: "same_roles d d' \<Longrightarrow> role_rows d' = role_rows d"
  by (simp add: same_roles_def role_rows_def)

lemma same_roles_owner: "same_roles d d' \<Longrightarrow> is_owner u (pd_roles d') = is_owner u (pd_roles d)"
  by (simp add: is_owner_def role_query_def same_roles_def)

lemma same_roles_admin: "same_roles d d' \<Longrightarrow> has_admin_privilege u g (pd_roles d') = has_admin_privilege u g (pd_roles d)"
  by (simp add: has_admin_privilege_def role_query_def same_roles_def)

lemma same_roles_trans: "same_roles d e \<Longrightarrow> same_roles e f \<Longrightarrow> same_roles d f"
  by (simp add: same_roles_def)

section \<open>Every way a request can end\<close>

lemma with_body_cases:
  "with_grant_body csrf u b d f = (rep, d') \<Longrightarrow> d' = d \<or> (\<exists>v. f v = (rep, d') \<and> (is_owner u (pd_roles d)
     \<or> (jfield ''kind'' v = Some (VStr ''member'')
        \<and> (\<exists>g. group_of (jfield ''agentGroupId'' v) = Some g \<and> has_admin_privilege u g (pd_roles d)))))"
  by (auto simp: with_grant_body_def check_member_grant_auth_def truthy_def split: option.splits if_splits)

lemma validated:
  assumes "validate_grant_body agents v = Inr (t, k, g)"
  shows "grant_kind_of (jfield ''kind'' v) = Some k" "g = group_of (jfield ''agentGroupId'' v)"
    "k = AsOwner \<Longrightarrow> g = None" "k = AsMember \<Longrightarrow> g \<noteq> None"
  using assms unfolding validate_grant_body_def Let_def by (auto split: option.splits if_splits)

lemma member_kind [simp]: "grant_kind_of (Some (VStr ''member'')) = Some AsMember"
  by (simp add: grant_kind_of_def)

text \<open>What a grant did: nothing, one membership in a group its author administers, or one role, by an owner.\<close>

lemma grant_cases:
  assumes ok: "perm_api_ok a" and s: "r_permissions_grant_post a agents csrf u b now d = (rep, d')"
  shows "(same_roles d d' \<and> same_members d d')
    \<or> (\<exists>m. added_member m d d' \<and> (is_owner u (pd_roles d) \<or> has_admin_privilege u (mb_group m) (pd_roles d)))
    \<or> (is_owner u (pd_roles d) \<and> (\<exists>r. granted_role r d d'))"
proof (cases "d' = d")
  case True
  then show ?thesis by (simp add: same_roles_def same_members_def)
next
  case False
  with s with_body_cases[of csrf u b d] obtain v where f: "grant_permission a agents v u now d = (rep, d')"
    and who: "is_owner u (pd_roles d) \<or> (jfield ''kind'' v = Some (VStr ''member'')
        \<and> (\<exists>g. group_of (jfield ''agentGroupId'' v) = Some g \<and> has_admin_privilege u g (pd_roles d)))"
    unfolding r_permissions_grant_post_def by blast
  with False obtain t k g where v: "validate_grant_body agents v = Inr (t, k, g)"
    by (cases "validate_grant_body agents v") (auto simp: grant_permission_def)
  note vd = validated[OF v]
  let ?d1 = "ensure_known a t now d"
  have base: "same_roles d ?d1" "same_members d ?d1" using ensure_known_same[OF ok] by auto
  show ?thesis
  proof (cases "k = AsMember")
    case True
    let ?m = "\<lparr>mb_user = t, mb_group = the g, mb_by = Some u, mb_at = now\<rparr>"
    have "(d' = ?d1) \<or> pm_add_member a ?m ?d1 = Some d'"
      using f v True by (auto simp: grant_permission_def Let_def split: option.splits)
    moreover have "added_member ?m d d'" if "pm_add_member a ?m ?d1 = Some d'"
      using perm_api_add[OF ok that] base by (auto simp: added_member_def same_members_def same_roles_def)
    moreover have "is_owner u (pd_roles d) \<or> has_admin_privilege u (mb_group ?m) (pd_roles d)"
      using who vd by auto
    ultimately show ?thesis using base by blast
  next
    case other: False
    then have o: "is_owner u (pd_roles d)" using who vd(1) by auto
    let ?r = "\<lparr>rr_user = t, rr_role = role_name k, rr_group = g, rr_granted_by = Some u, rr_at = now\<rparr>"
    have "(d' = ?d1) \<or> pm_grant_role a ?r ?d1 = Some d'"
      using f v other by (auto simp: grant_permission_def Let_def split: option.splits)
    moreover have "granted_role ?r d d'" if "pm_grant_role a ?r ?d1 = Some d'"
      using perm_api_grant[OF ok that] base same_roles_rows[OF base(1)]
      by (auto simp: granted_role_def same_members_def same_roles_def)
    ultimately show ?thesis using base o by blast
  qed
qed

text \<open>What a revocation did: nothing, the membership named, or the role named, by an owner and never the last owner's.\<close>

lemma revoke_cases:
  assumes ok: "perm_api_ok a" and s: "r_permissions_revoke_post a agents csrf u b d = (rep, d')"
  shows "d' = d
    \<or> (\<exists>t g. d' = pm_remove_member a t g d \<and> (is_owner u (pd_roles d) \<or> has_admin_privilege u g (pd_roles d)))
    \<or> (is_owner u (pd_roles d) \<and> (\<exists>t k g. d' = pm_revoke_role a t (role_name k) g d \<and> k \<noteq> AsMember
        \<and> (k = AsOwner \<longrightarrow> g = None \<and> (\<exists>r \<in> set (pm_owners a d). rr_user r \<noteq> t))))"
proof (cases "d' = d")
  case False
  with s with_body_cases[of csrf u b d] obtain v where f: "revoke_permission a agents v d = (rep, d')"
    and who: "is_owner u (pd_roles d) \<or> (jfield ''kind'' v = Some (VStr ''member'')
        \<and> (\<exists>g. group_of (jfield ''agentGroupId'' v) = Some g \<and> has_admin_privilege u g (pd_roles d)))"
    unfolding r_permissions_revoke_post_def by blast
  with False obtain t k g where v: "validate_grant_body agents v = Inr (t, k, g)"
    by (cases "validate_grant_body agents v") (auto simp: revoke_permission_def)
  note vd = validated[OF v]
  have d': "d' = (if k = AsMember then pm_remove_member a t (the g) d else pm_revoke_role a t (role_name k) g d)"
    and o: "k = AsOwner \<Longrightarrow> \<exists>r \<in> set (pm_owners a d). rr_user r \<noteq> t"
    using f v False by (auto simp: revoke_permission_def filter_empty_conv split: if_splits)
  show ?thesis
  proof (cases "k = AsMember")
    case True
    with who vd have "is_owner u (pd_roles d) \<or> has_admin_privilege u (the g) (pd_roles d)" by auto
    with d' True show ?thesis by auto
  next
    case other: False
    then have "is_owner u (pd_roles d)" using who vd(1) by auto
    moreover have "d' = pm_revoke_role a t (role_name k) g d" using d' other by simp
    ultimately show ?thesis using o vd(3) other by blast
  qed
qed simp

lemma delete_cases:
  assumes ok: "perm_api_ok a" and s: "r_user_id_delete a groups csrf u t d = (rep, d')"
  shows "same_roles d d' \<and> same_members d d'"
  using s perm_api_users(3,4)[OF ok, of "d\<lparr>pd_dms := filter (\<lambda>u. u \<noteq> t) (pd_dms d)\<rparr>" t]
  by (auto simp: r_user_id_delete_def delete_user_handler_def same_roles_def same_members_def
      split: option.splits if_splits)

section \<open>Somebody always owns the install\<close>

definition owned :: "perm_db \<Rightarrow> bool" where
  "owned d = (user_roles (pd_roles d) = None
     \<or> (\<exists>r \<in> set (role_rows d). rr_role r = ''owner'' \<and> rr_group r = None))"

lemma owned_iff: "owned d = (\<exists>u. is_owner u (pd_roles d))"
  by (auto simp: owned_def is_owner_rows)

lemma owned_more:
  "owned d \<Longrightarrow> set (role_rows d) \<subseteq> set (role_rows d') \<Longrightarrow> (user_roles (pd_roles d') = None) = (user_roles (pd_roles d) = None)
    \<Longrightarrow> owned d'"
  by (auto simp: owned_def)

lemma owned_same: "owned d \<Longrightarrow> same_roles d d' \<Longrightarrow> owned d'"
  by (simp add: owned_def same_roles_def role_rows_def)

lemma login_rows:
  "set (role_rows d) \<subseteq> set (role_rows (d\<lparr>pd_roles := ensure_owner_role_on_first_login ins u now (pd_roles d)\<rparr>))"
  "(user_roles (pd_roles (d\<lparr>pd_roles := ensure_owner_role_on_first_login ins u now (pd_roles d)\<rparr>)) = None)
    = (user_roles (pd_roles d) = None)"
  by (auto simp: role_rows_def ensure_owner_role_on_first_login_def Let_def split: option.splits)

lemma owned_step:
  assumes ok: "perm_api_ok a" and o: "owned d"
  shows "owned (perm_step a agents groups ins x d)"
proof -
  obtain ask now where x: "x = (ask, now)" by fastforce
  show ?thesis
  proof (cases ask)
    case (AskGrant csrf u b)
    obtain rep d' where s: "r_permissions_grant_post a agents csrf u b now d = (rep, d')" by fastforce
    from grant_cases[OF ok s] have "same_roles d d' \<or> (\<exists>r. granted_role r d d')"
      by (auto simp: added_member_def)
    then have "owned d'" using o by (metis owned_same owned_more granted_role_def)
    with s x AskGrant show ?thesis by simp
  next
    case (AskRevoke csrf u b)
    obtain rep d' where s: "r_permissions_revoke_post a agents csrf u b d = (rep, d')" by fastforce
    have "owned d'" using revoke_cases[OF ok s]
    proof (elim disjE exE conjE)
      fix t k g
      assume d': "d' = pm_revoke_role a t (role_name k) g d"
        and guard: "k \<noteq> AsMember" "k = AsOwner \<longrightarrow> g = None \<and> (\<exists>r \<in> set (pm_owners a d). rr_user r \<noteq> t)"
      show "owned d'"
      proof (cases k)
        case AsOwner
        with guard obtain r where "r \<in> set (pm_owners a d)" "rr_user r \<noteq> t" by auto
        then show ?thesis using d' perm_api_revoke(1)[OF ok] perm_api_owners[OF ok] by (auto simp: owned_def)
      next
        case AsAdmin
        then show ?thesis using d' o perm_api_revoke(1,2)[OF ok] by (auto simp: owned_def role_name_def)
      qed (use guard in simp)
    qed (use o owned_same[OF o perm_api_remove(2)[OF ok]] in simp_all)
    with s x AskRevoke show ?thesis by simp
  next
    case (AskDelete csrf u t)
    obtain rep d' where s: "r_user_id_delete a groups csrf u t d = (rep, d')" by fastforce
    from delete_cases[OF ok s] s x AskDelete o owned_same show ?thesis by auto
  next
    case (LogsIn u)
    with x show ?thesis using owned_more[OF o login_rows] by simp
  qed
qed

text \<open>
  C6: Whatever grants, revocations, deletions and logins follow one another, an install that has an owner always
  has one.
\<close>

theorem an_owner_always_remains:
  assumes ok: "perm_api_ok a" and o: "is_owner u (pd_roles d)"
  shows "\<exists>v. is_owner v (pd_roles (run_perms a agents groups ins asks d))"
proof -
  from o have "owned d" by (auto simp: owned_iff)
  then have "owned (run_perms a agents groups ins asks d)"
    unfolding run_perms_def by (induction asks arbitrary: d) (auto simp: owned_step[OF ok])
  then show ?thesis by (simp add: owned_iff)
qed

section \<open>Nobody gives themselves a role\<close>

text \<open>The memberships that differ between two states are all in groups \<open>u\<close> administers.\<close>

definition members_within :: "(string \<Rightarrow> bool) \<Rightarrow> perm_db \<Rightarrow> perm_db \<Rightarrow> bool" where
  "members_within p d d' = (\<forall>m. (m \<in> set (pd_members d')) \<noteq> (m \<in> set (pd_members d)) \<longrightarrow> p (mb_group m))"

lemma members_within_same: "same_members d d' \<Longrightarrow> members_within p d d'"
  by (simp add: members_within_def same_members_def)

lemma members_within_trans: "members_within p d e \<Longrightarrow> members_within p e f \<Longrightarrow> members_within p d f"
  unfolding members_within_def by metis

lemma members_within_mono: "members_within p d e \<Longrightarrow> (\<And>g. p g \<Longrightarrow> q g) \<Longrightarrow> members_within q d e"
  by (auto simp: members_within_def)

lemma members_within_added: "added_member m d d' \<Longrightarrow> p (mb_group m) \<Longrightarrow> members_within p d d'"
  by (auto simp: added_member_def members_within_def)

lemma members_within_removed:
  "perm_api_ok a \<Longrightarrow> p g \<Longrightarrow> members_within p d (pm_remove_member a t g d)"
  by (auto simp: members_within_def perm_api_remove)

lemma outsider_step:
  assumes ok: "perm_api_ok a" and n: "owner_ids (pd_roles d) \<noteq> []"
    and u: "\<And>u. asker ask = Some u \<Longrightarrow> \<not> is_owner u (pd_roles d)"
  shows "same_roles d (perm_step a agents groups ins (ask, now) d)
    \<and> members_within (\<lambda>g. \<exists>u. asker ask = Some u \<and> has_admin_privilege u g (pd_roles d)) d
        (perm_step a agents groups ins (ask, now) d)"
proof (cases ask)
  case (AskGrant csrf w b)
  obtain rep d' where s: "r_permissions_grant_post a agents csrf w b now d = (rep, d')" by fastforce
  let ?p = "\<lambda>g. \<exists>u. asker ask = Some u \<and> has_admin_privilege u g (pd_roles d)"
  have "same_roles d d' \<and> members_within ?p d d'" using grant_cases[OF ok s]
  proof (elim disjE exE conjE)
    fix m
    assume "added_member m d d'" "has_admin_privilege w (mb_group m) (pd_roles d)"
    then show ?thesis using AskGrant by (auto simp: added_member_def intro: members_within_added)
  qed (use u[of w] AskGrant members_within_same in auto)
  with AskGrant s show ?thesis by simp
next
  case (AskRevoke csrf w b)
  obtain rep d' where s: "r_permissions_revoke_post a agents csrf w b d = (rep, d')" by fastforce
  let ?p = "\<lambda>g. \<exists>u. asker ask = Some u \<and> has_admin_privilege u g (pd_roles d)"
  have "same_roles d d' \<and> members_within ?p d d'" using revoke_cases[OF ok s]
  proof (elim disjE exE conjE)
    fix t g
    assume "d' = pm_remove_member a t g d" "has_admin_privilege w g (pd_roles d)"
    then show ?thesis using AskRevoke perm_api_remove(2)[OF ok] by (auto intro: members_within_removed[OF ok])
  qed (use u[of w] AskRevoke in \<open>auto simp: same_roles_def members_within_def\<close>)
  with AskRevoke s show ?thesis by simp
next
  case (AskDelete csrf w t)
  obtain rep d' where s: "r_user_id_delete a groups csrf w t d = (rep, d')" by fastforce
  from delete_cases[OF ok s] AskDelete s show ?thesis by (auto simp: members_within_same)
next
  case (LogsIn w)
  then show ?thesis
    using later_login_same_roles[OF n, of ins w now] by (simp add: same_roles_def members_within_def)
qed

text \<open>
  C5: However people who are not owners combine grants, revocations, deletions and logins, no role changes, and the
  only memberships that change are in groups one of them administers.
\<close>

theorem non_owners_never_change_roles:
  assumes ok: "perm_api_ok a" and n: "owner_ids (pd_roles d) \<noteq> []"
    and u: "\<And>ask u. ask \<in> fst ` set asks \<Longrightarrow> asker ask = Some u \<Longrightarrow> \<not> is_owner u (pd_roles d)"
  shows "user_roles (pd_roles (run_perms a agents groups ins asks d)) = user_roles (pd_roles d)
    \<and> members_within (\<lambda>g. \<exists>ask u. ask \<in> fst ` set asks \<and> asker ask = Some u \<and> has_admin_privilege u g (pd_roles d)) d
        (run_perms a agents groups ins asks d)"
proof -
  let ?p = "\<lambda>g. \<exists>ask u. ask \<in> fst ` set asks \<and> asker ask = Some u \<and> has_admin_privilege u g (pd_roles d)"
  have "same_roles d (fold (perm_step a agents groups ins) qs e) \<and> members_within ?p d (fold (perm_step a agents groups ins) qs e)"
    if "set qs \<subseteq> set asks" "same_roles d e" "members_within ?p d e" for qs e
    using that
  proof (induction qs arbitrary: e)
    case (Cons q qs)
    obtain ask now where q: "q = (ask, now)" by fastforce
    have e: "owner_ids (pd_roles e) \<noteq> []"
      using n Cons.prems(2) owner_ids_cong[of "pd_roles e" "pd_roles d"] by (simp add: same_roles_def)
    have mem: "ask \<in> fst ` set asks" using Cons.prems(1) q by force
    have "\<not> is_owner v (pd_roles e)" if "asker ask = Some v" for v
      using u[OF mem that] same_roles_owner[OF Cons.prems(2)] by simp
    from outsider_step[OF ok e this, where agents = agents and groups = groups and ins = ins and now = now]
    have st: "same_roles e (perm_step a agents groups ins q e)"
      "members_within (\<lambda>g. \<exists>u. asker ask = Some u \<and> has_admin_privilege u g (pd_roles e)) e (perm_step a agents groups ins q e)"
      using q by auto
    have "members_within ?p e (perm_step a agents groups ins q e)"
      by (rule members_within_mono[OF st(2)]) (use mem same_roles_admin[OF Cons.prems(2)] in auto)
    then show ?case using Cons.IH[of "perm_step a agents groups ins q e"] Cons.prems
        same_roles_trans[OF Cons.prems(2) st(1)] members_within_trans[OF Cons.prems(3)] by simp
  qed simp
  from this[of asks d] show ?thesis
    by (simp add: run_perms_def same_roles_def members_within_same same_members_def)
qed

section \<open>What the directory shows\<close>

lemma found_member:
  "perm_api_ok a \<Longrightarrow> find p (pm_members a g d) = Some m \<Longrightarrow> m \<in> set (pd_members d) \<and> mb_group m = g \<and> p m"
  using perm_api_lists(2)[of a g d] by (auto dest: find_SomeD)

text \<open>
  An owner or global admin sees every role and membership. Anyone else sees the roles and memberships of the
  groups they administer, and no role that spans groups.
\<close>

lemma directory_is_scoped:
  assumes ok: "perm_api_ok a" and e: "e \<in> set (list_users_with_permissions a groups caller d)"
  shows "(is_owner caller (pd_roles d) \<or> is_global_admin caller (pd_roles d)
       \<longrightarrow> set (up_roles e) = {r \<in> set (role_rows d). rr_user r = u_id (up_user e)})
    \<and> (\<not> is_owner caller (pd_roles d) \<and> \<not> is_global_admin caller (pd_roles d)
       \<longrightarrow> (\<forall>r \<in> set (up_roles e). \<exists>g. rr_group r = Some g \<and> has_admin_privilege caller g (pd_roles d))
         \<and> (\<forall>m \<in> set (up_memberships e). has_admin_privilege caller (mb_group m) (pd_roles d)))
    \<and> (\<forall>m \<in> set (up_memberships e). m \<in> set (pd_members d) \<and> mb_user m = u_id (up_user e))"
  using e unfolding list_users_with_permissions_def Let_def filter_async_eq
  by (auto simp: perm_api_lists[OF ok] in_map_filter split: option.splits if_splits dest!: found_member[OF ok])

section \<open>Two revocations at once\<close>

text \<open>
  The route reads the owners and then revokes, with other requests served in between. Each of two owners may so
  revoke the other: both checks pass, and nobody owns the install, which the next person to sign in then does.
\<close>

definition two_owners :: perm_db where
  "two_owners = \<lparr>pd_roles = \<lparr>user_roles = Some
      [\<lparr>rr_user = ''webchat:ann'', rr_role = ''owner'', rr_group = None, rr_granted_by = None, rr_at = 1\<rparr>,
       \<lparr>rr_user = ''webchat:bob'', rr_role = ''owner'', rr_group = None, rr_granted_by = None, rr_at = 2\<rparr>],
     users = Some [], audit_log = []\<rparr>, pd_members = [], pd_dms = []\<rparr>"

lemma concurrent_revokes_leave_no_owner:
  "filter (\<lambda>r. rr_user r \<noteq> ''webchat:bob'') (pm_owners host_perm_api two_owners) \<noteq> []
   \<and> filter (\<lambda>r. rr_user r \<noteq> ''webchat:ann'') (pm_owners host_perm_api two_owners) \<noteq> []
   \<and> (let d = pm_revoke_role host_perm_api ''webchat:ann'' ''owner'' None
                (pm_revoke_role host_perm_api ''webchat:bob'' ''owner'' None two_owners)
      in \<not> (\<exists>u. is_owner u (pd_roles d))
       \<and> is_owner ''webchat:eve'' (ensure_owner_role_on_first_login (\<lambda>_ _. True) ''webchat:eve'' 3 (pd_roles d)))"
  by (simp add: two_owners_def host_perm_api_def role_rows_def on_roles_def tbl_delete_def is_owner_def role_query_def
      ensure_owner_role_on_first_login_def ensure_user_row_def Let_def)

section \<open>Concrete runs\<close>

definition ask_json :: "string \<Rightarrow> string \<Rightarrow> jval \<Rightarrow> jval option" where
  "ask_json u k g = Some (VObj [(''userId'', VStr u), (''kind'', VStr k), (''agentGroupId'', g)])"

definition group_admin :: perm_db where
  "group_admin = \<lparr>pd_roles = \<lparr>user_roles = Some
      [\<lparr>rr_user = ''webchat:ann'', rr_role = ''owner'', rr_group = None, rr_granted_by = None, rr_at = 1\<rparr>,
       \<lparr>rr_user = ''webchat:bob'', rr_role = ''admin'', rr_group = Some ''g1'', rr_granted_by = None, rr_at = 2\<rparr>],
     users = Some [], audit_log = []\<rparr>, pd_members = [], pd_dms = []\<rparr>"

theorem an_owner_always_remains_witness:
  "\<exists>v. is_owner v (pd_roles (run_perms host_perm_api (\<lambda>g. g = ''g1'') [''g1''] (\<lambda>_ _. True)
     [(AskRevoke True ''webchat:ann'' (ask_json ''webchat:bob'' ''owner'' VNull), 5),
      (AskRevoke True ''webchat:ann'' (ask_json ''webchat:ann'' ''owner'' VNull), 6)] two_owners))"
  by (rule an_owner_always_remains[where u = "''webchat:ann''"])
     (simp_all add: two_owners_def is_owner_def role_query_def)

theorem non_owners_never_change_roles_witness:
  "user_roles (pd_roles (run_perms host_perm_api (\<lambda>g. g = ''g1'') [''g1''] (\<lambda>_ _. True)
     [(AskGrant True ''webchat:bob'' (ask_json ''webchat:bob'' ''owner'' VNull), 5),
      (AskGrant True ''webchat:bob'' (ask_json ''webchat:eve'' ''member'' (VStr ''g1'')), 6),
      (LogsIn ''webchat:eve'', 7)] group_admin))
   = user_roles (pd_roles group_admin)"
  by (rule conjunct1, rule non_owners_never_change_roles)
     (auto simp: group_admin_def owner_ids_def is_owner_def role_query_def)

end
