(* ===== verification/RequestGuard.thy ===== *)
theory RequestGuard
  imports SignInAdmin
begin

text \<open>
  Which requests reach the server at all (\<open>channels/webchat/request-guard.ts\<close>), the upgrade of a socket and the
  budgets that hold before anyone is authenticated (\<open>ws.ts\<close>), and the pace of credential actions
  (\<open>server/rate-limit.ts\<close>). The machine's name, the URL reader and the Tailscale command are parameters.
\<close>

section \<open>Host and origin\<close>

definition TAILNET_REFRESH_MS :: int where "TAILNET_REFRESH_MS = 600000"

type_synonym tailnet_cache = "(string list \<times> millis) option"

definition tailnet_names :: "(string \<Rightarrow> url option) \<Rightarrow> runner \<Rightarrow> string list" where
  "tailnet_names parse_url runner = (case tv_url (get_tailscale_serve_state runner) of
     None \<Rightarrow> []
   | Some u \<Rightarrow> (if u = [] then [] else case parse_url u of None \<Rightarrow> []
       | Some r \<Rightarrow> (let h = map lower (ur_hostname r) in if h = [] then [] else [h, hd (split_on (CHR ''.'') h)])))"

definition fresh_tailnet ::
  "(string \<Rightarrow> url option) \<Rightarrow> runner \<Rightarrow> millis \<Rightarrow> tailnet_cache \<Rightarrow> string list \<times> tailnet_cache" where
  "fresh_tailnet parse_url runner now c = (case c of
     Some (names, t) \<Rightarrow> (if now - t > TAILNET_REFRESH_MS
        then (tailnet_names parse_url runner, Some (tailnet_names parse_url runner, now)) else (names, c))
   | None \<Rightarrow> (tailnet_names parse_url runner, Some (tailnet_names parse_url runner, now)))"

definition listed :: "string option \<Rightarrow> string list" where
  "listed v = filter (\<lambda>h. h \<noteq> []) (map (\<lambda>h. map lower (js_trim h)) (split_on (CHR '','') (coalesce v [])))"

definition hostname_of :: "(string \<Rightarrow> url option) \<Rightarrow> string \<Rightarrow> string" where
  "hostname_of parse_url h = (case parse_url (''http://'' @ h) of
     None \<Rightarrow> [] | Some u \<Rightarrow> drop_outer_brackets (map lower (ur_hostname u)))"

text \<open>The names of this install that do not change while it runs.\<close>

definition fixed_names :: "(string \<Rightarrow> url option) \<Rightarrow> string \<Rightarrow> env \<Rightarrow> string list" where
  "fixed_names parse_url machine env =
     [''localhost'', map lower machine, map lower machine @ ''.local''] @ listed (env ''WEBCHAT_ALLOWED_HOSTS'')
     @ (let pub = env_var ''WEBCHAT_PUBLIC_URL'' env in
        if pub = [] then [] else case parse_url pub of None \<Rightarrow> [] | Some u \<Rightarrow> [map lower (ur_hostname u)])"

definition host_allowed ::
  "(string \<Rightarrow> url option) \<Rightarrow> runner \<Rightarrow> string \<Rightarrow> env \<Rightarrow> request \<Rightarrow> millis \<Rightarrow> tailnet_cache \<Rightarrow> bool \<times> tailnet_cache" where
  "host_allowed parse_url runner machine env req now c =
     (if ''*'' \<in> set (listed (env ''WEBCHAT_ALLOWED_HOSTS'')) \<or> via_trusted_proxy env req then (True, c)
      else (let h = hostname_of parse_url (header_text ''host'' req) in
        if h = [] then (False, c)
        else if family_of h \<noteq> None then (True, c)
        else if h \<in> set (fixed_names parse_url machine env) \<or> ends_with h ''.localhost'' then (True, c)
        else (case fresh_tailnet parse_url runner now c of (names, c') \<Rightarrow> (h \<in> set names, c'))))"

definition origin_allowed :: "(string \<Rightarrow> url option) \<Rightarrow> request \<Rightarrow> bool" where
  "origin_allowed parse_url req = (if \<not> header_set ''origin'' req then True
     else case parse_url (header_text ''origin'' req) of None \<Rightarrow> False
     | Some u \<Rightarrow>
        (let o1 = map lower (ur_host u);
             fwd = map lower (js_trim (hd (split_on (CHR '','') (header_text ''x-forwarded-host'' req))))
         in o1 = map lower (header_text ''host'' req) \<or> (fwd \<noteq> [] \<and> o1 = fwd)))"

section \<open>Lines written before a caller is known\<close>

definition PREAUTH_LOGS_PER_MINUTE :: nat where "PREAUTH_LOGS_PER_MINUTE = 30"

datatype log_line = Line string millis | Suppressed nat

record log_budget =
  lb_start :: millis
  lb_logged :: nat
  lb_suppressed :: nat
  lb_flush_at :: "millis option"
  lb_lines :: "log_line list"

definition flush_suppressed :: "log_budget \<Rightarrow> log_budget" where
  "flush_suppressed b = b\<lparr>lb_flush_at := None, lb_suppressed := 0,
     lb_lines := lb_lines b @ (if lb_suppressed b > 0 then [Suppressed (lb_suppressed b)] else [])\<rparr>"

definition log_pre_auth :: "string \<Rightarrow> millis \<Rightarrow> log_budget \<Rightarrow> log_budget" where
  "log_pre_auth msg now b0 =
     (let b = (if now - lb_start b0 \<ge> 60000 then (flush_suppressed b0)\<lparr>lb_start := now, lb_logged := 0\<rparr> else b0)
      in if lb_logged b < PREAUTH_LOGS_PER_MINUTE
         then b\<lparr>lb_logged := lb_logged b + 1, lb_lines := lb_lines b @ [Line msg now]\<rparr>
         else b\<lparr>lb_suppressed := lb_suppressed b + 1,
                lb_flush_at := (case lb_flush_at b of Some t \<Rightarrow> Some t
                  | None \<Rightarrow> Some (now + max 0 (lb_start b + 60000 - now)))\<rparr>)"

definition clip_header :: "string \<Rightarrow> string" where
  "clip_header v = take 100 (filter (\<lambda>c. \<not> (code c \<le> 31 \<or> (127 \<le> code c \<and> code c \<le> 159))) v)"

definition REFUSALS_NOTED_MAX :: nat where "REFUSALS_NOTED_MAX = 256"

type_synonym refusals = "((string \<times> string) \<times> millis) list" \<comment> \<open>oldest first\<close>

definition note_refused_upgrade ::
  "string \<Rightarrow> string \<Rightarrow> millis \<Rightarrow> refusals \<times> log_budget \<Rightarrow> refusals \<times> log_budget" where
  "note_refused_upgrade check path now st = (case st of (noted, b) \<Rightarrow>
     (let k = (check, path) in
      if coalesce (map_of noted k) 0 > now - 60000 then (noted, b)
      else (let noted' = filter (\<lambda>(x, _). x \<noteq> k) noted @ [(k, now)] in
        (if length noted' > REFUSALS_NOTED_MAX then tl noted' else noted',
         log_pre_auth (check @ '' '' @ clip_header path) now b))))"

section \<open>The upgrade of a socket\<close>

datatype upgrade_result = Refused403 | HandedTo string | Destroyed | Refused401 | UpgradeFailed | Connected string string

record guard_state =
  gs_tailnet :: tailnet_cache
  gs_noted :: refusals
  gs_log :: log_budget

text \<open>\<open>others\<close> are the paths of the registered upgrade handlers; \<open>machine\<close> names this host.\<close>

definition upgrade ::
  "'k auth_host \<Rightarrow> string \<Rightarrow> string list \<Rightarrow> request \<Rightarrow> string \<Rightarrow> millis \<Rightarrow> guard_state \<times> 'k auth_state
     \<Rightarrow> upgrade_result \<times> guard_state \<times> 'k auth_state" where
  "upgrade h machine others req path now st = (case st of (gs, au) \<Rightarrow>
     (let origin_ok = origin_allowed (ho_url h) req;
          (host_ok, tn) = (if origin_ok
             then host_allowed (ho_url h) (ho_runner h) machine (ho_env h) req now (gs_tailnet gs) else (False, gs_tailnet gs));
          gs1 = gs\<lparr>gs_tailnet := tn\<rparr>
      in if \<not> host_ok
         then (case note_refused_upgrade (if origin_ok then ''host'' else ''origin'') path now (gs_noted gs1, gs_log gs1) of
            (n, b) \<Rightarrow> (Refused403, gs1\<lparr>gs_noted := n, gs_log := b\<rparr>, au))
         else if path \<noteq> ''/ws'' then (if path \<in> set others then HandedTo path else Destroyed, gs1, au)
         else (case authenticate_request h req now au of
            (SignedIn r, t, au') \<Rightarrow> (Connected (ar_user r) (ar_name r), gs1, au')
          | (Unauthorized, t, au') \<Rightarrow> (Refused401, gs1, au')
          | (AuthRaised, t, au') \<Rightarrow> (UpgradeFailed, gs1, au'))))"

section \<open>The pace of credential actions\<close>

definition USER_CREDS_MIN_INTERVAL_MS :: int where "USER_CREDS_MIN_INTERVAL_MS = 3000"

definition user_creds_rate_limited ::
  "string \<Rightarrow> string \<Rightarrow> millis \<Rightarrow> (string \<times> millis) list \<Rightarrow> bool \<times> (string \<times> millis) list" where
  "user_creds_rate_limited u action now m =
     (let k = u @ '':'' @ action in
      if now - coalesce (map_of m k) 0 < USER_CREDS_MIN_INTERVAL_MS then (True, m) else (False, map_put k now m))"

section \<open>What the guards refuse\<close>

text \<open>A page of another site opens no socket, whoever its visitor is, and nothing about the visitor changes.\<close>

lemma cross_site_upgrade_refused:
  assumes "header_set ''origin'' req" "ho_url h (header_text ''origin'' req) = Some u"
    and "map lower (ur_host u) \<noteq> map lower (header_text ''host'' req)" "rq_headers req ''x-forwarded-host'' = None"
  shows "\<exists>gs'. upgrade h machine others req path now (gs, au) = (Refused403, gs', au)"
proof -
  have "js_trim [] = []" by (simp add: js_trim_def trim_def)
  then have "\<not> origin_allowed (ho_url h) req" using assms by (simp add: origin_allowed_def header_text_def)
  then show ?thesis by (simp add: upgrade_def Let_def split: prod.split)
qed

definition names_within :: "string set \<Rightarrow> tailnet_cache \<Rightarrow> bool" where
  "names_within N c = (case c of None \<Rightarrow> True | Some (names, t) \<Rightarrow> set names \<subseteq> N)"

text \<open>
  A name that is neither an address, nor one of the install's fixed names, nor one the tailnet tool has given for
  this machine is refused at any time, unless the operator trusts any host or the proxy the request came through.
\<close>

lemma rebound_name_refused:
  assumes "''*'' \<notin> set (listed (env ''WEBCHAT_ALLOWED_HOSTS''))" "\<not> via_trusted_proxy env req"
    and "hostname_of parse_url (header_text ''host'' req) = h" "family_of h = None"
    and "h \<notin> set (fixed_names parse_url machine env)" "\<not> ends_with h ''.localhost''" "h \<notin> N"
    and "names_within N c" "set (tailnet_names parse_url runner) \<subseteq> N"
  shows "\<not> fst (host_allowed parse_url runner machine env req now c)
    \<and> names_within N (snd (host_allowed parse_url runner machine env req now c))"
  using assms unfolding host_allowed_def Let_def fresh_tailnet_def names_within_def
  by (auto split: option.splits prod.splits if_splits)

section \<open>Budgets\<close>

fun written :: "log_line \<Rightarrow> nat" where
  "written (Line m t) = 1"
| "written (Suppressed n) = 0"

fun accounted :: "log_line \<Rightarrow> nat" where
  "accounted (Line m t) = 1"
| "accounted (Suppressed n) = n"

definition log_run :: "(string \<times> millis) list \<Rightarrow> log_budget \<Rightarrow> log_budget" where
  "log_run = fold (\<lambda>(m, t). log_pre_auth m t)"

lemma log_run_simps:
  "log_run [] b = b" "log_run (x # xs) b = log_run xs (log_pre_auth (fst x) (snd x) b)"
  by (simp_all add: log_run_def split_def)

text \<open>Every line asked for is written, or counted in a line that is, or counted in one still to come.\<close>

lemma every_line_accounted:
  "sum_list (map accounted (lb_lines (log_run xs b))) + lb_suppressed (log_run xs b)
   = sum_list (map accounted (lb_lines b)) + lb_suppressed b + length xs"
proof (induction xs arbitrary: b)
  case (Cons x xs)
  have "sum_list (map accounted (lb_lines (log_pre_auth m t b))) + lb_suppressed (log_pre_auth m t b)
      = sum_list (map accounted (lb_lines b)) + lb_suppressed b + 1" for m t
    by (simp add: log_pre_auth_def flush_suppressed_def Let_def)
  with Cons show ?case by (simp add: log_run_simps)
qed (simp add: log_run_simps)

text \<open>
  C35: However many callers try within a minute's window, exactly the first thirty lines are written and each further
  one is counted.
\<close>

theorem preauth_lines_bounded:
  assumes w: "\<forall>x \<in> set xs. snd x - lb_start b < 60000" and l: "lb_logged b \<le> PREAUTH_LOGS_PER_MINUTE"
  shows "sum_list (map written (lb_lines (log_run xs b)))
      = sum_list (map written (lb_lines b)) + min (length xs) (PREAUTH_LOGS_PER_MINUTE - lb_logged b)
    \<and> lb_suppressed (log_run xs b) = lb_suppressed b + (length xs - (PREAUTH_LOGS_PER_MINUTE - lb_logged b))"
  using w l
proof (induction xs arbitrary: b)
  case (Cons x xs)
  let ?b = "log_pre_auth (fst x) (snd x) b"
  have same: "lb_start ?b = lb_start b" and le: "lb_logged ?b \<le> PREAUTH_LOGS_PER_MINUTE"
    and new: "sum_list (map written (lb_lines ?b)) = sum_list (map written (lb_lines b))
        + (if lb_logged b < PREAUTH_LOGS_PER_MINUTE then 1 else 0)"
      "lb_logged ?b = lb_logged b + (if lb_logged b < PREAUTH_LOGS_PER_MINUTE then 1 else 0)"
      "lb_suppressed ?b = lb_suppressed b + (if lb_logged b < PREAUTH_LOGS_PER_MINUTE then 0 else 1)"
    using Cons.prems by (auto simp: log_pre_auth_def Let_def)
  have "\<forall>y \<in> set xs. snd y - lb_start ?b < 60000" using Cons.prems(1) same by simp
  from Cons.IH[OF this le] show ?case using new Cons.prems(2) by (auto simp: log_run_simps)
qed (simp add: log_run_simps)

theorem preauth_lines_bounded_witness:
  "sum_list (map written (lb_lines (log_run (replicate 100 (''refused'', 70000))
     \<lparr>lb_start = 60000, lb_logged = 0, lb_suppressed = 0, lb_flush_at = None, lb_lines = []\<rparr>))) = 30"
  by (subst preauth_lines_bounded[THEN conjunct1]) (simp_all add: PREAUTH_LOGS_PER_MINUTE_def)

lemma noted_refusals_bounded:
  "length (fst st) \<le> REFUSALS_NOTED_MAX \<Longrightarrow> length (fst (note_refused_upgrade check path now st)) \<le> REFUSALS_NOTED_MAX"
proof -
  assume le: "length (fst st) \<le> REFUSALS_NOTED_MAX"
  obtain noted b where st: "st = (noted, b)" by fastforce
  have "length (filter (\<lambda>(x, _). x \<noteq> (check, path)) noted) \<le> REFUSALS_NOTED_MAX"
    using le st by (simp add: le_trans[OF length_filter_le])
  with le st show ?thesis by (simp add: note_refused_upgrade_def Let_def)
qed

end
