(* ===== verification/LiveClients.thy ===== *)
theory LiveClients
  imports Redact Permissions UserState LimitRetry AgentWiring SettingsStore
begin

text \<open>
  The connected clients and what is sent to them (\<open>channels/webchat/state.ts\<close>), with the notifications that reach
  the others (\<open>push.ts\<close>). A frame sent is a pair of the client's id and the frame, in the order of sending; one sent
  to a socket that closes meanwhile is lost without a trace, so it counts as sent. Parameters are the push service and,
  of the host, its rule for agent groups, its tables of permissions and agents and its list of running sessions.
\<close>

record live_client =
  lc_id :: string
  lc_user :: string
  lc_name :: string
  lc_room :: "string option"
  lc_thread :: "string option"
  lc_alive :: bool
  lc_open :: bool
  lc_auth :: bool

record room_view =
  rv_room :: webchat_room
  rv_archived :: bool
  rv_hidden :: bool
  rv_can_archive :: bool
  rv_unread :: bool
  rv_unread_count :: nat
  rv_mention :: bool
  rv_pinned :: bool
  rv_pin_position :: "int option"
  rv_last_activity :: millis
  rv_thread_count :: nat

record member_info =
  mi_identity :: string
  mi_type :: string
  mi_handle :: "string option"

text \<open>A retry pending on a notice travels with it, as \<open>with_limit_retries\<close> attaches it.\<close>

type_synonym shown_message = "message \<times> (millis \<times> string) option"

datatype frame =
    FSystem "string option" string
  | FRooms "room_view list"
  | FHistory string string "millis option" "shown_message list"
  | FMembers string "member_info list"
  | FStatus string "string option" string
  | FTyping string string bool
  | FMessage message "string option" \<comment> \<open>with the sender's own id for it; the sender's user id is not sent\<close>
  | FDeleted string string
  | FUnread string
  | FMention string
  | FReadCleared string
  | FError "string option" string "string option"
  | FApproval string
  | FApprovalResolved string string

record push_sub =
  ps_endpoint :: string
  ps_identity :: string
  ps_keys :: string

datatype push_outcome = Delivered | Gone | PushFailed

record push_note =
  pn_endpoint :: string
  pn_sender :: string
  pn_room_name :: string
  pn_body :: string
  pn_room :: string
  pn_message :: string

record inbound =
  in_room :: string
  in_id :: string
  in_at :: millis
  in_text :: string
  in_sender :: string
  in_sender_id :: string
  in_thread :: "string option"

record live_site =
  ls_api :: mg_api
  ls_wire :: wire_api
  ls_perm :: perm_api
  ls_new_agent :: "agent_group \<Rightarrow> chat_db \<Rightarrow> chat_db option" \<comment> \<open>the host's insert; \<open>None\<close> when it raises\<close>
  ls_drop_agent :: "string \<Rightarrow> chat_db \<Rightarrow> chat_db"
  ls_agent_files :: "agent_group \<Rightarrow> bool" \<comment> \<open>whether an agent's directory can be made\<close>
  ls_providers :: "string list" \<comment> \<open>the harnesses installed beside the built-in one\<close>
  ls_allowed :: "perm_db \<Rightarrow> string \<Rightarrow> string \<Rightarrow> bool"
  ls_running :: "chat_db \<Rightarrow> session_row list"
  ls_push_ready :: bool
  ls_push :: "push_sub \<Rightarrow> push_outcome"

record live_state =
  lv_clients :: "live_client list" \<comment> \<open>in the order they connected\<close>
  lv_db :: chat_db
  lv_perm :: perm_db
  lv_settings :: "room_setting list"
  lv_agents :: "(string \<times> string) list" \<comment> \<open>the agent present in a room\<close>
  lv_turns :: "(string \<times> string list) list"
  lv_seen :: "(string \<times> millis) list"
  lv_subs :: "push_sub list"
  lv_sent :: "(string \<times> frame) list"
  lv_pushed :: "push_note list"
  lv_mirrored :: "(string \<times> frame) list"
  lv_inbound :: "inbound list"
  lv_interrupts :: "(string \<times> string) list"

definition reaches :: "live_site \<Rightarrow> live_state \<Rightarrow> string \<Rightarrow> string \<Rightarrow> bool" where
  "reaches site w u room = can_access_room (ls_api site) (ls_allowed site (lv_perm w)) (lv_db w) u room"

section \<open>The registry\<close>

definition client_of :: "string \<Rightarrow> live_state \<Rightarrow> live_client option" where
  "client_of cid w = tbl_get lc_id cid (lv_clients w)"

definition on_client :: "string \<Rightarrow> (live_client \<Rightarrow> live_client) \<Rightarrow> live_state \<Rightarrow> live_state" where
  "on_client cid f w = w\<lparr>lv_clients := tbl_update (\<lambda>c. lc_id c = cid) f (lv_clients w)\<rparr>"

definition add_client :: "live_client \<Rightarrow> live_state \<Rightarrow> live_state" where
  "add_client c w = w\<lparr>lv_clients := tbl_upsert lc_id c (lv_clients w)\<rparr>"

definition remove_client :: "string \<Rightarrow> live_state \<Rightarrow> live_client option \<times> live_state" where
  "remove_client cid w = (client_of cid w, w\<lparr>lv_clients := tbl_delete (\<lambda>c. lc_id c = cid) (lv_clients w)\<rparr>)"

text \<open>To every client that \<open>p\<close> gives a frame.\<close>

definition deliver :: "(live_client \<Rightarrow> frame option) \<Rightarrow> live_state \<Rightarrow> live_state" where
  "deliver p w = w\<lparr>lv_sent := lv_sent w
     @ List.map_filter (\<lambda>c. map_option (Pair (lc_id c)) (if lc_open c then p c else None)) (lv_clients w)\<rparr>"

definition reply :: "string \<Rightarrow> frame \<Rightarrow> live_state \<Rightarrow> live_state" where
  "reply cid f w = deliver (\<lambda>c. if lc_id c = cid then Some f else None) w"

section \<open>Who is in a room\<close>

fun member_infos :: "chat_db \<Rightarrow> string \<Rightarrow> string list \<Rightarrow> live_client list \<Rightarrow> member_info list" where
  "member_infos db room seen [] = []"
| "member_infos db room seen (c # cs) =
     (if lc_room c = Some room \<and> lc_name c \<notin> set seen
      then \<lparr>mi_identity = lc_name c, mi_type = ''user'', mi_handle = get_user_handle (lc_user c) db\<rparr>
           # member_infos db room (lc_name c # seen) cs
      else member_infos db room seen cs)"

definition get_member_list :: "string \<Rightarrow> live_state \<Rightarrow> member_info list" where
  "get_member_list room w =
     (let ms = member_infos (lv_db w) room [] (lv_clients w); agent = map_of (lv_agents w) room
      in if truthy agent \<and> the agent \<notin> set (map mi_identity ms)
         then ms @ [\<lparr>mi_identity = the agent, mi_type = ''agent'', mi_handle = None\<rparr>] else ms)"

definition record_turn_start :: "string \<Rightarrow> string \<Rightarrow> live_state \<Rightarrow> live_state" where
  "record_turn_start room agent w = w\<lparr>lv_turns := map_put room
     (add_new agent (coalesce (map_of (lv_turns w) room) [])) (lv_turns w)\<rparr>"

definition record_turn_end :: "string \<Rightarrow> string \<Rightarrow> live_state \<Rightarrow> live_state" where
  "record_turn_end room agent w = (case map_of (lv_turns w) room of
     None \<Rightarrow> w
   | Some as \<Rightarrow> (let rest = filter (\<lambda>a. a \<noteq> agent) as in
       w\<lparr>lv_turns := (if rest = [] then map_drop room (lv_turns w) else map_put room rest (lv_turns w))\<rparr>))"

definition get_active_turns :: "string \<Rightarrow> live_state \<Rightarrow> string list" where
  "get_active_turns room w = coalesce (map_of (lv_turns w) room) []"

section \<open>Mentions\<close>

text \<open>The characters \<open>[a-z0-9-]\<close> matches without regard to case.\<close>

definition mention_char :: "char \<Rightarrow> bool" where
  "mention_char c = (is_alnum (lower c) \<or> c = CHR ''-'')"

definition handle_after :: "string \<Rightarrow> string" where
  "handle_after s = take 32 (takeWhile mention_char s)"

text \<open>
  The scan of \<open>/(?:^|[^a-z0-9_-])@([a-z0-9-]{1,32})/gi\<close>: the character before an at sign is part of the match, and the
  search goes on behind the handle. \<open>start\<close> says that nothing has been read.
\<close>

function handles_from :: "bool \<Rightarrow> string \<Rightarrow> string list" where
  "handles_from start s = (case s of
     [] \<Rightarrow> []
   | c # t \<Rightarrow>
      (if start \<and> c = CHR ''@'' \<and> handle_after t \<noteq> []
       then map lower (handle_after t) # handles_from False (drop (length (handle_after t)) t)
       else if \<not> mention_char c \<and> c \<noteq> CHR ''_'' \<and> t \<noteq> [] \<and> hd t = CHR ''@'' \<and> handle_after (tl t) \<noteq> []
       then map lower (handle_after (tl t)) # handles_from False (drop (length (handle_after (tl t))) (tl t))
       else handles_from False t))"
  by pat_completeness auto

termination by (relation "measure (\<lambda>(b, s). length s)") auto

declare handles_from.simps [simp del]

definition extract_handles :: "string \<Rightarrow> string list" where
  "extract_handles s = handles_from True s"

section \<open>Push\<close>

text \<open>\<open>Gone\<close> is the service's 404 or 410: the device has withdrawn its subscription.\<close>

definition subscriptions_for_room :: "live_site \<Rightarrow> string \<Rightarrow> string option \<Rightarrow> live_state \<Rightarrow> push_sub list" where
  "subscriptions_for_room site room sender w =
     filter (\<lambda>s. Some (ps_identity s) \<noteq> sender \<and> reaches site w (ps_identity s) room) (lv_subs w)"

definition send_push_for_message ::
  "live_site \<Rightarrow> string \<Rightarrow> string \<Rightarrow> message \<Rightarrow> string option \<Rightarrow> live_state \<Rightarrow> live_state" where
  "send_push_for_message site room room_name m sender w =
     (if \<not> ls_push_ready site then w
      else (let subs = subscriptions_for_room site room sender w;
                note_for = (\<lambda>s. \<lparr>pn_endpoint = ps_endpoint s, pn_sender = or_else (m_sender m) ''unknown'', pn_room_name = room_name,
                  pn_body = take 160 (redact_sensitive_data (m_content m)), pn_room = room, pn_message = m_id m\<rparr>);
                gone = map ps_endpoint (filter (\<lambda>s. ls_push site s = Gone) subs)
            in w\<lparr>lv_pushed := lv_pushed w @ map note_for (filter (\<lambda>s. ls_push site s = Delivered) subs),
                 lv_subs := filter (\<lambda>s. ps_endpoint s \<notin> set gone) (lv_subs w)\<rparr>))"

section \<open>Sending to a room\<close>

definition is_message :: "frame \<Rightarrow> bool" where
  "is_message f = (case f of FMessage _ _ \<Rightarrow> True | _ \<Rightarrow> False)"

definition redacted :: "frame \<Rightarrow> frame" where
  "redacted f = (case f of FMessage m k \<Rightarrow> FMessage (m\<lparr>m_content := redact_sensitive_data (m_content m)\<rparr>) k | _ \<Rightarrow> f)"

definition mentioned_users :: "frame \<Rightarrow> live_state \<Rightarrow> string list" where
  "mentioned_users f w = (case f of
     FMessage m _ \<Rightarrow> resolve_handles_to_user_ids (extract_handles (m_content m)) (lv_db w) | _ \<Rightarrow> [])"

text \<open>What one client is sent of a frame for a room.\<close>

definition frame_for ::
  "live_site \<Rightarrow> string \<Rightarrow> frame \<Rightarrow> string option \<Rightarrow> string option \<Rightarrow> string list \<Rightarrow> live_client \<Rightarrow> frame option" where
  "frame_for site room f exclude sender mentioned c =
     (if Some (lc_id c) = exclude then None
      else if lc_room c = Some room then Some (redacted f)
      else if \<not> is_message f \<or> (truthy sender \<and> Some (lc_user c) = sender) then None
      else Some (if lc_user c \<in> set mentioned then FMention room else FUnread room))"

definition quiet_kind :: "message_kind \<Rightarrow> bool" where
  "quiet_kind k = (k \<in> {KA2a, KApproval, KApprovalResolved})"

definition push_frame :: "live_site \<Rightarrow> string \<Rightarrow> frame \<Rightarrow> string option \<Rightarrow> string option \<Rightarrow> millis \<Rightarrow> live_state \<Rightarrow> live_state" where
  "push_frame site room f exclude sender now w = (case f of
     FMessage m _ \<Rightarrow>
       (if quiet_kind (m_kind m) then w
        else (let name = (case get_webchat_room (ls_api site) room now (lv_db w) of
                    None \<Rightarrow> room | Some r \<Rightarrow> or_else (r_name r) room);
                  who = (case sender of Some u \<Rightarrow> Some u
                    | None \<Rightarrow> (case exclude of None \<Rightarrow> None
                        | Some i \<Rightarrow> (if i = [] then None else map_option lc_user (client_of i w))))
              in send_push_for_message site room name m who w))
   | _ \<Rightarrow> w)"

definition mirror_frame :: "live_site \<Rightarrow> string \<Rightarrow> frame \<Rightarrow> live_state \<Rightarrow> live_state" where
  "mirror_frame site room f w = (case f of
     FMessage _ _ \<Rightarrow> w\<lparr>lv_mirrored := lv_mirrored w @ [(room, redacted f)]\<rparr>
   | FStatus _ _ _ \<Rightarrow> w\<lparr>lv_mirrored := lv_mirrored w @ [(room, f)]\<rparr>
   | _ \<Rightarrow> w)"

definition broadcast ::
  "live_site \<Rightarrow> string \<Rightarrow> frame \<Rightarrow> string option \<Rightarrow> string option \<Rightarrow> millis \<Rightarrow> live_state \<Rightarrow> live_state" where
  "broadcast site room f exclude sender now w =
     push_frame site room f exclude sender now
       (deliver (frame_for site room f exclude sender (mentioned_users f w)) (mirror_frame site room f w))"

section \<open>Leaving a room one may no longer see\<close>

definition unbind_client_from_room :: "live_site \<Rightarrow> string \<Rightarrow> string \<Rightarrow> millis \<Rightarrow> live_state \<Rightarrow> live_state" where
  "unbind_client_from_room site cid room now w = (case client_of cid w of
     None \<Rightarrow> w
   | Some c \<Rightarrow>
      (if lc_room c \<noteq> Some room then w
       else (let w1 = on_client cid (\<lambda>c. c\<lparr>lc_room := None, lc_thread := None\<rparr>) w;
                 w2 = reply cid (FError (Some room) ''Access denied'' None) w1
             in broadcast site room (FMembers room (get_member_list room w2)) None None now w2)))"

section \<open>Room lists\<close>

definition room_view_for :: "live_site \<Rightarrow> string \<Rightarrow> live_state \<Rightarrow> webchat_room \<Rightarrow> room_view" where
  "room_view_for site u w r =
     (let db = lv_db w; i = r_id r; unread = get_unread_room_count u db i in
      \<lparr>rv_room = r, rv_archived = (i \<in> set (get_archived_room_ids db)), rv_hidden = (i \<in> set (get_hidden_room_ids u db)),
       rv_can_archive = can_archive_room (ls_api site) (pd_roles (lv_perm w)) db u i,
       rv_unread = (unread \<noteq> None), rv_unread_count = coalesce unread 0,
       rv_mention = (i \<in> set (get_mentioned_room_ids u (coalesce (get_user_handle u db) []) db)),
       rv_pinned = (get_pinned_position u db i \<noteq> None), rv_pin_position = get_pinned_position u db i,
       rv_last_activity = coalesce (get_room_last_activity db i) (r_created r),
       rv_thread_count = coalesce (get_topic_thread_counts db i) 0\<rparr>)"

definition annotate_rooms_for_user :: "live_site \<Rightarrow> string \<Rightarrow> webchat_room list \<Rightarrow> live_state \<Rightarrow> room_view list" where
  "annotate_rooms_for_user site u rooms w = map (room_view_for site u w)
     (filter_rooms_for_user (ls_api site) (ls_allowed site (lv_perm w)) (lv_db w) u rooms)"

definition send_rooms :: "live_site \<Rightarrow> millis \<Rightarrow> webchat_room list \<Rightarrow> string \<Rightarrow> live_state \<Rightarrow> live_state" where
  "send_rooms site now all cid w = (case client_of cid w of
     None \<Rightarrow> w
   | Some c \<Rightarrow>
      (if \<not> lc_open c then w
       else (let rooms = annotate_rooms_for_user site (lc_user c) all w; w1 = reply cid (FRooms rooms) w
             in if truthy (lc_room c) \<and> the (lc_room c) \<notin> set (map (\<lambda>v. r_id (rv_room v)) rooms)
                then unbind_client_from_room site cid (the (lc_room c)) now w1 else w1)))"

definition broadcast_rooms :: "live_site \<Rightarrow> millis \<Rightarrow> live_state \<Rightarrow> live_state" where
  "broadcast_rooms site now w =
     fold (send_rooms site now (get_all_webchat_rooms now (lv_db w))) (map lc_id (lv_clients w)) w"

section \<open>To one user\<close>

definition push_to_user :: "string \<Rightarrow> frame \<Rightarrow> live_state \<Rightarrow> nat \<times> live_state" where
  "push_to_user u f w = (length (filter (\<lambda>c. lc_user c = u \<and> lc_open c) (lv_clients w)),
     deliver (\<lambda>c. if lc_user c = u then Some f else None) w)"

definition push_approval_to_user :: "string \<Rightarrow> string \<Rightarrow> live_state \<Rightarrow> live_state" where
  "push_approval_to_user u payload w = snd (push_to_user u (FApproval payload) w)"

definition push_approval_resolved_to_user :: "string \<Rightarrow> string \<Rightarrow> string \<Rightarrow> live_state \<Rightarrow> live_state" where
  "push_approval_resolved_to_user u approval resolver w = snd (push_to_user u (FApprovalResolved approval resolver) w)"

definition mark_room_read_for_user :: "string \<Rightarrow> string \<Rightarrow> millis \<Rightarrow> string option \<Rightarrow> live_state \<Rightarrow> live_state" where
  "mark_room_read_for_user u room ts origin w =
     deliver (\<lambda>c. if lc_user c = u \<and> Some (lc_id c) \<noteq> origin then Some (FReadCleared room) else None)
       (w\<lparr>lv_db := mark_room_read u room ts (lv_db w)\<rparr>)"

section \<open>Copies of what agents tell each other\<close>

text \<open>
  \<open>placed\<close> lists the room and session key of the sessions involved, source first. The copy's stored JSON is made
  by \<open>payload\<close> from the receiver's name and the text, and \<open>uuid\<close> draws its id.
\<close>

definition a2a_text :: "string \<Rightarrow> jval option \<Rightarrow> string" where
  "a2a_text raw parsed = js_trim (case parsed of None \<Rightarrow> raw | Some v \<Rightarrow> jtext (jfield ''text'' v))"

definition surface_in_room ::
  "live_site \<Rightarrow> (string \<times> string) list \<Rightarrow> string \<Rightarrow> string \<Rightarrow> (string \<Rightarrow> string) \<Rightarrow> millis \<Rightarrow> string \<Rightarrow> live_state \<Rightarrow> live_state" where
  "surface_in_room site threads from_name payload uuid now room w =
     (case store_webchat_a2a_message room from_name payload (coalesce (map_of threads room) MAIN_THREAD)
         (uuid room) now (lv_db w) of
        (m, db) \<Rightarrow> broadcast site room (FMessage m None) None None now (w\<lparr>lv_db := db\<rparr>))"

definition agent_name :: "string \<Rightarrow> chat_db \<Rightarrow> string" where
  "agent_name i db = (case tbl_get ag_id i (c_agents db) of None \<Rightarrow> i | Some g \<Rightarrow> ag_name g)"

definition surface_a2a_message ::
  "live_site \<Rightarrow> string \<Rightarrow> string \<Rightarrow> string \<Rightarrow> jval option \<Rightarrow> (string \<times> string) list \<Rightarrow> (string \<Rightarrow> string \<Rightarrow> string)
     \<Rightarrow> (string \<Rightarrow> string) \<Rightarrow> millis \<Rightarrow> live_state \<Rightarrow> live_state" where
  "surface_a2a_message site from_id to_id raw parsed placed payload uuid now w =
     (if from_id = to_id \<or> a2a_text raw parsed = [] then w
      else (let db = lv_db w;
                known = (\<lambda>th room. get_webchat_thread room th db \<noteq> None);
                threads = map (\<lambda>(room, key). (room, session_key_to_thread known (Some key) (Some room))) placed;
                body = payload (agent_name to_id db) (a2a_text raw parsed)
            in fold (surface_in_room site threads (agent_name from_id db) body uuid now)
                 (map fst (get_shared_webchat_rooms from_id to_id db)) w))"

end
