(* ===== verification/SocketFrames.thy ===== *)
theory SocketFrames
  imports LiveClients SignInAdmin
begin

text \<open>
  The socket protocol (\<open>channels/webchat/ws.ts\<close>): a connection, the frames of its client in the order they
  arrive, the keepalive and the close. A frame is handled as one step, as the chain of each client orders them; a
  frame still queued when its socket has closed is not handled. A text that is not JSON is \<open>None\<close>, and a frame
  whose handler raises is dropped. The flag that a message has a stored trace is left out of the history.
\<close>

section \<open>Sends that are repeated\<close>

definition CLIENT_ID_DEDUP_WINDOW_MS :: int where "CLIENT_ID_DEDUP_WINDOW_MS = 10000"

definition claim_client_id :: "string \<Rightarrow> millis \<Rightarrow> live_state \<Rightarrow> bool \<times> live_state" where
  "claim_client_id i now w = (case map_of (lv_seen w) i of
     Some t \<Rightarrow> (if now - t < CLIENT_ID_DEDUP_WINDOW_MS then (False, w)
       else (True, w\<lparr>lv_seen := (let m = map_put i now (lv_seen w) in
         if length m > 1000 then filter (\<lambda>(_, t). now - t < CLIENT_ID_DEDUP_WINDOW_MS) m else m)\<rparr>))
   | None \<Rightarrow> (True, w\<lparr>lv_seen := (let m = map_put i now (lv_seen w) in
         if length m > 1000 then filter (\<lambda>(_, t). now - t < CLIENT_ID_DEDUP_WINDOW_MS) m else m)\<rparr>))"

definition release_client_id :: "string \<Rightarrow> live_state \<Rightarrow> live_state" where
  "release_client_id i w = w\<lparr>lv_seen := map_drop i (lv_seen w)\<rparr>"

section \<open>A client's room\<close>

text \<open>The room a client may still act in; access lost meanwhile drops the binding.\<close>

definition current_room :: "live_site \<Rightarrow> live_client \<Rightarrow> millis \<Rightarrow> live_state \<Rightarrow> string option \<times> live_state" where
  "current_room site c now w =
     (if \<not> truthy (lc_room c) then (None, w)
      else if reaches site w (lc_user c) (the (lc_room c)) then (lc_room c, w)
      else (None, unbind_client_from_room site (lc_id c) (the (lc_room c)) now w))"

definition in_current_room ::
  "live_site \<Rightarrow> live_client \<Rightarrow> millis \<Rightarrow> live_state \<Rightarrow> (string \<Rightarrow> live_state \<Rightarrow> live_state) \<Rightarrow> live_state" where
  "in_current_room site c now w k = (case current_room site c now w of
     (None, w') \<Rightarrow> w' | (Some room, w') \<Rightarrow> k room w')"

text \<open>A field of a frame that is a text, and the thread it names.\<close>

definition text_of :: "string \<Rightarrow> jval \<Rightarrow> string option" where
  "text_of k b = (case jfield k b of Some (VStr s) \<Rightarrow> Some s | _ \<Rightarrow> None)"

definition thread_named :: "jval \<Rightarrow> string" where
  "thread_named b = (if truthy (text_of ''thread_id'' b) then the (text_of ''thread_id'' b) else MAIN_THREAD)"

definition mark_thread :: "string \<Rightarrow> string \<Rightarrow> string \<Rightarrow> millis \<Rightarrow> live_state \<Rightarrow> live_state" where
  "mark_thread u room th ts w = w\<lparr>lv_db := mark_thread_read u room th ts (lv_db w)\<rparr>"

section \<open>The frames\<close>

definition frame_auth :: "live_site \<Rightarrow> live_client \<Rightarrow> millis \<Rightarrow> live_state \<Rightarrow> live_state" where
  "frame_auth site c now w =
     (let w1 = reply (lc_id c) (FSystem None (''Connected as '' @ lc_name c)) (on_client (lc_id c) (\<lambda>c. c\<lparr>lc_auth := True\<rparr>) w)
      in reply (lc_id c) (FRooms (annotate_rooms_for_user site (lc_user c) (get_all_webchat_rooms now (lv_db w1)) w1)) w1)"

definition shown_history :: "live_site \<Rightarrow> string \<Rightarrow> string \<Rightarrow> live_state \<Rightarrow> shown_message list" where
  "shown_history site room th w =
     map (\<lambda>(m, r). (m\<lparr>m_content := redact_sensitive_data (m_content m)\<rparr>, r))
       (with_limit_retries (get_webchat_messages room 50 (Some th) (lv_db w)) (lv_db w))"

text \<open>An agent that has no name is replayed with a null name.\<close>

definition replay_turns :: "string \<Rightarrow> string \<Rightarrow> live_state \<Rightarrow> live_state" where
  "replay_turns cid room w =
     fold (\<lambda>a. reply cid (FStatus room (if a = [] then None else Some a) ''start'')) (get_active_turns room w) w"

definition enter_room :: "live_site \<Rightarrow> live_client \<Rightarrow> string \<Rightarrow> string \<Rightarrow> millis \<Rightarrow> live_state \<Rightarrow> live_state" where
  "enter_room site c room th now w =
     (let cid = lc_id c; u = lc_user c;
          w1 = on_client cid (\<lambda>c. c\<lparr>lc_room := Some room, lc_thread := Some th\<rparr>) w;
          left_at = get_thread_read_marker u room th (lv_db w1);
          w2 = mark_thread u room th now (mark_room_read_for_user u room now (Some cid) w1);
          w3 = reply cid (FHistory room th left_at (shown_history site room th w2)) w2;
          w4 = broadcast site room (FSystem (Some room) (lc_name c @ '' joined'')) (Some cid) None now w3;
          w5 = broadcast site room (FMembers room (get_member_list room w4)) None None now w4
      in replay_turns cid room w5)"

definition frame_join :: "live_site \<Rightarrow> live_client \<Rightarrow> jval \<Rightarrow> millis \<Rightarrow> live_state \<Rightarrow> live_state" where
  "frame_join site c b now w =
     (let asked = jtext (jfield ''room_id'' b) in
      case get_webchat_room (ls_api site) asked now (lv_db w) of
        None \<Rightarrow> reply (lc_id c) (FError None (''Room not found: '' @ asked) None) w
      | Some r \<Rightarrow>
         (if \<not> reaches site w (lc_user c) (r_id r) then reply (lc_id c) (FError None ''Access denied'' None) w
          else enter_room site c (r_id r) (thread_named b) now w))"

definition frame_typing :: "live_site \<Rightarrow> live_client \<Rightarrow> jval \<Rightarrow> millis \<Rightarrow> live_state \<Rightarrow> live_state" where
  "frame_typing site c b now w = in_current_room site c now w (\<lambda>room.
     broadcast site room (FTyping room (lc_name c) (case jfield ''is_typing'' b of None \<Rightarrow> False | Some v \<Rightarrow> jtruthy v))
       (Some (lc_id c)) None now)"

definition frame_read :: "live_site \<Rightarrow> live_client \<Rightarrow> jval \<Rightarrow> millis \<Rightarrow> live_state \<Rightarrow> live_state" where
  "frame_read site c b now w =
     (let asked = jtext (jfield ''room_id'' b) in
      if asked = [] then w
      else case get_webchat_room (ls_api site) asked now (lv_db w) of
        None \<Rightarrow> w
      | Some r \<Rightarrow>
         (if \<not> reaches site w (lc_user c) (r_id r) then w
          else mark_thread (lc_user c) (r_id r) (thread_named b) now
                 (mark_room_read_for_user (lc_user c) (r_id r) now (Some (lc_id c)) w)))"

text \<open>Where storing a message may fail: before anything is written, or after its thread was made.\<close>

datatype store_outcome = Stored | ThreadFailed | StoreFailed

definition not_sent :: "string \<Rightarrow> string option \<Rightarrow> live_state \<Rightarrow> live_state" where
  "not_sent cid key w = reply cid (FError None ''Message not sent'' key)
     (if truthy key then release_client_id (the key) w else w)"

definition echo_stored ::
  "live_site \<Rightarrow> live_client \<Rightarrow> string \<Rightarrow> string option \<Rightarrow> message \<Rightarrow> millis \<Rightarrow> live_state \<Rightarrow> live_state" where
  "echo_stored site c room key m now w =
     (let u = lc_user c; cid = lc_id c; th = m_thread m;
          w1 = mark_thread u room th (m_at m) (mark_room_read_for_user u room (m_at m) (Some cid) w);
          w2 = broadcast site room (FMessage m key) (Some cid) (Some u) now w1;
          w3 = w2\<lparr>lv_inbound := lv_inbound w2 @ [\<lparr>in_room = room, in_id = m_id m, in_at = m_at m, in_text = m_content m,
                 in_sender = lc_name c, in_sender_id = u, in_thread = thread_to_session_key (Some th)\<rparr>]\<rparr>
      in reply cid (redacted (FMessage m key)) w3)"

definition store_and_send ::
  "live_site \<Rightarrow> live_client \<Rightarrow> jval \<Rightarrow> string \<Rightarrow> store_outcome \<Rightarrow> string \<Rightarrow> millis \<Rightarrow> string \<Rightarrow> live_state \<Rightarrow> live_state" where
  "store_and_send site c b body res uuid now room w =
     (let key = text_of ''client_id'' b in
      if res = ThreadFailed then not_sent (lc_id c) key w
      else (case resolve_bounded_thread (ls_api site) room (text_of ''thread_id'' b) now (lv_db w) of (th, db1) \<Rightarrow>
        (if res = StoreFailed then not_sent (lc_id c) key (w\<lparr>lv_db := db1\<rparr>)
         else (case store_webchat_message room (lc_name c) ''user'' body th (Some (lc_user c)) None None uuid now db1 of
           (m, db2) \<Rightarrow> echo_stored site c room key m now (w\<lparr>lv_db := db2\<rparr>)))))"

definition frame_message ::
  "live_site \<Rightarrow> live_client \<Rightarrow> jval \<Rightarrow> store_outcome \<Rightarrow> string \<Rightarrow> millis \<Rightarrow> live_state \<Rightarrow> live_state" where
  "frame_message site c b res uuid now w =
     (if \<not> truthy (lc_room c) then reply (lc_id c) (FError None ''Join a room first'' None) w
      else in_current_room site c now w (\<lambda>room w1.
        let body = jtext (jfield ''content'' b); key = text_of ''client_id'' b in
        if js_trim body = [] then w1
        else if truthy key
        then (case claim_client_id (the key) now w1 of
            (False, w2) \<Rightarrow> w2 | (True, w2) \<Rightarrow> store_and_send site c b body res uuid now room w2)
        else store_and_send site c b body res uuid now room w1))"

definition interrupt_room_sessions :: "live_site \<Rightarrow> string \<Rightarrow> string option \<Rightarrow> live_state \<Rightarrow> live_state" where
  "interrupt_room_sessions site room agent w = (case api_lookup (ls_api site) webchat room (lv_db w) of
     None \<Rightarrow> w
   | Some g \<Rightarrow>
      (let ss = filter (\<lambda>s. ss_mg s = mg_id g) (ls_running site (lv_db w));
           named = (if truthy agent
             then filter (\<lambda>s. map_option ag_name (tbl_get ag_id (ss_agent s) (c_agents (lv_db w))) = agent) ss else ss)
       in w\<lparr>lv_interrupts := lv_interrupts w @ map (\<lambda>s. (ss_agent s, ss_id s)) named\<rparr>))"

definition frame_interrupt :: "live_site \<Rightarrow> live_client \<Rightarrow> jval \<Rightarrow> millis \<Rightarrow> live_state \<Rightarrow> live_state" where
  "frame_interrupt site c b now w =
     in_current_room site c now w (\<lambda>room. interrupt_room_sessions site room (text_of ''agent_name'' b))"

definition frame_delete :: "live_site \<Rightarrow> live_client \<Rightarrow> jval \<Rightarrow> millis \<Rightarrow> live_state \<Rightarrow> live_state" where
  "frame_delete site c b now w =
     (if \<not> truthy (lc_room c) then w
      else (let mid = jtext (jfield ''message_id'' b) in
        if mid = [] then reply (lc_id c) (FError None ''message_id required'' None) w
        else in_current_room site c now w (\<lambda>room w1.
          let legacy = (if can_archive_room (ls_api site) (pd_roles (lv_perm w1)) (lv_db w1) (lc_user c) room
                then Some (lc_name c) else None)
          in (case delete_webchat_message mid (lc_user c) room legacy (lv_db w1) of
              (gone, db) \<Rightarrow> (if gone
                then broadcast site room (FDeleted room mid) None None now (w1\<lparr>lv_db := db\<rparr>) else w1\<lparr>lv_db := db\<rparr>)))))"

definition handle_frame ::
  "live_site \<Rightarrow> string \<Rightarrow> jval option \<Rightarrow> store_outcome \<Rightarrow> string \<Rightarrow> millis \<Rightarrow> live_state \<Rightarrow> live_state" where
  "handle_frame site cid raw res uuid now w = (case client_of cid w of
     None \<Rightarrow> w
   | Some c \<Rightarrow> (case raw of
       None \<Rightarrow> reply cid (FError None ''Invalid JSON'' None) w
     | Some b \<Rightarrow>
        (let k = text_of ''type'' b in
         if b = VNull then w
         else if k = Some ''auth'' then frame_auth site c now w
         else if \<not> lc_auth c then reply cid (FError None ''Not authenticated'' None) w
         else if k = Some ''join'' then frame_join site c b now w
         else if k = Some ''typing'' then frame_typing site c b now w
         else if k = Some ''read'' then frame_read site c b now w
         else if k = Some ''message'' then frame_message site c b res uuid now w
         else if k = Some ''interrupt'' then frame_interrupt site c b now w
         else if k = Some ''delete_message'' then frame_delete site c b now w
         else w)))"

section \<open>The connection\<close>

definition connect :: "string \<Rightarrow> string \<Rightarrow> string \<Rightarrow> millis \<Rightarrow> live_state \<Rightarrow> live_state" where
  "connect uuid user name now w = add_client \<lparr>lc_id = uuid, lc_user = user, lc_name = name, lc_room = None, lc_thread = None,
       lc_alive = True, lc_open = True, lc_auth = False\<rparr> (w\<lparr>lv_db := snd (ensure_user_handle user name now (lv_db w))\<rparr>)"

definition pong :: "string \<Rightarrow> live_state \<Rightarrow> live_state" where
  "pong cid = on_client cid (\<lambda>c. c\<lparr>lc_alive := True\<rparr>)"

text \<open>The socket leaves the open state some time before its close is reported.\<close>

definition socket_ends :: "string \<Rightarrow> live_state \<Rightarrow> live_state" where
  "socket_ends cid = on_client cid (\<lambda>c. c\<lparr>lc_open := False\<rparr>)"

definition closed_socket :: "live_site \<Rightarrow> string \<Rightarrow> millis \<Rightarrow> live_state \<Rightarrow> live_state" where
  "closed_socket site cid now w = (case remove_client cid w of
     (None, w1) \<Rightarrow> w1
   | (Some c, w1) \<Rightarrow>
      (if \<not> truthy (lc_room c) then w1
       else (let room = the (lc_room c);
                 w2 = broadcast site room (FSystem (Some room) (lc_name c @ '' left'')) None None now w1
             in broadcast site room (FMembers room (get_member_list room w2)) None None now w2)))"

text \<open>One tick of the keepalive; the sockets it terminates report their close later.\<close>

definition keepalive :: "live_state \<Rightarrow> live_state" where
  "keepalive w = w\<lparr>lv_clients := map (\<lambda>c. c\<lparr>lc_alive := False\<rparr>) (filter lc_alive (lv_clients w))\<rparr>"

end
