(* ===== verification/LiveFacts.thy ===== *)
theory LiveFacts
  imports SocketFrames
begin

text \<open>
  What the frames a step sends may tell: which rooms a frame shows, and the operations of \<open>LiveClients\<close> and
  \<open>SocketFrames\<close> showing a client only rooms of a given relation between users and rooms.
\<close>

section \<open>Who reaches a room depends on four tables\<close>

definition reach_key :: "live_state \<Rightarrow> mg_row list \<times> wiring list \<times> agent_group list \<times> perm_db" where
  "reach_key w = (c_groups (lv_db w), c_wirings (lv_db w), c_agents (lv_db w), lv_perm w)"

lemma reach_key_upd [simp]:
  "reach_key (w\<lparr>lv_pushed := x\<rparr>) = reach_key w" "reach_key (w\<lparr>lv_subs := y\<rparr>) = reach_key w"
  "reach_key (w\<lparr>lv_mirrored := z\<rparr>) = reach_key w" "reach_key (w\<lparr>lv_inbound := i\<rparr>) = reach_key w"
  "reach_key (w\<lparr>lv_seen := s\<rparr>) = reach_key w" "reach_key (w\<lparr>lv_interrupts := t\<rparr>) = reach_key w"
  "reach_key (w\<lparr>lv_clients := c\<rparr>) = reach_key w" "reach_key (w\<lparr>lv_turns := a\<rparr>) = reach_key w"
  "reach_key (w\<lparr>lv_settings := st\<rparr>) = reach_key w" "reach_key (w\<lparr>lv_agents := ag\<rparr>) = reach_key w"
  by (simp_all add: reach_key_def)

lemma reaches_key:
  assumes "mg_api_ok (ls_api site)" "reach_key w = reach_key w'"
  shows "reaches site w = reaches site w'"
proof -
  have "agents_of_group gid (lv_db w) = agents_of_group gid (lv_db w')" for gid
  proof -
    have e: "c_agents (lv_db w) = c_agents (lv_db w')" "c_wirings (lv_db w) = c_wirings (lv_db w')"
      using assms(2) by (simp_all add: reach_key_def)
    show ?thesis unfolding agents_of_group_def e ..
  qed
  then have "get_agents_for_webchat_room (ls_api site) room (lv_db w) = get_agents_for_webchat_room (ls_api site) room (lv_db w')" for room
    using assms by (auto simp: get_agents_for_webchat_room_def reach_key_def mg_api_ok_def split: option.split)
  then show ?thesis using assms by (auto simp: reaches_def can_access_room_def fun_eq_iff reach_key_def)
qed

section \<open>Rooms a frame shows\<close>

text \<open>The signals \<open>unread\<close> and \<open>mention\<close> name a room to clients everywhere and are left out.\<close>

definition rooms_shown :: "frame \<Rightarrow> string list" where
  "rooms_shown f = (case f of
     FSystem r _ \<Rightarrow> (case r of None \<Rightarrow> [] | Some x \<Rightarrow> [x])
   | FRooms vs \<Rightarrow> map (\<lambda>v. r_id (rv_room v)) vs
   | FHistory r _ _ ms \<Rightarrow> r # map (\<lambda>(m, _). m_room m) ms
   | FMembers r _ \<Rightarrow> [r]
   | FStatus r _ _ \<Rightarrow> [r]
   | FTyping r _ _ \<Rightarrow> [r]
   | FMessage m _ \<Rightarrow> [m_room m]
   | FDeleted r _ \<Rightarrow> [r]
   | FReadCleared r \<Rightarrow> [r]
   | FError r _ _ \<Rightarrow> (case r of None \<Rightarrow> [] | Some x \<Rightarrow> [x])
   | _ \<Rightarrow> [])"

definition shows_within :: "(string \<Rightarrow> bool) \<Rightarrow> frame \<Rightarrow> bool" where
  "shows_within A f = (\<forall>r \<in> set (rooms_shown f). r \<noteq> [] \<longrightarrow> A r)"

lemma shows_within_simps [simp]:
  "shows_within A (FSystem None t)" "shows_within A (FError None t k)" "shows_within A (FUnread r)"
  "shows_within A (FMention r)" "shows_within A (FApproval p)" "shows_within A (FApprovalResolved p q)"
  "shows_within A (FSystem (Some r) t) = (r \<noteq> [] \<longrightarrow> A r)" "shows_within A (FMembers r ms) = (r \<noteq> [] \<longrightarrow> A r)"
  "shows_within A (FStatus r a e) = (r \<noteq> [] \<longrightarrow> A r)" "shows_within A (FTyping r i b) = (r \<noteq> [] \<longrightarrow> A r)"
  "shows_within A (FMessage m k) = (m_room m \<noteq> [] \<longrightarrow> A (m_room m))" "shows_within A (FDeleted r i) = (r \<noteq> [] \<longrightarrow> A r)"
  "shows_within A (FReadCleared r) = (r \<noteq> [] \<longrightarrow> A r)" "shows_within A (FError (Some r) t k) = (r \<noteq> [] \<longrightarrow> A r)"
  by (simp_all add: shows_within_def rooms_shown_def)

lemma shows_within_redacted [simp]: "shows_within A (redacted f) = shows_within A f"
  by (cases f) (simp_all add: redacted_def)

section \<open>A state within a relation\<close>

text \<open>
  \<open>A\<close> relates users to rooms, \<open>U\<close> the ids of clients to their users, \<open>n\<close> is the number of frames sent before, and
  \<open>b\<close> a state with the tables in force.
\<close>

definition tied ::
  "(string \<Rightarrow> string \<Rightarrow> bool) \<Rightarrow> (string \<times> string) set \<Rightarrow> nat \<Rightarrow> live_state \<Rightarrow> live_state \<Rightarrow> bool" where
  "tied A U n b w =
     (distinct (map lc_id (lv_clients w)) \<and> reach_key w = reach_key b
      \<and> (\<forall>c \<in> set (lv_clients w). (lc_id c, lc_user c) \<in> U
          \<and> (lc_open c \<longrightarrow> (\<forall>r. lc_room c = Some r \<longrightarrow> r \<noteq> [] \<longrightarrow> A (lc_user c) r)))
      \<and> n \<le> length (lv_sent w)
      \<and> (\<forall>(cid, f) \<in> set (drop n (lv_sent w)). \<exists>u. (cid, u) \<in> U \<and> shows_within (A u) f))"

lemma tied_client:
  assumes "tied A U n b w" "c \<in> set (lv_clients w)" "lc_open c" "lc_room c = Some r" "r \<noteq> []"
  shows "A (lc_user c) r"
  using assms unfolding tied_def by blast

lemma tied_same:
  assumes "tied A U n b w" "lv_clients w' = lv_clients w" "lv_sent w' = lv_sent w" "reach_key w' = reach_key w"
  shows "tied A U n b w'"
  using assms by (simp add: tied_def)

lemma deliver_fields [simp]:
  "lv_clients (deliver p w) = lv_clients w" "lv_db (deliver p w) = lv_db w" "lv_perm (deliver p w) = lv_perm w"
  "reach_key (deliver p w) = reach_key w"
  by (simp_all add: deliver_def reach_key_def)

lemma tied_deliver:
  assumes w: "tied A U n b w"
    and p: "\<And>c f. c \<in> set (lv_clients w) \<Longrightarrow> lc_open c \<Longrightarrow> p c = Some f \<Longrightarrow> shows_within (A (lc_user c)) f"
  shows "tied A U n b (deliver p w)"
proof -
  let ?new = "List.map_filter (\<lambda>c. map_option (Pair (lc_id c)) (if lc_open c then p c else None)) (lv_clients w)"
  have "\<exists>u. (cid, u) \<in> U \<and> shows_within (A u) f" if "(cid, f) \<in> set ?new" for cid f
  proof -
    from that obtain c where c: "c \<in> set (lv_clients w)"
      "map_option (Pair (lc_id c)) (if lc_open c then p c else None) = Some (cid, f)"
      by (auto simp: in_map_filter)
    then have "lc_open c" "p c = Some f" "cid = lc_id c" by (auto split: if_splits)
    with c p w show ?thesis unfolding tied_def by blast
  qed
  moreover have "lv_sent (deliver p w) = lv_sent w @ ?new" by (simp add: deliver_def)
  ultimately show ?thesis using w by (fastforce simp: tied_def)
qed

text \<open>A change of one client that keeps who it is.\<close>

lemma tied_on_client:
  assumes w: "tied A U n b w" and f: "\<And>c. lc_id (f c) = lc_id c \<and> lc_user (f c) = lc_user c"
    and r: "\<And>c r. c \<in> set (lv_clients w) \<Longrightarrow> lc_id c = cid \<Longrightarrow> lc_open (f c) \<Longrightarrow> lc_room (f c) = Some r \<Longrightarrow> r \<noteq> []
      \<Longrightarrow> A (lc_user c) r"
  shows "tied A U n b (on_client cid f w)"
proof -
  have ids: "map lc_id (tbl_update (\<lambda>c. lc_id c = cid) f (lv_clients w)) = map lc_id (lv_clients w)"
    by (simp add: tbl_update_def f)
  have mem: "\<exists>d \<in> set (lv_clients w). e = (if lc_id d = cid then f d else d)" if "e \<in> set (lv_clients (on_client cid f w))" for e
    using that by (auto simp: on_client_def tbl_update_def)
  have "(lc_id e, lc_user e) \<in> U \<and> (lc_open e \<longrightarrow> (\<forall>r. lc_room e = Some r \<longrightarrow> r \<noteq> [] \<longrightarrow> A (lc_user e) r))"
    if "e \<in> set (lv_clients (on_client cid f w))" for e
    using mem[OF that] w f r unfolding tied_def by (metis (no_types, lifting))
  moreover have "distinct (map lc_id (lv_clients (on_client cid f w)))" "lv_sent (on_client cid f w) = lv_sent w"
    "reach_key (on_client cid f w) = reach_key w"
    using w ids by (simp_all add: tied_def on_client_def)
  ultimately show ?thesis using w unfolding tied_def by simp
qed

section \<open>The operations of the registry\<close>

lemma tied_push_frame: "tied A U n b w \<Longrightarrow> tied A U n b (push_frame site room f ex sender now w)"
  by (rule tied_same[of A U n b w]) (auto simp: push_frame_def send_push_for_message_def Let_def split: frame.split)

lemma tied_mirror: "tied A U n b w \<Longrightarrow> tied A U n b (mirror_frame site room f w)"
  by (rule tied_same[of A U n b w]) (auto simp: mirror_frame_def split: frame.split)

lemma mirror_clients [simp]: "lv_clients (mirror_frame site room f w) = lv_clients w"
  by (simp add: mirror_frame_def split: frame.split)

lemma tied_broadcast:
  assumes w: "tied A U n b w" and f: "set (rooms_shown f) \<subseteq> {room}"
  shows "tied A U n b (broadcast site room f ex sender now w)"
proof -
  have "shows_within (A (lc_user c)) g"
    if c: "c \<in> set (lv_clients w)" "lc_open c" "frame_for site room f ex sender ms c = Some g" for c g ms
  proof (cases "lc_room c = Some room")
    case True
    then have "g = redacted f" using c(3) by (auto simp: frame_for_def split: if_splits)
    moreover have "shows_within (A (lc_user c)) f"
      using f tied_client[OF w c(1,2) True] by (auto simp: shows_within_def)
    ultimately show ?thesis by simp
  next
    case False
    then show ?thesis using c(3) by (auto simp: frame_for_def split: if_splits)
  qed
  then show ?thesis unfolding broadcast_def
    by (intro tied_push_frame tied_deliver[OF tied_mirror[OF w]]) auto
qed

lemma tied_reply:
  assumes "tied A U n b w" "\<And>c. c \<in> set (lv_clients w) \<Longrightarrow> lc_id c = cid \<Longrightarrow> lc_open c \<Longrightarrow> shows_within (A (lc_user c)) f"
  shows "tied A U n b (reply cid f w)"
  unfolding reply_def using assms by (auto intro!: tied_deliver split: if_splits)

lemma client_ofD: "client_of cid w = Some c \<Longrightarrow> c \<in> set (lv_clients w) \<and> lc_id c = cid"
  by (auto simp: client_of_def tbl_get_def dest: find_SomeD)

lemma same_client:
  assumes "tied A U n b w" "client_of cid w = Some c" "d \<in> set (lv_clients w)" "lc_id d = cid"
  shows "d = c"
proof -
  have "distinct (map lc_id (lv_clients w))" using assms(1) by (simp add: tied_def)
  moreover have "c \<in> set (lv_clients w)" "lc_id c = cid" using client_ofD[OF assms(2)] by auto
  ultimately show ?thesis using assms(3,4) by (metis distinct_map inj_on_def)
qed

lemma tied_unbind:
  assumes w: "tied A U n b w" shows "tied A U n b (unbind_client_from_room site cid room now w)"
proof (cases "client_of cid w")
  case None
  then show ?thesis using w by (simp add: unbind_client_from_room_def)
next
  case (Some c)
  show ?thesis
  proof (cases "lc_room c = Some room")
    case False
    then show ?thesis using w Some by (simp add: unbind_client_from_room_def)
  next
    case True
    let ?w1 = "on_client cid (\<lambda>c. c\<lparr>lc_room := None, lc_thread := None\<rparr>) w"
    have w1: "tied A U n b ?w1" by (rule tied_on_client[OF w]) auto
    have w2: "tied A U n b (reply cid (FError (Some room) ''Access denied'' None) ?w1)"
    proof (rule tied_reply[OF w1])
      fix d assume d: "d \<in> set (lv_clients ?w1)" "lc_id d = cid" "lc_open d"
      then obtain e where e: "e \<in> set (lv_clients w)" "lc_id e = cid" "d = e\<lparr>lc_room := None, lc_thread := None\<rparr>"
        by (auto simp: on_client_def tbl_update_def split: if_splits)
      then have "e = c" using same_client[OF w Some] by blast
      then show "shows_within (A (lc_user d)) (FError (Some room) ''Access denied'' None)"
        using tied_client[OF w e(1) _ _] e d True by auto
    qed
    show ?thesis using Some True
      by (auto simp: unbind_client_from_room_def Let_def rooms_shown_def intro!: tied_broadcast w2)
  qed
qed

lemma tied_mark_room_read:
  assumes w: "tied A U n b w" and r: "r \<noteq> [] \<longrightarrow> A u r"
  shows "tied A U n b (mark_room_read_for_user u r ts og w)"
  unfolding mark_room_read_for_user_def
proof (rule tied_deliver)
  show "tied A U n b (w\<lparr>lv_db := mark_room_read u r ts (lv_db w)\<rparr>)"
    by (rule tied_same[OF w]) (simp_all add: reach_key_def mark_room_read_def)
qed (use r in \<open>auto split: if_splits\<close>)

lemma tied_mark_thread: "tied A U n b w \<Longrightarrow> tied A U n b (mark_thread u r th ts w)"
  by (rule tied_same) (simp_all add: mark_thread_def reach_key_def mark_thread_read_def)

section \<open>The frames of a client\<close>

text \<open>What the steps below need of the relation: ids name one user, and it holds wherever the tables give access.\<close>

definition audit ::
  "live_site \<Rightarrow> (string \<Rightarrow> string \<Rightarrow> bool) \<Rightarrow> (string \<times> string) set \<Rightarrow> live_state \<Rightarrow> bool" where
  "audit site A U b = (mg_api_ok (ls_api site) \<and> single_valued U \<and> (\<forall>u r. reaches site b u r \<longrightarrow> A u r))"

lemma audit_reaches:
  assumes "audit site A U b" "tied A U n b w" "reaches site w u r"
  shows "A u r"
  using assms reaches_key[of site w b] by (auto simp: audit_def tied_def)

lemma tied_reply_to:
  assumes "audit site A U b" "tied A U n b w" "(cid, u) \<in> U" "shows_within (A u) f"
  shows "tied A U n b (reply cid f w)"
proof (rule tied_reply[OF assms(2)])
  fix c assume "c \<in> set (lv_clients w)" "lc_id c = cid"
  then have "(cid, lc_user c) \<in> U" using assms(2) by (auto simp: tied_def)
  then have "lc_user c = u" using assms(1,3) by (auto simp: audit_def single_valued_def)
  then show "shows_within (A (lc_user c)) f" using assms(4) by simp
qed

lemma tied_quiet_reply: "tied A U n b w \<Longrightarrow> (\<And>A. shows_within A f) \<Longrightarrow> tied A U n b (reply cid f w)"
  by (rule tied_reply)

lemma tied_db:
  assumes "tied A U n b w" "c_groups db = c_groups (lv_db w)" "c_wirings db = c_wirings (lv_db w)" "c_agents db = c_agents (lv_db w)"
  shows "tied A U n b (w\<lparr>lv_db := db\<rparr>)"
  by (rule tied_same[OF assms(1)]) (use assms(2-) in \<open>simp_all add: reach_key_def\<close>)

lemma client_in_U: "tied A U n b w \<Longrightarrow> client_of cid w = Some c \<Longrightarrow> (cid, lc_user c) \<in> U"
  by (auto simp: tied_def dest: client_ofD)

lemma tied_current_room:
  assumes "tied A U n b w"
    and k: "\<And>room. lc_room c = Some room \<Longrightarrow> room \<noteq> [] \<Longrightarrow> reaches site w (lc_user c) room \<Longrightarrow> tied A U n b (k room w)"
  shows "tied A U n b (in_current_room site c now w k)"
  using assms tied_unbind[OF assms(1)]
  by (auto simp: in_current_room_def current_room_def truthy_def split: option.splits)

lemma annotated_reached: "v \<in> set (annotate_rooms_for_user site u rooms w) \<Longrightarrow> reaches site w u (r_id (rv_room v))"
  by (auto simp: annotate_rooms_for_user_def filter_rooms_for_user_def filter_async_eq room_view_for_def Let_def reaches_def)

lemma shows_annotated:
  assumes "audit site A U b" "tied A U n b w"
  shows "shows_within (A u) (FRooms (annotate_rooms_for_user site u rooms w))"
  using audit_reaches[OF assms] annotated_reached by (fastforce simp: shows_within_def rooms_shown_def)

lemma tied_auth:
  assumes a: "audit site A U b" and w: "tied A U n b w" and c: "client_of cid w = Some c"
  shows "tied A U n b (frame_auth site c now w)"
proof -
  have cid: "lc_id c = cid" using client_ofD[OF c] by simp
  have "tied A U n b (on_client cid (\<lambda>c. c\<lparr>lc_auth := True\<rparr>) w)"
    by (rule tied_on_client[OF w]) (use tied_client[OF w] in auto)
  then have "tied A U n b (reply cid (FSystem None x) (on_client cid (\<lambda>c. c\<lparr>lc_auth := True\<rparr>) w))" for x
    by (rule tied_quiet_reply) simp
  from tied_reply_to[OF a this client_in_U[OF w c] shows_annotated[OF a this]]
  show ?thesis by (simp add: frame_auth_def Let_def cid)
qed

lemma history_rooms:
  "set (rooms_shown (FHistory room th t (shown_history site room th' w))) \<subseteq> {room}"
proof -
  have "m_room m = room" if "m \<in> set (get_webchat_messages room n (Some th') db)" for m n db
    using that by (auto simp: get_webchat_messages_def newest_def in_scope_def dest!: in_set_takeD)
  then show ?thesis by (auto simp: rooms_shown_def shown_history_def with_limit_retries_def Let_def)
qed

lemma tied_replay:
  assumes a: "audit site A U b" and "tied A U n b w" and U: "(cid, u) \<in> U" and r: "room \<noteq> [] \<longrightarrow> A u room"
  shows "tied A U n b (replay_turns cid room w)"
proof -
  have "tied A U n b (fold (\<lambda>x. reply cid (FStatus room (if x = [] then None else Some x) ''start'')) xs v)"
    if "tied A U n b v" for xs v
    using that
  proof (induction xs arbitrary: v)
    case (Cons x xs)
    have "tied A U n b (reply cid (FStatus room (if x = [] then None else Some x) ''start'') v)"
      by (rule tied_reply_to[OF a Cons.prems U]) (simp add: r)
    then show ?case unfolding fold_Cons comp_apply by (rule Cons.IH)
  qed simp
  then show ?thesis using assms(2) by (simp add: replay_turns_def)
qed

lemma tied_enter:
  assumes a: "audit site A U b" and w: "tied A U n b w" and c: "client_of cid w = Some c" and r: "room \<noteq> [] \<longrightarrow> A (lc_user c) room"
  shows "tied A U n b (enter_room site c room th now w)"
proof -
  have cid: "lc_id c = cid" and U: "(cid, lc_user c) \<in> U" using client_ofD[OF c] client_in_U[OF w c] by auto
  let ?w1 = "on_client cid (\<lambda>c. c\<lparr>lc_room := Some room, lc_thread := Some th\<rparr>) w"
  have w1: "tied A U n b ?w1"
    by (rule tied_on_client[OF w]) (use r same_client[OF w c] in auto)
  let ?w2 = "mark_thread (lc_user c) room th now (mark_room_read_for_user (lc_user c) room now (Some cid) ?w1)"
  have w2: "tied A U n b ?w2" by (intro tied_mark_thread tied_mark_room_read w1 r)
  have w3: "tied A U n b (reply cid (FHistory room th t (shown_history site room th ?w2)) ?w2)" for t
    by (rule tied_reply_to[OF a w2 U]) (use history_rooms r in \<open>fastforce simp: shows_within_def\<close>)
  show ?thesis unfolding enter_room_def Let_def cid
    by (intro tied_replay[OF a _ U r] tied_broadcast w3) (auto simp: rooms_shown_def)
qed

lemma tied_join:
  assumes a: "audit site A U b" and w: "tied A U n b w" and c: "client_of cid w = Some c"
  shows "tied A U n b (frame_join site c f now w)"
  unfolding frame_join_def Let_def
  by (auto intro!: tied_quiet_reply tied_enter[OF a w c] w intro: audit_reaches[OF a w] split: option.split)

lemma tied_read:
  assumes a: "audit site A U b" and w: "tied A U n b w"
  shows "tied A U n b (frame_read site c f now w)"
  unfolding frame_read_def Let_def
  by (auto intro!: tied_mark_thread tied_mark_room_read w intro: audit_reaches[OF a w] split: option.split)

lemma tied_typing: "tied A U n b w \<Longrightarrow> tied A U n b (frame_typing site c f now w)"
  unfolding frame_typing_def by (rule tied_current_room) (auto intro!: tied_broadcast simp: rooms_shown_def)

lemma tied_interrupt: "tied A U n b w \<Longrightarrow> tied A U n b (frame_interrupt site c f now w)"
  unfolding frame_interrupt_def
  by (rule tied_current_room) (auto intro: tied_same simp: interrupt_room_sessions_def Let_def split: option.split)

lemma delete_webchat_access:
  "delete_webchat_message mid u room lg db = (g, db') \<Longrightarrow> c_groups db' = c_groups db \<and> c_wirings db' = c_wirings db \<and> c_agents db' = c_agents db"
  by (auto simp: delete_webchat_message_def)

lemma tied_delete: "tied A U n b w \<Longrightarrow> tied A U n b (frame_delete site c f now w)"
  unfolding frame_delete_def Let_def
  by (auto intro!: tied_quiet_reply tied_current_room tied_broadcast tied_db simp: rooms_shown_def dest: delete_webchat_access
      split: prod.split)

section \<open>Storing and sending\<close>

lemma resolve_access:
  "resolve_bounded_thread api room th now db = (t, db') \<Longrightarrow> c_groups db' = c_groups db \<and> c_wirings db' = c_wirings db \<and> c_agents db' = c_agents db"
  by (auto simp: resolve_bounded_thread_def ensure_agent_thread_def ensure_thread_def Let_def split: if_splits option.splits)

lemma tied_not_sent: "tied A U n b w \<Longrightarrow> tied A U n b (not_sent cid key w)"
  by (auto simp: not_sent_def release_client_id_def intro!: tied_quiet_reply intro: tied_same)

lemma tied_echo_stored:
  assumes a: "audit site A U b" and w: "tied A U n b w" and U: "(lc_id c, lc_user c) \<in> U"
    and m: "m_room m = room" and r: "room \<noteq> [] \<longrightarrow> A (lc_user c) room"
  shows "tied A U n b (echo_stored site c room key m now w)"
proof -
  let ?w1 = "mark_thread (lc_user c) room (m_thread m) (m_at m) (mark_room_read_for_user (lc_user c) room (m_at m) (Some (lc_id c)) w)"
  have "tied A U n b (broadcast site room (FMessage m key) (Some (lc_id c)) (Some (lc_user c)) now ?w1)"
    by (intro tied_broadcast tied_mark_thread tied_mark_room_read w r) (simp add: rooms_shown_def m)
  then have "tied A U n b (broadcast site room (FMessage m key) (Some (lc_id c)) (Some (lc_user c)) now ?w1\<lparr>lv_inbound := i\<rparr>)" for i
    by (rule tied_same) simp_all
  then show ?thesis unfolding echo_stored_def Let_def
    by (intro tied_reply_to[OF a _ U]) (use m r in auto)
qed

lemma tied_store_and_send:
  assumes a: "audit site A U b" and w: "tied A U n b w" and U: "(lc_id c, lc_user c) \<in> U" and r: "room \<noteq> [] \<longrightarrow> A (lc_user c) room"
  shows "tied A U n b (store_and_send site c f body res uuid now room w)"
proof -
  obtain th db1 where t: "resolve_bounded_thread (ls_api site) room (text_of ''thread_id'' f) now (lv_db w) = (th, db1)"
    by fastforce
  have w1: "tied A U n b (w\<lparr>lv_db := db1\<rparr>)" and w2: "tied A U n b (w\<lparr>lv_db := put_message m db1\<rparr>)" for m
    by (rule tied_db[OF w]; simp add: put_message_def resolve_access[OF t])+
  show ?thesis using t
    by (auto simp: store_and_send_def Let_def store_webchat_message_def intro!: tied_not_sent w w1 tied_echo_stored[OF a w2 U _ r])
qed

lemma claim_same: "claim_client_id i now w = (ok, w') \<Longrightarrow> \<exists>s. w' = w\<lparr>lv_seen := s\<rparr>"
  by (auto simp: claim_client_id_def Let_def split: option.splits if_splits intro: exI[of _ "lv_seen w"])

lemma tied_message:
  assumes a: "audit site A U b" and w: "tied A U n b w" and c: "client_of cid w = Some c"
  shows "tied A U n b (frame_message site c f res uuid now w)"
proof -
  have U: "(lc_id c, lc_user c) \<in> U" using client_in_U[OF w c] client_ofD[OF c] by simp
  have "tied A U n b (store_and_send site c f body res uuid now room (w\<lparr>lv_seen := s\<rparr>))"
    and "tied A U n b (store_and_send site c f body res uuid now room w)"
    if "reaches site w (lc_user c) room" for body room s
    using tied_store_and_send[OF a _ U] audit_reaches[OF a w that] w tied_same[OF w, of "w\<lparr>lv_seen := s\<rparr>"] by auto
  moreover have "tied A U n b (w\<lparr>lv_seen := s\<rparr>)" for s by (rule tied_same[OF w]) simp_all
  ultimately show ?thesis unfolding frame_message_def Let_def
    by (auto intro!: tied_quiet_reply tied_current_room w split: prod.split bool.split dest!: claim_same)
qed

lemma tied_handle_frame:
  assumes a: "audit site A U b" and w: "tied A U n b w"
  shows "tied A U n b (handle_frame site cid raw res uuid now w)"
proof (cases "client_of cid w")
  case None
  then show ?thesis using w by (simp add: handle_frame_def)
next
  case (Some c)
  show ?thesis unfolding handle_frame_def Let_def Some option.case
    using tied_auth[OF a w Some] tied_join[OF a w Some] tied_read[OF a w] tied_message[OF a w Some] tied_typing[OF w]
      tied_interrupt[OF w] tied_delete[OF w] tied_quiet_reply[OF w] w
    by (auto split: option.split)
qed

section \<open>Connections\<close>

lemma tied_closed:
  assumes w: "tied A U n b w" shows "tied A U n b (closed_socket site cid now w)"
proof -
  have w1: "tied A U n b (snd (remove_client cid w))"
    using w by (auto simp: tied_def remove_client_def tbl_delete_def distinct_map_filter)
  then show ?thesis unfolding closed_socket_def Let_def
    by (auto split: prod.split option.split intro!: tied_broadcast simp: rooms_shown_def)
qed

lemma tied_keepalive:
  assumes "tied A U n b w" shows "tied A U n b (keepalive w)"
proof -
  have "map lc_id (map (\<lambda>c. c\<lparr>lc_alive := False\<rparr>) cs) = map lc_id cs" for cs by simp
  then show ?thesis using assms by (auto simp: tied_def keepalive_def distinct_map_filter comp_def)
qed

lemma tied_pong: "tied A U n b w \<Longrightarrow> tied A U n b (pong cid w)"
  unfolding pong_def by (rule tied_on_client) (auto dest: tied_client)

lemma tied_socket_ends: "tied A U n b w \<Longrightarrow> tied A U n b (socket_ends cid w)"
  unfolding socket_ends_def by (rule tied_on_client) auto

lemma tied_to_user:
  assumes "tied A U n b w" "\<And>A. shows_within A f" shows "tied A U n b (snd (push_to_user u f w))"
  using assms by (auto simp: push_to_user_def intro!: tied_deliver split: if_splits)

lemma tied_surface: "tied A U n b w \<Longrightarrow> tied A U n b (surface_a2a_message site x y raw p placed pay uuid now w)"
proof -
  have st: "tied A U n b (surface_in_room site th nm body uuid now room v)" if "tied A U n b v" for th nm body room v
    unfolding surface_in_room_def store_webchat_a2a_message_def Let_def prod.case
    by (intro tied_broadcast tied_db[OF that]) (simp_all add: put_message_def rooms_shown_def)
  have "tied A U n b (fold (surface_in_room site th nm body uuid now) rs v)" if "tied A U n b v" for th nm body rs v
    using that by (induction rs arbitrary: v) (simp_all add: st)
  then show "tied A U n b w \<Longrightarrow> ?thesis" by (simp add: surface_a2a_message_def Let_def)
qed

section \<open>Room lists and what they end\<close>

lemma send_message_clients [simp]: "lv_clients (push_frame site room f ex sender now w) = lv_clients w"
  by (simp add: push_frame_def send_push_for_message_def Let_def split: frame.split)

lemma broadcast_clients [simp]: "lv_clients (broadcast site room f ex sender now w) = lv_clients w"
  by (simp add: broadcast_def)

lemma reply_clients [simp]: "lv_clients (reply cid f w) = lv_clients w"
  by (simp add: reply_def)

lemma unbind_clients: "d \<in> set (lv_clients (unbind_client_from_room site cid room now w))
  \<Longrightarrow> d \<in> set (lv_clients w) \<and> (lc_id d = cid \<longrightarrow> client_of cid w = None \<or> lc_room (the (client_of cid w)) \<noteq> Some room)
    \<or> (lc_room d = None)"
  by (auto simp: unbind_client_from_room_def Let_def on_client_def tbl_update_def split: option.splits if_splits)

lemma unbind_ids [simp]: "map lc_id (lv_clients (unbind_client_from_room site cid room now w)) = map lc_id (lv_clients w)"
  by (auto simp: unbind_client_from_room_def Let_def on_client_def tbl_update_def split: option.split)

lemma send_rooms_ids [simp]: "map lc_id (lv_clients (send_rooms site now all cid w)) = map lc_id (lv_clients w)"
  by (simp add: send_rooms_def Let_def split: option.split)

lemma tied_send_rooms:
  assumes a: "audit site A U b" and w: "tied A U n b w"
  shows "tied A U n b (send_rooms site now all cid w)"
proof (cases "client_of cid w")
  case None
  then show ?thesis using w by (simp add: send_rooms_def)
next
  case (Some c)
  have "tied A U n b (reply cid (FRooms (annotate_rooms_for_user site (lc_user c) all w)) w)"
    by (rule tied_reply_to[OF a w client_in_U[OF w Some] shows_annotated[OF a w]])
  with Some w show ?thesis by (auto simp: send_rooms_def Let_def intro: tied_unbind)
qed

definition admitted :: "live_site \<Rightarrow> live_state \<Rightarrow> live_client \<Rightarrow> bool" where
  "admitted site b c = (lc_open c \<longrightarrow> (\<forall>r. lc_room c = Some r \<longrightarrow> r \<noteq> [] \<longrightarrow> reaches site b (lc_user c) r))"

lemma send_rooms_admits:
  assumes a: "audit site A U b" and w: "tied A U n b w" and d: "d \<in> set (lv_clients (send_rooms site now all cid w))"
    and other: "lc_id d \<noteq> cid \<Longrightarrow> d \<in> set (lv_clients w) \<Longrightarrow> admitted site b d"
  shows "admitted site b d"
proof (cases "client_of cid w")
  case None
  then have m: "d \<in> set (lv_clients w)" using d by (simp add: send_rooms_def)
  moreover have "lc_id d \<noteq> cid" using None m by (auto simp: client_of_def tbl_get_def find_None_iff)
  ultimately show ?thesis using other by blast
next
  case (Some c)
  let ?w1 = "reply cid (FRooms (annotate_rooms_for_user site (lc_user c) all w)) w"
  have own: "d = c" if "d \<in> set (lv_clients w)" "lc_id d = cid" using same_client[OF w Some that] .
  have reach: "reaches site b = reaches site w" using reaches_key[of site w b] a w by (auto simp: audit_def tied_def)
  have c1: "client_of cid ?w1 = Some c" using Some by (simp add: client_of_def)
  show ?thesis
  proof (cases "lc_open c \<and> truthy (lc_room c)
      \<and> the (lc_room c) \<notin> set (map (\<lambda>v. r_id (rv_room v)) (annotate_rooms_for_user site (lc_user c) all w))")
    case True
    then have "d \<in> set (lv_clients (unbind_client_from_room site cid (the (lc_room c)) now ?w1))"
      using d Some by (simp add: send_rooms_def Let_def)
    from unbind_clients[OF this] c1 True other show ?thesis by (auto simp: admitted_def truthy_def split: option.splits)
  next
    case False
    have m: "d \<in> set (lv_clients w)" using d Some False by (auto simp: send_rooms_def Let_def split: if_splits)
    show ?thesis
    proof (cases "lc_id d = cid")
      case True
      then show ?thesis using own[OF m] False annotated_reached[of _ site "lc_user c" all w]
        by (auto simp: admitted_def truthy_def reach)
    qed (use m other in blast)
  qed
qed

lemma tied_broadcast_rooms:
  assumes a: "audit site A U b" and w: "tied A U n b w"
  shows "tied A U n b (broadcast_rooms site now w)"
    "\<And>c. c \<in> set (lv_clients (broadcast_rooms site now w)) \<Longrightarrow> admitted site b c"
proof -
  let ?all = "get_all_webchat_rooms now (lv_db w)"
  have "tied A U n b (fold (send_rooms site now ?all) ids v)
      \<and> map lc_id (lv_clients (fold (send_rooms site now ?all) ids v)) = map lc_id (lv_clients v)
      \<and> (\<forall>c \<in> set (lv_clients (fold (send_rooms site now ?all) ids v)). lc_id c \<in> S \<union> set ids \<longrightarrow> admitted site b c)"
    if "tied A U n b v" "\<forall>c \<in> set (lv_clients v). lc_id c \<in> S \<longrightarrow> admitted site b c" for ids S v
    using that
  proof (induction ids arbitrary: v S)
    case (Cons i ids)
    let ?v = "send_rooms site now ?all i v"
    have "\<forall>c \<in> set (lv_clients ?v). lc_id c \<in> insert i S \<longrightarrow> admitted site b c"
    proof (intro ballI impI)
      fix d assume d: "d \<in> set (lv_clients ?v)" "lc_id d \<in> insert i S"
      show "admitted site b d" by (rule send_rooms_admits[OF a Cons.prems(1) d(1)]) (use d(2) Cons.prems(2) in auto)
    qed
    from Cons.IH[OF tied_send_rooms[OF a Cons.prems(1)] this] show ?case by auto
  qed simp
  from this[OF w, of "{}" "map lc_id (lv_clients w)"]
  have all: "tied A U n b (broadcast_rooms site now w)"
    "map lc_id (lv_clients (broadcast_rooms site now w)) = map lc_id (lv_clients w)"
    "\<forall>c \<in> set (lv_clients (broadcast_rooms site now w)). lc_id c \<in> set (map lc_id (lv_clients w)) \<longrightarrow> admitted site b c"
    by (simp_all add: broadcast_rooms_def)
  then show "tied A U n b (broadcast_rooms site now w)" by simp
  fix c assume "c \<in> set (lv_clients (broadcast_rooms site now w))"
  with all show "admitted site b c" by (metis image_eqI set_map)
qed

end
