(* ===== verification/RoomRoutes.thy ===== *)
theory RoomRoutes
  imports LiveClients SignInAdmin
begin

text \<open>
  The routes that make, change and delete rooms (\<open>channels/webchat/server/routes-rooms.ts\<close>), with the guard on a room
  (\<open>server/route-guards.ts\<close>) and the creation of a bare agent (\<open>server/agent-wiring.ts\<close>). A body that is not JSON is \<open>None\<close>;
  reading a field of \<open>null\<close> raises. Removing directories and stopping containers after a deletion are not
  modelled; the guards of the route table are applied where the table names them.
\<close>

datatype room_refusal = GuardRefused perm_refusal | RoomNotFound | AccessDenied | ArchiveAdminOnly | AdminRequired
  | OwnerNeeded | NotJson | BadOrder | BadMode | BadName | BadTitle | BadAllowed | MainThreadStays | ThreadNotFound
  | AgentIdRequired | AgentNotWired | NoAgent string | LastAgent | BadRef | NameRequired | AgentsRequired
  | NoRoomId | RoomExists | NoFolder | FolderTaken | NotWired | NotCreated

datatype room_reply = ROk | RRefused nat room_refusal | RThrew

type_synonym room_result = "room_reply \<times> live_state"

text \<open>Reading the body of a request, after the checks that precede it.\<close>

definition room_body :: "jval option \<Rightarrow> live_state \<Rightarrow> (jval \<Rightarrow> room_result) \<Rightarrow> room_result" where
  "room_body body w f = (case body of
     None \<Rightarrow> (RRefused 400 NotJson, w)
   | Some b \<Rightarrow> (if b = VNull then (RThrew, w) else f b))"

definition room_exists :: "live_site \<Rightarrow> string \<Rightarrow> millis \<Rightarrow> live_state \<Rightarrow> bool" where
  "room_exists site room now w = (get_webchat_room (ls_api site) room now (lv_db w) \<noteq> None)"

definition require_room_access ::
  "live_site \<Rightarrow> string \<Rightarrow> string \<Rightarrow> millis \<Rightarrow> live_state \<Rightarrow> room_result \<Rightarrow> room_result" where
  "require_room_access site u room now w k =
     (if \<not> room_exists site room now w then (RRefused 404 RoomNotFound, w)
      else if \<not> reaches site w u room then (RRefused 403 AccessDenied, w) else k)"

definition guarded ::
  "bool \<Rightarrow> string \<Rightarrow> route_guard list \<Rightarrow> live_state \<Rightarrow> room_result \<Rightarrow> room_result" where
  "guarded csrf u gs w k = (case guards_refuse csrf u (pd_roles (lv_perm w)) gs of
     Some e \<Rightarrow> (RRefused 403 (GuardRefused e), w) | None \<Rightarrow> k)"

text \<open>What a change of the database is followed by: every client is sent its room list again.\<close>

definition rooms_changed :: "live_site \<Rightarrow> millis \<Rightarrow> chat_db \<Rightarrow> live_state \<Rightarrow> room_result" where
  "rooms_changed site now db w = (ROk, broadcast_rooms site now (w\<lparr>lv_db := db\<rparr>))"

section \<open>Archive, hide, pin, rename\<close>

definition r_room_archive_post ::
  "live_site \<Rightarrow> bool \<Rightarrow> string \<Rightarrow> string \<Rightarrow> bool \<Rightarrow> millis \<Rightarrow> live_state \<Rightarrow> room_result" where
  "r_room_archive_post site csrf u room on now w = guarded csrf u [Csrf] w
     (if \<not> room_exists site room now w then (RRefused 404 RoomNotFound, w)
      else if \<not> can_archive_room (ls_api site) (pd_roles (lv_perm w)) (lv_db w) u room then (RRefused 403 ArchiveAdminOnly, w)
      else rooms_changed site now (if on then archive_room room (Some u) now (lv_db w) else unarchive_room room (lv_db w)) w)"

definition r_room_hide_post ::
  "live_site \<Rightarrow> bool \<Rightarrow> string \<Rightarrow> string \<Rightarrow> bool \<Rightarrow> millis \<Rightarrow> live_state \<Rightarrow> room_result" where
  "r_room_hide_post site csrf u room on now w = guarded csrf u [Csrf] w (require_room_access site u room now w
     (rooms_changed site now (if on then hide_room_for_user u room now (lv_db w) else unhide_room_for_user u room (lv_db w)) w))"

definition r_room_pin_post ::
  "live_site \<Rightarrow> bool \<Rightarrow> string \<Rightarrow> string \<Rightarrow> bool \<Rightarrow> millis \<Rightarrow> live_state \<Rightarrow> room_result" where
  "r_room_pin_post site csrf u room on now w = guarded csrf u [Csrf] w (require_room_access site u room now w
     (rooms_changed site now (if on then pin_room_for_user u room now (lv_db w) else unpin_room_for_user u room (lv_db w)) w))"

definition string_items :: "jval option \<Rightarrow> string list option" where
  "string_items v = (case v of
     Some (VArr vs) \<Rightarrow> those (map (\<lambda>x. case x of VStr s \<Rightarrow> Some s | _ \<Rightarrow> None) vs) | _ \<Rightarrow> None)"

definition r_rooms_pins_order_post ::
  "live_site \<Rightarrow> bool \<Rightarrow> string \<Rightarrow> jval option \<Rightarrow> millis \<Rightarrow> live_state \<Rightarrow> room_result" where
  "r_rooms_pins_order_post site csrf u body now w = guarded csrf u [Csrf] w (room_body body w (\<lambda>b.
     case string_items (jfield ''order'' b) of
       None \<Rightarrow> (RRefused 400 BadOrder, w)
     | Some ids \<Rightarrow> rooms_changed site now (set_pinned_order_for_user u ids (lv_db w)) w))"

definition field_text :: "string \<Rightarrow> jval \<Rightarrow> string option" where
  "field_text k b = (case jfield k b of Some (VStr s) \<Rightarrow> Some s | _ \<Rightarrow> None)"

definition r_room_name_put ::
  "live_site \<Rightarrow> bool \<Rightarrow> string \<Rightarrow> string \<Rightarrow> jval option \<Rightarrow> millis \<Rightarrow> live_state \<Rightarrow> room_result" where
  "r_room_name_put site csrf u room body now w = guarded csrf u [Csrf, OwnerGuard] w
     (if \<not> room_exists site room now w then (RRefused 404 RoomNotFound, w)
      else room_body body w (\<lambda>b. case sanitize_room_name (field_text ''name'' b) of
        None \<Rightarrow> (RRefused 400 BadName, w)
      | Some name \<Rightarrow> rooms_changed site now (update_webchat_room_name room name (lv_db w)) w))"

section \<open>Room settings\<close>

definition r_room_engage_put ::
  "live_site \<Rightarrow> bool \<Rightarrow> string \<Rightarrow> string \<Rightarrow> jval option \<Rightarrow> millis \<Rightarrow> live_state \<Rightarrow> room_result" where
  "r_room_engage_put site csrf u room body now w = guarded csrf u [OwnerGuard, Csrf] w
     (if \<not> room_exists site room now w then (RRefused 404 RoomNotFound, w)
      else room_body body w (\<lambda>b.
        if field_text ''mode'' b \<noteq> Some ''mention-only'' then (RRefused 400 BadMode, w)
        else rooms_changed site now (recompute_engage_patterns (ls_api site) room (lv_db w))
               (w\<lparr>lv_settings := set_room_engage_default room ''mention-only'' now (lv_settings w)\<rparr>)))"

text \<open>An owner, or an admin over any agent wired to the room.\<close>

definition room_admin :: "live_site \<Rightarrow> string \<Rightarrow> string \<Rightarrow> live_state \<Rightarrow> bool" where
  "room_admin site u room w = (let rdb = pd_roles (lv_perm w) in is_owner u rdb
     \<or> some_async (get_agents_for_webchat_room (ls_api site) room (lv_db w)) (\<lambda>a _. has_admin_privilege u (ag_id a) rdb))"

definition r_room_cred_mode_put ::
  "live_site \<Rightarrow> bool \<Rightarrow> string \<Rightarrow> string \<Rightarrow> jval option \<Rightarrow> millis \<Rightarrow> live_state \<Rightarrow> room_result" where
  "r_room_cred_mode_put site csrf u room body now w = guarded csrf u [Csrf] w
     (if \<not> room_exists site room now w then (RRefused 404 RoomNotFound, w)
      else if \<not> room_admin site u room w then (RRefused 403 AdminRequired, w)
      else room_body body w (\<lambda>b.
        let mode = coalesce (field_text ''mode'' b) [] in
        if mode \<notin> {''inherit'', ''disabled'', ''optional'', ''required''} then (RRefused 400 BadMode, w)
        else (ROk, w\<lparr>lv_settings := set_room_mode_override room (if mode = ''inherit'' then None else Some mode) now
               (lv_settings w)\<rparr>)))"

definition r_room_oauth_put ::
  "live_site \<Rightarrow> bool \<Rightarrow> string \<Rightarrow> string \<Rightarrow> jval option \<Rightarrow> millis \<Rightarrow> live_state \<Rightarrow> room_result" where
  "r_room_oauth_put site csrf u room body now w = guarded csrf u [Csrf] w
     (if \<not> room_exists site room now w then (RRefused 404 RoomNotFound, w)
      else if \<not> room_admin site u room w then (RRefused 403 AdminRequired, w)
      else room_body body w (\<lambda>b. case jfield ''allowed'' b of
          Some (VBool on) \<Rightarrow> (ROk, w\<lparr>lv_settings := set_room_oauth_allowed room on now (lv_settings w)\<rparr>)
        | _ \<Rightarrow> (RRefused 400 BadAllowed, w)))"

section \<open>Threads\<close>

definition r_room_thread_read_put ::
  "live_site \<Rightarrow> bool \<Rightarrow> string \<Rightarrow> string \<Rightarrow> string \<Rightarrow> millis \<Rightarrow> live_state \<Rightarrow> room_result" where
  "r_room_thread_read_put site csrf u room th now w = guarded csrf u [Csrf] w (require_room_access site u room now w
     (ROk, w\<lparr>lv_db := mark_thread_read u room th now (lv_db w)\<rparr>))"

definition r_room_threads_get :: "live_site \<Rightarrow> string \<Rightarrow> string \<Rightarrow> millis \<Rightarrow> live_state \<Rightarrow> room_result" where
  "r_room_threads_get site u room now w = require_room_access site u room now w
     (ROk, w\<lparr>lv_db := ensure_main_thread room now (lv_db w)\<rparr>)"

definition r_room_threads_post ::
  "live_site \<Rightarrow> bool \<Rightarrow> string \<Rightarrow> string \<Rightarrow> jval option \<Rightarrow> string \<Rightarrow> millis \<Rightarrow> live_state \<Rightarrow> room_result" where
  "r_room_threads_post site csrf u room body uuid now w = guarded csrf u [Csrf] w (require_room_access site u room now w
     (room_body body w (\<lambda>b. case sanitize_thread_title (field_text ''title'' b) of
        None \<Rightarrow> (RRefused 400 BadTitle, w)
      | Some title \<Rightarrow> rooms_changed site now (snd (create_webchat_thread room title uuid now (lv_db w))) w)))"

definition r_room_thread_patch ::
  "live_site \<Rightarrow> bool \<Rightarrow> string \<Rightarrow> string \<Rightarrow> string \<Rightarrow> jval option \<Rightarrow> millis \<Rightarrow> live_state \<Rightarrow> room_result" where
  "r_room_thread_patch site csrf u room th body now w = guarded csrf u [Csrf] w (require_room_access site u room now w
     (if get_webchat_thread room th (lv_db w) = None then (RRefused 404 ThreadNotFound, w)
      else room_body body w (\<lambda>b. case sanitize_thread_title (field_text ''title'' b) of
        None \<Rightarrow> (RRefused 400 BadTitle, w)
      | Some title \<Rightarrow> (ROk, w\<lparr>lv_db := rename_webchat_thread room th title now (lv_db w)\<rparr>))))"

section \<open>Sessions that go with what is deleted\<close>

text \<open>
  \<open>src/app/src/session-teardown.ts\<close>, the part inside the transaction. Questions and approvals pending in a session,
  which go with it, are not modelled.
\<close>

definition find_sessions_by_messaging_group :: "string \<Rightarrow> chat_db \<Rightarrow> session_row list" where
  "find_sessions_by_messaging_group gid db = filter (\<lambda>s. ss_mg s = gid) (c_sessions db)"

definition find_sessions_by_thread :: "string \<Rightarrow> string \<Rightarrow> chat_db \<Rightarrow> session_row list" where
  "find_sessions_by_thread gid th db = filter (\<lambda>s. ss_mg s = gid \<and> ss_thread s = Some th) (c_sessions db)"

definition delete_session_db_state :: "string \<Rightarrow> chat_db \<Rightarrow> chat_db" where
  "delete_session_db_state i db = db\<lparr>c_sessions := tbl_delete (\<lambda>s. ss_id s = i) (c_sessions db)\<rparr>"

definition delete_sessions :: "session_row list \<Rightarrow> chat_db \<Rightarrow> chat_db" where
  "delete_sessions ss = fold (\<lambda>s. delete_session_db_state (ss_id s)) ss"

definition delete_thread_handler :: "live_site \<Rightarrow> string \<Rightarrow> string \<Rightarrow> millis \<Rightarrow> live_state \<Rightarrow> room_result" where
  "delete_thread_handler site room th now w =
     (let ss = (case api_lookup (ls_api site) webchat room (lv_db w) of None \<Rightarrow> []
        | Some g \<Rightarrow> find_sessions_by_thread (mg_id g) th (lv_db w))
      in rooms_changed site now (delete_webchat_thread room th (delete_sessions ss (lv_db w))) w)"

definition r_room_thread_delete ::
  "live_site \<Rightarrow> bool \<Rightarrow> string \<Rightarrow> string \<Rightarrow> string \<Rightarrow> millis \<Rightarrow> live_state \<Rightarrow> room_result" where
  "r_room_thread_delete site csrf u room th now w = guarded csrf u [Csrf, OwnerGuard] w
     (if \<not> room_exists site room now w then (RRefused 404 RoomNotFound, w)
      else if th = MAIN_THREAD then (RRefused 400 MainThreadStays, w)
      else if get_webchat_thread room th (lv_db w) = None then (RRefused 404 ThreadNotFound, w)
      else delete_thread_handler site room th now w)"

definition delete_room_handler :: "live_site \<Rightarrow> string \<Rightarrow> millis \<Rightarrow> live_state \<Rightarrow> room_result" where
  "delete_room_handler site room now w =
     (if \<not> room_exists site room now w then (RRefused 404 RoomNotFound, w)
      else (let ss = (case api_lookup (ls_api site) webchat room (lv_db w) of None \<Rightarrow> []
              | Some g \<Rightarrow> find_sessions_by_messaging_group (mg_id g) (lv_db w))
            in rooms_changed site now (delete_webchat_room (ls_api site) room (delete_sessions ss (lv_db w))) w))"

definition r_room_id_delete :: "live_site \<Rightarrow> bool \<Rightarrow> string \<Rightarrow> string \<Rightarrow> millis \<Rightarrow> live_state \<Rightarrow> room_result" where
  "r_room_id_delete site csrf u room now w =
     guarded csrf u [OwnerGuard, Csrf] w (delete_room_handler site room now w)"

section \<open>The prime agent\<close>

definition set_room_prime_handler :: "live_site \<Rightarrow> string \<Rightarrow> string \<Rightarrow> millis \<Rightarrow> live_state \<Rightarrow> room_result" where
  "set_room_prime_handler site room agent now w =
     (if \<not> room_exists site room now w then (RRefused 404 RoomNotFound, w)
      else if \<not> list_ex (\<lambda>a. ag_id a = agent) (get_agents_for_webchat_room (ls_api site) room (lv_db w))
      then (RRefused 400 NotWired, w)
      else rooms_changed site now (recompute_engage_patterns (ls_api site) room (set_prime_agent room agent now (lv_db w))) w)"

definition clear_room_prime_handler :: "live_site \<Rightarrow> string \<Rightarrow> millis \<Rightarrow> live_state \<Rightarrow> room_result" where
  "clear_room_prime_handler site room now w =
     (if \<not> room_exists site room now w then (RRefused 404 RoomNotFound, w)
      else rooms_changed site now (recompute_engage_patterns (ls_api site) room (clear_prime_agent room (lv_db w))) w)"

definition r_room_prime_put ::
  "live_site \<Rightarrow> bool \<Rightarrow> string \<Rightarrow> string \<Rightarrow> jval option \<Rightarrow> millis \<Rightarrow> live_state \<Rightarrow> room_result" where
  "r_room_prime_put site csrf u room body now w = guarded csrf u [OwnerGuard, Csrf] w (room_body body w (\<lambda>b.
     let agent = js_trim (coalesce (field_text ''agentId'' b) []) in
     if agent = [] then (RRefused 400 AgentIdRequired, w) else set_room_prime_handler site room agent now w))"

definition r_room_prime_delete :: "live_site \<Rightarrow> bool \<Rightarrow> string \<Rightarrow> string \<Rightarrow> millis \<Rightarrow> live_state \<Rightarrow> room_result" where
  "r_room_prime_delete site csrf u room now w =
     guarded csrf u [OwnerGuard, Csrf] w (clear_room_prime_handler site room now w)"

section \<open>Taking an agent out of a room\<close>

definition remove_agent_handler :: "live_site \<Rightarrow> string \<Rightarrow> string \<Rightarrow> millis \<Rightarrow> live_state \<Rightarrow> room_result" where
  "remove_agent_handler site room agent now w =
     (let api = ls_api site in
      if \<not> room_exists site room now w then (RRefused 404 RoomNotFound, w)
      else if count_agents_for_webchat_room api room (lv_db w) \<le> 1 then (RRefused 400 LastAgent, w)
      else (case unwire_agent_from_webchat_room api room agent (lv_db w) of
          (False, db) \<Rightarrow> (RRefused 404 AgentNotWired, w\<lparr>lv_db := db\<rparr>)
        | (True, db) \<Rightarrow> rooms_changed site now (recompute_engage_patterns api room
            (if get_prime_agent room db = Some agent then clear_prime_agent room db else db)) w))"

definition r_room_agent_delete ::
  "live_site \<Rightarrow> bool \<Rightarrow> string \<Rightarrow> string \<Rightarrow> string \<Rightarrow> millis \<Rightarrow> live_state \<Rightarrow> room_result" where
  "r_room_agent_delete site csrf u room agent now w = guarded csrf u [Csrf] w
     (let rdb = pd_roles (lv_perm w) in
      if \<not> is_owner u rdb \<and> \<not> (reaches site w u room \<and> has_admin_privilege u agent rdb)
      then (RRefused 403 AdminRequired, w) else remove_agent_handler site room agent now w)"

section \<open>Putting agents into rooms\<close>

datatype agent_ref = Existing string | NewAgent string "string option" "string option"

text \<open>\<open>providers\<close> are the harnesses installed beside the built-in one.\<close>

definition parse_agent_ref :: "string list \<Rightarrow> jval \<Rightarrow> agent_ref option" where
  "parse_agent_ref providers v = (case v of
     VObj kvs \<Rightarrow>
       (let k = field_text ''kind'' v in
        if k = Some ''existing'' then
          (let i = js_trim (coalesce (field_text ''id'' v) []) in if i = [] then None else Some (Existing i))
        else if k = Some ''new'' then
          (let n = js_trim (coalesce (field_text ''name'' v) []) in
           if n = [] then None
           else (case jfield ''provider'' v of
               None \<Rightarrow> Some (NewAgent n (field_text ''instructions'' v) None)
             | Some (VStr p) \<Rightarrow> (if p \<in> set (''claude'' # providers)
                 then Some (NewAgent n (field_text ''instructions'' v) (Some p)) else None)
             | Some _ \<Rightarrow> None))
        else None)
   | _ \<Rightarrow> None)"

datatype bare_agent = Made agent_group chat_db | NotMade nat room_refusal | FilesFailed chat_db

definition create_bare_agent_group :: "live_site \<Rightarrow> string \<Rightarrow> string \<Rightarrow> chat_db \<Rightarrow> bare_agent" where
  "create_bare_agent_group site name new_id db =
     (let folder = name_to_folder name; g = \<lparr>ag_id = new_id, ag_name = name, ag_folder = folder\<rparr> in
      if folder = [] then NotMade 400 NoFolder
      else (case ls_new_agent site g db of
          None \<Rightarrow> NotMade 409 FolderTaken
        | Some db' \<Rightarrow> (if ls_agent_files site g then Made g db' else FilesFailed db')))"

definition rollback_bare_agents :: "live_site \<Rightarrow> string list \<Rightarrow> chat_db \<Rightarrow> chat_db" where
  "rollback_bare_agents site ids = fold (ls_drop_agent site) ids"

text \<open>\<open>uid\<close> draws the ids: of the room's group, the wirings and the new agents.\<close>

definition wire_into_room ::
  "live_site \<Rightarrow> string \<Rightarrow> string \<Rightarrow> string \<Rightarrow> (nat \<Rightarrow> string) \<Rightarrow> nat \<Rightarrow> millis \<Rightarrow> chat_db \<Rightarrow> chat_db option" where
  "wire_into_room site name room agent uid n now db =
     (case wire_agent_to_webchat_room (ls_api site) (ls_wire site) name room agent (uid n) (uid (n + 1)) (uid (n + 2)) now db of
        Inl _ \<Rightarrow> None | Inr (db', _) \<Rightarrow> Some db')"

definition add_wired ::
  "live_site \<Rightarrow> webchat_room \<Rightarrow> string \<Rightarrow> string list \<Rightarrow> (nat \<Rightarrow> string) \<Rightarrow> millis \<Rightarrow> chat_db \<Rightarrow> live_state \<Rightarrow> room_result" where
  "add_wired site r agent made uid now db w =
     (let api = ls_api site; room = r_id r; was_empty = (count_agents_for_webchat_room api room db = 0) in
      case wire_into_room site (r_name r) room agent uid 0 now db of
        None \<Rightarrow> (RRefused 500 NotCreated, w\<lparr>lv_db := rollback_bare_agents site made db\<rparr>)
      | Some db1 \<Rightarrow> rooms_changed site now
          (if was_empty then recompute_engage_patterns api room (set_prime_agent room agent now db1) else db1) w)"

definition r_room_agents_post ::
  "live_site \<Rightarrow> bool \<Rightarrow> string \<Rightarrow> string \<Rightarrow> jval option \<Rightarrow> (nat \<Rightarrow> string) \<Rightarrow> millis \<Rightarrow> live_state \<Rightarrow> room_result" where
  "r_room_agents_post site csrf u room body uid now w = guarded csrf u [Csrf] w
     (let rdb = pd_roles (lv_perm w); db = lv_db w in
      case get_webchat_room (ls_api site) room now db of
        None \<Rightarrow> (RRefused 404 RoomNotFound, w)
      | Some r \<Rightarrow> (case body of
          None \<Rightarrow> (RRefused 400 NotJson, w)
        | Some b \<Rightarrow> (case parse_agent_ref (ls_providers site) b of
            None \<Rightarrow> (RRefused 400 BadRef, w)
          | Some (Existing i) \<Rightarrow>
              (if tbl_get ag_id i (c_agents db) = None then (RRefused 404 (NoAgent i), w)
               else if \<not> is_owner u rdb \<and> \<not> (reaches site w u room \<and> has_admin_privilege u i rdb)
               then (RRefused 403 AdminRequired, w)
               else add_wired site r i [] uid now db w)
          | Some (NewAgent name instr prov) \<Rightarrow>
              (if \<not> is_owner u rdb then (RRefused 403 OwnerNeeded, w)
               else (case create_bare_agent_group site name (uid 3) db of
                   NotMade n e \<Rightarrow> (RRefused n e, w)
                 | FilesFailed db' \<Rightarrow> (RThrew, w\<lparr>lv_db := db'\<rparr>)
                 | Made g db' \<Rightarrow> add_wired site r (ag_id g) [ag_id g] uid now db' w)))))"

section \<open>Making a room\<close>

text \<open>Every reference of the body, checked before anything is made.\<close>

fun read_refs :: "live_site \<Rightarrow> chat_db \<Rightarrow> jval list \<Rightarrow> (nat \<times> room_refusal) + agent_ref list" where
  "read_refs site db [] = Inr []"
| "read_refs site db (v # vs) = (case parse_agent_ref (ls_providers site) v of
     None \<Rightarrow> Inl (400, BadRef)
   | Some p \<Rightarrow>
      (case (case p of Existing i \<Rightarrow> (if tbl_get ag_id i (c_agents db) = None then Some i else None) | _ \<Rightarrow> None) of
         Some i \<Rightarrow> Inl (404, NoAgent i)
       | None \<Rightarrow> (case read_refs site db vs of Inl e \<Rightarrow> Inl e | Inr ps \<Rightarrow> Inr (p # ps))))"

datatype new_agents = Ready "string list" "string list" chat_db | Refused nat room_refusal chat_db | Failed chat_db

text \<open>
  The new agents are made one after the other: \<open>made\<close> those so far, \<open>wire\<close> the agents to wire. Pinning a harness on
  a new agent's configuration is not modelled.
\<close>

fun make_agents ::
  "live_site \<Rightarrow> (nat \<Rightarrow> string) \<Rightarrow> nat \<Rightarrow> string list \<Rightarrow> string list \<Rightarrow> agent_ref list \<Rightarrow> chat_db \<Rightarrow> new_agents" where
  "make_agents site uid n made wire [] db = Ready made wire db"
| "make_agents site uid n made wire (Existing i # rs) db = make_agents site uid n made (wire @ [i]) rs db"
| "make_agents site uid n made wire (NewAgent name instr prov # rs) db =
     (case create_bare_agent_group site name (uid n) db of
        NotMade k e \<Rightarrow> Refused k e (rollback_bare_agents site made db)
      | FilesFailed db' \<Rightarrow> Failed db'
      | Made g db' \<Rightarrow> make_agents site uid (n + 1) (made @ [ag_id g]) (wire @ [ag_id g]) rs db')"

fun wire_all ::
  "live_site \<Rightarrow> string \<Rightarrow> string \<Rightarrow> (nat \<Rightarrow> string) \<Rightarrow> nat \<Rightarrow> millis \<Rightarrow> string list \<Rightarrow> chat_db \<Rightarrow> chat_db option" where
  "wire_all site name room uid n now [] db = Some db"
| "wire_all site name room uid n now (a # as) db = (case wire_into_room site name room a uid n now db of
     None \<Rightarrow> None | Some db' \<Rightarrow> wire_all site name room uid (n + 3) now as db')"

definition create_room_tables ::
  "live_site \<Rightarrow> string \<Rightarrow> string \<Rightarrow> string list \<Rightarrow> (nat \<Rightarrow> string) \<Rightarrow> nat \<Rightarrow> millis \<Rightarrow> chat_db \<Rightarrow> chat_db option" where
  "create_room_tables site name room wire uid n now db =
     map_option (\<lambda>db1. recompute_engage_patterns (ls_api site) room
         (if length wire = 1 then set_prime_agent room (hd wire) now db1 else db1))
       (wire_all site name room uid (n + 2) now wire
         (snd (create_webchat_room (ls_api site) name (Some room) (uid n) (uid (n + 1)) now db)))"

definition create_room_handler ::
  "live_site \<Rightarrow> jval option \<Rightarrow> (nat \<Rightarrow> string) \<Rightarrow> millis \<Rightarrow> live_state \<Rightarrow> room_result" where
  "create_room_handler site body uid now w = room_body body w (\<lambda>b.
     let name = js_trim (coalesce (field_text ''name'' b) []); room = name_to_folder name; db = lv_db w in
     if name = [] then (RRefused 400 NameRequired, w)
     else (case jfield ''agents'' b of
       Some (VArr (v # vs)) \<Rightarrow> (case read_refs site db (v # vs) of
           Inl (k, e) \<Rightarrow> (RRefused k e, w)
         | Inr refs \<Rightarrow>
            (if room = [] then (RRefused 400 NoRoomId, w)
             else if api_lookup (ls_api site) webchat room db \<noteq> None then (RRefused 409 RoomExists, w)
             else (case make_agents site uid 0 [] [] refs db of
                 Refused k e db1 \<Rightarrow> (RRefused k e, w\<lparr>lv_db := db1\<rparr>)
               | Failed db1 \<Rightarrow> (RThrew, w\<lparr>lv_db := db1\<rparr>)
               | Ready made wire db1 \<Rightarrow>
                  (case create_room_tables site name room wire uid (length refs) now db1 of
                     None \<Rightarrow> (RRefused 500 NotCreated, w\<lparr>lv_db := rollback_bare_agents site made db1\<rparr>)
                   | Some db2 \<Rightarrow> rooms_changed site now db2
                       (w\<lparr>lv_settings := set_room_engage_default room ''mention-only'' now (lv_settings w)\<rparr>)))))
     | _ \<Rightarrow> (RRefused 400 AgentsRequired, w)))"

definition r_rooms_post ::
  "live_site \<Rightarrow> bool \<Rightarrow> string \<Rightarrow> jval option \<Rightarrow> (nat \<Rightarrow> string) \<Rightarrow> millis \<Rightarrow> live_state \<Rightarrow> room_result" where
  "r_rooms_post site csrf u body uid now w =
     guarded csrf u [Csrf, OwnerGuard] w (create_room_handler site body uid now w)"

end
