(* ===== verification/LiveRuns.thy ===== *)
theory LiveRuns
  imports LiveFacts RoomRoutes PermissionFacts
begin

text \<open>
  The server as its clients see it: a run of connections, frames, permission requests, room requests and posts of the
  host, each taken as one step, and what it tells to whom.
\<close>

section \<open>Events\<close>

datatype room_request =
    ArchiveRoom string bool | HideRoom string bool | PinRoom string bool | PinOrder "jval option"
  | NameRoom string "jval option" | EngageRoom string "jval option" | CredentialMode string "jval option"
  | OauthRoom string "jval option" | ThreadRead string string | ThreadsGet string | NewThread string "jval option" string
  | TitleThread string string "jval option" | DropThread string string | DropRoom string | PrimeRoom string "jval option"
  | UnprimeRoom string | TakeAgent string string | AddAgent string "jval option" "nat \<Rightarrow> string"
  | MakeRoom "jval option" "nat \<Rightarrow> string"

fun room_request_step ::
  "live_site \<Rightarrow> bool \<Rightarrow> string \<Rightarrow> room_request \<Rightarrow> millis \<Rightarrow> live_state \<Rightarrow> room_result" where
  "room_request_step site csrf u (ArchiveRoom r on) now w = r_room_archive_post site csrf u r on now w"
| "room_request_step site csrf u (HideRoom r on) now w = r_room_hide_post site csrf u r on now w"
| "room_request_step site csrf u (PinRoom r on) now w = r_room_pin_post site csrf u r on now w"
| "room_request_step site csrf u (PinOrder b) now w = r_rooms_pins_order_post site csrf u b now w"
| "room_request_step site csrf u (NameRoom r b) now w = r_room_name_put site csrf u r b now w"
| "room_request_step site csrf u (EngageRoom r b) now w = r_room_engage_put site csrf u r b now w"
| "room_request_step site csrf u (CredentialMode r b) now w = r_room_cred_mode_put site csrf u r b now w"
| "room_request_step site csrf u (OauthRoom r b) now w = r_room_oauth_put site csrf u r b now w"
| "room_request_step site csrf u (ThreadRead r th) now w = r_room_thread_read_put site csrf u r th now w"
| "room_request_step site csrf u (ThreadsGet r) now w = r_room_threads_get site u r now w"
| "room_request_step site csrf u (NewThread r b uuid) now w = r_room_threads_post site csrf u r b uuid now w"
| "room_request_step site csrf u (TitleThread r th b) now w = r_room_thread_patch site csrf u r th b now w"
| "room_request_step site csrf u (DropThread r th) now w = r_room_thread_delete site csrf u r th now w"
| "room_request_step site csrf u (DropRoom r) now w = r_room_id_delete site csrf u r now w"
| "room_request_step site csrf u (PrimeRoom r b) now w = r_room_prime_put site csrf u r b now w"
| "room_request_step site csrf u (UnprimeRoom r) now w = r_room_prime_delete site csrf u r now w"
| "room_request_step site csrf u (TakeAgent r a) now w = r_room_agent_delete site csrf u r a now w"
| "room_request_step site csrf u (AddAgent r b uid) now w = r_room_agents_post site csrf u r b uid now w"
| "room_request_step site csrf u (MakeRoom b uid) now w = r_rooms_post site csrf u b uid now w"

text \<open>A revocation that took effect is followed by new room lists; a grant, a deletion and a login are not.\<close>

definition agent_known :: "live_state \<Rightarrow> string \<Rightarrow> bool" where
  "agent_known w i = (tbl_get ag_id i (c_agents (lv_db w)) \<noteq> None)"

definition permission_event ::
  "live_site \<Rightarrow> (role_row \<Rightarrow> role_db \<Rightarrow> bool) \<Rightarrow> perm_ask \<Rightarrow> millis \<Rightarrow> live_state \<Rightarrow> live_state" where
  "permission_event site ins ask now w =
     (let w1 = w\<lparr>lv_perm := perm_step (ls_perm site) (agent_known w) (map ag_id (c_agents (lv_db w))) ins (ask, now) (lv_perm w)\<rparr>
      in case ask of
        AskRevoke csrf u b \<Rightarrow>
          (if fst (r_permissions_revoke_post (ls_perm site) (agent_known w) csrf u b (lv_perm w)) = Done
           then broadcast_rooms site now w1 else w1)
      | _ \<Rightarrow> w1)"

datatype live_event =
    Connects string string string
  | FrameOf string "jval option" store_outcome string
  | PongOf string
  | SocketEnds string
  | ClosedOf string
  | Keepalive
  | Posts string frame \<comment> \<open>the host sends a frame to a room: an agent's reply, its status\<close>
  | CopiesA2a string string string "jval option" "(string \<times> string) list" "string \<Rightarrow> string \<Rightarrow> string" "string \<Rightarrow> string"
  | ApprovalFor string string
  | ResolvedFor string string string
  | TurnStarts string string
  | TurnEnds string string
  | Permission perm_ask
  | RoomAsk bool string room_request

definition live_step ::
  "live_site \<Rightarrow> (role_row \<Rightarrow> role_db \<Rightarrow> bool) \<Rightarrow> live_event \<times> millis \<Rightarrow> live_state \<Rightarrow> live_state" where
  "live_step site ins x w = (case x of (e, now) \<Rightarrow> (case e of
     Connects uuid u name \<Rightarrow> connect uuid u name now w
   | FrameOf cid raw res uuid \<Rightarrow> handle_frame site cid raw res uuid now w
   | PongOf cid \<Rightarrow> pong cid w
   | SocketEnds cid \<Rightarrow> socket_ends cid w
   | ClosedOf cid \<Rightarrow> closed_socket site cid now w
   | Keepalive \<Rightarrow> keepalive w
   | Posts room f \<Rightarrow> broadcast site room f None None now w
   | CopiesA2a x y raw p placed pay uuid \<Rightarrow> surface_a2a_message site x y raw p placed pay uuid now w
   | ApprovalFor u payload \<Rightarrow> push_approval_to_user u payload w
   | ResolvedFor u i who \<Rightarrow> push_approval_resolved_to_user u i who w
   | TurnStarts room a \<Rightarrow> record_turn_start room a w
   | TurnEnds room a \<Rightarrow> record_turn_end room a w
   | Permission ask \<Rightarrow> permission_event site ins ask now w
   | RoomAsk csrf u req \<Rightarrow> snd (room_request_step site csrf u req now w)))"

definition run_live ::
  "live_site \<Rightarrow> (role_row \<Rightarrow> role_db \<Rightarrow> bool) \<Rightarrow> (live_event \<times> millis) list \<Rightarrow> live_state \<Rightarrow> live_state" where
  "run_live site ins = fold (live_step site ins)"

section \<open>What the host promises, and what is asked of an event\<close>

text \<open>More roles and memberships never take access to an agent away.\<close>

definition more_rights :: "perm_db \<Rightarrow> perm_db \<Rightarrow> bool" where
  "more_rights d d' = (set (role_rows d) \<subseteq> set (role_rows d') \<and> set (pd_members d) \<subseteq> set (pd_members d')
     \<and> (user_roles (pd_roles d') = None) = (user_roles (pd_roles d) = None))"

definition live_host_ok :: "live_site \<Rightarrow> bool" where
  "live_host_ok site = (mg_api_ok (ls_api site) \<and> perm_api_ok (ls_perm site)
     \<and> (\<forall>d d' u g. more_rights d d' \<longrightarrow> ls_allowed site d u g \<longrightarrow> ls_allowed site d' u g)
     \<and> (\<forall>g db db'. ls_new_agent site g db = Some db' \<longrightarrow> db' = db\<lparr>c_agents := c_agents db @ [g]\<rparr>)
     \<and> (\<forall>i db. ls_drop_agent site i db = db\<lparr>c_agents := tbl_delete (\<lambda>a. ag_id a = i) (c_agents db)\<rparr>))"

text \<open>Ids drawn for new agents are not those of wired ones, and a frame posted to a room is about that room.\<close>

definition unwired :: "(nat \<Rightarrow> string) \<Rightarrow> chat_db \<Rightarrow> bool" where
  "unwired uid db = (\<forall>x \<in> set (c_wirings db). w_agent x \<notin> range uid)"

definition event_ok :: "live_event \<Rightarrow> live_state \<Rightarrow> bool" where
  "event_ok e w = (case e of
     Posts room f \<Rightarrow> set (rooms_shown f) \<subseteq> {room}
   | RoomAsk csrf u req \<Rightarrow> (case req of
       AddAgent r b uid \<Rightarrow> unwired uid (lv_db w) | MakeRoom b uid \<Rightarrow> unwired uid (lv_db w) | _ \<Rightarrow> True)
   | _ \<Rightarrow> True)"

fun events_ok ::
  "live_site \<Rightarrow> (role_row \<Rightarrow> role_db \<Rightarrow> bool) \<Rightarrow> (live_event \<times> millis) list \<Rightarrow> live_state \<Rightarrow> bool" where
  "events_ok site ins [] w = True"
| "events_ok site ins (x # xs) w = (event_ok (fst x) w \<and> events_ok site ins xs (live_step site ins x w))"

section \<open>Nobody is left in a room they may not see\<close>

definition live_ok :: "live_site \<Rightarrow> live_state \<Rightarrow> bool" where
  "live_ok site w = (distinct (map lc_id (lv_clients w)) \<and> (\<forall>c \<in> set (lv_clients w). admitted site w c))"

text \<open>The frames sent between two states show a client only rooms its user may see before or after.\<close>

definition disclosed :: "live_site \<Rightarrow> live_state \<Rightarrow> live_state \<Rightarrow> bool" where
  "disclosed site w w' = (\<forall>(cid, f) \<in> set (drop (length (lv_sent w)) (lv_sent w')). \<exists>c \<in> set (lv_clients w).
     lc_id c = cid \<and> (\<forall>r \<in> set (rooms_shown f). r \<noteq> [] \<longrightarrow> reaches site w (lc_user c) r \<or> reaches site w' (lc_user c) r))"

definition either :: "live_site \<Rightarrow> live_state \<Rightarrow> live_state \<Rightarrow> string \<Rightarrow> string \<Rightarrow> bool" where
  "either site w v u r = (reaches site w u r \<or> reaches site v u r)"

definition users_of :: "live_state \<Rightarrow> (string \<times> string) set" where
  "users_of w = {(lc_id c, lc_user c) |c. c \<in> set (lv_clients w)}"

lemma audit_start:
  assumes "live_host_ok site" "live_ok site w"
  shows "audit site (either site w v) (users_of w) v"
proof -
  have "single_valued (users_of w)"
    using assms(2) by (auto simp: single_valued_def users_of_def live_ok_def distinct_map inj_on_def)
  then show ?thesis using assms(1) by (simp add: audit_def live_host_ok_def either_def)
qed

lemma tied_start:
  assumes "live_ok site w" "lv_clients v = lv_clients w" "lv_sent v = lv_sent w"
  shows "tied (either site w v') (users_of w) (length (lv_sent w)) v v"
  using assms by (auto simp: tied_def live_ok_def admitted_def either_def users_of_def)

lemma disclosed_tied:
  assumes "tied (either site w v) (users_of w) (length (lv_sent w)) b w'" "reaches site v = reaches site w'"
  shows "disclosed site w w'"
proof -
  have "\<exists>c \<in> set (lv_clients w). lc_id c = cid
      \<and> (\<forall>r \<in> set (rooms_shown f). r \<noteq> [] \<longrightarrow> reaches site w (lc_user c) r \<or> reaches site w' (lc_user c) r)"
    if m: "(cid, f) \<in> set (drop (length (lv_sent w)) (lv_sent w'))" for cid f
  proof -
    from assms(1) m obtain u where u: "(cid, u) \<in> users_of w" "shows_within (either site w v u) f"
      unfolding tied_def by blast
    then obtain c where "c \<in> set (lv_clients w)" "lc_id c = cid" "lc_user c = u" by (auto simp: users_of_def)
    with u(2) assms(2) show ?thesis by (auto simp: shows_within_def either_def)
  qed
  then show ?thesis by (auto simp: disclosed_def)
qed

text \<open>A step that leaves the tables of access alone.\<close>

lemma quiet_step:
  assumes ok: "live_host_ok site" "live_ok site w"
    and t: "tied (either site w w) (users_of w) (length (lv_sent w)) w w'"
  shows "live_ok site w' \<and> disclosed site w w'"
proof -
  have r: "reaches site w = reaches site w'"
    using reaches_key[of site w w'] t ok(1) by (simp add: tied_def live_host_ok_def)
  have "live_ok site w'" using t unfolding tied_def live_ok_def admitted_def either_def r[symmetric] by auto
  with disclosed_tied[OF t r] show ?thesis by simp
qed

text \<open>A step that changes them: new room lists follow, or nobody loses anything.\<close>

definition settles :: "live_site \<Rightarrow> live_state \<Rightarrow> live_state \<Rightarrow> bool" where
  "settles site w w' = (\<exists>v now. lv_clients v = lv_clients w \<and> lv_sent v = lv_sent w
     \<and> (w' = broadcast_rooms site now v \<or> (w' = v \<and> (\<forall>u r. reaches site w u r \<longrightarrow> reaches site v u r))))"

lemma settled_step:
  assumes ok: "live_host_ok site" "live_ok site w" and s: "settles site w w'"
  shows "live_ok site w' \<and> disclosed site w w'"
proof -
  from s obtain v now where v: "lv_clients v = lv_clients w" "lv_sent v = lv_sent w"
    and c: "w' = broadcast_rooms site now v \<or> (w' = v \<and> (\<forall>u r. reaches site w u r \<longrightarrow> reaches site v u r))"
    unfolding settles_def by blast
  note t = tied_start[OF ok(2) v, of v] and a = audit_start[OF ok, of v]
  from c show ?thesis
  proof
    assume w': "w' = broadcast_rooms site now v"
    note b = tied_broadcast_rooms[OF a t, where now = now, folded w']
    have r: "reaches site v = reaches site w'"
      using reaches_key[of site v w'] b(1) ok(1) by (simp add: tied_def live_host_ok_def)
    have "live_ok site w'" using b by (auto simp: live_ok_def tied_def admitted_def r)
    with disclosed_tied[OF b(1) r] show ?thesis by simp
  next
    assume w': "w' = v \<and> (\<forall>u r. reaches site w u r \<longrightarrow> reaches site v u r)"
    then have "live_ok site w'" using ok(2) v by (auto simp: live_ok_def admitted_def)
    with disclosed_tied[OF t] w' show ?thesis by blast
  qed
qed

section \<open>Requests about rooms\<close>

lemma settles_refl: "settles site w w"
  unfolding settles_def by blast

lemma settles_same:
  assumes "mg_api_ok (ls_api site)" "lv_clients v = lv_clients w" "lv_sent v = lv_sent w" "reach_key v = reach_key w"
  shows "settles site w v"
  using assms reaches_key[of site w v] unfolding settles_def by auto

lemma settles_changed:
  "lv_clients v = lv_clients w \<Longrightarrow> lv_sent v = lv_sent w \<Longrightarrow> settles site w (snd (rooms_changed site now db v))"
  unfolding settles_def rooms_changed_def by (intro exI[of _ "v\<lparr>lv_db := db\<rparr>"] exI[of _ now]) simp

lemma settles_guarded: "settles site w (snd k) \<Longrightarrow> settles site w (snd (guarded csrf u gs w k))"
  by (auto simp: guarded_def settles_refl split: option.split)

lemma settles_access: "settles site w (snd k) \<Longrightarrow> settles site w (snd (require_room_access site u room now w k))"
  by (auto simp: require_room_access_def settles_refl)

lemma settles_body: "(\<And>b. settles site w (snd (f b))) \<Longrightarrow> settles site w (snd (room_body body w f))"
  by (auto simp: room_body_def settles_refl split: option.split)

lemmas settles_intros = settles_refl settles_changed settles_guarded settles_access settles_body settles_same

lemma reach_key_db:
  "c_groups db = c_groups (lv_db w) \<Longrightarrow> c_wirings db = c_wirings (lv_db w) \<Longrightarrow> c_agents db = c_agents (lv_db w)
    \<Longrightarrow> reach_key (w\<lparr>lv_db := db\<rparr>) = reach_key w"
  by (simp add: reach_key_def)

text \<open>Agents nobody is wired to decide nothing.\<close>

definition apart :: "chat_db \<Rightarrow> chat_db \<Rightarrow> bool" where
  "apart db db' = (c_groups db' = c_groups db \<and> c_wirings db' = c_wirings db
     \<and> (\<forall>x \<in> set (c_wirings db). tbl_get ag_id (w_agent x) (c_agents db') = tbl_get ag_id (w_agent x) (c_agents db)))"

lemma apart_refl: "apart db db" by (simp add: apart_def)

lemma apart_trans: "apart x y \<Longrightarrow> apart y z \<Longrightarrow> apart x z" by (simp add: apart_def)

lemma apart_reaches:
  assumes "mg_api_ok (ls_api site)" "apart (lv_db w) db"
  shows "reaches site (w\<lparr>lv_db := db\<rparr>) = reaches site w"
proof -
  have "List.map_filter (\<lambda>x. if w_mg x = gid then tbl_get ag_id (w_agent x) (c_agents db) else None) xs
      = List.map_filter (\<lambda>x. if w_mg x = gid then tbl_get ag_id (w_agent x) (c_agents (lv_db w)) else None) xs"
    if "set xs \<subseteq> set (c_wirings (lv_db w))" for gid xs
    using that assms(2) by (induction xs) (auto simp: apart_def map_filter_simps split: option.split)
  then have "agents_of_group gid db = agents_of_group gid (lv_db w)" for gid
    using assms(2) by (simp add: agents_of_group_def apart_def)
  then have "get_agents_for_webchat_room (ls_api site) room db = get_agents_for_webchat_room (ls_api site) room (lv_db w)" for room
    using assms by (auto simp: get_agents_for_webchat_room_def apart_def mg_api_ok_def split: option.split)
  then show ?thesis by (simp add: reaches_def can_access_room_def fun_eq_iff)
qed

lemma settles_apart: "live_host_ok site \<Longrightarrow> apart (lv_db w) db \<Longrightarrow> settles site w (w\<lparr>lv_db := db\<rparr>)"
  using apart_reaches[of site w db] unfolding settles_def live_host_ok_def
  by (intro exI[of _ "w\<lparr>lv_db := db\<rparr>"] exI[of _ 0]) simp

lemma tbl_get_append_other: "k x \<noteq> i \<Longrightarrow> tbl_get k i (t @ [x]) = tbl_get k i t"
  by (auto simp: tbl_get_def find_append split: option.split)

lemma bare_apart:
  assumes ok: "live_host_ok site" and u: "unwired uid db"
  shows "create_bare_agent_group site name (uid n) db = Made g db' \<Longrightarrow> apart db db' \<and> ag_id g = uid n"
    "create_bare_agent_group site name (uid n) db = FilesFailed db' \<Longrightarrow> apart db db'"
proof -
  have "apart db d \<and> ag_id h = uid n" if "ls_new_agent site h db = Some d" "ag_id h = uid n" for h d
  proof -
    have "d = db\<lparr>c_agents := c_agents db @ [h]\<rparr>" using ok that by (simp add: live_host_ok_def)
    moreover have "tbl_get ag_id (w_agent x) (c_agents db @ [h]) = tbl_get ag_id (w_agent x) (c_agents db)"
      if "x \<in> set (c_wirings db)" for x
      by (rule tbl_get_append_other) (use \<open>ag_id h = uid n\<close> that u in \<open>metis rangeI unwired_def\<close>)
    ultimately show ?thesis using that by (simp add: apart_def)
  qed
  then show "create_bare_agent_group site name (uid n) db = Made g db' \<Longrightarrow> apart db db' \<and> ag_id g = uid n"
    and "create_bare_agent_group site name (uid n) db = FilesFailed db' \<Longrightarrow> apart db db'"
    by (auto simp: create_bare_agent_group_def Let_def split: if_splits option.splits)
qed

lemma rollback_apart:
  assumes ok: "live_host_ok site" and i: "set ids \<subseteq> range uid" and u: "unwired uid db"
  shows "apart db (rollback_bare_agents site ids db)"
  using i u
proof (induction ids arbitrary: db)
  case (Cons i ids)
  have "tbl_get ag_id k (tbl_delete (\<lambda>a. ag_id a = i) t) = tbl_get ag_id k t" if "k \<noteq> i" for k t
    using that by (induction t) (auto simp: tbl_get_def tbl_delete_def)
  then have a: "apart db (ls_drop_agent site i db)" using ok Cons.prems by (auto simp: apart_def live_host_ok_def unwired_def)
  moreover have "unwired uid (ls_drop_agent site i db)" using a Cons.prems(2) by (simp add: unwired_def apart_def)
  ultimately show ?case using Cons apart_trans by (auto simp: rollback_bare_agents_def)
qed (simp add: rollback_bare_agents_def apart_refl)

lemma unwired_apart: "unwired uid db \<Longrightarrow> apart db db' \<Longrightarrow> unwired uid db'"
  by (simp add: unwired_def apart_def)

lemma made_apart:
  assumes ok: "live_host_ok site"
  shows "unwired uid db \<Longrightarrow> set made \<subseteq> range uid \<Longrightarrow>
    (case make_agents site uid n made wire refs db of
       Ready made' wire' db' \<Rightarrow> apart db db' \<and> set made' \<subseteq> range uid
     | Refused k e db' \<Rightarrow> apart db db'
     | Failed db' \<Rightarrow> apart db db')"
proof (induction refs arbitrary: n made wire db)
  case (Cons r rs)
  show ?case
  proof (cases r)
    case (Existing i)
    then show ?thesis using Cons by simp
  next
    case (NewAgent name instr prov)
    show ?thesis
    proof (cases "create_bare_agent_group site name (uid n) db")
      case (Made g db')
      have b: "apart db db'" "ag_id g = uid n" using bare_apart(1)[OF ok Cons.prems(1) Made] by auto
      have "set (made @ [ag_id g]) \<subseteq> range uid" using Cons.prems(2) b(2) by auto
      from Cons.IH[OF unwired_apart[OF Cons.prems(1) b(1)] this, of "n + 1" "wire @ [ag_id g]"]
      show ?thesis using NewAgent Made apart_trans[OF b(1)] by (auto split: new_agents.splits)
    qed (use NewAgent Cons.prems rollback_apart[OF ok] bare_apart(2)[OF ok] in auto)
  qed
qed (auto simp: apart_refl)

lemma add_wired_settles:
  assumes "live_host_ok site" "apart (lv_db w) db" "set made \<subseteq> range uid" "unwired uid db"
  shows "settles site w (snd (add_wired site r agent made uid now db w))"
  using settles_apart[OF assms(1) apart_trans[OF assms(2) rollback_apart[OF assms(1,3,4)]]]
  by (auto simp: add_wired_def Let_def intro!: settles_changed split: option.split)

lemma agents_post_settles:
  assumes ok: "live_host_ok site" and u: "unwired uid (lv_db w)"
  shows "settles site w (snd (r_room_agents_post site csrf x room body uid now w))"
proof -
  note add = add_wired_settles[OF ok]
  have new: "settles site w (snd (case create_bare_agent_group site name (uid 3) (lv_db w) of
      NotMade n e \<Rightarrow> (RRefused n e, w) | FilesFailed db' \<Rightarrow> (RThrew, w\<lparr>lv_db := db'\<rparr>)
    | Made g db' \<Rightarrow> add_wired site r (ag_id g) [ag_id g] uid now db' w))" for name r
  proof (cases "create_bare_agent_group site name (uid 3) (lv_db w)")
    case (Made g db')
    have b: "apart (lv_db w) db'" "ag_id g = uid 3" using bare_apart(1)[OF ok u Made] by auto
    show ?thesis using add[OF b(1) _ unwired_apart[OF u b(1)], of "[ag_id g]"] b(2) Made by simp
  next
    case (FilesFailed db')
    then show ?thesis using settles_apart[OF ok bare_apart(2)[OF ok u FilesFailed]] by simp
  qed (simp add: settles_refl)
  show ?thesis unfolding r_room_agents_post_def Let_def
    by (intro settles_guarded)
       (use new add[OF apart_refl _ u, of "[]"] in \<open>auto simp: settles_refl split: option.split agent_ref.split\<close>)
qed

lemma rooms_post_settles:
  assumes ok: "live_host_ok site" and u: "unwired uid (lv_db w)"
  shows "settles site w (snd (r_rooms_post site csrf x body uid now w))"
proof -
  have made: "settles site w (snd (case make_agents site uid 0 [] [] refs (lv_db w) of
      Refused k e db1 \<Rightarrow> (RRefused k e, w\<lparr>lv_db := db1\<rparr>)
    | Failed db1 \<Rightarrow> (RThrew, w\<lparr>lv_db := db1\<rparr>)
    | Ready made wire db1 \<Rightarrow>
       (case create_room_tables site name room wire uid (length refs) now db1 of
          None \<Rightarrow> (RRefused 500 NotCreated, w\<lparr>lv_db := rollback_bare_agents site made db1\<rparr>)
        | Some db2 \<Rightarrow> rooms_changed site now db2
            (w\<lparr>lv_settings := set_room_engage_default room ''mention-only'' now (lv_settings w)\<rparr>))))" for refs name room
  proof (cases "make_agents site uid 0 [] [] refs (lv_db w)")
    case (Ready made wire db1)
    have m: "apart (lv_db w) db1" "set made \<subseteq> range uid" using made_apart[OF ok u, of "[]" 0 "[]" refs] Ready by auto
    show ?thesis using settles_apart[OF ok apart_trans[OF m(1) rollback_apart[OF ok m(2) unwired_apart[OF u m(1)]]]] Ready
      by (auto intro!: settles_changed split: option.split)
  qed (use made_apart[OF ok u, of "[]" 0 "[]" refs] settles_apart[OF ok] in auto)
  show ?thesis unfolding r_rooms_post_def create_room_handler_def Let_def
    by (intro settles_guarded settles_body) (auto simp: settles_refl made split: option.split jval.split list.split sum.split)
qed

lemma unwire_nothing:
  assumes "unwire_agent_from_webchat_room api room agent db = (False, db')"
  shows "c_groups db' = c_groups db \<and> c_wirings db' = c_wirings db \<and> c_agents db' = c_agents db"
proof -
  have "tbl_delete p t = t" if "\<not> list_ex p t" for p and t :: "wiring list"
    using that by (auto simp: tbl_delete_def list_ex_iff filter_id_conv)
  with assms show ?thesis by (auto simp: unwire_agent_from_webchat_room_def Let_def split: option.splits)
qed

lemma remove_agent_settles:
  assumes ok: "live_host_ok site" shows "settles site w (snd (remove_agent_handler site room agent now w))"
proof (cases "unwire_agent_from_webchat_room (ls_api site) room agent (lv_db w)")
  case (Pair b db)
  have "settles site w (w\<lparr>lv_db := db\<rparr>)" if "\<not> b"
    using ok unwire_nothing[of "ls_api site" room agent "lv_db w" db] Pair that
    by (intro settles_same) (auto simp: live_host_ok_def reach_key_db)
  then show ?thesis using Pair
    by (cases b) (auto simp: remove_agent_handler_def Let_def settles_refl intro!: settles_changed)
qed

lemmas small_requests = r_room_archive_post_def r_room_hide_post_def r_room_pin_post_def r_rooms_pins_order_post_def
  r_room_name_put_def r_room_engage_put_def r_room_thread_delete_def delete_thread_handler_def r_room_id_delete_def
  delete_room_handler_def r_room_prime_put_def set_room_prime_handler_def r_room_prime_delete_def clear_room_prime_handler_def
  r_room_threads_post_def

text \<open>What the requests that send no room lists write is none of the tables that decide.\<close>

lemma settings_settle: "mg_api_ok (ls_api site) \<Longrightarrow> settles site w (w\<lparr>lv_settings := st\<rparr>)"
  by (rule settles_same) simp_all

lemma quiet_requests:
  assumes "live_host_ok site"
  shows "settles site w (snd (r_room_cred_mode_put site csrf u room body now w))"
    "settles site w (snd (r_room_oauth_put site csrf u room body now w))"
    "settles site w (snd (r_room_thread_read_put site csrf u room th now w))"
    "settles site w (snd (r_room_threads_get site u room now w))"
    "settles site w (snd (r_room_thread_patch site csrf u room th body now w))"
proof -
  have api: "mg_api_ok (ls_api site)" using assms by (simp add: live_host_ok_def)
  have db: "settles site w (w\<lparr>lv_db := db\<rparr>)"
    if "c_groups db = c_groups (lv_db w)" "c_wirings db = c_wirings (lv_db w)" "c_agents db = c_agents (lv_db w)" for db
    by (rule settles_same[OF api]) (use that in \<open>simp_all add: reach_key_db\<close>)
  show "settles site w (snd (r_room_cred_mode_put site csrf u room body now w))"
    and "settles site w (snd (r_room_oauth_put site csrf u room body now w))"
    unfolding r_room_cred_mode_put_def r_room_oauth_put_def Let_def
    by (auto intro!: settles_guarded settles_body simp: settles_refl settings_settle[OF api] split: option.split jval.split)
  show "settles site w (snd (r_room_thread_read_put site csrf u room th now w))"
    and "settles site w (snd (r_room_threads_get site u room now w))"
    unfolding r_room_thread_read_put_def r_room_threads_get_def
    by (auto intro!: settles_guarded settles_access db simp: mark_thread_read_def ensure_main_thread_def ensure_thread_def)
  show "settles site w (snd (r_room_thread_patch site csrf u room th body now w))"
    unfolding r_room_thread_patch_def
    by (auto intro!: settles_guarded settles_access settles_body db simp: settles_refl rename_webchat_thread_def split: option.split)
qed

lemma room_request_settles:
  assumes ok: "live_host_ok site" and e: "event_ok (RoomAsk csrf u req) w"
  shows "settles site w (snd (room_request_step site csrf u req now w))"
proof -
  note ends = settles_guarded settles_access settles_body settles_changed settles_refl
  have small: "settles site w (snd (r_room_archive_post site csrf u r on now w))"
    "settles site w (snd (r_room_hide_post site csrf u r on now w))"
    "settles site w (snd (r_room_pin_post site csrf u r on now w))"
    "settles site w (snd (r_rooms_pins_order_post site csrf u b now w))"
    "settles site w (snd (r_room_name_put site csrf u r b now w))"
    "settles site w (snd (r_room_engage_put site csrf u r b now w))"
    "settles site w (snd (r_room_threads_post site csrf u r b uuid now w))"
    "settles site w (snd (r_room_thread_delete site csrf u r th now w))"
    "settles site w (snd (r_room_id_delete site csrf u r now w))"
    "settles site w (snd (r_room_prime_put site csrf u r b now w))"
    "settles site w (snd (r_room_prime_delete site csrf u r now w))" for r on b uuid th
    unfolding small_requests Let_def by (auto intro!: ends split: option.split)
  have "settles site w (snd (r_room_agent_delete site csrf u r a now w))" for r a
    unfolding r_room_agent_delete_def Let_def by (auto intro!: settles_guarded remove_agent_settles[OF ok] settles_refl)
  then show ?thesis using e small quiet_requests[OF ok] agents_post_settles[OF ok] rooms_post_settles[OF ok]
    by (cases req) (simp_all add: event_ok_def)
qed

section \<open>Requests about permissions\<close>

lemma perm_reaches:
  assumes ok: "live_host_ok site" and m: "more_rights (lv_perm w) d" and r: "reaches site w u room"
  shows "reaches site (w\<lparr>lv_perm := d\<rparr>) u room"
  using r ok m by (auto simp: reaches_def can_access_room_def all_allowed_eq Let_def live_host_ok_def split: if_splits)

lemma grant_more:
  assumes ok: "perm_api_ok a" and ask: "\<And>csrf u b. ask \<noteq> AskRevoke csrf u b"
  shows "more_rights d (perm_step a agents groups ins (ask, now) d)"
proof -
  have same: "more_rights d d'" if "same_roles d d'" "same_members d d'" for d'
    using that same_roles_rows[of d d'] by (auto simp: more_rights_def same_roles_def same_members_def)
  show ?thesis
  proof (cases ask)
    case (AskGrant csrf u b)
    obtain rep d' where s: "r_permissions_grant_post a agents csrf u b now d = (rep, d')" by fastforce
    have "more_rights d d'" using grant_cases[OF ok s]
      by (elim disjE exE conjE)
         (auto simp: same more_rights_def added_member_def granted_role_def same_members_def same_roles_def role_rows_def)
    then show ?thesis using AskGrant s by simp
  next
    case (AskDelete csrf u t)
    obtain rep d' where s: "r_user_id_delete a groups csrf u t d = (rep, d')" by fastforce
    then show ?thesis using AskDelete same delete_cases[OF ok s] by simp
  next
    case (LogsIn u)
    then show ?thesis using login_rows[where d = d and ins = ins and u = u and now = now] by (auto simp: more_rights_def)
  qed (use ask in blast)
qed

lemma permission_settles:
  assumes ok: "live_host_ok site" shows "settles site w (permission_event site ins ask now w)"
proof (cases "\<exists>csrf u b. ask = AskRevoke csrf u b")
  case True
  then obtain csrf u b where ask: "ask = AskRevoke csrf u b" by blast
  obtain rep d where s: "r_permissions_revoke_post (ls_perm site) (agent_known w) csrf u b (lv_perm w) = (rep, d)" by fastforce
  have "d = lv_perm w" if "rep \<noteq> Done"
    using s that by (auto simp: r_permissions_revoke_post_def with_grant_body_def revoke_permission_def split: option.splits if_splits sum.splits prod.splits)
  then show ?thesis using ask s
    by (auto simp: permission_event_def Let_def settles_def intro: exI[of _ "w\<lparr>lv_perm := d\<rparr>"])
next
  case False
  let ?d = "perm_step (ls_perm site) (agent_known w) (map ag_id (c_agents (lv_db w))) ins (ask, now) (lv_perm w)"
  have p: "perm_api_ok (ls_perm site)" using ok by (simp add: live_host_ok_def)
  have "more_rights (lv_perm w) ?d" by (rule grant_more[OF p]) (use False in blast)
  then have "\<forall>u r. reaches site w u r \<longrightarrow> reaches site (w\<lparr>lv_perm := ?d\<rparr>) u r" using perm_reaches[OF ok] by blast
  moreover have "permission_event site ins ask now w = w\<lparr>lv_perm := ?d\<rparr>"
    using False by (simp add: permission_event_def Let_def split: perm_ask.split)
  ultimately show ?thesis unfolding settles_def by (intro exI[of _ "w\<lparr>lv_perm := ?d\<rparr>"] exI[of _ 0]) simp
qed

section \<open>Every step\<close>

lemma handles_access:
  "c_groups (snd (ensure_user_handle u nm now db)) = c_groups db \<and> c_wirings (snd (ensure_user_handle u nm now db)) = c_wirings db
   \<and> c_agents (snd (ensure_user_handle u nm now db)) = c_agents db"
proof -
  have "c_groups (snd (ensure_handle_loop u base now ns db)) = c_groups db
      \<and> c_wirings (snd (ensure_handle_loop u base now ns db)) = c_wirings db
      \<and> c_agents (snd (ensure_handle_loop u base now ns db)) = c_agents db" for base ns
    by (induction ns arbitrary: db) (auto simp: Let_def)
  then show ?thesis by (simp add: ensure_user_handle_def)
qed

lemma connect_step:
  assumes ok: "live_host_ok site" "live_ok site w"
  shows "live_ok site (connect uuid u nm now w) \<and> disclosed site w (connect uuid u nm now w)"
proof -
  let ?w = "connect uuid u nm now w"
  have "reach_key ?w = reach_key w" using handles_access by (simp add: connect_def add_client_def reach_key_def)
  then have r: "reaches site ?w = reaches site w" using ok(1) reaches_key[of site ?w w] by (simp add: live_host_ok_def)
  have cl: "set (lv_clients ?w) \<subseteq> insert \<lparr>lc_id = uuid, lc_user = u, lc_name = nm, lc_room = None, lc_thread = None,
       lc_alive = True, lc_open = True, lc_auth = False\<rparr> (set (lv_clients w))"
    by (auto simp: connect_def add_client_def tbl_upsert_def tbl_update_def split: if_splits option.splits)
  have k: "keyed lc_id (lv_clients ?w)"
    using ok(2) by (auto simp: connect_def add_client_def live_ok_def keyed_def[symmetric])
  have "live_ok site ?w" using cl k ok(2) by (auto simp: live_ok_def admitted_def r keyed_def)
  then show ?thesis by (simp add: disclosed_def connect_def add_client_def)
qed

lemma live_step_ok:
  assumes ok: "live_host_ok site" and w: "live_ok site w" and e: "event_ok (fst x) w"
  shows "live_ok site (live_step site ins x w) \<and> disclosed site w (live_step site ins x w)"
proof -
  obtain ev now where x: "x = (ev, now)" by fastforce
  note t = tied_start[OF w refl refl] and a = audit_start[OF ok w]
  note quiet = quiet_step[OF ok w]
  show ?thesis
  proof (cases ev)
    case (Connects uuid u name)
    then show ?thesis using connect_step[OF ok w] x by (simp add: live_step_def)
  next
    case (FrameOf cid raw res uuid)
    then show ?thesis using quiet[OF tied_handle_frame[OF a t]] x by (simp add: live_step_def)
  next
    case (PongOf cid)
    then show ?thesis using quiet[OF tied_pong[OF t]] x by (simp add: live_step_def)
  next
    case (SocketEnds cid)
    then show ?thesis using quiet[OF tied_socket_ends[OF t]] x by (simp add: live_step_def)
  next
    case (ClosedOf cid)
    then show ?thesis using quiet[OF tied_closed[OF t]] x by (simp add: live_step_def)
  next
    case Keepalive
    then show ?thesis using quiet[OF tied_keepalive[OF t]] x by (simp add: live_step_def)
  next
    case (Posts room f)
    then show ?thesis using quiet[OF tied_broadcast[OF t]] x e by (simp add: live_step_def event_ok_def)
  next
    case (CopiesA2a p q raw pa placed pay uuid)
    then show ?thesis using quiet[OF tied_surface[OF t]] x by (simp add: live_step_def)
  next
    case (ApprovalFor u payload)
    then show ?thesis using quiet[OF tied_to_user[OF t]] x by (simp add: live_step_def push_approval_to_user_def)
  next
    case (ResolvedFor u i who)
    then show ?thesis using quiet[OF tied_to_user[OF t]] x by (simp add: live_step_def push_approval_resolved_to_user_def)
  next
    case (TurnStarts room ag)
    then show ?thesis using quiet[OF tied_same[OF t]] x by (simp add: live_step_def record_turn_start_def)
  next
    case (TurnEnds room ag)
    then show ?thesis using quiet[OF tied_same[OF t]] x
      by (simp add: live_step_def record_turn_end_def Let_def split: option.split)
  next
    case (Permission ask)
    then show ?thesis using settled_step[OF ok w permission_settles[OF ok]] x by (simp add: live_step_def)
  next
    case (RoomAsk csrf u req)
    then show ?thesis using settled_step[OF ok w room_request_settles[OF ok]] x e by (simp add: live_step_def)
  qed
qed


section \<open>A concrete server\<close>

text \<open>Access as the host documents it: owners, admins of the agent's group, and its members.\<close>

definition demo_allowed :: "perm_db \<Rightarrow> string \<Rightarrow> string \<Rightarrow> bool" where
  "demo_allowed d u g = (has_admin_privilege u g (pd_roles d) \<or> list_ex (\<lambda>m. mb_user m = u \<and> mb_group m = g) (pd_members d))"

definition demo_live_site :: live_site where
  "demo_live_site = \<lparr>ls_api = host_mg_api, ls_wire = host_wire_api, ls_perm = host_perm_api,
     ls_new_agent = (\<lambda>g db. Some (db\<lparr>c_agents := c_agents db @ [g]\<rparr>)),
     ls_drop_agent = (\<lambda>i db. db\<lparr>c_agents := tbl_delete (\<lambda>a. ag_id a = i) (c_agents db)\<rparr>),
     ls_agent_files = (\<lambda>_. True), ls_providers = [], ls_allowed = demo_allowed,
     ls_running = c_sessions, ls_push_ready = False, ls_push = (\<lambda>_. Delivered)\<rparr>"

lemma demo_site_ok [simp]: "live_host_ok demo_live_site"
proof -
  have "demo_allowed d' u g" if m: "more_rights d d'" and a: "demo_allowed d u g" for d d' u g
  proof -
    have "has_admin_privilege u g (pd_roles d) \<Longrightarrow> has_admin_privilege u g (pd_roles d')"
      using m by (auto simp: more_rights_def has_admin_privilege_def role_query_def role_rows_def list_ex_iff split: option.splits) (metis subsetD)+
    then show ?thesis using a m by (auto simp: demo_allowed_def more_rights_def list_ex_iff)
  qed
  then show ?thesis unfolding live_host_ok_def by (auto simp: demo_live_site_def)
qed

definition demo_client :: "string \<Rightarrow> string \<Rightarrow> string option \<Rightarrow> bool \<Rightarrow> live_client" where
  "demo_client i u room alive = \<lparr>lc_id = i, lc_user = u, lc_name = u, lc_room = room, lc_thread = None, lc_alive = alive,
     lc_open = True, lc_auth = True\<rparr>"

text \<open>Ann owns the install, Bob is a member, both are in the room; Eve is connected and may see no room.\<close>

definition demo_live :: live_state where
  "demo_live = \<lparr>lv_clients = [demo_client ''c1'' ''webchat:ann'' (Some ''hall'') True, demo_client ''c2'' ''webchat:bob'' (Some ''hall'') False,
      demo_client ''c3'' ''webchat:eve'' None True],
     lv_db = empty_db\<lparr>c_groups := [\<lparr>mg_id = ''m1'', mg_channel = webchat, mg_platform = ''hall'', mg_name = Some ''Hall'', mg_created = Some 1\<rparr>],
       c_agents := [\<lparr>ag_id = ''a1'', ag_name = ''Ada'', ag_folder = ''ada''\<rparr>],
       c_wirings := [\<lparr>w_id = ''w1'', w_mg = ''m1'', w_agent = ''a1'', w_mode = ''pattern'', w_pattern = ''.'', w_scope = ''all'',
         w_ignored = ''drop'', w_session = ''shared''\<rparr>]\<rparr>,
     lv_perm = \<lparr>pd_roles = \<lparr>user_roles = Some [\<lparr>rr_user = ''webchat:ann'', rr_role = ''owner'', rr_group = None, rr_granted_by = None, rr_at = 1\<rparr>],
         users = Some [], audit_log = []\<rparr>,
       pd_members = [\<lparr>mb_user = ''webchat:bob'', mb_group = ''a1'', mb_by = None, mb_at = 1\<rparr>], pd_dms = []\<rparr>,
     lv_settings = [], lv_agents = [], lv_turns = [], lv_seen = [], lv_subs = [], lv_sent = [], lv_pushed = [], lv_mirrored = [],
     lv_inbound = [], lv_interrupts = []\<rparr>"

lemma demo_reaches: "reaches demo_live_site demo_live u ''hall'' = (u = ''webchat:ann'' \<or> u = ''webchat:bob'')"
  by (simp add: reaches_def can_access_room_def get_agents_for_webchat_room_def agents_of_group_def demo_live_site_def
      host_mg_api_def demo_live_def webchat_def tbl_get_def map_filter_simps demo_allowed_def has_admin_privilege_def role_query_def)
    blast

lemma demo_live_ok [simp]: "live_ok demo_live_site demo_live"
proof -
  have "lv_clients demo_live = [demo_client ''c1'' ''webchat:ann'' (Some ''hall'') True, demo_client ''c2'' ''webchat:bob'' (Some ''hall'') False,
      demo_client ''c3'' ''webchat:eve'' None True]" by (simp add: demo_live_def)
  then show ?thesis by (simp add: live_ok_def admitted_def demo_client_def demo_reaches)
qed

definition demo_post :: message where
  "demo_post = \<lparr>m_id = ''m9'', m_room = ''hall'', m_thread = ''main'', m_sender = ''Ada'', m_sender_type = ''agent'', m_content = ''hi'',
     m_kind = KText, m_file = None, m_at = 60, m_origin = None, m_sender_id = None, m_resets = None, m_served = None\<rparr>"


section \<open>Who else hears of a room\<close>

text \<open>A message in a room reaches everyone connected as a signal that names the room, those who may not see it included.\<close>

lemma unread_signal_names_the_room:
  "(''c3'', FUnread ''hall'') \<in> set (lv_sent (broadcast demo_live_site ''hall'' (FMessage demo_post None) None None 60 demo_live))
   \<and> \<not> reaches demo_live_site demo_live ''webchat:eve'' ''hall''"
proof -
  have "extract_handles ''hi'' = []"
    by (simp add: extract_handles_def handles_from.simps mention_char_def is_alnum_def is_digit_def is_lower_def code_def lower_def)
  then have "mentioned_users (FMessage demo_post None) w = []" for w
    by (simp add: mentioned_users_def demo_post_def resolve_handles_to_user_ids_def)
  then have "(''c3'', FUnread ''hall'') \<in> set (lv_sent (broadcast demo_live_site ''hall'' (FMessage demo_post None) None None 60 demo_live))"
    by (simp add: broadcast_def push_frame_def mirror_frame_def deliver_def demo_live_def demo_client_def map_filter_simps frame_for_def
        is_message_def demo_post_def quiet_kind_def send_push_for_message_def demo_live_site_def split: option.split)
  then show ?thesis by (simp add: demo_reaches)
qed

text \<open>A client the keepalive drops is gone before its close is reported, and then nobody in its room is told.\<close>

lemma keepalive_drop_is_silent:
  assumes "client_of cid w = Some c" "\<not> lc_alive c" "distinct (map lc_id (lv_clients w))"
  shows "lv_sent (closed_socket site cid now (keepalive w)) = lv_sent w"
proof -
  have "c \<in> set (lv_clients w)" "lc_id c = cid" using client_ofD[OF assms(1)] by auto
  then have "\<forall>d \<in> set (lv_clients w). lc_alive d \<longrightarrow> lc_id d \<noteq> cid"
    using assms(2,3) by (auto simp: distinct_map inj_on_def)
  then have "client_of cid (keepalive w) = None"
    by (auto simp: client_of_def keepalive_def tbl_get_def find_None_iff)
  then show ?thesis by (simp add: closed_socket_def remove_client_def keepalive_def)
qed

end
