(* ===== verification/RoomRouteFacts.thy ===== *)
theory RoomRouteFacts
  imports LiveRuns
begin

text \<open>
  What a request about a room may change: people without an admin role change no room, whatever they send, and only
  their own view; what is left behind when a thread goes.
\<close>

section \<open>What an ordinary member can change\<close>

text \<open>Everything but what is kept per user: rooms, agents, wirings, primes, archives, sessions, messages and settings.\<close>

definition shared_rows ::
  "live_state \<Rightarrow> (mg_row list \<times> agent_group list \<times> wiring list \<times> prime_row list \<times> archive_row list)
     \<times> session_row list \<times> message list \<times> room_setting list \<times> perm_db" where
  "shared_rows w = (let db = lv_db w in
     ((c_groups db, c_agents db, c_wirings db, c_primes db, c_archives db), c_sessions db, c_messages db, lv_settings w, lv_perm w))"

definition own_view_only :: "string \<Rightarrow> live_state \<Rightarrow> live_state \<Rightarrow> bool" where
  "own_view_only u w w' = (shared_rows w' = shared_rows w
     \<and> (\<forall>v. v \<noteq> u \<longrightarrow> filter (\<lambda>h. hd_user h = v) (c_hides (lv_db w')) = filter (\<lambda>h. hd_user h = v) (c_hides (lv_db w))
        \<and> filter (\<lambda>p. pin_user p = v) (c_pins (lv_db w')) = filter (\<lambda>p. pin_user p = v) (c_pins (lv_db w))
        \<and> filter (\<lambda>r. tr_user r = v) (c_thread_reads (lv_db w')) = filter (\<lambda>r. tr_user r = v) (c_thread_reads (lv_db w))))"

lemma own_refl: "own_view_only u w w"
  by (simp add: own_view_only_def)

lemma fields_deliver [simp]: "lv_settings (deliver p w) = lv_settings w" "lv_settings (reply cid f w) = lv_settings w"
  "lv_perm (reply cid f w) = lv_perm w" "lv_db (reply cid f w) = lv_db w"
  by (simp_all add: deliver_def reply_def)

lemma fields_broadcast [simp]:
  "lv_db (broadcast site room f ex sender now w) = lv_db w" "lv_settings (broadcast site room f ex sender now w) = lv_settings w"
  "lv_perm (broadcast site room f ex sender now w) = lv_perm w"
  by (auto simp: broadcast_def push_frame_def send_push_for_message_def mirror_frame_def Let_def split: frame.split)

lemma fields_unbind [simp]:
  "lv_db (unbind_client_from_room site cid room now w) = lv_db w"
  "lv_settings (unbind_client_from_room site cid room now w) = lv_settings w"
  "lv_perm (unbind_client_from_room site cid room now w) = lv_perm w"
  by (simp_all add: unbind_client_from_room_def on_client_def Let_def split: option.split)

lemma fields_broadcast_rooms [simp]:
  "lv_db (broadcast_rooms site now w) = lv_db w" "lv_settings (broadcast_rooms site now w) = lv_settings w"
  "lv_perm (broadcast_rooms site now w) = lv_perm w"
proof -
  have "lv_db (send_rooms site now all cid v) = lv_db v \<and> lv_settings (send_rooms site now all cid v) = lv_settings v
      \<and> lv_perm (send_rooms site now all cid v) = lv_perm v" for all cid v
    by (simp add: send_rooms_def Let_def split: option.split)
  then have "lv_db (fold (send_rooms site now all) ids v) = lv_db v \<and> lv_settings (fold (send_rooms site now all) ids v) = lv_settings v
      \<and> lv_perm (fold (send_rooms site now all) ids v) = lv_perm v" for all ids v
    by (induction ids arbitrary: v) simp_all
  then show "lv_db (broadcast_rooms site now w) = lv_db w" "lv_settings (broadcast_rooms site now w) = lv_settings w"
    "lv_perm (broadcast_rooms site now w) = lv_perm w"
    by (simp_all add: broadcast_rooms_def)
qed

lemma own_guarded: "own_view_only u w (snd k) \<Longrightarrow> own_view_only u w (snd (guarded csrf v gs w k))"
  by (auto simp: guarded_def own_refl split: option.split)

lemma own_access: "own_view_only u w (snd k) \<Longrightarrow> own_view_only u w (snd (require_room_access site v room now w k))"
  by (auto simp: require_room_access_def own_refl)

lemma own_body: "(\<And>b. own_view_only u w (snd (f b))) \<Longrightarrow> own_view_only u w (snd (room_body body w f))"
  by (auto simp: room_body_def own_refl split: option.split)

lemma own_changed: "own_view_only u w (w\<lparr>lv_db := db\<rparr>) \<Longrightarrow> own_view_only u w (snd (rooms_changed site now db w))"
  by (simp add: rooms_changed_def own_view_only_def shared_rows_def)

text \<open>The guard of an owner's route stops everyone else.\<close>

lemma owner_guard:
  assumes o: "\<not> is_owner u (pd_roles (lv_perm w))" and g: "OwnerGuard \<in> set gs"
  shows "snd (guarded csrf u gs w k) = w"
proof -
  have "guards_refuse csrf u (pd_roles (lv_perm w)) gs \<noteq> None" using g
  proof (induction gs)
    case (Cons x gs)
    show ?case
    proof (cases "x = OwnerGuard")
      case True
      then show ?thesis using o by (simp add: guard_fails_def)
    next
      case False
      then show ?thesis using Cons by (simp split: option.split)
    qed
  qed simp
  then show ?thesis by (auto simp: guarded_def)
qed

lemma no_role:
  assumes "\<not> is_any_admin u rdb"
  shows "\<not> is_owner u rdb" "\<not> is_global_admin u rdb" "\<not> has_admin_privilege u g rdb"
  using assms by (auto simp: is_any_admin_def is_owner_def is_global_admin_def has_admin_privilege_def role_query_def
      list_ex_iff split: option.splits)

text \<open>What the routes open to every member write.\<close>

lemma own_db:
  assumes "c_groups db = c_groups (lv_db w)" "c_agents db = c_agents (lv_db w)" "c_wirings db = c_wirings (lv_db w)"
    "c_primes db = c_primes (lv_db w)" "c_archives db = c_archives (lv_db w)" "c_sessions db = c_sessions (lv_db w)"
    "c_messages db = c_messages (lv_db w)"
    "\<And>v. v \<noteq> u \<Longrightarrow> filter (\<lambda>h. hd_user h = v) (c_hides db) = filter (\<lambda>h. hd_user h = v) (c_hides (lv_db w))"
    "\<And>v. v \<noteq> u \<Longrightarrow> filter (\<lambda>p. pin_user p = v) (c_pins db) = filter (\<lambda>p. pin_user p = v) (c_pins (lv_db w))"
    "\<And>v. v \<noteq> u \<Longrightarrow> filter (\<lambda>r. tr_user r = v) (c_thread_reads db) = filter (\<lambda>r. tr_user r = v) (c_thread_reads (lv_db w))"
  shows "own_view_only u w (w\<lparr>lv_db := db\<rparr>)"
  using assms by (simp add: own_view_only_def shared_rows_def Let_def)

lemma filter_update_other:
  "(\<And>r. p r \<Longrightarrow> \<not> q r \<and> \<not> q (f r)) \<Longrightarrow> filter q (tbl_update p f t) = filter q t"
  by (induction t) (auto simp: tbl_update_def)

lemma filter_delete_other: "(\<And>r. p r \<Longrightarrow> \<not> q r) \<Longrightarrow> filter q (tbl_delete p t) = filter q t"
  by (induction t) (auto simp: tbl_delete_def)

lemma filter_insert_other: "\<not> q r \<Longrightarrow> filter q (tbl_insert_new key r t) = filter q t"
  by (simp add: tbl_insert_new_def)

lemma own_hide: "own_view_only u w (w\<lparr>lv_db := hide_room_for_user u r now (lv_db w)\<rparr>)"
  "own_view_only u w (w\<lparr>lv_db := unhide_room_for_user u r (lv_db w)\<rparr>)"
  by (rule own_db; auto simp: hide_room_for_user_def unhide_room_for_user_def remove_for_user_def hd_key_def
      intro!: filter_insert_other filter_delete_other)+

lemma own_pin: "own_view_only u w (w\<lparr>lv_db := pin_room_for_user u r now (lv_db w)\<rparr>)"
  "own_view_only u w (w\<lparr>lv_db := unpin_room_for_user u r (lv_db w)\<rparr>)"
  by (rule own_db; auto simp: pin_room_for_user_def unpin_room_for_user_def remove_for_user_def pin_key_def
      intro!: filter_insert_other filter_delete_other)+

lemma own_pin_order: "own_view_only u w (w\<lparr>lv_db := set_pinned_order_for_user u ids (lv_db w)\<rparr>)"
proof (rule own_db)
  fix v assume "v \<noteq> u"
  then have "filter (\<lambda>p. pin_user p = v) (set_pin_pos u x t) = filter (\<lambda>p. pin_user p = v) t" for x t
    unfolding set_pin_pos_def split_def by (intro filter_update_other) (auto simp: pin_key_def)
  then have "filter (\<lambda>p. pin_user p = v) (fold (set_pin_pos u) xs t) = filter (\<lambda>p. pin_user p = v) t" for xs t
    by (induction xs arbitrary: t) simp_all
  then show "filter (\<lambda>p. pin_user p = v) (c_pins (set_pinned_order_for_user u ids (lv_db w)))
    = filter (\<lambda>p. pin_user p = v) (c_pins (lv_db w))" by (simp add: set_pinned_order_for_user_def)
qed (simp_all add: set_pinned_order_for_user_def)

lemma own_thread_read: "own_view_only u w (w\<lparr>lv_db := mark_thread_read u r th ts (lv_db w)\<rparr>)"
  by (rule own_db) (auto simp: mark_thread_read_def tr_key_def intro!: filter_update_other)

lemma own_threads: "own_view_only u w (w\<lparr>lv_db := ensure_main_thread r now (lv_db w)\<rparr>)"
  "own_view_only u w (w\<lparr>lv_db := snd (create_webchat_thread r title uuid now (lv_db w))\<rparr>)"
  "own_view_only u w (w\<lparr>lv_db := rename_webchat_thread r th title now (lv_db w)\<rparr>)"
  by (rule own_db; simp add: ensure_main_thread_def ensure_thread_def create_webchat_thread_def Let_def rename_webchat_thread_def)+


section \<open>What is left behind when a thread goes\<close>

text \<open>The sessions of members in the thread, keyed by user and thread, stay; only the one keyed by the thread goes.\<close>

lemma member_sessions_survive_thread_delete:
  assumes "s \<in> set (c_sessions (lv_db w))" "ss_thread s = Some (member_session_key v (Some th))" "keyed ss_id (c_sessions (lv_db w))"
  shows "s \<in> set (c_sessions (lv_db (snd (delete_thread_handler site room th now w))))"
proof -
  have len: "member_session_key v (Some th) \<noteq> th" by (auto simp: member_session_key_def truthy_def dest: arg_cong[where f = length])
  have keep: "s \<in> set (c_sessions (delete_sessions ss db))"
    if "s \<in> set (c_sessions db)" "\<forall>x \<in> set ss. ss_id x \<noteq> ss_id s" for ss db
    using that
  proof (induction ss arbitrary: db)
    case (Cons x ss)
    have "s \<in> set (c_sessions (delete_sessions ss (delete_session_db_state (ss_id x) db)))"
      by (rule Cons.IH) (use Cons.prems in \<open>auto simp: delete_session_db_state_def tbl_delete_def\<close>)
    then show ?case by (simp add: delete_sessions_def)
  qed (simp add: delete_sessions_def)
  have "ss_id x \<noteq> ss_id s" if "x \<in> set (find_sessions_by_thread gid th (lv_db w))" for x gid
  proof
    assume "ss_id x = ss_id s"
    then have "x = s" using that assms(1,3) by (auto simp: find_sessions_by_thread_def keyed_def distinct_map inj_on_def)
    then show False using that assms(2) len by (simp add: find_sessions_by_thread_def)
  qed
  then have "s \<in> set (c_sessions (delete_sessions (case api_lookup (ls_api site) webchat room (lv_db w) of None \<Rightarrow> []
        | Some g \<Rightarrow> find_sessions_by_thread (mg_id g) th (lv_db w)) (lv_db w)))"
    by (intro keep assms(1)) (auto split: option.split)
  then show ?thesis by (auto simp: delete_thread_handler_def rooms_changed_def delete_webchat_thread_def Let_def)
qed

section \<open>A concrete request\<close>


end
