(* ===== verification/Json.thy ===== *)
theory Json
  imports SignInConfig WorkloadShape
begin

text \<open>
  \<open>JSON.parse\<close>, and \<open>JSON.stringify\<close> of a list of texts (\<open>json_texts\<close>) read back. A number is its rational
  value, and an escape of a code unit above 255 is read as a question mark. The nesting depth is bounded by
  fuel in proportion to the text, which is always enough.
\<close>

section \<open>The reader\<close>

definition json_ws :: "char \<Rightarrow> bool" where
  "json_ws c = (c = CHR '' '' \<or> c = CHR 0x09 \<or> c = CHR 0x0A \<or> c = CHR 0x0D)"

definition skip_ws :: "string \<Rightarrow> string" where
  "skip_ws s = dropWhile json_ws s"

definition json_hex :: "char \<Rightarrow> bool" where
  "json_hex c = (is_digit c \<or> (97 \<le> code (lower c) \<and> code (lower c) \<le> 102))"

definition hex_value :: "string \<Rightarrow> nat" where
  "hex_value s = fold (\<lambda>c n. 16 * n + radix_digit c) s 0"

definition unit_char :: "nat \<Rightarrow> char" where
  "unit_char n = (if n < 256 then char_of n else CHR ''?'')"

definition escape_of :: "char \<Rightarrow> char option" where
  "escape_of c = map_of
     [(CHR 0x22, CHR 0x22), (CHR 0x5C, CHR 0x5C), (CHR ''/'', CHR ''/''), (CHR ''b'', CHR 0x08), (CHR ''f'', CHR 0x0C),
      (CHR ''n'', CHR 0x0A), (CHR ''r'', CHR 0x0D), (CHR ''t'', CHR 0x09)] c"

definition push_char :: "char \<Rightarrow> (string \<times> string) option \<Rightarrow> (string \<times> string) option" where
  "push_char c r = map_option (\<lambda>(t, rest). (c # t, rest)) r"

text \<open>A text up to its closing quote, and what follows.\<close>

fun read_chars :: "string \<Rightarrow> (string \<times> string) option" where
  "read_chars [] = None"
| "read_chars (c # s) =
     (if c = CHR 0x22 then Some ([], s)
      else if c = CHR 0x5C then (case s of
          [] \<Rightarrow> None
        | e # t \<Rightarrow> (if e = CHR ''u'' then (case t of
              a # b # d # f # u \<Rightarrow> (if list_all json_hex [a, b, d, f] then push_char (unit_char (hex_value [a, b, d, f])) (read_chars u) else None)
            | _ \<Rightarrow> None)
            else (case escape_of e of None \<Rightarrow> None | Some x \<Rightarrow> push_char x (read_chars t))))
      else if code c < 32 then None
      else push_char c (read_chars s))"

definition read_fraction :: "string \<Rightarrow> (string \<times> string) option" where
  "read_fraction s = (case s of c # r \<Rightarrow> (if c = CHR ''.'' then (case digits_of r of (f, t) \<Rightarrow> if f = [] then None else Some (f, t))
     else Some ([], s)) | [] \<Rightarrow> Some ([], []))"

definition read_exponent :: "string \<Rightarrow> (int \<times> string) option" where
  "read_exponent s = (case s of c # r \<Rightarrow> (if lower c = CHR ''e''
       then (let (neg, u) = (case r of d # r1 \<Rightarrow> if d = CHR ''-'' then (True, r1) else if d = CHR ''+'' then (False, r1) else (False, r)
                             | [] \<Rightarrow> (False, []));
                 (ds, t) = digits_of u
             in if ds = [] then None else Some (if neg then - int (read_nat ds) else int (read_nat ds), t))
       else Some (0, s)) | [] \<Rightarrow> Some (0, []))"

definition read_number :: "string \<Rightarrow> (jval \<times> string) option" where
  "read_number s =
     (let (neg, u) = (case s of c # r \<Rightarrow> if c = CHR ''-'' then (True, r) else (False, s) | [] \<Rightarrow> (False, []));
          (w, r) = digits_of u
      in if w = [] \<or> (hd w = CHR ''0'' \<and> 1 < length w) then None
         else (case read_fraction r of None \<Rightarrow> None
         | Some (f, r1) \<Rightarrow> (case read_exponent r1 of None \<Rightarrow> None
         | Some (e, r2) \<Rightarrow> Some (VNum ((if neg then - 1 else 1) * decimal_value w f * power_of_ten e), r2))))"

definition read_word :: "string \<Rightarrow> (jval \<times> string) option" where
  "read_word s =
     (if starts_with s ''true'' then Some (VBool True, drop 4 s)
      else if starts_with s ''false'' then Some (VBool False, drop 5 s)
      else if starts_with s ''null'' then Some (VNull, drop 4 s)
      else read_number s)"

fun read_value :: "nat \<Rightarrow> string \<Rightarrow> (jval \<times> string) option"
  and read_items :: "nat \<Rightarrow> string \<Rightarrow> (jval list \<times> string) option"
  and read_members :: "nat \<Rightarrow> string \<Rightarrow> ((string \<times> jval) list \<times> string) option"
where
  "read_value 0 s = None"
| "read_value (Suc n) s = (case skip_ws s of
     [] \<Rightarrow> None
   | c # r \<Rightarrow>
       (if c = CHR 0x22 then map_option (\<lambda>(t, x). (VStr t, x)) (read_chars r)
        else if c = CHR ''['' then (case skip_ws r of
            [] \<Rightarrow> None
          | d # x \<Rightarrow> (if d = CHR '']'' then Some (VArr [], x) else map_option (\<lambda>(vs, y). (VArr vs, y)) (read_items n r)))
        else if c = CHR ''{'' then (case skip_ws r of
            [] \<Rightarrow> None
          | d # x \<Rightarrow> (if d = CHR ''}'' then Some (VObj [], x) else map_option (\<lambda>(kvs, y). (VObj kvs, y)) (read_members n r)))
        else read_word (c # r)))"
| "read_items 0 s = None"
| "read_items (Suc n) s = (case read_value n s of
     None \<Rightarrow> None
   | Some (v, r) \<Rightarrow> (case skip_ws r of
       [] \<Rightarrow> None
     | d # x \<Rightarrow> (if d = CHR '','' then map_option (\<lambda>(vs, y). (v # vs, y)) (read_items n x)
                 else if d = CHR '']'' then Some ([v], x) else None)))"
| "read_members 0 s = None"
| "read_members (Suc n) s = (case skip_ws s of
     [] \<Rightarrow> None
   | q # r \<Rightarrow> (if q \<noteq> CHR 0x22 then None else (case read_chars r of
       None \<Rightarrow> None
     | Some (k, r1) \<Rightarrow> (case skip_ws r1 of
         [] \<Rightarrow> None
       | c # r2 \<Rightarrow> (if c \<noteq> CHR '':'' then None else (case read_value n r2 of
           None \<Rightarrow> None
         | Some (v, r3) \<Rightarrow> (case skip_ws r3 of
             [] \<Rightarrow> None
           | d # x \<Rightarrow> (if d = CHR '','' then map_option (\<lambda>(kvs, y). ((k, v) # kvs, y)) (read_members n x)
                       else if d = CHR ''}'' then Some ([(k, v)], x) else None))))))))"

definition json_depth :: "string \<Rightarrow> nat" where
  "json_depth s = 2 * length s + 1"

text \<open>\<open>JSON.parse\<close>; a text that is not JSON is \<open>None\<close>.\<close>

definition json_parse :: "string \<Rightarrow> jval option" where
  "json_parse s = (case read_value (json_depth s) s of
     Some (v, r) \<Rightarrow> (if skip_ws r = [] then Some v else None) | None \<Rightarrow> None)"

section \<open>The fuel is enough\<close>

lemma skip_ws_le [simp]: "length (skip_ws s) \<le> length s"
  by (simp add: skip_ws_def length_dropWhile_le)

lemma skip_ws_Cons: "skip_ws s = c # r \<Longrightarrow> length r < length s"
  using skip_ws_le [of s] by simp

lemma read_chars_less: "read_chars s = Some (t, r) \<Longrightarrow> length r < length s"
proof (induction s arbitrary: t r rule: read_chars.induct)
  case (2 c s)
  then show ?case
    by (fastforce simp: push_char_def split: if_splits list.splits option.splits)
qed simp

lemma digits_of_le: "digits_of s = (w, r) \<Longrightarrow> length w + length r = length s"
  unfolding digits_of_def by (metis length_append prod.inject takeWhile_dropWhile_id)

lemma read_fraction_le: "read_fraction s = Some (f, r) \<Longrightarrow> length r \<le> length s"
  by (auto simp: read_fraction_def dest: digits_of_le split: list.splits if_splits prod.splits)

lemma read_exponent_le: "read_exponent s = Some (e, r) \<Longrightarrow> length r \<le> length s"
proof (cases s)
  case (Cons c x)
  assume r: "read_exponent s = Some (e, r)"
  obtain neg u where u: "(case x of d # r1 \<Rightarrow> if d = CHR ''-'' then (True, r1) else if d = CHR ''+'' then (False, r1) else (False, x)
      | [] \<Rightarrow> (False, [])) = (neg, u)" by fastforce
  then have "length u \<le> length x" by (auto split: list.splits if_splits)
  moreover have "length (snd (digits_of u)) \<le> length u" using digits_of_le [of u] by (cases "digits_of u") auto
  ultimately show ?thesis using r u by (auto simp: read_exponent_def Cons split: if_splits prod.splits)
qed (simp add: read_exponent_def)

lemma read_number_less: "read_number s = Some (v, r) \<Longrightarrow> length r < length s"
proof -
  assume r: "read_number s = Some (v, r)"
  obtain neg u where u: "(case s of c # r \<Rightarrow> if c = CHR ''-'' then (True, r) else (False, s) | [] \<Rightarrow> (False, [])) = (neg, u)"
    by fastforce
  obtain w x where w: "digits_of u = (w, x)" by fastforce
  from r obtain f y e where f: "w \<noteq> []" "read_fraction x = Some (f, y)" "read_exponent y = Some (e, r)"
    unfolding read_number_def u Let_def prod.case w by (auto split: if_splits option.splits)
  have "length u \<le> length s" using u by (auto split: list.splits if_splits)
  moreover have "length x < length u" using digits_of_le [OF w] f(1) by (cases w) auto
  ultimately show ?thesis using read_fraction_le [OF f(2)] read_exponent_le [OF f(3)] by simp
qed

lemma starts_with_length: "starts_with s p \<Longrightarrow> length p \<le> length s"
  by (auto simp: starts_with_def prefix_length_le)

lemma read_word_less: "read_word s = Some (v, r) \<Longrightarrow> length r < length s"
  unfolding read_word_def by (auto dest: read_number_less starts_with_length split: if_splits)

lemma readers_consume:
  "read_value n s = Some (v, r) \<Longrightarrow> length r < length s"
  "read_items n s = Some (vs, r) \<Longrightarrow> length r < length s"
  "read_members n s = Some (kvs, r) \<Longrightarrow> length r < length s"
proof (induction n arbitrary: s v vs kvs r)
  case (Suc n)
  { case 1
    obtain c x where c: "skip_ws s = c # x" using 1 by (cases "skip_ws s") auto
    have l: "length x < length s" using skip_ws_Cons [OF c] .
    show ?case
    proof (cases "c = CHR 0x22 \<or> c = CHR ''['' \<or> c = CHR ''{''")
      case True
      with 1 c have "length r \<le> length x"
        by (auto split: if_splits list.splits dest: read_chars_less skip_ws_Cons Suc.IH(2,3))
      with l show ?thesis by simp
    next
      case False
      with 1 c have "length r < length (c # x)" by (auto dest: read_word_less)
      then show ?thesis using skip_ws_le [of s] c by simp
    qed
  next
    case 2
    obtain v x where v: "read_value n s = Some (v, x)" using 2 by (auto split: option.splits)
    note l = Suc.IH(1) [OF v]
    show ?case using 2 v l by (auto split: list.splits if_splits dest!: skip_ws_Cons Suc.IH(2))
  next
    case 3
    obtain c x where c: "skip_ws s = c # x" "c = CHR 0x22" using 3 by (cases "skip_ws s") (auto split: if_splits)
    obtain k r1 where k: "read_chars x = Some (k, r1)" using 3 c by (auto split: option.splits)
    obtain d r2 where d: "skip_ws r1 = d # r2" "d = CHR '':''" using 3 c k by (cases "skip_ws r1") (auto split: if_splits)
    obtain v r3 where v: "read_value n r2 = Some (v, r3)" using 3 c k d by (auto split: option.splits)
    have l: "length r3 < length s"
      using skip_ws_Cons [OF c(1)] read_chars_less [OF k] skip_ws_Cons [OF d(1)] Suc.IH(1) [OF v] by simp
    show ?case using 3 c k d v l by (auto split: list.splits if_splits dest!: skip_ws_Cons Suc.IH(3))
  }
qed auto

text \<open>Twice the length of the text, and a little more, is as good as any greater bound.\<close>

lemma fuel_irrelevant:
  "2 * length s + 1 \<le> n \<Longrightarrow> 2 * length s + 1 \<le> m \<Longrightarrow> read_value n s = read_value m s"
  "2 * length s + 2 \<le> n \<Longrightarrow> 2 * length s + 2 \<le> m \<Longrightarrow> read_items n s = read_items m s"
  "2 * length s + 2 \<le> n \<Longrightarrow> 2 * length s + 2 \<le> m \<Longrightarrow> read_members n s = read_members m s"
proof (induction n arbitrary: s m)
  case (Suc n)
  { case 1
    then obtain k where m: "m = Suc k" by (cases m) auto
    have items: "read_items n x = read_items k x" "read_members n x = read_members k x" if "length x < length s" for x
      using 1 m that by (auto intro!: Suc.IH(2,3))
    show ?case unfolding m
      by (cases "skip_ws s") (auto simp: items dest: skip_ws_Cons split: list.split)
  next
    case 2
    then obtain k where m: "m = Suc k" by (cases m) auto
    have v: "read_value n s = read_value k s" using 2 m by (auto intro!: Suc.IH(1))
    have items: "read_items n x = read_items k x" if "length x < length s" for x
      using 2 m that by (auto intro!: Suc.IH(2))
    show ?case unfolding m by (auto simp: v items dest!: readers_consume(1) skip_ws_Cons split: list.split option.split)
  next
    case 3
    then obtain k where m: "m = Suc k" by (cases m) auto
    have v: "read_value n x = read_value k x" if "length x < length s" for x using 3 m that by (auto intro!: Suc.IH(1))
    have items: "read_members n x = read_members k x" if "length x < length s" for x
      using 3 m that by (auto intro!: Suc.IH(3))
    show ?case
    proof (cases "skip_ws s")
      case (Cons q r)
      show ?thesis
      proof (cases "read_chars r")
        case (Some kr)
        obtain key r1 where kr: "kr = (key, r1)" by (cases kr)
        have l1: "length r1 < length s" using skip_ws_Cons [OF Cons] read_chars_less [of r key r1] Some kr by simp
        show ?thesis
        proof (cases "skip_ws r1")
          case (Cons c r2)
          have l2: "length r2 < length s" using skip_ws_Cons [OF Cons] l1 by simp
          have vv: "read_value n r2 = read_value k r2" by (rule v [OF l2])
          show ?thesis unfolding m using \<open>skip_ws s = q # r\<close> Some kr Cons l2
            by (auto simp: vv items dest!: readers_consume(1) skip_ws_Cons split: list.split option.split)
        qed (simp add: m Cons Some kr)
      qed (simp add: m Cons)
    qed (simp add: m)
  }
qed auto

lemma json_depth_enough: "json_depth s \<le> n \<Longrightarrow> read_value n s = read_value (json_depth s) s"
  by (rule fuel_irrelevant(1)) (simp_all add: json_depth_def)

section \<open>Reading a list of texts back\<close>

lemma radix_hex_digit: "k < 16 \<Longrightarrow> radix_digit (hex_digit k) = k \<and> json_hex (hex_digit k)"
proof -
  have "\<forall>k \<in> set [0 ..< 16]. radix_digit (hex_digit k) = k \<and> json_hex (hex_digit k)"
    by (simp add: hex_digit_def radix_digit_def json_hex_def is_digit_def lower_def is_upper_def code_def)
  then show "k < 16 \<Longrightarrow> radix_digit (hex_digit k) = k \<and> json_hex (hex_digit k)" by simp
qed

lemma read_hex_escape:
  assumes "n < 32"
  shows "read_chars ([CHR 0x5C, CHR ''u'', CHR ''0'', CHR ''0'', hex_digit (n div 16), hex_digit (n mod 16)] @ x) =
    push_char (char_of n) (read_chars x)"
proof -
  have "n div 16 < 16" using assms by (simp add: less_mult_imp_div_less)
  then have a: "radix_digit (hex_digit (n div 16)) = n div 16" "json_hex (hex_digit (n div 16))"
    using radix_hex_digit by blast+
  have b: "radix_digit (hex_digit (n mod 16)) = n mod 16" "json_hex (hex_digit (n mod 16))"
    using radix_hex_digit [of "n mod 16"] by simp_all
  have z: "radix_digit (CHR ''0'') = 0" "json_hex (CHR ''0'')"
    by (simp_all add: radix_digit_def json_hex_def is_digit_def code_def)
  have "hex_value [CHR ''0'', CHR ''0'', hex_digit (n div 16), hex_digit (n mod 16)] = n"
    by (simp add: hex_value_def a b z)
  then show ?thesis using assms a(2) b(2) z(2) by (simp add: unit_char_def)
qed

definition short_escapes :: "(char \<times> char) list" where
  "short_escapes = [(CHR 0x22, CHR 0x22), (CHR 0x5C, CHR 0x5C), (CHR 0x08, CHR ''b''), (CHR 0x09, CHR ''t''),
     (CHR 0x0A, CHR ''n''), (CHR 0x0C, CHR ''f''), (CHR 0x0D, CHR ''r'')]"

lemma json_char_table:
  "json_char c = (case map_of short_escapes c of Some e \<Rightarrow> [CHR 0x5C, e]
     | None \<Rightarrow> if code c < 32 then [CHR 0x5C, CHR ''u'', CHR ''0'', CHR ''0'', hex_digit (code c div 16), hex_digit (code c mod 16)]
               else [c])"
  by (simp add: json_char_def short_escapes_def)

lemma short_escapes_back: "\<forall>(c, e) \<in> set short_escapes. e \<noteq> CHR ''u'' \<and> escape_of e = Some c"
  by (simp add: short_escapes_def escape_of_def)

lemma short_escapes_listed: "map_of short_escapes c = None \<Longrightarrow> c \<noteq> CHR 0x22 \<and> c \<noteq> CHR 0x5C"
  by (auto simp: short_escapes_def split: if_splits)

lemma read_char_escape: "read_chars (json_char c @ x) = push_char c (read_chars x)"
proof (cases "map_of short_escapes c")
  case None
  show ?thesis
  proof (cases "code c < 32")
    case True
    with None show ?thesis using read_hex_escape [OF True, of x] by (simp add: json_char_table code_def del: read_chars.simps)
  next
    case False
    with None short_escapes_listed show ?thesis by (simp add: json_char_table)
  qed
next
  case (Some e)
  with short_escapes_back have "e \<noteq> CHR ''u''" "escape_of e = Some c" by (auto dest: map_of_SomeD)
  with Some show ?thesis by (simp add: json_char_table)
qed

lemma read_json_text: "read_chars (concat (map json_char s) @ CHR 0x22 # x) = Some (s, x)"
  by (induction s) (simp_all add: read_char_escape push_char_def)

lemma skip_ws_text [simp]: "skip_ws (json_text s @ x) = json_text s @ x"
  by (simp add: skip_ws_def json_text_def json_ws_def)

lemma read_text_value: "read_value (Suc n) (json_text s @ x) = Some (VStr s, x)"
  using read_json_text [of s x] by (simp add: json_text_def skip_ws_def json_ws_def)

lemma read_text_items:
  "ss \<noteq> [] \<Longrightarrow> length ss < n \<Longrightarrow> read_items n (join_with '','' (map json_text ss) @ CHR '']'' # x) = Some (map VStr ss, x)"
proof (induction ss arbitrary: n)
  case (Cons s ss)
  then obtain k where n: "n = Suc (Suc k)" by (cases n; cases "n - 1") auto
  show ?case
  proof (cases ss)
    case Nil
    then show ?thesis by (simp add: n read_text_value skip_ws_def json_ws_def del: read_value.simps)
  next
    case (Cons t ts)
    have "read_items (Suc k) (join_with '','' (map json_text ss) @ CHR '']'' # x) = Some (map VStr ss, x)"
      using Cons.IH [of "Suc k"] Cons.prems n Cons by simp
    then show ?thesis using Cons by (simp add: n read_text_value skip_ws_def json_ws_def del: read_value.simps)
  qed
qed simp

lemma json_text_nonempty: "1 \<le> length (json_text s)" by (simp add: json_text_def)

lemma length_join_texts: "length ss \<le> Suc (length (join_with '','' (map json_text ss)))"
proof (induction ss)
  case (Cons s ss)
  then show ?case using json_text_nonempty [of s] by (cases ss) auto
qed simp

text \<open>What \<open>JSON.stringify\<close> writes for a list of texts, \<open>JSON.parse\<close> reads back.\<close>

lemma json_texts_back: "json_parse (json_texts ss) = Some (VArr (map VStr ss))"
proof (cases ss)
  case Nil
  then show ?thesis by (simp add: json_parse_def json_texts_def json_depth_def skip_ws_def json_ws_def numeral_eq_Suc)
next
  case (Cons t ts)
  let ?body = "join_with '','' (map json_text ss)"
  obtain r where r: "?body @ '']'' = CHR 0x22 # r" using Cons by (cases ts) (auto simp: json_text_def)
  have "length ss < 2 * length (json_texts ss)" using length_join_texts [of ss] by (simp add: json_texts_def)
  then have "read_items (2 * length (json_texts ss)) (?body @ CHR '']'' # []) = Some (map VStr ss, [])"
    using Cons by (intro read_text_items) simp_all
  then have "read_value (json_depth (json_texts ss)) (json_texts ss) = Some (VArr (map VStr ss), [])"
    using r by (simp add: json_texts_def json_depth_def skip_ws_def json_ws_def)
  then show ?thesis by (simp add: json_parse_def skip_ws_def)
qed

end
