(* ===== verification/Prejudge.thy ===== *)
theory Prejudge
  imports Json Redact SettingsStore
begin

text \<open>
  The optional model tier in front of human approvals (\<open>modules/approvals/prejudge.ts\<close>, its settings and
  triage records in \<open>channels/webchat/db.ts\<close>): the never-list, the flags, the prompt, the verdict read from a
  model's reply, and the hook that either approves or leaves the request to people. The two model services,
  and the text of an error the JavaScript engine raises, are parameters. The host's own steps
  (reading the pending row, telling the agent, resolving) either do what they are documented to do or raise.
\<close>

section \<open>The never-list\<close>

datatype triage_flag = FCredentials | FPermissions | FInstall | FCapability | FDestructive | FIrreversible | FOutbound | FBulk

definition flag_name :: "triage_flag \<Rightarrow> string" where
  "flag_name f = (case f of FCredentials \<Rightarrow> ''credentials'' | FPermissions \<Rightarrow> ''permissions'' | FInstall \<Rightarrow> ''install''
     | FCapability \<Rightarrow> ''capability'' | FDestructive \<Rightarrow> ''destructive'' | FIrreversible \<Rightarrow> ''irreversible''
     | FOutbound \<Rightarrow> ''outbound'' | FBulk \<Rightarrow> ''bulk'')"

definition TRIAGE_FLAGS :: "triage_flag list" where
  "TRIAGE_FLAGS = [FCredentials, FPermissions, FInstall, FCapability, FDestructive, FIrreversible, FOutbound, FBulk]"

definition NEVER_AUTO_APPROVE_ACTIONS :: "string list" where
  "NEVER_AUTO_APPROVE_ACTIONS = [''onecli_credential'', ''install_packages'', ''add_mcp_server'', ''instruction_change'', ''workloads_publish'']"

definition gap :: pat where
  "gap = XRun 1 (\<lambda>c. js_space c \<or> c = CHR 0x2D)"

text \<open>\<open>/\bfirst[\s-]+(a|b)rest\b/i\<close>.\<close>

definition command_shape :: "string \<Rightarrow> string list \<Rightarrow> pat list \<Rightarrow> pat" where
  "command_shape first ends_in rest = xseq ([XWordB, xlit_ci first, gap, xalt (map xlit_ci ends_in)] @ rest @ [XWordB])"

definition NEVER_PAYLOAD_SHAPES :: "(pat \<times> triage_flag) list" where
  "NEVER_PAYLOAD_SHAPES =
    [(xseq [XWordB, xlit_ci ''cli'', XExact 1 (\<lambda>c. c = CHR ''_'' \<or> c = CHR 0x2D), xlit_ci ''scope'', XWordB], FPermissions),
     (command_shape ''roles'' [''grant'', ''revoke''] [], FPermissions),
     (command_shape ''members'' [''add'', ''remove''] [], FPermissions),
     (command_shape ''policies'' [''set'', ''remove''] [], FPermissions),
     (command_shape ''config'' [''add'', ''remove''] [xlit_ci ''-package''], FInstall),
     (command_shape ''config'' [''add'', ''remove''] [chr (CHR 0x2D), xalt (map xlit_ci [''mcp-server'', ''mount''])], FCapability),
     (command_shape ''config'' [''update''] [], FCapability),
     (command_shape ''workloads'' [''up''] [], FCapability),
     (command_shape ''workloads'' [''delete'', ''restore''] [], FDestructive),
     (command_shape ''workloads'' [''expose''] [], FCapability)]"

definition is_never_auto_approvable :: "string \<Rightarrow> string \<Rightarrow> bool" where
  "is_never_auto_approvable action payload =
     (action \<in> set NEVER_AUTO_APPROVE_ACTIONS \<or> list_ex (\<lambda>(re, _). found_in re payload) NEVER_PAYLOAD_SHAPES)"

text \<open>The list of a set's members, in the order they first came in.\<close>

definition in_order :: "'a list \<Rightarrow> 'a list" where
  "in_order xs = fold add_new xs []"

lemma in_order_fold: "set (fold add_new xs acc) = set acc \<union> set xs" "distinct acc \<Longrightarrow> distinct (fold add_new xs acc)"
  by (induction xs arbitrary: acc) auto

lemma set_in_order [simp]: "set (in_order xs) = set xs"
  by (simp add: in_order_def in_order_fold)

lemma distinct_in_order [simp]: "distinct (in_order xs)"
  by (simp add: in_order_def in_order_fold)

definition heuristic_flags :: "string \<Rightarrow> string \<Rightarrow> triage_flag list" where
  "heuristic_flags action payload = in_order
     ((if action = ''onecli_credential'' then [FCredentials] else [])
      @ (if action = ''install_packages'' then [FInstall] else [])
      @ (if action = ''add_mcp_server'' then [FCapability] else [])
      @ (if action = ''instruction_change'' then [FCapability] else [])
      @ (if action = ''workloads_publish'' then [FCapability] else [])
      @ map snd (filter (\<lambda>(re, _). found_in re payload) NEVER_PAYLOAD_SHAPES))"

definition flag_of :: "jval \<Rightarrow> triage_flag option" where
  "flag_of v = (case v of VStr s \<Rightarrow> find (\<lambda>f. flag_name f = map lower (js_trim s)) TRIAGE_FLAGS | _ \<Rightarrow> None)"

definition parse_flags :: "jval option \<Rightarrow> triage_flag list" where
  "parse_flags raw = (case raw of Some (VArr vs) \<Rightarrow> in_order (List.map_filter flag_of vs) | _ \<Rightarrow> [])"

section \<open>The prompt\<close>

definition relay_token :: "string \<Rightarrow> pat" where
  "relay_token p = xseq [XWordB, xlit p, XRun 8 is_alpha_num]"

definition bearer_char :: "char \<Rightarrow> bool" where
  "bearer_char c = (is_alpha_num c \<or> c \<in> set ''._~+/='' \<or> c = CHR 0x2D)"

definition bearer_token :: pat where
  "bearer_token = xseq [xlit_ci ''Bearer'', XRun 1 js_space, XRun 8 bearer_char]"

definition REDACTED :: string where "REDACTED = ''[REDACTED]''"

text \<open>The word and the white space after it stay.\<close>

definition mask_bearer :: "string \<Rightarrow> string" where
  "mask_bearer m = take 6 m @ takeWhile js_space (drop 6 m) @ REDACTED"

definition redact_for_prompt :: "string \<Rightarrow> string" where
  "redact_for_prompt t = replace_all bearer_token mask_bearer
     (replace_all (relay_token ''mcr_'') (\<lambda>_. REDACTED)
       (replace_all (relay_token ''aoc_'') (\<lambda>_. REDACTED) (redact_sensitive_data t)))"

record approval =
  ap_id :: string
  ap_session :: "string option"
  ap_action :: string
  ap_payload :: string
  ap_title :: string
  ap_approver :: "string option"
  ap_created :: millis

definition MAX_PAYLOAD_CHARS :: nat where "MAX_PAYLOAD_CHARS = 2000"
definition MAX_QUESTION_CHARS :: nat where "MAX_QUESTION_CHARS = 1000"
definition MAX_REASON_CHARS :: nat where "MAX_REASON_CHARS = 300"

definition prompt_lines :: "approval \<Rightarrow> string option \<Rightarrow> string list" where
  "prompt_lines ap question =
     [''Action: '' @ ap_action ap, ''Title: '' @ redact_for_prompt (ap_title ap)]
     @ (if truthy question then [''Request: '' @ redact_for_prompt (take MAX_QUESTION_CHARS (the question))] else [])
     @ [''Payload: '' @ redact_for_prompt (take MAX_PAYLOAD_CHARS (ap_payload ap))]"

definition prompt :: "approval \<Rightarrow> string option \<Rightarrow> string" where
  "prompt ap question = join_with [CHR 0x0A] (prompt_lines ap question)"

section \<open>The verdict\<close>

datatype judge_verdict = Approve | Escalate
datatype tier = Unscreened | Heuristic | ByModel | Unavailable
datatype reversible = RYes | RNo | RUnknown

record prejudge_result =
  pj_verdict :: judge_verdict
  pj_reason :: string
  pj_tier :: tier
  pj_flags :: "triage_flag list"
  pj_heuristic :: "triage_flag list"
  pj_reversible :: reversible

definition escalate :: "string \<Rightarrow> tier \<Rightarrow> triage_flag list \<Rightarrow> triage_flag list \<Rightarrow> reversible \<Rightarrow> prejudge_result" where
  "escalate reason t flags heur rv = \<lparr>pj_verdict = Escalate, pj_reason = reason, pj_tier = t, pj_flags = flags,
     pj_heuristic = heur, pj_reversible = rv\<rparr>"

definition fence :: string where "fence = [CHR 0x60, CHR 0x60, CHR 0x60]"

definition ltrim :: "string \<Rightarrow> string" where "ltrim s = dropWhile js_space s"

definition rtrim :: "string \<Rightarrow> string" where "rtrim s = rev (dropWhile js_space (rev s))"

text \<open>\<open>replace(/^```(?:json)?\s*/i, '')\<close>, then \<open>replace(/\s*```$/, '')\<close>.\<close>

definition open_fence :: "string \<Rightarrow> string" where
  "open_fence s = (if starts_with s fence then
     (let t = drop 3 s in ltrim (if starts_with (map lower t) ''json'' then drop 4 t else t)) else s)"

definition close_fence :: "string \<Rightarrow> string" where
  "close_fence s = (if starts_with (rev s) fence then rtrim (take (length s - 3) s) else s)"

definition strip_fence :: "string \<Rightarrow> string" where
  "strip_fence content = js_trim (close_fence (open_fence (js_trim content)))"

definition js_object :: "jval \<Rightarrow> bool" where
  "js_object v = (case v of VObj _ \<Rightarrow> True | VArr _ \<Rightarrow> True | _ \<Rightarrow> False)"

definition reversible_of :: "jval option \<Rightarrow> reversible" where
  "reversible_of v = (if v = Some (VStr ''yes'') then RYes else if v = Some (VStr ''no'') then RNo else RUnknown)"

definition reason_of :: "jval option \<Rightarrow> string" where
  "reason_of v = (if js_trim (jtext v) = [] then [] else redact_for_prompt (take MAX_REASON_CHARS (js_trim (jtext v))))"

definition or_text :: "string \<Rightarrow> string \<Rightarrow> string" where
  "or_text s d = (if s = [] then d else s)"

definition parse_verdict :: "string \<Rightarrow> prejudge_result" where
  "parse_verdict content = (case json_parse (strip_fence content) of
     None \<Rightarrow> escalate ''unparseable model output'' ByModel [] [] RUnknown
   | Some v \<Rightarrow>
       (if \<not> js_object v then escalate ''unparseable model output'' ByModel [] [] RUnknown
        else (let reason = reason_of (jfield ''reason'' v); flags = parse_flags (jfield ''flags'' v);
                  rv = reversible_of (jfield ''reversible'' v)
              in if jfield ''verdict'' v = Some (VStr ''approve'')
                 then \<lparr>pj_verdict = Approve, pj_reason = or_text reason ''model judged the request routine and reversible'',
                       pj_tier = ByModel, pj_flags = flags, pj_heuristic = [], pj_reversible = rv\<rparr>
                 else escalate (or_text reason ''model did not approve'') ByModel flags [] rv)))"

section \<open>Settings\<close>

definition get_approval_prejudge_model_id :: "settings_db \<Rightarrow> string option" where
  "get_approval_prejudge_model_id = settings_getter ''approval_prejudge_model_id'' decode_nullable_string"

definition set_approval_prejudge_model_id :: "string option \<Rightarrow> millis \<Rightarrow> settings_db \<Rightarrow> settings_db option" where
  "set_approval_prejudge_model_id = settings_setter ''approval_prejudge_model_id'' encode_nullable_string"

definition texts_of :: "jval option \<Rightarrow> string list" where
  "texts_of v = (case v of Some (VArr vs) \<Rightarrow> List.map_filter (\<lambda>x. case x of VStr s \<Rightarrow> Some s | _ \<Rightarrow> None) vs | _ \<Rightarrow> [])"

definition decode_actions :: "sql_value option \<Rightarrow> string list" where
  "decode_actions v = (case v of Some (SText t) \<Rightarrow> (if t = [] then [] else texts_of (json_parse t)) | _ \<Rightarrow> [])"

definition get_approval_prejudge_actions :: "settings_db \<Rightarrow> string list" where
  "get_approval_prejudge_actions = settings_getter ''approval_prejudge_actions'' decode_actions"

definition set_approval_prejudge_actions :: "string list \<Rightarrow> millis \<Rightarrow> settings_db \<Rightarrow> settings_db option" where
  "set_approval_prejudge_actions = settings_setter ''approval_prejudge_actions'' (\<lambda>v. SText (json_texts v))"

definition is_usable_judge_model :: "webchat_model option \<Rightarrow> bool" where
  "is_usable_judge_model m = (case m of None \<Rightarrow> False
     | Some d \<Rightarrow> md_kind d = ''anthropic'' \<or> (truthy (md_endpoint d) \<and> md_kind d \<in> {''ollama'', ''openai-compatible''}))"

section \<open>Consulting the model\<close>

record judge_call =
  jc_model :: string
  jc_system :: string
  jc_user :: string

text \<open>
  A call raises with a message (\<open>Inl\<close>) or returns: the text of the Anthropic reply, or the status and
  body of the endpoint. \<open>jg_engine\<close> is the message of an error the engine raises on a body of the wrong shape.
\<close>

record judge =
  jg_rubric :: string
  jg_anthropic :: "judge_call \<Rightarrow> string + string"
  jg_fetch :: "string \<Rightarrow> judge_call \<Rightarrow> string + (nat \<times> string)"
  jg_engine :: string

definition judge_call :: "judge \<Rightarrow> webchat_model \<Rightarrow> approval \<Rightarrow> string option \<Rightarrow> judge_call" where
  "judge_call j m ap question = \<lparr>jc_model = md_model m, jc_system = jg_rubric j, jc_user = prompt ap question\<rparr>"

definition chat_url :: "webchat_model \<Rightarrow> string" where
  "chat_url m = strip_slashes (the (md_endpoint m)) @ ''/v1/chat/completions''"

text \<open>The first element, or the field \<open>0\<close>; \<open>null\<close> and \<open>undefined\<close> are both \<open>None\<close>.\<close>

definition present :: "jval option \<Rightarrow> jval option" where
  "present v = (if v = Some VNull then None else v)"

definition first_choice :: "jval \<Rightarrow> jval option" where
  "first_choice v = (case v of VArr (x # _) \<Rightarrow> Some x | VObj _ \<Rightarrow> jfield ''0'' v | _ \<Rightarrow> None)"

text \<open>\<open>body.choices?.[0]?.message?.content?.trim()\<close>; an error raised on the way is \<open>None\<close>.\<close>

definition chat_content :: "jval \<Rightarrow> string option option" where
  "chat_content body = (if body = VNull then None else
     (let choice = Option.bind (present (jfield ''choices'' body)) first_choice;
          message = Option.bind (present choice) (jfield ''message'')
      in case Option.bind (present message) (jfield ''content'') of
           Some (VStr s) \<Rightarrow> Some (Some (js_trim s))
         | None \<Rightarrow> Some None
         | Some VNull \<Rightarrow> Some None
         | Some _ \<Rightarrow> None))"

datatype answer = Said string | Failed string

text \<open>What the judge had to say: the trimmed reply, or why there is none.\<close>

definition ok_status :: "nat \<Rightarrow> bool" where
  "ok_status st = (200 \<le> st \<and> st \<le> 299)"

definition judge_said :: "string \<Rightarrow> answer" where
  "judge_said s = (if s = [] then Failed ''empty model response'' else Said s)"

definition call_failed :: "string \<Rightarrow> answer" where
  "call_failed e = Failed (''model call failed: '' @ e)"

definition consult :: "judge \<Rightarrow> webchat_model \<Rightarrow> approval \<Rightarrow> string option \<Rightarrow> answer" where
  "consult j m ap question =
     (let call = judge_call j m ap question in
      if md_kind m = ''anthropic'' then (case jg_anthropic j call of Inl e \<Rightarrow> call_failed e | Inr s \<Rightarrow> judge_said (js_trim s))
      else (case jg_fetch j (chat_url m) call of
          Inl e \<Rightarrow> call_failed e
        | Inr (st, text) \<Rightarrow>
            (if \<not> ok_status st then Failed (''model returned '' @ show_nat st)
             else (case Option.bind (json_parse text) chat_content of
                 None \<Rightarrow> call_failed (jg_engine j)
               | Some c \<Rightarrow> judge_said (coalesce c [])))))"

text \<open>A roster that cannot be read raises (\<open>None\<close>).\<close>

definition prejudge_approval ::
  "judge \<Rightarrow> settings_db \<Rightarrow> model_db option \<Rightarrow> approval \<Rightarrow> string option \<Rightarrow> prejudge_result option" where
  "prejudge_approval j st ms ap question =
     (let heur = heuristic_flags (ap_action ap) (ap_payload ap);
          no = (\<lambda>reason t. Some (escalate reason t [] heur RUnknown));
          model_id = get_approval_prejudge_model_id st
      in if \<not> truthy model_id then no ''pre-judge is not configured (no model)'' Unscreened
         else if ap_action ap \<notin> set (get_approval_prejudge_actions st) then no ''action is not opted in to pre-judge'' Unscreened
         else if truthy (ap_approver ap) then no ''approval targets a specific approver'' Unscreened
         else if is_never_auto_approvable (ap_action ap) (ap_payload ap) then no ''action matches the never-auto-approve list'' Heuristic
         else (case map_option (get_webchat_model (the model_id)) ms of
             None \<Rightarrow> None
           | Some None \<Rightarrow> no ''configured pre-judge model is unavailable'' Unavailable
           | Some (Some m) \<Rightarrow>
               (if \<not> is_usable_judge_model (Some m) then no ''configured pre-judge model is unavailable'' Unavailable
                else (case consult j m ap question of
                    Failed reason \<Rightarrow> no reason Unavailable
                  | Said content \<Rightarrow> Some ((parse_verdict content)\<lparr>pj_heuristic := heur\<rparr>)))))"

section \<open>Triage records\<close>

record triage_row =
  ta_approval :: string
  ta_tier :: tier
  ta_reason :: string
  ta_flags :: string \<comment> \<open>JSON\<close>
  ta_heuristic :: string \<comment> \<open>JSON\<close>
  ta_reversible :: reversible
  ta_at :: millis

definition store_approval_triage :: "string \<Rightarrow> prejudge_result \<Rightarrow> millis \<Rightarrow> triage_row list \<Rightarrow> triage_row list" where
  "store_approval_triage i r now t = tbl_upsert ta_approval
     \<lparr>ta_approval = i, ta_tier = pj_tier r, ta_reason = pj_reason r, ta_flags = json_texts (map flag_name (pj_flags r)),
      ta_heuristic = json_texts (map flag_name (pj_heuristic r)), ta_reversible = pj_reversible r, ta_at = now\<rparr> t"

record approval_triage =
  at_tier :: tier
  at_reason :: string
  at_flags :: "string list"
  at_heuristic :: "string list"
  at_reversible :: reversible

definition get_approval_triage :: "string \<Rightarrow> triage_row list \<Rightarrow> approval_triage option" where
  "get_approval_triage i t = map_option (\<lambda>r. \<lparr>at_tier = ta_tier r, at_reason = ta_reason r,
     at_flags = texts_of (json_parse (ta_flags r)), at_heuristic = texts_of (json_parse (ta_heuristic r)),
     at_reversible = ta_reversible r\<rparr>) (tbl_get ta_approval i t)"

record triage_view =
  tv_tier :: tier
  tv_reason :: string
  tv_flags :: "triage_flag list"
  tv_heuristic :: "triage_flag list"
  tv_reversible :: reversible

definition build_approval_triage_view :: "string \<Rightarrow> string \<Rightarrow> string \<Rightarrow> triage_row list \<Rightarrow> triage_view" where
  "build_approval_triage_view i action payload t =
     (let heur = heuristic_flags action payload in case get_approval_triage i t of
        None \<Rightarrow> \<lparr>tv_tier = Unscreened, tv_reason = [], tv_flags = [], tv_heuristic = heur, tv_reversible = RUnknown\<rparr>
      | Some r \<Rightarrow> \<lparr>tv_tier = at_tier r, tv_reason = at_reason r, tv_flags = parse_flags (Some (VArr (map VStr (at_flags r)))),
          tv_heuristic = heur, tv_reversible = at_reversible r\<rparr>)"

section \<open>The hook\<close>

text \<open>
  What the hook reads when: the settings at its start and again when it judges (another request may have
  changed them), the pending row (reading may raise, \<open>None\<close>), and which of its own writes raise.
\<close>

record hook_run =
  hk_settings :: settings_db
  hk_later :: settings_db
  hk_models :: "model_db option"
  hk_pending :: "string \<Rightarrow> approval option option"
  hk_store_raises :: bool
  hk_notify_raises :: bool
  hk_resolve_raises :: bool

datatype hook_line = LogEscalated string | LogApproved string | LogTriageFailed | LogNoticeFailed | LogFailed

record hook_state =
  hs_triage :: "triage_row list"
  hs_notices :: "(string option \<times> string) list" \<comment> \<open>session and text\<close>
  hs_resolved :: "(approval \<times> string) list" \<comment> \<open>as approved, and by whom\<close>
  hs_log :: "hook_line list"

definition hook_log :: "hook_line \<Rightarrow> hook_state \<Rightarrow> hook_state" where
  "hook_log l w = w\<lparr>hs_log := hs_log w @ [l]\<rparr>"

definition record_escalation :: "hook_run \<Rightarrow> string \<Rightarrow> prejudge_result \<Rightarrow> millis \<Rightarrow> hook_state \<Rightarrow> hook_state" where
  "record_escalation k i r now w = hook_log (LogEscalated (pj_reason r))
     (if hk_store_raises k then hook_log LogTriageFailed w
      else w\<lparr>hs_triage := store_approval_triage i r now (hs_triage w)\<rparr>)"

definition notify_approved :: "hook_run \<Rightarrow> string option \<Rightarrow> string \<Rightarrow> hook_state \<Rightarrow> hook_state" where
  "notify_approved k session reason w =
     (if hk_notify_raises k then hook_log LogNoticeFailed w
      else w\<lparr>hs_notices := hs_notices w @ [(session, ''Auto-approved (pre-judge): '' @ reason)]\<rparr>)"

definition maybe_prejudge_approval ::
  "judge \<Rightarrow> hook_run \<Rightarrow> string \<Rightarrow> string option \<Rightarrow> string option \<Rightarrow> millis \<Rightarrow> hook_state \<Rightarrow> bool \<times> hook_state" where
  "maybe_prejudge_approval j k i session question now w =
     (let model_id = get_approval_prejudge_model_id (hk_settings k) in
      if \<not> truthy model_id then (False, w)
      else (case hk_pending k i of
          None \<Rightarrow> (False, hook_log LogFailed w)
        | Some None \<Rightarrow> (False, w)
        | Some (Some ap) \<Rightarrow>
            (if ap_action ap \<notin> set (get_approval_prejudge_actions (hk_settings k)) then (False, w)
             else (case prejudge_approval j (hk_later k) (hk_models k) ap question of
               None \<Rightarrow> (False, hook_log LogFailed w)
             | Some r \<Rightarrow> if pj_verdict r \<noteq> Approve then (False, record_escalation k i r now w)
               else (let w1 = notify_approved k session (pj_reason r) (hook_log (LogApproved (pj_reason r)) w)
                     in if hk_resolve_raises k then (False, hook_log LogFailed w1)
                        else (True, w1\<lparr>hs_resolved := hs_resolved w1 @ [(ap, ''prejudge:'' @ the model_id)]\<rparr>))))))"

section \<open>The owner's settings page\<close>

datatype prejudge_refusal = BadModelId | UnusableModel | BadActions | NeverActions "string list"

definition valid_action :: "jval \<Rightarrow> bool" where
  "valid_action v = (case v of VStr s \<Rightarrow> js_trim s \<noteq> [] | _ \<Rightarrow> False)"

text \<open>The model named by a body: \<open>None\<close> when the field is absent, \<open>Some None\<close> for \<open>null\<close>.\<close>

definition model_field :: "jval \<Rightarrow> model_db \<Rightarrow> prejudge_refusal + string option option" where
  "model_field body ms = (case jfield ''modelId'' body of
     None \<Rightarrow> Inr None
   | Some VNull \<Rightarrow> Inr (Some None)
   | Some (VStr s) \<Rightarrow> (if is_usable_judge_model (get_webchat_model s ms) then Inr (Some (Some s)) else Inl UnusableModel)
   | Some _ \<Rightarrow> Inl BadModelId)"

definition actions_field :: "jval \<Rightarrow> prejudge_refusal + string list option" where
  "actions_field body = (case jfield ''actions'' body of
     None \<Rightarrow> Inr None
   | Some (VArr vs) \<Rightarrow>
       (if \<not> list_all valid_action vs then Inl BadActions
        else (let actions = in_order (map js_trim (texts_of (Some (VArr vs))));
                  blocked = filter (\<lambda>a. a \<in> set NEVER_AUTO_APPROVE_ACTIONS) actions
              in if blocked \<noteq> [] then Inl (NeverActions blocked) else Inr (Some actions)))
   | Some _ \<Rightarrow> Inl BadActions)"

text \<open>
  \<open>rApprovalPrejudgePut\<close> after its body is read as an object: a refusal, or the settings after the two
  writes; \<open>None\<close> is a write that raises, and what the first one wrote then stays.
\<close>

definition opt_write :: "('a \<Rightarrow> settings_db \<Rightarrow> settings_db option) \<Rightarrow> 'a option \<Rightarrow> settings_db \<Rightarrow> settings_db option" where
  "opt_write f v st = (case v of None \<Rightarrow> Some st | Some x \<Rightarrow> f x st)"

definition r_approval_prejudge_put ::
  "jval \<Rightarrow> model_db \<Rightarrow> millis \<Rightarrow> settings_db \<Rightarrow> prejudge_refusal option option \<times> settings_db" where
  "r_approval_prejudge_put body ms now st = (case model_field body ms of
     Inl e \<Rightarrow> (Some (Some e), st)
   | Inr m \<Rightarrow> (case actions_field body of
       Inl e \<Rightarrow> (Some (Some e), st)
     | Inr as \<Rightarrow> (case opt_write (\<lambda>v. set_approval_prejudge_model_id v now) m st of
         None \<Rightarrow> (None, st)
       | Some st1 \<Rightarrow> (case opt_write (\<lambda>v. set_approval_prejudge_actions v now) as st1 of
           None \<Rightarrow> (None, st1)
         | Some st2 \<Rightarrow> (Some None, st2)))))"

end
