(* ===== verification/ApprovalFlow.thy ===== *)
theory ApprovalFlow
  imports Prejudge
begin

text \<open>
  Approvals with no session behind them (\<open>modules/approvals/sessionless.ts\<close>), the sweep that denies what nobody
  answered (\<open>expiry.ts\<close>) and the group a gateway's identity belongs to (\<open>agent-identity.ts\<close>). The host's table
  of pending approvals (\<open>db/sessions\<close>) is not part of this repository: it is the parameter \<open>pending_api\<close>, with
  what its functions are documented to do in \<open>pending_api_ok\<close>.
\<close>

section \<open>The host's table\<close>

record pending_approval =
  pn_approval :: approval
  pn_status :: string

type_synonym pending_db = "pending_approval list"

record pending_api =
  pa_create :: "approval \<Rightarrow> pending_db \<Rightarrow> pending_db option"
  pa_delete :: "string \<Rightarrow> pending_db \<Rightarrow> pending_db"
  pa_transition :: "string \<Rightarrow> string \<Rightarrow> string \<Rightarrow> pending_db \<Rightarrow> bool \<times> pending_db"
  pa_get :: "string \<Rightarrow> pending_db \<Rightarrow> pending_approval option"
  pa_expired :: "millis \<Rightarrow> pending_db \<Rightarrow> approval list"

definition row_id :: "pending_approval \<Rightarrow> string" where
  "row_id r = ap_id (pn_approval r)"

text \<open>
  A created row is pending, a deleted one is gone, a transition changes the status of a row that has the
  expected one and reports whether it did, and each leaves the other rows alone; the expired rows are the pending
  ones created before the cut.
\<close>

definition only_at :: "pending_api \<Rightarrow> string \<Rightarrow> pending_approval option \<Rightarrow> pending_db \<Rightarrow> pending_db \<Rightarrow> bool" where
  "only_at api i r d d' = (pa_get api i d' = r \<and> (\<forall>k. k \<noteq> i \<longrightarrow> pa_get api k d' = pa_get api k d))"

definition pending_api_ok :: "pending_api \<Rightarrow> bool" where
  "pending_api_ok api =
    ((\<forall>a d d'. pa_create api a d = Some d' \<longrightarrow> pa_get api (ap_id a) d = None
        \<and> only_at api (ap_id a) (Some \<lparr>pn_approval = a, pn_status = ''pending''\<rparr>) d d')
     \<and> (\<forall>i d. only_at api i None d (pa_delete api i d))
     \<and> (\<forall>i p q d. pa_transition api i p q d = (case pa_get api i d of
          Some r \<Rightarrow> (if pn_status r = p then (True, snd (pa_transition api i p q d)) else (False, d)) | None \<Rightarrow> (False, d)))
     \<and> (\<forall>i p q d d'. pa_transition api i p q d = (True, d') \<longrightarrow>
          only_at api i (map_option (\<lambda>r. r\<lparr>pn_status := q\<rparr>) (pa_get api i d)) d d')
     \<and> (\<forall>c d a. a \<in> set (pa_expired api c d) \<longleftrightarrow>
          (\<exists>r. pa_get api (ap_id a) d = Some r \<and> pn_approval r = a \<and> pn_status r = ''pending'' \<and> ap_created a < c))
     \<and> (\<forall>c d. distinct (map ap_id (pa_expired api c d))))"

text \<open>The table as SQL keeps it.\<close>

definition host_pending_api :: pending_api where
  "host_pending_api = \<lparr>
     pa_create = (\<lambda>a d. if tbl_get row_id (ap_id a) d = None then Some (\<lparr>pn_approval = a, pn_status = ''pending''\<rparr> # d) else None),
     pa_delete = (\<lambda>i d. tbl_delete (\<lambda>r. row_id r = i) d),
     pa_transition = (\<lambda>i p q d. case tbl_get row_id i d of
        Some r \<Rightarrow> (if pn_status r = p then (True, \<lparr>pn_approval = pn_approval r, pn_status = q\<rparr> # tbl_delete (\<lambda>r. row_id r = i) d) else (False, d))
      | None \<Rightarrow> (False, d)),
     pa_get = tbl_get row_id,
     pa_expired = (\<lambda>c d. map pn_approval (filter (\<lambda>r. pn_status r = ''pending'' \<and> ap_created (pn_approval r) < c)
        (List.map_filter (\<lambda>i. tbl_get row_id i d) (in_order (map row_id d)))))\<rparr>"

section \<open>Approvals without a session\<close>

datatype click_outcome = OApprove | OReject

text \<open>
  What is under way: the rows, the calls made to handlers, and the approvals whose handler has not returned.
\<close>

record flow_state =
  fl_rows :: pending_db
  fl_calls :: "(approval \<times> click_outcome \<times> string) list"
  fl_running :: "string list"

definition outcome_of :: "string \<Rightarrow> click_outcome" where
  "outcome_of option = (if option = ''approve'' then OApprove else OReject)"

text \<open>
  \<open>resolveSessionlessApproval\<close> up to its call of the handler: whether a handler owns the action, and whether the
  handler is called. Once the handler returns or raises, \<open>finish_call\<close> removes the row.
\<close>

definition begin_call :: "approval \<Rightarrow> click_outcome \<Rightarrow> string \<Rightarrow> flow_state \<Rightarrow> flow_state" where
  "begin_call ap out u w = w\<lparr>fl_calls := fl_calls w @ [(ap, out, u)], fl_running := ap_id ap # fl_running w\<rparr>"

datatype resolution = NoHandler | Ignored | Called

definition resolve_sessionless_approval ::
  "pending_api \<Rightarrow> (string \<Rightarrow> bool) \<Rightarrow> approval \<Rightarrow> string \<Rightarrow> string \<Rightarrow> flow_state \<Rightarrow> resolution \<times> flow_state" where
  "resolve_sessionless_approval api handlers ap option u w =
     (if \<not> handlers (ap_action ap) then (NoHandler, w)
      else if outcome_of option = OApprove then (case pa_transition api (ap_id ap) ''pending'' ''approved'' (fl_rows w) of
          (False, _) \<Rightarrow> (Ignored, w)
        | (True, rows) \<Rightarrow> (Called, begin_call ap OApprove u (w\<lparr>fl_rows := rows\<rparr>)))
      else (Called, begin_call ap OReject u w))"

definition finish_call :: "pending_api \<Rightarrow> string \<Rightarrow> flow_state \<Rightarrow> flow_state" where
  "finish_call api i w = w\<lparr>fl_rows := pa_delete api i (fl_rows w), fl_running := remove1 i (fl_running w)\<rparr>"

text \<open>\<open>requestSessionlessApproval\<close>: whom it can ask, and which of the cards went out.\<close>

definition request_sessionless_approval ::
  "pending_api \<Rightarrow> string list \<Rightarrow> string list \<Rightarrow> (string \<Rightarrow> bool) option \<Rightarrow> approval \<Rightarrow> pending_db \<Rightarrow> string option option \<times> pending_db" where
  "request_sessionless_approval api approvers targets delivers ap d =
     (if approvers = [] \<or> targets = [] then (Some None, d)
      else (case delivers of
          None \<Rightarrow> (Some None, d)
        | Some sends \<Rightarrow> (case pa_create api ap d of
            None \<Rightarrow> (None, d)
          | Some d1 \<Rightarrow> (if filter sends targets = [] then (Some None, pa_delete api (ap_id ap) d1)
              else (Some (Some (ap_id ap)), d1)))))"

section \<open>Expiry\<close>

definition DEFAULT_TTL_HOURS :: rat where "DEFAULT_TTL_HOURS = 24"

text \<open>A value that is no finite positive number turns expiry off.\<close>

definition approval_ttl_ms :: "string option \<Rightarrow> rat" where
  "approval_ttl_ms raw =
     (case (if truthy raw then js_number (the raw) else Some DEFAULT_TTL_HOURS) of
        None \<Rightarrow> 0
      | Some h \<Rightarrow> (if h \<le> 0 then 0 else h * 60 * 60 * 1000))"

text \<open>
  One overdue approval. A handler or \<open>finalizeReject\<close> may raise; \<open>finalize\<close> is the host's, and \<open>None\<close> is its
  raising. The answer is whether it was denied.
\<close>

record expiry_run =
  xr_handlers :: "string \<Rightarrow> bool"
  xr_handler_raises :: "approval \<Rightarrow> bool"
  xr_session :: "string \<Rightarrow> bool"
  xr_finalize :: "approval \<Rightarrow> pending_db \<Rightarrow> bool option \<times> pending_db"

definition expire_one :: "pending_api \<Rightarrow> expiry_run \<Rightarrow> approval \<Rightarrow> flow_state \<Rightarrow> bool \<times> flow_state" where
  "expire_one api x ap w =
     (if \<not> truthy (ap_session ap) then
        (case resolve_sessionless_approval api (xr_handlers x) ap ''reject'' ''system:expiry'' w of
           (NoHandler, w1) \<Rightarrow> (False, w1)
         | (Ignored, w1) \<Rightarrow> (True, w1)
         | (Called, w1) \<Rightarrow> (\<not> xr_handler_raises x ap, finish_call api (ap_id ap) w1))
      else if \<not> xr_session x (the (ap_session ap)) then (False, w)
      else (let (r, rows) = xr_finalize x ap (fl_rows w) in (r = Some True, w\<lparr>fl_rows := rows\<rparr>)))"

fun expire_all :: "pending_api \<Rightarrow> expiry_run \<Rightarrow> approval list \<Rightarrow> flow_state \<Rightarrow> nat \<times> flow_state" where
  "expire_all api x [] w = (0, w)"
| "expire_all api x (ap # aps) w =
     (let (one, w1) = expire_one api x ap w; (n, w2) = expire_all api x aps w1
      in ((if one then Suc n else n), w2))"

text \<open>The cut is a time in milliseconds; a fraction of one rounds up, as a created time is whole.\<close>

definition sweep_expired_approvals :: "pending_api \<Rightarrow> expiry_run \<Rightarrow> string option \<Rightarrow> millis \<Rightarrow> flow_state \<Rightarrow> nat \<times> flow_state" where
  "sweep_expired_approvals api x raw now w =
     (let ttl = approval_ttl_ms raw in if ttl = 0 then (0, w)
      else expire_all api x (pa_expired api (\<lceil>of_int now - ttl\<rceil>) (fl_rows w)) w)"

section \<open>Identities of a gateway\<close>

text \<open>\<open>None\<close> is a lookup that raises.\<close>

definition resolve_approval_agent_group ::
  "(string \<Rightarrow> bool option) \<Rightarrow> (string \<Rightarrow> string option option) option \<Rightarrow> string \<Rightarrow> string" where
  "resolve_approval_agent_group known fallback external =
     (if external = [] then external
      else (case known external of
          None \<Rightarrow> external
        | Some True \<Rightarrow> external
        | Some False \<Rightarrow> (case fallback of None \<Rightarrow> external
            | Some f \<Rightarrow> (case f external of Some (Some g) \<Rightarrow> g | _ \<Rightarrow> external))))"

section \<open>Any order of clicks\<close>

text \<open>
  What happens to approvals without a session, in any order: one is raised under an id never drawn before, someone
  clicks (with the row the dispatcher read at some time), the sweep rejects one, or a handler returns.
\<close>

datatype flow_event = Raised approval | Clicked approval string string | Returned string

inductive flow_step :: "pending_api \<Rightarrow> (string \<Rightarrow> bool) \<Rightarrow> string set \<times> flow_state \<Rightarrow> flow_event \<Rightarrow> string set \<times> flow_state \<Rightarrow> bool"
  for api handlers where
  raised: "ap_id ap \<notin> used \<Longrightarrow> pa_create api ap (fl_rows w) = Some rows
    \<Longrightarrow> flow_step api handlers (used, w) (Raised ap) (insert (ap_id ap) used, w\<lparr>fl_rows := rows\<rparr>)"
| clicked: "ap_id ap \<in> used \<Longrightarrow> resolve_sessionless_approval api handlers ap option u w = (res, w')
    \<Longrightarrow> flow_step api handlers (used, w) (Clicked ap option u) (used, w')"
| returned: "i \<in> set (fl_running w)
    \<Longrightarrow> flow_step api handlers (used, w) (Returned i) (used, finish_call api i w)"

inductive flow_run :: "pending_api \<Rightarrow> (string \<Rightarrow> bool) \<Rightarrow> string set \<times> flow_state \<Rightarrow> flow_event list \<Rightarrow> string set \<times> flow_state \<Rightarrow> bool"
  for api handlers where
  flow_done: "flow_run api handlers c [] c"
| flow_more: "flow_run api handlers c es c' \<Longrightarrow> flow_step api handlers c' e c'' \<Longrightarrow> flow_run api handlers c (es @ [e]) c''"

inductive_cases flow_stepE: "flow_step api handlers (used, w) e c"

section \<open>Facts\<close>

lemma tbl_get_row_id: "tbl_get row_id i d = Some r \<Longrightarrow> row_id r = i \<and> r \<in> set d"
  by (auto dest: tbl_get_SomeD tbl_get_mem)

lemma pending_create: "pending_api_ok api \<Longrightarrow> pa_create api a d = Some d' \<Longrightarrow>
    only_at api (ap_id a) (Some \<lparr>pn_approval = a, pn_status = ''pending''\<rparr>) d d'"
  by (simp add: pending_api_ok_def)

lemma pending_delete: "pending_api_ok api \<Longrightarrow> only_at api i None d (pa_delete api i d)"
  by (simp add: pending_api_ok_def)

lemma pending_transition:
  assumes "pending_api_ok api" "pa_transition api i p q d = (b, d')"
  shows "(b \<longrightarrow> (\<exists>r. pa_get api i d = Some r \<and> pn_status r = p \<and> only_at api i (Some (r\<lparr>pn_status := q\<rparr>)) d d'))
    \<and> (\<not> b \<longrightarrow> d' = d)"
proof -
  have c: "pa_transition api i p q d = (case pa_get api i d of
      Some r \<Rightarrow> (if pn_status r = p then (True, snd (pa_transition api i p q d)) else (False, d)) | None \<Rightarrow> (False, d))"
    using assms(1) unfolding pending_api_ok_def by blast
  have "pa_transition api i p q d = (True, d') \<longrightarrow> only_at api i (map_option (\<lambda>r. r\<lparr>pn_status := q\<rparr>) (pa_get api i d)) d d'"
    using assms(1) unfolding pending_api_ok_def by blast
  then have t: "b \<Longrightarrow> only_at api i (map_option (\<lambda>r. r\<lparr>pn_status := q\<rparr>) (pa_get api i d)) d d'" using assms(2) by simp
  show ?thesis
  proof (cases "pa_get api i d")
    case None
    with c assms(2) show ?thesis by simp
  next
    case (Some r)
    with c t assms(2) show ?thesis by (cases "pn_status r = p") auto
  qed
qed

lemma got_row_id: "tbl_get row_id i d = Some r \<Longrightarrow> ap_id (pn_approval r) = i"
  using tbl_get_row_id [of i d r] by (simp add: row_id_def)

lemma get_front: "tbl_get row_id i (r # d) = (if row_id r = i then Some r else tbl_get row_id i d)"
  by (simp add: tbl_get_def)

lemma get_deleted: "tbl_get row_id k (tbl_delete (\<lambda>r. row_id r = i) d) = (if k = i then None else tbl_get row_id k d)"
  by (induction d) (auto simp: tbl_get_def tbl_delete_def)

lemma row_id_made: "row_id \<lparr>pn_approval = a, pn_status = st\<rparr> = ap_id a"
  by (simp add: row_id_def)

lemma distinct_looked_up: "distinct is \<Longrightarrow> distinct (map row_id (List.map_filter (\<lambda>i. tbl_get row_id i d) is))
    \<and> set (map row_id (List.map_filter (\<lambda>i. tbl_get row_id i d) is)) \<subseteq> set is"
  by (induction "is") (auto simp: List.map_filter_simps dest: tbl_get_row_id split: option.split)

lemma looked_up: "r \<in> set (List.map_filter (\<lambda>i. tbl_get row_id i d) (in_order (map row_id d))) \<longleftrightarrow> tbl_get row_id (row_id r) d = Some r"
proof
  assume "r \<in> set (List.map_filter (\<lambda>i. tbl_get row_id i d) (in_order (map row_id d)))"
  then obtain i where "tbl_get row_id i d = Some r" by (auto simp: List.map_filter_def)
  with tbl_get_row_id [OF this] show "tbl_get row_id (row_id r) d = Some r" by simp
next
  assume r: "tbl_get row_id (row_id r) d = Some r"
  with tbl_get_row_id [OF r] show "r \<in> set (List.map_filter (\<lambda>i. tbl_get row_id i d) (in_order (map row_id d)))"
    by (force simp: List.map_filter_def)
qed

lemma host_pending_api_ok: "pending_api_ok host_pending_api"
  unfolding pending_api_ok_def
proof (intro conjI allI impI)
  fix c d
  let ?rows = "List.map_filter (\<lambda>i. tbl_get row_id i d) (in_order (map row_id d))"
  have "distinct (map row_id ?rows)" using distinct_looked_up [OF distinct_in_order] by blast
  then show "distinct (map ap_id (pa_expired host_pending_api c d))"
    by (simp add: host_pending_api_def row_id_def [abs_def] comp_def distinct_map_filterI)
  fix a
  show "a \<in> set (pa_expired host_pending_api c d) \<longleftrightarrow>
      (\<exists>r. pa_get host_pending_api (ap_id a) d = Some r \<and> pn_approval r = a \<and> pn_status r = ''pending'' \<and> ap_created a < c)"
    using looked_up [of _ d] by (auto simp: host_pending_api_def row_id_def [symmetric] dest: tbl_get_row_id)
qed (auto simp: host_pending_api_def only_at_def get_front get_deleted row_id_made got_row_id
    split: if_splits option.splits)

section \<open>An approval is carried out once\<close>

definition approvals_of :: "string \<Rightarrow> flow_state \<Rightarrow> nat" where
  "approvals_of i w = length (filter (\<lambda>(ap, out, u). ap_id ap = i \<and> out = OApprove) (fl_calls w))"

text \<open>An id not drawn has no row, and one whose approval was carried out has no pending row.\<close>

definition settled :: "pending_api \<Rightarrow> string set \<times> flow_state \<Rightarrow> bool" where
  "settled api c = (\<forall>i. (i \<notin> fst c \<longrightarrow> pa_get api i (fl_rows (snd c)) = None \<and> approvals_of i (snd c) = 0)
     \<and> approvals_of i (snd c) \<le> 1
     \<and> (0 < approvals_of i (snd c) \<longrightarrow> (\<forall>r. pa_get api i (fl_rows (snd c)) = Some r \<longrightarrow> pn_status r \<noteq> ''pending'')))"

lemma settledI:
  assumes "settled api (used, w)" "used \<subseteq> used'"
    and "\<And>i. i \<notin> used' \<Longrightarrow> pa_get api i (fl_rows w') = None"
    and "\<And>i. approvals_of i w' = approvals_of i w \<or> (i \<in> used' \<and> approvals_of i w = 0 \<and> approvals_of i w' = 1)"
    and "\<And>i r. 0 < approvals_of i w' \<Longrightarrow> pa_get api i (fl_rows w') = Some r \<Longrightarrow> pn_status r \<noteq> ''pending''"
  shows "settled api (used', w')"
  unfolding settled_def fst_conv snd_conv
proof (intro allI conjI impI)
  fix i
  have old: "i \<notin> used \<longrightarrow> approvals_of i w = 0" "approvals_of i w \<le> 1"
    using assms(1) by (simp_all add: settled_def)
  show "approvals_of i w' \<le> 1" using assms(4) [of i] old by auto
  { assume "i \<notin> used'"
    then show "pa_get api i (fl_rows w') = None" "approvals_of i w' = 0" using assms(2) assms(3) [of i] assms(4) [of i] old(1) by auto }
qed (use assms(5) in blast)

lemma approvals_of_begin:
  "approvals_of i (begin_call ap out u w) = approvals_of i w + (if ap_id ap = i \<and> out = OApprove then 1 else 0)"
  by (simp add: approvals_of_def begin_call_def)

lemma approvals_of_rows [simp]: "approvals_of i (w\<lparr>fl_rows := x\<rparr>) = approvals_of i w"
    "approvals_of i (w\<lparr>fl_rows := x, fl_running := y\<rparr>) = approvals_of i w"
  by (simp_all add: approvals_of_def)

lemma begin_call_rows [simp]: "fl_rows (begin_call ap out u w) = fl_rows w"
  by (simp add: begin_call_def)

lemma settled_resolve:
  assumes ok: "pending_api_ok api" and s: "settled api (used, w)" and u: "ap_id ap \<in> used"
    and r: "resolve_sessionless_approval api handlers ap option u w = (res, w')"
  shows "settled api (used, w')"
proof (cases "handlers (ap_action ap)")
  case False
  with r s show ?thesis by (simp add: resolve_sessionless_approval_def)
next
  case h: True
  have old: "i \<notin> used \<Longrightarrow> pa_get api i (fl_rows w) = None"
      "0 < approvals_of i w \<Longrightarrow> pa_get api i (fl_rows w) = Some x \<Longrightarrow> pn_status x \<noteq> ''pending''"
      "approvals_of i w \<le> 1" for i x
    using s by (simp_all add: settled_def)
  show ?thesis
  proof (cases "outcome_of option")
    case OReject
    with r h have "w' = begin_call ap OReject u w" by (simp add: resolve_sessionless_approval_def)
    then show ?thesis using old by (intro settledI [OF s order.refl]) (auto simp: approvals_of_begin)
  next
    case OApprove
    obtain b rows where t: "pa_transition api (ap_id ap) ''pending'' ''approved'' (fl_rows w) = (b, rows)" by fastforce
    show ?thesis
    proof (cases b)
      case False
      with r h OApprove t s show ?thesis by (simp add: resolve_sessionless_approval_def)
    next
      case True
      then obtain x where x: "pa_get api (ap_id ap) (fl_rows w) = Some x" "pn_status x = ''pending''"
          and new: "only_at api (ap_id ap) (Some (x\<lparr>pn_status := ''approved''\<rparr>)) (fl_rows w) rows"
        using pending_transition [OF ok t] by auto
      have w': "w' = begin_call ap OApprove u (w\<lparr>fl_rows := rows\<rparr>)"
        using r h OApprove t True by (simp add: resolve_sessionless_approval_def)
      have none: "approvals_of (ap_id ap) w = 0" using old(2) [OF _ x(1)] x(2) by auto
      show ?thesis
      proof (rule settledI [OF s order.refl])
        fix i assume i: "i \<notin> used"
        with u have "i \<noteq> ap_id ap" by blast
        with old(1) [OF i] new show "pa_get api i (fl_rows w') = None" unfolding w' by (simp add: only_at_def)
      next
        fix i show "approvals_of i w' = approvals_of i w \<or> (i \<in> used \<and> approvals_of i w = 0 \<and> approvals_of i w' = 1)"
          using none u unfolding w' by (auto simp: approvals_of_begin)
      next
        fix i y assume a: "0 < approvals_of i w'" "pa_get api i (fl_rows w') = Some y"
        show "pn_status y \<noteq> ''pending''"
        proof (cases "i = ap_id ap")
          case True
          with a(2) new show ?thesis unfolding w' by (auto simp: only_at_def)
        next
          case False
          with a new old(2) show ?thesis unfolding w' by (auto simp: only_at_def approvals_of_begin)
        qed
      qed
    qed
  qed
qed

lemma settled_flow_step:
  assumes ok: "pending_api_ok api" and s: "settled api c" and st: "flow_step api handlers c e c'"
  shows "settled api c'"
  using st s
proof cases
  case (raised ap used w rows)
  have new: "only_at api (ap_id ap) (Some \<lparr>pn_approval = ap, pn_status = ''pending''\<rparr>) (fl_rows w) rows"
    by (rule pending_create [OF ok raised(5)])
  have zero: "approvals_of (ap_id ap) w = 0" using s raised(1,4) by (simp add: settled_def)
  show ?thesis
    unfolding raised(3)
  proof (rule settledI [OF s [unfolded raised(1)]])
    fix i assume "i \<notin> insert (ap_id ap) used"
    with s raised(1) new show "pa_get api i (fl_rows (w\<lparr>fl_rows := rows\<rparr>)) = None" by (auto simp: settled_def only_at_def)
  next
    fix i r assume "0 < approvals_of i (w\<lparr>fl_rows := rows\<rparr>)" "pa_get api i (fl_rows (w\<lparr>fl_rows := rows\<rparr>)) = Some r"
    with s raised(1) new zero show "pn_status r \<noteq> ''pending''" by (cases "i = ap_id ap") (auto simp: settled_def only_at_def)
  qed auto
next
  case (clicked ap used option u w res w')
  then show ?thesis using settled_resolve [OF ok _ clicked(4,5)] s by simp
next
  case (returned i w used)
  have gone: "only_at api i None (fl_rows w) (pa_delete api i (fl_rows w))" by (rule pending_delete [OF ok])
  show ?thesis
    unfolding returned(3) finish_call_def
  proof (rule settledI [OF s [unfolded returned(1)] order.refl])
    fix k assume "k \<notin> used"
    with s returned(1) gone show "pa_get api k (fl_rows (w\<lparr>fl_rows := pa_delete api i (fl_rows w), fl_running := remove1 i (fl_running w)\<rparr>)) = None"
      by (cases "k = i") (auto simp: settled_def only_at_def)
  next
    fix k r assume "0 < approvals_of k (w\<lparr>fl_rows := pa_delete api i (fl_rows w), fl_running := remove1 i (fl_running w)\<rparr>)"
      "pa_get api k (fl_rows (w\<lparr>fl_rows := pa_delete api i (fl_rows w), fl_running := remove1 i (fl_running w)\<rparr>)) = Some r"
    with s returned(1) gone show "pn_status r \<noteq> ''pending''"
      by (cases "k = i") (auto simp: settled_def only_at_def)
  qed auto
qed

text \<open>
  C13: However many people click, in whatever order, with rows read at any earlier time, while handlers run and
  while the sweep expires requests, a request without a session is handed to its handler as approved at most
  once.
\<close>
theorem approved_at_most_once:
  assumes "pending_api_ok api" and "flow_run api handlers (used, w) es (used', w')"
    and "fl_calls w = []" and "\<forall>i. i \<notin> used \<longrightarrow> pa_get api i (fl_rows w) = None"
  shows "length (filter (\<lambda>(ap, out, u). ap_id ap = i \<and> out = OApprove) (fl_calls w')) \<le> 1"
proof -
  have "settled api (used, w)" using assms(3,4) by (simp add: settled_def approvals_of_def)
  with assms(2) have "settled api (used', w')"
    by (induction "(used, w)" es "(used', w')" arbitrary: used' w' rule: flow_run.induct)
      (auto intro: settled_flow_step [OF assms(1)])
  then show ?thesis by (simp add: settled_def approvals_of_def)
qed

section \<open>What expires\<close>

text \<open>\<open>finalizeReject\<close> leaves every other approval's row alone.\<close>

definition finalize_ok :: "pending_api \<Rightarrow> expiry_run \<Rightarrow> bool" where
  "finalize_ok api x = (\<forall>ap d k. k \<noteq> ap_id ap \<longrightarrow> pa_get api k (snd (xr_finalize x ap d)) = pa_get api k d)"

definition takes_reject :: "expiry_run \<Rightarrow> approval \<Rightarrow> bool" where
  "takes_reject x ap = (\<not> truthy (ap_session ap) \<and> xr_handlers x (ap_action ap))"

lemma resolve_reject:
  "resolve_sessionless_approval api h ap ''reject'' u w = (if h (ap_action ap) then (Called, begin_call ap OReject u w) else (NoHandler, w))"
  by (simp add: resolve_sessionless_approval_def outcome_of_def)

lemma expire_one_effect:
  assumes ok: "pending_api_ok api" "finalize_ok api x" and r: "expire_one api x ap w = (one, w')"
  shows "k \<noteq> ap_id ap \<Longrightarrow> pa_get api k (fl_rows w') = pa_get api k (fl_rows w)"
    and "takes_reject x ap \<Longrightarrow> pa_get api (ap_id ap) (fl_rows w') = None"
    and "fl_calls w' = fl_calls w @ (if takes_reject x ap then [(ap, OReject, ''system:expiry'')] else [])"
    and "fl_running w' = fl_running w"
    and "one \<Longrightarrow> \<not> truthy (ap_session ap) \<Longrightarrow> takes_reject x ap"
  using r ok(2) pending_delete [OF ok(1), of "ap_id ap"]
  by (auto simp: expire_one_def takes_reject_def resolve_reject finish_call_def begin_call_def finalize_ok_def only_at_def
      split: if_splits prod.splits)
    (metis snd_conv)+

lemma expire_all_effect:
  assumes ok: "pending_api_ok api" "finalize_ok api x"
  shows "expire_all api x aps w = (n, w') \<Longrightarrow>
    (\<forall>k. k \<notin> ap_id ` set aps \<longrightarrow> pa_get api k (fl_rows w') = pa_get api k (fl_rows w))
    \<and> fl_calls w' = fl_calls w @ map (\<lambda>ap. (ap, OReject, ''system:expiry'')) (filter (takes_reject x) aps)
    \<and> n \<le> length aps"
proof (induction aps arbitrary: w n w')
  case (Cons ap aps)
  obtain one w1 m w2 where st: "expire_one api x ap w = (one, w1)" "expire_all api x aps w1 = (m, w2)" by fastforce
  then have w': "w' = w2" "n = (if one then Suc m else m)" using Cons.prems by auto
  note e = expire_one_effect [OF ok st(1)]
  show ?case using Cons.IH [OF st(2)] e(1,3) w' by auto
qed simp

lemma expire_all_gone:
  assumes ok: "pending_api_ok api" "finalize_ok api x"
  shows "expire_all api x aps w = (n, w') \<Longrightarrow> distinct (map ap_id aps) \<Longrightarrow> ap \<in> set aps \<Longrightarrow> takes_reject x ap
    \<Longrightarrow> pa_get api (ap_id ap) (fl_rows w') = None"
proof (induction aps arbitrary: w n w')
  case (Cons a aps)
  obtain one w1 m w2 where st: "expire_one api x a w = (one, w1)" "expire_all api x aps w1 = (m, w2)" by fastforce
  then have w': "w' = w2" using Cons.prems by auto
  show ?case
  proof (cases "ap \<in> set aps")
    case True
    with Cons.IH [OF st(2)] Cons.prems w' show ?thesis by simp
  next
    case False
    then have ap: "ap = a" using Cons.prems(3) by simp
    then have "ap_id ap \<notin> ap_id ` set aps" using Cons.prems(2) by simp
    then show ?thesis
      using expire_all_effect [OF ok st(2)] expire_one_effect(2) [OF ok st(1)] Cons.prems(4) ap w' by simp
  qed
qed simp


section \<open>Examples\<close>

definition pairing :: "string \<Rightarrow> millis \<Rightarrow> approval" where
  "pairing i created = \<lparr>ap_id = i, ap_session = None, ap_action = ''pair'', ap_payload = ''{}'', ap_title = ''t'', ap_approver = None,
     ap_created = created\<rparr>"

definition no_flow :: flow_state where
  "no_flow = \<lparr>fl_rows = [], fl_calls = [], fl_running = []\<rparr>"

definition pairs_only :: "string \<Rightarrow> bool" where
  "pairs_only action = (action = ''pair'')"

text \<open>
  Two people approve and one rejects while the handler of the first is still running: the second approval is
  ignored, but the rejection is handed to the handler too.
\<close>

definition double_click :: "flow_event list" where
  "double_click = [Raised (pairing ''p'' 0), Clicked (pairing ''p'' 0) ''approve'' ''ann'', Clicked (pairing ''p'' 0) ''approve'' ''bob'',
     Clicked (pairing ''p'' 0) ''reject'' ''cyd'']"

definition after_double_click :: flow_state where
  "after_double_click = \<lparr>fl_rows = [\<lparr>pn_approval = pairing ''p'' 0, pn_status = ''approved''\<rparr>],
     fl_calls = [(pairing ''p'' 0, OApprove, ''ann''), (pairing ''p'' 0, OReject, ''cyd'')], fl_running = [''p'', ''p'']\<rparr>"

lemma rejection_follows_an_approval:
  "flow_run host_pending_api pairs_only ({}, no_flow) double_click ({''p''}, after_double_click)"
proof -
  let ?step = "flow_step host_pending_api pairs_only"
  let ?click = "\<lambda>opt u w. snd (resolve_sessionless_approval host_pending_api pairs_only (pairing ''p'' 0) opt u w)"
  let ?row = "\<lambda>st. [\<lparr>pn_approval = pairing ''p'' 0, pn_status = st\<rparr>]"
  let ?w1 = "no_flow\<lparr>fl_rows := ?row ''pending''\<rparr>"
  let ?w2 = "\<lparr>fl_rows = ?row ''approved'', fl_calls = [(pairing ''p'' 0, OApprove, ''ann'')], fl_running = [''p'']\<rparr>"
  note defs = pairing_def no_flow_def after_double_click_def host_pending_api_def tbl_get_def tbl_delete_def row_id_def
    resolve_sessionless_approval_def begin_call_def outcome_of_def pairs_only_def
  have "pa_create host_pending_api (pairing ''p'' 0) (fl_rows no_flow) = Some (?row ''pending'')" by (simp add: defs)
  then have "?step ({}, no_flow) (Raised (pairing ''p'' 0)) (insert (ap_id (pairing ''p'' 0)) {}, ?w1)"
    by (intro flow_step.raised) simp_all
  then have raise: "?step ({}, no_flow) (Raised (pairing ''p'' 0)) ({''p''}, ?w1)" by (simp add: pairing_def)
  have click: "?step ({''p''}, w) (Clicked (pairing ''p'' 0) opt u) ({''p''}, ?click opt u w)" for w opt u
    by (rule flow_step.clicked [OF _ surjective_pairing]) (simp add: pairing_def)
  have ann: "?click ''approve'' ''ann'' ?w1 = ?w2" by (simp add: defs)
  have bob: "?click ''approve'' ''bob'' ?w2 = ?w2" by (simp add: defs)
  have cyd: "?click ''reject'' ''cyd'' ?w2 = after_double_click"
    by (simp add: defs)
  note run = flow_run.flow_more [OF flow_run.flow_more [OF flow_run.flow_more [OF flow_run.flow_more [OF flow_run.flow_done raise]
    click [of ?w1 "''approve''" "''ann''", unfolded ann]] click [of ?w2 "''approve''" "''bob''", unfolded bob]]
    click [of ?w2 "''reject''" "''cyd''"]]
  show ?thesis using run cyd by (simp add: double_click_def)
qed

theorem approved_at_most_once_witness:
  "length (filter (\<lambda>(ap, out, u). ap_id ap = ''p'' \<and> out = OApprove) (fl_calls after_double_click)) \<le> 1"
  by (rule approved_at_most_once [OF host_pending_api_ok rejection_follows_an_approval])
    (simp_all add: no_flow_def host_pending_api_def tbl_get_def)

definition no_host_run :: expiry_run where
  "no_host_run = \<lparr>xr_handlers = pairs_only, xr_handler_raises = (\<lambda>_. False), xr_session = (\<lambda>_. False), xr_finalize = (\<lambda>_ d. (None, d))\<rparr>"

definition two_pairings :: flow_state where
  "two_pairings = no_flow\<lparr>fl_rows := [\<lparr>pn_approval = pairing ''old'' 0, pn_status = ''pending''\<rparr>,
     \<lparr>pn_approval = pairing ''new'' 90000000, pn_status = ''pending''\<rparr>]\<rparr>"


end
