(* ===== verification/Spec2Isabelle.thy ===== *)
theory Spec2Isabelle
  imports TaskPolicyFacts WiringFacts ThreadFacts UserFacts CredentialPolicy LimitRetry RetentionFacts
    NetFacts FilterFacts InstructionFacts WorkloadRuns LoginFacts AdminFacts PermissionFacts RequestGuard
    LiveMessages RoomRouteFacts PrejudgeFacts ApprovalFlow
begin

text \<open>
  A model of the host side of NanoClaw Webchat: a chat server in which people and agents share rooms,
  agents run in containers, and the host decides who reaches which room, which messages an agent
  answers, under whose credential it runs, where its traffic may go, and when a failed scheduled task
  is tried again. The code is TypeScript under \<open>src/app/src\<close>; \<open>webchat/\<close> below is
  \<open>src/app/src/channels/webchat/\<close> and \<open>modules/\<close> is \<open>src/app/src/modules/\<close>.

  How the parts fit. One SQLite database (\<open>webchat/db.ts\<close>, \<open>webchat/migration.ts\<close>) holds rooms, wirings,
  messages, threads and per-user state; every other part reads it. A message stored in a room engages the
  agents whose pattern matches it (wiring), provided its sender may reach the room (access) and holds the
  credential the room asks for (member credentials); the limit retry sends a message again on the same
  conditions. The container a message wakes starts after the instruction guard has compared the agent's
  standing instructions with their approved text, and its traffic leaves through the egress filter. Task
  health watches the scheduled runs, and retention removes sessions that none of this needs any more.

  Conventions (\<open>Prelude\<close>, \<open>Tables\<close>, \<open>TextScan\<close>, \<open>TextRules\<close>). Text is \<open>string\<close>, one character for one
  UTF-16 unit of the code, with stand-ins for the few characters above 255 that it writes. A missing or null
  value is \<open>None\<close>; \<open>truthy\<close> and \<open>coalesce\<close> are \<open>if (x)\<close> and \<open>??\<close>. Times are integers in milliseconds and
  are arguments, as are random draws and generated ids. A table is a list of rows with a key function, and the
  statements of the code are \<open>tbl_get\<close>, \<open>tbl_insert_new\<close>, \<open>tbl_upsert\<close>, \<open>tbl_update\<close>, \<open>tbl_delete\<close>; the
  locale \<open>keyed_store\<close> is their contract and the task incidents interpret it. Errors are values: the left of a sum, or
  a constructor of the result. Functions of the host that are not in the repository (NanoClaw's own
  messaging groups, wirings and destinations, anchored directories, guard framework, credential vault) are
  records of functions; the laws the code relies on are predicates (\<open>mg_api_ok\<close>, \<open>wire_api_ok\<close>,
  \<open>disk_api_ok\<close>, \<open>guard_ok\<close>), each with an instance that satisfies them.

  Task health (\<open>TaskStore\<close>, \<open>TaskIncidents\<close>, \<open>TaskPolicy\<close>, \<open>TaskPolicyFacts\<close>; \<open>modules/task-health\<close>). The
  run records and incidents of \<open>store.ts\<close>, the alerts of \<open>incidents.ts\<close> and \<open>notify.ts\<close>, and the pass of
  \<open>policy.ts\<close> over the inbound and outbound mailboxes. Shown: a run that reached the model is not run
  again, at most three retries at 5, 15 and 30 minutes, one alert for a streak of one failure, and the order and
  spacing of alerts, all over arbitrary sequences of passes.

  Rooms, wiring and messages (\<open>ChatDb\<close>, \<open>RoomStore\<close>, \<open>RoomFacts\<close>, \<open>MentionRegex\<close>, \<open>AgentWiring\<close>,
  \<open>WiringFacts\<close>, \<open>MessageStore\<close>; \<open>webchat/db.ts\<close>, \<open>webchat/server/agent-wiring.ts\<close>). The regular expressions the
  code stores are read by a matcher for the constructs they use. Shown: which messages engage which agent and that a
  room with a prime always answers, that deletion of a room reaches every table of its cascade, that history pages tile, and who may
  delete a message.

  Access (\<open>Access\<close>; \<open>webchat/roles.ts\<close>, \<open>access.ts\<close>, \<open>async-array.ts\<close>). The locale \<open>authority\<close> is the contract of a role
  that decides, interpreted for owners and global admins. Shown: a room is open to a user exactly when it has agents and all are allowed, who may
  archive, and that logins make one owner.

  Threads and context sync (\<open>ThreadStore\<close>, \<open>ThreadFacts\<close>; \<open>webchat/db.ts\<close>, \<open>webchat/server/routes-rooms.ts\<close>,
  \<open>modules/user-credentials/identity.ts\<close>). Shown: a sync lands once, in order and without echo, session keys decode, thread ids sent
  by clients open a bounded number of lanes.

  Per-user state and settings (\<open>UserState\<close>, \<open>UserFacts\<close>, \<open>SettingsStore\<close>; \<open>webchat/db.ts\<close>). Read marks, pins, hides,
  archives, handles, and the workspace, room and model settings; the locale \<open>flag_table\<close> is shared by three tables. Shown: handles resolve, marks only
  lower counts, settings do not overwrite one another.

  Member credentials (\<open>CredentialPolicy\<close>; \<open>modules/user-credentials\<close>). Shown: in a room that requires own credentials
  a turn runs under the member's own permitted one or is refused.

  Limit retry (\<open>LimitRetry\<close>; \<open>webchat/limit-retry.ts\<close>). The sweep as code and as a step relation in which sweeps, requests and
  cancellations interleave; the first refines the second, and in the second a message is stored at most once.

  Session retention (\<open>Retention\<close>, \<open>RetentionFacts\<close>; \<open>src/app/src/session-retention.ts\<close>). Shown: a session that a new message would
  resume survives, what goes has passed every rule, and the dry run lists what a run removes.

  Egress (\<open>NetAddress\<close>, \<open>NetFacts\<close>, \<open>EgressPolicy\<close>, \<open>EgressFacts\<close>, \<open>EgressFilter\<close>, \<open>FilterFacts\<close>;
  \<open>webchat/egress-policy.ts\<close>, \<open>egress-filter.ts\<close>). Addresses, allowlist patterns, modes, the proxy's parsing of a request head and
  its routing. Shown: a connection leaves only for a known caller and where its policy allows, the
  gateway is sent the request that was checked, one request per connection however the stream is cut, and the meaning of
  patterns and address ranges.

  Instruction guard (\<open>LineDiff\<close>, \<open>DiffFacts\<close>, \<open>InstructionGuard\<close>, \<open>InstructionGate\<close>, \<open>GuardFacts\<close>,
  \<open>InstructionFacts\<close>; \<open>modules/instruction-guard\<close>). The diff, the store of approved text, the check at a spawn, the approval and its decision, and a
  step relation of spawns, agent writes, owner writes and decisions. Shown: without an owner's write or an approval of that file
  every spawn that passes runs on the recorded text, an approval applies exactly what was held, the
  diff is faithful, minimal, within its budget and never silently cut.

  Workload stacks (\<open>PlainRegex\<close>, \<open>StackPolicy\<close>, \<open>StackCheck\<close>, \<open>StackFacts\<close>, \<open>WorkloadShape\<close>, \<open>WorkloadNet\<close>, \<open>WorkloadStore\<close>,
  \<open>WorkloadFiles\<close>, \<open>WorkloadControl\<close>, \<open>WorkloadFacts\<close>, \<open>WorkloadQuota\<close>, \<open>WorkloadRuns\<close>; \<open>modules/workloads\<close>). The checks of a
  Compose file, what an owner approves of it, addresses and networks, the rows, the files Compose runs from, and the commands.
  The YAML parser, the registry, the files of the agent's folder and Docker are functions that may answer anything. Doubles are
  rationals, reasons are constructors; a name every JavaScript object inherits is refused by the code under another wording, and
  maps keep the order they were written in. Shown: an accepted stack is confined and fits its quota, the quota holds over any run of
  commands, containers start only from what an owner approved, an approval covers what its card pinned, a redeploy stays within it, the
  host's environment fills in nothing, and networks are disjoint.

  Sign-in (\<open>SignIn\<close>, \<open>SignInFacts\<close>, \<open>SignInConfig\<close>, \<open>SignInSettings\<close>, \<open>TailnetServe\<close>, \<open>TokenCheck\<close>, \<open>TokenFacts\<close>,
  \<open>RequestAuth\<close>, \<open>Authenticate\<close>, \<open>AuthFacts\<close>, \<open>AuthIds\<close>, \<open>SignInAdmin\<close>, \<open>AdminFacts\<close>, \<open>OidcLogin\<close>, \<open>LoginFacts\<close>;
  \<open>webchat/signins.ts\<close>, \<open>auth.ts\<close>, \<open>signin-settings.ts\<close>, \<open>env-write.ts\<close>, \<open>env-load.ts\<close>, \<open>tailscale-serve.ts\<close>, \<open>oidc-login.ts\<close>,
  \<open>server/routes-signin.ts\<close>, \<open>server/routes-signin-settings.ts\<close>). Sessions and linked accounts, the methods by which a request is
  authenticated and their order, signing keys and token checks, single sign-on from its first redirect to its callback, and
  the settings an owner changes. The signature check, base64 and JSON readers, the URL reader, the Tailscale command and the
  provider's answers are functions; requests are taken one at a time, except that fetches of signing keys interleave.
  Shown: a request is signed in only as one of the methods entitles it to be, a callback signs in the browser that
  began the attempt and no other, an owner cannot turn off the method in use, sessions live exactly their time, linking
  joins exactly two accounts, key fetches are spaced, and the environment file agrees with what was set.

  Permissions (\<open>Permissions\<close>, \<open>PermissionFacts\<close>; \<open>webchat/server/routes-users.ts\<close>, the guards of \<open>webchat/server.ts\<close>).
  Granting, revoking, deleting a user and the directory, over the host's tables as a record of functions with their
  laws (\<open>perm_api_ok\<close>). Shown: an owner always remains while requests are taken one at a time, people who are not owners
  change no role and only the memberships of groups they administer, and the directory shows an admin only those groups.

  Request guard (\<open>RequestGuard\<close>; \<open>webchat/request-guard.ts\<close>, the upgrade and the log budget of \<open>webchat/ws.ts\<close>,
  \<open>webchat/server/rate-limit.ts\<close>). Shown: an upgrade from a foreign page or under a rebound name is refused before anyone is
  authenticated, and what strangers can make the server log is bounded and fully counted.

  Live clients (\<open>LiveClients\<close>, \<open>SocketFrames\<close>, \<open>LiveFacts\<close>, \<open>LiveRuns\<close>, \<open>LiveMessages\<close>; \<open>webchat/state.ts\<close>, \<open>webchat/ws.ts\<close>,
  \<open>webchat/push.ts\<close>). The registry of connected clients, the frames of a socket, the fan-out of a message with its unread
  signals, mirrors and notifications, the room lists and what they end, the copies of what agents tell each other. A frame
  sent is a pair of a client's id and the frame. \<open>tied\<close> says of a state that everything sent since a given point and every
  open binding stays within a relation of users and rooms; each operation keeps it, and a run follows. Shown: what a room
  shows goes only to people who may reach it, over runs that change access in between; a message is stored, routed and
  sent to each open client of its room exactly once, a resend within ten seconds does nothing, and no message text that
  is sent, replayed, mirrored or pushed holds a known token (masking as in \<open>Redact\<close>).

  Approvals (\<open>Json\<close>, \<open>Redact\<close>, \<open>Prejudge\<close>, \<open>PrejudgeFacts\<close>, \<open>ApprovalFlow\<close>; \<open>modules/approvals\<close>, \<open>webchat/redact.ts\<close>).
  Masking of credentials as a backtracking matcher does it, the reader of a model's JSON reply (nested as deep as its text
  allows: the fuel is shown to be enough), the model tier in front of approvals with its settings, records and card, approvals
  without a session as a step relation of clicks and returning handlers, and expiry. The host's table of pending approvals and
  the model services are parameters. Shown: when the tier approves and that privileged commands always reach people, no known
  token survives masking or gets into a prompt, the card shows what was judged, an approval is carried out at most once, and a
  sweep denies only what is overdue.

  Room routes (\<open>RoomRoutes\<close>, \<open>RoomRouteFacts\<close>; \<open>webchat/server/routes-rooms.ts\<close>, \<open>server/route-guards.ts\<close>,
  \<open>src/app/src/session-teardown.ts\<close>). The requests that make, change and delete rooms, with their guards. Shown: people
  without an admin role change nothing but their own view, and every change of access is followed by new room lists or
  takes nothing away.

  Bounds and fuel. The walk of the diff is a partial function, shown to end on every pair of files. Loops over lists are structural.
  The handle search of \<open>ensureWebchatUserHandle\<close> tries the thousand candidates the code tries. Digests are
  compared, never inverted: where two texts are said to be the same, the statement says that their digests are.
  A directory in the guard may be changed by a running container between the test of an entry and its opening (\<open>swap\<close>).
  IEEE rounding and the time a query takes are not modelled.

  Not modelled, and why. Clients of other services (the credential vault, Cloudflare, Tailscale, model servers, speech, the push service),
  Docker and iptables calls, HTTP plumbing, the read routes, the browser client and its generated bundle, the
  editor extension, migrations other than the keys and defaults read from them, command-line formatting.
  Audit rows are modelled where a handler writes them as part of its effect. What a next step would take up: reconciliation and publishing of
  workload stacks, the tool-result guard, transfer archives, the skill curator.
\<close>

end
